(* ===== verification/Prelude.thy ===== *)
theory Prelude
  imports Complex_Main
begin

text \<open>
  Shared vocabulary of the development. A fallible operation of the TypeScript sources
  returns a value of the sum type: \<open>Inl e\<close> is a thrown error, \<open>Inr x\<close> a normal return.
  Every modelled function runs inside the caller's database transaction, so a thrown error
  carries no state: the transaction is rolled back.

  A database table is the list of its rows. The four statement shapes the sources use
  (select with a where clause, the first row of such a select, update, delete) are list
  functions over a row predicate. The collections below gather the rewrite rules that the
  component proofs use.
\<close>

named_theorems result_simps \<open>inversion of sequenced fallible operations\<close>
named_theorems table_simps \<open>what a statement leaves in a table\<close>

section \<open>Fallible operations\<close>

definition bindE :: "'e + 'a \<Rightarrow> ('a \<Rightarrow> 'e + 'b) \<Rightarrow> 'e + 'b" where
  "bindE m f = (case m of Inl e \<Rightarrow> Inl e | Inr x \<Rightarrow> f x)"

definition throwIf :: "bool \<Rightarrow> 'e \<Rightarrow> 'e + unit" where
  "throwIf c e = (if c then Inl e else Inr ())"

definition orThrow :: "'a option \<Rightarrow> 'e \<Rightarrow> 'e + 'a" where
  "orThrow x e = (case x of None \<Rightarrow> Inl e | Some v \<Rightarrow> Inr v)"

lemma bindE_simps [simp]:
  "bindE (Inl e) f = Inl e"
  "bindE (Inr x) f = f x"
  by (simp_all add: bindE_def)

lemma throwIf_simps [simp]:
  "throwIf True e = Inl e"
  "throwIf False e = Inr ()"
  by (simp_all add: throwIf_def)

lemma orThrow_simps [simp]:
  "orThrow None e = Inl e"
  "orThrow (Some v) e = Inr v"
  by (simp_all add: orThrow_def)

lemma bindE_eq_Inr [result_simps]:
  "(bindE m f = Inr y) = (\<exists>x. m = Inr x \<and> f x = Inr y)"
  by (cases m) auto

lemma bindE_eq_Inl [result_simps]:
  "(bindE m f = Inl e) = (m = Inl e \<or> (\<exists>x. m = Inr x \<and> f x = Inl e))"
  by (cases m) auto

lemma throwIf_eq_Inr [result_simps]: "(throwIf c e = Inr u) = (\<not> c)"
  by (simp add: throwIf_def)

lemma throwIf_eq_Inl [result_simps]: "(throwIf c e = Inl e') = (c \<and> e' = e)"
  by (auto simp: throwIf_def)

lemma orThrow_eq_Inr [result_simps]: "(orThrow x e = Inr v) = (x = Some v)"
  by (cases x) auto

lemma orThrow_eq_Inl [result_simps]: "(orThrow x e = Inl e') = (x = None \<and> e' = e)"
  by (cases x) auto

lemma if_Inl_eq_Inr [result_simps]:
  "((if c then Inl e else m) = Inr y) = (\<not> c \<and> m = Inr y)"
  by simp

lemma returns_pair: "\<not> isl r \<Longrightarrow> \<exists>a b. r = Inr (a, b)"
  by (cases r) auto

section \<open>Tables as lists of rows\<close>

definition selectW :: "('r \<Rightarrow> bool) \<Rightarrow> 'r list \<Rightarrow> 'r list" where
  "selectW P t = filter P t"

definition select1 :: "('r \<Rightarrow> bool) \<Rightarrow> 'r list \<Rightarrow> 'r option" where
  "select1 P t = List.find P t"

definition updateW :: "('r \<Rightarrow> bool) \<Rightarrow> ('r \<Rightarrow> 'r) \<Rightarrow> 'r list \<Rightarrow> 'r list" where
  "updateW P f t = map (\<lambda>r. if P r then f r else r) t"

definition deleteW :: "('r \<Rightarrow> bool) \<Rightarrow> 'r list \<Rightarrow> 'r list" where
  "deleteW P t = filter (\<lambda>r. \<not> P r) t"

definition insertRow :: "'r \<Rightarrow> 'r list \<Rightarrow> 'r list" where
  "insertRow r t = t @ [r]"

lemma select1_Some [dest]: "select1 P t = Some r \<Longrightarrow> r \<in> set t \<and> P r"
  by (auto simp: select1_def find_Some_iff)

lemma select1_None_iff: "select1 P t = None \<longleftrightarrow> (\<forall>r \<in> set t. \<not> P r)"
  by (auto simp: select1_def find_None_iff)

lemma set_selectW [table_simps, simp]: "set (selectW P t) = {r \<in> set t. P r}"
  by (simp add: selectW_def)

lemma set_deleteW [table_simps, simp]: "set (deleteW P t) = {r \<in> set t. \<not> P r}"
  by (simp add: deleteW_def)

lemma set_insertRow [table_simps, simp]: "set (insertRow r t) = insert r (set t)"
  by (simp add: insertRow_def)

lemma set_updateW [table_simps]:
  "set (updateW P f t) = {r \<in> set t. \<not> P r} \<union> f ` {r \<in> set t. P r}"
  by (auto simp: updateW_def)

lemma updateW_memE:
  assumes "r \<in> set (updateW P f t)"
  obtains "r \<in> set t" and "\<not> P r" | r0 where "r0 \<in> set t" and "P r0" and "r = f r0"
  using assms by (auto simp: set_updateW)

lemma length_updateW [simp]: "length (updateW P f t) = length t"
  by (simp add: updateW_def)

lemma select1_updateW:
  assumes "\<And>r. P (f r) = P r"
  shows "select1 P (updateW P f t) = map_option f (select1 P t)"
  using assms by (induction t) (auto simp: select1_def updateW_def)

lemma select1_updateW_other:
  assumes "\<And>r. Q r \<Longrightarrow> \<not> P r" and "\<And>r. Q r \<Longrightarrow> \<not> P (f r)"
  shows "select1 P (updateW Q f t) = select1 P t"
  using assms by (induction t) (auto simp: select1_def updateW_def)

lemma select1_append_new:
  "select1 P t = None \<Longrightarrow> P r \<Longrightarrow> select1 P (t @ [r]) = Some r"
  by (induction t) (auto simp: select1_def split: if_splits)

lemma map_updateW_same:
  "(\<And>r. g (f r) = g r) \<Longrightarrow> map g (updateW P f t) = map g t"
  by (auto simp: updateW_def)

text \<open>
  Statements whose where clause and effect stay inside one tenant leave the rows of every
  other tenant alone. The owner of a row is read by \<open>own\<close>, which an update never changes.
\<close>

lemma filter_updateW_other:
  assumes "\<forall>r. P r \<longrightarrow> \<not> Q r \<and> \<not> Q (f r)"
  shows "filter Q (updateW P f t) = filter Q t"
  using assms by (induction t) (auto simp: updateW_def)

lemma filter_deleteW_other:
  assumes "\<forall>r. P r \<longrightarrow> \<not> Q r"
  shows "filter Q (deleteW P t) = filter Q t"
  using assms by (induction t) (auto simp: deleteW_def)

lemma filter_insertRow_other: "\<not> Q r \<Longrightarrow> filter Q (insertRow r t) = filter Q t"
  by (simp add: insertRow_def)

lemmas filter_other = filter_updateW_other filter_deleteW_other filter_insertRow_other

section \<open>Options\<close>

definition dflt :: "'a \<Rightarrow> 'a option \<Rightarrow> 'a" where
  "dflt d x = (case x of None \<Rightarrow> d | Some v \<Rightarrow> v)"

lemma dflt_simps [simp]: "dflt d None = d" "dflt d (Some v) = v"
  by (simp_all add: dflt_def)

end
