(* ===== verification/JsValue.thy ===== *)
theory JsValue
  imports Prelude "HOL-Library.Sublist"
begin

text \<open>
  JavaScript values as the modelled sources use them: what a \<open>jsonb\<close> column or a JSON body
  decodes to, plus \<open>undefined\<close> (a missing property). Numbers come from JSON, so they are
  finite; a finite double is a rational. Strings are lists of code units, here the Latin-1
  range. \<open>JFun k\<close> is the member \<open>k\<close> that every plain object inherits from
  \<open>Object.prototype\<close>: reading \<open>fields["constructor"]\<close> of an object without such a key
  gives it, not \<open>undefined\<close>.
\<close>

datatype jsval =
    JUndefined
  | JNull
  | JBool bool
  | JNum rat
  | JStr string
  | JArr "jsval list"
  | JObj "(string \<times> jsval) list"
  | JFun string

type_synonym jsobj = "(string \<times> jsval) list"

section \<open>Property access\<close>

definition objectPrototypeKeys :: "string list" where
  "objectPrototypeKeys =
    [''constructor'', ''__defineGetter__'', ''__defineSetter__'', ''hasOwnProperty'',
     ''__lookupGetter__'', ''__lookupSetter__'', ''isPrototypeOf'', ''propertyIsEnumerable'',
     ''toString'', ''valueOf'', ''__proto__'', ''toLocaleString'']"

definition objGet :: "jsobj \<Rightarrow> string \<Rightarrow> jsval" where
  "objGet o1 k =
     (case map_of o1 k of
        Some v \<Rightarrow> v
      | None \<Rightarrow> if k \<in> set objectPrototypeKeys then JFun k else JUndefined)"

definition hasOwn :: "jsobj \<Rightarrow> string \<Rightarrow> bool" where
  "hasOwn o1 k = (k \<in> fst ` set o1)"

fun objPut :: "string \<Rightarrow> jsval \<Rightarrow> jsobj \<Rightarrow> jsobj" where
  "objPut k v [] = [(k, v)]"
| "objPut k v ((k', w) # o1) = (if k = k' then (k, v) # o1 else (k', w) # objPut k v o1)"

definition objSpread :: "jsobj \<Rightarrow> jsobj \<Rightarrow> jsobj" where
  "objSpread a b = fold (\<lambda>(k, v) acc. objPut k v acc) b a"

definition objRemove :: "string \<Rightarrow> jsobj \<Rightarrow> jsobj" where
  "objRemove k o1 = filter (\<lambda>(k', _). k' \<noteq> k) o1"

lemma map_of_objPut_apply [simp]:
  "map_of (objPut k v o1) x = (if x = k then Some v else map_of o1 x)"
  by (induction o1) auto

lemma map_of_objPut: "map_of (objPut k v o1) = (map_of o1)(k \<mapsto> v)"
  by (rule ext) simp

lemma objGet_objPut [simp]: "objGet (objPut k v o1) k' = (if k' = k then v else objGet o1 k')"
  by (simp add: objGet_def)

lemma map_of_objRemove: "map_of (objRemove k o1) = (map_of o1)(k := None)"
  by (induction o1) (auto simp: objRemove_def fun_eq_iff)

lemma map_of_objSpread: "map_of (objSpread a b) = map_of a ++ map_of (rev b)"
proof (induction b arbitrary: a)
  case Nil
  then show ?case by (simp add: objSpread_def)
next
  case (Cons p b)
  obtain k v where p: "p = (k, v)" by fastforce
  have "map_of (objSpread a (p # b)) = map_of (objSpread (objPut k v a) b)"
    by (simp add: objSpread_def p)
  also have "\<dots> = (map_of a)(k \<mapsto> v) ++ map_of (rev b)"
    by (simp only: Cons.IH map_of_objPut)
  finally show ?case by (simp add: p map_add_assoc [symmetric])
qed

section \<open>Comparison\<close>

text \<open>
  The operator \<open>===\<close>. Two objects or arrays are equal only when they are the same
  reference; the two sides of every comparison in the modelled code are decoded separately
  (a field value and a stored condition), so they never are.
\<close>

fun strictEq :: "jsval \<Rightarrow> jsval \<Rightarrow> bool" where
  "strictEq JUndefined JUndefined = True"
| "strictEq JNull JNull = True"
| "strictEq (JBool a) (JBool b) = (a = b)"
| "strictEq (JNum a) (JNum b) = (a = b)"
| "strictEq (JStr a) (JStr b) = (a = b)"
| "strictEq (JFun a) (JFun b) = (a = b)"
| "strictEq _ _ = False"

lemma strictEq_sym: "strictEq a b = strictEq b a"
  by (cases a; cases b) auto

lemma strictEq_imp_eq: "strictEq a b \<Longrightarrow> a = b"
  by (cases a; cases b) auto

lemma strictEq_JStr [simp]: "strictEq v (JStr s) = (v = JStr s)"
  by (cases v) auto

definition jsArrayIncludes :: "jsval list \<Rightarrow> jsval \<Rightarrow> bool" where
  "jsArrayIncludes xs v = list_ex (strictEq v) xs"

text \<open>The test \<open>v === null || v === undefined || v === ""\<close> that several guards share.\<close>

definition isBlank :: "jsval \<Rightarrow> bool" where
  "isBlank v = (v = JNull \<or> v = JUndefined \<or> v = JStr [])"

section \<open>Strings\<close>

definition isJsSpace :: "char \<Rightarrow> bool" where
  "isJsSpace c = (of_char c \<in> {9, 10, 11, 12, 13, 32, 160 :: nat})"

definition trim :: "string \<Rightarrow> string" where
  "trim s = rev (dropWhile isJsSpace (rev (dropWhile isJsSpace s)))"

definition startsWith :: "string \<Rightarrow> string \<Rightarrow> bool" where
  "startsWith s p = prefix p s"

definition stringIncludes :: "string \<Rightarrow> string \<Rightarrow> bool" where
  "stringIncludes s p = sublist p s"

definition toLowerChar :: "char \<Rightarrow> char" where
  "toLowerChar c =
     (let n = of_char c :: nat in
      if (65 \<le> n \<and> n \<le> 90) \<or> (192 \<le> n \<and> n \<le> 222 \<and> n \<noteq> 215) then char_of (n + 32) else c)"

definition toLowerCase :: "string \<Rightarrow> string" where
  "toLowerCase s = map toLowerChar s"

lemma length_trim: "length (trim s) \<le> length s"
  using length_dropWhile_le [of isJsSpace s]
    length_dropWhile_le [of isJsSpace "rev (dropWhile isJsSpace s)"]
  by (simp add: trim_def)

lemma trim_idem [simp]: "trim (trim s) = trim s"
proof -
  let ?d = "dropWhile isJsSpace"
  have last: "?d (rev (trim s)) = rev (trim s)"
    by (simp add: trim_def dropWhile_idem)
  have "?d (trim s) = trim s"
  proof (cases "trim s")
    case Nil
    then show ?thesis by simp
  next
    case (Cons c cs)
    have "?d s \<noteq> []"
    proof
      assume "?d s = []"
      then have "trim s = []" unfolding trim_def by (simp only: rev.simps dropWhile.simps)
      with Cons show False by simp
    qed
    moreover obtain ys where "?d s = trim s @ ys"
      by (metis (no_types) rev_append rev_rev_ident takeWhile_dropWhile_id trim_def)
    ultimately have "hd (?d s) = c" using Cons by simp
    then have "\<not> isJsSpace c"
      using hd_dropWhile [OF \<open>?d s \<noteq> []\<close>] by simp
    then show ?thesis using Cons by simp
  qed
  then show ?thesis using last by (simp add: trim_def [of "trim s"])
qed

section \<open>Dates\<close>

text \<open>
  A \<open>Date\<close> is its number of milliseconds since the epoch. \<open>toISOString\<close> renders it
  in UTC; the calendar date is computed from the day number in the proleptic Gregorian
  calendar (400-year eras of 146097 days, years starting in March).
\<close>

type_synonym date = int

fun decDigits :: "nat \<Rightarrow> string" where
  "decDigits n = (if n < 10 then [char_of (48 + n)]
                  else decDigits (n div 10) @ [char_of (48 + n mod 10)])"

declare decDigits.simps [simp del]

definition padZeros :: "nat \<Rightarrow> int \<Rightarrow> string" where
  "padZeros w n = (let s = decDigits (nat n) in replicate (w - length s) (CHR ''0'') @ s)"

definition civilFromDays :: "int \<Rightarrow> int \<times> int \<times> int" where
  "civilFromDays days =
     (let z = days + 719468;
          era = z div 146097;
          doe = z mod 146097;
          yoe = (doe - doe div 1460 + doe div 36524 - doe div 146096) div 365;
          doy = doe - (365 * yoe + yoe div 4 - yoe div 100);
          mp = (5 * doy + 2) div 153;
          d = doy - (153 * mp + 2) div 5 + 1;
          m = (if mp < 10 then mp + 3 else mp - 9)
      in (yoe + era * 400 + (if m \<le> 2 then 1 else 0), m, d))"

definition isoYear :: "int \<Rightarrow> string" where
  "isoYear y = (if 0 \<le> y \<and> y \<le> 9999 then padZeros 4 y
               else if y < 0 then ''-'' @ padZeros 6 (- y) else ''+'' @ padZeros 6 y)"

definition toISOString :: "date \<Rightarrow> string" where
  "toISOString t =
     (let days = t div 86400000; ms = t mod 86400000; (y, m, d) = civilFromDays days
      in isoYear y @ ''-'' @ padZeros 2 m @ ''-'' @ padZeros 2 d @ ''T'' @
         padZeros 2 (ms div 3600000) @ '':'' @ padZeros 2 (ms div 60000 mod 60) @ '':'' @
         padZeros 2 (ms div 1000 mod 60) @ ''.'' @ padZeros 3 (ms mod 1000) @ ''Z'')"

end
