(* ===== verification/Conditions.thy ===== *)
theory Conditions
  imports JsValue
begin

text \<open>
  The condition trees of workflow transitions and automation rules
  (\<open>packages/workflow-engine/src/condition-evaluator.ts\<close>): and/or/not over field
  conditions and over the three actor rules that express segregation of duties.

  The lemmas show what the evaluator promises beyond its cases: an unidentified actor never
  satisfies a tree that some identified actor would fail, a longer history of prior actors
  never admits more, and the prior actors matter only to the trees that
  \<open>treeNeedsPriorActors\<close> selects, which is why the engine may skip loading them.
\<close>

section \<open>Data\<close>

datatype field_op =
    OpEq | OpNeq | OpGt | OpGte | OpLt | OpLte | OpContains | OpIn | OpEmpty | OpNotEmpty
  | OpOther string

datatype FieldCondition = FieldCondition (fc_op: field_op) (fc_field: string) (fc_value: jsval)

datatype ConditionTree =
    CAnd "ConditionTree list"
  | COr "ConditionTree list"
  | CNot ConditionTree
  | CField FieldCondition
  | ActorNotCreator
  | ActorIsCreator
  | ActorNotPriorActor "string list option"

record ActorContext =
  ac_actorId :: "string option"
  ac_createdBy :: "string option"
  ac_priorActors :: "(string \<times> string) list option"

section \<open>Evaluation\<close>

definition compareNum :: "(rat \<Rightarrow> rat \<Rightarrow> bool) \<Rightarrow> jsval \<Rightarrow> jsval \<Rightarrow> bool" where
  "compareNum R v w = (case (v, w) of (JNum a, JNum b) \<Rightarrow> R a b | _ \<Rightarrow> False)"

definition evaluateFieldCondition :: "FieldCondition \<Rightarrow> jsobj \<Rightarrow> bool" where
  "evaluateFieldCondition cond flds =
     (let value = objGet flds (fc_field cond); w = fc_value cond in
      case fc_op cond of
        OpEq \<Rightarrow> strictEq value w
      | OpNeq \<Rightarrow> \<not> strictEq value w
      | OpGt \<Rightarrow> compareNum (>) value w
      | OpGte \<Rightarrow> compareNum (\<ge>) value w
      | OpLt \<Rightarrow> compareNum (<) value w
      | OpLte \<Rightarrow> compareNum (\<le>) value w
      | OpContains \<Rightarrow> (case (value, w) of (JStr s, JStr p) \<Rightarrow> stringIncludes s p | _ \<Rightarrow> False)
      | OpIn \<Rightarrow> (case w of JArr xs \<Rightarrow> jsArrayIncludes xs value | _ \<Rightarrow> False)
      | OpEmpty \<Rightarrow> isBlank value
      | OpNotEmpty \<Rightarrow> \<not> isBlank value
      | OpOther _ \<Rightarrow> False)"

fun treeUsesActorRule :: "ConditionTree \<Rightarrow> bool" where
  "treeUsesActorRule (CAnd ts) = list_ex treeUsesActorRule ts"
| "treeUsesActorRule (COr ts) = list_ex treeUsesActorRule ts"
| "treeUsesActorRule (CNot t) = treeUsesActorRule t"
| "treeUsesActorRule (CField _) = False"
| "treeUsesActorRule ActorNotCreator = True"
| "treeUsesActorRule ActorIsCreator = True"
| "treeUsesActorRule (ActorNotPriorActor _) = True"

fun collectRuleStates :: "ConditionTree \<Rightarrow> string list" where
  "collectRuleStates (CAnd ts) = concat (map collectRuleStates ts)"
| "collectRuleStates (COr ts) = concat (map collectRuleStates ts)"
| "collectRuleStates (CNot t) = collectRuleStates t"
| "collectRuleStates (CField _) = []"
| "collectRuleStates ActorNotCreator = []"
| "collectRuleStates ActorIsCreator = []"
| "collectRuleStates (ActorNotPriorActor states) = dflt [] states"

fun treeNeedsPriorActors :: "ConditionTree \<Rightarrow> bool" where
  "treeNeedsPriorActors (CAnd ts) = list_ex treeNeedsPriorActors ts"
| "treeNeedsPriorActors (COr ts) = list_ex treeNeedsPriorActors ts"
| "treeNeedsPriorActors (CNot t) = treeNeedsPriorActors t"
| "treeNeedsPriorActors (CField _) = False"
| "treeNeedsPriorActors ActorNotCreator = False"
| "treeNeedsPriorActors ActorIsCreator = False"
| "treeNeedsPriorActors (ActorNotPriorActor _) = True"

text \<open>The optional \<open>actor\<close> argument: \<open>actor?.actorId ?? null\<close>, \<open>actor?.createdBy\<close>.\<close>

definition optActorId :: "ActorContext option \<Rightarrow> string option" where
  "optActorId actor = Option.bind actor ac_actorId"

definition optCreatedBy :: "ActorContext option \<Rightarrow> string option" where
  "optCreatedBy actor = Option.bind actor ac_createdBy"

definition optPriorActors :: "ActorContext option \<Rightarrow> (string \<times> string) list option" where
  "optPriorActors actor = Option.bind actor ac_priorActors"

definition actedBefore :: "string \<Rightarrow> string list option \<Rightarrow> (string \<times> string) list \<Rightarrow> bool" where
  "actedBefore aid states prior =
     list_ex (\<lambda>(pid, fromState). pid = aid \<and>
       (case states of None \<Rightarrow> True | Some ss \<Rightarrow> fromState \<in> set ss)) prior"

fun evaluateTree :: "ConditionTree \<Rightarrow> jsobj \<Rightarrow> ActorContext option \<Rightarrow> bool" where
  "evaluateTree (COr ts) flds actor = list_ex (\<lambda>c. evaluateTree c flds actor) ts"
| "evaluateTree (CAnd ts) flds actor = list_all (\<lambda>c. evaluateTree c flds actor) ts"
| "evaluateTree (CNot t) flds actor =
     (if treeUsesActorRule t then False else \<not> evaluateTree t flds actor)"
| "evaluateTree ActorNotCreator flds actor =
     (case optActorId actor of None \<Rightarrow> False | Some aid \<Rightarrow> optCreatedBy actor \<noteq> Some aid)"
| "evaluateTree ActorIsCreator flds actor =
     (case optActorId actor of None \<Rightarrow> False | Some aid \<Rightarrow> optCreatedBy actor = Some aid)"
| "evaluateTree (ActorNotPriorActor states) flds actor =
     (case optActorId actor of None \<Rightarrow> False
      | Some aid \<Rightarrow> (case optPriorActors actor of None \<Rightarrow> False
                    | Some prior \<Rightarrow> \<not> actedBefore aid states prior))"
| "evaluateTree (CField cond) flds actor = evaluateFieldCondition cond flds"

definition evaluateConditionTree ::
  "ConditionTree option \<Rightarrow> jsobj \<Rightarrow> ActorContext option \<Rightarrow> bool" where
  "evaluateConditionTree tree flds actor =
     (case tree of None \<Rightarrow> True | Some t \<Rightarrow> evaluateTree t flds actor)"

definition optTreeNeedsPriorActors :: "ConditionTree option \<Rightarrow> bool" where
  "optTreeNeedsPriorActors tree = (case tree of None \<Rightarrow> False | Some t \<Rightarrow> treeNeedsPriorActors t)"

definition optCollectRuleStates :: "ConditionTree option \<Rightarrow> string list" where
  "optCollectRuleStates tree = (case tree of None \<Rightarrow> [] | Some t \<Rightarrow> collectRuleStates t)"

section \<open>Properties\<close>

lemma evaluateTree_no_actor_rule:
  "\<not> treeUsesActorRule t \<Longrightarrow> evaluateTree t flds actor = evaluateTree t flds actor'"
  by (induction t) (auto simp: list_ex_iff list_all_iff)

text \<open>A tree's value is monotone in any change of actor context that turns no actor leaf off.\<close>

lemma evaluateTree_mono:
  assumes leaf: "\<And>t. t \<in> {ActorNotCreator, ActorIsCreator} \<union> range ActorNotPriorActor \<Longrightarrow>
      evaluateTree t flds a \<Longrightarrow> evaluateTree t flds b"
  shows "evaluateTree t flds a \<Longrightarrow> evaluateTree t flds b"
proof (induction t)
  case (CNot t)
  then show ?case
    using evaluateTree_no_actor_rule [of t flds a b] by (auto split: if_splits)
next
  case (CAnd ts)
  then show ?case by (auto simp: list_all_iff)
next
  case (COr ts)
  then show ?case by (auto simp: list_ex_iff)
next
  case (CField c)
  then show ?case by simp
qed (use leaf in blast)+

lemma evaluateTree_unidentified:
  assumes "optActorId a = None" and "evaluateTree t flds a"
  shows "evaluateTree t flds b"
  using assms by (auto intro: evaluateTree_mono [of flds a b])

lemma actedBefore_mono: "set prior \<subseteq> set prior' \<Longrightarrow> actedBefore aid ss prior \<Longrightarrow> actedBefore aid ss prior'"
  by (auto simp: actedBefore_def list_ex_iff)

lemma evaluateTree_more_history:
  assumes "set prior \<subseteq> set prior'"
    and "evaluateTree t flds (Some (c\<lparr>ac_priorActors := Some prior'\<rparr>))"
  shows "evaluateTree t flds (Some (c\<lparr>ac_priorActors := Some prior\<rparr>))"
proof (rule evaluateTree_mono [OF _ assms(2)])
  fix s
  assume "s \<in> {ActorNotCreator, ActorIsCreator} \<union> range ActorNotPriorActor"
    and "evaluateTree s flds (Some (c\<lparr>ac_priorActors := Some prior'\<rparr>))"
  then show "evaluateTree s flds (Some (c\<lparr>ac_priorActors := Some prior\<rparr>))"
    using actedBefore_mono [OF assms(1)]
    by (auto simp: optActorId_def optCreatedBy_def optPriorActors_def split: option.splits)
qed

lemma evaluateTree_priorActors_irrelevant:
  "\<not> treeNeedsPriorActors t \<Longrightarrow>
   evaluateTree t flds (Some (c\<lparr>ac_priorActors := p\<rparr>)) =
   evaluateTree t flds (Some (c\<lparr>ac_priorActors := q\<rparr>))"
  by (induction t)
    (auto simp: list_ex_iff list_all_iff optActorId_def optCreatedBy_def split: option.splits)

lemma treeNeedsPriorActors_uses: "treeNeedsPriorActors t \<Longrightarrow> treeUsesActorRule t"
  by (induction t) (auto simp: list_ex_iff)

lemma collectRuleStates_needs: "collectRuleStates t \<noteq> [] \<Longrightarrow> treeNeedsPriorActors t"
  by (induction t) (auto simp: list_ex_iff)

lemma evaluateConditionTree_unidentified:
  assumes "optActorId a = None" and "evaluateConditionTree tree flds a"
  shows "evaluateConditionTree tree flds b"
  using assms evaluateTree_unidentified
  by (auto simp: evaluateConditionTree_def split: option.splits)

lemma evaluateConditionTree_priorActors_irrelevant:
  "\<not> optTreeNeedsPriorActors tree \<Longrightarrow>
   evaluateConditionTree tree flds (Some (c\<lparr>ac_priorActors := p\<rparr>)) =
   evaluateConditionTree tree flds (Some (c\<lparr>ac_priorActors := q\<rparr>))"
  by (auto simp: evaluateConditionTree_def optTreeNeedsPriorActors_def
      intro: evaluateTree_priorActors_irrelevant [THEN iffD1]
      dest: evaluateTree_priorActors_irrelevant [THEN iffD1] split: option.splits)

end
