(* ===== verification/WfSchema.thy ===== *)
theory WfSchema
  imports Conditions
begin

text \<open>
  The data of the workflow engine: the interfaces of
  \<open>packages/workflow-engine/src/types.ts\<close>, the tables of
  \<open>packages/db/src/schema\<close> that the engine reads and writes, its error codes, and the
  parameters that stand for what it does not compute itself (the clocks, random ids, the
  outcome of a row lock, the query builder's reaction to an empty update).

  A table row extends the interface the engine returns by the columns it keeps to itself, so
  the row mappers of the source are truncations. Columns no modelled function reads or
  writes are left out.
\<close>

section \<open>Errors\<close>

datatype WorkflowErrorCode =
    INSTANCE_NOT_FOUND | TRANSITION_NOT_AVAILABLE | TRANSITION_FORBIDDEN | TRANSITION_LOCKED
  | CONDITION_NOT_MET | REQUIRED_FIELDS_MISSING | SLA_TIMER_FAILED | WORKFLOW_NOT_FOUND
  | WORKFLOW_STATE_NOT_FOUND | WORKFLOW_TRANSITION_NOT_FOUND | WORKFLOW_HAS_ACTIVE_INSTANCES
  | WORKFLOW_STATE_IN_USE | WORKFLOW_ADMIN_LIST_FORBIDDEN
  | WORKFLOW_ADMIN_REMOVE_CREATOR_FORBIDDEN | ENTITY_TYPE_ALREADY_GOVERNED
  | WORKFLOW_STATE_NAME_TAKEN | WORKFLOW_INITIAL_STATE_INVALID
  | WORKFLOW_CONDITION_STATE_UNKNOWN | OVERRIDE_NOT_ENABLED | OVERRIDE_FORBIDDEN
  | OVERRIDE_REASON_REQUIRED | OVERRIDE_NO_CHANGE

text \<open>
  What a call can throw: the engine's own error with its code and metadata, or an error of
  the database driver that the engine lets through (a failed statement, a violated unique
  index, an update without columns).
\<close>

datatype failure =
    WorkflowError WorkflowErrorCode jsobj
  | DriverError string

fun failureCode :: "failure \<Rightarrow> WorkflowErrorCode option" where
  "failureCode (WorkflowError c _) = Some c"
| "failureCode (DriverError _) = None"

definition jstrs :: "string list \<Rightarrow> jsval" where
  "jstrs xs = JArr (map JStr xs)"

section \<open>Workflow definitions\<close>

record WorkflowCore =
  wf_id :: string
  wf_tenantId :: "string option"
  wf_entityTypeId :: string
  wf_name :: string
  wf_initialState :: string
  wf_isActive :: bool
  wf_createdBy :: "string option"
  wf_maxChildDepth :: int
  wf_maxChildrenPerParent :: int
  wf_allowAutoGrantOnMention :: bool
  wf_allowStateOverride :: bool
  wf_createdAt :: date

record WorkflowDefinition = WorkflowCore +
  wd_assignedTo :: "string list"

record workflows_row = WorkflowCore +
  wf_assignedTo :: "string list option"

record WorkflowState =
  ws_id :: string
  ws_workflowId :: string
  ws_name :: string
  ws_label :: string
  ws_color :: "string option"
  ws_isTerminal :: bool
  ws_slaHours :: "int option"
  ws_sortOrder :: int

record workflow_states_row = WorkflowState +
  ws_tenantId :: string

record WorkflowTransition =
  wt_id :: string
  wt_workflowId :: string
  wt_fromState :: string
  wt_toState :: string
  wt_label :: "string option"
  wt_allowedRoles :: "string list"
  wt_conditions :: "ConditionTree option"
  wt_requiresComment :: bool
  wt_requiresFields :: "string list"
  wt_sortOrder :: int

record workflow_transitions_row = WorkflowTransition +
  wt_tenantId :: string

record WorkflowFull = WorkflowDefinition +
  wfull_states :: "WorkflowState list"
  wfull_transitions :: "WorkflowTransition list"

section \<open>Events, instances and the outbox\<close>

datatype trigger_source = TrigUser | TrigAutomation | TrigApi | TrigSystem

fun triggerText :: "trigger_source \<Rightarrow> string" where
  "triggerText TrigUser = ''user''"
| "triggerText TrigAutomation = ''automation''"
| "triggerText TrigApi = ''api''"
| "triggerText TrigSystem = ''system''"

record EventCore =
  we_id :: string
  we_instanceId :: string
  we_workflowId :: string
  we_fromState :: "string option"
  we_toState :: string
  we_triggeredBy :: trigger_source
  we_actorId :: "string option"
  we_comment :: "string option"
  we_metadata :: jsobj
  we_createdAt :: date
  we_originMechanism :: "string option"
  we_originOidcClientId :: "string option"
  we_originPerformerUserId :: "string option"

record WorkflowEvent = EventCore +
  wev_transitionEventId :: "string option"

record workflow_events_row = EventCore +
  we_tenantId :: string
  we_idempotencyKey :: "string option"

record entity_instances_row =
  ei_id :: string
  ei_entityTypeId :: string
  ei_tenantId :: string
  ei_workflowId :: "string option"
  ei_currentState :: string
  ei_fields :: jsobj
  ei_createdBy :: "string option"
  ei_assignedTo :: "string option"
  ei_updatedAt :: date

datatype FieldSensitivity = SensPublic | SensInternal | SensPii | SensFinancial

record entity_fields_row =
  ef_entityTypeId :: string
  ef_tenantId :: "string option"
  ef_name :: string
  ef_sensitivity :: FieldSensitivity

record outbox_events_row =
  ob_id :: string
  ob_tenantId :: string
  ob_eventType :: string
  ob_version :: int
  ob_payload :: jsobj
  ob_createdAt :: date
  ob_deliveredAt :: "date option"

record wf_db =
  db_instances :: "entity_instances_row list"
  db_fields :: "entity_fields_row list"
  db_workflows :: "workflows_row list"
  db_states :: "workflow_states_row list"
  db_transitions :: "workflow_transitions_row list"
  db_transition_seq :: int
  db_events :: "workflow_events_row list"
  db_outbox :: "outbox_events_row list"

definition empty_db :: wf_db where
  "empty_db = \<lparr>db_instances = [], db_fields = [], db_workflows = [], db_states = [],
     db_transitions = [], db_transition_seq = 1, db_events = [], db_outbox = []\<rparr>"

text \<open>
  The \<open>jsonb\<close> operator \<open>payload->>'k'\<close> on the keys the engine stores as strings.
\<close>

definition pgText :: "jsobj \<Rightarrow> string \<Rightarrow> string option" where
  "pgText payload k = (case map_of payload k of Some (JStr s) \<Rightarrow> Some s | _ \<Rightarrow> None)"

section \<open>Parameters\<close>

datatype lock_outcome = LockGranted | LockNotAvailable | LockFailed string

text \<open>
  One call's view of its surroundings: the id the database gives the \<open>k\<close>-th inserted row,
  the application's random id, the clock readings (\<open>new Date()\<close> when the state change is
  committed and when the timers are cancelled, the database's \<open>now()\<close>), how a
  \<open>FOR UPDATE NOWAIT\<close> on an instance row ends, whether the query builder refuses an
  update that sets no column, and whether a row of a table outside this model references a
  workflow (a foreign key that restricts deletion).
\<close>

record wf_env =
  env_rowId :: "nat \<Rightarrow> string"
  env_randomUUID :: string
  env_occurredAt :: date
  env_cancelledAt :: date
  env_dbNow :: date
  env_lock :: "string \<Rightarrow> lock_outcome"
  env_rejectEmptySet :: bool
  env_workflowReferenced :: "string \<Rightarrow> bool"

section \<open>Row mappers\<close>

definition rowToWorkflow :: "workflows_row \<Rightarrow> WorkflowDefinition" where
  "rowToWorkflow r =
     WorkflowCore.extend (WorkflowCore.truncate r) \<lparr>wd_assignedTo = dflt [] (wf_assignedTo r)\<rparr>"

definition rowToState :: "workflow_states_row \<Rightarrow> WorkflowState" where
  "rowToState r = WorkflowState.truncate r"

definition rowToTransition :: "workflow_transitions_row \<Rightarrow> WorkflowTransition" where
  "rowToTransition r = WorkflowTransition.truncate r"

definition rowToEvent :: "string option \<Rightarrow> workflow_events_row \<Rightarrow> WorkflowEvent" where
  "rowToEvent teid r =
     EventCore.extend (EventCore.truncate r) \<lparr>wev_transitionEventId = teid\<rparr>"

definition visibleTo :: "string \<Rightarrow> workflows_row \<Rightarrow> bool" where
  "visibleTo tenantId r = (wf_tenantId r = None \<or> wf_tenantId r = Some tenantId)"

lemma rowToWorkflow_sel [simp]:
  "wf_id (rowToWorkflow r) = wf_id r"
  "wf_tenantId (rowToWorkflow r) = wf_tenantId r"
  "wf_createdBy (rowToWorkflow r) = wf_createdBy r"
  "wf_initialState (rowToWorkflow r) = wf_initialState r"
  "wd_assignedTo (rowToWorkflow r) = dflt [] (wf_assignedTo r)"
  by (simp_all add: rowToWorkflow_def WorkflowCore.defs)

lemma rowToState_sel [simp]:
  "ws_id (rowToState r) = ws_id r"
  "ws_name (rowToState r) = ws_name r"
  "ws_workflowId (rowToState r) = ws_workflowId r"
  by (simp_all add: rowToState_def WorkflowState.defs)

lemma rowToTransition_sel [simp]:
  "wt_id (rowToTransition r) = wt_id r"
  "wt_workflowId (rowToTransition r) = wt_workflowId r"
  "wt_fromState (rowToTransition r) = wt_fromState r"
  "wt_toState (rowToTransition r) = wt_toState r"
  by (simp_all add: rowToTransition_def WorkflowTransition.defs)

lemma rowToEvent_sel [simp]:
  "we_id (rowToEvent teid r) = we_id r"
  "we_instanceId (rowToEvent teid r) = we_instanceId r"
  "we_fromState (rowToEvent teid r) = we_fromState r"
  "we_toState (rowToEvent teid r) = we_toState r"
  "we_actorId (rowToEvent teid r) = we_actorId r"
  "we_metadata (rowToEvent teid r) = we_metadata r"
  "wev_transitionEventId (rowToEvent teid r) = teid"
  by (simp_all add: rowToEvent_def EventCore.defs)

end
