(* ===== verification/WfEngine.thy ===== *)
theory WfEngine
  imports WfSchema
begin

text \<open>
  The workflow engine (\<open>packages/workflow-engine/src/engine.ts\<close> and \<open>redact.ts\<close>):
  the guarded transition, the recorded override, the list of available transitions and the
  event log. Every operation is a function of the call's surroundings and the database; it
  returns the thrown failure or the result with the new database.
\<close>

section \<open>Redaction of event metadata\<close>

definition isSensitive :: "FieldSensitivity option \<Rightarrow> bool" where
  "isSensitive s = (s = Some SensPii \<or> s = Some SensFinancial)"

definition redactMetadata :: "jsobj \<Rightarrow> (string \<rightharpoonup> FieldSensitivity) \<Rightarrow> jsobj" where
  "redactMetadata metadata sensitivityMap =
     map (\<lambda>(k, v). (k, if isSensitive (sensitivityMap k) then JStr ''[REDACTED]'' else v)) metadata"

definition buildSensitivityMap ::
  "(string \<times> FieldSensitivity) list \<Rightarrow> (string \<rightharpoonup> FieldSensitivity)" where
  "buildSensitivityMap rows =
     fold (\<lambda>(name, s) m. if isSensitive (Some s) then m(name \<mapsto> s) else m) rows Map.empty"

section \<open>The acting user and the actor context\<close>

definition userActorId :: "string option \<Rightarrow> string option" where
  "userActorId actorId =
     (case actorId of
        None \<Rightarrow> None
      | Some a \<Rightarrow> if a = '''' then None
                  else if a = ''system'' \<or> startsWith a ''apikey:'' then None
                  else Some a)"

definition isStateChangeBy :: "string \<Rightarrow> string \<Rightarrow> workflow_events_row \<Rightarrow> bool" where
  "isStateChangeBy tenantId instanceId e =
     (we_instanceId e = instanceId \<and> we_tenantId e = tenantId \<and> we_actorId e \<noteq> None \<and>
      we_fromState e \<noteq> None \<and> we_fromState e \<noteq> Some (we_toState e))"

definition priorActorRows :: "wf_db \<Rightarrow> string \<Rightarrow> string \<Rightarrow> (string option \<times> string option) list" where
  "priorActorRows db tenantId instanceId =
     remdups (map (\<lambda>e. (we_actorId e, we_fromState e))
       (selectW (isStateChangeBy tenantId instanceId) (db_events db)))"

definition toPriorActor :: "string option \<times> string option \<Rightarrow> (string \<times> string) option" where
  "toPriorActor r =
     (case userActorId (fst r) of
        None \<Rightarrow> None
      | Some aid \<Rightarrow> (case snd r of None \<Rightarrow> None | Some fromState \<Rightarrow> Some (aid, fromState)))"

definition loadActorContext ::
  "wf_db \<Rightarrow> string \<Rightarrow> string \<Rightarrow> string option \<Rightarrow> string option \<Rightarrow> ConditionTree option list \<Rightarrow> ActorContext"
where
  "loadActorContext db tenantId instanceId createdBy actorId trees =
     (let context = \<lparr>ac_actorId = userActorId actorId, ac_createdBy = createdBy,
                      ac_priorActors = None\<rparr>
      in if \<not> list_ex optTreeNeedsPriorActors trees then context
         else context\<lparr>ac_priorActors :=
                Some (List.map_filter toPriorActor (priorActorRows db tenantId instanceId))\<rparr>)"

section \<open>The row lock\<close>

definition isInstance :: "string \<Rightarrow> string \<Rightarrow> entity_instances_row \<Rightarrow> bool" where
  "isInstance tenantId instanceId r = (ei_id r = instanceId \<and> ei_tenantId r = tenantId)"

definition lockInstance ::
  "wf_env \<Rightarrow> wf_db \<Rightarrow> string \<Rightarrow> string \<Rightarrow> failure + (entity_instances_row \<times> string)" where
  "lockInstance env db tenantId instanceId =
     (let found = select1 (isInstance tenantId instanceId) (db_instances db) in
      case env_lock env instanceId of
        LockFailed msg \<Rightarrow> Inl (DriverError msg)
      | outcome \<Rightarrow>
          if found \<noteq> None \<and> outcome = LockNotAvailable
          then Inl (WorkflowError TRANSITION_LOCKED [(''instanceId'', JStr instanceId)])
          else bindE (orThrow found
                 (WorkflowError INSTANCE_NOT_FOUND [(''instanceId'', JStr instanceId)]))
               (\<lambda>inst. case ei_workflowId inst of
                  Some (c # cs) \<Rightarrow> Inr (inst, c # cs)
                | _ \<Rightarrow> Inl (WorkflowError INSTANCE_NOT_FOUND
                        [(''instanceId'', JStr instanceId),
                         (''reason'', JStr ''no workflow attached'')])))"

section \<open>Timers\<close>

definition slaScheduled :: string where
  "slaScheduled = ''workflow.sla_scheduled''"

definition isPendingSla :: "string \<Rightarrow> string \<Rightarrow> string \<Rightarrow> outbox_events_row \<Rightarrow> bool" where
  "isPendingSla tenantId instanceId stateName r =
     (ob_tenantId r = tenantId \<and> ob_eventType r = slaScheduled \<and> ob_deliveredAt r = None \<and>
      pgText (ob_payload r) ''instanceId'' = Some instanceId \<and>
      pgText (ob_payload r) ''stateName'' = Some stateName)"

definition cancelPendingSlaTimers :: "wf_env \<Rightarrow> wf_db \<Rightarrow> string \<Rightarrow> string \<Rightarrow> string \<Rightarrow> wf_db" where
  "cancelPendingSlaTimers env db tenantId instanceId stateName =
     db\<lparr>db_outbox := updateW (isPendingSla tenantId instanceId stateName)
          (\<lambda>r. r\<lparr>ob_deliveredAt := Some (env_cancelledAt env)\<rparr>) (db_outbox db)\<rparr>"

definition isState :: "string \<Rightarrow> string \<Rightarrow> string \<Rightarrow> workflow_states_row \<Rightarrow> bool" where
  "isState tenantId workflowId name r =
     (ws_workflowId r = workflowId \<and> ws_name r = name \<and> ws_tenantId r = tenantId)"

definition slaPayload :: "string \<Rightarrow> string \<Rightarrow> string \<Rightarrow> int \<Rightarrow> date \<Rightarrow> jsobj" where
  "slaPayload workflowId instanceId stateName slaHours enteredAt =
     [(''instanceId'', JStr instanceId), (''workflowId'', JStr workflowId),
      (''stateName'', JStr stateName), (''slaHours'', JNum (of_int slaHours)),
      (''fireAt'', JStr (toISOString (enteredAt + slaHours * 60 * 60 * 1000)))]"

definition scheduleSlaIfNeeded ::
  "wf_env \<Rightarrow> wf_db \<Rightarrow> string \<Rightarrow> string \<Rightarrow> string \<Rightarrow> string \<Rightarrow> date \<Rightarrow> wf_db" where
  "scheduleSlaIfNeeded env db tenantId workflowId instanceId stateName enteredAt =
     (case Option.bind (select1 (isState tenantId workflowId stateName) (db_states db)) ws_slaHours of
        None \<Rightarrow> db
      | Some slaHours \<Rightarrow>
          if slaHours = 0 then db
          else db\<lparr>db_outbox := insertRow
            \<lparr>ob_id = env_rowId env 2, ob_tenantId = tenantId, ob_eventType = slaScheduled,
             ob_version = 1,
             ob_payload = slaPayload workflowId instanceId stateName slaHours enteredAt,
             ob_createdAt = env_dbNow env, ob_deliveredAt = None\<rparr> (db_outbox db)\<rparr>)"

section \<open>The write half of a state change\<close>

record StateChange =
  sc_toState :: string
  sc_triggeredBy :: trigger_source
  sc_actorId :: "string option"
  sc_comment :: "string option"
  sc_idempotencyKey :: "string option"
  sc_metadata :: "jsobj option"
  sc_depth :: "int option"
  sc_transitionEventId :: string
  sc_override :: bool

definition sensitivityRows :: "wf_db \<Rightarrow> string \<Rightarrow> string \<Rightarrow> (string \<times> FieldSensitivity) list" where
  "sensitivityRows db tenantId entityTypeId =
     map (\<lambda>r. (ef_name r, ef_sensitivity r))
       (selectW (\<lambda>r. ef_entityTypeId r = entityTypeId \<and>
                    (ef_tenantId r = None \<or> ef_tenantId r = Some tenantId)) (db_fields db))"

definition safeMetadata :: "wf_db \<Rightarrow> string \<Rightarrow> string \<Rightarrow> jsobj option \<Rightarrow> jsobj" where
  "safeMetadata db tenantId entityTypeId metadata =
     (let rawMetadata = dflt [] metadata in
      if length rawMetadata > 0
      then redactMetadata rawMetadata
             (buildSensitivityMap (sensitivityRows db tenantId entityTypeId))
      else rawMetadata)"

definition newEventRow ::
  "wf_env \<Rightarrow> wf_db \<Rightarrow> string \<Rightarrow> entity_instances_row \<Rightarrow> string \<Rightarrow> StateChange \<Rightarrow> workflow_events_row"
where
  "newEventRow env db tenantId inst workflowId change =
     \<lparr>we_id = env_rowId env 0, we_instanceId = ei_id inst, we_workflowId = workflowId,
      we_fromState = Some (ei_currentState inst), we_toState = sc_toState change,
      we_triggeredBy = sc_triggeredBy change, we_actorId = sc_actorId change,
      we_comment = sc_comment change,
      we_metadata = safeMetadata db tenantId (ei_entityTypeId inst) (sc_metadata change),
      we_createdAt = env_dbNow env, we_originMechanism = None, we_originOidcClientId = None,
      we_originPerformerUserId = None, we_tenantId = tenantId,
      we_idempotencyKey = sc_idempotencyKey change\<rparr>"

definition jsOpt :: "string option \<Rightarrow> jsval" where
  "jsOpt x = (case x of None \<Rightarrow> JNull | Some s \<Rightarrow> JStr s)"

definition outboxPayload ::
  "wf_env \<Rightarrow> string \<Rightarrow> entity_instances_row \<Rightarrow> string \<Rightarrow> StateChange \<Rightarrow> jsobj" where
  "outboxPayload env tenantId inst workflowId change =
     [(''eventType'', JStr ''workflow.transitioned''), (''version'', JNum 1),
      (''tenantId'', JStr tenantId), (''instanceId'', JStr (ei_id inst)),
      (''entityTypeId'', JStr (ei_entityTypeId inst)), (''workflowId'', JStr workflowId),
      (''fromState'', JStr (ei_currentState inst)), (''toState'', JStr (sc_toState change)),
      (''triggeredBy'', JStr (triggerText (sc_triggeredBy change))),
      (''actorId'', jsOpt (sc_actorId change)),
      (''occurredAt'', JStr (toISOString (env_occurredAt env))),
      (''transitionEventId'', JStr (sc_transitionEventId change))]
     @ (case sc_depth change of None \<Rightarrow> [] | Some d \<Rightarrow> [(''depth'', JNum (of_int d))])
     @ (if sc_override change then [(''override'', JBool True)] else [])"

definition transitionedOutboxRow ::
  "wf_env \<Rightarrow> string \<Rightarrow> entity_instances_row \<Rightarrow> string \<Rightarrow> StateChange \<Rightarrow> outbox_events_row" where
  "transitionedOutboxRow env tenantId inst workflowId change =
     \<lparr>ob_id = env_rowId env 1, ob_tenantId = tenantId, ob_eventType = ''workflow.transitioned'',
      ob_version = 1, ob_payload = outboxPayload env tenantId inst workflowId change,
      ob_createdAt = env_dbNow env, ob_deliveredAt = None\<rparr>"

text \<open>The unique index on \<open>(instance_id, idempotency_key)\<close> where the key is not null.\<close>

definition idempotencyClash :: "wf_db \<Rightarrow> string \<Rightarrow> string option \<Rightarrow> bool" where
  "idempotencyClash db instanceId key =
     (key \<noteq> None \<and>
      list_ex (\<lambda>e. we_instanceId e = instanceId \<and> we_idempotencyKey e = key) (db_events db))"

definition commitStateChange ::
  "wf_env \<Rightarrow> wf_db \<Rightarrow> string \<Rightarrow> entity_instances_row \<Rightarrow> string \<Rightarrow> StateChange \<Rightarrow>
   failure + (WorkflowEvent \<times> wf_db)" where
  "commitStateChange env db tenantId inst workflowId change =
     (let db1 = db\<lparr>db_instances := updateW (isInstance tenantId (ei_id inst))
                 (\<lambda>r. r\<lparr>ei_currentState := sc_toState change, ei_updatedAt := env_occurredAt env\<rparr>)
                 (db_instances db)\<rparr>;
          eventRow = newEventRow env db1 tenantId inst workflowId change
      in bindE (throwIf (idempotencyClash db1 (ei_id inst) (sc_idempotencyKey change))
             (DriverError ''workflow_events_instance_idempotency_idx''))
         (\<lambda>_. let db2 = db1\<lparr>db_events := insertRow eventRow (db_events db1)\<rparr>;
                  db3 = db2\<lparr>db_outbox := insertRow
                    (transitionedOutboxRow env tenantId inst workflowId change) (db_outbox db2)\<rparr>;
                  db4 = cancelPendingSlaTimers env db3 tenantId (ei_id inst) (ei_currentState inst);
                  db5 = scheduleSlaIfNeeded env db4 tenantId workflowId (ei_id inst)
                          (sc_toState change) (env_occurredAt env)
              in Inr (rowToEvent (Some (sc_transitionEventId change)) eventRow, db5)))"

section \<open>Guarded transitions\<close>

record TransitionRequest =
  tr_instanceId :: string
  tr_transitionId :: string
  tr_actorId :: "string option"
  tr_actorRoles :: "string list option"
  tr_comment :: "string option"
  tr_idempotencyKey :: "string option"
  tr_triggeredBy :: "trigger_source option"
  tr_metadata :: "jsobj option"
  tr_depth :: "int option"

definition hasRequiredRole :: "string list \<Rightarrow> string list \<Rightarrow> bool" where
  "hasRequiredRole actorRoles allowedRoles = list_ex (\<lambda>r. r \<in> set allowedRoles) actorRoles"

definition roleAllows :: "string list \<Rightarrow> string list \<Rightarrow> bool" where
  "roleAllows actorRoles allowedRoles = (allowedRoles = [] \<or> hasRequiredRole actorRoles allowedRoles)"

definition findReplay :: "wf_db \<Rightarrow> string \<Rightarrow> TransitionRequest \<Rightarrow> workflow_events_row option" where
  "findReplay db tenantId request =
     (case tr_idempotencyKey request of
        None \<Rightarrow> None
      | Some key \<Rightarrow>
          if key = '''' then None
          else select1 (\<lambda>e. we_tenantId e = tenantId \<and> we_instanceId e = tr_instanceId request \<and>
                            we_idempotencyKey e = Some key) (db_events db))"

definition blankComment :: "string option \<Rightarrow> bool" where
  "blankComment c = (case c of None \<Rightarrow> True | Some s \<Rightarrow> trim s = '''')"

definition missingFields :: "jsobj \<Rightarrow> string list \<Rightarrow> string list" where
  "missingFields flds required = filter (\<lambda>f. isBlank (objGet flds f)) required"

definition transitionGuards ::
  "wf_db \<Rightarrow> string \<Rightarrow> TransitionRequest \<Rightarrow> entity_instances_row \<Rightarrow>
   workflow_transitions_row option \<Rightarrow> failure + workflow_transitions_row" where
  "transitionGuards db tenantId request inst found =
     bindE (orThrow (case found of None \<Rightarrow> None
                     | Some t \<Rightarrow> if wt_fromState t = ei_currentState inst then Some t else None)
       (WorkflowError TRANSITION_NOT_AVAILABLE
         [(''instanceId'', JStr (tr_instanceId request)),
          (''currentState'', JStr (ei_currentState inst)),
          (''transitionId'', JStr (tr_transitionId request))]))
     (\<lambda>t. bindE (throwIf (\<not> roleAllows (dflt [] (tr_actorRoles request)) (wt_allowedRoles t))
       (WorkflowError TRANSITION_FORBIDDEN
         [(''actorRoles'', case tr_actorRoles request of None \<Rightarrow> JUndefined | Some rs \<Rightarrow> jstrs rs),
          (''allowedRoles'', jstrs (wt_allowedRoles t))]))
     (\<lambda>_. bindE (throwIf (\<not> evaluateConditionTree (wt_conditions t) (ei_fields inst)
           (Some (loadActorContext db tenantId (ei_id inst) (ei_createdBy inst)
                   (tr_actorId request) [wt_conditions t])))
       (WorkflowError CONDITION_NOT_MET [(''transitionId'', JStr (wt_id t))]))
     (\<lambda>_. bindE (throwIf (missingFields (ei_fields inst) (wt_requiresFields t) \<noteq> [])
       (WorkflowError REQUIRED_FIELDS_MISSING
         [(''missing'', jstrs (missingFields (ei_fields inst) (wt_requiresFields t)))]))
     (\<lambda>_. bindE (throwIf (wt_requiresComment t \<and> blankComment (tr_comment request))
       (WorkflowError REQUIRED_FIELDS_MISSING [(''missing'', jstrs [''comment''])]))
     (\<lambda>_. Inr t)))))"

definition findWorkflow :: "wf_db \<Rightarrow> string \<Rightarrow> string \<Rightarrow> workflows_row option" where
  "findWorkflow db tenantId workflowId =
     select1 (\<lambda>r. wf_id r = workflowId \<and> visibleTo tenantId r) (db_workflows db)"

definition findTransition :: "wf_db \<Rightarrow> string \<Rightarrow> string \<Rightarrow> string \<Rightarrow> workflow_transitions_row option" where
  "findTransition db tenantId workflowId transitionId =
     select1 (\<lambda>r. wt_workflowId r = workflowId \<and> wt_id r = transitionId \<and> wt_tenantId r = tenantId)
       (db_transitions db)"

definition transitionChange :: "wf_env \<Rightarrow> TransitionRequest \<Rightarrow> workflow_transitions_row \<Rightarrow> StateChange" where
  "transitionChange env request t =
     \<lparr>sc_toState = wt_toState t, sc_triggeredBy = dflt TrigUser (tr_triggeredBy request),
      sc_actorId = tr_actorId request, sc_comment = tr_comment request,
      sc_idempotencyKey = tr_idempotencyKey request, sc_metadata = tr_metadata request,
      sc_depth = tr_depth request, sc_transitionEventId = env_randomUUID env,
      sc_override = False\<rparr>"

definition executeTransition ::
  "wf_env \<Rightarrow> wf_db \<Rightarrow> string \<Rightarrow> TransitionRequest \<Rightarrow> failure + (WorkflowEvent \<times> wf_db)" where
  "executeTransition env db tenantId request =
     (case findReplay db tenantId request of
        Some existing \<Rightarrow> Inr (rowToEvent (Some (env_randomUUID env)) existing, db)
      | None \<Rightarrow>
          bindE (lockInstance env db tenantId (tr_instanceId request)) (\<lambda>(inst, workflowId).
          bindE (orThrow (findWorkflow db tenantId workflowId)
            (WorkflowError INSTANCE_NOT_FOUND [(''workflowId'', JStr workflowId)])) (\<lambda>_.
          bindE (transitionGuards db tenantId request inst
                   (findTransition db tenantId workflowId (tr_transitionId request))) (\<lambda>t.
          commitStateChange env db tenantId inst workflowId (transitionChange env request t)))))"

section \<open>The recorded override\<close>

definition OVERRIDE_REASON_MIN_LENGTH :: nat where
  "OVERRIDE_REASON_MIN_LENGTH = 10"

definition OVERRIDE_REASON_MAX_LENGTH :: nat where
  "OVERRIDE_REASON_MAX_LENGTH = 1000"

record StateOverrideRequest =
  or_instanceId :: string
  or_state :: string
  or_reason :: string
  or_actorId :: string
  or_actorRoles :: "string list"

definition overrideChange :: "wf_env \<Rightarrow> string \<Rightarrow> string \<Rightarrow> string \<Rightarrow> StateChange" where
  "overrideChange env state1 actorId reason =
     \<lparr>sc_toState = state1, sc_triggeredBy = TrigUser, sc_actorId = Some actorId,
      sc_comment = Some (''Override: '' @ reason), sc_idempotencyKey = None,
      sc_metadata = Some [(''kind'', JStr ''override''), (''reason'', JStr reason)],
      sc_depth = None, sc_transitionEventId = env_randomUUID env, sc_override = True\<rparr>"

definition stateNames :: "wf_db \<Rightarrow> string \<Rightarrow> string \<Rightarrow> string list" where
  "stateNames db tenantId workflowId =
     map ws_name (selectW (\<lambda>r. ws_workflowId r = workflowId \<and> ws_tenantId r = tenantId) (db_states db))"

definition overrideWorkflowState ::
  "wf_env \<Rightarrow> wf_db \<Rightarrow> string \<Rightarrow> StateOverrideRequest \<Rightarrow> failure + (WorkflowEvent \<times> wf_db)" where
  "overrideWorkflowState env db tenantId request =
     (case userActorId (Some (or_actorId request)) of
        None \<Rightarrow> Inl (WorkflowError OVERRIDE_FORBIDDEN
                  [(''reason'', JStr ''an admin user is required'')])
      | Some actorId \<Rightarrow>
          bindE (throwIf (''admin'' \<notin> set (or_actorRoles request))
            (WorkflowError OVERRIDE_FORBIDDEN [(''reason'', JStr ''an admin user is required'')])) (\<lambda>_.
          let reason = trim (or_reason request) in
          bindE (throwIf (length reason < OVERRIDE_REASON_MIN_LENGTH \<or>
                          length reason > OVERRIDE_REASON_MAX_LENGTH)
            (WorkflowError OVERRIDE_REASON_REQUIRED
              [(''min'', JNum (of_nat OVERRIDE_REASON_MIN_LENGTH)),
               (''max'', JNum (of_nat OVERRIDE_REASON_MAX_LENGTH))])) (\<lambda>_.
          bindE (lockInstance env db tenantId (or_instanceId request)) (\<lambda>(inst, workflowId).
          bindE (orThrow (findWorkflow db tenantId workflowId)
            (WorkflowError INSTANCE_NOT_FOUND [(''workflowId'', JStr workflowId)])) (\<lambda>workflow.
          bindE (throwIf (\<not> wf_allowStateOverride workflow)
            (WorkflowError OVERRIDE_NOT_ENABLED [(''workflowId'', JStr workflowId)])) (\<lambda>_.
          bindE (throwIf (ei_createdBy inst = Some actorId)
            (WorkflowError OVERRIDE_FORBIDDEN
              [(''reason'', JStr ''the creator of a record cannot override its state'')])) (\<lambda>_.
          bindE (throwIf (or_state request \<notin> set (stateNames db tenantId workflowId))
            (WorkflowError WORKFLOW_STATE_NOT_FOUND [(''name'', JStr (or_state request))])) (\<lambda>_.
          bindE (throwIf (or_state request = ei_currentState inst)
            (WorkflowError OVERRIDE_NO_CHANGE [(''state'', JStr (or_state request))])) (\<lambda>_.
          commitStateChange env db tenantId inst workflowId
            (overrideChange env (or_state request) actorId reason))))))))))"

section \<open>Reading\<close>

definition getAvailableTransitions ::
  "wf_db \<Rightarrow> string \<Rightarrow> string \<Rightarrow> string list \<Rightarrow> string option \<Rightarrow> WorkflowTransition list" where
  "getAvailableTransitions db tenantId instanceId actorRoles actorId =
     (case select1 (isInstance tenantId instanceId) (db_instances db) of
        None \<Rightarrow> []
      | Some inst \<Rightarrow> (case ei_workflowId inst of
          Some (c # cs) \<Rightarrow>
            (let transitions = selectW (\<lambda>t. wt_workflowId t = c # cs \<and>
                   wt_fromState t = ei_currentState inst \<and> wt_tenantId t = tenantId)
                   (db_transitions db);
                 actorContext = loadActorContext db tenantId (ei_id inst) (ei_createdBy inst)
                   actorId (map wt_conditions transitions)
             in map rowToTransition
                  (filter (\<lambda>t. roleAllows actorRoles (wt_allowedRoles t) \<and>
                     evaluateConditionTree (wt_conditions t) (ei_fields inst) (Some actorContext))
                   transitions))
        | _ \<Rightarrow> []))"

definition withoutInternalMetadata :: "jsobj \<Rightarrow> jsobj" where
  "withoutInternalMetadata metadata = objRemove ''mentionIdentifiers'' metadata"

datatype event_type_filter = FilterComment | FilterHistory

definition typeFilter :: "event_type_filter option \<Rightarrow> workflow_events_row \<Rightarrow> bool" where
  "typeFilter eventType e =
     (case eventType of
        None \<Rightarrow> True
      | Some FilterComment \<Rightarrow> pgText (we_metadata e) ''type'' = Some ''comment''
      | Some FilterHistory \<Rightarrow> pgText (we_metadata e) ''type'' \<noteq> Some ''comment'')"

record LoggedEvent = EventCore +
  le_triggeredAt :: string

definition rowToLoggedEvent :: "workflow_events_row \<Rightarrow> LoggedEvent" where
  "rowToLoggedEvent e =
     EventCore.extend ((EventCore.truncate e)\<lparr>we_metadata := withoutInternalMetadata (we_metadata e)\<rparr>)
       \<lparr>le_triggeredAt = toISOString (we_createdAt e)\<rparr>"

definition getWorkflowEventLog ::
  "wf_db \<Rightarrow> string \<Rightarrow> string \<Rightarrow> event_type_filter option \<Rightarrow> nat option \<Rightarrow> LoggedEvent list" where
  "getWorkflowEventLog db tenantId instanceId eventType limit =
     (case select1 (isInstance tenantId instanceId) (db_instances db) of
        None \<Rightarrow> []
      | Some _ \<Rightarrow>
          (let events = sort_key we_createdAt
                 (selectW (\<lambda>e. we_instanceId e = instanceId \<and> we_tenantId e = tenantId \<and>
                     typeFilter eventType e) (db_events db));
               limited = (case limit of None \<Rightarrow> events
                          | Some n \<Rightarrow> if n = 0 then events else take n events)
           in map rowToLoggedEvent limited))"

section \<open>Redaction facts\<close>

lemma fst_redactMetadata [simp]: "map fst (redactMetadata m sm) = map fst m"
  by (simp add: redactMetadata_def case_prod_beta comp_def)

lemma map_of_redactMetadata:
  "map_of (redactMetadata m sm) k =
     (if isSensitive (sm k) then map_option (\<lambda>_. JStr ''[REDACTED]'') (map_of m k) else map_of m k)"
  by (induction m) (auto simp: redactMetadata_def)

lemma fold_sensitivity:
  "isSensitive (fold (\<lambda>(name, s) m. if isSensitive (Some s) then m(name \<mapsto> s) else m) rows m0 k)
   \<longleftrightarrow> isSensitive (m0 k) \<or> (\<exists>s. (k, s) \<in> set rows \<and> isSensitive (Some s))"
proof (induction rows arbitrary: m0)
  case Nil
  then show ?case by simp
next
  case (Cons r rows)
  show ?case by (cases r) (auto simp: Cons.IH)
qed

lemma isSensitive_buildSensitivityMap:
  "isSensitive (buildSensitivityMap rows k) \<longleftrightarrow> (\<exists>s. (k, s) \<in> set rows \<and> isSensitive (Some s))"
  unfolding buildSensitivityMap_def fold_sensitivity by (simp add: isSensitive_def)

definition sensitiveField :: "wf_db \<Rightarrow> string \<Rightarrow> string \<Rightarrow> string \<Rightarrow> bool" where
  "sensitiveField db tenantId entityTypeId k =
     list_ex (\<lambda>r. ef_entityTypeId r = entityTypeId \<and>
        (ef_tenantId r = None \<or> ef_tenantId r = Some tenantId) \<and> ef_name r = k \<and>
        isSensitive (Some (ef_sensitivity r))) (db_fields db)"

lemma sensitiveField_rows:
  "sensitiveField db tid etid k \<longleftrightarrow>
   isSensitive (buildSensitivityMap (sensitivityRows db tid etid) k)"
  by (auto simp: sensitiveField_def isSensitive_buildSensitivityMap sensitivityRows_def list_ex_iff)

lemma map_of_safeMetadata:
  "map_of (safeMetadata db tid etid m) k =
     (if sensitiveField db tid etid k then map_option (\<lambda>_. JStr ''[REDACTED]'') (map_of (dflt [] m) k)
      else map_of (dflt [] m) k)"
  by (auto simp: safeMetadata_def Let_def map_of_redactMetadata sensitiveField_rows)

lemma fst_safeMetadata [simp]: "map fst (safeMetadata db tid etid m) = map fst (dflt [] m)"
  by (simp add: safeMetadata_def Let_def)

section \<open>What a committed state change writes\<close>

definition slaRows ::
  "wf_env \<Rightarrow> wf_db \<Rightarrow> string \<Rightarrow> string \<Rightarrow> string \<Rightarrow> string \<Rightarrow> outbox_events_row list" where
  "slaRows env db tenantId workflowId instanceId stateName =
     (case Option.bind (select1 (isState tenantId workflowId stateName) (db_states db)) ws_slaHours of
        None \<Rightarrow> []
      | Some h \<Rightarrow> if h = 0 then []
          else [\<lparr>ob_id = env_rowId env 2, ob_tenantId = tenantId, ob_eventType = slaScheduled,
                ob_version = 1,
                ob_payload = slaPayload workflowId instanceId stateName h (env_occurredAt env),
                ob_createdAt = env_dbNow env, ob_deliveredAt = None\<rparr>])"

definition committedDb ::
  "wf_env \<Rightarrow> wf_db \<Rightarrow> string \<Rightarrow> entity_instances_row \<Rightarrow> string \<Rightarrow> StateChange \<Rightarrow> wf_db" where
  "committedDb env db tenantId inst workflowId change =
     db\<lparr>db_instances := updateW (isInstance tenantId (ei_id inst))
          (\<lambda>r. r\<lparr>ei_currentState := sc_toState change, ei_updatedAt := env_occurredAt env\<rparr>)
          (db_instances db),
        db_events := db_events db @ [newEventRow env db tenantId inst workflowId change],
        db_outbox := updateW (isPendingSla tenantId (ei_id inst) (ei_currentState inst))
            (\<lambda>r. r\<lparr>ob_deliveredAt := Some (env_cancelledAt env)\<rparr>) (db_outbox db)
          @ [transitionedOutboxRow env tenantId inst workflowId change]
          @ slaRows env db tenantId workflowId (ei_id inst) (sc_toState change)\<rparr>"

lemma newEventRow_upd [simp]:
  "newEventRow env (db\<lparr>db_instances := x\<rparr>) tid inst w ch = newEventRow env db tid inst w ch"
  by (simp add: newEventRow_def safeMetadata_def Let_def sensitivityRows_def)

lemma not_pending_transitioned [simp]:
  "\<not> isPendingSla tid i s (transitionedOutboxRow env tid' inst w ch)"
  by (simp add: isPendingSla_def transitionedOutboxRow_def slaScheduled_def)

lemma updateW_append: "updateW P f (xs @ ys) = updateW P f xs @ updateW P f ys"
  by (simp add: updateW_def)

lemma scheduleSla_as_slaRows:
  "scheduleSlaIfNeeded env db tid w i s (env_occurredAt env) =
   db\<lparr>db_outbox := db_outbox db @ slaRows env db tid w i s\<rparr>"
  by (auto simp: scheduleSlaIfNeeded_def slaRows_def insertRow_def split: option.splits)

lemma slaRows_upd [simp]:
  "slaRows env (db\<lparr>db_instances := x, db_events := y, db_outbox := z\<rparr>) tid w i s
   = slaRows env db tid w i s"
  by (simp add: slaRows_def)

lemma commitStateChange_eq:
  "commitStateChange env db tid inst w ch =
     (if idempotencyClash db (ei_id inst) (sc_idempotencyKey ch)
      then Inl (DriverError ''workflow_events_instance_idempotency_idx'')
      else Inr (rowToEvent (Some (sc_transitionEventId ch)) (newEventRow env db tid inst w ch),
                committedDb env db tid inst w ch))"
  by (simp add: commitStateChange_def Let_def committedDb_def cancelPendingSlaTimers_def
      scheduleSla_as_slaRows insertRow_def updateW_append idempotencyClash_def throwIf_def
      updateW_def [of _ _ "[_]"] newEventRow_upd)

lemma commitStateChange_Inr:
  "commitStateChange env db tid inst w ch = Inr (e, db') \<longleftrightarrow>
     \<not> idempotencyClash db (ei_id inst) (sc_idempotencyKey ch) \<and>
     e = rowToEvent (Some (sc_transitionEventId ch)) (newEventRow env db tid inst w ch) \<and>
     db' = committedDb env db tid inst w ch"
  by (auto simp: commitStateChange_eq)

lemma committedDb_frame [simp]:
  "db_fields (committedDb env db tid inst w ch) = db_fields db"
  "db_workflows (committedDb env db tid inst w ch) = db_workflows db"
  "db_states (committedDb env db tid inst w ch) = db_states db"
  "db_transitions (committedDb env db tid inst w ch) = db_transitions db"
  "db_transition_seq (committedDb env db tid inst w ch) = db_transition_seq db"
  "db_events (committedDb env db tid inst w ch) = db_events db @ [newEventRow env db tid inst w ch]"
  by (simp_all add: committedDb_def)

lemma newEventRow_sel [simp]:
  "we_tenantId (newEventRow env db tid inst w ch) = tid"
  "we_instanceId (newEventRow env db tid inst w ch) = ei_id inst"
  "we_fromState (newEventRow env db tid inst w ch) = Some (ei_currentState inst)"
  "we_toState (newEventRow env db tid inst w ch) = sc_toState ch"
  "we_actorId (newEventRow env db tid inst w ch) = sc_actorId ch"
  "we_idempotencyKey (newEventRow env db tid inst w ch) = sc_idempotencyKey ch"
  "we_metadata (newEventRow env db tid inst w ch)
     = safeMetadata db tid (ei_entityTypeId inst) (sc_metadata ch)"
  by (simp_all add: newEventRow_def)

section \<open>Inversion of the operations\<close>

lemma lockInstance_Inr:
  "lockInstance env db tid i = Inr (inst, w) \<longleftrightarrow>
     env_lock env i = LockGranted \<and>
     select1 (isInstance tid i) (db_instances db) = Some inst \<and>
     ei_workflowId inst = Some w \<and> w \<noteq> []"
proof (cases "select1 (isInstance tid i) (db_instances db)")
  case None
  then show ?thesis by (cases "env_lock env i") (simp_all add: lockInstance_def)
next
  case (Some r)
  then show ?thesis
    by (cases "env_lock env i")
      (auto simp: lockInstance_def split: option.splits list.splits)
qed

lemma lockInstance_facts:
  assumes "lockInstance env db tid i = Inr (inst, w)"
  shows "ei_id inst = i" "ei_tenantId inst = tid" "inst \<in> set (db_instances db)"
    "ei_workflowId inst = Some w" "w \<noteq> []"
  using assms by (auto simp: lockInstance_Inr isInstance_def)

definition guardsHold ::
  "wf_db \<Rightarrow> string \<Rightarrow> TransitionRequest \<Rightarrow> entity_instances_row \<Rightarrow> workflow_transitions_row \<Rightarrow> bool" where
  "guardsHold db tenantId request inst t =
     (wt_fromState t = ei_currentState inst \<and>
      roleAllows (dflt [] (tr_actorRoles request)) (wt_allowedRoles t) \<and>
      evaluateConditionTree (wt_conditions t) (ei_fields inst)
        (Some (loadActorContext db tenantId (ei_id inst) (ei_createdBy inst)
                (tr_actorId request) [wt_conditions t])) \<and>
      missingFields (ei_fields inst) (wt_requiresFields t) = [] \<and>
      \<not> (wt_requiresComment t \<and> blankComment (tr_comment request)))"

lemma transitionGuards_Inr:
  "transitionGuards db tid req inst found = Inr t \<longleftrightarrow>
     found = Some t \<and> guardsHold db tid req inst t"
  by (auto simp: transitionGuards_def guardsHold_def result_simps split: option.splits if_splits)

lemma executeTransition_Inr:
  "executeTransition env db tid req = Inr (e, db') \<longleftrightarrow>
     (\<exists>existing. findReplay db tid req = Some existing \<and>
        e = rowToEvent (Some (env_randomUUID env)) existing \<and> db' = db) \<or>
     (findReplay db tid req = None \<and>
      (\<exists>inst w wf t. lockInstance env db tid (tr_instanceId req) = Inr (inst, w) \<and>
         findWorkflow db tid w = Some wf \<and>
         findTransition db tid w (tr_transitionId req) = Some t \<and>
         guardsHold db tid req inst t \<and>
         commitStateChange env db tid inst w (transitionChange env req t) = Inr (e, db')))"
  by (auto simp: executeTransition_def result_simps transitionGuards_Inr
      split: option.splits prod.splits)

definition overrideAllowed ::
  "wf_db \<Rightarrow> string \<Rightarrow> StateOverrideRequest \<Rightarrow> entity_instances_row \<Rightarrow> string \<Rightarrow> string \<Rightarrow> bool" where
  "overrideAllowed db tenantId request inst workflowId actorId =
     (userActorId (Some (or_actorId request)) = Some actorId \<and>
      ''admin'' \<in> set (or_actorRoles request) \<and>
      OVERRIDE_REASON_MIN_LENGTH \<le> length (trim (or_reason request)) \<and>
      length (trim (or_reason request)) \<le> OVERRIDE_REASON_MAX_LENGTH \<and>
      (\<exists>wf. findWorkflow db tenantId workflowId = Some wf \<and> wf_allowStateOverride wf) \<and>
      ei_createdBy inst \<noteq> Some actorId \<and>
      or_state request \<in> set (stateNames db tenantId workflowId) \<and>
      or_state request \<noteq> ei_currentState inst)"

lemma overrideWorkflowState_Inr:
  "overrideWorkflowState env db tid req = Inr (e, db') \<longleftrightarrow>
     (\<exists>inst w actorId. lockInstance env db tid (or_instanceId req) = Inr (inst, w) \<and>
        overrideAllowed db tid req inst w actorId \<and>
        commitStateChange env db tid inst w
          (overrideChange env (or_state req) actorId (trim (or_reason req))) = Inr (e, db'))"
  (is "?L = ?R")
proof
  assume ?L
  then show ?R
    unfolding overrideWorkflowState_def overrideAllowed_def
    by (auto simp: result_simps Let_def split: option.splits)
next
  assume ?R
  then show ?L
    unfolding overrideWorkflowState_def overrideAllowed_def
    by (auto simp: result_simps Let_def not_less)
qed

end
