(* ===== verification/WfCrud.thy ===== *)
theory WfCrud
  imports WfEngine "HOL-Library.List_Lexorder" "HOL-Library.Char_ord" "HOL-Library.Product_Lexorder"
begin

text \<open>
  Maintenance of workflow definitions (\<open>packages/workflow-engine/src/workflow-crud.ts\<close>
  and \<open>authorization.ts\<close>): creating, reading, listing, changing and deleting workflows,
  their states and their transitions, each with its ownership check and its guards. An
  optional property of an input is an option; a nullable one that may also be left out is an
  option of an option.
\<close>

section \<open>Authorization\<close>

definition isWorkflowAdmin :: "string \<Rightarrow> string option \<Rightarrow> string list \<Rightarrow> bool" where
  "isWorkflowAdmin userId createdBy assignedTo =
     (createdBy = Some userId \<or> userId \<in> set assignedTo)"

definition isWorkflowAdminListEditor :: "string \<Rightarrow> string option \<Rightarrow> bool" where
  "isWorkflowAdminListEditor userId createdBy = (createdBy = Some userId)"

record WorkflowCaller =
  wc_userId :: string
  wc_isGlobalAdmin :: bool

definition errWorkflow :: "WorkflowErrorCode \<Rightarrow> string \<Rightarrow> failure" where
  "errWorkflow c workflowId = WorkflowError c [(''workflowId'', JStr workflowId)]"

definition errState :: "WorkflowErrorCode \<Rightarrow> string \<Rightarrow> failure" where
  "errState c stateId = WorkflowError c [(''stateId'', JStr stateId)]"

definition errTransition :: "WorkflowErrorCode \<Rightarrow> string \<Rightarrow> failure" where
  "errTransition c transitionId = WorkflowError c [(''transitionId'', JStr transitionId)]"

section \<open>Workflows\<close>

record CreateWorkflowInput =
  cw_entityTypeId :: string
  cw_name :: string
  cw_initialState :: string

definition newWorkflowRow :: "wf_env \<Rightarrow> string \<Rightarrow> string \<Rightarrow> CreateWorkflowInput \<Rightarrow> workflows_row" where
  "newWorkflowRow env tenantId createdBy input =
     \<lparr>wf_id = env_rowId env 0, wf_tenantId = Some tenantId,
      wf_entityTypeId = cw_entityTypeId input, wf_name = cw_name input,
      wf_initialState = cw_initialState input, wf_isActive = True, wf_createdBy = Some createdBy,
      wf_maxChildDepth = 1, wf_maxChildrenPerParent = 10, wf_allowAutoGrantOnMention = False,
      wf_allowStateOverride = False, wf_createdAt = env_dbNow env,
      wf_assignedTo = Some [createdBy]\<rparr>"

definition createWorkflow ::
  "wf_env \<Rightarrow> wf_db \<Rightarrow> string \<Rightarrow> string \<Rightarrow> CreateWorkflowInput \<Rightarrow> failure + (WorkflowDefinition \<times> wf_db)"
where
  "createWorkflow env db tenantId createdBy input =
     (let row = newWorkflowRow env tenantId createdBy input in
      if list_ex (\<lambda>r. wf_id r = wf_id row \<or>
           (wf_tenantId r = Some tenantId \<and> wf_entityTypeId r = cw_entityTypeId input)) (db_workflows db)
      then Inl (WorkflowError ENTITY_TYPE_ALREADY_GOVERNED
             [(''entityTypeId'', JStr (cw_entityTypeId input))])
      else Inr (rowToWorkflow row, db\<lparr>db_workflows := insertRow row (db_workflows db)\<rparr>))"

definition getWorkflowByEntityTypeId :: "wf_db \<Rightarrow> string \<Rightarrow> string \<Rightarrow> WorkflowDefinition option" where
  "getWorkflowByEntityTypeId db tenantId entityTypeId =
     (case sort_key wf_createdAt (selectW (\<lambda>r. wf_entityTypeId r = entityTypeId \<and>
             wf_tenantId r = Some tenantId) (db_workflows db)) of
        [] \<Rightarrow> None
      | row # _ \<Rightarrow> Some (rowToWorkflow row))"

definition statesOf :: "wf_db \<Rightarrow> string \<Rightarrow> string \<Rightarrow> workflow_states_row list" where
  "statesOf db tenantId workflowId =
     sort_key (\<lambda>r. (ws_sortOrder r, ws_id r))
       (selectW (\<lambda>r. ws_workflowId r = workflowId \<and> ws_tenantId r = tenantId) (db_states db))"

definition transitionsOf :: "wf_db \<Rightarrow> string \<Rightarrow> string \<Rightarrow> workflow_transitions_row list" where
  "transitionsOf db tenantId workflowId =
     sort_key wt_sortOrder
       (selectW (\<lambda>r. wt_workflowId r = workflowId \<and> wt_tenantId r = tenantId) (db_transitions db))"

definition toFull :: "workflows_row \<Rightarrow> WorkflowState list \<Rightarrow> WorkflowTransition list \<Rightarrow> WorkflowFull" where
  "toFull row states transitions =
     WorkflowDefinition.extend (rowToWorkflow row)
       \<lparr>wfull_states = states, wfull_transitions = transitions\<rparr>"

definition getWorkflow ::
  "wf_db \<Rightarrow> string \<Rightarrow> string \<Rightarrow> WorkflowCaller \<Rightarrow> failure + WorkflowFull" where
  "getWorkflow db tenantId workflowId caller =
     bindE (orThrow (findWorkflow db tenantId workflowId) (errWorkflow WORKFLOW_NOT_FOUND workflowId))
     (\<lambda>row. Inr (toFull row (map rowToState (statesOf db tenantId workflowId))
                  (map rowToTransition (transitionsOf db tenantId workflowId))))"

definition listFilter :: "string \<Rightarrow> string option \<Rightarrow> bool \<Rightarrow> workflows_row \<Rightarrow> bool" where
  "listFilter tenantId entityTypeId activeOnly r =
     (visibleTo tenantId r \<and>
      (case entityTypeId of None \<Rightarrow> True | Some t \<Rightarrow> t = '''' \<or> wf_entityTypeId r = t) \<and>
      (activeOnly \<longrightarrow> wf_isActive r))"

definition listRows ::
  "wf_db \<Rightarrow> string \<Rightarrow> string option \<Rightarrow> bool \<Rightarrow> nat \<Rightarrow> nat \<Rightarrow> workflows_row list" where
  "listRows db tenantId entityTypeId activeOnly limit offset =
     take limit (drop offset
       (sort_key wf_createdAt (selectW (listFilter tenantId entityTypeId activeOnly) (db_workflows db))))"

definition listWorkflowsSummary ::
  "wf_db \<Rightarrow> string \<Rightarrow> WorkflowCaller \<Rightarrow> string option \<Rightarrow> bool \<Rightarrow> nat \<Rightarrow> nat \<Rightarrow> WorkflowDefinition list" where
  "listWorkflowsSummary db tenantId caller entityTypeId activeOnly limit offset =
     map rowToWorkflow (listRows db tenantId entityTypeId activeOnly limit offset)"

definition listWorkflowSlugs :: "wf_db \<Rightarrow> string \<Rightarrow> (string \<times> string) list" where
  "listWorkflowSlugs db tenantId =
     map (\<lambda>r. (wf_id r, wf_name r)) (selectW (visibleTo tenantId) (db_workflows db))"

record WorkflowListed = WorkflowFull +
  wfl_recordCount :: nat

text \<open>Grouping rows by workflow, as the loops over a \<open>Map\<close> of lists do.\<close>

definition groupPush :: "(string \<rightharpoonup> 'a list) \<Rightarrow> string \<Rightarrow> 'a \<Rightarrow> (string \<rightharpoonup> 'a list)" where
  "groupPush m k x = m(k \<mapsto> dflt [] (m k) @ [x])"

definition listWorkflows ::
  "wf_db \<Rightarrow> string \<Rightarrow> WorkflowCaller \<Rightarrow> string option \<Rightarrow> bool \<Rightarrow> nat \<Rightarrow> nat \<Rightarrow> WorkflowListed list" where
  "listWorkflows db tenantId caller entityTypeId activeOnly limit offset =
     (let rows = listRows db tenantId entityTypeId activeOnly limit offset;
          workflowIds = map wf_id rows;
          allStates = sort_key (\<lambda>r. (ws_sortOrder r, ws_id r))
            (selectW (\<lambda>r. ws_workflowId r \<in> set workflowIds \<and> ws_tenantId r = tenantId) (db_states db));
          allTransitions = sort_key wt_sortOrder
            (selectW (\<lambda>r. wt_workflowId r \<in> set workflowIds \<and> wt_tenantId r = tenantId) (db_transitions db));
          recordCount = (\<lambda>w. length (selectW (\<lambda>r. ei_workflowId r = Some w \<and>
            ei_tenantId r = tenantId) (db_instances db)));
          statesByWorkflow = fold (\<lambda>s m. groupPush m (ws_workflowId s) (rowToState s)) allStates Map.empty;
          transitionsByWorkflow =
            fold (\<lambda>t m. groupPush m (wt_workflowId t) (rowToTransition t)) allTransitions Map.empty
      in if rows = [] then []
         else map (\<lambda>row. WorkflowFull.extend
             (toFull row (dflt [] (statesByWorkflow (wf_id row))) (dflt [] (transitionsByWorkflow (wf_id row))))
             \<lparr>wfl_recordCount = recordCount (wf_id row)\<rparr>) rows)"

record UpdateWorkflowInput =
  uw_isActive :: "bool option"
  uw_assignedTo :: "string list option"
  uw_maxChildDepth :: "int option option"
  uw_maxChildrenPerParent :: "int option option"
  uw_initialState :: "string option"
  uw_allowAutoGrantOnMention :: "bool option"
  uw_allowStateOverride :: "bool option"

definition noWorkflowUpdates :: "UpdateWorkflowInput \<Rightarrow> bool" where
  "noWorkflowUpdates input =
     (uw_isActive input = None \<and> uw_assignedTo input = None \<and> uw_maxChildDepth input = None \<and>
      uw_maxChildrenPerParent input = None \<and> uw_initialState input = None \<and>
      uw_allowAutoGrantOnMention input = None \<and> uw_allowStateOverride input = None)"

definition applyWorkflowUpdates :: "UpdateWorkflowInput \<Rightarrow> workflows_row \<Rightarrow> workflows_row" where
  "applyWorkflowUpdates input r =
     r\<lparr>wf_isActive := dflt (wf_isActive r) (uw_isActive input),
       wf_assignedTo := (case uw_assignedTo input of None \<Rightarrow> wf_assignedTo r | Some xs \<Rightarrow> Some xs),
       wf_maxChildDepth := (case uw_maxChildDepth input of
         None \<Rightarrow> wf_maxChildDepth r | Some v \<Rightarrow> dflt 1 v),
       wf_maxChildrenPerParent := (case uw_maxChildrenPerParent input of
         None \<Rightarrow> wf_maxChildrenPerParent r | Some v \<Rightarrow> dflt 10 v),
       wf_initialState := dflt (wf_initialState r) (uw_initialState input),
       wf_allowAutoGrantOnMention :=
         dflt (wf_allowAutoGrantOnMention r) (uw_allowAutoGrantOnMention input),
       wf_allowStateOverride := dflt (wf_allowStateOverride r) (uw_allowStateOverride input)\<rparr>"

definition isOwnedWorkflow :: "string \<Rightarrow> string \<Rightarrow> workflows_row \<Rightarrow> bool" where
  "isOwnedWorkflow tenantId workflowId r = (wf_id r = workflowId \<and> wf_tenantId r = Some tenantId)"

definition callerIsAdmin :: "WorkflowCaller \<Rightarrow> workflows_row \<Rightarrow> bool" where
  "callerIsAdmin caller row =
     (wc_isGlobalAdmin caller \<or>
      isWorkflowAdmin (wc_userId caller) (wf_createdBy row) (dflt [] (wf_assignedTo row)))"

definition initialStateInvalid :: "wf_db \<Rightarrow> string \<Rightarrow> string \<Rightarrow> string \<Rightarrow> bool" where
  "initialStateInvalid db tenantId workflowId initialState =
     (case select1 (isState tenantId workflowId initialState) (db_states db) of
        None \<Rightarrow> True | Some target \<Rightarrow> ws_isTerminal target)"

definition updateWorkflow ::
  "wf_env \<Rightarrow> wf_db \<Rightarrow> string \<Rightarrow> string \<Rightarrow> WorkflowCaller \<Rightarrow> UpdateWorkflowInput \<Rightarrow>
   failure + (WorkflowDefinition \<times> wf_db)" where
  "updateWorkflow env db tenantId workflowId caller input =
     bindE (orThrow (findWorkflow db tenantId workflowId) (errWorkflow WORKFLOW_NOT_FOUND workflowId)) (\<lambda>row.
     bindE (throwIf (wf_tenantId row = None) (errWorkflow WORKFLOW_NOT_FOUND workflowId)) (\<lambda>_.
     bindE (throwIf (\<not> callerIsAdmin caller row) (errWorkflow WORKFLOW_NOT_FOUND workflowId)) (\<lambda>_.
     bindE (throwIf (uw_assignedTo input \<noteq> None \<and> \<not> wc_isGlobalAdmin caller \<and>
              \<not> isWorkflowAdminListEditor (wc_userId caller) (wf_createdBy row))
       (errWorkflow WORKFLOW_ADMIN_LIST_FORBIDDEN workflowId)) (\<lambda>_.
     bindE (throwIf (case (uw_assignedTo input, wf_createdBy row) of
                (Some admins, Some creator) \<Rightarrow> \<not> wc_isGlobalAdmin caller \<and> creator \<noteq> '''' \<and>
                   creator \<notin> set admins
              | _ \<Rightarrow> False)
       (errWorkflow WORKFLOW_ADMIN_REMOVE_CREATOR_FORBIDDEN workflowId)) (\<lambda>_.
     bindE (case uw_initialState input of
              None \<Rightarrow> Inr ()
            | Some s \<Rightarrow> throwIf (initialStateInvalid db tenantId workflowId s)
                (WorkflowError WORKFLOW_INITIAL_STATE_INVALID [(''initialState'', JStr s)])) (\<lambda>_.
     (let db' = (if noWorkflowUpdates input then db
                 else db\<lparr>db_workflows := updateW (isOwnedWorkflow tenantId workflowId)
                        (applyWorkflowUpdates input) (db_workflows db)\<rparr>)
      in bindE (orThrow (select1 (isOwnedWorkflow tenantId workflowId) (db_workflows db'))
            (errWorkflow WORKFLOW_NOT_FOUND workflowId))
         (\<lambda>updated. Inr (rowToWorkflow updated, db')))))))))"

definition deleteWorkflow ::
  "wf_env \<Rightarrow> wf_db \<Rightarrow> string \<Rightarrow> string \<Rightarrow> WorkflowCaller \<Rightarrow> failure + (unit \<times> wf_db)" where
  "deleteWorkflow env db tenantId workflowId caller =
     bindE (orThrow (findWorkflow db tenantId workflowId) (errWorkflow WORKFLOW_NOT_FOUND workflowId)) (\<lambda>row.
     bindE (throwIf (wf_tenantId row = None) (errWorkflow WORKFLOW_NOT_FOUND workflowId)) (\<lambda>_.
     bindE (throwIf (\<not> wc_isGlobalAdmin caller \<and>
              \<not> isWorkflowAdminListEditor (wc_userId caller) (wf_createdBy row))
       (errWorkflow WORKFLOW_NOT_FOUND workflowId)) (\<lambda>_.
     bindE (throwIf (list_ex (\<lambda>r. ei_workflowId r = Some workflowId \<and> ei_tenantId r = tenantId) (db_instances db))
       (errWorkflow WORKFLOW_HAS_ACTIVE_INSTANCES workflowId)) (\<lambda>_.
     (let db1 = db\<lparr>db_transitions := deleteW (\<lambda>r. wt_workflowId r = workflowId \<and> wt_tenantId r = tenantId)
                 (db_transitions db)\<rparr>;
          db2 = db1\<lparr>db_states := deleteW (\<lambda>r. ws_workflowId r = workflowId \<and> ws_tenantId r = tenantId)
                 (db_states db1)\<rparr>;
          stillReferenced = (env_workflowReferenced env workflowId \<or>
            list_ex (\<lambda>e. we_workflowId e = workflowId) (db_events db2) \<or>
            list_ex (\<lambda>r. ws_workflowId r = workflowId) (db_states db2) \<or>
            list_ex (\<lambda>r. wt_workflowId r = workflowId) (db_transitions db2))
      in bindE (throwIf stillReferenced (DriverError ''foreign key violation on workflows''))
         (\<lambda>_. Inr ((), db2\<lparr>db_workflows :=
            deleteW (isOwnedWorkflow tenantId workflowId) (db_workflows db2)\<rparr>)))))))"

definition assertWorkflowOwned ::
  "wf_db \<Rightarrow> string \<Rightarrow> string \<Rightarrow> WorkflowCaller \<Rightarrow> failure + unit" where
  "assertWorkflowOwned db tenantId workflowId caller =
     bindE (orThrow (select1 (isOwnedWorkflow tenantId workflowId) (db_workflows db))
       (errWorkflow WORKFLOW_NOT_FOUND workflowId)) (\<lambda>row.
     throwIf (\<not> callerIsAdmin caller row) (errWorkflow WORKFLOW_NOT_FOUND workflowId))"

section \<open>Rules that name states\<close>

definition assertRuleStatesExist ::
  "wf_db \<Rightarrow> string \<Rightarrow> string \<Rightarrow> ConditionTree option option \<Rightarrow> failure + unit" where
  "assertRuleStatesExist db tenantId workflowId conditions =
     (let named = optCollectRuleStates (Option.bind conditions (\<lambda>c. c)) in
      if named = [] then Inr ()
      else (let known = stateNames db tenantId workflowId;
                unknown = filter (\<lambda>n. n \<notin> set known) (rev (remdups (rev named)))
            in throwIf (unknown \<noteq> [])
                 (WorkflowError WORKFLOW_CONDITION_STATE_UNKNOWN [(''unknown'', jstrs unknown)])))"

definition assertStateNotNamedByRule ::
  "wf_db \<Rightarrow> string \<Rightarrow> string \<Rightarrow> string \<Rightarrow> string \<Rightarrow> failure + unit" where
  "assertStateNotNamedByRule db tenantId workflowId stateName stateId =
     throwIf (list_ex (\<lambda>t. stateName \<in> set (optCollectRuleStates (wt_conditions t)))
         (selectW (\<lambda>t. wt_workflowId t = workflowId \<and> wt_tenantId t = tenantId) (db_transitions db)))
       (WorkflowError WORKFLOW_STATE_IN_USE
         [(''stateId'', JStr stateId), (''reason'', JStr ''named by a segregation-of-duties rule'')])"

section \<open>States\<close>

record CreateWorkflowStateInput =
  cs_name :: string
  cs_label :: string
  cs_color :: "string option"
  cs_isTerminal :: "bool option"
  cs_slaHours :: "int option"
  cs_sortOrder :: "int option"

definition newStateRow ::
  "wf_env \<Rightarrow> string \<Rightarrow> string \<Rightarrow> CreateWorkflowStateInput \<Rightarrow> workflow_states_row" where
  "newStateRow env tenantId workflowId input =
     \<lparr>ws_id = env_rowId env 0, ws_workflowId = workflowId, ws_name = cs_name input,
      ws_label = cs_label input, ws_color = Some (dflt ''#888780'' (cs_color input)),
      ws_isTerminal = dflt False (cs_isTerminal input), ws_slaHours = cs_slaHours input,
      ws_sortOrder = dflt 0 (cs_sortOrder input), ws_tenantId = tenantId\<rparr>"

definition addWorkflowState ::
  "wf_env \<Rightarrow> wf_db \<Rightarrow> string \<Rightarrow> string \<Rightarrow> WorkflowCaller \<Rightarrow> CreateWorkflowStateInput \<Rightarrow>
   failure + (WorkflowState \<times> wf_db)" where
  "addWorkflowState env db tenantId workflowId caller input =
     bindE (assertWorkflowOwned db tenantId workflowId caller) (\<lambda>_.
     (let existingStateCount = length (selectW (\<lambda>r. ws_workflowId r = workflowId \<and>
            ws_tenantId r = tenantId) (db_states db));
          row = newStateRow env tenantId workflowId input in
     bindE (throwIf (list_ex (\<lambda>r. ws_id r = ws_id row) (db_states db))
       (DriverError ''workflow_states_pkey'')) (\<lambda>_.
     (let db1 = db\<lparr>db_states := insertRow row (db_states db)\<rparr>;
          db2 = (if existingStateCount = 0 \<and> \<not> ws_isTerminal row
                 then db1\<lparr>db_workflows := updateW (isOwnedWorkflow tenantId workflowId)
                        (\<lambda>r. r\<lparr>wf_initialState := ws_name row\<rparr>) (db_workflows db1)\<rparr>
                 else db1)
      in Inr (rowToState row, db2)))))"

record UpdateWorkflowStateInput =
  us_name :: "string option"
  us_label :: "string option"
  us_color :: "string option"
  us_isTerminal :: "bool option"
  us_slaHours :: "int option option"
  us_sortOrder :: "int option"

definition isStateRow :: "string \<Rightarrow> string \<Rightarrow> string \<Rightarrow> workflow_states_row \<Rightarrow> bool" where
  "isStateRow tenantId workflowId stateId r =
     (ws_id r = stateId \<and> ws_workflowId r = workflowId \<and> ws_tenantId r = tenantId)"

definition noStateUpdates :: "string option \<Rightarrow> UpdateWorkflowStateInput \<Rightarrow> bool" where
  "noStateUpdates newName input =
     (newName = None \<and> us_label input = None \<and> us_color input = None \<and>
      us_isTerminal input = None \<and> us_slaHours input = None \<and> us_sortOrder input = None)"

definition applyStateUpdates ::
  "string option \<Rightarrow> UpdateWorkflowStateInput \<Rightarrow> workflow_states_row \<Rightarrow> workflow_states_row" where
  "applyStateUpdates newName input r =
     r\<lparr>ws_name := dflt (ws_name r) newName,
       ws_label := dflt (ws_label r) (us_label input),
       ws_color := (case us_color input of None \<Rightarrow> ws_color r | Some c \<Rightarrow> Some c),
       ws_isTerminal := dflt (ws_isTerminal r) (us_isTerminal input),
       ws_slaHours := dflt (ws_slaHours r) (us_slaHours input),
       ws_sortOrder := dflt (ws_sortOrder r) (us_sortOrder input)\<rparr>"

definition cascadeRename :: "wf_db \<Rightarrow> string \<Rightarrow> string \<Rightarrow> string \<Rightarrow> string \<Rightarrow> wf_db" where
  "cascadeRename db tenantId workflowId oldName finalName =
     (let db1 = db\<lparr>db_transitions := updateW (\<lambda>r. wt_workflowId r = workflowId \<and>
                 wt_tenantId r = tenantId \<and> wt_fromState r = oldName)
                 (\<lambda>r. r\<lparr>wt_fromState := finalName\<rparr>) (db_transitions db)\<rparr>;
          db2 = db1\<lparr>db_transitions := updateW (\<lambda>r. wt_workflowId r = workflowId \<and>
                 wt_tenantId r = tenantId \<and> wt_toState r = oldName)
                 (\<lambda>r. r\<lparr>wt_toState := finalName\<rparr>) (db_transitions db1)\<rparr>;
          db3 = db2\<lparr>db_workflows := updateW (\<lambda>r. isOwnedWorkflow tenantId workflowId r \<and>
                 wf_initialState r = oldName)
                 (\<lambda>r. r\<lparr>wf_initialState := finalName\<rparr>) (db_workflows db2)\<rparr>
      in db3\<lparr>db_instances := updateW (\<lambda>r. ei_workflowId r = Some workflowId \<and>
                 ei_tenantId r = tenantId \<and> ei_currentState r = oldName)
                 (\<lambda>r. r\<lparr>ei_currentState := finalName\<rparr>) (db_instances db3)\<rparr>)"

definition updateWorkflowState ::
  "wf_env \<Rightarrow> wf_db \<Rightarrow> string \<Rightarrow> string \<Rightarrow> string \<Rightarrow> WorkflowCaller \<Rightarrow> UpdateWorkflowStateInput \<Rightarrow>
   failure + (WorkflowState \<times> wf_db)" where
  "updateWorkflowState env db tenantId workflowId stateId caller input =
     bindE (assertWorkflowOwned db tenantId workflowId caller) (\<lambda>_.
     bindE (orThrow (select1 (isStateRow tenantId workflowId stateId) (db_states db))
       (errState WORKFLOW_STATE_NOT_FOUND stateId)) (\<lambda>current.
     (let newName = (case us_name input of None \<Rightarrow> None
                     | Some n \<Rightarrow> if n \<noteq> ws_name current then Some n else None) in
     bindE (case newName of
              None \<Rightarrow> Inr ()
            | Some n \<Rightarrow>
                bindE (throwIf (select1 (isState tenantId workflowId n) (db_states db) \<noteq> None)
                  (WorkflowError WORKFLOW_STATE_NAME_TAKEN [(''name'', JStr n)])) (\<lambda>_.
                assertStateNotNamedByRule db tenantId workflowId (ws_name current) stateId)) (\<lambda>_.
     bindE (throwIf (noStateUpdates newName input \<and> env_rejectEmptySet env)
              (DriverError ''No values to set'')) (\<lambda>_.
     (let db1 = db\<lparr>db_states := updateW (isStateRow tenantId workflowId stateId)
                 (applyStateUpdates newName input) (db_states db)\<rparr> in
     bindE (orThrow (select1 (isStateRow tenantId workflowId stateId) (db_states db1))
       (errState WORKFLOW_STATE_NOT_FOUND stateId)) (\<lambda>row.
     Inr (rowToState row,
          if newName \<noteq> None
          then cascadeRename db1 tenantId workflowId (ws_name current) (ws_name row)
          else db1))))))))"

definition deleteWorkflowState ::
  "wf_env \<Rightarrow> wf_db \<Rightarrow> string \<Rightarrow> string \<Rightarrow> string \<Rightarrow> WorkflowCaller \<Rightarrow> failure + (unit \<times> wf_db)" where
  "deleteWorkflowState env db tenantId workflowId stateId caller =
     bindE (assertWorkflowOwned db tenantId workflowId caller) (\<lambda>_.
     bindE (orThrow (select1 (isOwnedWorkflow tenantId workflowId) (db_workflows db))
       (errWorkflow WORKFLOW_NOT_FOUND workflowId)) (\<lambda>wf.
     bindE (orThrow (select1 (isStateRow tenantId workflowId stateId) (db_states db))
       (errState WORKFLOW_STATE_NOT_FOUND stateId)) (\<lambda>st.
     bindE (throwIf (wf_initialState wf = ws_name st) (errState WORKFLOW_STATE_IN_USE stateId)) (\<lambda>_.
     bindE (assertStateNotNamedByRule db tenantId workflowId (ws_name st) stateId) (\<lambda>_.
     bindE (throwIf (list_ex (\<lambda>t. wt_workflowId t = workflowId \<and> wt_tenantId t = tenantId \<and>
              (wt_fromState t = ws_name st \<or> wt_toState t = ws_name st)) (db_transitions db))
       (errState WORKFLOW_STATE_IN_USE stateId)) (\<lambda>_.
     bindE (throwIf (list_ex (\<lambda>r. ei_workflowId r = Some workflowId \<and> ei_tenantId r = tenantId \<and>
              ei_currentState r = ws_name st) (db_instances db))
       (errState WORKFLOW_STATE_IN_USE stateId)) (\<lambda>_.
     Inr ((), db\<lparr>db_states := deleteW (isStateRow tenantId workflowId stateId) (db_states db)\<rparr>))))))))"

section \<open>Transitions\<close>

record CreateWorkflowTransitionInput =
  ct_fromState :: string
  ct_toState :: string
  ct_label :: "string option"
  ct_allowedRoles :: "string list option"
  ct_conditions :: "ConditionTree option option"
  ct_requiresComment :: "bool option"
  ct_requiresFields :: "string list option"

definition newTransitionRow ::
  "wf_env \<Rightarrow> wf_db \<Rightarrow> string \<Rightarrow> string \<Rightarrow> CreateWorkflowTransitionInput \<Rightarrow> workflow_transitions_row" where
  "newTransitionRow env db tenantId workflowId input =
     \<lparr>wt_id = env_rowId env 0, wt_workflowId = workflowId, wt_fromState = ct_fromState input,
      wt_toState = ct_toState input, wt_label = ct_label input,
      wt_allowedRoles = dflt [] (ct_allowedRoles input),
      wt_conditions = Option.bind (ct_conditions input) (\<lambda>c. c),
      wt_requiresComment = dflt False (ct_requiresComment input),
      wt_requiresFields = dflt [] (ct_requiresFields input),
      wt_sortOrder = db_transition_seq db, wt_tenantId = tenantId\<rparr>"

definition addWorkflowTransition ::
  "wf_env \<Rightarrow> wf_db \<Rightarrow> string \<Rightarrow> string \<Rightarrow> WorkflowCaller \<Rightarrow> CreateWorkflowTransitionInput \<Rightarrow>
   failure + (WorkflowTransition \<times> wf_db)" where
  "addWorkflowTransition env db tenantId workflowId caller input =
     bindE (assertWorkflowOwned db tenantId workflowId caller) (\<lambda>_.
     bindE (assertRuleStatesExist db tenantId workflowId (ct_conditions input)) (\<lambda>_.
     (let row = newTransitionRow env db tenantId workflowId input in
     bindE (throwIf (list_ex (\<lambda>r. wt_id r = wt_id row) (db_transitions db))
       (DriverError ''workflow_transitions_pkey'')) (\<lambda>_.
     Inr (rowToTransition row,
          db\<lparr>db_transitions := insertRow row (db_transitions db),
             db_transition_seq := db_transition_seq db + 1\<rparr>)))))"

record UpdateWorkflowTransitionInput =
  ut_label :: "string option"
  ut_allowedRoles :: "string list option"
  ut_conditions :: "ConditionTree option option"
  ut_requiresComment :: "bool option"
  ut_requiresFields :: "string list option"

definition isTransitionRow :: "string \<Rightarrow> string \<Rightarrow> string \<Rightarrow> workflow_transitions_row \<Rightarrow> bool" where
  "isTransitionRow tenantId workflowId transitionId r =
     (wt_id r = transitionId \<and> wt_workflowId r = workflowId \<and> wt_tenantId r = tenantId)"

definition noTransitionUpdates :: "UpdateWorkflowTransitionInput \<Rightarrow> bool" where
  "noTransitionUpdates input =
     (ut_label input = None \<and> ut_allowedRoles input = None \<and> ut_conditions input = None \<and>
      ut_requiresComment input = None \<and> ut_requiresFields input = None)"

definition applyTransitionUpdates ::
  "UpdateWorkflowTransitionInput \<Rightarrow> workflow_transitions_row \<Rightarrow> workflow_transitions_row" where
  "applyTransitionUpdates input r =
     r\<lparr>wt_label := (case ut_label input of None \<Rightarrow> wt_label r | Some l \<Rightarrow> Some l),
       wt_allowedRoles := dflt (wt_allowedRoles r) (ut_allowedRoles input),
       wt_conditions := dflt (wt_conditions r) (ut_conditions input),
       wt_requiresComment := dflt (wt_requiresComment r) (ut_requiresComment input),
       wt_requiresFields := dflt (wt_requiresFields r) (ut_requiresFields input)\<rparr>"

definition updateWorkflowTransition ::
  "wf_env \<Rightarrow> wf_db \<Rightarrow> string \<Rightarrow> string \<Rightarrow> string \<Rightarrow> WorkflowCaller \<Rightarrow> UpdateWorkflowTransitionInput \<Rightarrow>
   failure + (WorkflowTransition \<times> wf_db)" where
  "updateWorkflowTransition env db tenantId workflowId transitionId caller input =
     bindE (assertWorkflowOwned db tenantId workflowId caller) (\<lambda>_.
     bindE (assertRuleStatesExist db tenantId workflowId (ut_conditions input)) (\<lambda>_.
     bindE (throwIf (noTransitionUpdates input \<and> env_rejectEmptySet env)
              (DriverError ''No values to set'')) (\<lambda>_.
     (let db1 = db\<lparr>db_transitions := updateW (isTransitionRow tenantId workflowId transitionId)
                 (applyTransitionUpdates input) (db_transitions db)\<rparr> in
     bindE (orThrow (select1 (isTransitionRow tenantId workflowId transitionId) (db_transitions db1))
       (errTransition WORKFLOW_TRANSITION_NOT_FOUND transitionId)) (\<lambda>row.
     Inr (rowToTransition row, db1))))))"

definition deleteWorkflowTransition ::
  "wf_env \<Rightarrow> wf_db \<Rightarrow> string \<Rightarrow> string \<Rightarrow> string \<Rightarrow> WorkflowCaller \<Rightarrow> failure + (unit \<times> wf_db)" where
  "deleteWorkflowTransition env db tenantId workflowId transitionId caller =
     bindE (assertWorkflowOwned db tenantId workflowId caller) (\<lambda>_.
     bindE (throwIf (select1 (isTransitionRow tenantId workflowId transitionId) (db_transitions db) = None)
       (errTransition WORKFLOW_TRANSITION_NOT_FOUND transitionId)) (\<lambda>_.
     Inr ((), db\<lparr>db_transitions :=
       deleteW (isTransitionRow tenantId workflowId transitionId) (db_transitions db)\<rparr>)))"

end
