(* ===== verification/WfDemo.thy ===== *)
theory WfDemo
  imports WfEngine
begin

text \<open>
  A small tenant on which the witnesses of the workflow theorems are evaluated: one workflow
  with a draft and an approved state, one transition between them that only a manager who is
  neither the record's creator nor an earlier actor may take, and one instance in draft.
\<close>

definition demo_env :: wf_env where
  "demo_env = \<lparr>env_rowId = (\<lambda>k. if k = 0 then ''ev1'' else if k = 1 then ''ob1'' else ''ob2''),
     env_randomUUID = ''call1'', env_occurredAt = 1000, env_cancelledAt = 1001, env_dbNow = 999,
     env_lock = (\<lambda>_. LockGranted), env_rejectEmptySet = True,
     env_workflowReferenced = (\<lambda>_. False)\<rparr>"

definition demo_db :: wf_db where
  "demo_db = empty_db\<lparr>
     db_instances := [\<lparr>ei_id = ''i1'', ei_entityTypeId = ''et1'', ei_tenantId = ''t1'',
        ei_workflowId = Some ''w1'', ei_currentState = ''draft'',
        ei_fields = [(''amount'', JNum 50)], ei_createdBy = Some ''alice'',
        ei_assignedTo = None, ei_updatedAt = 0\<rparr>],
     db_fields := [\<lparr>ef_entityTypeId = ''et1'', ef_tenantId = None, ef_name = ''iban'',
        ef_sensitivity = SensFinancial\<rparr>],
     db_workflows := [\<lparr>wf_id = ''w1'', wf_tenantId = Some ''t1'', wf_entityTypeId = ''et1'',
        wf_name = ''Approval'', wf_initialState = ''draft'', wf_isActive = True,
        wf_createdBy = Some ''olga'', wf_maxChildDepth = 1, wf_maxChildrenPerParent = 10,
        wf_allowAutoGrantOnMention = False, wf_allowStateOverride = True, wf_createdAt = 0,
        wf_assignedTo = Some [''olga'']\<rparr>],
     db_states := [\<lparr>ws_id = ''s1'', ws_workflowId = ''w1'', ws_name = ''draft'',
        ws_label = ''Draft'', ws_color = None, ws_isTerminal = False, ws_slaHours = Some 4,
        ws_sortOrder = 0, ws_tenantId = ''t1''\<rparr>,
        \<lparr>ws_id = ''s2'', ws_workflowId = ''w1'', ws_name = ''approved'',
        ws_label = ''Approved'', ws_color = None, ws_isTerminal = False, ws_slaHours = Some 8,
        ws_sortOrder = 1, ws_tenantId = ''t1''\<rparr>],
     db_transitions := [\<lparr>wt_id = ''tr1'', wt_workflowId = ''w1'', wt_fromState = ''draft'',
        wt_toState = ''approved'', wt_label = None, wt_allowedRoles = [''manager''],
        wt_conditions = Some (CAnd [ActorNotCreator, ActorNotPriorActor None,
          CField (FieldCondition OpLte ''amount'' (JNum 100))]),
        wt_requiresComment = True, wt_requiresFields = [''amount''], wt_sortOrder = 1,
        wt_tenantId = ''t1''\<rparr>]\<rparr>"

definition demo_request :: TransitionRequest where
  "demo_request = \<lparr>tr_instanceId = ''i1'', tr_transitionId = ''tr1'', tr_actorId = Some ''bob'',
     tr_actorRoles = Some [''manager''], tr_comment = Some ''fine'', tr_idempotencyKey = Some ''k1'',
     tr_triggeredBy = None, tr_metadata = Some [(''iban'', JStr ''DE00''), (''note'', JStr ''x'')],
     tr_depth = None\<rparr>"

definition demo_override :: StateOverrideRequest where
  "demo_override = \<lparr>or_instanceId = ''i1'', or_state = ''approved'',
     or_reason = ''  stuck in draft since March  '', or_actorId = ''carol'',
     or_actorRoles = [''admin'']\<rparr>"

text \<open>The same tenant after \<open>dave\<close> moved the instance into draft.\<close>

definition demo_prior_event :: workflow_events_row where
  "demo_prior_event = \<lparr>we_id = ''ev0'', we_instanceId = ''i1'', we_workflowId = ''w1'',
     we_fromState = Some ''new'', we_toState = ''draft'', we_triggeredBy = TrigUser,
     we_actorId = Some ''dave'', we_comment = None, we_metadata = [], we_createdAt = 1,
     we_originMechanism = None, we_originOidcClientId = None, we_originPerformerUserId = None,
     we_tenantId = ''t1'', we_idempotencyKey = None\<rparr>"

definition demo_db_prior :: wf_db where
  "demo_db_prior = demo_db\<lparr>db_events := [demo_prior_event]\<rparr>"

lemmas demo_defs = demo_env_def demo_db_def demo_db_prior_def demo_prior_event_def demo_request_def demo_override_def empty_db_def

text \<open>The definitions to unfold when a concrete call is evaluated by the simplifier.\<close>

lemmas wf_eval =
  Let_def selectW_def select1_def updateW_def deleteW_def insertRow_def List.map_filter_def
  objGet_def isBlank_def trim_def isJsSpace_def startsWith_def
  evaluateConditionTree_def optTreeNeedsPriorActors_def optActorId_def optCreatedBy_def
  optPriorActors_def actedBefore_def evaluateFieldCondition_def compareNum_def
  visibleTo_def isInstance_def isState_def lockInstance_def findWorkflow_def findTransition_def
  findReplay_def transitionGuards_def roleAllows_def hasRequiredRole_def loadActorContext_def
  userActorId_def priorActorRows_def isStateChangeBy_def toPriorActor_def missingFields_def
  blankComment_def transitionChange_def overrideChange_def commitStateChange_eq idempotencyClash_def executeTransition_def
  overrideWorkflowState_def stateNames_def OVERRIDE_REASON_MIN_LENGTH_def
  OVERRIDE_REASON_MAX_LENGTH_def

lemma demo_no_replay: "findReplay demo_db ''t1'' demo_request = None"
  by (simp add: demo_defs wf_eval)

lemma demo_returns: "\<not> isl (executeTransition demo_env demo_db ''t1'' demo_request)"
  by (simp add: demo_defs wf_eval)

lemma demo_prior_returns: "\<not> isl (executeTransition demo_env demo_db_prior ''t1'' demo_request)"
  by (simp add: demo_defs wf_eval)

lemma demo_override_returns: "\<not> isl (overrideWorkflowState demo_env demo_db ''t1'' demo_override)"
  by (simp add: demo_defs wf_eval)

lemma demo_transition:
  obtains e db' where "executeTransition demo_env demo_db ''t1'' demo_request = Inr (e, db')"
  using returns_pair [OF demo_returns] by blast

lemma demo_override_done:
  obtains e db' where "overrideWorkflowState demo_env demo_db ''t1'' demo_override = Inr (e, db')"
  using returns_pair [OF demo_override_returns] by blast

end
