(* ===== verification/WfEngineProps.thy ===== *)
theory WfEngineProps
  imports WfDemo
begin

text \<open>
  What the workflow engine guarantees: a transition fires only along a defined edge whose
  guards hold, a duplicate submission replays the recorded event, the segregation rules bind
  real users, the list of available transitions agrees with what the engine accepts, the
  event log replays to the current state, sensitive metadata is stored redacted, and each
  instance has at most one pending timer, for the state it is in.
\<close>

section \<open>Replay\<close>

lemma findReplay_key:
  "findReplay db tid req = Some e \<Longrightarrow>
     e \<in> set (db_events db) \<and> we_tenantId e = tid \<and> we_instanceId e = tr_instanceId req \<and>
     we_idempotencyKey e = tr_idempotencyKey req"
  by (auto simp: findReplay_def split: option.splits if_splits dest!: select1_Some)

lemma findReplay_cong:
  "tr_instanceId req' = tr_instanceId req \<Longrightarrow> tr_idempotencyKey req' = tr_idempotencyKey req \<Longrightarrow>
   findReplay db tid req' = findReplay db tid req"
  by (cases "tr_idempotencyKey req") (simp_all add: findReplay_def)

lemma findReplay_after_commit:
  assumes "findReplay db tid req = None" "tr_idempotencyKey req = Some k" "k \<noteq> ''''"
    and "we_tenantId r = tid" "we_instanceId r = tr_instanceId req" "we_idempotencyKey r = Some k"
    and "db_events db' = db_events db @ [r]"
  shows "findReplay db' tid req = Some r"
  using assms by (simp add: findReplay_def select1_append_new)

lemma rowToEvent_replayed:
  "(rowToEvent a r)\<lparr>wev_transitionEventId := b\<rparr> = rowToEvent b r"
  by (simp add: rowToEvent_def EventCore.defs)

lemma transitionChange_sel [simp]:
  "sc_toState (transitionChange env req t) = wt_toState t"
  "sc_idempotencyKey (transitionChange env req t) = tr_idempotencyKey req"
  "sc_actorId (transitionChange env req t) = tr_actorId req"
  "sc_metadata (transitionChange env req t) = tr_metadata req"
  "sc_transitionEventId (transitionChange env req t) = env_randomUUID env"
  by (simp_all add: transitionChange_def)

text \<open>
  C1. A transition submitted with an idempotency key takes effect once: whatever a later
  submission for the same instance with the same key asks for, it returns the recorded event
  (under a new call identity) and leaves the database as it is.
\<close>
theorem executeTransition_idempotent:
  assumes first: "executeTransition env db tid req = Inr (e, db1)"
    and key: "tr_idempotencyKey req = Some k" "k \<noteq> ''''"
    and same: "tr_instanceId req' = tr_instanceId req" "tr_idempotencyKey req' = Some k"
  shows "executeTransition env' db1 tid req' =
           Inr (e\<lparr>wev_transitionEventId := Some (env_randomUUID env')\<rparr>, db1)"
proof -
  have "\<exists>r a. findReplay db1 tid req = Some r \<and> e = rowToEvent a r"
    using first unfolding executeTransition_Inr
  proof (elim disjE exE conjE)
    fix inst w wf t
    assume none: "findReplay db tid req = None"
      and lock: "lockInstance env db tid (tr_instanceId req) = Inr (inst, w)"
      and "commitStateChange env db tid inst w (transitionChange env req t) = Inr (e, db1)"
    then have e: "e = rowToEvent (Some (env_randomUUID env))
                (newEventRow env db tid inst w (transitionChange env req t))"
      and "db1 = committedDb env db tid inst w (transitionChange env req t)"
      by (auto simp: commitStateChange_eq split: if_splits)
    then have "findReplay db1 tid req = Some (newEventRow env db tid inst w (transitionChange env req t))"
      using key lockInstance_facts [OF lock] by (intro findReplay_after_commit [OF none key]) simp_all
    with e show ?thesis by blast
  qed auto
  then obtain r a where "findReplay db1 tid req' = Some r" and "e = rowToEvent a r"
    using findReplay_cong [of req' req] same key by auto
  then show ?thesis by (simp add: executeTransition_def rowToEvent_replayed)
qed

theorem executeTransition_idempotent_witness:
  "\<exists>e db1. executeTransition demo_env demo_db ''t1'' demo_request = Inr (e, db1) \<and>
     executeTransition demo_env db1 ''t1'' (demo_request\<lparr>tr_transitionId := ''other''\<rparr>) =
       Inr (e\<lparr>wev_transitionEventId := Some ''call1''\<rparr>, db1)"
proof -
  obtain e db1 where run: "executeTransition demo_env demo_db ''t1'' demo_request = Inr (e, db1)"
    by (rule demo_transition)
  have "executeTransition demo_env db1 ''t1'' (demo_request\<lparr>tr_transitionId := ''other''\<rparr>) =
      Inr (e\<lparr>wev_transitionEventId := Some (env_randomUUID demo_env)\<rparr>, db1)"
    by (rule executeTransition_idempotent [OF run, where k = "''k1''"]) (simp_all add: demo_request_def)
  then show ?thesis using run by (simp add: demo_env_def)
qed

section \<open>Guards\<close>

text \<open>
  C2. When a transition is not a replay and succeeds, the instance is in the tenant and
  attached to a workflow the tenant can see, the transition belongs to that workflow and
  leaves the instance's current state, the caller holds one of its roles (if it names any),
  its condition tree is satisfied, every required field is filled and a required comment is
  present; the instance is then in the transition's target state.
\<close>
theorem executeTransition_guarded:
  assumes "executeTransition env db tid req = Inr (e, db')" and "findReplay db tid req = None"
  shows "\<exists>inst w t. select1 (isInstance tid (tr_instanceId req)) (db_instances db) = Some inst \<and>
    ei_workflowId inst = Some w \<and> findWorkflow db tid w \<noteq> None \<and>
    t \<in> set (db_transitions db) \<and> wt_id t = tr_transitionId req \<and> wt_workflowId t = w \<and>
    wt_tenantId t = tid \<and> guardsHold db tid req inst t \<and>
    we_fromState e = Some (ei_currentState inst) \<and> we_toState e = wt_toState t \<and>
    map_option ei_currentState
      (select1 (isInstance tid (tr_instanceId req)) (db_instances db')) = Some (wt_toState t)"
proof -
  obtain inst w wf t where lock: "lockInstance env db tid (tr_instanceId req) = Inr (inst, w)"
    and wf: "findWorkflow db tid w = Some wf"
    and t: "findTransition db tid w (tr_transitionId req) = Some t"
    and guards: "guardsHold db tid req inst t"
    and commit: "commitStateChange env db tid inst w (transitionChange env req t) = Inr (e, db')"
    using assms unfolding executeTransition_Inr by auto
  have found: "select1 (isInstance tid (tr_instanceId req)) (db_instances db) = Some inst"
    using lock by (simp add: lockInstance_Inr)
  have "map_option ei_currentState
      (select1 (isInstance tid (tr_instanceId req)) (db_instances db')) = Some (wt_toState t)"
    using commit found lockInstance_facts(1) [OF lock]
    by (auto simp: commitStateChange_eq committedDb_def select1_updateW isInstance_def split: if_splits)
  moreover have "we_fromState e = Some (ei_currentState inst)" "we_toState e = wt_toState t"
    using commit by (auto simp: commitStateChange_eq split: if_splits)
  ultimately show ?thesis
    using found wf guards t lockInstance_facts [OF lock]
    by (auto simp: findTransition_def)
qed

theorem executeTransition_guarded_witness:
  "\<exists>e db' inst w t. executeTransition demo_env demo_db ''t1'' demo_request = Inr (e, db') \<and>
     select1 (isInstance ''t1'' ''i1'') (db_instances demo_db) = Some inst \<and>
     ei_workflowId inst = Some w \<and> t \<in> set (db_transitions demo_db) \<and>
     guardsHold demo_db ''t1'' demo_request inst t \<and>
     map_option ei_currentState (select1 (isInstance ''t1'' ''i1'') (db_instances db')) = Some (wt_toState t)"
proof -
  obtain e db' where run: "executeTransition demo_env demo_db ''t1'' demo_request = Inr (e, db')"
    by (rule demo_transition)
  have "tr_instanceId demo_request = ''i1''" by (simp add: demo_request_def)
  then show ?thesis
    using executeTransition_guarded [OF run demo_no_replay] run by metis
qed

section \<open>Refinement of an abstract state machine\<close>

text \<open>
  The contract of the engine for one tenant: a current state for each instance, and a log of
  moves. Firing a move sets the state and appends to the log; nothing else happens.
\<close>

record abstract_wf =
  abs_current :: "string \<rightharpoonup> string"
  abs_log :: "(string \<times> string option \<times> string) list"

definition abs_fire :: "string \<Rightarrow> string \<Rightarrow> abstract_wf \<Rightarrow> abstract_wf option" where
  "abs_fire i target a =
     (case abs_current a i of
        None \<Rightarrow> None
      | Some s \<Rightarrow> Some \<lparr>abs_current = (abs_current a)(i \<mapsto> target),
                        abs_log = abs_log a @ [(i, Some s, target)]\<rparr>)"

definition absOf :: "string \<Rightarrow> wf_db \<Rightarrow> abstract_wf" where
  "absOf tid db =
     \<lparr>abs_current = (\<lambda>i. map_option ei_currentState (select1 (isInstance tid i) (db_instances db))),
      abs_log = map (\<lambda>e. (we_instanceId e, we_fromState e, we_toState e))
        (filter (\<lambda>e. we_tenantId e = tid) (db_events db))\<rparr>"

lemma select1_committed:
  assumes "ei_id inst = i" "ei_tenantId inst = tid"
  shows "map_option ei_currentState
      (select1 (isInstance tid' j) (db_instances (committedDb env db tid inst w ch))) =
    (if tid' = tid \<and> j = i \<and> select1 (isInstance tid i) (db_instances db) \<noteq> None
     then Some (sc_toState ch)
     else map_option ei_currentState (select1 (isInstance tid' j) (db_instances db)))"
proof (cases "tid' = tid \<and> j = i")
  case True
  then show ?thesis
    using assms by (auto simp: committedDb_def select1_updateW isInstance_def)
next
  case False
  then have "select1 (isInstance tid' j) (updateW (isInstance tid i) f (db_instances db)) =
      select1 (isInstance tid' j) (db_instances db)"
    if "\<And>r. ei_id (f r) = ei_id r" "\<And>r. ei_tenantId (f r) = ei_tenantId r" for f
    using that by (intro select1_updateW_other) (auto simp: isInstance_def)
  then show ?thesis
    using False assms by (auto simp: committedDb_def)
qed

lemma absOf_committed:
  assumes "lockInstance env db tid i = Inr (inst, w)"
  shows "abs_fire i (sc_toState ch) (absOf tid db) = Some (absOf tid (committedDb env db tid inst w ch))"
    and "tid' \<noteq> tid \<Longrightarrow> absOf tid' (committedDb env db tid inst w ch) = absOf tid' db"
  using assms lockInstance_facts [OF assms] select1_committed [of inst i tid]
  by (auto simp: abs_fire_def absOf_def lockInstance_Inr fun_eq_iff)

lemma executeTransition_commit:
  assumes "executeTransition env db tid req = Inr (e, db')" and "findReplay db tid req = None"
  obtains inst w t where "lockInstance env db tid (tr_instanceId req) = Inr (inst, w)"
    and "findTransition db tid w (tr_transitionId req) = Some t"
    and "guardsHold db tid req inst t"
    and "e = rowToEvent (Some (env_randomUUID env))
           (newEventRow env db tid inst w (transitionChange env req t))"
    and "db' = committedDb env db tid inst w (transitionChange env req t)"
  using assms unfolding executeTransition_Inr
  by (auto simp: commitStateChange_eq split: if_splits)

text \<open>
  C3. The engine refines the abstract machine: a successful transition that is not a replay
  is exactly one abstract move of the tenant's own instance, and the machine of every other
  tenant does not move.
\<close>
theorem executeTransition_refines:
  assumes "executeTransition env db tid req = Inr (e, db')" and "findReplay db tid req = None"
  shows "abs_fire (tr_instanceId req) (we_toState e) (absOf tid db) = Some (absOf tid db') \<and>
    (\<forall>tid'. tid' \<noteq> tid \<longrightarrow> absOf tid' db' = absOf tid' db)"
proof -
  obtain inst w t where lock: "lockInstance env db tid (tr_instanceId req) = Inr (inst, w)"
    and "e = rowToEvent (Some (env_randomUUID env))
           (newEventRow env db tid inst w (transitionChange env req t))"
    and db': "db' = committedDb env db tid inst w (transitionChange env req t)"
    using executeTransition_commit [OF assms] by metis
  then have "we_toState e = sc_toState (transitionChange env req t)" by simp
  then show ?thesis
    using absOf_committed(1) [OF lock, of "transitionChange env req t"] absOf_committed(2) [OF lock]
    by (simp add: db')
qed

theorem executeTransition_refines_witness:
  "\<exists>e db'. executeTransition demo_env demo_db ''t1'' demo_request = Inr (e, db') \<and>
     abs_fire ''i1'' (we_toState e) (absOf ''t1'' demo_db) = Some (absOf ''t1'' db')"
proof -
  obtain e db' where run: "executeTransition demo_env demo_db ''t1'' demo_request = Inr (e, db')"
    by (rule demo_transition)
  have "tr_instanceId demo_request = ''i1''" by (simp add: demo_request_def)
  then show ?thesis using executeTransition_refines [OF run demo_no_replay] run by auto
qed

section \<open>The event log\<close>

text \<open>
  Replaying the log of an instance: every event leaves the state the previous one entered.
\<close>

fun replayLog :: "string \<Rightarrow> (string option \<times> string) list \<Rightarrow> string option" where
  "replayLog s [] = Some s"
| "replayLog s ((f, t) # es) = (if f = Some s then replayLog t es else None)"

definition instanceLog :: "wf_db \<Rightarrow> string \<Rightarrow> string \<Rightarrow> (string option \<times> string) list" where
  "instanceLog db tid i =
     map (\<lambda>e. (we_fromState e, we_toState e))
       (filter (\<lambda>e. we_tenantId e = tid \<and> we_instanceId e = i) (db_events db))"

definition logConsistent :: "string \<Rightarrow> wf_db \<Rightarrow> bool" where
  "logConsistent tid db \<longleftrightarrow>
     (\<forall>i s. map_option ei_currentState (select1 (isInstance tid i) (db_instances db)) = Some s \<longrightarrow>
        (\<exists>s0. replayLog s0 (instanceLog db tid i) = Some s))"

lemma replayLog_snoc:
  "replayLog s0 es = Some s \<Longrightarrow> replayLog s0 (es @ [(Some s, t)]) = Some t"
  by (induction s0 es rule: replayLog.induct) (auto split: if_splits)

lemma logConsistent_committed:
  assumes lock: "lockInstance env db tid i = Inr (inst, w)" and inv: "logConsistent tid' db"
  shows "logConsistent tid' (committedDb env db tid inst w ch)"
  unfolding logConsistent_def
proof (intro allI impI)
  fix j s
  assume cur: "map_option ei_currentState
      (select1 (isInstance tid' j) (db_instances (committedDb env db tid inst w ch))) = Some s"
  note facts = lockInstance_facts [OF lock]
  show "\<exists>s0. replayLog s0 (instanceLog (committedDb env db tid inst w ch) tid' j) = Some s"
  proof (cases "tid' = tid \<and> j = i")
    case True
    have "select1 (isInstance tid i) (db_instances db) = Some inst"
      using lock by (simp add: lockInstance_Inr)
    moreover from this obtain s0 where "replayLog s0 (instanceLog db tid i) = Some (ei_currentState inst)"
      using inv True by (auto simp: logConsistent_def)
    moreover have "instanceLog (committedDb env db tid inst w ch) tid i =
        instanceLog db tid i @ [(Some (ei_currentState inst), sc_toState ch)]"
      using facts by (simp add: instanceLog_def)
    moreover have "s = sc_toState ch"
      using cur True facts calculation(1) by (simp add: select1_committed)
    ultimately show ?thesis
      using True by (auto intro: replayLog_snoc)
  next
    case False
    then have "instanceLog (committedDb env db tid inst w ch) tid' j = instanceLog db tid' j"
      using facts by (auto simp: instanceLog_def)
    then show ?thesis
      using cur inv False facts by (auto simp: logConsistent_def select1_committed split: if_splits)
  qed
qed

section \<open>Timers\<close>

definition pendingTimers :: "wf_db \<Rightarrow> string \<Rightarrow> string \<Rightarrow> outbox_events_row list" where
  "pendingTimers db tid i =
     filter (\<lambda>r. ob_tenantId r = tid \<and> ob_eventType r = slaScheduled \<and> ob_deliveredAt r = None \<and>
       pgText (ob_payload r) ''instanceId'' = Some i) (db_outbox db)"

text \<open>Every pending timer is for the state its instance is in, and an instance has at most one.\<close>

definition timersCurrent :: "string \<Rightarrow> wf_db \<Rightarrow> bool" where
  "timersCurrent tid db \<longleftrightarrow>
     (\<forall>i. length (pendingTimers db tid i) \<le> 1 \<and>
        (\<forall>r \<in> set (pendingTimers db tid i).
           pgText (ob_payload r) ''stateName'' =
           map_option ei_currentState (select1 (isInstance tid i) (db_instances db))))"

lemma slaPayload_text [simp]:
  "pgText (slaPayload w i s h t) ''instanceId'' = Some i"
  "pgText (slaPayload w i s h t) ''stateName'' = Some s"
  by (simp_all add: pgText_def slaPayload_def)

lemma slaRows_pending:
  "length (slaRows env db tid w i s) \<le> 1"
  "r \<in> set (slaRows env db tid w i s) \<Longrightarrow>
     ob_tenantId r = tid \<and> ob_eventType r = slaScheduled \<and> ob_deliveredAt r = None \<and>
     pgText (ob_payload r) ''instanceId'' = Some i \<and> pgText (ob_payload r) ''stateName'' = Some s"
  by (auto simp: slaRows_def split: option.splits if_splits)

lemma filter_updateW_gone:
  assumes "\<And>r. r \<in> set t \<Longrightarrow> Q r \<Longrightarrow> P r" and "\<And>r. \<not> Q (f r)"
  shows "filter Q (updateW P f t) = []"
  using assms by (induction t) (auto simp: updateW_def)

lemma pendingTimers_committed:
  assumes "ei_id inst = i"
    and "\<And>r. r \<in> set (pendingTimers db tid i) \<Longrightarrow>
      pgText (ob_payload r) ''stateName'' = Some (ei_currentState inst)"
  shows "pendingTimers (committedDb env db tid inst w ch) tid i = slaRows env db tid w i (sc_toState ch)"
proof -
  let ?Q = "\<lambda>r. ob_tenantId r = tid \<and> ob_eventType r = slaScheduled \<and> ob_deliveredAt r = None \<and>
       pgText (ob_payload r) ''instanceId'' = Some i"
  have "filter ?Q (updateW (isPendingSla tid i (ei_currentState inst))
      (\<lambda>r. r\<lparr>ob_deliveredAt := Some (env_cancelledAt env)\<rparr>) (db_outbox db)) = []"
    using assms(2) by (intro filter_updateW_gone) (auto simp: isPendingSla_def pendingTimers_def)
  moreover have "filter ?Q (slaRows env db tid w i (sc_toState ch)) = slaRows env db tid w i (sc_toState ch)"
    using slaRows_pending(2) by (simp add: filter_id_conv)
  ultimately show ?thesis
    using assms(1)
    by (simp add: pendingTimers_def committedDb_def transitionedOutboxRow_def slaScheduled_def)
qed

lemma pendingTimers_committed_other:
  assumes "ei_id inst = i" and "tid' \<noteq> tid \<or> j \<noteq> i"
  shows "pendingTimers (committedDb env db tid inst w ch) tid' j = pendingTimers db tid' j"
proof -
  let ?Q = "\<lambda>r. ob_tenantId r = tid' \<and> ob_eventType r = slaScheduled \<and> ob_deliveredAt r = None \<and>
       pgText (ob_payload r) ''instanceId'' = Some j"
  have "filter ?Q (updateW (isPendingSla tid i (ei_currentState inst))
      (\<lambda>r. r\<lparr>ob_deliveredAt := Some (env_cancelledAt env)\<rparr>) (db_outbox db)) = filter ?Q (db_outbox db)"
    using assms(2) by (intro filter_updateW_other) (auto simp: isPendingSla_def)
  moreover have "filter ?Q (slaRows env db tid w i (sc_toState ch)) = []"
    using assms(2) slaRows_pending(2) by (fastforce simp: filter_empty_conv)
  ultimately show ?thesis
    using assms(1)
    by (simp add: pendingTimers_def committedDb_def transitionedOutboxRow_def slaScheduled_def)
qed

lemma timersCurrent_committed:
  assumes lock: "lockInstance env db tid i = Inr (inst, w)" and inv: "timersCurrent tid' db"
  shows "timersCurrent tid' (committedDb env db tid inst w ch)"
  unfolding timersCurrent_def
proof
  fix j
  note facts = lockInstance_facts [OF lock]
  have found: "select1 (isInstance tid i) (db_instances db) = Some inst"
    using lock by (simp add: lockInstance_Inr)
  let ?db' = "committedDb env db tid inst w ch"
  show "length (pendingTimers ?db' tid' j) \<le> 1 \<and> (\<forall>r \<in> set (pendingTimers ?db' tid' j).
      pgText (ob_payload r) ''stateName'' =
      map_option ei_currentState (select1 (isInstance tid' j) (db_instances ?db')))"
  proof (cases "tid' = tid \<and> j = i")
    case True
    then have "pendingTimers ?db' tid' j = slaRows env db tid w i (sc_toState ch)"
      using inv found facts(1) by (auto simp: timersCurrent_def intro!: pendingTimers_committed)
    then show ?thesis
      using True slaRows_pending facts found by (simp add: select1_committed)
  next
    case False
    then have "pendingTimers ?db' tid' j = pendingTimers db tid' j"
      using facts(1) by (intro pendingTimers_committed_other) auto
    then show ?thesis
      using False inv facts by (auto simp: timersCurrent_def select1_committed)
  qed
qed

section \<open>Operations that change state\<close>

text \<open>
  The contract the guarded transition and the recorded override share: a successful call
  either changes nothing or commits one change of the instance it locked. What follows from
  the contract is proved once here.
\<close>

locale state_change_op =
  fixes op :: "wf_env \<Rightarrow> wf_db \<Rightarrow> string \<Rightarrow> 'req \<Rightarrow> failure + (WorkflowEvent \<times> wf_db)"
  assumes commits: "op env db tid req = Inr (e, db') \<Longrightarrow>
    db' = db \<or> (\<exists>i inst w ch. lockInstance env db tid i = Inr (inst, w) \<and>
      e = rowToEvent (Some (sc_transitionEventId ch)) (newEventRow env db tid inst w ch) \<and>
      db' = committedDb env db tid inst w ch)"
begin

lemma keeps_logConsistent:
  "op env db tid req = Inr (e, db') \<Longrightarrow> logConsistent tid' db \<Longrightarrow> logConsistent tid' db'"
  using commits logConsistent_committed by blast

lemma keeps_timersCurrent:
  "op env db tid req = Inr (e, db') \<Longrightarrow> timersCurrent tid' db \<Longrightarrow> timersCurrent tid' db'"
  using commits timersCurrent_committed by blast

lemma keeps_definitions:
  "op env db tid req = Inr (e, db') \<Longrightarrow>
     db_workflows db' = db_workflows db \<and> db_states db' = db_states db \<and>
     db_transitions db' = db_transitions db \<and> db_fields db' = db_fields db"
  using commits by fastforce

lemma appends_to_log:
  "op env db tid req = Inr (e, db') \<Longrightarrow>
     \<exists>es. db_events db' = db_events db @ es \<and> length es \<le> 1 \<and> (\<forall>r \<in> set es. we_tenantId r = tid)"
  using commits by fastforce

lemma stores_redacted:
  assumes "op env db tid req = Inr (e, db')"
    and "r \<in> set (db_events db')" and "r \<notin> set (db_events db)"
    and "map_of (we_metadata r) k = Some v"
    and "inst \<in> set (db_instances db)" "ei_id inst = we_instanceId r" "ei_tenantId inst = tid"
    and "\<And>x y. x \<in> set (db_instances db) \<Longrightarrow> y \<in> set (db_instances db) \<Longrightarrow> ei_id x = ei_id y \<Longrightarrow> x = y"
    and "sensitiveField db tid (ei_entityTypeId inst) k"
  shows "v = JStr ''[REDACTED]''"
proof -
  obtain i inst' w ch where lock: "lockInstance env db tid i = Inr (inst', w)"
    and r: "r = newEventRow env db tid inst' w ch"
    using commits [OF assms(1)] assms(2,3) by auto
  have "inst' = inst"
    using lockInstance_facts [OF lock] assms(5,6,8) by (simp add: r)
  then show ?thesis
    using assms(4,9) by (auto simp: r map_of_safeMetadata)
qed

end

interpretation transition_op: state_change_op executeTransition
proof
  fix env db tid req e db'
  assume "executeTransition env db tid req = Inr (e, db')"
  then show "db' = db \<or> (\<exists>i inst w ch. lockInstance env db tid i = Inr (inst, w) \<and>
      e = rowToEvent (Some (sc_transitionEventId ch)) (newEventRow env db tid inst w ch) \<and>
      db' = committedDb env db tid inst w ch)"
    unfolding executeTransition_Inr commitStateChange_Inr by blast
qed

interpretation override_op: state_change_op overrideWorkflowState
proof
  fix env db tid req e db'
  assume "overrideWorkflowState env db tid req = Inr (e, db')"
  then show "db' = db \<or> (\<exists>i inst w ch. lockInstance env db tid i = Inr (inst, w) \<and>
      e = rowToEvent (Some (sc_transitionEventId ch)) (newEventRow env db tid inst w ch) \<and>
      db' = committedDb env db tid inst w ch)"
    unfolding overrideWorkflowState_Inr commitStateChange_Inr by blast
qed

text \<open>Any sequence of successful engine calls, by any tenants.\<close>

inductive engine_run :: "wf_db \<Rightarrow> wf_db \<Rightarrow> bool" where
  run_nil: "engine_run db db"
| run_transition: "engine_run db db1 \<Longrightarrow> executeTransition env db1 tid req = Inr (e, db2) \<Longrightarrow>
    engine_run db db2"
| run_override: "engine_run db db1 \<Longrightarrow> overrideWorkflowState env db1 tid oreq = Inr (e, db2) \<Longrightarrow>
    engine_run db db2"

lemma demo_run:
  "executeTransition demo_env demo_db ''t1'' demo_request = Inr (e, db') \<Longrightarrow> engine_run demo_db db'"
  by (rule run_transition [OF run_nil])

text \<open>
  C4. The event log is an append-only record that replays to the present: through any run of
  transitions and overrides, the earlier log is kept as a prefix, and if the log of every
  instance of a tenant replayed to the instance's current state before, it does so after.
\<close>
theorem engine_run_log:
  assumes "engine_run db db'" and "logConsistent tid db"
  shows "logConsistent tid db' \<and> (\<exists>es. db_events db' = db_events db @ es)"
  using assms
proof (induction rule: engine_run.induct)
  case (run_nil db)
  then show ?case by simp
next
  case (run_transition db db1 env t req e db2)
  then show ?case
    using transition_op.keeps_logConsistent transition_op.appends_to_log by (metis append_assoc)
next
  case (run_override db db1 env t oreq e db2)
  then show ?case
    using override_op.keeps_logConsistent override_op.appends_to_log by (metis append_assoc)
qed

theorem engine_run_log_witness:
  "\<exists>e db'. executeTransition demo_env demo_db ''t1'' demo_request = Inr (e, db') \<and>
     logConsistent ''t1'' db' \<and> (\<exists>es. db_events db' = db_events demo_db @ es)"
proof -
  obtain e db' where run: "executeTransition demo_env demo_db ''t1'' demo_request = Inr (e, db')"
    by (rule demo_transition)
  have "logConsistent ''t1'' demo_db"
    by (simp add: logConsistent_def instanceLog_def demo_db_def empty_db_def)
  then show ?thesis using engine_run_log [OF demo_run [OF run]] run by blast
qed

text \<open>
  C5. Timers follow the state: through any run of transitions and overrides, an instance has
  at most one pending timer and it is for the state the instance is in, provided this held at
  the start. Leaving a state cancels its timer before the one of the new state is scheduled.
\<close>
theorem engine_run_timers:
  assumes "engine_run db db'" and "timersCurrent tid db"
  shows "timersCurrent tid db'"
  using assms
  by (induction rule: engine_run.induct)
    (blast intro: transition_op.keeps_timersCurrent override_op.keeps_timersCurrent)+

theorem engine_run_timers_witness:
  "\<exists>e db'. executeTransition demo_env demo_db ''t1'' demo_request = Inr (e, db') \<and>
     timersCurrent ''t1'' db'"
proof -
  obtain e db' where run: "executeTransition demo_env demo_db ''t1'' demo_request = Inr (e, db')"
    by (rule demo_transition)
  have "timersCurrent ''t1'' demo_db"
    by (simp add: timersCurrent_def pendingTimers_def demo_db_def empty_db_def)
  then show ?thesis using engine_run_timers [OF demo_run [OF run]] run by blast
qed

section \<open>Segregation of duties\<close>

text \<open>A rule that no satisfied tree of this shape can do without.\<close>

fun demands :: "ConditionTree \<Rightarrow> ConditionTree \<Rightarrow> bool" where
  "demands r (CAnd ts) = list_ex (demands r) ts"
| "demands r (COr ts) = list_all (demands r) ts"
| "demands r t = (t = r)"

lemma evaluateTree_demands: "demands r t \<Longrightarrow> evaluateTree t flds a \<Longrightarrow> evaluateTree r flds a"
  by (induction r t rule: demands.induct) (auto simp: list_ex_iff list_all_iff)

lemma userActorId_idem: "userActorId a = Some u \<Longrightarrow> userActorId (Some u) = Some u"
  by (auto simp: userActorId_def split: option.splits if_splits)

lemma loadActorContext_sel [simp]:
  "ac_actorId (loadActorContext db tid i c a ts) = userActorId a"
  "ac_createdBy (loadActorContext db tid i c a ts) = c"
  by (simp_all add: loadActorContext_def Let_def)

lemma loadActorContext_prior:
  assumes "ac_priorActors (loadActorContext db tid i c a ts) = Some prior"
    and "ev \<in> set (db_events db)" and "isStateChangeBy tid i ev"
    and "userActorId (we_actorId ev) = Some u" and "we_fromState ev = Some f"
  shows "(u, f) \<in> set prior"
proof -
  have "prior = List.map_filter toPriorActor (priorActorRows db tid i)"
    using assms(1) by (simp add: loadActorContext_def Let_def split: if_splits)
  moreover have "(we_actorId ev, Some f) \<in> set (priorActorRows db tid i)"
    using assms(2,3,5) by (force simp: priorActorRows_def)
  moreover have "toPriorActor (we_actorId ev, Some f) = Some (u, f)"
    using assms(4) by (simp add: toPriorActor_def)
  ultimately show ?thesis by (force simp: map_filter_def)
qed

lemma executeTransition_tree:
  assumes "executeTransition env db tid req = Inr (e, db')" and "findReplay db tid req = None"
    and "select1 (isInstance tid (tr_instanceId req)) (db_instances db) = Some inst"
    and "ei_workflowId inst = Some w"
    and "findTransition db tid w (tr_transitionId req) = Some t"
    and "wt_conditions t = Some tree"
  shows "evaluateTree tree (ei_fields inst) (Some (loadActorContext db tid (ei_id inst)
           (ei_createdBy inst) (tr_actorId req) [Some tree]))"
proof -
  obtain inst' w' t' where "lockInstance env db tid (tr_instanceId req) = Inr (inst', w')"
    "findTransition db tid w' (tr_transitionId req) = Some t'" "guardsHold db tid req inst' t'"
    using executeTransition_commit [OF assms(1,2)] by metis
  then show ?thesis
    using assms(3-6) by (auto simp: lockInstance_Inr guardsHold_def evaluateConditionTree_def)
qed

text \<open>
  C6. The requester cannot approve: a transition whose condition demands
  \<open>actor_not_creator\<close> is only ever taken by an identified user other than the record's
  creator. An API key, the system actor and an absent actor are no identified user.
\<close>
theorem transition_not_by_creator:
  assumes "executeTransition env db tid req = Inr (e, db')" and "findReplay db tid req = None"
    and "select1 (isInstance tid (tr_instanceId req)) (db_instances db) = Some inst"
    and "ei_workflowId inst = Some w"
    and "findTransition db tid w (tr_transitionId req) = Some t"
    and "wt_conditions t = Some tree" and "demands ActorNotCreator tree"
  shows "\<exists>u. tr_actorId req = Some u \<and> ei_createdBy inst \<noteq> Some u \<and>
    u \<noteq> '''' \<and> u \<noteq> ''system'' \<and> \<not> startsWith u ''apikey:''"
proof -
  have "evaluateTree ActorNotCreator (ei_fields inst) (Some (loadActorContext db tid (ei_id inst)
           (ei_createdBy inst) (tr_actorId req) [Some tree]))"
    using evaluateTree_demands [OF assms(7)] executeTransition_tree [OF assms(1-6)] by blast
  then show ?thesis
    by (auto simp: optActorId_def optCreatedBy_def userActorId_def split: option.splits if_splits)
qed

theorem transition_not_by_creator_witness:
  "\<exists>inst t tree. select1 (isInstance ''t1'' ''i1'') (db_instances demo_db) = Some inst \<and>
     findTransition demo_db ''t1'' ''w1'' ''tr1'' = Some t \<and> wt_conditions t = Some tree \<and>
     demands ActorNotCreator tree \<and>
     (\<exists>u. tr_actorId demo_request = Some u \<and> ei_createdBy inst \<noteq> Some u \<and>
        u \<noteq> '''' \<and> u \<noteq> ''system'' \<and> \<not> startsWith u ''apikey:'')"
proof -
  obtain e db' where run: "executeTransition demo_env demo_db ''t1'' demo_request = Inr (e, db')"
    by (rule demo_transition)
  have i: "tr_instanceId demo_request = ''i1''" "tr_transitionId demo_request = ''tr1''"
    by (simp_all add: demo_request_def)
  let ?inst = "hd (db_instances demo_db)" and ?t = "hd (db_transitions demo_db)"
  have inst: "select1 (isInstance ''t1'' ''i1'') (db_instances demo_db) = Some ?inst"
    and w: "ei_workflowId ?inst = Some ''w1''"
    and t: "findTransition demo_db ''t1'' ''w1'' ''tr1'' = Some ?t"
    and c: "wt_conditions ?t = Some (the (wt_conditions ?t))"
    and d: "demands ActorNotCreator (the (wt_conditions ?t))"
    by (simp_all add: demo_defs wf_eval)
  show ?thesis
    using transition_not_by_creator [OF run demo_no_replay, unfolded i, OF inst w t c d] inst t c d
    by blast
qed

text \<open>
  C7. Each stage needs a different person: a transition whose condition demands
  \<open>actor_not_prior_actor\<close> (restricted to some states or not) is never taken by a user
  who is recorded in the log as having already moved this instance (out of one of them).
\<close>
theorem transition_not_by_prior_actor:
  assumes "executeTransition env db tid req = Inr (e, db')" and "findReplay db tid req = None"
    and "select1 (isInstance tid (tr_instanceId req)) (db_instances db) = Some inst"
    and "ei_workflowId inst = Some w"
    and "findTransition db tid w (tr_transitionId req) = Some t"
    and "wt_conditions t = Some tree" and "demands (ActorNotPriorActor states) tree"
    and "ev \<in> set (db_events db)" "we_tenantId ev = tid" "we_instanceId ev = tr_instanceId req"
    and "we_fromState ev = Some f" "f \<noteq> we_toState ev"
    and "case states of None \<Rightarrow> True | Some ss \<Rightarrow> f \<in> set ss"
  shows "tr_actorId req \<noteq> None \<and> we_actorId ev \<noteq> tr_actorId req"
proof -
  let ?ctx = "loadActorContext db tid (ei_id inst) (ei_createdBy inst) (tr_actorId req) [Some tree]"
  have "evaluateTree (ActorNotPriorActor states) (ei_fields inst) (Some ?ctx)"
    using evaluateTree_demands [OF assms(7)] executeTransition_tree [OF assms(1-6)] by blast
  then obtain u prior where u: "userActorId (tr_actorId req) = Some u"
    and prior: "ac_priorActors ?ctx = Some prior" and no: "\<not> actedBefore u states prior"
    by (auto simp: optActorId_def optPriorActors_def split: option.splits)
  have "ei_id inst = tr_instanceId req" using assms(3) by (auto simp: isInstance_def)
  then have "(u, f) \<in> set prior" if "we_actorId ev = tr_actorId req"
    using loadActorContext_prior [OF prior assms(8)] that u assms(9-12)
    by (auto simp: isStateChangeBy_def userActorId_def split: option.splits)
  then show ?thesis
    using no assms(13) u
    by (fastforce simp: actedBefore_def list_ex_iff userActorId_def split: option.splits)
qed

theorem transition_not_by_prior_actor_witness:
  "\<exists>e db'. executeTransition demo_env demo_db_prior ''t1'' demo_request = Inr (e, db') \<and>
     demo_prior_event \<in> set (db_events demo_db_prior) \<and>
     we_actorId demo_prior_event \<noteq> tr_actorId demo_request"
proof -
  obtain e db' where run: "executeTransition demo_env demo_db_prior ''t1'' demo_request = Inr (e, db')"
    using returns_pair [OF demo_prior_returns] by blast
  let ?inst = "hd (db_instances demo_db)" and ?t = "hd (db_transitions demo_db)"
  have "tr_actorId demo_request \<noteq> None \<and> we_actorId demo_prior_event \<noteq> tr_actorId demo_request"
    by (rule transition_not_by_prior_actor [OF run, where inst = ?inst and t = ?t and w = "''w1''"
          and tree = "the (wt_conditions ?t)" and states = None and f = "''new''"])
      (simp_all add: demo_defs wf_eval)
  then show ?thesis using run by (simp add: demo_db_prior_def)
qed

section \<open>Available transitions\<close>

lemma rowToTransition_eq:
  "rowToTransition a = rowToTransition b \<Longrightarrow>
     wt_conditions a = wt_conditions b \<and> wt_allowedRoles a = wt_allowedRoles b \<and>
     wt_fromState a = wt_fromState b"
  by (simp add: rowToTransition_def WorkflowTransition.defs)

lemma loadActorContext_trees:
  assumes "c \<in> set trees"
  shows "evaluateConditionTree c flds (Some (loadActorContext db tid i cb a trees)) =
         evaluateConditionTree c flds (Some (loadActorContext db tid i cb a [c]))"
proof (cases "optTreeNeedsPriorActors c")
  case True
  then show ?thesis using assms by (auto simp: loadActorContext_def Let_def list_ex_iff)
next
  case False
  have "loadActorContext db tid i cb a [c] =
      (loadActorContext db tid i cb a trees)\<lparr>ac_priorActors := None\<rparr>"
    using False by (simp add: loadActorContext_def Let_def)
  then show ?thesis
    using evaluateConditionTree_priorActors_irrelevant [OF False, where flds = flds and
        c = "loadActorContext db tid i cb a trees" and p = None and
        q = "ac_priorActors (loadActorContext db tid i cb a trees)"] by simp
qed

lemma getAvailableTransitions_mem:
  assumes lock: "lockInstance env db tid i = Inr (inst, w)"
    and t: "findTransition db tid w x = Some t"
  shows "rowToTransition t \<in> set (getAvailableTransitions db tid i roles actorId) \<longleftrightarrow>
     wt_fromState t = ei_currentState inst \<and> roleAllows roles (wt_allowedRoles t) \<and>
     evaluateConditionTree (wt_conditions t) (ei_fields inst)
       (Some (loadActorContext db tid (ei_id inst) (ei_createdBy inst) actorId [wt_conditions t]))"
    (is "?L = ?R")
proof -
  let ?ts = "selectW (\<lambda>t. wt_workflowId t = w \<and> wt_fromState t = ei_currentState inst \<and>
      wt_tenantId t = tid) (db_transitions db)"
  let ?ok = "\<lambda>s. roleAllows roles (wt_allowedRoles s) \<and>
      evaluateConditionTree (wt_conditions s) (ei_fields inst)
        (Some (loadActorContext db tid (ei_id inst) (ei_createdBy inst) actorId [wt_conditions s]))"
  have same: "filter (\<lambda>s. roleAllows roles (wt_allowedRoles s) \<and>
      evaluateConditionTree (wt_conditions s) (ei_fields inst)
        (Some (loadActorContext db tid (ei_id inst) (ei_createdBy inst) actorId
          (map wt_conditions ?ts)))) ?ts = filter ?ok ?ts"
    by (intro filter_cong refl conj_cong loadActorContext_trees) simp
  obtain c cs where w: "w = c # cs" and found: "ei_workflowId inst = Some (c # cs)"
    "select1 (isInstance tid i) (db_instances db) = Some inst"
    using lock by (cases w) (auto simp: lockInstance_Inr)
  have "getAvailableTransitions db tid i roles actorId = map rowToTransition (filter ?ok ?ts)"
    by (simp add: getAvailableTransitions_def found w Let_def same [unfolded w])
  then have avail: "set (getAvailableTransitions db tid i roles actorId) =
      rowToTransition ` {s \<in> set ?ts. ?ok s}"
    by simp
  show ?thesis
  proof
    assume ?L
    then obtain s where "s \<in> set ?ts" "?ok s" "rowToTransition t = rowToTransition s"
      unfolding avail by blast
    then show ?R using rowToTransition_eq [of t s] by simp
  next
    assume ?R
    moreover from this have "t \<in> set ?ts" using t by (auto simp: findTransition_def)
    ultimately show ?L unfolding avail by blast
  qed
qed

text \<open>
  C8. The offered list agrees with the engine: for an instance that can be locked, in a
  visible workflow, a new request is accepted exactly when the transition it names is in the
  list offered to the same roles and actor and the parts the list does not check (required
  fields, required comment) are in order.
\<close>
theorem available_iff_executable:
  assumes "findReplay db tid req = None"
    and "lockInstance env db tid (tr_instanceId req) = Inr (inst, w)"
    and "findWorkflow db tid w \<noteq> None"
    and "findTransition db tid w (tr_transitionId req) = Some t"
    and "\<not> idempotencyClash db (tr_instanceId req) (tr_idempotencyKey req)"
  shows "(\<exists>r. executeTransition env db tid req = Inr r) \<longleftrightarrow>
    rowToTransition t \<in> set (getAvailableTransitions db tid (tr_instanceId req)
      (dflt [] (tr_actorRoles req)) (tr_actorId req)) \<and>
    missingFields (ei_fields inst) (wt_requiresFields t) = [] \<and>
    \<not> (wt_requiresComment t \<and> blankComment (tr_comment req))"
proof -
  have "(\<exists>r. executeTransition env db tid req = Inr r) \<longleftrightarrow> guardsHold db tid req inst t"
  proof
    assume "\<exists>r. executeTransition env db tid req = Inr r"
    then obtain e db' where "executeTransition env db tid req = Inr (e, db')" by auto
    then show "guardsHold db tid req inst t"
      using assms by (auto simp: executeTransition_Inr)
  next
    assume "guardsHold db tid req inst t"
    then show "\<exists>r. executeTransition env db tid req = Inr r"
      using assms lockInstance_facts [OF assms(2)]
      by (auto simp: executeTransition_Inr commitStateChange_Inr)
  qed
  then show ?thesis
    unfolding getAvailableTransitions_mem [OF assms(2,4)] by (auto simp: guardsHold_def)
qed

theorem available_iff_executable_witness:
  "\<exists>inst w t. lockInstance demo_env demo_db ''t1'' ''i1'' = Inr (inst, w) \<and>
     findTransition demo_db ''t1'' w ''tr1'' = Some t \<and>
     rowToTransition t \<in> set (getAvailableTransitions demo_db ''t1'' ''i1'' [''manager''] (Some ''bob''))"
proof -
  let ?inst = "hd (db_instances demo_db)" and ?t = "hd (db_transitions demo_db)"
  have lock: "lockInstance demo_env demo_db ''t1'' (tr_instanceId demo_request) = Inr (?inst, ''w1'')"
    and wf: "findWorkflow demo_db ''t1'' ''w1'' \<noteq> None"
    and t: "findTransition demo_db ''t1'' ''w1'' (tr_transitionId demo_request) = Some ?t"
    and clash: "\<not> idempotencyClash demo_db (tr_instanceId demo_request) (tr_idempotencyKey demo_request)"
    by (simp_all add: demo_defs wf_eval)
  have "\<exists>r. executeTransition demo_env demo_db ''t1'' demo_request = Inr r"
    using returns_pair [OF demo_returns] by blast
  then show ?thesis
    using available_iff_executable [OF demo_no_replay lock wf t clash] lock t
    by (auto simp: demo_request_def)
qed

section \<open>The override\<close>

text \<open>
  The recorded override is narrow: it succeeds only for an identified admin user (no API
  key, no system actor) who did not create the record, on a workflow that has switched it on,
  with a trimmed reason of 10 to 1000 characters, towards an existing state other than the
  current one; and then it appends exactly one event, by that user, whose comment carries the
  reason, and moves only that instance.
\<close>
theorem override_is_narrow:
  assumes "overrideWorkflowState env db tid req = Inr (e, db')"
  shows "\<exists>inst w u r. select1 (isInstance tid (or_instanceId req)) (db_instances db) = Some inst \<and>
    ei_workflowId inst = Some w \<and> overrideAllowed db tid req inst w u \<and> u = or_actorId req \<and>
    db_events db' = db_events db @ [r] \<and> we_actorId r = Some u \<and>
    we_comment r = Some (''Override: '' @ trim (or_reason req)) \<and>
    we_fromState r = Some (ei_currentState inst) \<and> we_toState r = or_state req \<and>
    abs_fire (or_instanceId req) (or_state req) (absOf tid db) = Some (absOf tid db')"
proof -
  obtain inst w u where lock: "lockInstance env db tid (or_instanceId req) = Inr (inst, w)"
    and ok: "overrideAllowed db tid req inst w u"
    and db': "db' = committedDb env db tid inst w
      (overrideChange env (or_state req) u (trim (or_reason req)))"
    using assms unfolding overrideWorkflowState_Inr commitStateChange_Inr by blast
  have "u = or_actorId req"
    using ok by (auto simp: overrideAllowed_def userActorId_def split: if_splits)
  then show ?thesis
    using lock ok absOf_committed(1) [OF lock,
        of "overrideChange env (or_state req) u (trim (or_reason req))"]
    by (auto simp: db' lockInstance_Inr overrideChange_def newEventRow_def)
qed

theorem override_is_narrow_witness:
  "\<exists>e db' inst w u. overrideWorkflowState demo_env demo_db ''t1'' demo_override = Inr (e, db') \<and>
     overrideAllowed demo_db ''t1'' demo_override inst w u \<and>
     abs_fire ''i1'' ''approved'' (absOf ''t1'' demo_db) = Some (absOf ''t1'' db')"
proof -
  obtain e db' where run: "overrideWorkflowState demo_env demo_db ''t1'' demo_override = Inr (e, db')"
    by (rule demo_override_done)
  have "or_instanceId demo_override = ''i1''" "or_state demo_override = ''approved''"
    by (simp_all add: demo_override_def)
  then show ?thesis using override_is_narrow [OF run] run by metis
qed

section \<open>Redaction\<close>

text \<open>
  Values of \<open>pii\<close> and \<open>financial\<close> fields of the instance's entity type (system
  fields and the tenant's own) never reach the event log in clear: the event a transition
  writes has the keys of the submitted metadata, \<open>[REDACTED]\<close> for every sensitive field
  and the submitted value for every other key.
\<close>
theorem transition_stores_redacted:
  assumes "executeTransition env db tid req = Inr (e, db')" and "findReplay db tid req = None"
    and "select1 (isInstance tid (tr_instanceId req)) (db_instances db) = Some inst"
  shows "map fst (we_metadata e) = map fst (dflt [] (tr_metadata req)) \<and>
    (\<forall>k v. map_of (dflt [] (tr_metadata req)) k = Some v \<longrightarrow>
       map_of (we_metadata e) k =
         Some (if sensitiveField db tid (ei_entityTypeId inst) k then JStr ''[REDACTED]'' else v))"
proof -
  obtain inst' w t where "lockInstance env db tid (tr_instanceId req) = Inr (inst', w)"
    and "e = rowToEvent (Some (env_randomUUID env))
           (newEventRow env db tid inst' w (transitionChange env req t))"
    using executeTransition_commit [OF assms(1,2)] by metis
  then show ?thesis
    using assms(3) by (auto simp: lockInstance_Inr map_of_safeMetadata)
qed

theorem transition_stores_redacted_witness:
  "\<exists>e db'. executeTransition demo_env demo_db ''t1'' demo_request = Inr (e, db') \<and>
     map_of (we_metadata e) ''iban'' = Some (JStr ''[REDACTED]'') \<and>
     map_of (we_metadata e) ''note'' = Some (JStr ''x'')"
proof -
  obtain e db' where run: "executeTransition demo_env demo_db ''t1'' demo_request = Inr (e, db')"
    by (rule demo_transition)
  let ?inst = "hd (db_instances demo_db)"
  have inst: "select1 (isInstance ''t1'' (tr_instanceId demo_request)) (db_instances demo_db) = Some ?inst"
    by (simp add: demo_defs wf_eval)
  have sens: "sensitiveField demo_db ''t1'' (ei_entityTypeId ?inst) ''iban''"
    "\<not> sensitiveField demo_db ''t1'' (ei_entityTypeId ?inst) ''note''"
    by (simp_all add: demo_defs sensitiveField_def isSensitive_def)
  have meta: "map_of (dflt [] (tr_metadata demo_request)) ''iban'' = Some (JStr ''DE00'')"
    "map_of (dflt [] (tr_metadata demo_request)) ''note'' = Some (JStr ''x'')"
    by (simp_all add: demo_request_def)
  show ?thesis
    using transition_stores_redacted [OF run demo_no_replay inst] sens meta run by auto
qed

section \<open>Stale requests\<close>

text \<open>
  A second submission without an idempotency key of a transition that leaves its state
  is refused with TRANSITION\_NOT\_AVAILABLE: the first one has moved the instance, and the
  guard compares against the row read under the lock.
\<close>
theorem double_submit_refused:
  assumes first: "executeTransition env db tid req = Inr (e, db1)"
    and "tr_idempotencyKey req = None"
    and "we_fromState e \<noteq> Some (we_toState e)"
    and "env_lock env' (tr_instanceId req) = LockGranted"
  shows "\<exists>meta. executeTransition env' db1 tid req =
    Inl (WorkflowError TRANSITION_NOT_AVAILABLE meta)"
proof -
  have none: "findReplay d tid req = None" for d
    using assms(2) by (simp add: findReplay_def)
  obtain inst w t where lock: "lockInstance env db tid (tr_instanceId req) = Inr (inst, w)"
    and t: "findTransition db tid w (tr_transitionId req) = Some t"
    and g: "guardsHold db tid req inst t"
    and e: "e = rowToEvent (Some (env_randomUUID env))
           (newEventRow env db tid inst w (transitionChange env req t))"
    and db1: "db1 = committedDb env db tid inst w (transitionChange env req t)"
    using executeTransition_commit [OF first none] by metis
  have wf: "findWorkflow db tid w \<noteq> None"
    using first lock none by (auto simp: executeTransition_Inr)
  let ?inst' = "inst\<lparr>ei_currentState := wt_toState t, ei_updatedAt := env_occurredAt env\<rparr>"
  have "select1 (isInstance tid (tr_instanceId req)) (db_instances db1) = Some ?inst'"
    using lock lockInstance_facts [OF lock]
    by (simp add: db1 committedDb_def select1_updateW isInstance_def lockInstance_Inr)
  then have lock': "lockInstance env' db1 tid (tr_instanceId req) = Inr (?inst', w)"
    using assms(4) lockInstance_facts [OF lock] by (simp add: lockInstance_Inr)
  have "findTransition db1 tid w (tr_transitionId req) = Some t"
    and "findWorkflow db1 tid w = findWorkflow db tid w"
    using t by (simp_all add: db1 findTransition_def findWorkflow_def)
  moreover have "wt_fromState t \<noteq> wt_toState t"
    using assms(3) g by (simp add: e guardsHold_def)
  ultimately show ?thesis
    using wf none by (auto simp: executeTransition_def lock' transitionGuards_def)
qed

theorem double_submit_refused_witness:
  "\<exists>e db1 meta. executeTransition demo_env demo_db ''t1'' (demo_request\<lparr>tr_idempotencyKey := None\<rparr>)
       = Inr (e, db1) \<and>
     executeTransition demo_env db1 ''t1'' (demo_request\<lparr>tr_idempotencyKey := None\<rparr>)
       = Inl (WorkflowError TRANSITION_NOT_AVAILABLE meta)"
proof -
  let ?req = "demo_request\<lparr>tr_idempotencyKey := None\<rparr>"
  have "\<not> isl (executeTransition demo_env demo_db ''t1'' ?req)"
    by (simp add: demo_defs wf_eval)
  then obtain e db1 where run: "executeTransition demo_env demo_db ''t1'' ?req = Inr (e, db1)"
    using returns_pair by blast
  have "we_fromState e \<noteq> Some (we_toState e)"
    using run by (auto simp: demo_defs wf_eval newEventRow_def)
  moreover have "env_lock demo_env (tr_instanceId ?req) = LockGranted" by (simp add: demo_env_def)
  ultimately show ?thesis using double_submit_refused [OF run] run by auto
qed

end
