(* ===== verification/WfSystem.thy ===== *)
theory WfSystem
  imports WfCrud WfEngineProps
begin

text \<open>
  The workflow engine as one system: every operation that writes, the two of the engine and
  the nine that maintain definitions, in any order and for any tenants. The contracts are
  stated as locales (an operation stays inside its tenant; it keeps the references between
  states, transitions, rules and instances intact) and every operation is shown to meet them.
\<close>

section \<open>What a successful maintenance call does\<close>

definition ownedBy :: "wf_db \<Rightarrow> string \<Rightarrow> string \<Rightarrow> WorkflowCaller \<Rightarrow> bool" where
  "ownedBy db tenantId workflowId caller =
     (\<exists>row. select1 (isOwnedWorkflow tenantId workflowId) (db_workflows db) = Some row \<and>
        callerIsAdmin caller row)"

lemma assertWorkflowOwned_Inr [result_simps]:
  "assertWorkflowOwned db tid w c = Inr u \<longleftrightarrow> ownedBy db tid w c"
  by (auto simp: assertWorkflowOwned_def ownedBy_def result_simps)

lemma assertRuleStatesExist_Inr [result_simps]:
  "assertRuleStatesExist db tid w conds = Inr u \<longleftrightarrow>
     set (optCollectRuleStates (Option.bind conds (\<lambda>c. c))) \<subseteq> set (stateNames db tid w)"
  by (auto simp: assertRuleStatesExist_def Let_def result_simps filter_empty_conv)

lemma assertStateNotNamedByRule_Inr [result_simps]:
  "assertStateNotNamedByRule db tid w n sid = Inr u \<longleftrightarrow>
     (\<forall>t \<in> set (db_transitions db). wt_workflowId t = w \<longrightarrow> wt_tenantId t = tid \<longrightarrow>
        n \<notin> set (optCollectRuleStates (wt_conditions t)))"
  by (auto simp: assertStateNotNamedByRule_def result_simps list_ex_iff)

lemma createWorkflow_Inr:
  "createWorkflow env db tid creator input = Inr (x, db') \<longleftrightarrow>
     (\<forall>r \<in> set (db_workflows db). wf_id r \<noteq> env_rowId env 0 \<and>
        \<not> (wf_tenantId r = Some tid \<and> wf_entityTypeId r = cw_entityTypeId input)) \<and>
     x = rowToWorkflow (newWorkflowRow env tid creator input) \<and>
     db' = db\<lparr>db_workflows := insertRow (newWorkflowRow env tid creator input) (db_workflows db)\<rparr>"
  by (auto simp: createWorkflow_def Let_def list_ex_iff newWorkflowRow_def)

lemma newStateRow_sel [simp]:
  "ws_id (newStateRow env tid w input) = env_rowId env 0"
  "ws_workflowId (newStateRow env tid w input) = w"
  "ws_tenantId (newStateRow env tid w input) = tid"
  "ws_name (newStateRow env tid w input) = cs_name input"
  "ws_isTerminal (newStateRow env tid w input) = dflt False (cs_isTerminal input)"
  by (simp_all add: newStateRow_def)

lemma newTransitionRow_sel [simp]:
  "wt_id (newTransitionRow env db tid w tin) = env_rowId env 0"
  "wt_workflowId (newTransitionRow env db tid w tin) = w"
  "wt_tenantId (newTransitionRow env db tid w tin) = tid"
  "wt_fromState (newTransitionRow env db tid w tin) = ct_fromState tin"
  "wt_toState (newTransitionRow env db tid w tin) = ct_toState tin"
  "wt_conditions (newTransitionRow env db tid w tin) = Option.bind (ct_conditions tin) (\<lambda>c. c)"
  by (simp_all add: newTransitionRow_def)

text \<open>The repair of the initial state when the first state of a workflow is added.\<close>

definition healInitial ::
  "wf_db \<Rightarrow> string \<Rightarrow> string \<Rightarrow> CreateWorkflowStateInput \<Rightarrow> workflows_row \<Rightarrow> workflows_row" where
  "healInitial db tenantId workflowId input r =
     (if stateNames db tenantId workflowId = [] \<and> \<not> dflt False (cs_isTerminal input)
      then r\<lparr>wf_initialState := cs_name input\<rparr> else r)"

lemma updateW_id: "(\<And>r. f r = r) \<Longrightarrow> updateW P f t = t"
  by (induction t) (simp_all add: updateW_def)

lemma addWorkflowState_Inr:
  "addWorkflowState env db tid w c input = Inr (x, db') \<longleftrightarrow>
     ownedBy db tid w c \<and> env_rowId env 0 \<notin> ws_id ` set (db_states db) \<and>
     x = rowToState (newStateRow env tid w input) \<and>
     db' = db\<lparr>db_states := insertRow (newStateRow env tid w input) (db_states db),
           db_workflows := updateW (isOwnedWorkflow tid w) (healInitial db tid w input) (db_workflows db)\<rparr>"
proof -
  have heal: "(if length (selectW (\<lambda>r. ws_workflowId r = w \<and> ws_tenantId r = tid) (db_states db)) = 0 \<and>
        \<not> ws_isTerminal (newStateRow env tid w input)
      then db1\<lparr>db_workflows := updateW (isOwnedWorkflow tid w)
          (\<lambda>r. r\<lparr>wf_initialState := ws_name (newStateRow env tid w input)\<rparr>) (db_workflows db1)\<rparr>
      else db1) = db1\<lparr>db_workflows := updateW (isOwnedWorkflow tid w) (healInitial db tid w input) (db_workflows db1)\<rparr>"
    for db1
    by (cases "stateNames db tid w = [] \<and> \<not> dflt False (cs_isTerminal input)")
      (auto simp: healInitial_def [abs_def] stateNames_def updateW_id)
  show ?thesis
    unfolding addWorkflowState_def Let_def heal
    by (auto simp: result_simps list_ex_iff image_iff)
qed

lemma addWorkflowTransition_Inr:
  "addWorkflowTransition env db tid w c input = Inr (x, db') \<longleftrightarrow>
     ownedBy db tid w c \<and>
     set (optCollectRuleStates (Option.bind (ct_conditions input) (\<lambda>c. c))) \<subseteq> set (stateNames db tid w) \<and>
     env_rowId env 0 \<notin> wt_id ` set (db_transitions db) \<and>
     x = rowToTransition (newTransitionRow env db tid w input) \<and>
     db' = db\<lparr>db_transitions := insertRow (newTransitionRow env db tid w input) (db_transitions db),
              db_transition_seq := db_transition_seq db + 1\<rparr>"
  by (auto simp: addWorkflowTransition_def Let_def result_simps list_ex_iff image_iff)

lemma updateWorkflowTransition_Inr:
  assumes "updateWorkflowTransition env db tid w trid c input = Inr (x, db')"
  shows "ownedBy db tid w c \<and>
    set (optCollectRuleStates (Option.bind (ut_conditions input) (\<lambda>c. c))) \<subseteq> set (stateNames db tid w) \<and>
    db' = db\<lparr>db_transitions := updateW (isTransitionRow tid w trid)
                (applyTransitionUpdates input) (db_transitions db)\<rparr>"
  using assms by (auto simp: updateWorkflowTransition_def Let_def result_simps)

lemma deleteWorkflowTransition_Inr:
  "deleteWorkflowTransition env db tid w trid c = Inr (u, db') \<longleftrightarrow>
     ownedBy db tid w c \<and> (\<exists>t \<in> set (db_transitions db). isTransitionRow tid w trid t) \<and>
     db' = db\<lparr>db_transitions := deleteW (isTransitionRow tid w trid) (db_transitions db)\<rparr>"
  by (auto simp: deleteWorkflowTransition_def result_simps select1_None_iff)

lemma deleteWorkflowState_Inr:
  assumes "deleteWorkflowState env db tid w sid c = Inr (u, db')"
  shows "ownedBy db tid w c \<and> (\<exists>wf st. select1 (isOwnedWorkflow tid w) (db_workflows db) = Some wf \<and>
     select1 (isStateRow tid w sid) (db_states db) = Some st \<and> wf_initialState wf \<noteq> ws_name st \<and>
     (\<forall>t \<in> set (db_transitions db). wt_workflowId t = w \<longrightarrow> wt_tenantId t = tid \<longrightarrow>
        ws_name st \<notin> set (optCollectRuleStates (wt_conditions t)) \<and>
        wt_fromState t \<noteq> ws_name st \<and> wt_toState t \<noteq> ws_name st) \<and>
     (\<forall>i \<in> set (db_instances db). ei_workflowId i = Some w \<longrightarrow> ei_tenantId i = tid \<longrightarrow>
        ei_currentState i \<noteq> ws_name st)) \<and>
     db' = db\<lparr>db_states := deleteW (isStateRow tid w sid) (db_states db)\<rparr>"
  using assms by (auto simp: deleteWorkflowState_def result_simps list_ex_iff)

lemma deleteWorkflow_Inr:
  assumes "deleteWorkflow env db tid w c = Inr (u, db')"
  shows "(\<forall>i \<in> set (db_instances db). ei_workflowId i = Some w \<longrightarrow> ei_tenantId i \<noteq> tid) \<and>
     (\<forall>e \<in> set (db_events db). we_workflowId e \<noteq> w) \<and>
     (\<forall>r \<in> set (db_states db). ws_workflowId r = w \<longrightarrow> ws_tenantId r = tid) \<and>
     (\<forall>r \<in> set (db_transitions db). wt_workflowId r = w \<longrightarrow> wt_tenantId r = tid) \<and>
     db' = db\<lparr>db_transitions := deleteW (\<lambda>r. wt_workflowId r = w \<and> wt_tenantId r = tid) (db_transitions db),
        db_states := deleteW (\<lambda>r. ws_workflowId r = w \<and> ws_tenantId r = tid) (db_states db),
        db_workflows := deleteW (isOwnedWorkflow tid w) (db_workflows db)\<rparr>"
  using assms by (auto simp: deleteWorkflow_def Let_def result_simps list_ex_iff)

lemma updateWorkflow_Inr:
  assumes "updateWorkflow env db tid w c input = Inr (x, db')"
  shows "\<exists>row upd. findWorkflow db tid w = Some row \<and> wf_tenantId row = Some tid \<and> callerIsAdmin c row \<and>
    (\<forall>admins. uw_assignedTo input = Some admins \<longrightarrow> \<not> wc_isGlobalAdmin c \<longrightarrow>
       wf_createdBy row = Some (wc_userId c) \<and> (wc_userId c \<noteq> '''' \<longrightarrow> wc_userId c \<in> set admins)) \<and>
    (\<forall>s. uw_initialState input = Some s \<longrightarrow> \<not> initialStateInvalid db tid w s) \<and>
    db' = db\<lparr>db_workflows := updateW (isOwnedWorkflow tid w) (applyWorkflowUpdates input) (db_workflows db)\<rparr> \<and>
    select1 (isOwnedWorkflow tid w) (db_workflows db') = Some upd \<and> x = rowToWorkflow upd"
proof -
  have same: "updateW (isOwnedWorkflow tid w) (applyWorkflowUpdates input) t = t"
    if "noWorkflowUpdates input" for t
    using that by (intro updateW_id) (simp add: noWorkflowUpdates_def applyWorkflowUpdates_def)
  obtain row where row: "findWorkflow db tid w = Some row" "callerIsAdmin c row" "wf_tenantId row \<noteq> None"
    using assms by (auto simp: updateWorkflow_def result_simps)
  then have tenant: "wf_tenantId row = Some tid"
    by (auto simp: findWorkflow_def visibleTo_def)
  have "(\<forall>admins. uw_assignedTo input = Some admins \<longrightarrow> \<not> wc_isGlobalAdmin c \<longrightarrow>
       wf_createdBy row = Some (wc_userId c) \<and> (wc_userId c \<noteq> '''' \<longrightarrow> wc_userId c \<in> set admins)) \<and>
    (\<forall>s. uw_initialState input = Some s \<longrightarrow> \<not> initialStateInvalid db tid w s)"
    using assms row by (auto simp: updateWorkflow_def result_simps isWorkflowAdminListEditor_def)
  moreover have "\<exists>upd. db' = db\<lparr>db_workflows :=
      updateW (isOwnedWorkflow tid w) (applyWorkflowUpdates input) (db_workflows db)\<rparr> \<and>
    select1 (isOwnedWorkflow tid w) (db_workflows db') = Some upd \<and> x = rowToWorkflow upd"
    using assms row same by (auto simp: updateWorkflow_def result_simps Let_def split: if_splits)
  ultimately show ?thesis using row tenant by blast
qed

lemma updateWorkflowState_Inr:
  assumes "updateWorkflowState env db tid w sid c input = Inr (x, db')"
  shows "ownedBy db tid w c \<and> (\<exists>st. select1 (isStateRow tid w sid) (db_states db) = Some st \<and>
    (let n = dflt (ws_name st) (us_name input);
         db1 = db\<lparr>db_states := updateW (isStateRow tid w sid)
                 (\<lambda>r. applyStateUpdates (if n = ws_name st then None else Some n) input r) (db_states db)\<rparr>
     in ws_name x = n \<and>
        (if n = ws_name st then db' = db1
         else n \<notin> set (stateNames db tid w) \<and>
           (\<forall>t \<in> set (db_transitions db). wt_workflowId t = w \<longrightarrow> wt_tenantId t = tid \<longrightarrow>
              ws_name st \<notin> set (optCollectRuleStates (wt_conditions t))) \<and>
           db' = cascadeRename db1 tid w (ws_name st) n)))"
proof -
  obtain st where own: "ownedBy db tid w c"
    and st: "select1 (isStateRow tid w sid) (db_states db) = Some st"
    using assms by (auto simp: updateWorkflowState_def result_simps)
  define n where "n = dflt (ws_name st) (us_name input)"
  define newName where "newName = (if n = ws_name st then None else Some n)"
  define db1 where "db1 = db\<lparr>db_states :=
    updateW (isStateRow tid w sid) (applyStateUpdates newName input) (db_states db)\<rparr>"
  have nn: "(case us_name input of None \<Rightarrow> None
      | Some n \<Rightarrow> if n \<noteq> ws_name st then Some n else None) = newName"
    by (simp add: newName_def n_def split: option.splits)
  have P: "\<And>r. isStateRow tid w sid (applyStateUpdates newName input r) = isStateRow tid w sid r"
    by (simp add: isStateRow_def applyStateUpdates_def)
  have row: "select1 (isStateRow tid w sid) (db_states db1) = Some (applyStateUpdates newName input st)"
    by (simp add: db1_def select1_updateW P st)
  have name: "ws_name (applyStateUpdates newName input st) = n"
    by (simp add: applyStateUpdates_def newName_def)
  have *: "x = rowToState (applyStateUpdates newName input st)"
    "db' = (if newName \<noteq> None then cascadeRename db1 tid w (ws_name st) n else db1)"
    "newName \<noteq> None \<Longrightarrow> select1 (isState tid w n) (db_states db) = None"
    "newName \<noteq> None \<Longrightarrow> assertStateNotNamedByRule db tid w (ws_name st) sid = Inr ()"
    using assms own row name
    by (auto simp: updateWorkflowState_def result_simps nn st db1_def Let_def newName_def
        split: if_splits)
  then show ?thesis
    using own st name
    by (auto simp: Let_def n_def [symmetric] newName_def db1_def result_simps select1_None_iff
        isState_def stateNames_def split: if_splits)
qed

section \<open>Calls and runs\<close>

datatype wf_call =
    CallTransition TransitionRequest
  | CallOverride StateOverrideRequest
  | CallCreateWorkflow string CreateWorkflowInput
  | CallUpdateWorkflow string WorkflowCaller UpdateWorkflowInput
  | CallDeleteWorkflow string WorkflowCaller
  | CallAddState string WorkflowCaller CreateWorkflowStateInput
  | CallUpdateState string string WorkflowCaller UpdateWorkflowStateInput
  | CallDeleteState string string WorkflowCaller
  | CallAddTransition string WorkflowCaller CreateWorkflowTransitionInput
  | CallUpdateTransition string string WorkflowCaller UpdateWorkflowTransitionInput
  | CallDeleteTransition string string WorkflowCaller

definition newDb :: "failure + ('a \<times> wf_db) \<Rightarrow> failure + wf_db" where
  "newDb r = (case r of Inl e \<Rightarrow> Inl e | Inr (x, db) \<Rightarrow> Inr db)"

fun performCall :: "wf_env \<Rightarrow> wf_db \<Rightarrow> string \<Rightarrow> wf_call \<Rightarrow> failure + wf_db" where
  "performCall env db tid (CallTransition req) = newDb (executeTransition env db tid req)"
| "performCall env db tid (CallOverride req) = newDb (overrideWorkflowState env db tid req)"
| "performCall env db tid (CallCreateWorkflow creator inp) = newDb (createWorkflow env db tid creator inp)"
| "performCall env db tid (CallUpdateWorkflow w c inp) = newDb (updateWorkflow env db tid w c inp)"
| "performCall env db tid (CallDeleteWorkflow w c) = newDb (deleteWorkflow env db tid w c)"
| "performCall env db tid (CallAddState w c inp) = newDb (addWorkflowState env db tid w c inp)"
| "performCall env db tid (CallUpdateState w s c inp) = newDb (updateWorkflowState env db tid w s c inp)"
| "performCall env db tid (CallDeleteState w s c) = newDb (deleteWorkflowState env db tid w s c)"
| "performCall env db tid (CallAddTransition w c inp) = newDb (addWorkflowTransition env db tid w c inp)"
| "performCall env db tid (CallUpdateTransition w t c inp) =
     newDb (updateWorkflowTransition env db tid w t c inp)"
| "performCall env db tid (CallDeleteTransition w t c) = newDb (deleteWorkflowTransition env db tid w t c)"

lemma newDb_Inr [result_simps]: "newDb r = Inr db \<longleftrightarrow> (\<exists>x. r = Inr (x, db))"
  by (auto simp: newDb_def split: sum.splits)

text \<open>
  A sequence of calls that returned, each admitted by \<open>ok\<close>. A call that throws leaves the
  database as it was and is not a step.
\<close>

inductive system_run :: "(wf_db \<Rightarrow> string \<Rightarrow> wf_call \<Rightarrow> bool) \<Rightarrow> wf_db \<Rightarrow> wf_db \<Rightarrow> bool"
  for ok where
  sys_nil: "system_run ok db db"
| sys_call: "system_run ok db db1 \<Longrightarrow> ok db1 tid call \<Longrightarrow>
    performCall env db1 tid call = Inr db2 \<Longrightarrow> system_run ok db db2"

lemma system_run_one:
  "ok db tid call \<Longrightarrow> performCall env db tid call = Inr db' \<Longrightarrow> system_run ok db db'"
  by (rule sys_call [OF sys_nil])

section \<open>Tenants\<close>

text \<open>What a tenant can see: its own rows, and the workflows and fields shared by all.\<close>

definition tenantView :: "string \<Rightarrow> wf_db \<Rightarrow> wf_db" where
  "tenantView T db = \<lparr>db_instances = filter (\<lambda>r. ei_tenantId r = T) (db_instances db),
     db_fields = filter (\<lambda>r. ef_tenantId r = None \<or> ef_tenantId r = Some T) (db_fields db),
     db_workflows = filter (visibleTo T) (db_workflows db),
     db_states = filter (\<lambda>r. ws_tenantId r = T) (db_states db),
     db_transitions = filter (\<lambda>r. wt_tenantId r = T) (db_transitions db),
     db_transition_seq = 0,
     db_events = filter (\<lambda>r. we_tenantId r = T) (db_events db),
     db_outbox = filter (\<lambda>r. ob_tenantId r = T) (db_outbox db)\<rparr>"

lemma select1_filter: "(\<forall>r. P r \<longrightarrow> Q r) \<Longrightarrow> select1 P (filter Q t) = select1 P t"
  by (induction t) (auto simp: select1_def)

lemma selectW_filter: "(\<forall>r. P r \<longrightarrow> Q r) \<Longrightarrow> selectW P (filter Q t) = selectW P t"
  by (induction t) (auto simp: selectW_def)

lemmas view_filter = select1_filter selectW_filter

lemma findWorkflow_view: "findWorkflow (tenantView T db) T w = findWorkflow db T w"
  by (simp add: findWorkflow_def tenantView_def view_filter)

lemma statesOf_view: "statesOf (tenantView T db) T w = statesOf db T w"
  by (simp add: statesOf_def tenantView_def view_filter)

lemma transitionsOf_view: "transitionsOf (tenantView T db) T w = transitionsOf db T w"
  by (simp add: transitionsOf_def tenantView_def view_filter)

lemma priorActorRows_view: "priorActorRows (tenantView T db) T i = priorActorRows db T i"
  by (simp add: priorActorRows_def tenantView_def view_filter isStateChangeBy_def)

lemma getWorkflow_view: "getWorkflow (tenantView T db) T w c = getWorkflow db T w c"
  by (simp only: getWorkflow_def findWorkflow_view statesOf_view transitionsOf_view)

lemma loadActorContext_view:
  "loadActorContext (tenantView T db) T i cb a trees = loadActorContext db T i cb a trees"
  by (simp only: loadActorContext_def priorActorRows_view)

lemma getAvailableTransitions_view:
  "getAvailableTransitions (tenantView T db) T i rs a = getAvailableTransitions db T i rs a"
proof -
  have "select1 (isInstance T i) (db_instances (tenantView T db)) = select1 (isInstance T i) (db_instances db)"
    by (simp add: tenantView_def view_filter isInstance_def)
  moreover have "selectW (\<lambda>t. wt_workflowId t = w \<and> wt_fromState t = s \<and> wt_tenantId t = T)
      (db_transitions (tenantView T db)) =
    selectW (\<lambda>t. wt_workflowId t = w \<and> wt_fromState t = s \<and> wt_tenantId t = T) (db_transitions db)" for w s
    by (simp add: tenantView_def view_filter)
  ultimately show ?thesis
    by (simp add: getAvailableTransitions_def loadActorContext_view Let_def cong: option.case_cong list.case_cong)
qed

lemma getWorkflowEventLog_view:
  "getWorkflowEventLog (tenantView T db) T i ty l = getWorkflowEventLog db T i ty l"
  by (simp add: getWorkflowEventLog_def tenantView_def view_filter isInstance_def Let_def
      cong: option.case_cong)

lemmas reads_view = getWorkflow_view getAvailableTransitions_view getWorkflowEventLog_view

text \<open>The contract of an operation that a tenant calls: no other tenant's view changes.\<close>

locale tenant_op =
  fixes run :: "wf_env \<Rightarrow> wf_db \<Rightarrow> string \<Rightarrow> 'req \<Rightarrow> failure + ('res \<times> wf_db)"
  assumes frame: "run env db tid req = Inr (x, db') \<Longrightarrow> T \<noteq> tid \<Longrightarrow> tenantView T db' = tenantView T db"
begin

lemma newDb_frame: "newDb (run env db tid req) = Inr db' \<Longrightarrow> T \<noteq> tid \<Longrightarrow> tenantView T db' = tenantView T db"
  by (auto simp: result_simps intro: frame)

end

lemma filter_pendingSla_other:
  "T \<noteq> tid \<Longrightarrow> filter (\<lambda>r. ob_tenantId r = T) (updateW (isPendingSla tid i s) (ob_deliveredAt_update g) t)
     = filter (\<lambda>r. ob_tenantId r = T) t"
  by (rule filter_updateW_other) (auto simp: isPendingSla_def)

lemma slaRows_tenant: "r \<in> set (slaRows env db tid w i s) \<Longrightarrow> ob_tenantId r = tid"
  by (auto simp: slaRows_def split: option.splits if_splits)

lemma tenantView_committed:
  assumes "T \<noteq> tid"
  shows "tenantView T (committedDb env db tid inst w ch) = tenantView T db"
proof -
  have "filter (\<lambda>r. ei_tenantId r = T) (db_instances (committedDb env db tid inst w ch)) =
      filter (\<lambda>r. ei_tenantId r = T) (db_instances db)"
    using assms unfolding committedDb_def by (auto simp: isInstance_def intro!: filter_updateW_other)
  moreover have "filter (\<lambda>r. ob_tenantId r = T) (db_outbox (committedDb env db tid inst w ch)) =
      filter (\<lambda>r. ob_tenantId r = T) (db_outbox db)"
    using assms unfolding committedDb_def
    by (auto simp: filter_pendingSla_other transitionedOutboxRow_def filter_empty_conv dest: slaRows_tenant)
  ultimately show ?thesis using assms by (simp add: tenantView_def)
qed

sublocale state_change_op \<subseteq> tenant: tenant_op op
proof
  fix env db tid req x db' T
  assume "op env db tid req = Inr (x, db')" and "T \<noteq> (tid :: string)"
  then show "tenantView T db' = tenantView T db"
    using commits tenantView_committed by blast
qed

lemma applyWorkflowUpdates_sel [simp]:
  "wf_id (applyWorkflowUpdates inp r) = wf_id r"
  "wf_tenantId (applyWorkflowUpdates inp r) = wf_tenantId r"
  "wf_entityTypeId (applyWorkflowUpdates inp r) = wf_entityTypeId r"
  "wf_createdBy (applyWorkflowUpdates inp r) = wf_createdBy r"
  by (simp_all add: applyWorkflowUpdates_def)

lemma applyStateUpdates_sel [simp]:
  "ws_id (applyStateUpdates n inp r) = ws_id r"
  "ws_tenantId (applyStateUpdates n inp r) = ws_tenantId r"
  "ws_workflowId (applyStateUpdates n inp r) = ws_workflowId r"
  "ws_name (applyStateUpdates n inp r) = dflt (ws_name r) n"
  by (simp_all add: applyStateUpdates_def)

lemma applyTransitionUpdates_sel [simp]:
  "wt_tenantId (applyTransitionUpdates inp r) = wt_tenantId r"
  "wt_workflowId (applyTransitionUpdates inp r) = wt_workflowId r"
  "wt_fromState (applyTransitionUpdates inp r) = wt_fromState r"
  "wt_toState (applyTransitionUpdates inp r) = wt_toState r"
  "wt_conditions (applyTransitionUpdates inp r) = dflt (wt_conditions r) (ut_conditions inp)"
  by (simp_all add: applyTransitionUpdates_def)

lemma healInitial_sel [simp]:
  "wf_id (healInitial db tid w inp r) = wf_id r"
  "wf_tenantId (healInitial db tid w inp r) = wf_tenantId r"
  "wf_entityTypeId (healInitial db tid w inp r) = wf_entityTypeId r"
  by (simp_all add: healInitial_def)

lemmas row_preds = isOwnedWorkflow_def isStateRow_def isTransitionRow_def visibleTo_def

lemma tenantView_cascade:
  "T \<noteq> tid \<Longrightarrow> tenantView T (cascadeRename db tid w old new) = tenantView T db"
  by (simp add: tenantView_def cascadeRename_def Let_def filter_updateW_other row_preds)

interpretation create_op: tenant_op "\<lambda>env db tid (creator, inp). createWorkflow env db tid creator inp"
  by unfold_locales
    (auto simp: createWorkflow_Inr tenantView_def filter_other newWorkflowRow_def row_preds)

interpretation update_op: tenant_op "\<lambda>env db tid (w, c, inp). updateWorkflow env db tid w c inp"
  by unfold_locales (auto dest!: updateWorkflow_Inr simp: tenantView_def filter_other row_preds)

interpretation delete_op: tenant_op "\<lambda>env db tid (w, c). deleteWorkflow env db tid w c"
  by unfold_locales (auto dest!: deleteWorkflow_Inr simp: tenantView_def filter_other row_preds)

interpretation add_state_op: tenant_op "\<lambda>env db tid (w, c, inp). addWorkflowState env db tid w c inp"
  by unfold_locales (auto simp: addWorkflowState_Inr tenantView_def filter_other row_preds)

interpretation update_state_op:
  tenant_op "\<lambda>env db tid (w, s, c, inp). updateWorkflowState env db tid w s c inp"
  by unfold_locales
    (auto dest!: updateWorkflowState_Inr simp: tenantView_cascade Let_def tenantView_def [of _ "_\<lparr>db_states := _\<rparr>"]
      filter_other row_preds split: if_splits; simp add: tenantView_def)

interpretation delete_state_op: tenant_op "\<lambda>env db tid (w, s, c). deleteWorkflowState env db tid w s c"
  by unfold_locales (auto dest!: deleteWorkflowState_Inr simp: tenantView_def filter_other row_preds)

interpretation add_transition_op:
  tenant_op "\<lambda>env db tid (w, c, inp). addWorkflowTransition env db tid w c inp"
  by unfold_locales (auto simp: addWorkflowTransition_Inr tenantView_def filter_other row_preds)

interpretation update_transition_op:
  tenant_op "\<lambda>env db tid (w, t, c, inp). updateWorkflowTransition env db tid w t c inp"
  by unfold_locales (auto dest!: updateWorkflowTransition_Inr simp: tenantView_def filter_other row_preds)

interpretation delete_transition_op:
  tenant_op "\<lambda>env db tid (w, t, c). deleteWorkflowTransition env db tid w t c"
  by unfold_locales (auto simp: deleteWorkflowTransition_Inr tenantView_def filter_other row_preds)

lemma performCall_frame:
  "performCall env db tid call = Inr db' \<Longrightarrow> T \<noteq> tid \<Longrightarrow> tenantView T db' = tenantView T db"
  using transition_op.tenant.newDb_frame override_op.tenant.newDb_frame
    create_op.newDb_frame [where req = "(_, _)"] update_op.newDb_frame [where req = "(_, _, _)"]
    delete_op.newDb_frame [where req = "(_, _)"] add_state_op.newDb_frame [where req = "(_, _, _)"]
    update_state_op.newDb_frame [where req = "(_, _, _, _)"]
    delete_state_op.newDb_frame [where req = "(_, _, _)"]
    add_transition_op.newDb_frame [where req = "(_, _, _)"]
    update_transition_op.newDb_frame [where req = "(_, _, _, _)"]
    delete_transition_op.newDb_frame [where req = "(_, _, _)"]
  by (cases call) (simp_all only: performCall.simps prod.case)

end
