(* ===== verification/WfIntegrity.thy ===== *)
theory WfIntegrity
  imports WfSystem
begin

text \<open>
  The integrity of workflow definitions. States are referenced by name from transitions,
  from segregation rules, from instances and from the workflow's initial state, and the
  database enforces none of these references. The theorems show that the guards of the
  operations do: no sequence of calls leaves a dangling name behind.
\<close>

section \<open>The integrity invariant\<close>

definition namesOf :: "wf_db \<Rightarrow> string \<Rightarrow> string \<Rightarrow> string set" where
  "namesOf db T w = set (stateNames db T w)"

lemma namesOf_iff:
  "n \<in> namesOf db T w \<longleftrightarrow>
     (\<exists>r \<in> set (db_states db). ws_workflowId r = w \<and> ws_tenantId r = T \<and> ws_name r = n)"
  by (auto simp: namesOf_def stateNames_def)

definition keysUnique :: "wf_db \<Rightarrow> bool" where
  "keysUnique db \<longleftrightarrow> inj_on ei_id (set (db_instances db)) \<and> inj_on ws_id (set (db_states db))"

definition edgesValid :: "wf_db \<Rightarrow> bool" where
  "edgesValid db \<longleftrightarrow> (\<forall>t \<in> set (db_transitions db).
     {wt_fromState t, wt_toState t} \<subseteq> namesOf db (wt_tenantId t) (wt_workflowId t))"

definition rulesValid :: "wf_db \<Rightarrow> bool" where
  "rulesValid db \<longleftrightarrow> (\<forall>t \<in> set (db_transitions db).
     set (optCollectRuleStates (wt_conditions t)) \<subseteq> namesOf db (wt_tenantId t) (wt_workflowId t))"

definition instancesPlaced :: "wf_db \<Rightarrow> bool" where
  "instancesPlaced db \<longleftrightarrow> (\<forall>i \<in> set (db_instances db). \<forall>w. ei_workflowId i = Some w \<longrightarrow>
     ei_currentState i \<in> namesOf db (ei_tenantId i) w)"

definition wfInv :: "wf_db \<Rightarrow> bool" where
  "wfInv db \<longleftrightarrow> keysUnique db \<and> edgesValid db \<and> rulesValid db \<and> instancesPlaced db"

lemmas inv_defs = wfInv_def keysUnique_def edgesValid_def rulesValid_def instancesPlaced_def

text \<open>The one thing the operations leave to their caller: a new edge joins existing states.\<close>

fun joinsStates :: "wf_db \<Rightarrow> string \<Rightarrow> wf_call \<Rightarrow> bool" where
  "joinsStates db tid (CallAddTransition w c inp) =
     ({ct_fromState inp, ct_toState inp} \<subseteq> namesOf db tid w)"
| "joinsStates db tid _ = True"

section \<open>Each operation keeps it\<close>

lemma namesOf_cong: "db_states db' = db_states db \<Longrightarrow> namesOf db' = namesOf db"
  by (intro ext) (simp add: namesOf_def stateNames_def)

text \<open>An operation that changes no state, or only adds one, keeps every reference.\<close>

lemma wfInv_insert_state:
  assumes "wfInv db" and "ws_id r \<notin> ws_id ` set (db_states db)"
    and "db_states db' = insertRow r (db_states db)" "db_transitions db' = db_transitions db"
      "db_instances db' = db_instances db"
  shows "wfInv db'"
proof -
  have "namesOf db T w \<subseteq> namesOf db' T w" for T w
    using assms(3) by (auto simp: namesOf_iff)
  then show ?thesis using assms by (auto simp: inv_defs) blast+
qed

lemma wfInv_same_states:
  assumes "wfInv db" and "db_states db' = db_states db" "db_instances db' = db_instances db"
    and "\<forall>t \<in> set (db_transitions db').
      {wt_fromState t, wt_toState t} \<union> set (optCollectRuleStates (wt_conditions t))
        \<subseteq> namesOf db (wt_tenantId t) (wt_workflowId t)"
  shows "wfInv db'"
  using assms(1,3,4) unfolding inv_defs namesOf_cong [OF assms(2)] assms(2) by simp

lemma wfInv_workflows [simp]: "wfInv (db\<lparr>db_workflows := x\<rparr>) = wfInv db"
  by (simp add: inv_defs namesOf_cong [of "db\<lparr>db_workflows := x\<rparr>" db])

lemma wfInv_seq [simp]: "wfInv (db\<lparr>db_transition_seq := k\<rparr>) = wfInv db"
  by (simp add: inv_defs namesOf_cong [of "db\<lparr>db_transition_seq := k\<rparr>" db])

lemma wfInv_add_state:
  "wfInv db \<Longrightarrow> ws_id r \<notin> ws_id ` set (db_states db) \<Longrightarrow>
   wfInv (db\<lparr>db_states := insertRow r (db_states db)\<rparr>)"
  by (rule wfInv_insert_state) simp_all

lemma wfInv_transitions:
  "wfInv db \<Longrightarrow> \<forall>t \<in> set ts. {wt_fromState t, wt_toState t} \<union> set (optCollectRuleStates (wt_conditions t))
        \<subseteq> namesOf db (wt_tenantId t) (wt_workflowId t) \<Longrightarrow>
   wfInv (db\<lparr>db_transitions := ts\<rparr>)"
  by (rule wfInv_same_states) simp_all

lemma wfInv_edges:
  "wfInv db \<Longrightarrow> t \<in> set (db_transitions db) \<Longrightarrow>
     {wt_fromState t, wt_toState t} \<union> set (optCollectRuleStates (wt_conditions t))
       \<subseteq> namesOf db (wt_tenantId t) (wt_workflowId t)"
  by (auto simp: inv_defs)

lemma inj_on_updateW:
  assumes "\<And>r. k (f r) = k r" and "inj_on k (set t)"
  shows "inj_on k (set (updateW P f t))"
proof -
  have "k \<circ> (\<lambda>r. if P r then f r else r) = k"
    using assms(1) by auto
  then show ?thesis
    using assms(2) unfolding updateW_def set_map by (intro inj_on_imageI) simp
qed

lemma wfInv_committed:
  assumes "wfInv db" and lock: "lockInstance env db tid i = Inr (inst, w)"
    and "sc_toState ch \<in> namesOf db tid w"
  shows "wfInv (committedDb env db tid inst w ch)"
proof -
  let ?db' = "committedDb env db tid inst w ch"
  note inst = lockInstance_facts [OF lock]
  have uniq: "inj_on ei_id (set (db_instances db))" using assms(1) by (simp add: inv_defs)
  have same: "r0 = inst" if "r0 \<in> set (db_instances db)" "ei_id r0 = ei_id inst" for r0
    using uniq that inst(3) by (auto dest: inj_onD)
  have rows: "\<exists>r0 \<in> set (db_instances db). ei_id r = ei_id r0 \<and> ei_tenantId r = ei_tenantId r0 \<and>
      ei_workflowId r = ei_workflowId r0 \<and>
      (ei_currentState r = ei_currentState r0 \<or> r0 = inst \<and> ei_currentState r = sc_toState ch)"
    if "r \<in> set (db_instances ?db')" for r
  proof -
    have "r \<in> set (updateW (isInstance tid (ei_id inst))
        (\<lambda>r. r\<lparr>ei_currentState := sc_toState ch, ei_updatedAt := env_occurredAt env\<rparr>) (db_instances db))"
      using that by (simp add: committedDb_def)
    then show ?thesis
    proof (cases rule: updateW_memE)
      case (2 r0)
      then have "r0 = inst" by (auto simp: isInstance_def intro: same)
      with 2 show ?thesis by auto
    qed blast
  qed
  have "instancesPlaced ?db'"
    unfolding instancesPlaced_def
  proof (intro ballI allI impI)
    fix r v assume r: "r \<in> set (db_instances ?db')" and v: "ei_workflowId r = Some v"
    show "ei_currentState r \<in> namesOf ?db' (ei_tenantId r) v"
      using rows [OF r] v assms inst by (auto simp: inv_defs namesOf_cong [of ?db' db])
  qed
  moreover have "inj_on ei_id (set (db_instances ?db'))"
    using uniq by (simp add: committedDb_def inj_on_updateW)
  ultimately show ?thesis
    using assms(1) by (auto simp: inv_defs namesOf_cong [of ?db' db])
qed

lemma wfInv_delete_state:
  assumes inv: "wfInv db" and del: "deleteWorkflowState env db tid w sid c = Inr (u, db')"
  shows "wfInv db'"
proof -
  obtain st where st: "select1 (isStateRow tid w sid) (db_states db) = Some st"
    and free: "\<And>t. t \<in> set (db_transitions db) \<Longrightarrow> wt_workflowId t = w \<Longrightarrow> wt_tenantId t = tid \<Longrightarrow>
        ws_name st \<notin> set (optCollectRuleStates (wt_conditions t)) \<and>
        wt_fromState t \<noteq> ws_name st \<and> wt_toState t \<noteq> ws_name st"
    and empty: "\<And>i. i \<in> set (db_instances db) \<Longrightarrow> ei_workflowId i = Some w \<Longrightarrow> ei_tenantId i = tid \<Longrightarrow>
        ei_currentState i \<noteq> ws_name st"
    and db': "db' = db\<lparr>db_states := deleteW (isStateRow tid w sid) (db_states db)\<rparr>"
    using deleteWorkflowState_Inr [OF del] by blast
  have uniq: "inj_on ws_id (set (db_states db))" using inv by (simp add: inv_defs)
  have kept: "n \<in> namesOf db' T v"
    if "n \<in> namesOf db T v" "T = tid \<Longrightarrow> v = w \<Longrightarrow> n \<noteq> ws_name st" for n T v
  proof -
    obtain r where r: "r \<in> set (db_states db)" "ws_workflowId r = v" "ws_tenantId r = T" "ws_name r = n"
      using \<open>n \<in> namesOf db T v\<close> by (auto simp: namesOf_iff)
    have "r = st" if "isStateRow tid w sid r"
      using that r(1) select1_Some [OF st] by (auto simp: isStateRow_def intro: inj_onD [OF uniq])
    then have "\<not> isStateRow tid w sid r"
      using r \<open>T = tid \<Longrightarrow> v = w \<Longrightarrow> n \<noteq> ws_name st\<close> by (auto simp: isStateRow_def)
    then show ?thesis using r by (auto simp: namesOf_iff db')
  qed
  have "\<forall>t \<in> set (db_transitions db).
      {wt_fromState t, wt_toState t} \<union> set (optCollectRuleStates (wt_conditions t))
        \<subseteq> namesOf db' (wt_tenantId t) (wt_workflowId t)"
    using wfInv_edges [OF inv] free by (blast intro: kept)
  moreover have "\<forall>i \<in> set (db_instances db). \<forall>v. ei_workflowId i = Some v \<longrightarrow>
      ei_currentState i \<in> namesOf db' (ei_tenantId i) v"
    using inv empty by (auto simp: inv_defs intro: kept)
  ultimately show ?thesis
    using inv uniq by (auto simp: inv_defs db' intro: inj_on_subset)
qed

lemma wfInv_delete_workflow:
  assumes inv: "wfInv db" and del: "deleteWorkflow env db tid w c = Inr (u, db')"
  shows "wfInv db'"
proof -
  note d = deleteWorkflow_Inr [OF del]
  have kept: "n \<in> namesOf db T v \<Longrightarrow> \<not> (T = tid \<and> v = w) \<Longrightarrow> n \<in> namesOf db' T v" for n T v
    using d by (auto simp: namesOf_iff)
  have "t \<in> set (db_transitions db) \<and> \<not> (wt_tenantId t = tid \<and> wt_workflowId t = w)"
    if "t \<in> set (db_transitions db')" for t
    using that d by auto
  then have "\<forall>t \<in> set (db_transitions db').
      {wt_fromState t, wt_toState t} \<union> set (optCollectRuleStates (wt_conditions t))
        \<subseteq> namesOf db' (wt_tenantId t) (wt_workflowId t)"
    using wfInv_edges [OF inv] kept by blast
  moreover have "\<forall>i \<in> set (db_instances db'). \<forall>v. ei_workflowId i = Some v \<longrightarrow>
      ei_currentState i \<in> namesOf db' (ei_tenantId i) v"
    using inv d kept by (auto simp: inv_defs)
  ultimately show ?thesis
    using inv d by (auto simp: inv_defs intro: inj_on_subset)
qed

text \<open>A rename reaches every place that holds the old name.\<close>

lemma cascadeRename_transitions:
  "t \<in> set (db_transitions (cascadeRename db tid w old new)) \<Longrightarrow>
     \<exists>t0 \<in> set (db_transitions db). wt_workflowId t = wt_workflowId t0 \<and> wt_tenantId t = wt_tenantId t0 \<and>
       wt_conditions t = wt_conditions t0 \<and>
       (let ren = (\<lambda>s. if wt_workflowId t0 = w \<and> wt_tenantId t0 = tid \<and> s = old then new else s)
        in wt_fromState t = ren (wt_fromState t0) \<and> wt_toState t = ren (wt_toState t0))"
  by (fastforce simp: cascadeRename_def Let_def updateW_def)

lemma cascadeRename_instances:
  "i \<in> set (db_instances (cascadeRename db tid w old new)) \<Longrightarrow>
     \<exists>i0 \<in> set (db_instances db). ei_workflowId i = ei_workflowId i0 \<and> ei_tenantId i = ei_tenantId i0 \<and>
       ei_currentState i = (if ei_workflowId i0 = Some w \<and> ei_tenantId i0 = tid \<and> ei_currentState i0 = old
         then new else ei_currentState i0)"
  by (fastforce simp: cascadeRename_def Let_def updateW_def)

lemma cascadeRename_states [simp]: "db_states (cascadeRename db tid w old new) = db_states db"
  by (simp add: cascadeRename_def Let_def)

lemma wfInv_cascadeRename:
  assumes inv: "wfInv db" and uniq: "inj_on ws_id (set (db_states db1))"
    and db1: "db1 = db\<lparr>db_states := sts\<rparr>"
    and kept: "\<And>n T v. n \<in> namesOf db T v \<Longrightarrow> \<not> (T = tid \<and> v = w \<and> n = old) \<Longrightarrow> n \<in> namesOf db1 T v"
    and new: "new \<in> namesOf db1 tid w"
    and free: "\<And>t. t \<in> set (db_transitions db) \<Longrightarrow> wt_workflowId t = w \<Longrightarrow> wt_tenantId t = tid \<Longrightarrow>
        old \<notin> set (optCollectRuleStates (wt_conditions t))"
  shows "wfInv (cascadeRename db1 tid w old new)"
proof -
  let ?db' = "cascadeRename db1 tid w old new"
  have names: "namesOf ?db' = namesOf db1" by (rule namesOf_cong) simp
  have "\<forall>t \<in> set (db_transitions ?db').
      {wt_fromState t, wt_toState t} \<union> set (optCollectRuleStates (wt_conditions t))
        \<subseteq> namesOf ?db' (wt_tenantId t) (wt_workflowId t)"
  proof
    fix t assume "t \<in> set (db_transitions ?db')"
    then obtain t0 where t0: "t0 \<in> set (db_transitions db)"
      and t: "wt_workflowId t = wt_workflowId t0" "wt_tenantId t = wt_tenantId t0"
        "wt_conditions t = wt_conditions t0"
        "wt_fromState t = (if wt_workflowId t0 = w \<and> wt_tenantId t0 = tid \<and> wt_fromState t0 = old
           then new else wt_fromState t0)"
        "wt_toState t = (if wt_workflowId t0 = w \<and> wt_tenantId t0 = tid \<and> wt_toState t0 = old
           then new else wt_toState t0)"
      using cascadeRename_transitions [of t db1 tid w old new] by (auto simp: Let_def db1)
    show "{wt_fromState t, wt_toState t} \<union> set (optCollectRuleStates (wt_conditions t))
        \<subseteq> namesOf ?db' (wt_tenantId t) (wt_workflowId t)"
      using wfInv_edges [OF inv t0] free [OF t0] new
      unfolding t names by (auto intro: kept)
  qed
  moreover have "instancesPlaced ?db'"
    unfolding instancesPlaced_def names
  proof (intro ballI allI impI)
    fix i v assume i: "i \<in> set (db_instances ?db')" and v: "ei_workflowId i = Some v"
    obtain i0 where "i0 \<in> set (db_instances db1)" "ei_workflowId i = ei_workflowId i0"
      and "ei_tenantId i = ei_tenantId i0"
      and "ei_currentState i = (if ei_workflowId i0 = Some w \<and> ei_tenantId i0 = tid \<and>
         ei_currentState i0 = old then new else ei_currentState i0)"
      using cascadeRename_instances [OF i] by blast
    then show "ei_currentState i \<in> namesOf db1 (ei_tenantId i) v"
      using inv new v by (auto simp: inv_defs db1 intro: kept [unfolded db1])
  qed
  moreover have "inj_on ei_id (set (db_instances ?db'))"
    using inv by (simp add: cascadeRename_def Let_def db1 inj_on_updateW inv_defs)
  ultimately show ?thesis
    using uniq by (auto simp: inv_defs)
qed

lemma wfInv_update_state:
  assumes inv: "wfInv db" and upd: "updateWorkflowState env db tid w sid c inp = Inr (x, db')"
  shows "wfInv db'"
proof -
  obtain st where st: "select1 (isStateRow tid w sid) (db_states db) = Some st"
    and upd: "let n = dflt (ws_name st) (us_name inp);
         db1 = db\<lparr>db_states := updateW (isStateRow tid w sid)
                 (\<lambda>r. applyStateUpdates (if n = ws_name st then None else Some n) inp r) (db_states db)\<rparr>
     in (if n = ws_name st then db' = db1
         else (\<forall>t \<in> set (db_transitions db). wt_workflowId t = w \<longrightarrow> wt_tenantId t = tid \<longrightarrow>
              ws_name st \<notin> set (optCollectRuleStates (wt_conditions t))) \<and>
           db' = cascadeRename db1 tid w (ws_name st) n)"
    using updateWorkflowState_Inr [OF upd] by (auto simp: Let_def split: if_splits)
  define n where "n = dflt (ws_name st) (us_name inp)"
  define f where "f = applyStateUpdates (if n = ws_name st then None else Some n) inp"
  define db1 where "db1 = db\<lparr>db_states := updateW (isStateRow tid w sid) f (db_states db)\<rparr>"
  note stm = select1_Some [OF st]
  have uniq: "inj_on ws_id (set (db_states db))" using inv by (simp add: inv_defs)
  have uniq1: "inj_on ws_id (set (db_states db1))"
    using uniq by (simp add: db1_def inj_on_updateW f_def)
  have only: "r = st" if "r \<in> set (db_states db)" "isStateRow tid w sid r" for r
    using that stm by (auto simp: isStateRow_def intro: inj_onD [OF uniq])
  have fname: "ws_name (f st) = n" "ws_workflowId (f st) = w" "ws_tenantId (f st) = tid"
    using stm by (auto simp: f_def isStateRow_def)
  have new: "n \<in> namesOf db1 tid w"
    using stm fname unfolding namesOf_iff db1_def by (auto simp: set_updateW)
  have kept: "m \<in> namesOf db1 T v" if m: "m \<in> namesOf db T v" and "\<not> (T = tid \<and> v = w \<and> m = ws_name st)" for m T v
  proof -
    obtain r where "r \<in> set (db_states db)" "ws_workflowId r = v" "ws_tenantId r = T" "ws_name r = m"
      using m by (auto simp: namesOf_iff)
    moreover from this have "\<not> isStateRow tid w sid r"
      using only that(2) by (auto simp: isStateRow_def)
    ultimately show ?thesis by (auto simp: namesOf_iff db1_def set_updateW)
  qed
  show ?thesis
  proof (cases "n = ws_name st")
    case True
    then have "namesOf db T v \<subseteq> namesOf db1 T v" for T v
      using kept new by blast
    moreover have "db' = db1" using upd True by (simp add: Let_def n_def [symmetric] db1_def f_def)
    ultimately show ?thesis
      using inv uniq1 by (auto simp: inv_defs db1_def) blast+
  next
    case False
    then show ?thesis
      using upd wfInv_cascadeRename [OF inv uniq1 db1_def kept new]
      by (auto simp: Let_def n_def [symmetric] db1_def f_def)
  qed
qed

section \<open>The contract and its providers\<close>

text \<open>
  An operation of a tenant that keeps the references intact whenever its precondition holds.
\<close>

locale workflow_op = tenant_op run
  for run :: "wf_env \<Rightarrow> wf_db \<Rightarrow> string \<Rightarrow> 'req \<Rightarrow> failure + ('res \<times> wf_db)" +
  fixes pre :: "wf_db \<Rightarrow> string \<Rightarrow> 'req \<Rightarrow> bool"
  assumes keeps: "run env db tid req = Inr (x, db') \<Longrightarrow> pre db tid req \<Longrightarrow> wfInv db \<Longrightarrow> wfInv db'"
begin

lemma newDb_keeps: "newDb (run env db tid req) = Inr db' \<Longrightarrow> pre db tid req \<Longrightarrow> wfInv db \<Longrightarrow> wfInv db'"
  by (auto simp: result_simps intro: keeps)

end

interpretation transition_wf: workflow_op executeTransition "\<lambda>_ _ _. True"
proof unfold_locales
  fix env db tid req x db'
  assume "executeTransition env db tid req = Inr (x, db')" and inv: "wfInv db"
  then show "wfInv db'"
    unfolding executeTransition_Inr
  proof (elim disjE exE conjE)
    fix inst w wf t
    assume lock: "lockInstance env db tid (tr_instanceId req) = Inr (inst, w)"
      and t: "findTransition db tid w (tr_transitionId req) = Some t"
      and "commitStateChange env db tid inst w (transitionChange env req t) = Inr (x, db')"
    then show ?thesis
      using wfInv_edges [OF inv, of t] inv
      by (auto simp: commitStateChange_Inr findTransition_def intro!: wfInv_committed [OF _ lock])
  qed auto
qed

interpretation override_wf: workflow_op overrideWorkflowState "\<lambda>_ _ _. True"
  by unfold_locales
    (auto simp: overrideWorkflowState_Inr commitStateChange_Inr overrideAllowed_def namesOf_def
      overrideChange_def intro!: wfInv_committed)

interpretation create_wf: workflow_op
  "\<lambda>env db tid (creator, inp). createWorkflow env db tid creator inp" "\<lambda>_ _ _. True"
  by unfold_locales (auto simp: createWorkflow_Inr)

interpretation update_wf: workflow_op
  "\<lambda>env db tid (w, c, inp). updateWorkflow env db tid w c inp" "\<lambda>_ _ _. True"
  by unfold_locales (auto dest!: updateWorkflow_Inr)

interpretation delete_wf: workflow_op
  "\<lambda>env db tid (w, c). deleteWorkflow env db tid w c" "\<lambda>_ _ _. True"
  by unfold_locales (auto intro: wfInv_delete_workflow)

interpretation add_state_wf: workflow_op
  "\<lambda>env db tid (w, c, inp). addWorkflowState env db tid w c inp" "\<lambda>_ _ _. True"
  by unfold_locales (auto simp: addWorkflowState_Inr intro!: wfInv_add_state)

interpretation update_state_wf: workflow_op
  "\<lambda>env db tid (w, s, c, inp). updateWorkflowState env db tid w s c inp" "\<lambda>_ _ _. True"
  by unfold_locales (auto intro: wfInv_update_state)

interpretation delete_state_wf: workflow_op
  "\<lambda>env db tid (w, s, c). deleteWorkflowState env db tid w s c" "\<lambda>_ _ _. True"
  by unfold_locales (auto intro: wfInv_delete_state)

interpretation add_transition_wf: workflow_op
  "\<lambda>env db tid (w, c, inp). addWorkflowTransition env db tid w c inp"
  "\<lambda>db tid (w, c, inp). {ct_fromState inp, ct_toState inp} \<subseteq> namesOf db tid w"
  using wfInv_edges
  by unfold_locales
    (fastforce simp: addWorkflowTransition_Inr namesOf_def [symmetric] intro!: wfInv_transitions)

interpretation update_transition_wf: workflow_op
  "\<lambda>env db tid (w, t, c, inp). updateWorkflowTransition env db tid w t c inp" "\<lambda>_ _ _. True"
proof unfold_locales
  fix env db tid and req :: "string \<times> string \<times> WorkflowCaller \<times> UpdateWorkflowTransitionInput" and x db'
  assume run: "(case req of (w, t, c, inp) \<Rightarrow> updateWorkflowTransition env db tid w t c inp) = Inr (x, db')"
    and inv: "wfInv db"
  obtain w t c inp where req: "req = (w, t, c, inp)" by (cases req)
  have new: "set (optCollectRuleStates (Option.bind (ut_conditions inp) (\<lambda>c. c))) \<subseteq> namesOf db tid w"
    and db': "db' = db\<lparr>db_transitions :=
      updateW (isTransitionRow tid w t) (applyTransitionUpdates inp) (db_transitions db)\<rparr>"
    using run updateWorkflowTransition_Inr [of env db tid w t c inp x db']
    by (simp_all add: req namesOf_def)
  show "wfInv db'"
  proof (rule wfInv_same_states [OF inv])
    show "\<forall>t \<in> set (db_transitions db').
      {wt_fromState t, wt_toState t} \<union> set (optCollectRuleStates (wt_conditions t))
        \<subseteq> namesOf db (wt_tenantId t) (wt_workflowId t)"
      using new wfInv_edges [OF inv] unfolding db'
      by (cases "ut_conditions inp")
        (fastforce simp: isTransitionRow_def elim!: updateW_memE)+
  qed (simp_all add: db')
qed

interpretation delete_transition_wf: workflow_op
  "\<lambda>env db tid (w, t, c). deleteWorkflowTransition env db tid w t c" "\<lambda>_ _ _. True"
  using wfInv_edges
  by unfold_locales (fastforce simp: deleteWorkflowTransition_Inr intro!: wfInv_transitions)

lemma performCall_keeps:
  "performCall env db tid call = Inr db' \<Longrightarrow> joinsStates db tid call \<Longrightarrow> wfInv db \<Longrightarrow> wfInv db'"
  using transition_wf.newDb_keeps override_wf.newDb_keeps
    create_wf.newDb_keeps [where req = "(_, _)"] update_wf.newDb_keeps [where req = "(_, _, _)"]
    delete_wf.newDb_keeps [where req = "(_, _)"] add_state_wf.newDb_keeps [where req = "(_, _, _)"]
    update_state_wf.newDb_keeps [where req = "(_, _, _, _)"]
    delete_state_wf.newDb_keeps [where req = "(_, _, _)"]
    add_transition_wf.newDb_keeps [where req = "(_, _, _)"]
    update_transition_wf.newDb_keeps [where req = "(_, _, _, _)"]
    delete_transition_wf.newDb_keeps [where req = "(_, _, _)"]
  by (cases call) (simp_all only: performCall.simps joinsStates.simps prod.case)

end
