(* ===== verification/WfSystemProps.thy ===== *)
theory WfSystemProps
  imports WfIntegrity
begin

text \<open>
  What holds of the workflow engine through any sequence of its operations: tenants are
  isolated, no name dangles, definitions change only at the hand of their administrators, a
  rename leaves every record the choices it had, and listing agrees with reading one by one.
\<close>

section \<open>Any sequence of calls\<close>

text \<open>
  C9. Tenants are isolated: whatever sequence of transitions, overrides and changes of
  workflows, states and transitions other tenants perform, a tenant's rows stay as they were,
  and with them everything it can read: a workflow with its states and transitions, the
  transitions offered on an instance, an instance's event log.
\<close>
theorem system_isolation:
  assumes "system_run (\<lambda>_ tid _. tid \<noteq> T) db db'"
  shows "tenantView T db' = tenantView T db \<and>
    getWorkflow db' T w c = getWorkflow db T w c \<and>
    getAvailableTransitions db' T i roles actor = getAvailableTransitions db T i roles actor \<and>
    getWorkflowEventLog db' T i ty limit = getWorkflowEventLog db T i ty limit"
proof -
  have "tenantView T db' = tenantView T db"
    using assms by (induction rule: system_run.induct) (auto simp: performCall_frame)
  then show ?thesis by (metis reads_view)
qed

definition demo_rename :: UpdateWorkflowStateInput where
  "demo_rename = \<lparr>us_name = Some ''open'', us_label = None, us_color = None, us_isTerminal = None,
     us_slaHours = None, us_sortOrder = None\<rparr>"

definition demo_owner :: WorkflowCaller where
  "demo_owner = \<lparr>wc_userId = ''olga'', wc_isGlobalAdmin = False\<rparr>"

lemmas crud_eval = wf_eval demo_defs demo_rename_def demo_owner_def
  assertWorkflowOwned_def isOwnedWorkflow_def callerIsAdmin_def isWorkflowAdmin_def isStateRow_def
  updateWorkflowState_def assertStateNotNamedByRule_def optCollectRuleStates_def noStateUpdates_def
  applyStateUpdates_def

lemma demo_rename_returns:
  "\<not> isl (updateWorkflowState demo_env demo_db ''t1'' ''w1'' ''s1'' demo_owner demo_rename)"
  by (simp add: crud_eval)

lemma demo_rename_done:
  obtains x db' where
    "updateWorkflowState demo_env demo_db ''t1'' ''w1'' ''s1'' demo_owner demo_rename = Inr (x, db')"
  using returns_pair [OF demo_rename_returns] by blast

theorem system_isolation_witness:
  "\<exists>e db'. performCall demo_env demo_db ''t1'' (CallTransition demo_request) = Inr db' \<and>
     executeTransition demo_env demo_db ''t1'' demo_request = Inr (e, db') \<and>
     tenantView ''t2'' db' = tenantView ''t2'' demo_db"
proof -
  obtain e db' where run: "executeTransition demo_env demo_db ''t1'' demo_request = Inr (e, db')"
    by (rule demo_transition)
  then have call: "performCall demo_env demo_db ''t1'' (CallTransition demo_request) = Inr db'"
    by (simp add: newDb_def)
  have "system_run (\<lambda>_ tid _. tid \<noteq> ''t2'') demo_db db'"
    by (rule system_run_one [OF _ call]) simp
  then show ?thesis using system_isolation [of "''t2''" demo_db db'] run call by blast
qed

text \<open>
  C10. No name dangles: if every transition joins states of its workflow, every segregation
  rule names states of its workflow and every instance is in a state of its workflow, then so
  it is after any sequence of successful calls, provided the edges added along the way join
  states that exist. Renames, deletions, overrides and transitions keep all of it.
\<close>
theorem system_integrity:
  assumes "system_run joinsStates db db'" and "wfInv db"
  shows "wfInv db'"
  using assms by (induction rule: system_run.induct) (auto dest: performCall_keeps)

lemma demo_wfInv: "wfInv demo_db"
  by (simp add: inv_defs demo_defs namesOf_iff optCollectRuleStates_def)

theorem system_integrity_witness:
  "\<exists>db'. performCall demo_env demo_db ''t1'' (CallUpdateState ''w1'' ''s1'' demo_owner demo_rename) = Inr db' \<and>
     wfInv db'"
proof -
  obtain x db' where
    "updateWorkflowState demo_env demo_db ''t1'' ''w1'' ''s1'' demo_owner demo_rename = Inr (x, db')"
    by (rule demo_rename_done)
  then have call: "performCall demo_env demo_db ''t1''
      (CallUpdateState ''w1'' ''s1'' demo_owner demo_rename) = Inr db'"
    by (simp add: newDb_def)
  have "system_run joinsStates demo_db db'"
    by (rule system_run_one [OF _ call]) simp
  then show ?thesis using system_integrity demo_wfInv call by blast
qed

section \<open>Who may change a definition\<close>

text \<open>The workflow a maintenance call is about, with its caller.\<close>

fun callTarget :: "wf_call \<Rightarrow> (string \<times> WorkflowCaller) option" where
  "callTarget (CallUpdateWorkflow w c _) = Some (w, c)"
| "callTarget (CallDeleteWorkflow w c) = Some (w, c)"
| "callTarget (CallAddState w c _) = Some (w, c)"
| "callTarget (CallUpdateState w _ c _) = Some (w, c)"
| "callTarget (CallDeleteState w _ c) = Some (w, c)"
| "callTarget (CallAddTransition w c _) = Some (w, c)"
| "callTarget (CallUpdateTransition w _ c _) = Some (w, c)"
| "callTarget (CallDeleteTransition w _ c) = Some (w, c)"
| "callTarget _ = None"

lemma assertWorkflowOwned_denied:
  "\<forall>row \<in> set (db_workflows db). isOwnedWorkflow tid w row \<longrightarrow> \<not> callerIsAdmin c row \<Longrightarrow>
   assertWorkflowOwned db tid w c = Inl (errWorkflow WORKFLOW_NOT_FOUND w)"
  by (cases "select1 (isOwnedWorkflow tid w) (db_workflows db)")
    (auto simp: assertWorkflowOwned_def dest!: select1_Some)

lemma findWorkflow_owned:
  "findWorkflow db tid w = Some row \<Longrightarrow> wf_tenantId row \<noteq> None \<Longrightarrow>
   row \<in> set (db_workflows db) \<and> isOwnedWorkflow tid w row"
  by (auto simp: findWorkflow_def isOwnedWorkflow_def visibleTo_def dest!: select1_Some)

text \<open>
  C11. A definition changes only at the hand of its administrators: every call that maintains
  a workflow, its states or its transitions is refused for a caller who is neither a global
  administrator, nor the workflow's creator, nor on its list of administrators, and the
  refusal is the same as for a workflow that does not exist. System workflows, which belong
  to no tenant, and the workflows of other tenants are refused to everyone.
\<close>
theorem unauthorized_is_not_found:
  assumes "callTarget call = Some (w, c)"
    and "\<forall>row \<in> set (db_workflows db). isOwnedWorkflow tid w row \<longrightarrow> \<not> callerIsAdmin c row"
  shows "performCall env db tid call = Inl (errWorkflow WORKFLOW_NOT_FOUND w)"
proof -
  note denied = assertWorkflowOwned_denied [OF assms(2)]
  have found: "\<not> callerIsAdmin c row" if "findWorkflow db tid w = Some row" "wf_tenantId row \<noteq> None" for row
    using assms(2) findWorkflow_owned [OF that] by blast
  have update: "updateWorkflow env db tid w c inp = Inl (errWorkflow WORKFLOW_NOT_FOUND w)" for inp
    using found by (cases "findWorkflow db tid w") (auto simp: updateWorkflow_def throwIf_def)
  have "\<not> wc_isGlobalAdmin c \<and> \<not> isWorkflowAdminListEditor (wc_userId c) (wf_createdBy row)"
    if "findWorkflow db tid w = Some row" "wf_tenantId row \<noteq> None" for row
    using found [OF that] by (auto simp: callerIsAdmin_def isWorkflowAdmin_def isWorkflowAdminListEditor_def)
  then have delete: "deleteWorkflow env db tid w c = Inl (errWorkflow WORKFLOW_NOT_FOUND w)"
    by (cases "findWorkflow db tid w") (auto simp: deleteWorkflow_def throwIf_def)
  show ?thesis
    using assms(1) denied update delete
    by (cases call) (simp_all add: newDb_def addWorkflowState_def updateWorkflowState_def
        deleteWorkflowState_def addWorkflowTransition_def updateWorkflowTransition_def
        deleteWorkflowTransition_def)
qed

theorem unauthorized_is_not_found_witness:
  "performCall demo_env demo_db ''t1'' (CallDeleteState ''w1'' ''s1''
     \<lparr>wc_userId = ''bob'', wc_isGlobalAdmin = False\<rparr>) = Inl (errWorkflow WORKFLOW_NOT_FOUND ''w1'')"
  by (rule unauthorized_is_not_found [where c = "\<lparr>wc_userId = ''bob'', wc_isGlobalAdmin = False\<rparr>"])
    (simp_all add: crud_eval)

text \<open>
  Handing over a workflow is guarded: a caller who is not a global administrator changes
  the list of administrators only as the workflow's creator and only while staying on it, and
  the call never changes the creator, the tenant or the entity type. A new initial state is
  one of the workflow's states and not terminal.
\<close>
theorem updateWorkflow_guarded:
  assumes "updateWorkflow env db tid w c inp = Inr (x, db')"
  shows "\<exists>row upd. findWorkflow db tid w = Some row \<and>
    select1 (isOwnedWorkflow tid w) (db_workflows db') = Some upd \<and> x = rowToWorkflow upd \<and>
    (uw_assignedTo inp \<noteq> None \<longrightarrow> \<not> wc_isGlobalAdmin c \<longrightarrow> wc_userId c \<noteq> '''' \<longrightarrow>
       wf_createdBy row = Some (wc_userId c) \<and> wc_userId c \<in> set (wd_assignedTo x)) \<and>
    map (\<lambda>r. (wf_id r, wf_tenantId r, wf_entityTypeId r, wf_createdBy r)) (db_workflows db') =
      map (\<lambda>r. (wf_id r, wf_tenantId r, wf_entityTypeId r, wf_createdBy r)) (db_workflows db) \<and>
    (uw_initialState inp \<noteq> None \<longrightarrow>
       uw_initialState inp = Some (wf_initialState x) \<and>
       (\<exists>st \<in> set (db_states db). isState tid w (wf_initialState x) st \<and> \<not> ws_isTerminal st))"
proof -
  obtain row upd where row: "findWorkflow db tid w = Some row"
    and admins: "\<And>admins. uw_assignedTo inp = Some admins \<Longrightarrow> \<not> wc_isGlobalAdmin c \<Longrightarrow>
       wf_createdBy row = Some (wc_userId c) \<and> (wc_userId c \<noteq> '''' \<longrightarrow> wc_userId c \<in> set admins)"
    and init: "\<And>s. uw_initialState inp = Some s \<Longrightarrow> \<not> initialStateInvalid db tid w s"
    and db': "db' = db\<lparr>db_workflows :=
      updateW (isOwnedWorkflow tid w) (applyWorkflowUpdates inp) (db_workflows db)\<rparr>"
    and upd: "select1 (isOwnedWorkflow tid w) (db_workflows db') = Some upd" and x: "x = rowToWorkflow upd"
    using updateWorkflow_Inr [OF assms] by blast
  have "upd \<in> applyWorkflowUpdates inp ` set (db_workflows db)"
    using select1_Some [OF upd] by (auto simp: db' isOwnedWorkflow_def elim!: updateW_memE)
  then have stored: "\<And>l. uw_assignedTo inp = Some l \<Longrightarrow> wd_assignedTo x = l"
    "\<And>s. uw_initialState inp = Some s \<Longrightarrow> wf_initialState x = s"
    by (auto simp: x applyWorkflowUpdates_def)
  have "\<exists>st \<in> set (db_states db). isState tid w s st \<and> \<not> ws_isTerminal st"
    if "uw_initialState inp = Some s" for s
    using init [OF that] by (auto simp: initialStateInvalid_def split: option.splits)
  moreover have "map (\<lambda>r. (wf_id r, wf_tenantId r, wf_entityTypeId r, wf_createdBy r)) (db_workflows db') =
      map (\<lambda>r. (wf_id r, wf_tenantId r, wf_entityTypeId r, wf_createdBy r)) (db_workflows db)"
    by (simp add: db' map_updateW_same)
  ultimately show ?thesis using row upd x admins stored by fastforce
qed

definition demo_handover :: UpdateWorkflowInput where
  "demo_handover = \<lparr>uw_isActive = None, uw_assignedTo = Some [''olga'', ''petra''], uw_maxChildDepth = None,
     uw_maxChildrenPerParent = None, uw_initialState = Some ''approved'',
     uw_allowAutoGrantOnMention = None, uw_allowStateOverride = None\<rparr>"

theorem updateWorkflow_guarded_witness:
  "\<exists>x db' row. updateWorkflow demo_env demo_db ''t1'' ''w1'' demo_owner demo_handover = Inr (x, db') \<and>
     findWorkflow demo_db ''t1'' ''w1'' = Some row \<and> wf_createdBy row = Some ''olga'' \<and>
     wf_initialState x = ''approved''"
proof -
  have "\<not> isl (updateWorkflow demo_env demo_db ''t1'' ''w1'' demo_owner demo_handover)"
    by (simp add: crud_eval updateWorkflow_def demo_handover_def noWorkflowUpdates_def
        isWorkflowAdminListEditor_def initialStateInvalid_def)
  then obtain x db' where run: "updateWorkflow demo_env demo_db ''t1'' ''w1'' demo_owner demo_handover = Inr (x, db')"
    using returns_pair by blast
  from updateWorkflow_guarded [OF run] run show ?thesis
    by (auto simp: demo_handover_def demo_owner_def)
qed

section \<open>Renaming a state\<close>

definition outgoing :: "wf_db \<Rightarrow> string \<Rightarrow> string \<Rightarrow> string \<Rightarrow> workflow_transitions_row list" where
  "outgoing db T w s =
     selectW (\<lambda>t. wt_workflowId t = w \<and> wt_fromState t = s \<and> wt_tenantId t = T) (db_transitions db)"

definition renameEdge ::
  "string \<Rightarrow> string \<Rightarrow> string \<Rightarrow> string \<Rightarrow> workflow_transitions_row \<Rightarrow> workflow_transitions_row" where
  "renameEdge tid w old new t =
     (let ren = (\<lambda>s. if wt_workflowId t = w \<and> wt_tenantId t = tid \<and> s = old then new else s)
      in t\<lparr>wt_fromState := ren (wt_fromState t), wt_toState := ren (wt_toState t)\<rparr>)"

lemma renameEdge_sel [simp]:
  "wt_id (renameEdge tid w old new t) = wt_id t"
  "wt_workflowId (renameEdge tid w old new t) = wt_workflowId t"
  "wt_tenantId (renameEdge tid w old new t) = wt_tenantId t"
  "wt_conditions (renameEdge tid w old new t) = wt_conditions t"
  "wt_allowedRoles (renameEdge tid w old new t) = wt_allowedRoles t"
  by (simp_all add: renameEdge_def Let_def)

lemma cascade_transitions_map:
  "db_transitions (cascadeRename db tid w old new) = map (renameEdge tid w old new) (db_transitions db)"
  by (auto simp: cascadeRename_def Let_def updateW_def renameEdge_def)

lemma cascade_instance:
  "select1 (isInstance T i) (db_instances (cascadeRename db tid w old new)) =
   map_option (\<lambda>r. if ei_workflowId r = Some w \<and> ei_tenantId r = tid \<and> ei_currentState r = old
     then r\<lparr>ei_currentState := new\<rparr> else r) (select1 (isInstance T i) (db_instances db))"
proof -
  have "List.find (isInstance T i) (map g t) = map_option g (List.find (isInstance T i) t)"
    if "\<And>r. isInstance T i (g r) = isInstance T i r" for g and t :: "entity_instances_row list"
    using that by (induction t) auto
  then show ?thesis
    by (simp add: cascadeRename_def Let_def select1_def updateW_def isInstance_def)
qed

lemma outgoing_cascade:
  assumes "\<And>t. t \<in> set (db_transitions db) \<Longrightarrow> wt_workflowId t = w \<Longrightarrow> wt_tenantId t = tid \<Longrightarrow>
      wt_fromState t \<noteq> new"
    and "T = tid \<and> v = w \<Longrightarrow> s \<noteq> new"
  shows "outgoing (cascadeRename db tid w old new) T v (if T = tid \<and> v = w \<and> s = old then new else s) =
    map (renameEdge tid w old new) (outgoing db T v s)"
proof -
  have "filter (\<lambda>t. wt_workflowId t = v \<and> wt_fromState (renameEdge tid w old new t) =
        (if T = tid \<and> v = w \<and> s = old then new else s) \<and> wt_tenantId t = T) (db_transitions db) =
      filter (\<lambda>t. wt_workflowId t = v \<and> wt_fromState t = s \<and> wt_tenantId t = T) (db_transitions db)"
    using assms by (intro filter_cong) (auto simp: renameEdge_def Let_def)
  then show ?thesis
    by (simp add: outgoing_def selectW_def cascade_transitions_map filter_map comp_def)
qed

lemma available_none:
  "(\<And>inst v. select1 (isInstance T i) (db_instances db) = Some inst \<Longrightarrow> ei_workflowId inst = Some v \<Longrightarrow>
      v = '''') \<Longrightarrow> getAvailableTransitions db T i roles actor = []"
  by (auto simp: getAvailableTransitions_def split: option.splits list.splits)

lemma available_ids:
  assumes "select1 (isInstance T i) (db_instances db) = Some inst" "ei_workflowId inst = Some w" "w \<noteq> ''''"
  shows "map wt_id (getAvailableTransitions db T i roles actor) =
    (let ts = outgoing db T w (ei_currentState inst);
         ctx = loadActorContext db T (ei_id inst) (ei_createdBy inst) actor (map wt_conditions ts)
     in map wt_id (filter (\<lambda>t. roleAllows roles (wt_allowedRoles t) \<and>
          evaluateConditionTree (wt_conditions t) (ei_fields inst) (Some ctx)) ts))"
  using assms by (cases w) (simp_all add: getAvailableTransitions_def outgoing_def Let_def comp_def)

lemma loadActorContext_cong:
  "db_events db' = db_events db \<Longrightarrow>
   loadActorContext db' T i cb a trees = loadActorContext db T i cb a trees"
  by (simp add: loadActorContext_def priorActorRows_def Let_def)

lemma getAvailableTransitions_states:
  "getAvailableTransitions (db\<lparr>db_states := sts\<rparr>) T i roles actor = getAvailableTransitions db T i roles actor"
proof -
  have "loadActorContext (db\<lparr>db_states := sts\<rparr>) = loadActorContext db"
    by (intro ext loadActorContext_cong) simp
  then show ?thesis
    by (simp add: getAvailableTransitions_def Let_def cong: option.case_cong list.case_cong)
qed

lemma cascade_available:
  assumes inv: "wfInv db" and new: "new \<notin> namesOf db tid w"
    and db1: "db1 = db\<lparr>db_states := sts\<rparr>"
  shows "map wt_id (getAvailableTransitions (cascadeRename db1 tid w old new) T i roles actor) =
    map wt_id (getAvailableTransitions db T i roles actor)"
proof (cases "\<exists>inst v. select1 (isInstance T i) (db_instances db) = Some inst \<and>
    ei_workflowId inst = Some v \<and> v \<noteq> ''''")
  case False
  then have "getAvailableTransitions db T i roles actor = []"
    by (intro available_none) auto
  moreover have "getAvailableTransitions (cascadeRename db1 tid w old new) T i roles actor = []"
    using False by (intro available_none) (auto simp: cascade_instance db1 split: if_splits)
  ultimately show ?thesis by simp
next
  case True
  then obtain inst v where found: "select1 (isInstance T i) (db_instances db) = Some inst"
    and v: "ei_workflowId inst = Some v" "v \<noteq> ''''" by blast
  note inst = select1_Some [OF found]
  let ?db' = "cascadeRename db1 tid w old new"
  let ?s = "if T = tid \<and> v = w \<and> ei_currentState inst = old then new else ei_currentState inst"
  let ?inst' = "inst\<lparr>ei_currentState := ?s\<rparr>"
  have "T = tid \<and> v = w \<Longrightarrow> ei_currentState inst \<noteq> new"
    using inv inst v new by (auto simp: inv_defs isInstance_def)
  moreover have "wt_fromState t \<noteq> new"
    if "t \<in> set (db_transitions db)" "wt_workflowId t = w" "wt_tenantId t = tid" for t
    using wfInv_edges [OF inv that(1)] that new by auto
  ultimately have out: "outgoing ?db' T v ?s =
      map (renameEdge tid w old new) (outgoing db T v (ei_currentState inst))"
    using outgoing_cascade [of db1 w tid new T v "ei_currentState inst" old] by (simp add: db1 outgoing_def)
  have found': "select1 (isInstance T i) (db_instances ?db') = Some ?inst'"
    using found v inst by (auto simp: cascade_instance db1 isInstance_def)
  have ev: "loadActorContext ?db' = loadActorContext db"
    by (intro ext loadActorContext_cong) (simp add: cascadeRename_def Let_def db1)
  have ids': "ei_workflowId ?inst' = Some v" using v by simp
  show ?thesis
    unfolding available_ids [OF found v] available_ids [OF found' ids' v(2)] ev Let_def
    by (simp add: out filter_map comp_def)
qed

text \<open>
  Renaming a state does not strand anything: after a successful rename every user sees
  on every instance of every tenant the same transitions as before, the renamed state has its
  new name, and every transition, instance and rule still refers to states that exist.
\<close>
theorem rename_keeps_choices:
  assumes "updateWorkflowState env db tid w sid c inp = Inr (x, db')" and "wfInv db"
    and "us_name inp = Some new"
  shows "ws_name x = new \<and> wfInv db' \<and>
    map wt_id (getAvailableTransitions db' T i roles actor) =
      map wt_id (getAvailableTransitions db T i roles actor)"
proof -
  obtain st :: workflow_states_row and sts where st: "ws_name x = new"
    "if new = ws_name st then db' = db\<lparr>db_states := sts\<rparr>
     else new \<notin> namesOf db tid w \<and> db' = cascadeRename (db\<lparr>db_states := sts\<rparr>) tid w (ws_name st) new"
  proof -
    obtain st :: workflow_states_row where "let n = dflt (ws_name st) (us_name inp);
           db1 = db\<lparr>db_states := updateW (isStateRow tid w sid)
             (\<lambda>r. applyStateUpdates (if n = ws_name st then None else Some n) inp r) (db_states db)\<rparr>
       in ws_name x = n \<and> (if n = ws_name st then db' = db1
         else n \<notin> set (stateNames db tid w) \<and>
           (\<forall>t \<in> set (db_transitions db). wt_workflowId t = w \<longrightarrow> wt_tenantId t = tid \<longrightarrow>
              ws_name st \<notin> set (optCollectRuleStates (wt_conditions t))) \<and>
           db' = cascadeRename db1 tid w (ws_name st) n)"
      using updateWorkflowState_Inr [OF assms(1)] by blast
    then show ?thesis
      by (intro that [of st "updateW (isStateRow tid w sid)
          (applyStateUpdates (if new = ws_name st then None else Some new) inp) (db_states db)"])
        (auto simp: Let_def assms(3) namesOf_def split: if_splits)
  qed
  have "map wt_id (getAvailableTransitions db' T i roles actor) =
      map wt_id (getAvailableTransitions db T i roles actor)"
  proof (cases "new = ws_name st")
    case True
    then show ?thesis
      using st(2) by (simp add: getAvailableTransitions_states)
  next
    case False
    then show ?thesis
      using st(2) cascade_available [OF assms(2)] by auto
  qed
  then show ?thesis using st(1) wfInv_update_state [OF assms(2,1)] by simp
qed

theorem rename_keeps_choices_witness:
  "\<exists>x db'. updateWorkflowState demo_env demo_db ''t1'' ''w1'' ''s1'' demo_owner demo_rename = Inr (x, db') \<and>
     ws_name x = ''open'' \<and>
     map wt_id (getAvailableTransitions db' ''t1'' ''i1'' [''manager''] (Some ''bob'')) = [''tr1'']"
proof -
  obtain x db' where run:
    "updateWorkflowState demo_env demo_db ''t1'' ''w1'' ''s1'' demo_owner demo_rename = Inr (x, db')"
    by (rule demo_rename_done)
  have "map wt_id (getAvailableTransitions demo_db ''t1'' ''i1'' [''manager''] (Some ''bob'')) = [''tr1'']"
    by (simp add: wf_eval demo_defs getAvailableTransitions_def)
  then show ?thesis
    using rename_keeps_choices [OF run demo_wfInv, of "''open''" "''t1''" "''i1''" "[''manager'']" "Some ''bob''"] run
    by (auto simp: demo_rename_def)
qed

section \<open>Creating, deleting and listing\<close>

text \<open>
  An entity type is governed by one workflow of a tenant: a created workflow is the one
  found for its entity type, it is active, empty and administered by its creator, and as long
  as it is there a second one for the same entity type is refused.
\<close>
theorem createWorkflow_governs:
  assumes "createWorkflow env db tid creator inp = Inr (x, db')"
  shows "getWorkflowByEntityTypeId db' tid (cw_entityTypeId inp) = Some x \<and>
    wf_isActive x \<and> wf_createdBy x = Some creator \<and> wd_assignedTo x = [creator] \<and>
    db_states db' = db_states db \<and>
    (cw_entityTypeId inp' = cw_entityTypeId inp \<longrightarrow>
       createWorkflow env' db' tid creator' inp' = Inl (WorkflowError ENTITY_TYPE_ALREADY_GOVERNED
         [(''entityTypeId'', JStr (cw_entityTypeId inp))]))"
proof -
  note c = assms [unfolded createWorkflow_Inr]
  have "selectW (\<lambda>r. wf_entityTypeId r = cw_entityTypeId inp \<and> wf_tenantId r = Some tid) (db_workflows db) = []"
    using c by (auto simp: selectW_def filter_empty_conv)
  then have "selectW (\<lambda>r. wf_entityTypeId r = cw_entityTypeId inp \<and> wf_tenantId r = Some tid) (db_workflows db') =
      [newWorkflowRow env tid creator inp]"
    using c by (simp add: selectW_def insertRow_def newWorkflowRow_def)
  then have "getWorkflowByEntityTypeId db' tid (cw_entityTypeId inp) = Some x"
    using c by (simp add: getWorkflowByEntityTypeId_def)
  moreover have "createWorkflow env' db' tid creator' inp' = Inl (WorkflowError ENTITY_TYPE_ALREADY_GOVERNED
         [(''entityTypeId'', JStr (cw_entityTypeId inp))])" if "cw_entityTypeId inp' = cw_entityTypeId inp"
    using c that by (auto simp: createWorkflow_def Let_def list_ex_iff newWorkflowRow_def)
  ultimately show ?thesis
    using c by (auto simp: newWorkflowRow_def rowToWorkflow_def WorkflowCore.defs)
qed

theorem createWorkflow_governs_witness:
  "\<exists>x db'. createWorkflow demo_env demo_db ''t2'' ''eve'' \<lparr>cw_entityTypeId = ''et1'', cw_name = ''N'',
       cw_initialState = ''new''\<rparr> = Inr (x, db') \<and>
     getWorkflowByEntityTypeId db' ''t2'' ''et1'' = Some x"
proof -
  let ?inp = "\<lparr>cw_entityTypeId = ''et1'', cw_name = ''N'', cw_initialState = ''new''\<rparr>"
  have "\<not> isl (createWorkflow demo_env demo_db ''t2'' ''eve'' ?inp)"
    by (simp add: createWorkflow_def newWorkflowRow_def Let_def demo_defs)
  then obtain x db' where run: "createWorkflow demo_env demo_db ''t2'' ''eve'' ?inp = Inr (x, db')"
    using returns_pair by blast
  then show ?thesis
    using createWorkflow_governs [OF run, where inp' = ?inp and creator' = "''eve''" and env' = demo_env] by auto
qed

text \<open>
  Deleting a workflow leaves nothing of it behind: it succeeds only when no instance of
  the tenant is attached to it and nothing was ever recorded for it, and afterwards no state
  and no transition of any tenant belongs to it and it cannot be read, while every other
  workflow keeps its states, its transitions and its readers.
\<close>
theorem deleteWorkflow_clean:
  assumes "deleteWorkflow env db tid w c = Inr (u, db')" and "inj_on wf_id (set (db_workflows db))"
  shows "(\<forall>i \<in> set (db_instances db). ei_tenantId i = tid \<longrightarrow> ei_workflowId i \<noteq> Some w) \<and>
    (\<forall>e \<in> set (db_events db'). we_workflowId e \<noteq> w) \<and>
    (\<forall>r \<in> set (db_states db'). ws_workflowId r \<noteq> w) \<and>
    (\<forall>r \<in> set (db_transitions db'). wt_workflowId r \<noteq> w) \<and>
    getWorkflow db' T w caller = Inl (errWorkflow WORKFLOW_NOT_FOUND w) \<and>
    (w' \<noteq> w \<longrightarrow> getWorkflow db' T w' caller = getWorkflow db T w' caller)"
proof -
  note d = deleteWorkflow_Inr [OF assms(1)]
  obtain row where row: "row \<in> set (db_workflows db)" "isOwnedWorkflow tid w row"
    using assms(1) by (auto simp: deleteWorkflow_def result_simps dest!: findWorkflow_owned)
  have only: "isOwnedWorkflow tid w r" if "r \<in> set (db_workflows db)" "wf_id r = w" for r
    using inj_onD [OF assms(2), of r row] that row by (auto simp: isOwnedWorkflow_def)
  then have gone: "findWorkflow db' T w = None"
    using d by (auto simp: findWorkflow_def select1_None_iff)
  have "findWorkflow db' T w' = findWorkflow db T w'" if "w' \<noteq> w"
    using d that by (simp add: findWorkflow_def deleteW_def isOwnedWorkflow_def select1_filter)
  moreover have "statesOf db' T w' = statesOf db T w'" "transitionsOf db' T w' = transitionsOf db T w'"
    if "w' \<noteq> w"
    using d that by (simp_all add: statesOf_def transitionsOf_def selectW_def deleteW_def)
      (metis (mono_tags, lifting))+
  ultimately show ?thesis
    using d gone by (auto simp: getWorkflow_def)
qed

theorem deleteWorkflow_clean_witness:
  "\<exists>db'. deleteWorkflow demo_env (demo_db\<lparr>db_instances := []\<rparr>) ''t1'' ''w1'' demo_owner = Inr ((), db') \<and>
     (\<forall>r \<in> set (db_states db'). ws_workflowId r \<noteq> ''w1'') \<and>
     getWorkflow db' ''t1'' ''w1'' demo_owner = Inl (errWorkflow WORKFLOW_NOT_FOUND ''w1'')"
proof -
  let ?db = "demo_db\<lparr>db_instances := []\<rparr>"
  have "\<not> isl (deleteWorkflow demo_env ?db ''t1'' ''w1'' demo_owner)"
    by (simp add: crud_eval deleteWorkflow_def isWorkflowAdminListEditor_def)
  then obtain db' where run: "deleteWorkflow demo_env ?db ''t1'' ''w1'' demo_owner = Inr ((), db')"
    using returns_pair by fastforce
  have "inj_on wf_id (set (db_workflows ?db))" by (simp add: demo_defs)
  from deleteWorkflow_clean [OF run this, where T = "''t1''" and caller = demo_owner and w' = "''w1''"] run
  show ?thesis by blast
qed

lemma fold_groupPush:
  "dflt [] (fold (\<lambda>x m. groupPush m (k x) (f x)) xs m j) =
     dflt [] (m j) @ map f (filter (\<lambda>x. k x = j) xs)"
  by (induction xs arbitrary: m) (auto simp: groupPush_def)

lemma select1_inj_key:
  assumes "inj_on k (set t)" "r \<in> set t" "P r" "\<And>x. P x \<Longrightarrow> k x = k r"
  shows "select1 P t = Some r"
proof (cases "select1 P t")
  case None
  then show ?thesis using assms(2,3) by (simp add: select1_None_iff)
next
  case (Some x)
  then show ?thesis using assms by (metis inj_onD select1_Some)
qed

lemma set_listRows:
  "set (listRows db T et act limit offset) \<subseteq> {r \<in> set (db_workflows db). listFilter T et act r}"
proof
  fix r assume "r \<in> set (listRows db T et act limit offset)"
  from in_set_dropD [OF in_set_takeD [OF this [unfolded listRows_def]]]
  show "r \<in> {r \<in> set (db_workflows db). listFilter T et act r}" by simp
qed

text \<open>
  The list endpoint's three batched queries with their grouping agree with reading
  workflows one by one: every listed entry is, record count apart, what \<open>getWorkflow\<close> returns
  for its id, and the record count is the number of the tenant's instances attached to it.
\<close>
theorem listWorkflows_agrees:
  assumes "x \<in> set (listWorkflows db T c et act limit offset)"
    and "inj_on wf_id (set (db_workflows db))"
  shows "getWorkflow db T (wf_id x) c' = Inr (WorkflowFull.truncate x) \<and>
    wfl_recordCount x =
      length (filter (\<lambda>r. ei_workflowId r = Some (wf_id x) \<and> ei_tenantId r = T) (db_instances db))"
proof -
  define rows where "rows = listRows db T et act limit offset"
  define sts where "sts w = map rowToState (filter (\<lambda>s. ws_workflowId s = w)
    (sort_key (\<lambda>r. (ws_sortOrder r, ws_id r))
      (selectW (\<lambda>r. ws_workflowId r \<in> wf_id ` set rows \<and> ws_tenantId r = T) (db_states db))))" for w
  define trs where "trs w = map rowToTransition (filter (\<lambda>s. wt_workflowId s = w)
    (sort_key wt_sortOrder
      (selectW (\<lambda>r. wt_workflowId r \<in> wf_id ` set rows \<and> wt_tenantId r = T) (db_transitions db))))" for w
  have "x \<in> (\<lambda>row. WorkflowFull.extend (toFull row (sts (wf_id row)) (trs (wf_id row)))
      \<lparr>wfl_recordCount = length (selectW (\<lambda>r. ei_workflowId r = Some (wf_id row) \<and>
         ei_tenantId r = T) (db_instances db))\<rparr>) ` set rows"
    using assms(1) by (auto simp: listWorkflows_def Let_def fold_groupPush sts_def trs_def rows_def split: if_splits)
  then obtain row where row: "row \<in> set rows"
    and x: "x = WorkflowFull.extend (toFull row (sts (wf_id row)) (trs (wf_id row)))
      \<lparr>wfl_recordCount = length (selectW (\<lambda>r. ei_workflowId r = Some (wf_id row) \<and>
         ei_tenantId r = T) (db_instances db))\<rparr>" by blast
  have id: "wf_id x = wf_id row"
    by (simp add: x toFull_def rowToWorkflow_def WorkflowFull.defs WorkflowDefinition.defs WorkflowCore.defs)
  have "row \<in> set (db_workflows db)" "visibleTo T row"
    using row set_listRows unfolding rows_def by (fastforce simp: listFilter_def)+
  then have "findWorkflow db T (wf_id row) = Some row"
    unfolding findWorkflow_def by (intro select1_inj_key [OF assms(2)]) auto
  moreover have "sts (wf_id row) = map rowToState (statesOf db T (wf_id row))"
    unfolding sts_def statesOf_def filter_sort selectW_def filter_filter
    using row by (metis (mono_tags, lifting) image_eqI)
  moreover have "trs (wf_id row) = map rowToTransition (transitionsOf db T (wf_id row))"
    unfolding trs_def transitionsOf_def filter_sort selectW_def filter_filter
    using row by (metis (mono_tags, lifting) image_eqI)
  moreover have "WorkflowFull.truncate x = toFull row (sts (wf_id row)) (trs (wf_id row))"
    by (simp add: x WorkflowFull.defs)
  ultimately show ?thesis
    by (simp add: getWorkflow_def id) (simp add: x WorkflowFull.defs selectW_def)
qed

theorem listWorkflows_agrees_witness:
  "\<exists>x \<in> set (listWorkflows demo_db ''t1'' demo_owner None False 500 0).
     getWorkflow demo_db ''t1'' ''w1'' demo_owner = Inr (WorkflowFull.truncate x) \<and> wfl_recordCount x = 1"
proof -
  let ?l = "listWorkflows demo_db ''t1'' demo_owner None False 500 0"
  have ids: "map wf_id ?l = [''w1'']" "map wfl_recordCount ?l = [1]"
    by (simp_all add: listWorkflows_def listRows_def listFilter_def visibleTo_def selectW_def Let_def
        demo_defs toFull_def rowToWorkflow_def WorkflowFull.defs WorkflowDefinition.defs WorkflowCore.defs)
  then obtain x where x: "x \<in> set ?l" "wf_id x = ''w1''" by (cases ?l) auto
  have "inj_on wf_id (set (db_workflows demo_db))" by (simp add: demo_defs)
  from listWorkflows_agrees [OF x(1) this, of demo_owner] x ids show ?thesis by (cases ?l) auto
qed

end
