(* ===== verification/EntityAccess.thy ===== *)
theory EntityAccess
  imports WfCrud WfEngineProps
begin

text \<open>
  Record-level access (\<open>packages/workflow-engine/src/entity-access.ts\<close>) and the history
  lines written when access or files change (\<open>emit-access-event.ts\<close>). An emission never
  throws: whichever of its statements fails, the caller goes on, so it is a function from
  database to database with the failing statements as a parameter.
\<close>

section \<open>Access checks\<close>

text \<open>
  The expressions \<open>v[k]\<close> and \<open>v?.level\<close>. The members that arrays, strings and functions
  inherit have no property \<open>level\<close>, so for the access checks \<open>undefined\<close> stands for them.
\<close>

fun propertyOf :: "jsval \<Rightarrow> string \<Rightarrow> jsval" where
  "propertyOf (JObj o1) k = objGet o1 k"
| "propertyOf (JArr xs) k =
     (case List.find (\<lambda>i. decDigits i = k) [0..<length xs] of None \<Rightarrow> JUndefined | Some i \<Rightarrow> xs ! i)"
| "propertyOf _ k = JUndefined"

fun levelOf :: "jsval \<Rightarrow> jsval" where
  "levelOf (JObj o1) = objGet o1 ''level''"
| "levelOf _ = JUndefined"

definition accessUsers :: "jsobj \<Rightarrow> jsval" where
  "accessUsers flds =
     (case objGet flds ''__accessUsers'' of JNull \<Rightarrow> JObj [] | JUndefined \<Rightarrow> JObj [] | v \<Rightarrow> v)"

definition isStaff :: "string list \<Rightarrow> bool" where
  "isStaff roles = (''admin'' \<in> set roles \<or> ''agent'' \<in> set roles)"

definition ownsInstance :: "entity_instances_row \<Rightarrow> string \<Rightarrow> bool" where
  "ownsInstance inst userId = (ei_createdBy inst = Some userId \<or> ei_assignedTo inst = Some userId)"

definition hasEntityReadAccess :: "entity_instances_row \<Rightarrow> string \<Rightarrow> string list \<Rightarrow> bool" where
  "hasEntityReadAccess inst userId roles =
     (if isStaff roles then True
      else if ownsInstance inst userId then True
      else (let level = levelOf (propertyOf (accessUsers (ei_fields inst)) userId)
            in level = JStr ''read_only'' \<or> level = JStr ''read_comment'' \<or> level = JStr ''read_write''))"

definition hasEntityCommentAccess :: "entity_instances_row \<Rightarrow> string \<Rightarrow> string list \<Rightarrow> bool" where
  "hasEntityCommentAccess inst userId roles =
     (if isStaff roles then True
      else if ownsInstance inst userId then True
      else (let level = levelOf (propertyOf (accessUsers (ei_fields inst)) userId)
            in level = JStr ''read_comment'' \<or> level = JStr ''read_write''))"

text \<open>Adding to a \<open>Set\<close>; elements that are objects are never the same reference.\<close>

definition setAdd :: "jsval \<Rightarrow> jsval list \<Rightarrow> jsval list" where
  "setAdd v ids = (if list_ex (strictEq v) ids then ids else ids @ [v])"

definition addUser :: "string option \<Rightarrow> jsval list \<Rightarrow> jsval list" where
  "addUser u ids = (case u of None \<Rightarrow> ids | Some x \<Rightarrow> if x = '''' then ids else setAdd (JStr x) ids)"

definition explicitAccessListUserIds :: "entity_instances_row \<Rightarrow> string \<Rightarrow> jsval list" where
  "explicitAccessListUserIds inst unionUserId =
     (let ids = addUser (ei_assignedTo inst) (addUser (ei_createdBy inst) []);
          ids1 = (case accessUsers (ei_fields inst) of
                    JArr xs \<Rightarrow> fold setAdd xs ids
                  | JObj o1 \<Rightarrow> fold setAdd (map (\<lambda>p. JStr (fst p)) o1) ids
                  | _ \<Rightarrow> ids)
      in setAdd (JStr unionUserId) ids1)"

definition workflowAdminOf :: "wf_db \<Rightarrow> string \<Rightarrow> string option \<Rightarrow> string \<Rightarrow> failure + bool" where
  "workflowAdminOf db tenantId workflowId userId =
     (case workflowId of
        None \<Rightarrow> Inr False
      | Some w \<Rightarrow> if w = '''' then Inr False
          else bindE (getWorkflow db tenantId w \<lparr>wc_userId = userId, wc_isGlobalAdmin = False\<rparr>)
            (\<lambda>wf. Inr (isWorkflowAdmin userId (wf_createdBy wf) (wd_assignedTo wf))))"

definition hasEntityAccess ::
  "wf_db \<Rightarrow> string \<Rightarrow> entity_instances_row \<Rightarrow> string \<Rightarrow> string list \<Rightarrow> failure + bool" where
  "hasEntityAccess db tenantId inst userId roles =
     (if hasEntityReadAccess inst userId roles then Inr True
      else workflowAdminOf db tenantId (ei_workflowId inst) userId)"

definition hasEntityCommentAccessFull ::
  "wf_db \<Rightarrow> string \<Rightarrow> entity_instances_row \<Rightarrow> string \<Rightarrow> string list \<Rightarrow> failure + bool" where
  "hasEntityCommentAccessFull db tenantId inst userId roles =
     (if hasEntityCommentAccess inst userId roles then Inr True
      else workflowAdminOf db tenantId (ei_workflowId inst) userId)"

section \<open>History lines\<close>

record entity_relations_row =
  er_fromInstanceId :: string
  er_toInstanceId :: string
  er_tenantId :: string
  er_relationType :: string
  er_deletedAt :: "date option"

definition truthyId :: "string option \<Rightarrow> string option" where
  "truthyId x = (case x of Some (c # cs) \<Rightarrow> Some (c # cs) | _ \<Rightarrow> None)"

definition resolveWorkflowContext ::
  "wf_db \<Rightarrow> entity_relations_row list \<Rightarrow> string \<Rightarrow> string \<Rightarrow> (string \<times> string) option" where
  "resolveWorkflowContext db rels tenantId instanceId =
     (case select1 (isInstance tenantId instanceId) (db_instances db) of
        None \<Rightarrow> None
      | Some row \<Rightarrow>
          (let workflowId =
             (case truthyId (ei_workflowId row) of
                Some w \<Rightarrow> Some w
              | None \<Rightarrow>
                  (case select1 (\<lambda>r. er_fromInstanceId r = instanceId \<and> er_tenantId r = tenantId \<and>
                           er_relationType r = ''child_of'' \<and> er_deletedAt r = None) rels of
                     None \<Rightarrow> None
                   | Some rel \<Rightarrow> Option.bind
                       (select1 (isInstance tenantId (er_toInstanceId rel)) (db_instances db))
                       (\<lambda>parent. truthyId (ei_workflowId parent))))
           in map_option (\<lambda>w. (w, ei_currentState row)) workflowId))"

record emit_faults =
  ef_resolveFails :: bool
  ef_eventFails :: bool
  ef_outboxFails :: bool

definition historyRow ::
  "wf_env \<Rightarrow> string \<Rightarrow> string \<Rightarrow> string \<times> string \<Rightarrow> string \<Rightarrow> jsobj \<Rightarrow> workflow_events_row" where
  "historyRow env tenantId instanceId ctx actorId metadata =
     \<lparr>we_id = env_rowId env 0, we_instanceId = instanceId, we_workflowId = fst ctx,
      we_fromState = Some (snd ctx), we_toState = snd ctx, we_triggeredBy = TrigUser,
      we_actorId = Some actorId, we_comment = None, we_metadata = metadata,
      we_createdAt = env_dbNow env, we_originMechanism = None, we_originOidcClientId = None,
      we_originPerformerUserId = None, we_tenantId = tenantId, we_idempotencyKey = None\<rparr>"

text \<open>The part the four writers share; \<open>None\<close> when nothing was written.\<close>

definition writeHistory ::
  "wf_env \<Rightarrow> emit_faults \<Rightarrow> wf_db \<Rightarrow> entity_relations_row list \<Rightarrow> string \<Rightarrow> string \<Rightarrow> string \<Rightarrow> jsobj \<Rightarrow>
   wf_db option" where
  "writeHistory env faults db rels tenantId instanceId actorId metadata =
     (if ef_resolveFails faults then None
      else (case resolveWorkflowContext db rels tenantId instanceId of
              None \<Rightarrow> None
            | Some ctx \<Rightarrow> if ef_eventFails faults then None
                else Some (db\<lparr>db_events := insertRow
                  (historyRow env tenantId instanceId ctx actorId metadata) (db_events db)\<rparr>)))"

datatype AccessEventType = Access_grant | Access_update | Access_revoke | Access_reject

fun accessTypeText :: "AccessEventType \<Rightarrow> string" where
  "accessTypeText Access_grant = ''access_grant''"
| "accessTypeText Access_update = ''access_update''"
| "accessTypeText Access_revoke = ''access_revoke''"
| "accessTypeText Access_reject = ''access_reject''"

record AccessEventPayload =
  ap_type :: AccessEventType
  ap_targetUserId :: string
  ap_targetDisplayName :: "string option option"
  ap_level :: "string option"
  ap_oldLevel :: "string option"
  ap_tag :: "string option"

definition optField :: "string \<Rightarrow> string option \<Rightarrow> jsobj" where
  "optField k x = (case x of None \<Rightarrow> [] | Some s \<Rightarrow> [(k, JStr s)])"

definition accessMetadata :: "AccessEventPayload \<Rightarrow> jsobj" where
  "accessMetadata p =
     [(''type'', JStr (accessTypeText (ap_type p))), (''targetUserId'', JStr (ap_targetUserId p))]
     @ (case ap_targetDisplayName p of None \<Rightarrow> [] | Some n \<Rightarrow> [(''targetDisplayName'', jsOpt n)])
     @ optField ''level'' (ap_level p) @ optField ''oldLevel'' (ap_oldLevel p) @ optField ''tag'' (ap_tag p)"

fun notificationEventType :: "AccessEventType \<Rightarrow> string option" where
  "notificationEventType Access_grant = Some ''access.granted''"
| "notificationEventType Access_revoke = Some ''access.revoked''"
| "notificationEventType Access_update = Some ''access.updated''"
| "notificationEventType Access_reject = None"

definition accessOutboxRow ::
  "wf_env \<Rightarrow> string \<Rightarrow> string \<Rightarrow> string \<Rightarrow> AccessEventPayload \<Rightarrow> string \<Rightarrow> outbox_events_row" where
  "accessOutboxRow env tenantId instanceId actorId p ty =
     \<lparr>ob_id = env_rowId env 1, ob_tenantId = tenantId, ob_eventType = ty, ob_version = 1,
      ob_payload = [(''eventType'', JStr ty), (''version'', JNum 1), (''tenantId'', JStr tenantId),
        (''instanceId'', JStr instanceId), (''actorId'', JStr actorId),
        (''targetUserId'', JStr (ap_targetUserId p))],
      ob_createdAt = env_dbNow env, ob_deliveredAt = None\<rparr>"

definition emitAccessEvent ::
  "wf_env \<Rightarrow> emit_faults \<Rightarrow> wf_db \<Rightarrow> entity_relations_row list \<Rightarrow> string \<Rightarrow> string \<Rightarrow> string \<Rightarrow>
   AccessEventPayload \<Rightarrow> wf_db" where
  "emitAccessEvent env faults db rels tenantId instanceId actorId p =
     (case writeHistory env faults db rels tenantId instanceId actorId (accessMetadata p) of
        None \<Rightarrow> db
      | Some db1 \<Rightarrow> (case notificationEventType (ap_type p) of
          None \<Rightarrow> db1
        | Some ty \<Rightarrow> if ef_outboxFails faults then db1
            else db1\<lparr>db_outbox := insertRow
              (accessOutboxRow env tenantId instanceId actorId p ty) (db_outbox db1)\<rparr>))"

definition emitAccessRequestSubmitted ::
  "wf_env \<Rightarrow> emit_faults \<Rightarrow> wf_db \<Rightarrow> entity_relations_row list \<Rightarrow> string \<Rightarrow> string \<Rightarrow> string \<Rightarrow>
   string \<Rightarrow> wf_db" where
  "emitAccessRequestSubmitted env faults db rels tenantId instanceId requesterId requestedLevel =
     dflt db (writeHistory env faults db rels tenantId instanceId requesterId
       [(''type'', JStr ''access_request''), (''level'', JStr requestedLevel)])"

definition emitFileDownloaded ::
  "wf_env \<Rightarrow> emit_faults \<Rightarrow> wf_db \<Rightarrow> entity_relations_row list \<Rightarrow> string \<Rightarrow> string \<Rightarrow> string \<Rightarrow>
   string \<Rightarrow> string \<Rightarrow> wf_db" where
  "emitFileDownloaded env faults db rels tenantId instanceId actorId fileId originalName =
     dflt db (writeHistory env faults db rels tenantId instanceId actorId
       [(''type'', JStr ''file_downloaded''), (''fileId'', JStr fileId), (''originalName'', JStr originalName)])"

definition emitFileDeleted ::
  "wf_env \<Rightarrow> emit_faults \<Rightarrow> wf_db \<Rightarrow> entity_relations_row list \<Rightarrow> string \<Rightarrow> string \<Rightarrow> string \<Rightarrow>
   string \<Rightarrow> string \<Rightarrow> wf_db" where
  "emitFileDeleted env faults db rels tenantId instanceId actorId fileId originalName =
     dflt db (writeHistory env faults db rels tenantId instanceId actorId
       [(''type'', JStr ''file_deleted''), (''fileId'', JStr fileId), (''originalName'', JStr originalName)])"

section \<open>Reading and commenting\<close>

text \<open>
  The two access checks, written out separately in the source, stay in step: whoever may
  comment may read, through the record itself or as an administrator of its workflow, and the
  only user who may read but not comment is one whose sole grant on the record is
  \<open>read_only\<close>.
\<close>
theorem comment_access_implies_read:
  "(hasEntityCommentAccessFull db T inst u roles = Inr True \<longrightarrow> hasEntityAccess db T inst u roles = Inr True) \<and>
   (hasEntityReadAccess inst u roles \<and> \<not> hasEntityCommentAccess inst u roles \<longleftrightarrow>
      \<not> isStaff roles \<and> \<not> ownsInstance inst u \<and>
      levelOf (propertyOf (accessUsers (ei_fields inst)) u) = JStr ''read_only'')"
  by (auto simp: hasEntityCommentAccessFull_def hasEntityAccess_def hasEntityCommentAccess_def
      hasEntityReadAccess_def Let_def)

theorem comment_access_implies_read_witness:
  "hasEntityCommentAccessFull demo_db ''t1'' (hd (db_instances demo_db)) ''olga'' [] = Inr True \<and>
   hasEntityAccess demo_db ''t1'' (hd (db_instances demo_db)) ''olga'' [] = Inr True"
proof -
  have "hasEntityCommentAccessFull demo_db ''t1'' (hd (db_instances demo_db)) ''olga'' [] = Inr True"
    by (simp add: demo_defs hasEntityCommentAccessFull_def hasEntityCommentAccess_def isStaff_def
        ownsInstance_def accessUsers_def objGet_def objectPrototypeKeys_def workflowAdminOf_def
        getWorkflow_def findWorkflow_def select1_def visibleTo_def isWorkflowAdmin_def toFull_def
        WorkflowDefinition.defs rowToWorkflow_def WorkflowCore.defs)
  then show ?thesis using comment_access_implies_read by blast
qed

lemma strictEq_any_mem: "list_ex (strictEq (JStr s)) ids = (JStr s \<in> set ids)"
proof -
  have "strictEq (JStr s) v = (v = JStr s)" for v by (cases v) auto
  then show ?thesis by (auto simp: list_ex_iff)
qed

lemma set_setAdd_JStr [simp]: "set (setAdd (JStr s) ids) = insert (JStr s) (set ids)"
  by (auto simp: setAdd_def strictEq_any_mem)

lemma setAdd_mono: "set ids \<subseteq> set (setAdd v ids)"
  by (auto simp: setAdd_def)

lemma fold_setAdd_mono: "set ids \<subseteq> set (fold setAdd vs ids)"
  using setAdd_mono by (induction vs arbitrary: ids) fastforce+

lemma set_fold_setAdd_JStr: "set (fold setAdd (map (\<lambda>p. JStr (fst p)) o1) ids) = set ids \<union> (JStr \<circ> fst) ` set o1"
  by (induction o1 arbitrary: ids) auto

lemma addUser_mem: "x \<noteq> '''' \<Longrightarrow> JStr x \<in> set (addUser (Some x) ids)"
  by (simp add: addUser_def)

lemma addUser_mono: "set ids \<subseteq> set (addUser u ids)"
  by (auto simp: addUser_def split: option.splits)

text \<open>
  Alerts reach everyone tied to a ticket: each user who can read an instance in their own
  right, that is without a staff role, is on its explicit access list, and so is the user the
  caller adds. (An access list in the old array form grants nothing and is copied as it is.)
\<close>
theorem explicit_list_covers_readers:
  assumes "hasEntityReadAccess inst u roles" and "\<not> isStaff roles" and "u \<noteq> ''''"
    and "\<forall>xs. accessUsers (ei_fields inst) \<noteq> JArr xs"
  shows "JStr u \<in> set (explicitAccessListUserIds inst v) \<and> JStr v \<in> set (explicitAccessListUserIds inst v)"
proof -
  let ?ids = "addUser (ei_assignedTo inst) (addUser (ei_createdBy inst) [])"
  have base: "set ?ids \<subseteq> set (explicitAccessListUserIds inst v)"
    using fold_setAdd_mono by (auto simp: explicitAccessListUserIds_def Let_def split: jsval.splits)
  have "JStr u \<in> set (explicitAccessListUserIds inst v)"
  proof (cases "ownsInstance inst u")
    case True
    then have "JStr u \<in> set ?ids"
      using addUser_mem [OF assms(3)] addUser_mono by (fastforce simp: ownsInstance_def)
    then show ?thesis using base by blast
  next
    case False
    then have lev: "levelOf (propertyOf (accessUsers (ei_fields inst)) u) \<in> JStr ` UNIV"
      using assms(1,2) by (auto simp: hasEntityReadAccess_def Let_def)
    then obtain o1 where o1: "accessUsers (ei_fields inst) = JObj o1"
      using assms(4) by (cases "accessUsers (ei_fields inst)") auto
    then have "u \<in> fst ` set o1"
      using lev by (auto simp: objGet_def map_of_eq_None_iff split: option.splits if_splits)
        (metis fst_conv image_iff map_of_SomeD)
    then show ?thesis
      by (auto simp: explicitAccessListUserIds_def Let_def o1 set_fold_setAdd_JStr)
  qed
  then show ?thesis by (simp add: explicitAccessListUserIds_def Let_def)
qed

definition demo_shared :: entity_instances_row where
  "demo_shared = (hd (db_instances demo_db))\<lparr>ei_fields := [(''__accessUsers'',
     JObj [(''frida'', JObj [(''level'', JStr ''read_only'')])])]\<rparr>"

theorem explicit_list_covers_readers_witness:
  "hasEntityReadAccess demo_shared ''frida'' [''user''] \<and>
   JStr ''frida'' \<in> set (explicitAccessListUserIds demo_shared ''gus'')"
proof -
  have "hasEntityReadAccess demo_shared ''frida'' [''user'']"
    by (simp add: demo_shared_def demo_defs hasEntityReadAccess_def isStaff_def ownsInstance_def
        accessUsers_def objGet_def)
  moreover from this have "JStr ''frida'' \<in> set (explicitAccessListUserIds demo_shared ''gus'') \<and>
      JStr ''gus'' \<in> set (explicitAccessListUserIds demo_shared ''gus'')"
    by (rule explicit_list_covers_readers)
      (simp_all add: isStaff_def demo_shared_def demo_defs accessUsers_def objGet_def)
  ultimately show ?thesis by blast
qed

section \<open>History lines do not count as work\<close>

definition isHistoryOf :: "wf_db \<Rightarrow> string \<Rightarrow> string \<Rightarrow> workflow_events_row \<Rightarrow> bool" where
  "isHistoryOf db T i e \<longleftrightarrow> we_tenantId e = T \<and> we_instanceId e = i \<and>
     we_fromState e = Some (we_toState e) \<and>
     map_option ei_currentState (select1 (isInstance T i) (db_instances db)) = Some (we_toState e)"

text \<open>The contract of a writer of history lines.\<close>

locale history_writer =
  fixes emit :: "wf_env \<Rightarrow> emit_faults \<Rightarrow> wf_db \<Rightarrow> entity_relations_row list \<Rightarrow> string \<Rightarrow> string \<Rightarrow> 'req \<Rightarrow> wf_db"
  assumes writes: "\<exists>es os. emit env faults db rels T i req =
      db\<lparr>db_events := db_events db @ es, db_outbox := db_outbox db @ os\<rparr> \<and>
      length es < 2 \<and> (\<forall>e \<in> set es. isHistoryOf db T i e) \<and> (\<forall>r \<in> set os. ob_eventType r \<noteq> slaScheduled)"
begin

lemma keeps_priorActors:
  "priorActorRows (emit env faults db rels T i req) T' j = priorActorRows db T' j"
proof -
  obtain es os where emit: "emit env faults db rels T i req =
      db\<lparr>db_events := db_events db @ es, db_outbox := db_outbox db @ os\<rparr>"
    and es: "\<forall>e \<in> set es. isHistoryOf db T i e"
    using writes by blast
  have "filter (isStateChangeBy T' j) es = []"
    using es by (auto simp: filter_empty_conv isStateChangeBy_def isHistoryOf_def)
  then show ?thesis by (simp add: emit priorActorRows_def selectW_def)
qed

lemma keeps_actor_context:
  "loadActorContext (emit env faults db rels T i req) T' j cb a trees = loadActorContext db T' j cb a trees"
  by (simp only: loadActorContext_def keeps_priorActors)

lemma keeps_log:
  assumes "logConsistent T' db"
  shows "logConsistent T' (emit env faults db rels T i req)"
proof -
  obtain es os where emit: "emit env faults db rels T i req =
      db\<lparr>db_events := db_events db @ es, db_outbox := db_outbox db @ os\<rparr>"
    and short: "length es < 2" and es: "\<forall>e \<in> set es. isHistoryOf db T i e"
    using writes by blast
  show ?thesis
    unfolding logConsistent_def
  proof (intro allI impI)
    fix j s
    assume "map_option ei_currentState
      (select1 (isInstance T' j) (db_instances (emit env faults db rels T i req))) = Some s"
    then have cur: "map_option ei_currentState (select1 (isInstance T' j) (db_instances db)) = Some s"
      by (simp add: emit)
    then obtain s0 where s0: "replayLog s0 (instanceLog db T' j) = Some s"
      using assms by (auto simp: logConsistent_def)
    show "\<exists>s0. replayLog s0 (instanceLog (emit env faults db rels T i req) T' j) = Some s"
    proof (cases es)
      case Nil
      then show ?thesis using s0 by (auto simp: emit instanceLog_def)
    next
      case (Cons e rest)
      then have "es = [e]" using short by simp
      then show ?thesis
        using s0 es cur replayLog_snoc [OF s0, of s]
        by (auto simp: emit instanceLog_def isHistoryOf_def)
    qed
  qed
qed

lemma keeps_timers: "pendingTimers (emit env faults db rels T i req) T' j = pendingTimers db T' j"
proof -
  obtain es os where emit: "emit env faults db rels T i req =
      db\<lparr>db_events := db_events db @ es, db_outbox := db_outbox db @ os\<rparr>"
    and os: "\<forall>r \<in> set os. ob_eventType r \<noteq> slaScheduled"
    using writes by blast
  then show ?thesis by (auto simp: pendingTimers_def filter_empty_conv)
qed

lemma keeps_available:
  "getAvailableTransitions (emit env faults db rels T i req) T' j roles actor =
   getAvailableTransitions db T' j roles actor"
proof -
  have "db_instances (emit env faults db rels T i req) = db_instances db"
    "db_transitions (emit env faults db rels T i req) = db_transitions db"
    using writes [of env faults db rels T i req] by auto
  then show ?thesis
    by (simp add: getAvailableTransitions_def keeps_actor_context Let_def cong: option.case_cong list.case_cong)
qed

end

lemma resolveWorkflowContext_state:
  "resolveWorkflowContext db rels T i = Some ctx \<Longrightarrow>
   map_option ei_currentState (select1 (isInstance T i) (db_instances db)) = Some (snd ctx)"
  by (auto simp: resolveWorkflowContext_def Let_def split: option.splits)

lemma historyRow_isHistory:
  "resolveWorkflowContext db rels T i = Some ctx \<Longrightarrow> isHistoryOf db T i (historyRow env T i ctx a m)"
  using resolveWorkflowContext_state by (simp add: isHistoryOf_def historyRow_def)

lemma writeHistory_cases:
  obtains "writeHistory env faults db rels T i a m = None"
  | e where "isHistoryOf db T i e"
      and "writeHistory env faults db rels T i a m = Some (db\<lparr>db_events := db_events db @ [e]\<rparr>)"
proof (cases "ef_resolveFails faults \<or> ef_eventFails faults \<or> resolveWorkflowContext db rels T i = None")
  case True
  then have "writeHistory env faults db rels T i a m = None"
    by (auto simp: writeHistory_def split: option.splits)
  then show ?thesis by (rule that)
next
  case False
  then obtain ctx where "resolveWorkflowContext db rels T i = Some ctx" by auto
  with False show ?thesis
    by (intro that(2) [OF historyRow_isHistory]) (auto simp: writeHistory_def insertRow_def)
qed

lemma dflt_writeHistory:
  "\<exists>es os. dflt db (writeHistory env faults db rels T i a m) =
      db\<lparr>db_events := db_events db @ es, db_outbox := db_outbox db @ os\<rparr> \<and>
      length es < 2 \<and> (\<forall>e \<in> set es. isHistoryOf db T i e) \<and> (\<forall>r \<in> set os. ob_eventType r \<noteq> slaScheduled)"
proof (rule writeHistory_cases [of env faults db rels T i a m])
  assume "writeHistory env faults db rels T i a m = None"
  then show ?thesis by (intro exI [of _ "[]"]) simp
next
  fix e assume "isHistoryOf db T i e"
    and "writeHistory env faults db rels T i a m = Some (db\<lparr>db_events := db_events db @ [e]\<rparr>)"
  then show ?thesis by (intro exI [of _ "[e]"] exI [of _ "[]"]) simp
qed

interpretation access_writer: history_writer
  "\<lambda>env faults db rels T i (actor, p). emitAccessEvent env faults db rels T i actor p"
proof
  fix env faults db rels T i and req :: "string \<times> AccessEventPayload"
  obtain actor p where req: "req = (actor, p)" by (cases req)
  have ty: "ty \<noteq> slaScheduled" if "notificationEventType (ap_type p) = Some ty" for ty
    using that by (cases "ap_type p") (auto simp: slaScheduled_def)
  show "\<exists>es os. (case req of (actor, p) \<Rightarrow> emitAccessEvent env faults db rels T i actor p) =
      db\<lparr>db_events := db_events db @ es, db_outbox := db_outbox db @ os\<rparr> \<and>
      length es < 2 \<and> (\<forall>e \<in> set es. isHistoryOf db T i e) \<and> (\<forall>r \<in> set os. ob_eventType r \<noteq> slaScheduled)"
  proof (rule writeHistory_cases [of env faults db rels T i actor "accessMetadata p"])
    assume "writeHistory env faults db rels T i actor (accessMetadata p) = None"
    then show ?thesis
      by (intro exI [of _ "[]"]) (simp add: req emitAccessEvent_def)
  next
    fix e assume e: "isHistoryOf db T i e"
      and w: "writeHistory env faults db rels T i actor (accessMetadata p) =
        Some (db\<lparr>db_events := db_events db @ [e]\<rparr>)"
    define os where "os = (case notificationEventType (ap_type p) of None \<Rightarrow> []
      | Some ty \<Rightarrow> if ef_outboxFails faults then [] else [accessOutboxRow env T i actor p ty])"
    have "emitAccessEvent env faults db rels T i actor p =
        db\<lparr>db_events := db_events db @ [e], db_outbox := db_outbox db @ os\<rparr>"
      by (simp add: emitAccessEvent_def w os_def insertRow_def split: option.splits)
    moreover have "\<forall>r \<in> set os. ob_eventType r \<noteq> slaScheduled"
      using ty by (auto simp: os_def accessOutboxRow_def split: option.splits)
    ultimately show ?thesis
      using e by (intro exI [of _ "[e]"] exI [of _ os]) (simp add: req)
  qed
qed

interpretation request_writer: history_writer
  "\<lambda>env faults db rels T i (actor, level). emitAccessRequestSubmitted env faults db rels T i actor level"
  by unfold_locales (auto simp: emitAccessRequestSubmitted_def dflt_writeHistory split: prod.split)

interpretation download_writer: history_writer
  "\<lambda>env faults db rels T i (actor, file, name). emitFileDownloaded env faults db rels T i actor file name"
  by unfold_locales (auto simp: emitFileDownloaded_def dflt_writeHistory split: prod.split)

interpretation delete_writer: history_writer
  "\<lambda>env faults db rels T i (actor, file, name). emitFileDeleted env faults db rels T i actor file name"
  by unfold_locales (auto simp: emitFileDeleted_def dflt_writeHistory split: prod.split)

text \<open>
  Recording that access was granted, changed, revoked or rejected, in whatever way its
  statements may fail, is not work on the record: nobody becomes a prior actor for the
  segregation rules by it, everyone is offered the same transitions as before, a log that
  replayed to the current state still does, and no timer starts or stops.
\<close>
theorem access_event_is_neutral:
  "getAvailableTransitions (emitAccessEvent env faults db rels T i actor p) T' j roles a =
     getAvailableTransitions db T' j roles a \<and>
   loadActorContext (emitAccessEvent env faults db rels T i actor p) T' j cb a trees =
     loadActorContext db T' j cb a trees \<and>
   (logConsistent T' db \<longrightarrow> logConsistent T' (emitAccessEvent env faults db rels T i actor p)) \<and>
   pendingTimers (emitAccessEvent env faults db rels T i actor p) T' j = pendingTimers db T' j"
  using access_writer.keeps_available [where req = "(actor, p)"]
    access_writer.keeps_actor_context [where req = "(actor, p)"]
    access_writer.keeps_log [where req = "(actor, p)"]
    access_writer.keeps_timers [where req = "(actor, p)"]
  by simp

definition demo_grant :: AccessEventPayload where
  "demo_grant = \<lparr>ap_type = Access_grant, ap_targetUserId = ''frida'', ap_targetDisplayName = None,
     ap_level = Some ''read_only'', ap_oldLevel = None, ap_tag = None\<rparr>"

definition no_faults :: emit_faults where
  "no_faults = \<lparr>ef_resolveFails = False, ef_eventFails = False, ef_outboxFails = False\<rparr>"

theorem access_event_is_neutral_witness:
  "logConsistent ''t1'' demo_db \<and>
   length (db_events (emitAccessEvent demo_env no_faults demo_db [] ''t1'' ''i1'' ''bob'' demo_grant)) = 1 \<and>
   logConsistent ''t1'' (emitAccessEvent demo_env no_faults demo_db [] ''t1'' ''i1'' ''bob'' demo_grant)"
proof -
  have "logConsistent ''t1'' demo_db"
    by (simp add: logConsistent_def instanceLog_def demo_db_def empty_db_def)
  moreover have "length (db_events (emitAccessEvent demo_env no_faults demo_db [] ''t1'' ''i1'' ''bob'' demo_grant)) = 1"
    by (simp add: emitAccessEvent_def writeHistory_def resolveWorkflowContext_def demo_grant_def no_faults_def
        demo_defs select1_def isInstance_def truthyId_def Let_def insertRow_def)
  ultimately show ?thesis using access_event_is_neutral by blast
qed

end
