(* ===== verification/Rotation.thy ===== *)
theory Rotation
  imports JsValue
begin

text \<open>
  The on-call rotation (\<open>packages/teams/src/rotation.ts\<close>): who takes over next, which
  windows are due, and the projection shown to the team. All of it is pure; a date is its
  number of milliseconds. A limit that \<open>Date.parse\<close> makes \<open>NaN\<close> compares as false on
  both sides, so it is kept apart from no limit.
\<close>

section \<open>Constants and data\<close>

definition ROTATION_MAX_STEPS_PER_RUN :: nat where
  "ROTATION_MAX_STEPS_PER_RUN = 52"

definition DAY_MS :: int where
  "DAY_MS = 24 * 60 * 60 * 1000"

definition ROTATION_NOTICE_LEAD_MS :: int where
  "ROTATION_NOTICE_LEAD_MS = 2 * DAY_MS"

record RotationHolders =
  rh_primary :: "string option"
  rh_backup :: "string option"

record NextAssignment =
  na_primary :: string
  na_backup :: "string option"

record GeneratedWindow =
  gw_startsAt :: date
  gw_endsAt :: date
  gw_primary :: string
  gw_backup :: "string option"
  gw_escalationManager :: "string option"

section \<open>Handing over\<close>

text \<open>\<open>previous ? members.indexOf(previous) : -1\<close>, with \<open>None\<close> for \<open>-1\<close>.\<close>

fun indexOf :: "string list \<Rightarrow> string \<Rightarrow> nat option" where
  "indexOf [] x = None"
| "indexOf (y # ys) x = (if y = x then Some 0 else map_option Suc (indexOf ys x))"

definition indexOfHolder :: "string list \<Rightarrow> string option \<Rightarrow> nat option" where
  "indexOfHolder members holder =
     (case holder of None \<Rightarrow> None | Some h \<Rightarrow> if h = '''' then None else indexOf members h)"

definition handoverIdx :: "string list \<Rightarrow> string option \<Rightarrow> nat" where
  "handoverIdx members holder =
     (case indexOfHolder members holder of None \<Rightarrow> 0 | Some i \<Rightarrow> (i + 1) mod length members)"

definition nextAssignment :: "string list \<Rightarrow> RotationHolders \<Rightarrow> NextAssignment option" where
  "nextAssignment members previous =
     (let n = length members in
      if n = 0 then None
      else (let primaryIdx = handoverIdx members (rh_primary previous);
                primary = members ! primaryIdx
            in if n = 1 then Some \<lparr>na_primary = primary, na_backup = None\<rparr>
               else (let backupIdx0 = (if rh_backup previous = None then (primaryIdx + 1) mod n
                            else handoverIdx members (rh_backup previous));
                         backupIdx = (if members ! backupIdx0 = primary then (backupIdx0 + 1) mod n
                                      else backupIdx0)
                     in Some \<lparr>na_primary = primary, na_backup = Some (members ! backupIdx)\<rparr>)))"

definition toHolders :: "NextAssignment \<Rightarrow> RotationHolders" where
  "toHolders a = \<lparr>rh_primary = Some (na_primary a), rh_backup = na_backup a\<rparr>"

section \<open>The last day\<close>

definition daysFromCivil :: "int \<Rightarrow> int \<Rightarrow> int \<Rightarrow> int" where
  "daysFromCivil y0 m d =
     (let y = (if m \<le> 2 then y0 - 1 else y0);
          era = y div 400;
          yoe = y mod 400;
          doy = (153 * (if m > 2 then m - 3 else m + 9) + 2) div 5 + d - 1;
          doe = yoe * 365 + yoe div 4 - yoe div 100 + doy
      in era * 146097 + doe - 719468)"

definition digitsVal :: "string \<Rightarrow> int option" where
  "digitsVal s =
     (if list_all (\<lambda>c. 48 \<le> (of_char c :: int) \<and> (of_char c :: int) \<le> 57) s
      then Some (fold (\<lambda>c acc. acc * 10 + (of_char c - 48)) s 0) else None)"

text \<open>\<open>Date.parse\<close> of a day \<open>YYYY-MM-DD\<close> at midnight UTC; \<open>None\<close> is \<open>NaN\<close>.\<close>

definition parseDay :: "string \<Rightarrow> date option" where
  "parseDay s =
     (if length s = 10 \<and> s ! 4 = CHR ''-'' \<and> s ! 7 = CHR ''-'' then
        (case (digitsVal (take 4 s), digitsVal (take 2 (drop 5 s)), digitsVal (drop 8 s)) of
           (Some y, Some m, Some d) \<Rightarrow>
             (let days = daysFromCivil y m d in
              if civilFromDays days = (y, m, d) then Some (days * DAY_MS) else None)
         | _ \<Rightarrow> None)
      else None)"

datatype start_limit = Unlimited | LimitNaN | LimitAt date

definition startLimit :: "string option \<Rightarrow> start_limit" where
  "startLimit endsOn =
     (case endsOn of
        None \<Rightarrow> Unlimited
      | Some s \<Rightarrow> if s = '''' then Unlimited
          else (case parseDay s of None \<Rightarrow> LimitNaN | Some t \<Rightarrow> LimitAt (t + DAY_MS)))"

fun atOrPast :: "date \<Rightarrow> start_limit \<Rightarrow> bool" where
  "atOrPast t (LimitAt l) = (t \<ge> l)"
| "atOrPast t _ = False"

fun before :: "date \<Rightarrow> start_limit \<Rightarrow> bool" where
  "before t (LimitAt l) = (t < l)"
| "before t Unlimited = True"
| "before t LimitNaN = False"

definition keptManager :: "string list \<Rightarrow> string option \<Rightarrow> string option" where
  "keptManager members manager =
     (case manager of None \<Rightarrow> None
      | Some m \<Rightarrow> if m \<noteq> '''' \<and> m \<in> set members then Some m else None)"

section \<open>Planning\<close>

record PlanWindowsInput =
  pw_members :: "string list"
  pw_cycleDays :: int
  pw_nextStartsAt :: date
  pw_previous :: RotationHolders
  pw_escalationManager :: "string option"
  pw_now :: date
  pw_endsOn :: "string option"
  pw_maxSteps :: "nat option"

datatype stop_reason = StopNoMembers | StopEndsOn

record plan_state =
  ps_startMs :: date
  ps_previous :: RotationHolders
  ps_windows :: "GeneratedWindow list"
  ps_skippedEnded :: nat
  ps_steps :: nat
  ps_capped :: bool
  ps_stoppedBy :: "stop_reason option"

definition cycleMs :: "int \<Rightarrow> int" where
  "cycleMs cycleDays = cycleDays * DAY_MS"

definition maxSteps :: "PlanWindowsInput \<Rightarrow> nat" where
  "maxSteps input = dflt ROTATION_MAX_STEPS_PER_RUN (pw_maxSteps input)"

definition assignNext :: "string list \<Rightarrow> RotationHolders \<Rightarrow> NextAssignment" where
  "assignNext members previous =
     (case nextAssignment members previous of Some a \<Rightarrow> a | None \<Rightarrow> \<lparr>na_primary = '''', na_backup = None\<rparr>)"

definition mkWindow ::
  "int \<Rightarrow> string list \<Rightarrow> string option \<Rightarrow> date \<Rightarrow> NextAssignment \<Rightarrow> GeneratedWindow" where
  "mkWindow cycleDays members manager startMs next =
     \<lparr>gw_startsAt = startMs, gw_endsAt = startMs + cycleMs cycleDays, gw_primary = na_primary next,
      gw_backup = na_backup next, gw_escalationManager = keptManager members manager\<rparr>"

definition planStep :: "PlanWindowsInput \<Rightarrow> plan_state \<Rightarrow> plan_state" where
  "planStep input s =
     (let next = assignNext (pw_members input) (ps_previous s);
          endMs = ps_startMs s + cycleMs (pw_cycleDays input);
          s1 = s\<lparr>ps_steps := ps_steps s + 1, ps_previous := toHolders next, ps_startMs := endMs\<rparr>
      in if endMs > pw_now input
         then s1\<lparr>ps_windows := ps_windows s @ [mkWindow (pw_cycleDays input) (pw_members input)
                   (pw_escalationManager input) (ps_startMs s) next]\<rparr>
         else s1\<lparr>ps_skippedEnded := ps_skippedEnded s + 1\<rparr>)"

lemma ps_steps_planStep [simp]: "ps_steps (planStep input s) = ps_steps s + 1"
  by (simp add: planStep_def Let_def)

function planLoop :: "PlanWindowsInput \<Rightarrow> plan_state \<Rightarrow> plan_state" where
  "planLoop input s =
     (if \<not> ps_startMs s \<le> pw_now input + ROTATION_NOTICE_LEAD_MS then s
      else if atOrPast (ps_startMs s) (startLimit (pw_endsOn input))
        then s\<lparr>ps_stoppedBy := Some StopEndsOn\<rparr>
      else if ps_steps s \<ge> maxSteps input then s\<lparr>ps_capped := True\<rparr>
      else planLoop input (planStep input s))"
  by pat_completeness auto
termination
  by (relation "measure (\<lambda>(input, s). maxSteps input - ps_steps s)") auto

declare planLoop.simps [simp del]

record PlanWindowsResult =
  pr_windows :: "GeneratedWindow list"
  pr_skippedEnded :: nat
  pr_capped :: bool
  pr_stoppedBy :: "stop_reason option"
  pr_nextStartsAt :: date
  pr_lastPrimary :: "string option"
  pr_lastBackup :: "string option"

definition planInit :: "PlanWindowsInput \<Rightarrow> plan_state" where
  "planInit input = \<lparr>ps_startMs = pw_nextStartsAt input, ps_previous = pw_previous input,
     ps_windows = [], ps_skippedEnded = 0, ps_steps = 0, ps_capped = False, ps_stoppedBy = None\<rparr>"

definition planWindows :: "PlanWindowsInput \<Rightarrow> PlanWindowsResult" where
  "planWindows input =
     (let s = (if pw_members input = [] then (planInit input)\<lparr>ps_stoppedBy := Some StopNoMembers\<rparr>
               else planLoop input (planInit input))
      in \<lparr>pr_windows = ps_windows s, pr_skippedEnded = ps_skippedEnded s, pr_capped = ps_capped s,
          pr_stoppedBy = ps_stoppedBy s, pr_nextStartsAt = ps_startMs s,
          pr_lastPrimary = rh_primary (ps_previous s), pr_lastBackup = rh_backup (ps_previous s)\<rparr>)"

section \<open>Projecting\<close>

record ProjectWindowsInput =
  pj_members :: "string list"
  pj_cycleDays :: int
  pj_nextStartsAt :: date
  pj_previous :: RotationHolders
  pj_escalationManager :: "string option"
  pj_endsOn :: "string option"
  pj_count :: nat

function projectLoop ::
  "ProjectWindowsInput \<Rightarrow> date \<Rightarrow> RotationHolders \<Rightarrow> GeneratedWindow list \<Rightarrow> GeneratedWindow list" where
  "projectLoop input startMs previous out =
     (if length out < pj_count input \<and> before startMs (startLimit (pj_endsOn input)) then
        (case nextAssignment (pj_members input) previous of
           None \<Rightarrow> out
         | Some next \<Rightarrow> projectLoop input (startMs + cycleMs (pj_cycleDays input)) (toHolders next)
             (out @ [mkWindow (pj_cycleDays input) (pj_members input) (pj_escalationManager input) startMs next]))
      else out)"
  by pat_completeness auto
termination
  by (relation "measure (\<lambda>(input, startMs, previous, out). pj_count input - length out)") auto

declare projectLoop.simps [simp del]

definition projectWindows :: "ProjectWindowsInput \<Rightarrow> GeneratedWindow list" where
  "projectWindows input = projectLoop input (pj_nextStartsAt input) (pj_previous input) []"

definition shouldAnnounceWindow :: "date \<Rightarrow> date \<Rightarrow> bool" where
  "shouldAnnounceWindow startsAt now = (startsAt > now)"

section \<open>Facts about handing over\<close>

lemma indexOf_Some: "indexOf xs x = Some i \<Longrightarrow> i < length xs \<and> xs ! i = x"
  by (induction xs arbitrary: i) (auto split: if_splits)

lemma indexOf_nth: "distinct xs \<Longrightarrow> i < length xs \<Longrightarrow> indexOf xs (xs ! i) = Some i"
  by (induction xs arbitrary: i) (auto simp: nth_Cons split: nat.splits)

lemma nextAssignment_None: "nextAssignment members p = None \<longleftrightarrow> members = []"
  by (auto simp: nextAssignment_def Let_def)

lemma handoverIdx_less: "members \<noteq> [] \<Longrightarrow> handoverIdx members h < length members"
  by (simp add: handoverIdx_def split: option.splits)

text \<open>The new holders by their positions.\<close>

definition backupIdx :: "string list \<Rightarrow> RotationHolders \<Rightarrow> nat" where
  "backupIdx members p =
     (let k = handoverIdx members (rh_primary p); n = length members;
          b = (if rh_backup p = None then (k + 1) mod n else handoverIdx members (rh_backup p))
      in if members ! b = members ! k then (b + 1) mod n else b)"

lemma backupIdx_less: "members \<noteq> [] \<Longrightarrow> backupIdx members p < length members"
  by (simp add: backupIdx_def Let_def handoverIdx_less)

lemma nextAssignment_eq:
  "members \<noteq> [] \<Longrightarrow> nextAssignment members p =
     Some \<lparr>na_primary = members ! handoverIdx members (rh_primary p),
       na_backup = (if length members = 1 then None else Some (members ! backupIdx members p))\<rparr>"
  by (simp add: nextAssignment_def backupIdx_def Let_def)

lemma nextAssignment_members:
  assumes "nextAssignment members p = Some a"
  shows "na_primary a \<in> set members \<and> set_option (na_backup a) \<subseteq> set members"
proof -
  have ne: "members \<noteq> []" using assms by (auto simp: nextAssignment_def)
  then have "a = \<lparr>na_primary = members ! handoverIdx members (rh_primary p),
      na_backup = (if length members = 1 then None else Some (members ! backupIdx members p))\<rparr>"
    using assms nextAssignment_eq [OF ne] by simp
  then show ?thesis by (simp add: handoverIdx_less [OF ne] backupIdx_less [OF ne])
qed

lemma mod_Suc_neq: "1 < n \<Longrightarrow> i < n \<Longrightarrow> (i + 1) mod n \<noteq> (i :: nat)"
  by (cases "i + 1 = n") auto

lemma nextAssignment_backup:
  assumes "nextAssignment members p = Some a" and "distinct members" and "1 < length members"
  shows "\<exists>b. na_backup a = Some b \<and> b \<noteq> na_primary a"
proof -
  let ?n = "length members" and ?k = "handoverIdx members (rh_primary p)"
  let ?b = "if rh_backup p = None then (?k + 1) mod ?n else handoverIdx members (rh_backup p)"
  have ne: "members \<noteq> []" using assms(3) by auto
  have less: "?k < ?n" "?b < ?n" using handoverIdx_less [OF ne] ne by auto
  have "members ! backupIdx members p \<noteq> members ! ?k"
  proof (cases "members ! ?b = members ! ?k")
    case True
    then have "?b = ?k" using less nth_eq_iff_index_eq [OF assms(2)] by simp
    then have "backupIdx members p = (?k + 1) mod ?n" using True by (simp add: backupIdx_def Let_def)
    moreover have "(?k + 1) mod ?n < ?n" "(?k + 1) mod ?n \<noteq> ?k"
      using ne less(1) mod_Suc_neq [OF assms(3)] by auto
    ultimately show ?thesis using less nth_eq_iff_index_eq [OF assms(2)] by simp
  qed (simp add: backupIdx_def Let_def)
  then show ?thesis using assms nextAssignment_eq [OF ne] by auto
qed

lemma assignNext_eq: "members \<noteq> [] \<Longrightarrow> nextAssignment members p = Some (assignNext members p)"
  using nextAssignment_None by (auto simp: assignNext_def split: option.splits)

lemma assignNext_primary:
  "members \<noteq> [] \<Longrightarrow> na_primary (assignNext members p) = members ! handoverIdx members (rh_primary p)"
  using nextAssignment_eq [of members p] assignNext_eq [of members p] by simp

end
