(* ===== verification/RotationProps.thy ===== *)
theory RotationProps
  imports Rotation
begin

text \<open>
  What the rotation guarantees. The reference is the endless sequence of windows a rotation
  determines; the planner and the projection both produce a slice of it, and what the
  slices have in common is proved once in a locale.
\<close>

section \<open>The reference sequence\<close>

record rotation_cfg =
  rc_members :: "string list"
  rc_cycleDays :: int
  rc_start :: date
  rc_previous :: RotationHolders
  rc_manager :: "string option"

definition holdersAfter :: "string list \<Rightarrow> RotationHolders \<Rightarrow> nat \<Rightarrow> RotationHolders" where
  "holdersAfter members p k = ((\<lambda>h. toHolders (assignNext members h)) ^^ k) p"

definition startAt :: "rotation_cfg \<Rightarrow> nat \<Rightarrow> date" where
  "startAt c k = rc_start c + int k * cycleMs (rc_cycleDays c)"

definition assignmentAt :: "rotation_cfg \<Rightarrow> nat \<Rightarrow> NextAssignment" where
  "assignmentAt c k = assignNext (rc_members c) (holdersAfter (rc_members c) (rc_previous c) k)"

definition windowAt :: "rotation_cfg \<Rightarrow> nat \<Rightarrow> GeneratedWindow" where
  "windowAt c k = mkWindow (rc_cycleDays c) (rc_members c) (rc_manager c) (startAt c k) (assignmentAt c k)"

lemma holdersAfter_simps [simp]:
  "holdersAfter members p 0 = p"
  "holdersAfter members p (Suc k) = toHolders (assignNext members (holdersAfter members p k))"
  by (simp_all add: holdersAfter_def)

lemma startAt_Suc: "startAt c (Suc k) = startAt c k + cycleMs (rc_cycleDays c)"
  by (simp add: startAt_def algebra_simps)

lemma windowAt_sel [simp]:
  "gw_startsAt (windowAt c k) = startAt c k"
  "gw_endsAt (windowAt c k) = startAt c (Suc k)"
  "gw_primary (windowAt c k) = na_primary (assignmentAt c k)"
  "gw_backup (windowAt c k) = na_backup (assignmentAt c k)"
  by (simp_all add: windowAt_def mkWindow_def startAt_Suc)

text \<open>
  C12. A hand-over always finds someone: a team with members gets a primary who is a member;
  a team of two or more distinct members gets a backup who is a member and not the primary; a
  team of one has no backup; only a team without members gets nobody.
\<close>
theorem nextAssignment_sound:
  "(nextAssignment members p = None \<longleftrightarrow> members = []) \<and>
   (nextAssignment members p = Some a \<longrightarrow>
      na_primary a \<in> set members \<and>
      (length members = 1 \<longrightarrow> na_backup a = None) \<and>
      (distinct members \<and> 1 < length members \<longrightarrow>
         (\<exists>b \<in> set members. na_backup a = Some b \<and> b \<noteq> na_primary a)))"
proof (intro conjI impI)
  show "nextAssignment members p = None \<longleftrightarrow> members = []" by (rule nextAssignment_None)
  assume a: "nextAssignment members p = Some a"
  then show "na_primary a \<in> set members" using nextAssignment_members by blast
  show "na_backup a = None" if "length members = 1"
    using a that by (auto simp: nextAssignment_def Let_def)
  show "\<exists>b \<in> set members. na_backup a = Some b \<and> b \<noteq> na_primary a" if "distinct members \<and> 1 < length members"
    using nextAssignment_backup [OF a] that nextAssignment_members [OF a] by auto
qed

theorem nextAssignment_sound_witness:
  "nextAssignment [''ann'', ''ben'', ''cas''] \<lparr>rh_primary = Some ''ann'', rh_backup = Some ''ann''\<rparr> =
     Some \<lparr>na_primary = ''ben'', na_backup = Some ''cas''\<rparr> \<and>
   (\<exists>b \<in> {''ann'', ''ben'', ''cas''}. Some ''cas'' = Some b \<and> b \<noteq> ''ben'')"
proof -
  have "nextAssignment [''ann'', ''ben'', ''cas''] \<lparr>rh_primary = Some ''ann'', rh_backup = Some ''ann''\<rparr> =
     Some \<lparr>na_primary = ''ben'', na_backup = Some ''cas''\<rparr>"
    by code_simp
  with nextAssignment_sound [of "[''ann'', ''ben'', ''cas'']"
      "\<lparr>rh_primary = Some ''ann'', rh_backup = Some ''ann''\<rparr>" "\<lparr>na_primary = ''ben'', na_backup = Some ''cas''\<rparr>"]
  show ?thesis by simp
qed

section \<open>Fairness\<close>

lemma primary_cycles:
  assumes "rc_members c \<noteq> []" "distinct (rc_members c)" "'''' \<notin> set (rc_members c)"
  shows "na_primary (assignmentAt c k) = rc_members c !
    ((handoverIdx (rc_members c) (rh_primary (rc_previous c)) + k) mod length (rc_members c))"
proof (induction k)
  case 0
  then show ?case
    using handoverIdx_less [OF assms(1)] by (simp add: assignmentAt_def assignNext_primary [OF assms(1)])
next
  case (Suc k)
  let ?m = "rc_members c" and ?i = "handoverIdx (rc_members c) (rh_primary (rc_previous c))"
  let ?j = "(?i + k) mod length ?m"
  have j: "?j < length ?m" using assms(1) by simp
  then have "?m ! ?j \<noteq> ''''" using assms(3) nth_mem by metis
  then have "handoverIdx ?m (Some (?m ! ?j)) = (?j + 1) mod length ?m"
    using indexOf_nth [OF assms(2) j] by (simp add: handoverIdx_def indexOfHolder_def)
  also have "\<dots> = (?i + Suc k) mod length ?m" by (simp add: mod_simps)
  finally show ?case
    using Suc by (simp add: assignmentAt_def assignNext_primary [OF assms(1)] toHolders_def)
qed

lemma shift_mod_inj: "inj_on (\<lambda>k. (i + k) mod n) {j..<j + n}" for n :: nat
proof (rule inj_onI)
  fix x y assume xy: "x \<in> {j..<j + n}" "y \<in> {j..<j + n}" and eq: "(i + x) mod n = (i + y) mod n"
  have "x = y" if "x \<le> y" "x \<in> {j..<j + n}" "y \<in> {j..<j + n}" "(i + x) mod n = (i + y) mod n" for x y
  proof -
    have "n dvd (i + y) - (i + x)" using that by (metis mod_eq_dvd_iff_nat nat_add_left_cancel_le)
    then show ?thesis using that by (auto dest: dvd_imp_le)
  qed
  then show "x = y" using xy eq by (metis nat_le_linear)
qed

text \<open>
  C13. The rotation is fair: in as many consecutive windows as the team has members, starting
  anywhere and whoever held the role before, every member is primary exactly once.
\<close>
theorem rotation_fair:
  assumes "rc_members c \<noteq> []" "distinct (rc_members c)" "'''' \<notin> set (rc_members c)"
  shows "distinct (map (\<lambda>k. gw_primary (windowAt c k)) [j..<j + length (rc_members c)]) \<and>
    set (map (\<lambda>k. gw_primary (windowAt c k)) [j..<j + length (rc_members c)]) = set (rc_members c)"
proof -
  let ?m = "rc_members c" and ?n = "length (rc_members c)"
  let ?f = "\<lambda>k. (handoverIdx ?m (rh_primary (rc_previous c)) + k) mod ?n"
  have less: "?f k < ?n" for k using assms(1) by simp
  have inj: "inj_on (\<lambda>k. ?m ! ?f k) {j..<j + ?n}"
    using shift_mod_inj [of "handoverIdx ?m (rh_primary (rc_previous c))" ?n j] less
    by (auto simp: inj_on_def nth_eq_iff_index_eq [OF assms(2)])
  have "(\<lambda>k. ?m ! ?f k) ` {j..<j + ?n} \<subseteq> set ?m" using less by auto
  moreover have "card ((\<lambda>k. ?m ! ?f k) ` {j..<j + ?n}) = card (set ?m)"
    using card_image [OF inj] distinct_card [OF assms(2)] by simp
  ultimately have "(\<lambda>k. ?m ! ?f k) ` {j..<j + ?n} = set ?m" by (simp add: card_subset_eq)
  then show ?thesis
    using inj by (simp add: distinct_map primary_cycles [OF assms])
qed

definition demo_cfg :: rotation_cfg where
  "demo_cfg = \<lparr>rc_members = [''ann'', ''ben'', ''cas''], rc_cycleDays = 7, rc_start = 0,
     rc_previous = \<lparr>rh_primary = Some ''ben'', rh_backup = None\<rparr>, rc_manager = None\<rparr>"

theorem rotation_fair_witness:
  "set (map (\<lambda>k. gw_primary (windowAt demo_cfg k)) [5..<8]) = {''ann'', ''ben'', ''cas''}"
  using rotation_fair [of demo_cfg 5] by (simp add: demo_cfg_def)

section \<open>The planner follows the sequence\<close>

definition planCfg :: "PlanWindowsInput \<Rightarrow> rotation_cfg" where
  "planCfg i = \<lparr>rc_members = pw_members i, rc_cycleDays = pw_cycleDays i, rc_start = pw_nextStartsAt i,
     rc_previous = pw_previous i, rc_manager = pw_escalationManager i\<rparr>"

definition due :: "PlanWindowsInput \<Rightarrow> date \<Rightarrow> bool" where
  "due i t \<longleftrightarrow> t \<le> pw_now i + ROTATION_NOTICE_LEAD_MS"

definition onTrack :: "PlanWindowsInput \<Rightarrow> plan_state \<Rightarrow> bool" where
  "onTrack i s \<longleftrightarrow>
     ps_startMs s = startAt (planCfg i) (ps_steps s) \<and>
     ps_previous s = holdersAfter (pw_members i) (pw_previous i) (ps_steps s) \<and>
     ps_windows s = map (windowAt (planCfg i))
       (filter (\<lambda>k. startAt (planCfg i) (Suc k) > pw_now i) [0..<ps_steps s]) \<and>
     ps_skippedEnded s + length (ps_windows s) = ps_steps s \<and>
     (\<forall>k < ps_steps s. due i (startAt (planCfg i) k) \<and>
        \<not> atOrPast (startAt (planCfg i) k) (startLimit (pw_endsOn i)))"

lemma onTrackD:
  assumes "onTrack i s"
  shows "ps_skippedEnded s + length (ps_windows s) = ps_steps s"
    and "ps_startMs s = startAt (planCfg i) (ps_steps s)"
  using assms unfolding onTrack_def by blast+

lemma onTrack_init: "onTrack i (planInit i)"
  by (simp add: onTrack_def planInit_def startAt_def planCfg_def)

lemma onTrack_step:
  assumes "onTrack i s" "due i (ps_startMs s)" "\<not> atOrPast (ps_startMs s) (startLimit (pw_endsOn i))"
  shows "onTrack i (planStep i s)"
proof -
  let ?c = "planCfg i" and ?k = "ps_steps s"
  have next': "assignNext (pw_members i) (holdersAfter (pw_members i) (pw_previous i) ?k) = assignmentAt ?c ?k"
    by (simp add: assignmentAt_def planCfg_def)
  have fin: "startAt ?c ?k + cycleMs (pw_cycleDays i) = startAt ?c (Suc ?k)"
    by (simp add: startAt_Suc planCfg_def)
  have win: "mkWindow (pw_cycleDays i) (pw_members i) (pw_escalationManager i) (startAt ?c ?k)
      (assignmentAt ?c ?k) = windowAt ?c ?k"
    by (simp add: windowAt_def planCfg_def)
  show ?thesis
    using assms by (auto simp: onTrack_def planStep_def Let_def next' fin win less_Suc_eq)
qed

text \<open>Why the loop ended.\<close>

definition planDone :: "PlanWindowsInput \<Rightarrow> plan_state \<Rightarrow> bool" where
  "planDone i s \<longleftrightarrow> ps_steps s \<le> maxSteps i \<and>
     (if ps_capped s then due i (ps_startMs s) \<and> ps_steps s = maxSteps i \<and> ps_stoppedBy s = None \<and>
         \<not> atOrPast (ps_startMs s) (startLimit (pw_endsOn i))
      else if ps_stoppedBy s = Some StopEndsOn
        then due i (ps_startMs s) \<and> atOrPast (ps_startMs s) (startLimit (pw_endsOn i))
      else ps_stoppedBy s = None \<and> \<not> due i (ps_startMs s))"

lemma onTrack_flags [simp]:
  "onTrack i (s\<lparr>ps_stoppedBy := r\<rparr>) = onTrack i s"
  "onTrack i (s\<lparr>ps_capped := b\<rparr>) = onTrack i s"
  by (simp_all add: onTrack_def)

lemma planStep_flags [simp]:
  "ps_capped (planStep i s) = ps_capped s" "ps_stoppedBy (planStep i s) = ps_stoppedBy s"
  by (simp_all add: planStep_def Let_def)

lemma planLoop_cases:
  "\<not> due i (ps_startMs s) \<Longrightarrow> planLoop i s = s"
  "due i (ps_startMs s) \<Longrightarrow> atOrPast (ps_startMs s) (startLimit (pw_endsOn i)) \<Longrightarrow>
     planLoop i s = s\<lparr>ps_stoppedBy := Some StopEndsOn\<rparr>"
  "due i (ps_startMs s) \<Longrightarrow> \<not> atOrPast (ps_startMs s) (startLimit (pw_endsOn i)) \<Longrightarrow>
     maxSteps i \<le> ps_steps s \<Longrightarrow> planLoop i s = s\<lparr>ps_capped := True\<rparr>"
  "due i (ps_startMs s) \<Longrightarrow> \<not> atOrPast (ps_startMs s) (startLimit (pw_endsOn i)) \<Longrightarrow>
     ps_steps s < maxSteps i \<Longrightarrow> planLoop i s = planLoop i (planStep i s)"
  by (subst planLoop.simps, simp add: due_def)+

lemma planLoop_correct:
  assumes "onTrack i s" "ps_steps s \<le> maxSteps i" "\<not> ps_capped s" "ps_stoppedBy s = None"
  shows "onTrack i (planLoop i s) \<and> planDone i (planLoop i s)"
  using assms
proof (induction i s rule: planLoop.induct)
  case (1 i s)
  consider (late) "\<not> due i (ps_startMs s)"
    | (over) "due i (ps_startMs s)" "atOrPast (ps_startMs s) (startLimit (pw_endsOn i))"
    | (cap) "due i (ps_startMs s)" "\<not> atOrPast (ps_startMs s) (startLimit (pw_endsOn i))" "ps_steps s = maxSteps i"
    | (go) "due i (ps_startMs s)" "\<not> atOrPast (ps_startMs s) (startLimit (pw_endsOn i))" "ps_steps s < maxSteps i"
    using "1.prems"(2) by fastforce
  then show ?case
  proof cases
    case go
    then show ?thesis
      using "1.IH" "1.prems" onTrack_step [of i s] planLoop_cases(4) [OF go] by (simp add: due_def)
  qed (use "1.prems" in \<open>simp_all add: planLoop_cases planDone_def\<close>)
qed

lemma filter_tail_upt:
  assumes "\<And>k. P k \<Longrightarrow> P (Suc k)"
  shows "filter P [0..<n] = [n - length (filter P [0..<n])..<n]"
proof (induction n)
  case (Suc n)
  have mono: "P m" if "P k" "k \<le> m" for k m
    using that(2,1) by (induction rule: dec_induct) (auto intro: assms)
  show ?case
  proof (cases "P n")
    case True
    have "length (filter P [0..<n]) \<le> n" using length_filter_le [of P "[0..<n]"] by simp
    then show ?thesis using True Suc by (simp add: Suc_diff_le)
  next
    case False
    then have "filter P [0..<n] = []" using mono by (auto simp: filter_empty_conv)
    then show ?thesis using False by simp
  qed
qed simp

lemma onTrack_slice:
  assumes "onTrack i s" "0 < pw_cycleDays i"
  shows "ps_windows s = map (windowAt (planCfg i)) [ps_skippedEnded s..<ps_steps s]"
proof -
  let ?P = "\<lambda>k. startAt (planCfg i) (Suc k) > pw_now i"
  have pos: "0 < cycleMs (pw_cycleDays i)" using assms(2) by (simp add: cycleMs_def DAY_MS_def)
  have "filter ?P [0..<ps_steps s] = [ps_steps s - length (filter ?P [0..<ps_steps s])..<ps_steps s]"
    using pos by (intro filter_tail_upt) (simp add: startAt_Suc planCfg_def)
  moreover have "ps_steps s - length (filter ?P [0..<ps_steps s]) = ps_skippedEnded s"
    using assms(1) unfolding onTrack_def by (metis add_diff_cancel_right' length_map)
  ultimately show ?thesis using assms(1) unfolding onTrack_def by metis
qed

lemma planWindows_state:
  assumes "pw_members i \<noteq> []"
  obtains s where "onTrack i s" "planDone i s"
    "pr_windows (planWindows i) = ps_windows s" "pr_skippedEnded (planWindows i) = ps_skippedEnded s"
    "pr_capped (planWindows i) = ps_capped s" "pr_stoppedBy (planWindows i) = ps_stoppedBy s"
    "pr_nextStartsAt (planWindows i) = ps_startMs s"
    "pr_lastPrimary (planWindows i) = rh_primary (ps_previous s)"
    "pr_lastBackup (planWindows i) = rh_backup (ps_previous s)"
proof -
  have "onTrack i (planLoop i (planInit i)) \<and> planDone i (planLoop i (planInit i))"
    by (rule planLoop_correct [OF onTrack_init]) (simp_all add: planInit_def)
  then show ?thesis
    using assms by (intro that [of "planLoop i (planInit i)"]) (simp_all add: planWindows_def Let_def)
qed

text \<open>
  The contract shared by everything that produces windows: for a team with members and a
  positive cycle the result is a slice of the reference sequence, for an empty team nothing.
\<close>

locale window_source =
  fixes gen :: "'i \<Rightarrow> GeneratedWindow list" and cfg :: "'i \<Rightarrow> rotation_cfg"
  assumes slice: "rc_members (cfg i) \<noteq> [] \<Longrightarrow> 0 < rc_cycleDays (cfg i) \<Longrightarrow>
      \<exists>a b. gen i = map (windowAt (cfg i)) [a..<b]"
    and nobody: "rc_members (cfg i) = [] \<Longrightarrow> gen i = []"
begin

lemma back_to_back:
  assumes "0 < rc_cycleDays (cfg i)" "Suc j < length (gen i)"
  shows "gw_startsAt (gen i ! Suc j) = gw_endsAt (gen i ! j)"
  using assms slice [of i] nobody [of i] by (cases "rc_members (cfg i) = []") (auto simp: nth_append)

lemma full_cycle:
  assumes "0 < rc_cycleDays (cfg i)" "w \<in> set (gen i)"
  shows "gw_endsAt w = gw_startsAt w + rc_cycleDays (cfg i) * DAY_MS"
  using assms slice [of i] nobody [of i]
  by (cases "rc_members (cfg i) = []") (auto simp: startAt_Suc cycleMs_def)

lemma staffed:
  assumes "0 < rc_cycleDays (cfg i)" "distinct (rc_members (cfg i))" "w \<in> set (gen i)"
  shows "gw_primary w \<in> set (rc_members (cfg i)) \<and>
    (1 < length (rc_members (cfg i)) \<longrightarrow>
      (\<exists>b \<in> set (rc_members (cfg i)). gw_backup w = Some b \<and> b \<noteq> gw_primary w))"
proof -
  have ne: "rc_members (cfg i) \<noteq> []" using assms(3) nobody [of i] by auto
  then obtain k where w: "w = windowAt (cfg i) k" using slice [OF ne assms(1)] assms(3) by auto
  have a: "nextAssignment (rc_members (cfg i)) (holdersAfter (rc_members (cfg i)) (rc_previous (cfg i)) k) =
      Some (assignmentAt (cfg i) k)"
    by (simp add: assignmentAt_def assignNext_eq [OF ne])
  show ?thesis
    using nextAssignment_members [OF a] nextAssignment_backup [OF a assms(2)] by (auto simp: w)
qed

lemma manager_is_member: "0 < rc_cycleDays (cfg i) \<Longrightarrow> w \<in> set (gen i) \<Longrightarrow>
    set_option (gw_escalationManager w) \<subseteq> set (rc_members (cfg i))"
  using slice [of i] nobody [of i]
  by (cases "rc_members (cfg i) = []")
    (auto simp: windowAt_def mkWindow_def keptManager_def split: option.splits if_splits)

end

interpretation planned: window_source "\<lambda>i. pr_windows (planWindows i)" planCfg
proof
  fix i
  show "rc_members (planCfg i) = [] \<Longrightarrow> pr_windows (planWindows i) = []"
    by (simp add: planCfg_def planWindows_def planInit_def)
  assume "rc_members (planCfg i) \<noteq> []" and pos: "0 < rc_cycleDays (planCfg i)"
  then have "pw_members i \<noteq> []" by (simp add: planCfg_def)
  then obtain s where "onTrack i s" "pr_windows (planWindows i) = ps_windows s"
    by (rule planWindows_state)
  then show "\<exists>a b. pr_windows (planWindows i) = map (windowAt (planCfg i)) [a..<b]"
    using onTrack_slice pos by (auto simp: planCfg_def)
qed

definition projectCfg :: "ProjectWindowsInput \<Rightarrow> rotation_cfg" where
  "projectCfg i = \<lparr>rc_members = pj_members i, rc_cycleDays = pj_cycleDays i, rc_start = pj_nextStartsAt i,
     rc_previous = pj_previous i, rc_manager = pj_escalationManager i\<rparr>"

lemma projectLoop_slice:
  assumes "pj_members i \<noteq> []" and "out = map (windowAt (projectCfg i)) [0..<k]" and "k \<le> pj_count i"
    and "\<forall>j < k. before (startAt (projectCfg i) j) (startLimit (pj_endsOn i))"
  shows "\<exists>b. projectLoop i (startAt (projectCfg i) k) (holdersAfter (pj_members i) (pj_previous i) k) out =
      map (windowAt (projectCfg i)) [0..<b] \<and> b \<le> pj_count i \<and>
      (\<forall>j < b. before (startAt (projectCfg i) j) (startLimit (pj_endsOn i))) \<and>
      (b = pj_count i \<or> \<not> before (startAt (projectCfg i) b) (startLimit (pj_endsOn i)))"
  using assms(2-)
proof (induction "pj_count i - k" arbitrary: k out)
  case 0
  then show ?case by (subst projectLoop.simps) auto
next
  case (Suc m)
  show ?case
  proof (cases "before (startAt (projectCfg i) k) (startLimit (pj_endsOn i))")
    case False
    then show ?thesis using Suc.prems by (subst projectLoop.simps) auto
  next
    case True
    have lt: "k < pj_count i" using Suc.hyps(2) by linarith
    let ?a = "assignmentAt (projectCfg i) k"
    have a: "nextAssignment (pj_members i) (holdersAfter (pj_members i) (pj_previous i) k) = Some ?a"
      by (simp add: assignmentAt_def projectCfg_def assignNext_eq [OF assms(1)])
    have nx: "toHolders ?a = holdersAfter (pj_members i) (pj_previous i) (Suc k)"
      by (simp add: assignmentAt_def projectCfg_def)
    have st: "startAt (projectCfg i) k + cycleMs (pj_cycleDays i) = startAt (projectCfg i) (Suc k)"
      by (simp add: startAt_Suc projectCfg_def)
    have w: "mkWindow (pj_cycleDays i) (pj_members i) (pj_escalationManager i) (startAt (projectCfg i) k) ?a =
        windowAt (projectCfg i) k"
      by (simp add: windowAt_def projectCfg_def)
    have "projectLoop i (startAt (projectCfg i) k) (holdersAfter (pj_members i) (pj_previous i) k) out =
        projectLoop i (startAt (projectCfg i) (Suc k)) (holdersAfter (pj_members i) (pj_previous i) (Suc k))
          (out @ [windowAt (projectCfg i) k])"
      using lt Suc.prems(1) True
      by (subst projectLoop.simps) (simp add: a nx st w del: holdersAfter_simps)
    moreover have "m = pj_count i - Suc k" using Suc.hyps(2) by simp
    ultimately show ?thesis
      using Suc.hyps(1) [of "Suc k" "out @ [windowAt (projectCfg i) k]"] Suc.prems Suc.hyps(2) True
      by (simp add: less_Suc_eq del: holdersAfter_simps)
  qed
qed

lemma projectWindows_slice:
  assumes "pj_members i \<noteq> []"
  shows "\<exists>b. projectWindows i = map (windowAt (projectCfg i)) [0..<b] \<and> b \<le> pj_count i \<and>
      (\<forall>j < b. before (startAt (projectCfg i) j) (startLimit (pj_endsOn i))) \<and>
      (b = pj_count i \<or> \<not> before (startAt (projectCfg i) b) (startLimit (pj_endsOn i)))"
  using projectLoop_slice [OF assms, of "[]" 0]
  by (simp add: projectWindows_def startAt_def projectCfg_def)

interpretation projected: window_source projectWindows projectCfg
proof
  fix i
  show "rc_members (projectCfg i) = [] \<Longrightarrow> projectWindows i = []"
    unfolding projectWindows_def by (subst projectLoop.simps) (simp add: projectCfg_def nextAssignment_def)
  assume "rc_members (projectCfg i) \<noteq> []"
  then show "\<exists>a b. projectWindows i = map (windowAt (projectCfg i)) [a..<b]"
    using projectWindows_slice [of i] by (auto simp: projectCfg_def)
qed

section \<open>What a run of the planner yields\<close>

text \<open>
  The planned windows cover the near future without gaps: they are back to back and each
  exactly one cycle long, the first follows the cycles that are already over, none is over,
  each starts within the notice lead and before the rotation's last day ends, and each is
  staffed by members with a backup other than the primary.
\<close>
theorem planWindows_windows:
  assumes "pw_members i \<noteq> []" "distinct (pw_members i)" "0 < pw_cycleDays i"
    and "j < length (pr_windows (planWindows i))"
  shows "let w = pr_windows (planWindows i) ! j in
    gw_startsAt w = pw_nextStartsAt i + int (pr_skippedEnded (planWindows i) + j) * (pw_cycleDays i * DAY_MS) \<and>
    gw_endsAt w = gw_startsAt w + pw_cycleDays i * DAY_MS \<and>
    pw_now i < gw_endsAt w \<and> gw_startsAt w \<le> pw_now i + ROTATION_NOTICE_LEAD_MS \<and>
    \<not> atOrPast (gw_startsAt w) (startLimit (pw_endsOn i)) \<and>
    gw_primary w \<in> set (pw_members i) \<and>
    (1 < length (pw_members i) \<longrightarrow> (\<exists>b \<in> set (pw_members i). gw_backup w = Some b \<and> b \<noteq> gw_primary w))"
proof -
  obtain s where s: "onTrack i s" "pr_windows (planWindows i) = ps_windows s"
    "pr_skippedEnded (planWindows i) = ps_skippedEnded s"
    using planWindows_state [OF assms(1)] by metis
  define k where "k = ps_skippedEnded s + j"
  have k: "k < ps_steps s" using s assms(4) by (auto simp: onTrack_def k_def)
  have w: "pr_windows (planWindows i) ! j = windowAt (planCfg i) k"
    using onTrack_slice [OF s(1) assms(3)] k by (simp add: s(2) k_def)
  then have mem: "windowAt (planCfg i) k \<in> set (pr_windows (planWindows i))"
    using assms(4) by (metis nth_mem)
  then have "pw_now i < startAt (planCfg i) (Suc k)"
    using s by (auto simp: onTrack_def windowAt_def mkWindow_def startAt_Suc)
  moreover have "due i (startAt (planCfg i) k) \<and> \<not> atOrPast (startAt (planCfg i) k) (startLimit (pw_endsOn i))"
    using s(1) k by (simp add: onTrack_def)
  moreover have "startAt (planCfg i) k = pw_nextStartsAt i + int k * (pw_cycleDays i * DAY_MS)"
    by (simp add: startAt_def planCfg_def cycleMs_def)
  moreover note planned.staffed [OF _ _ mem] planned.full_cycle [OF _ mem]
  ultimately show ?thesis
    using assms(2,3) unfolding w Let_def by (simp add: planCfg_def due_def s(3) k_def)
qed

definition demo_plan :: PlanWindowsInput where
  "demo_plan = \<lparr>pw_members = [''ann'', ''ben'', ''cas''], pw_cycleDays = 7, pw_nextStartsAt = 0,
     pw_previous = \<lparr>rh_primary = Some ''ann'', rh_backup = None\<rparr>, pw_escalationManager = Some ''dan'',
     pw_now = 1000000000, pw_endsOn = None, pw_maxSteps = None\<rparr>"

lemma demo_plan_sel [simp]:
  "pw_members demo_plan = [''ann'', ''ben'', ''cas'']" "pw_cycleDays demo_plan = 7"
  "pw_nextStartsAt demo_plan = 0" "pw_previous demo_plan = \<lparr>rh_primary = Some ''ann'', rh_backup = None\<rparr>"
  "pw_escalationManager demo_plan = Some ''dan''" "pw_now demo_plan = 1000000000" "pw_endsOn demo_plan = None"
  by (simp_all add: demo_plan_def)

lemma demo_plan_windows:
  "map gw_primary (pr_windows (planWindows demo_plan)) = [''cas''] \<and> pr_skippedEnded (planWindows demo_plan) = 1 \<and>
   pr_capped (planWindows demo_plan) = False"
  by code_simp

theorem planWindows_windows_witness:
  "gw_startsAt (pr_windows (planWindows demo_plan) ! 0) = 604800000 \<and>
   gw_primary (pr_windows (planWindows demo_plan) ! 0) \<in> {''ann'', ''ben'', ''cas''}"
proof -
  have "length (pr_windows (planWindows demo_plan)) = 1"
    using demo_plan_windows by (metis One_nat_def length_Cons length_map list.size(3))
  then show ?thesis
    using planWindows_windows [of demo_plan 0] demo_plan_windows
    by (simp add: Let_def DAY_MS_def)
qed

text \<open>
  A run accounts for every cycle it stepped through: the cursor moves by one cycle per
  step, past the windows it made and the cycles already over, never more than the cap in one
  run; when neither the cap nor the last day stopped it, nothing more is due. An empty team
  leaves the cursor where it was.
\<close>
theorem planWindows_cursor:
  "pr_nextStartsAt (planWindows i) = pw_nextStartsAt i +
     int (pr_skippedEnded (planWindows i) + length (pr_windows (planWindows i))) * (pw_cycleDays i * DAY_MS) \<and>
   pr_skippedEnded (planWindows i) + length (pr_windows (planWindows i)) \<le> maxSteps i \<and>
   (\<not> pr_capped (planWindows i) \<and> pr_stoppedBy (planWindows i) = None \<longrightarrow>
      pw_now i + ROTATION_NOTICE_LEAD_MS < pr_nextStartsAt (planWindows i)) \<and>
   (pr_stoppedBy (planWindows i) = Some StopNoMembers \<longleftrightarrow> pw_members i = [])"
proof (cases "pw_members i = []")
  case True
  then show ?thesis by (simp add: planWindows_def planInit_def Let_def)
next
  case False
  then obtain s where s: "onTrack i s" "planDone i s" "pr_windows (planWindows i) = ps_windows s"
    "pr_skippedEnded (planWindows i) = ps_skippedEnded s" "pr_capped (planWindows i) = ps_capped s"
    "pr_stoppedBy (planWindows i) = ps_stoppedBy s" "pr_nextStartsAt (planWindows i) = ps_startMs s"
    by (rule planWindows_state)
  then have "pr_skippedEnded (planWindows i) + length (pr_windows (planWindows i)) = ps_steps s"
    "pr_nextStartsAt (planWindows i) = startAt (planCfg i) (ps_steps s)"
    by (simp_all add: onTrackD)
  then show ?thesis
    using s(2,5,6) False
    by (auto simp: planDone_def due_def startAt_def planCfg_def cycleMs_def s(7) split: if_splits)
qed

theorem planWindows_cursor_witness:
  "pw_now demo_plan + ROTATION_NOTICE_LEAD_MS < pr_nextStartsAt (planWindows demo_plan) \<and>
   pr_nextStartsAt (planWindows demo_plan) = 2 * 604800000"
proof -
  have "length (pr_windows (planWindows demo_plan)) = 1"
    using demo_plan_windows by (metis One_nat_def length_Cons length_map list.size(3))
  moreover have "pr_stoppedBy (planWindows demo_plan) = None" by code_simp
  ultimately show ?thesis
    using planWindows_cursor [of demo_plan] demo_plan_windows by (simp add: DAY_MS_def)
qed

text \<open>
  The projection shows what the planner will do: asked for as many windows as a run steps
  through, it lists them with the same times, holders and escalation manager; the run's
  windows are the listed ones without those that are already over.
\<close>
theorem projection_agrees:
  assumes "pw_members i \<noteq> []" "0 < pw_cycleDays i" "startLimit (pw_endsOn i) \<noteq> LimitNaN"
    and "pj = \<lparr>pj_members = pw_members i, pj_cycleDays = pw_cycleDays i, pj_nextStartsAt = pw_nextStartsAt i,
      pj_previous = pw_previous i, pj_escalationManager = pw_escalationManager i, pj_endsOn = pw_endsOn i,
      pj_count = pr_skippedEnded (planWindows i) + length (pr_windows (planWindows i))\<rparr>"
  shows "pr_windows (planWindows i) = drop (pr_skippedEnded (planWindows i)) (projectWindows pj) \<and>
    length (projectWindows pj) = pj_count pj"
proof -
  obtain s where s: "onTrack i s" "pr_windows (planWindows i) = ps_windows s"
    "pr_skippedEnded (planWindows i) = ps_skippedEnded s"
    using planWindows_state [OF assms(1)] by metis
  have steps: "ps_skippedEnded s + length (ps_windows s) = ps_steps s" using s(1) by (rule onTrackD)
  have cnt: "pj_count pj = ps_steps s" using steps by (simp add: assms(4) s)
  have cfg: "projectCfg pj = planCfg i" by (simp add: projectCfg_def planCfg_def assms(4))
  have neg: "before t l = (\<not> atOrPast t l)" if "l \<noteq> LimitNaN" for t l using that by (cases l) auto
  obtain b where b: "projectWindows pj = map (windowAt (planCfg i)) [0..<b]" "b \<le> ps_steps s"
    "b = ps_steps s \<or> \<not> before (startAt (planCfg i) b) (startLimit (pw_endsOn i))"
    using projectWindows_slice [of pj] assms(1) steps unfolding cfg by (auto simp: assms(4) s)
  have "b = ps_steps s"
  proof (rule ccontr)
    assume "b \<noteq> ps_steps s"
    then have "b < ps_steps s" "atOrPast (startAt (planCfg i) b) (startLimit (pw_endsOn i))"
      using b neg [OF assms(3)] by auto
    then show False using s(1) by (simp add: onTrack_def)
  qed
  then show ?thesis
    using onTrack_slice [OF s(1) assms(2)] steps cnt by (simp add: b s drop_map)
qed

theorem projection_agrees_witness:
  "pr_windows (planWindows demo_plan) = drop 1 (projectWindows
     \<lparr>pj_members = [''ann'', ''ben'', ''cas''], pj_cycleDays = 7, pj_nextStartsAt = 0,
      pj_previous = \<lparr>rh_primary = Some ''ann'', rh_backup = None\<rparr>, pj_escalationManager = Some ''dan'',
      pj_endsOn = None, pj_count = 2\<rparr>)"
proof -
  have "length (pr_windows (planWindows demo_plan)) = 1"
    using demo_plan_windows by (metis One_nat_def length_Cons length_map list.size(3))
  then show ?thesis
    using projection_agrees [of demo_plan, OF _ _ _ refl] demo_plan_windows
    by (simp add: startLimit_def numeral_2_eq_2)
qed

end
