(* ===== verification/OrgTree.thy ===== *)
theory OrgTree
  imports JsValue "HOL-Library.AList"
begin

text \<open>
  The org directory's tree resolution (\<open>packages/org-directory/src/tree-builder.ts\<close>):
  choosing a parent for every employee of a fresh pull, and breaking the cycles that remain.
  A \<open>Map\<close> is an association list; setting a key updates it in place or appends it.
\<close>

section \<open>Data\<close>

record OrgSourceRecord =
  os_userId :: string
  os_managerId :: "string option"
  os_department :: "string option"
  os_name :: string
  os_title :: string
  os_email :: string

record PriorEmployee =
  pe_userId :: string
  pe_parentUserId :: "string option"

record ResolvedEmployee =
  re_userId :: string
  re_parentUserId :: "string option"
  re_name :: string
  re_title :: string
  re_department :: string
  re_email :: string

record OrgTreeBuildResult =
  ob_employees :: "ResolvedEmployee list"
  ob_removedUserIds :: "string list"
  ob_cyclesBroken :: nat
  ob_reparented :: nat

datatype visit = Unvisited | Visiting | VisitDone

type_synonym parent_map = "(string \<times> string option) list"
type_synonym visit_map = "(string \<times> visit) list"

definition normalizeDepartment :: "string option \<Rightarrow> string" where
  "normalizeDepartment department = toLowerCase (trim (dflt '''' department))"

section \<open>Pass 1: a parent for everyone\<close>

definition isFresh :: "OrgSourceRecord list \<Rightarrow> string \<Rightarrow> bool" where
  "isFresh fresh u = (u \<in> os_userId ` set fresh)"

definition priorOf :: "PriorEmployee list \<Rightarrow> string \<Rightarrow> PriorEmployee option" where
  "priorOf prior u = map_of (rev (map (\<lambda>p. (pe_userId p, p)) prior)) u"

definition resolveOne ::
  "OrgSourceRecord list \<Rightarrow> PriorEmployee list \<Rightarrow> OrgSourceRecord \<Rightarrow> parent_map \<times> nat \<Rightarrow> parent_map \<times> nat" where
  "resolveOne fresh prior r acc =
     (let (resolved, reparented) = acc in
      case os_managerId r of
        None \<Rightarrow> (AList.update (os_userId r) None resolved, reparented)
      | Some m \<Rightarrow>
          if isFresh fresh m then (AList.update (os_userId r) (Some m) resolved, reparented)
          else (case priorOf prior m of
                  Some pm \<Rightarrow> (AList.update (os_userId r) (pe_parentUserId pm) resolved, reparented + 1)
                | None \<Rightarrow> (AList.update (os_userId r) None resolved, reparented)))"

definition resolveParents ::
  "OrgSourceRecord list \<Rightarrow> PriorEmployee list \<Rightarrow> parent_map \<times> nat" where
  "resolveParents fresh prior = fold (resolveOne fresh prior) fresh ([], 0)"

section \<open>Pass 2: breaking cycles\<close>

definition parentOf :: "parent_map \<Rightarrow> string \<Rightarrow> string option" where
  "parentOf resolved u = (case map_of resolved u of None \<Rightarrow> None | Some p \<Rightarrow> p)"

definition unvisited :: "visit_map \<Rightarrow> nat" where
  "unvisited st = length (filter (\<lambda>p. snd p = Unvisited) st)"

lemma unvisited_update:
  "map_of st u = Some Unvisited \<Longrightarrow> v \<noteq> Unvisited \<Longrightarrow> unvisited (AList.update u v st) < unvisited st"
  by (induction st) (auto simp: unvisited_def split: if_splits)

text \<open>The walk up from one employee: the visit states, the path and where it stopped.\<close>

function walkUp ::
  "parent_map \<Rightarrow> visit_map \<Rightarrow> string list \<Rightarrow> string option \<Rightarrow> visit_map \<times> string list \<times> string option" where
  "walkUp resolved st path cursor =
     (case cursor of
        None \<Rightarrow> (st, path, None)
      | Some u \<Rightarrow>
          if map_of st u = Some Unvisited
          then walkUp resolved (AList.update u Visiting st) (path @ [u]) (parentOf resolved u)
          else (st, path, Some u))"
  by pat_completeness auto
termination
  by (relation "measure (\<lambda>(resolved, st, path, cursor). unvisited st)") (auto intro: unvisited_update)

declare walkUp.simps [simp del]

definition markDone :: "string list \<Rightarrow> visit_map \<Rightarrow> visit_map" where
  "markDone path st = fold (\<lambda>u acc. AList.update u VisitDone acc) path st"

definition breakFrom ::
  "OrgSourceRecord \<Rightarrow> parent_map \<times> visit_map \<times> nat \<Rightarrow> parent_map \<times> visit_map \<times> nat" where
  "breakFrom r acc =
     (let (resolved, st, cyclesBroken) = acc in
      if map_of st (os_userId r) \<noteq> Some Unvisited then acc
      else (let (st1, path, cursor) = walkUp resolved st [] (Some (os_userId r));
                cyclic = (case cursor of None \<Rightarrow> False | Some c \<Rightarrow> map_of st1 c = Some Visiting);
                (resolved1, broken1) =
                  (if cyclic \<and> path \<noteq> [] then (AList.update (last path) None resolved, cyclesBroken + 1)
                   else (resolved, cyclesBroken))
            in (resolved1, markDone path st1, broken1)))"

definition breakCycles :: "OrgSourceRecord list \<Rightarrow> parent_map \<Rightarrow> parent_map \<times> nat" where
  "breakCycles fresh resolved =
     (let st = fold (\<lambda>r acc. AList.update (os_userId r) Unvisited acc) fresh [];
          (resolved1, st1, broken) = fold breakFrom fresh (resolved, st, 0)
      in (resolved1, broken))"

definition toEmployee :: "parent_map \<Rightarrow> OrgSourceRecord \<Rightarrow> ResolvedEmployee" where
  "toEmployee resolved r =
     \<lparr>re_userId = os_userId r, re_parentUserId = parentOf resolved (os_userId r), re_name = os_name r,
      re_title = os_title r, re_department = normalizeDepartment (os_department r), re_email = os_email r\<rparr>"

definition buildOrgTree :: "OrgSourceRecord list \<Rightarrow> PriorEmployee list \<Rightarrow> OrgTreeBuildResult" where
  "buildOrgTree fresh prior =
     (let (resolved, reparented) = resolveParents fresh prior;
          (resolved1, cyclesBroken) = breakCycles fresh resolved
      in \<lparr>ob_employees = map (toEmployee resolved1) fresh,
          ob_removedUserIds = filter (\<lambda>u. \<not> isFresh fresh u) (map pe_userId prior),
          ob_cyclesBroken = cyclesBroken, ob_reparented = reparented\<rparr>)"

section \<open>Every chain of parents ends\<close>

text \<open>An employee whose chain of parents reaches someone without a resolved parent.\<close>

inductive grounded :: "parent_map \<Rightarrow> string \<Rightarrow> bool" for resolved where
  top: "parentOf resolved u = None \<Longrightarrow> grounded resolved u"
| up: "parentOf resolved u = Some p \<Longrightarrow> grounded resolved p \<Longrightarrow> grounded resolved u"

inductive_simps grounded_step: "grounded resolved u"

lemma parentOf_update [simp]:
  "parentOf (AList.update u p resolved) x = (if x = u then p else parentOf resolved x)"
  by (simp add: parentOf_def update_conv')

lemma grounded_cut: "grounded resolved u \<Longrightarrow> grounded (AList.update c None resolved) u"
proof (induction rule: grounded.induct)
  case (top u)
  then show ?case by (intro grounded.top) auto
next
  case (up u p)
  then show ?case
    by (cases "u = c") (auto intro: grounded.intros)
qed

text \<open>A path whose members are each other's parents is grounded if its last member is.\<close>

fun linked :: "parent_map \<Rightarrow> string list \<Rightarrow> string option \<Rightarrow> bool" where
  "linked resolved [] c = True"
| "linked resolved [u] c = (parentOf resolved u = c)"
| "linked resolved (u # v # path) c = (parentOf resolved u = Some v \<and> linked resolved (v # path) c)"

lemma linked_snoc:
  "linked resolved path (Some u) \<Longrightarrow> linked resolved (path @ [u]) (parentOf resolved u)"
  by (induction path "Some u" rule: linked.induct) auto

lemma linked_grounded:
  assumes "linked resolved path c" "path \<noteq> []" "\<And>x. c = Some x \<Longrightarrow> grounded resolved x" "u \<in> set path"
  shows "grounded resolved u"
  using assms
proof (induction resolved path c arbitrary: u rule: linked.induct)
  case (2 resolved v c)
  then show ?case by (cases c) (auto intro: grounded.intros)
next
  case (3 resolved v w path c)
  then have "\<And>x. x \<in> set (w # path) \<Longrightarrow> grounded resolved x" by simp
  then show ?case using 3 by (auto intro: grounded.up)
qed simp

lemma linked_cut:
  assumes "linked resolved path c" "distinct path" "path \<noteq> []"
  shows "linked (AList.update (last path) None resolved) path None"
  using assms
  by (induction resolved path c rule: linked.induct) auto

lemma walkUp_result:
  assumes "walkUp resolved st path cursor = (st1, path1, cursor1)"
    and "linked resolved path cursor" "distinct path" "\<forall>u. map_of st u = Some Visiting \<longleftrightarrow> u \<in> set path"
  shows "linked resolved path1 cursor1 \<and> distinct path1 \<and> prefix path path1 \<and>
    (\<forall>u. map_of st1 u = Some Visiting \<longleftrightarrow> u \<in> set path1) \<and>
    (\<forall>u. u \<notin> set path1 \<longrightarrow> map_of st1 u = map_of st u) \<and>
    (\<forall>u. map_of st1 u = None \<longleftrightarrow> map_of st u = None) \<and>
    (\<forall>c. cursor1 = Some c \<longrightarrow> map_of st1 c \<noteq> Some Unvisited)"
  using assms
proof (induction resolved st path cursor rule: walkUp.induct)
  case (1 resolved st path cursor)
  show ?case
  proof (cases "\<exists>u. cursor = Some u \<and> map_of st u = Some Unvisited")
    case False
    then have "(st1, path1, cursor1) = (st, path, cursor)"
      using "1.prems"(1) by (subst (asm) walkUp.simps) (auto split: option.splits if_splits)
    then show ?thesis using "1.prems" False by auto
  next
    case True
    then obtain u where u: "cursor = Some u" "map_of st u = Some Unvisited" by blast
    have new: "u \<notin> set path" using u(2) "1.prems"(4) by (metis option.inject visit.distinct(1))
    have rec: "walkUp resolved (AList.update u Visiting st) (path @ [u]) (parentOf resolved u) = (st1, path1, cursor1)"
      using "1.prems"(1) u by (subst (asm) walkUp.simps) simp
    have "linked resolved path1 cursor1 \<and> distinct path1 \<and> prefix (path @ [u]) path1 \<and>
      (\<forall>x. map_of st1 x = Some Visiting \<longleftrightarrow> x \<in> set path1) \<and>
      (\<forall>x. x \<notin> set path1 \<longrightarrow> map_of st1 x = map_of (AList.update u Visiting st) x) \<and>
      (\<forall>x. map_of st1 x = None \<longleftrightarrow> map_of (AList.update u Visiting st) x = None) \<and>
      (\<forall>c. cursor1 = Some c \<longrightarrow> map_of st1 c \<noteq> Some Unvisited)"
      using u new "1.prems"(2-4) linked_snoc
      by (intro "1.IH" [OF u rec]) (auto simp: update_conv')
    moreover from this have "u \<in> set path1" "prefix path path1"
      by (auto simp: prefix_def)
    ultimately show ?thesis using u(2) by (auto simp: update_conv')
  qed
qed

text \<open>What holds between two walks.\<close>

definition settled :: "parent_map \<Rightarrow> visit_map \<Rightarrow> bool" where
  "settled resolved st \<longleftrightarrow>
     (\<forall>u. map_of st u \<noteq> Some Visiting) \<and>
     (\<forall>u. map_of st u = Some VisitDone \<longrightarrow> grounded resolved u) \<and>
     (\<forall>u. map_of st u = None \<longrightarrow> parentOf resolved u = None)"

lemma map_of_markDone: "map_of (markDone path st) u = (if u \<in> set path then Some VisitDone else map_of st u)"
  by (induction path arbitrary: st) (auto simp: markDone_def update_conv')

lemma walkUp_prefix: "prefix path (fst (snd (walkUp resolved st path c)))"
proof (induction resolved st path c rule: walkUp.induct)
  case (1 resolved st path c)
  then show ?case
    by (subst walkUp.simps) (auto split: option.splits dest: append_prefixD)
qed

lemma walkUp_path_nonempty:
  assumes "walkUp resolved st [] (Some u) = (st1, path, cursor)" "map_of st u = Some Unvisited"
  shows "u \<in> set path"
proof -
  have "walkUp resolved (AList.update u Visiting st) [u] (parentOf resolved u) = (st1, path, cursor)"
    using assms by (subst (asm) walkUp.simps) simp
  then show ?thesis
    using walkUp_prefix [of "[u]" resolved "AList.update u Visiting st" "parentOf resolved u"]
    by (auto simp: prefix_def)
qed

lemma breakFrom_settled:
  assumes set: "settled resolved st" and run: "breakFrom r (resolved, st, n) = (resolved1, st1, n1)"
  shows "settled resolved1 st1 \<and> (\<forall>u. map_of st u = Some VisitDone \<longrightarrow> map_of st1 u = Some VisitDone) \<and>
    (map_of st (os_userId r) \<noteq> None \<longrightarrow> map_of st1 (os_userId r) = Some VisitDone) \<and>
    (\<forall>u. map_of st1 u = None \<longleftrightarrow> map_of st u = None) \<and>
    (\<forall>u. parentOf resolved1 u \<in> {parentOf resolved u, None})"
proof (cases "map_of st (os_userId r) = Some Unvisited")
  case False
  then have "map_of st (os_userId r) = None \<or> map_of st (os_userId r) = Some VisitDone"
    using set visit.exhaust unfolding settled_def by (metis option.exhaust)
  then show ?thesis using set run False by (auto simp: breakFrom_def)
next
  case True
  obtain stw path cursor where w: "walkUp resolved st [] (Some (os_userId r)) = (stw, path, cursor)"
    by (cases "walkUp resolved st [] (Some (os_userId r))")
  have own: "os_userId r \<in> set path" by (rule walkUp_path_nonempty [OF w True])
  then have ne: "path \<noteq> []" by auto
  have lk: "linked resolved path cursor" "distinct path"
    and vis: "\<And>u. map_of stw u = Some Visiting \<longleftrightarrow> u \<in> set path"
    and keep: "\<And>u. u \<notin> set path \<Longrightarrow> map_of stw u = map_of st u"
    and dom: "\<And>u. map_of stw u = None \<longleftrightarrow> map_of st u = None"
    and stop: "\<And>c. cursor = Some c \<Longrightarrow> map_of stw c \<noteq> Some Unvisited"
    using walkUp_result [OF w] set by (auto simp: settled_def)
  define cyclic where "cyclic = (case cursor of None \<Rightarrow> False | Some c \<Rightarrow> map_of stw c = Some Visiting)"
  define rs where "rs = (if cyclic then AList.update (last path) None resolved else resolved)"
  have res: "resolved1 = rs" "st1 = markDone path stw"
    using run True ne by (auto simp: breakFrom_def w Let_def cyclic_def rs_def split: if_splits)
  have old: "grounded rs u" if "grounded resolved u" for u
    using that grounded_cut by (simp add: rs_def)
  have path: "grounded rs u" if "u \<in> set path" for u
  proof (cases cyclic)
    case True
    then show ?thesis
      using linked_grounded [OF linked_cut [OF lk ne] ne _ that] by (simp add: rs_def)
  next
    case False
    have "grounded resolved c" if c: "cursor = Some c" for c
    proof -
      have "map_of stw c \<noteq> Some Visiting" using False c by (simp add: cyclic_def)
      then have out: "c \<notin> set path" and "map_of stw c = None \<or> map_of stw c = Some VisitDone"
        using vis stop [OF c] visit.exhaust by (blast, metis option.exhaust)
      then show ?thesis
        using set keep [OF out] dom [of c] by (auto simp: settled_def intro: grounded.top)
    qed
    then show ?thesis using linked_grounded [OF lk(1) ne _ that] old by blast
  qed
  have "settled resolved1 st1"
    unfolding settled_def res map_of_markDone
    using set path old vis keep dom lk ne
    by (auto simp: settled_def rs_def split: if_splits)
  moreover have "map_of st u = Some VisitDone \<Longrightarrow> map_of st1 u = Some VisitDone" for u
    using keep [of u] by (simp add: res map_of_markDone)
  moreover have "map_of st1 u = None \<longleftrightarrow> map_of st u = None" for u
    using dom [of u] vis [of u] by (auto simp: res map_of_markDone)
  ultimately show ?thesis
    using own by (auto simp: res map_of_markDone rs_def)
qed

lemma fold_breakFrom:
  assumes "settled resolved st" and "\<forall>r \<in> set rs. map_of st (os_userId r) \<noteq> None"
    and "fold breakFrom rs (resolved, st, n) = (resolved1, st1, n1)"
  shows "settled resolved1 st1 \<and> (\<forall>u. map_of st u = Some VisitDone \<longrightarrow> map_of st1 u = Some VisitDone) \<and>
    (\<forall>r \<in> set rs. map_of st1 (os_userId r) = Some VisitDone) \<and>
    (\<forall>u. parentOf resolved1 u \<in> {parentOf resolved u, None})"
  using assms
proof (induction rs arbitrary: resolved st n)
  case Nil
  then show ?case by simp
next
  case (Cons r rs)
  obtain resolved2 st2 n2 where step: "breakFrom r (resolved, st, n) = (resolved2, st2, n2)"
    by (cases "breakFrom r (resolved, st, n)")
  note b = breakFrom_settled [OF Cons.prems(1) step]
  have "settled resolved1 st1 \<and> (\<forall>u. map_of st2 u = Some VisitDone \<longrightarrow> map_of st1 u = Some VisitDone) \<and>
    (\<forall>r \<in> set rs. map_of st1 (os_userId r) = Some VisitDone) \<and>
    (\<forall>u. parentOf resolved1 u \<in> {parentOf resolved2 u, None})"
    using Cons.prems(2,3) b step by (intro Cons.IH [of resolved2 st2 n2]) auto
  moreover from this b have "parentOf resolved1 u \<in> {parentOf resolved u, None}" for u
    by (metis insert_iff singletonD)
  ultimately show ?case using b Cons.prems(2) by auto
qed

section \<open>The result is a forest\<close>

definition parentRel :: "parent_map \<Rightarrow> (string \<times> string) set" where
  "parentRel resolved = {(u, p). parentOf resolved u = Some p}"

lemma grounded_no_cycle: "grounded resolved u \<Longrightarrow> (u, u) \<notin> (parentRel resolved)\<^sup>+"
proof (induction rule: grounded.induct)
  case (top u)
  show ?case
  proof
    assume "(u, u) \<in> (parentRel resolved)\<^sup>+"
    then show False by (cases rule: converse_tranclE) (use top in \<open>auto simp: parentRel_def\<close>)
  qed
next
  case (up u p)
  show ?case
  proof
    assume "(u, u) \<in> (parentRel resolved)\<^sup>+"
    moreover have only: "\<And>q. (u, q) \<in> parentRel resolved \<Longrightarrow> q = p"
      using up(1) by (simp add: parentRel_def)
    ultimately have "(p, u) \<in> (parentRel resolved)\<^sup>*"
      by (metis tranclD)
    moreover have "(u, p) \<in> parentRel resolved" using up(1) by (simp add: parentRel_def)
    ultimately have "(p, p) \<in> (parentRel resolved)\<^sup>+" by (rule rtrancl_into_trancl1)
    then show False using up(3) by blast
  qed
qed

lemma linked_trancl:
  "linked resolved path (Some c) \<Longrightarrow> u \<in> set path \<Longrightarrow> (u, c) \<in> (parentRel resolved)\<^sup>+"
proof (induction resolved path "Some c" arbitrary: u rule: linked.induct)
  case (3 resolved v w path)
  have "(w, c) \<in> (parentRel resolved)\<^sup>+" using 3 by simp
  moreover have "(v, w) \<in> parentRel resolved" using 3 by (simp add: parentRel_def)
  ultimately show ?case using 3 by (auto intro: trancl_into_trancl2)
qed (auto simp: parentRel_def)

section \<open>One cut per cycle\<close>

text \<open>Who has lost the parent pass 1 chose.\<close>

definition cutFrom :: "parent_map \<Rightarrow> parent_map \<Rightarrow> string set" where
  "cutFrom r0 resolved = {u. parentOf r0 u \<noteq> None \<and> parentOf resolved u = None}"

definition cutInv :: "parent_map \<Rightarrow> parent_map \<Rightarrow> visit_map \<Rightarrow> nat \<Rightarrow> bool" where
  "cutInv r0 resolved st n \<longleftrightarrow>
     (\<forall>u. parentOf resolved u \<in> {parentOf r0 u, None}) \<and> finite (cutFrom r0 resolved) \<and> card (cutFrom r0 resolved) = n \<and>
     (\<forall>u \<in> cutFrom r0 resolved. map_of st u = Some VisitDone \<and> (u, u) \<in> (parentRel r0)\<^sup>+) \<and>
     (\<forall>u \<in> cutFrom r0 resolved. \<forall>v \<in> cutFrom r0 resolved. (u, v) \<in> (parentRel r0)\<^sup>+ \<longrightarrow> u = v)"

lemma walkUp_unvisited:
  "walkUp resolved st path c = (st1, path1, c1) \<Longrightarrow> u \<in> set path1 \<Longrightarrow> u \<in> set path \<or> map_of st u = Some Unvisited"
proof (induction resolved st path c rule: walkUp.induct)
  case (1 resolved st path c)
  show ?case
  proof (cases "\<exists>v. c = Some v \<and> map_of st v = Some Unvisited")
    case True
    then obtain v where v: "c = Some v" "map_of st v = Some Unvisited" by blast
    have rec: "walkUp resolved (AList.update v Visiting st) (path @ [v]) (parentOf resolved v) = (st1, path1, c1)"
      using "1.prems"(1) v by (subst (asm) walkUp.simps) simp
    show ?thesis using "1.IH" [OF v rec "1.prems"(2)] v by (auto simp: update_conv' split: if_splits)
  next
    case False
    then have "path1 = path"
      using "1.prems"(1) by (subst (asm) walkUp.simps) (auto split: option.splits if_splits)
    then show ?thesis using "1.prems"(2) by simp
  qed
qed

lemma linked_last: "linked resolved path c \<Longrightarrow> u \<in> set path \<Longrightarrow> (u, last path) \<in> (parentRel resolved)\<^sup>*"
proof (induction resolved path c arbitrary: u rule: linked.induct)
  case (3 resolved v w path c)
  have "(w, last (w # path)) \<in> (parentRel resolved)\<^sup>*" using 3 by simp
  moreover have "(v, w) \<in> parentRel resolved" using 3 by (simp add: parentRel_def)
  ultimately show ?case using 3 by (auto intro: converse_rtrancl_into_rtrancl)
qed auto

lemma linked_next:
  "linked resolved path (Some c) \<Longrightarrow> u \<in> set path \<Longrightarrow> \<exists>p. parentOf resolved u = Some p \<and> (p \<in> set path \<or> p = c)"
  by (induction resolved path "Some c" rule: linked.induct) auto

lemma linked_cong: "(\<And>u. u \<in> set path \<Longrightarrow> parentOf a u = parentOf b u) \<Longrightarrow> linked a path c = linked b path c"
  by (induction a path c rule: linked.induct) auto

lemma parentRel_unique: "(u, p) \<in> parentRel r0 \<Longrightarrow> (u, q) \<in> parentRel r0 \<Longrightarrow> p = q"
  by (simp add: parentRel_def)

text \<open>Whoever can be reached from a member of a cycle is a member too.\<close>

lemma cycle_back:
  assumes "(u, v) \<in> (parentRel r0)\<^sup>+" "(u, u) \<in> (parentRel r0)\<^sup>+"
  shows "(v, u) \<in> (parentRel r0)\<^sup>+"
  using assms
proof (induction rule: trancl_induct)
  case (base y)
  then obtain z where "(u, z) \<in> parentRel r0" "(z, u) \<in> (parentRel r0)\<^sup>*" by (metis tranclD)
  then have "(y, u) \<in> (parentRel r0)\<^sup>*" using parentRel_unique base(1) by metis
  then show ?case using base(1) by (metis rtrancl_into_trancl1 rtrancl_into_trancl2 r_into_trancl' rtranclD trancl_trans)
next
  case (step y z)
  then obtain w where "(y, w) \<in> parentRel r0" "(w, u) \<in> (parentRel r0)\<^sup>*" by (metis tranclD)
  then have "(z, u) \<in> (parentRel r0)\<^sup>*" using parentRel_unique step(2) by metis
  then show ?case using step.prems by (metis rtrancl_trancl_trancl)
qed

lemma closed_trancl: "(u, v) \<in> R\<^sup>+ \<Longrightarrow> u \<in> S \<Longrightarrow> (\<And>a b. a \<in> S \<Longrightarrow> (a, b) \<in> R \<Longrightarrow> b \<in> S) \<Longrightarrow> v \<in> S"
  by (induction rule: trancl_induct) auto

lemma breakFrom_cutInv:
  assumes set: "settled resolved st" and inv: "cutInv r0 resolved st n"
    and run: "breakFrom r (resolved, st, n) = (resolved1, st1, n1)"
  shows "cutInv r0 resolved1 st1 n1"
proof (cases "map_of st (os_userId r) = Some Unvisited")
  case False
  then show ?thesis using inv run by (simp add: breakFrom_def)
next
  case True
  obtain stw path cursor where w: "walkUp resolved st [] (Some (os_userId r)) = (stw, path, cursor)"
    by (cases "walkUp resolved st [] (Some (os_userId r))")
  have ne: "path \<noteq> []" using walkUp_path_nonempty [OF w True] by auto
  have lk: "linked resolved path cursor" and vis: "\<And>u. map_of stw u = Some Visiting \<longleftrightarrow> u \<in> set path"
    and keep: "\<And>u. u \<notin> set path \<Longrightarrow> map_of stw u = map_of st u"
    using walkUp_result [OF w] set by (auto simp: settled_def)
  have new: "map_of st u = Some Unvisited" if "u \<in> set path" for u using walkUp_unvisited [OF w that] by simp
  have kept: "map_of (markDone path stw) u = Some VisitDone" if "map_of st u = Some VisitDone" for u
    using that keep [of u] by (simp add: map_of_markDone)
  show ?thesis
  proof (cases "\<exists>c. cursor = Some c \<and> c \<in> set path")
    case False
    then have "resolved1 = resolved" "st1 = markDone path stw" "n1 = n"
      using run True vis by (auto simp: breakFrom_def w Let_def split: option.splits)
    then show ?thesis using inv kept by (simp add: cutInv_def)
  next
    case True
    then obtain c where c: "cursor = Some c" "c \<in> set path" by blast
    let ?l = "last path" and ?R = "parentRel r0"
    have res: "resolved1 = AList.update ?l None resolved" "st1 = markDone path stw" "n1 = n + 1"
      using run \<open>map_of st (os_userId r) = Some Unvisited\<close> vis [of c] c ne by (auto simp: breakFrom_def w Let_def)
    have same: "parentOf resolved u = parentOf r0 u" if "u \<in> set path" for u
      using inv linked_next [OF lk [unfolded c(1)] that] unfolding cutInv_def by (metis insert_iff option.distinct(1) singletonD)
    have lk0: "linked r0 path (Some c)" using lk c(1) linked_cong [of path resolved r0] same by simp
    have l: "?l \<in> set path" using ne by simp
    have cyc: "(?l, ?l) \<in> ?R\<^sup>+" using linked_trancl [OF lk0 l] linked_last [OF lk0 c(2)] by (rule trancl_rtrancl_trancl)
    have closed: "v \<in> set path" if "(?l, v) \<in> ?R\<^sup>+" for v
      using that l
    proof (rule closed_trancl)
      show "b \<in> set path" if "a \<in> set path" "(a, b) \<in> ?R" for a b
        using linked_next [OF lk0 that(1)] that(2) c(2) by (auto simp: parentRel_def)
    qed
    have cut: "cutFrom r0 resolved1 = insert ?l (cutFrom r0 resolved)"
      using linked_next [OF lk0 l] by (auto simp: cutFrom_def res)
    have old: "u \<notin> set path" if "u \<in> cutFrom r0 resolved" for u
      using inv that new [of u] unfolding cutInv_def by fastforce
    have out: "?l \<notin> cutFrom r0 resolved" using old l by blast
    have apart: "(?l, u) \<notin> ?R\<^sup>+" "(u, ?l) \<notin> ?R\<^sup>+" if u: "u \<in> cutFrom r0 resolved" for u
    proof -
      show no: "(?l, u) \<notin> ?R\<^sup>+" using closed old [OF u] by blast
      have "(u, u) \<in> ?R\<^sup>+" using inv u unfolding cutInv_def by blast
      then show "(u, ?l) \<notin> ?R\<^sup>+" using no cycle_back [of u ?l r0] by blast
    qed
    have "\<forall>u. parentOf resolved1 u \<in> {parentOf r0 u, None}" using inv by (auto simp: cutInv_def res)
    moreover have "finite (cutFrom r0 resolved1)" "card (cutFrom r0 resolved1) = n1"
      using inv out unfolding cutInv_def cut res(3) by auto
    moreover have "map_of st1 u = Some VisitDone \<and> (u, u) \<in> ?R\<^sup>+" if "u \<in> cutFrom r0 resolved1" for u
    proof (cases "u = ?l")
      case True
      then show ?thesis using cyc l by (simp add: res(2) map_of_markDone)
    next
      case False
      then have "u \<in> cutFrom r0 resolved" using that cut by simp
      then show ?thesis using inv kept [of u] unfolding cutInv_def res(2) by blast
    qed
    moreover have "u = v" if "u \<in> cutFrom r0 resolved1" "v \<in> cutFrom r0 resolved1" "(u, v) \<in> ?R\<^sup>+" for u v
      using that inv apart unfolding cutInv_def cut by blast
    ultimately show ?thesis unfolding cutInv_def by blast
  qed
qed

lemma fold_breakFrom_cutInv:
  "settled resolved st \<Longrightarrow> cutInv r0 resolved st n \<Longrightarrow> fold breakFrom rs (resolved, st, n) = (resolved1, st1, n1) \<Longrightarrow>
    cutInv r0 resolved1 st1 n1"
proof (induction rs arbitrary: resolved st n)
  case (Cons r rs)
  obtain resolved2 st2 n2 where step: "breakFrom r (resolved, st, n) = (resolved2, st2, n2)"
    by (cases "breakFrom r (resolved, st, n)")
  have "settled resolved2 st2" using breakFrom_settled [OF Cons.prems(1) step] by blast
  moreover have "fold breakFrom rs (resolved2, st2, n2) = (resolved1, st1, n1)" using Cons.prems(3) step by simp
  ultimately show ?case using Cons.IH breakFrom_cutInv [OF Cons.prems(1,2) step] by blast
qed simp

text \<open>A cycle that has lost none of its edges would still be there.\<close>

lemma cycle_has_cut:
  assumes "\<And>u. grounded resolved u" "\<And>u. parentOf resolved u \<in> {parentOf r0 u, None}" "(u, u) \<in> (parentRel r0)\<^sup>+"
  shows "\<exists>v \<in> cutFrom r0 resolved. (u, v) \<in> (parentRel r0)\<^sup>+"
proof (rule ccontr)
  assume no: "\<not> ?thesis"
  have keep: "(v, p) \<in> parentRel resolved" if "(u, v) \<in> (parentRel r0)\<^sup>+" "(v, p) \<in> parentRel r0" for v p
  proof -
    have "v \<notin> cutFrom r0 resolved" using no that(1) by blast
    then show ?thesis using that(2) assms(2) [of v] by (auto simp: cutFrom_def parentRel_def)
  qed
  have "(u, v) \<in> (parentRel resolved)\<^sup>+" if "(u, v) \<in> (parentRel r0)\<^sup>+" for v
    using that
  proof (induction rule: trancl_induct)
    case (base y)
    then show ?case using keep [OF assms(3)] by blast
  next
    case (step y z)
    show ?case using step.IH keep [OF step.hyps] by (rule trancl_into_trancl)
  qed
  then show False using assms(1,3) grounded_no_cycle by blast
qed

section \<open>What is built\<close>

text \<open>The parent pass 1 picks for a record.\<close>

definition chosenParent :: "OrgSourceRecord list \<Rightarrow> PriorEmployee list \<Rightarrow> OrgSourceRecord \<Rightarrow> string option" where
  "chosenParent fresh prior r =
     (case os_managerId r of
        None \<Rightarrow> None
      | Some m \<Rightarrow> if isFresh fresh m then Some m else Option.bind (priorOf prior m) pe_parentUserId)"

lemma resolveOne_fst:
  "fst (resolveOne fresh prior r acc) = AList.update (os_userId r) (chosenParent fresh prior r) (fst acc)"
  by (cases acc) (auto simp: resolveOne_def chosenParent_def split: option.splits)

lemma map_of_fold_update:
  "map_of (fold (\<lambda>r acc. AList.update (k r) (f r) acc) rs al) u =
     (if u \<in> k ` set rs then Some (f (last (filter (\<lambda>r. k r = u) rs))) else map_of al u)"
  by (induction rs arbitrary: al) (auto simp: update_conv' filter_empty_conv)

lemma fst_fold_resolveOne:
  "fst (fold (resolveOne fresh prior) rs acc) =
   fold (\<lambda>r m. AList.update (os_userId r) (chosenParent fresh prior r) m) rs (fst acc)"
  by (induction rs arbitrary: acc) (simp_all add: resolveOne_fst)

lemma parentOf_resolveParents:
  "parentOf (fst (resolveParents fresh prior)) u =
     (if isFresh fresh u then chosenParent fresh prior (last (filter (\<lambda>r. os_userId r = u) fresh)) else None)"
  by (simp add: resolveParents_def fst_fold_resolveOne parentOf_def map_of_fold_update isFresh_def)

lemma distinct_last_filter:
  "distinct (map k rs) \<Longrightarrow> r \<in> set rs \<Longrightarrow> last (filter (\<lambda>x. k x = k r) rs) = r"
proof (induction rs)
  case (Cons a rs)
  then show ?case
    by (cases "r = a") (auto simp: filter_empty_conv image_iff)
qed simp

lemma initially_settled:
  assumes "\<And>u. \<not> isFresh fresh u \<Longrightarrow> parentOf resolved u = None"
  shows "settled resolved (fold (\<lambda>r acc. AList.update (os_userId r) Unvisited acc) fresh [])"
  using assms by (auto simp: settled_def map_of_fold_update isFresh_def split: if_splits)

text \<open>The final parent map, with what is known of it.\<close>

lemma buildOrgTree_parents:
  obtains resolved where
    "ob_employees (buildOrgTree fresh prior) = map (toEmployee resolved) fresh"
    "\<And>u. grounded resolved u"
    "\<And>u. parentOf resolved u \<in> {parentOf (fst (resolveParents fresh prior)) u, None}"
    "\<exists>st. cutInv (fst (resolveParents fresh prior)) resolved st (ob_cyclesBroken (buildOrgTree fresh prior))"
proof -
  define r0 where "r0 = fst (resolveParents fresh prior)"
  define st where "st = fold (\<lambda>r acc. AList.update (os_userId r) Unvisited acc) fresh ([] :: visit_map)"
  obtain resolved st1 n where run: "fold breakFrom fresh (r0, st, 0) = (resolved, st1, n)"
    by (cases "fold breakFrom fresh (r0, st, 0)")
  have none: "\<not> isFresh fresh u \<Longrightarrow> parentOf r0 u = None" for u
    by (simp add: r0_def parentOf_resolveParents)
  have set: "settled r0 st" unfolding st_def by (rule initially_settled [OF none])
  have "map_of st (os_userId r) \<noteq> None" if "r \<in> set fresh" for r
    using that by (simp add: st_def map_of_fold_update)
  then have f: "settled resolved st1" "\<And>r. r \<in> set fresh \<Longrightarrow> map_of st1 (os_userId r) = Some VisitDone"
    "\<And>u. parentOf resolved u \<in> {parentOf r0 u, None}"
    using fold_breakFrom [OF set _ run] by auto
  have build: "ob_employees (buildOrgTree fresh prior) = map (toEmployee resolved) fresh"
    "ob_cyclesBroken (buildOrgTree fresh prior) = n"
    using run by (auto simp: buildOrgTree_def breakCycles_def Let_def r0_def st_def split: prod.splits)
  have ground: "grounded resolved u" for u
  proof (cases "isFresh fresh u")
    case True
    then show ?thesis using f(1,2) by (auto simp: settled_def isFresh_def)
  next
    case False
    then show ?thesis using none [OF False] f(3) [of u] by (intro grounded.top) auto
  qed
  have "cutFrom r0 r0 = {}" by (auto simp: cutFrom_def)
  then have "cutInv r0 r0 st 0" by (simp add: cutInv_def)
  then have "cutInv r0 resolved st1 n" using fold_breakFrom_cutInv [OF set _ run] by blast
  then show ?thesis using that [OF build(1) ground] f(3) build(2) unfolding r0_def by blast
qed

lemma buildOrgTree_removed:
  "set (ob_removedUserIds (buildOrgTree fresh prior)) = pe_userId ` set prior - os_userId ` set fresh"
  by (auto simp: buildOrgTree_def isFresh_def split: prod.splits)

definition managerRel :: "ResolvedEmployee list \<Rightarrow> (string \<times> string) set" where
  "managerRel es = {(u, p). \<exists>e \<in> set es. re_userId e = u \<and> re_parentUserId e = Some p}"

text \<open>
  C14. Whatever the directory delivers, the resolved organisation has no cycle: following
  managers upward from any employee never comes back. This also holds where moving someone
  to a departed manager's own manager closes a loop that the pull did not contain.
\<close>
theorem buildOrgTree_acyclic: "acyclic (managerRel (ob_employees (buildOrgTree fresh prior)))"
proof -
  obtain resolved where es: "ob_employees (buildOrgTree fresh prior) = map (toEmployee resolved) fresh"
    and ground: "\<And>u. grounded resolved u"
    using buildOrgTree_parents by metis
  have "managerRel (ob_employees (buildOrgTree fresh prior)) \<subseteq> parentRel resolved"
    by (auto simp: es managerRel_def parentRel_def toEmployee_def)
  moreover have "acyclic (parentRel resolved)"
    using grounded_no_cycle ground by (auto simp: acyclic_def)
  ultimately show ?thesis using acyclic_subset by blast
qed

definition chosenRel :: "OrgSourceRecord list \<Rightarrow> PriorEmployee list \<Rightarrow> (string \<times> string) set" where
  "chosenRel fresh prior = {(os_userId r, p) | r p. r \<in> set fresh \<and> chosenParent fresh prior r = Some p}"

text \<open>The employees under the root for whom pass 1 had chosen someone.\<close>

definition movedToRoot :: "OrgSourceRecord list \<Rightarrow> PriorEmployee list \<Rightarrow> string set" where
  "movedToRoot fresh prior =
     {os_userId r | r e. (r, e) \<in> set (zip fresh (ob_employees (buildOrgTree fresh prior))) \<and>
        chosenParent fresh prior r \<noteq> None \<and> re_parentUserId e = None}"

lemma parentOf_chosen:
  assumes "distinct (map os_userId fresh)" "r \<in> set fresh"
  shows "parentOf (fst (resolveParents fresh prior)) (os_userId r) = chosenParent fresh prior r"
  using assms(2) distinct_last_filter [OF assms] by (simp add: parentOf_resolveParents isFresh_def)

lemma parentRel_chosen:
  assumes "distinct (map os_userId fresh)"
  shows "parentRel (fst (resolveParents fresh prior)) = chosenRel fresh prior"
  using parentOf_chosen [OF assms]
  by (force simp: parentRel_def chosenRel_def parentOf_resolveParents isFresh_def split: if_splits)

text \<open>
  C15. Each employee ends up under the parent pass 1 chose (the manager if present, else the departed manager's own
  manager, else the root), except that every cycle among these choices is opened at exactly one point: whoever is moved
  to the root instead is on such a cycle, no two of them are on the same one, every cycle has one, and they are as many
  as the breaks counted. Everyone in the pull is listed once and in order, and exactly the formerly known users missing
  from the pull are removed.
\<close>
theorem buildOrgTree_faithful:
  assumes "distinct (map os_userId fresh)"
  shows "map re_userId (ob_employees (buildOrgTree fresh prior)) = map os_userId fresh \<and>
    (\<forall>i < length fresh. re_parentUserId (ob_employees (buildOrgTree fresh prior) ! i) =
       (if os_userId (fresh ! i) \<in> movedToRoot fresh prior then None else chosenParent fresh prior (fresh ! i))) \<and>
    (\<forall>u \<in> movedToRoot fresh prior. (u, u) \<in> (chosenRel fresh prior)\<^sup>+) \<and>
    (\<forall>u \<in> movedToRoot fresh prior. \<forall>v \<in> movedToRoot fresh prior. (u, v) \<in> (chosenRel fresh prior)\<^sup>+ \<longrightarrow> u = v) \<and>
    (\<forall>u. (u, u) \<in> (chosenRel fresh prior)\<^sup>+ \<longrightarrow> (\<exists>v \<in> movedToRoot fresh prior. (u, v) \<in> (chosenRel fresh prior)\<^sup>+)) \<and>
    card (movedToRoot fresh prior) = ob_cyclesBroken (buildOrgTree fresh prior) \<and>
    set (ob_removedUserIds (buildOrgTree fresh prior)) = pe_userId ` set prior - os_userId ` set fresh"
proof -
  obtain resolved where es: "ob_employees (buildOrgTree fresh prior) = map (toEmployee resolved) fresh"
    and ground: "\<And>u. grounded resolved u"
    and cut: "\<exists>st. cutInv (fst (resolveParents fresh prior)) resolved st (ob_cyclesBroken (buildOrgTree fresh prior))"
    using buildOrgTree_parents by metis
  let ?r0 = "fst (resolveParents fresh prior)"
  obtain st1 where inv: "cutInv ?r0 resolved st1 (ob_cyclesBroken (buildOrgTree fresh prior))" using cut by blast
  then have par: "parentOf resolved u \<in> {parentOf ?r0 u, None}" for u by (simp add: cutInv_def)
  note chosen = parentOf_chosen [OF assms, of _ prior]
  have pair: "(r, e) \<in> set (zip fresh (map (toEmployee resolved) fresh)) \<longleftrightarrow> r \<in> set fresh \<and> e = toEmployee resolved r" for r e
    by (auto simp: zip_map2 zip_same_conv_map)
  have moved: "movedToRoot fresh prior = cutFrom ?r0 resolved"
    unfolding movedToRoot_def es pair cutFrom_def
    using chosen by (force simp: toEmployee_def parentOf_resolveParents isFresh_def split: if_splits)
  have "re_parentUserId (ob_employees (buildOrgTree fresh prior) ! i) =
      (if os_userId (fresh ! i) \<in> movedToRoot fresh prior then None else chosenParent fresh prior (fresh ! i))"
    if "i < length fresh" for i
    using par [of "os_userId (fresh ! i)"] chosen [OF nth_mem [OF that]] that
    by (auto simp: es toEmployee_def moved cutFrom_def)
  moreover have "\<exists>v \<in> movedToRoot fresh prior. (u, v) \<in> (chosenRel fresh prior)\<^sup>+" if "(u, u) \<in> (chosenRel fresh prior)\<^sup>+" for u
    using cycle_has_cut [OF ground par] that unfolding moved parentRel_chosen [OF assms] by blast
  moreover have "map re_userId (ob_employees (buildOrgTree fresh prior)) = map os_userId fresh"
    by (simp add: es toEmployee_def)
  ultimately show ?thesis
    using inv unfolding cutInv_def moved parentRel_chosen [OF assms] by (simp add: buildOrgTree_removed)
qed

definition demo_fresh :: "OrgSourceRecord list" where
  "demo_fresh =
     [\<lparr>os_userId = ''a'', os_managerId = Some ''b'', os_department = Some '' Ops '', os_name = ''A'',
       os_title = '''', os_email = ''''\<rparr>,
      \<lparr>os_userId = ''b'', os_managerId = Some ''gone'', os_department = None, os_name = ''B'',
       os_title = '''', os_email = ''''\<rparr>]"

theorem buildOrgTree_faithful_witness:
  "distinct (map os_userId demo_fresh) \<and>
   map re_userId (ob_employees (buildOrgTree demo_fresh [\<lparr>pe_userId = ''gone'', pe_parentUserId = Some ''a''\<rparr>]))
     = [''a'', ''b''] \<and>
   card (movedToRoot demo_fresh [\<lparr>pe_userId = ''gone'', pe_parentUserId = Some ''a''\<rparr>]) = 1 \<and>
   (\<exists>u. (u, u) \<in> (chosenRel demo_fresh [\<lparr>pe_userId = ''gone'', pe_parentUserId = Some ''a''\<rparr>])\<^sup>+)"
proof -
  have d: "distinct (map os_userId demo_fresh)" by (simp add: demo_fresh_def)
  moreover have "ob_cyclesBroken (buildOrgTree demo_fresh [\<lparr>pe_userId = ''gone'', pe_parentUserId = Some ''a''\<rparr>]) = 1"
    by code_simp
  moreover note faithful = buildOrgTree_faithful [OF d, of "[\<lparr>pe_userId = ''gone'', pe_parentUserId = Some ''a''\<rparr>]"]
  ultimately have one: "card (movedToRoot demo_fresh [\<lparr>pe_userId = ''gone'', pe_parentUserId = Some ''a''\<rparr>]) = 1" by simp
  then obtain u where "u \<in> movedToRoot demo_fresh [\<lparr>pe_userId = ''gone'', pe_parentUserId = Some ''a''\<rparr>]"
    by (metis card.empty equals0I zero_neq_one)
  then have "\<exists>u. (u, u) \<in> (chosenRel demo_fresh [\<lparr>pe_userId = ''gone'', pe_parentUserId = Some ''a''\<rparr>])\<^sup>+"
    using faithful by blast
  moreover have "map os_userId demo_fresh = [''a'', ''b'']" by (simp add: demo_fresh_def)
  ultimately show ?thesis using d one faithful by metis
qed

end
