(* ===== verification/OrgSync.thy ===== *)
theory OrgSync
  imports OrgTree
begin

text \<open>
  The directory synchronisation (\<open>packages/org-directory/src/sync.ts\<close>). The advisory lock, the provider's answer, the row
  ids and the statements that fail are parameters. The tree is rebuilt in one transaction: an
  error inside it leaves the old tree.
\<close>

section \<open>Tables and parameters\<close>

record org_employees_row =
  oe_id :: string
  oe_tenantId :: string
  oe_userId :: "string option"
  oe_parentId :: "string option"
  oe_name :: string
  oe_title :: string
  oe_department :: string
  oe_email :: string
  oe_isRoot :: bool
  oe_updatedAt :: date

datatype run_status = RunRunning | RunCompleted | RunFailed

record sync_runs_row =
  sr_id :: string
  sr_tenantId :: string
  sr_status :: run_status
  sr_startedAt :: date
  sr_completedAt :: "date option"
  sr_error :: "string option"
  sr_employeeCount :: "nat option"
  sr_cyclesBroken :: "nat option"
  sr_reparented :: "nat option"
  sr_triggeredBy :: "string option"

record org_db =
  od_tenants :: "(string \<times> string) list"
  od_employees :: "org_employees_row list"
  od_runs :: "sync_runs_row list"

datatype sync_status = SyncCompleted | SyncFailed | SyncAlreadyRunning

record SyncResult =
  sy_status :: sync_status
  sy_syncedAt :: "string option"
  sy_employeeCount :: nat
  sy_cyclesBroken :: nat
  sy_reparented :: nat

record org_env =
  on_lockAcquired :: bool
  on_rowId :: "nat \<Rightarrow> string"
  on_now :: date
  on_startFails :: "string option"
  on_fetch :: "string + OrgSourceRecord list"
  on_treeFails :: "string option"
  on_completeFails :: "string option"
  on_markFails :: bool

definition FAILED_RESULT :: SyncResult where
  "FAILED_RESULT = \<lparr>sy_status = SyncFailed, sy_syncedAt = None, sy_employeeCount = 0,
     sy_cyclesBroken = 0, sy_reparented = 0\<rparr>"

definition ALREADY_RUNNING_RESULT :: SyncResult where
  "ALREADY_RUNNING_RESULT = FAILED_RESULT\<lparr>sy_status := SyncAlreadyRunning\<rparr>"

section \<open>Rebuilding the tree\<close>

definition rowById :: "org_employees_row list \<Rightarrow> string \<Rightarrow> org_employees_row option" where
  "rowById rows i = map_of (rev (map (\<lambda>r. (oe_id r, r)) rows)) i"

definition tenantRows :: "string \<Rightarrow> org_employees_row list \<Rightarrow> org_employees_row list" where
  "tenantRows tenantId rows = selectW (\<lambda>r. oe_tenantId r = tenantId) rows"

definition parentRowId :: "org_employees_row \<Rightarrow> string option" where
  "parentRowId r = (case oe_parentId r of Some (c # cs) \<Rightarrow> Some (c # cs) | _ \<Rightarrow> None)"

definition priorTree :: "org_employees_row list \<Rightarrow> PriorEmployee list" where
  "priorTree rows =
     List.map_filter (\<lambda>r. case oe_userId r of
         None \<Rightarrow> None
       | Some u \<Rightarrow> Some \<lparr>pe_userId = u,
           pe_parentUserId = Option.bind (Option.bind (parentRowId r) (rowById rows)) oe_userId\<rparr>) rows"

definition isRootOf :: "string \<Rightarrow> org_employees_row \<Rightarrow> bool" where
  "isRootOf tenantId r = (oe_tenantId r = tenantId \<and> oe_isRoot r)"

definition isEmployee :: "string \<Rightarrow> string \<Rightarrow> org_employees_row \<Rightarrow> bool" where
  "isEmployee tenantId userId r = (oe_tenantId r = tenantId \<and> oe_userId r = Some userId)"

definition isRowId :: "string \<Rightarrow> string \<Rightarrow> org_employees_row \<Rightarrow> bool" where
  "isRowId tenantId i r = (oe_tenantId r = tenantId \<and> oe_id r = i)"

definition insertEmployee :: "org_employees_row \<Rightarrow> org_employees_row list \<Rightarrow> string + org_employees_row list" where
  "insertEmployee row rows =
     (if list_ex (\<lambda>r. oe_id r = oe_id row) rows then Inl ''org_employees_pkey''
      else Inr (insertRow row rows))"

definition ensureRoot ::
  "org_env \<Rightarrow> string \<Rightarrow> string \<Rightarrow> org_employees_row list \<Rightarrow> string + (string \<times> org_employees_row list)" where
  "ensureRoot env tenantId tenantName rows =
     (case select1 (isRootOf tenantId) rows of
        Some rootRow \<Rightarrow> Inr (oe_id rootRow, updateW (isRowId tenantId (oe_id rootRow))
          (\<lambda>r. r\<lparr>oe_name := tenantName, oe_updatedAt := on_now env\<rparr>) rows)
      | None \<Rightarrow> bindE (insertEmployee \<lparr>oe_id = on_rowId env 1, oe_tenantId = tenantId, oe_userId = None,
            oe_parentId = None, oe_name = tenantName, oe_title = '''', oe_department = '''',
            oe_email = '''', oe_isRoot = True, oe_updatedAt = on_now env\<rparr> rows)
          (\<lambda>rows1. Inr (on_rowId env 1, rows1)))"

definition employeeRow :: "org_env \<Rightarrow> string \<Rightarrow> nat \<Rightarrow> ResolvedEmployee \<Rightarrow> org_employees_row" where
  "employeeRow env tenantId k e =
     \<lparr>oe_id = on_rowId env k, oe_tenantId = tenantId, oe_userId = Some (re_userId e), oe_parentId = None,
      oe_name = re_name e, oe_title = re_title e, oe_department = re_department e,
      oe_email = re_email e, oe_isRoot = False, oe_updatedAt = on_now env\<rparr>"

lemma employeeRow_tenant [simp]: "oe_tenantId (employeeRow env tid k e) = tid"
  by (simp add: employeeRow_def)

text \<open>Pass A: the fields of every employee; \<open>k\<close> counts the rows inserted so far.\<close>

fun upsertAll ::
  "org_env \<Rightarrow> string \<Rightarrow> ResolvedEmployee list \<Rightarrow> nat \<Rightarrow> (string \<times> string) list \<Rightarrow> org_employees_row list \<Rightarrow>
   string + ((string \<times> string) list \<times> org_employees_row list)" where
  "upsertAll env tenantId [] k ids rows = Inr (ids, rows)"
| "upsertAll env tenantId (e # es) k ids rows =
     (case select1 (isEmployee tenantId (re_userId e)) rows of
        Some existing \<Rightarrow>
          upsertAll env tenantId es k (AList.update (re_userId e) (oe_id existing) ids)
            (updateW (isRowId tenantId (oe_id existing))
              (\<lambda>r. r\<lparr>oe_name := re_name e, oe_title := re_title e, oe_department := re_department e,
                     oe_email := re_email e, oe_updatedAt := on_now env\<rparr>) rows)
      | None \<Rightarrow>
          bindE (insertEmployee (employeeRow env tenantId k e) rows) (\<lambda>rows1.
          upsertAll env tenantId es (k + 1) (AList.update (re_userId e) (on_rowId env k) ids) rows1))"

text \<open>Pass B: the parent of every employee, the root where the parent has no row.\<close>

definition parentTarget :: "(string \<times> string) list \<Rightarrow> string \<Rightarrow> ResolvedEmployee \<Rightarrow> string" where
  "parentTarget ids rootId e =
     (case re_parentUserId e of
        None \<Rightarrow> rootId
      | Some p \<Rightarrow> if p = '''' then rootId else dflt rootId (map_of ids p))"

definition placeOne ::
  "string \<Rightarrow> (string \<times> string) list \<Rightarrow> string \<Rightarrow> ResolvedEmployee \<Rightarrow> org_employees_row list \<Rightarrow> org_employees_row list" where
  "placeOne tenantId ids rootId e rows =
     (case map_of ids (re_userId e) of
        None \<Rightarrow> rows
      | Some ownId \<Rightarrow> if ownId = '''' then rows
          else updateW (isRowId tenantId ownId)
            (\<lambda>r. r\<lparr>oe_parentId := Some (parentTarget ids rootId e)\<rparr>) rows)"

definition placeAll ::
  "string \<Rightarrow> (string \<times> string) list \<Rightarrow> string \<Rightarrow> ResolvedEmployee list \<Rightarrow> org_employees_row list \<Rightarrow> org_employees_row list" where
  "placeAll tenantId ids rootId es rows = fold (placeOne tenantId ids rootId) es rows"

text \<open>The removed employees; the foreign key from \<open>parent_id\<close> forbids a dangling reference.\<close>

definition isRemoved :: "string \<Rightarrow> string list \<Rightarrow> org_employees_row \<Rightarrow> bool" where
  "isRemoved tenantId removed r =
     (oe_tenantId r = tenantId \<and> (case oe_userId r of None \<Rightarrow> False | Some u \<Rightarrow> u \<in> set removed))"

definition removeAll1 ::
  "string \<Rightarrow> string list \<Rightarrow> org_employees_row list \<Rightarrow> string + org_employees_row list" where
  "removeAll1 tenantId removed rows =
     (if removed = [] then Inr rows
      else (let rows1 = updateW (isRemoved tenantId removed) (\<lambda>r. r\<lparr>oe_parentId := None\<rparr>) rows;
                rows2 = deleteW (isRemoved tenantId removed) rows1;
                gone = map oe_id (selectW (isRemoved tenantId removed) rows1)
            in if list_ex (\<lambda>r. case oe_parentId r of None \<Rightarrow> False | Some p \<Rightarrow> p \<in> set gone) rows2
               then Inl ''org_employees_parent_id_fkey'' else Inr rows2))"

definition syncTree ::
  "org_env \<Rightarrow> org_db \<Rightarrow> string \<Rightarrow> OrgSourceRecord list \<Rightarrow> string + (OrgTreeBuildResult \<times> org_employees_row list)" where
  "syncTree env db tenantId fresh =
     bindE (case on_treeFails env of Some e \<Rightarrow> Inl e | None \<Rightarrow> Inr ()) (\<lambda>_.
     bindE (orThrow (map_of (od_tenants db) tenantId) (''org-directory sync: tenant '' @ tenantId @ '' not found'')) (\<lambda>tenantName.
     (let built = buildOrgTree fresh (priorTree (tenantRows tenantId (od_employees db))) in
     bindE (ensureRoot env tenantId tenantName (od_employees db)) (\<lambda>(rootId, rows1).
     bindE (upsertAll env tenantId (ob_employees built) 2 [] rows1) (\<lambda>(ids, rows2).
     bindE (removeAll1 tenantId (ob_removedUserIds built)
              (placeAll tenantId ids rootId (ob_employees built) rows2)) (\<lambda>rows3.
     Inr (built, rows3)))))))"

section \<open>A run\<close>

definition isRun :: "string \<Rightarrow> string \<Rightarrow> sync_runs_row \<Rightarrow> bool" where
  "isRun tenantId i r = (sr_tenantId r = tenantId \<and> sr_id r = i)"

definition startRun :: "org_env \<Rightarrow> string \<Rightarrow> string option \<Rightarrow> sync_runs_row list \<Rightarrow> sync_runs_row list" where
  "startRun env tenantId triggeredBy runs =
     insertRow \<lparr>sr_id = on_rowId env 0, sr_tenantId = tenantId, sr_status = RunRunning,
        sr_startedAt = on_now env, sr_completedAt = None, sr_error = None, sr_employeeCount = None, sr_cyclesBroken = None,
        sr_reparented = None, sr_triggeredBy = triggeredBy\<rparr>
       (updateW (\<lambda>r. sr_tenantId r = tenantId \<and> sr_status r = RunRunning)
         (\<lambda>r. r\<lparr>sr_status := RunFailed, sr_completedAt := Some (on_now env),
            sr_error := Some ''interrupted -- reclaimed by a new sync holding the tenant lock''\<rparr>) runs)"

definition completeRun :: "org_env \<Rightarrow> string \<Rightarrow> OrgTreeBuildResult \<Rightarrow> sync_runs_row list \<Rightarrow> sync_runs_row list" where
  "completeRun env tenantId built runs =
     updateW (isRun tenantId (on_rowId env 0))
       (\<lambda>r. r\<lparr>sr_status := RunCompleted, sr_completedAt := Some (on_now env),
          sr_employeeCount := Some (length (ob_employees built)),
          sr_cyclesBroken := Some (ob_cyclesBroken built), sr_reparented := Some (ob_reparented built)\<rparr>) runs"

definition failRun :: "org_env \<Rightarrow> string \<Rightarrow> string \<Rightarrow> sync_runs_row list \<Rightarrow> sync_runs_row list" where
  "failRun env tenantId err runs =
     (if on_markFails env then runs
      else updateW (isRun tenantId (on_rowId env 0))
        (\<lambda>r. r\<lparr>sr_status := RunFailed, sr_completedAt := Some (on_now env), sr_error := Some err\<rparr>) runs)"

definition runLockedSync ::
  "org_env \<Rightarrow> org_db \<Rightarrow> string \<Rightarrow> string option \<Rightarrow> string + (SyncResult \<times> org_db)" where
  "runLockedSync env db tenantId triggeredBy =
     (case on_startFails env of
        Some e \<Rightarrow> Inl e
      | None \<Rightarrow>
          (let db1 = db\<lparr>od_runs := startRun env tenantId triggeredBy (od_runs db)\<rparr> in
           case bindE (on_fetch env) (syncTree env db1 tenantId) of
             Inl e \<Rightarrow> Inr (FAILED_RESULT, db1\<lparr>od_runs := failRun env tenantId e (od_runs db1)\<rparr>)
           | Inr (built, rows) \<Rightarrow>
               (let db2 = db1\<lparr>od_employees := rows\<rparr> in
                case on_completeFails env of
                  Some e \<Rightarrow> Inr (FAILED_RESULT, db2\<lparr>od_runs := failRun env tenantId e (od_runs db2)\<rparr>)
                | None \<Rightarrow> Inr (\<lparr>sy_status = SyncCompleted, sy_syncedAt = Some (toISOString (on_now env)),
                      sy_employeeCount = length (ob_employees built),
                      sy_cyclesBroken = ob_cyclesBroken built, sy_reparented = ob_reparented built\<rparr>,
                    db2\<lparr>od_runs := completeRun env tenantId built (od_runs db2)\<rparr>))))"

definition runOrgDirectorySync ::
  "org_env \<Rightarrow> org_db \<Rightarrow> string \<Rightarrow> string option \<Rightarrow> string + (SyncResult \<times> org_db)" where
  "runOrgDirectorySync env db tenantId triggeredBy =
     (if \<not> on_lockAcquired env then Inr (ALREADY_RUNNING_RESULT, db)
      else runLockedSync env db tenantId triggeredBy)"

lemma rowById_mem: "rowById rows i = Some r \<Longrightarrow> r \<in> set rows \<and> oe_id r = i"
  by (auto simp: rowById_def dest!: map_of_SomeD)

section \<open>What the tables keep\<close>

text \<open>
  The keys and indexes of the table: unique ids, one row per user and one root per tenant;
  exactly the root has no user.
\<close>

definition orgInv :: "org_employees_row list \<Rightarrow> bool" where
  "orgInv rows \<longleftrightarrow> distinct (map oe_id rows) \<and>
     distinct (map (\<lambda>r. (oe_tenantId r, oe_userId r)) rows) \<and>
     (\<forall>r \<in> set rows. (oe_isRoot r \<longleftrightarrow> oe_userId r = None) \<and> oe_id r \<noteq> '''')"

lemma orgInv_id: "orgInv rows \<Longrightarrow> r \<in> set rows \<Longrightarrow> q \<in> set rows \<Longrightarrow> oe_id r = oe_id q \<Longrightarrow> r = q"
  by (auto simp: orgInv_def distinct_map dest: inj_onD)

lemma orgInv_user:
  "orgInv rows \<Longrightarrow> r \<in> set rows \<Longrightarrow> q \<in> set rows \<Longrightarrow> oe_tenantId r = oe_tenantId q \<Longrightarrow>
   oe_userId r = oe_userId q \<Longrightarrow> r = q"
  by (auto simp: orgInv_def distinct_map inj_on_def)

text \<open>What identifies a row; the passes of a sync change everything else.\<close>

definition rowKey :: "org_employees_row \<Rightarrow> string \<times> string \<times> string option \<times> bool" where
  "rowKey r = (oe_id r, oe_tenantId r, oe_userId r, oe_isRoot r)"

lemma orgInv_rowKey:
  "orgInv rows \<longleftrightarrow> distinct (map fst (map rowKey rows)) \<and>
     distinct (map (\<lambda>(i, t, u, b). (t, u)) (map rowKey rows)) \<and>
     (\<forall>(i, t, u, b) \<in> set (map rowKey rows). (b \<longleftrightarrow> u = None) \<and> i \<noteq> '''')"
  by (simp add: orgInv_def rowKey_def comp_def)

lemma orgInv_keys: "map rowKey rows' = map rowKey rows \<Longrightarrow> orgInv rows' = orgInv rows"
  unfolding orgInv_rowKey by (simp only:)

lemma orgInv_insert:
  assumes "orgInv rows" "insertEmployee row rows = Inr rows'" "oe_id row \<noteq> ''''"
    and "oe_isRoot row \<longleftrightarrow> oe_userId row = None"
    and "\<forall>r \<in> set rows. \<not> (oe_tenantId r = oe_tenantId row \<and> oe_userId r = oe_userId row)"
  shows "orgInv rows'"
proof -
  have "rows' = rows @ [row]" "oe_id row \<notin> oe_id ` set rows"
    using assms(2) by (auto simp: insertEmployee_def insertRow_def list_ex_iff split: if_splits)
  then show ?thesis using assms(1,3-) by (auto simp: orgInv_def)
qed

lemma orgInv_filter: "orgInv rows \<Longrightarrow> orgInv (filter P rows)"
  by (auto simp: orgInv_def distinct_map_filter)

lemma updateW_keys: "(\<And>r. rowKey (f r) = rowKey r) \<Longrightarrow> map rowKey (updateW P f rows) = map rowKey rows"
  by (rule map_updateW_same)

section \<open>The passes\<close>

lemma ensureRoot_ok:
  assumes "orgInv rows" "ensureRoot env tid name rows = Inr (rootId, rows')" "on_rowId env 1 \<noteq> ''''"
  shows "orgInv rows' \<and> (\<exists>r \<in> set rows'. oe_id r = rootId \<and> isRootOf tid r) \<and>
    {r \<in> set rows'. oe_userId r \<noteq> None} = {r \<in> set rows. oe_userId r \<noteq> None}"
proof (cases "select1 (isRootOf tid) rows")
  case None
  let ?row = "\<lparr>oe_id = on_rowId env 1, oe_tenantId = tid, oe_userId = None, oe_parentId = None, oe_name = name,
    oe_title = '''', oe_department = '''', oe_email = '''', oe_isRoot = True, oe_updatedAt = on_now env\<rparr>"
  have ins: "insertEmployee ?row rows = Inr rows'" and id: "rootId = on_rowId env 1"
    using assms(2) None by (auto simp: ensureRoot_def result_simps)
  have "rows' = rows @ [?row]"
    using ins by (auto simp: insertEmployee_def insertRow_def split: if_splits)
  moreover have "orgInv rows'"
    using None assms(1,3)
    by (intro orgInv_insert [OF assms(1) ins]) (auto simp: select1_None_iff isRootOf_def orgInv_def)
  ultimately show ?thesis using id by (auto simp: isRootOf_def)
next
  case (Some root0)
  let ?f = "\<lambda>r. r\<lparr>oe_name := name, oe_updatedAt := on_now env\<rparr>"
  have r: "rootId = oe_id root0" "rows' = updateW (isRowId tid (oe_id root0)) ?f rows"
    using assms(2) Some by (auto simp: ensureRoot_def)
  note root = select1_Some [OF Some]
  have keys: "map rowKey rows' = map rowKey rows" unfolding r by (rule updateW_keys) (simp add: rowKey_def)
  have only: "q = root0" if "q \<in> set rows" "isRowId tid (oe_id root0) q" for q
    using that root orgInv_id [OF assms(1)] by (auto simp: isRowId_def)
  have nouser: "oe_userId root0 = None" using root assms(1) by (auto simp: isRootOf_def orgInv_def)
  have "isRowId tid (oe_id root0) root0" using root by (auto simp: isRowId_def isRootOf_def)
  then have "?f root0 \<in> set rows'" using root by (auto simp: r set_updateW)
  moreover have "isRootOf tid (?f root0)" using root by (auto simp: isRootOf_def)
  moreover have "{q \<in> set rows'. oe_userId q \<noteq> None} = {q \<in> set rows. oe_userId q \<noteq> None}"
    using only nouser by (auto simp: r set_updateW dest: only)
  ultimately show ?thesis
    using orgInv_keys [OF keys] assms(1) r(1) by (auto intro!: bexI [of _ "?f root0"])
qed

text \<open>The surrogate ids collected in pass A point at the rows of their users.\<close>

definition idsOk :: "string \<Rightarrow> (string \<times> string) list \<Rightarrow> org_employees_row list \<Rightarrow> bool" where
  "idsOk tid ids rows \<longleftrightarrow> (\<forall>u i. map_of ids u = Some i \<longrightarrow> (\<exists>r \<in> set rows. isEmployee tid u r \<and> oe_id r = i))"

definition usersOf :: "string \<Rightarrow> org_employees_row list \<Rightarrow> string set" where
  "usersOf tid rows = {u. \<exists>r \<in> set rows. isEmployee tid u r}"

lemma isEmployee_key: "isEmployee tid u r \<longleftrightarrow> (\<exists>i b. rowKey r = (i, tid, Some u, b))"
  by (auto simp: isEmployee_def rowKey_def)

lemma usersOf_keys: "map rowKey rows' = map rowKey rows \<Longrightarrow> usersOf tid rows' = usersOf tid rows"
proof -
  have "usersOf tid rs = {u. \<exists>i b. (i, tid, Some u, b) \<in> set (map rowKey rs)}" for rs
    by (auto simp: usersOf_def isEmployee_key image_iff) metis+
  then show "map rowKey rows' = map rowKey rows \<Longrightarrow> usersOf tid rows' = usersOf tid rows" by (simp only:)
qed

lemma idsOk_keys: "map rowKey rows' = map rowKey rows \<Longrightarrow> idsOk tid ids rows' = idsOk tid ids rows"
proof -
  have "idsOk tid ids rs \<longleftrightarrow> (\<forall>u i. map_of ids u = Some i \<longrightarrow> (\<exists>b. (i, tid, Some u, b) \<in> set (map rowKey rs)))" for rs
    unfolding idsOk_def by (auto simp: isEmployee_def rowKey_def image_iff) metis+
  then show "map rowKey rows' = map rowKey rows \<Longrightarrow> idsOk tid ids rows' = idsOk tid ids rows" by (simp only:)
qed

definition rootKeys :: "org_employees_row list \<Rightarrow> (string \<times> string \<times> string option \<times> bool) set" where
  "rootKeys rows = rowKey ` {r \<in> set rows. oe_isRoot r}"

lemma rootKeys_keys: "map rowKey rows' = map rowKey rows \<Longrightarrow> rootKeys rows' = rootKeys rows"
proof -
  have "rootKeys rs = {k \<in> set (map rowKey rs). snd (snd (snd k))}" for rs
    by (auto simp: rootKeys_def rowKey_def)
  then show "map rowKey rows' = map rowKey rows \<Longrightarrow> rootKeys rows' = rootKeys rows" by (simp only:)
qed

lemma root_kept:
  assumes "\<exists>r \<in> set rows. oe_id r = rootId \<and> isRootOf tid r" "rootKeys rows' = rootKeys rows"
  shows "\<exists>r \<in> set rows'. oe_id r = rootId \<and> isRootOf tid r"
proof -
  obtain x where x: "x \<in> set rows" "oe_id x = rootId" "isRootOf tid x" using assms(1) by blast
  then have "rowKey x \<in> rootKeys rows'" unfolding assms(2) by (auto simp: rootKeys_def isRootOf_def)
  then show ?thesis using x by (auto simp: rootKeys_def rowKey_def isRootOf_def)
qed

lemma upsertAll_ok:
  assumes "upsertAll env tid es k ids rows = Inr (ids', rows')" "orgInv rows" "idsOk tid ids rows"
    and "\<And>j. on_rowId env j \<noteq> ''''"
  shows "orgInv rows' \<and> idsOk tid ids' rows' \<and>
    dom (map_of ids') = dom (map_of ids) \<union> re_userId ` set es \<and>
    usersOf tid rows' = usersOf tid rows \<union> re_userId ` set es \<and> rootKeys rows' = rootKeys rows"
  using assms(1-3)
proof (induction es arbitrary: k ids rows)
  case Nil
  then show ?case by simp
next
  case (Cons e es)
  show ?case
  proof (cases "select1 (isEmployee tid (re_userId e)) rows")
    case (Some x)
    define f where "f = (\<lambda>r :: org_employees_row. r\<lparr>oe_name := re_name e, oe_title := re_title e, oe_department := re_department e,
      oe_email := re_email e, oe_updatedAt := on_now env\<rparr>)"
    let ?rows = "updateW (isRowId tid (oe_id x)) f rows" and ?ids = "AList.update (re_userId e) (oe_id x) ids"
    have keys: "map rowKey ?rows = map rowKey rows" by (rule updateW_keys) (simp add: f_def rowKey_def)
    have x: "x \<in> set rows" "isEmployee tid (re_userId e) x" using select1_Some [OF Some] by auto
    have rec: "upsertAll env tid es k ?ids ?rows = Inr (ids', rows')"
      using Cons.prems(1) Some by (simp add: f_def)
    have "idsOk tid ?ids rows" using Cons.prems(3) x by (auto simp: idsOk_def update_conv')
    then have ids: "idsOk tid ?ids ?rows" by (simp add: idsOk_keys [OF keys])
    have inv: "orgInv ?rows" using Cons.prems(2) by (simp add: orgInv_keys [OF keys])
    have "re_userId e \<in> usersOf tid rows" using x by (auto simp: usersOf_def)
    then show ?thesis
      using Cons.IH [OF rec inv ids] by (auto simp: usersOf_keys [OF keys] rootKeys_keys [OF keys] update_conv')
  next
    case None
    let ?row = "employeeRow env tid k e" and ?ids = "AList.update (re_userId e) (on_rowId env k) ids"
    obtain rows1 where ins: "insertEmployee ?row rows = Inr rows1"
      and rec: "upsertAll env tid es (k + 1) ?ids rows1 = Inr (ids', rows')"
      using Cons.prems(1) None by (auto simp: result_simps)
    have rows1: "rows1 = rows @ [?row]"
      using ins by (auto simp: insertEmployee_def insertRow_def split: if_splits)
    have inv: "orgInv rows1"
      using None assms(4) by (intro orgInv_insert [OF Cons.prems(2) ins])
        (auto simp: employeeRow_def select1_None_iff isEmployee_def)
    have ids: "idsOk tid ?ids rows1"
      using Cons.prems(3) by (auto simp: idsOk_def rows1 update_conv' employeeRow_def isEmployee_def)
    have "usersOf tid rows1 = insert (re_userId e) (usersOf tid rows)" "rootKeys rows1 = rootKeys rows"
      by (auto simp: usersOf_def rows1 employeeRow_def isEmployee_def rootKeys_def)
    then show ?thesis using Cons.IH [OF rec inv ids] by (auto simp: update_conv')
  qed
qed

lemma placeOne_keys: "map rowKey (placeOne tid ids rootId e rows) = map rowKey rows"
  by (auto simp: placeOne_def rowKey_def intro!: map_updateW_same split: option.splits)

lemma placeAll_keys: "map rowKey (placeAll tid ids rootId es rows) = map rowKey rows"
  by (induction es arbitrary: rows) (simp_all add: placeAll_def placeOne_keys)

lemma placeAll_parent:
  assumes "orgInv rows" "idsOk tid ids rows"
    and "\<forall>e \<in> set es. \<forall>d \<in> set es. re_userId e = re_userId d \<longrightarrow> re_parentUserId e = re_parentUserId d"
    and "\<forall>e \<in> set es. map_of ids (re_userId e) \<noteq> None"
    and "e \<in> set es" "r \<in> set (placeAll tid ids rootId es rows)" "isEmployee tid (re_userId e) r"
  shows "oe_parentId r = Some (parentTarget ids rootId e)"
  using assms(3-)
proof (induction es arbitrary: r rule: rev_induct)
  case Nil
  then show ?case by simp
next
  case (snoc d es)
  let ?mid = "placeAll tid ids rootId es rows"
  have mid: "placeAll tid ids rootId (es @ [d]) rows = placeOne tid ids rootId d ?mid"
    by (simp add: placeAll_def)
  have inv: "orgInv ?mid" "idsOk tid ids ?mid"
    using assms(1,2) by (simp_all add: orgInv_keys [OF placeAll_keys] idsOk_keys [OF placeAll_keys])
  obtain own where own: "map_of ids (re_userId d) = Some own" using snoc.prems(2) by auto
  then obtain x where x: "x \<in> set ?mid" "isEmployee tid (re_userId d) x" "oe_id x = own"
    using inv(2) by (auto simp: idsOk_def)
  have "own \<noteq> ''''" using inv(1) x by (auto simp: orgInv_def)
  then have step: "placeOne tid ids rootId d ?mid =
      updateW (isRowId tid own) (\<lambda>r. r\<lparr>oe_parentId := Some (parentTarget ids rootId d)\<rparr>) ?mid"
    by (simp add: placeOne_def own)
  have "r \<in> set (updateW (isRowId tid own) (\<lambda>r. r\<lparr>oe_parentId := Some (parentTarget ids rootId d)\<rparr>) ?mid)"
    using snoc.prems(4) by (simp add: mid step)
  then show ?case
  proof (cases rule: updateW_memE)
    case 1
    have "e \<noteq> d"
    proof
      assume "e = d"
      then have "r = x" using orgInv_user [OF inv(1) 1(1) x(1)] x(2) snoc.prems(5) by (simp add: isEmployee_def)
      then show False using 1(2) x by (simp add: isRowId_def isEmployee_def)
    qed
    then have "e \<in> set es" using snoc.prems(3) by simp
    show ?thesis
    proof (rule snoc.IH [OF _ _ \<open>e \<in> set es\<close> 1(1) snoc.prems(5)])
      show "\<forall>e \<in> set es. \<forall>d \<in> set es. re_userId e = re_userId d \<longrightarrow> re_parentUserId e = re_parentUserId d"
        using snoc.prems(1) unfolding set_append by blast
      show "\<forall>e \<in> set es. map_of ids (re_userId e) \<noteq> None" using snoc.prems(2) by simp
    qed
  next
    case (2 r0)
    have "r0 = x" using orgInv_id [OF inv(1) 2(1) x(1)] 2(2) x(3) by (simp add: isRowId_def)
    then have "re_userId e = re_userId d" using 2(3) x(2) snoc.prems(5) by (simp add: isEmployee_def)
    moreover have "d \<in> set (es @ [d])" by simp
    ultimately have "re_parentUserId e = re_parentUserId d" using snoc.prems(1,3) by blast
    then have "parentTarget ids rootId e = parentTarget ids rootId d" by (simp add: parentTarget_def)
    then show ?thesis using 2(3) by simp
  qed
qed

section \<open>Every chain of rows reaches the root\<close>

inductive reachesRoot :: "org_employees_row list \<Rightarrow> string \<Rightarrow> bool" for rows where
  at_root: "r \<in> set rows \<Longrightarrow> oe_id r = i \<Longrightarrow> oe_isRoot r \<Longrightarrow> reachesRoot rows i"
| go_up: "r \<in> set rows \<Longrightarrow> oe_id r = i \<Longrightarrow> parentRowId r = Some q \<Longrightarrow> reachesRoot rows q \<Longrightarrow> reachesRoot rows i"

lemma parentRowId_Some: "oe_parentId r = Some i \<Longrightarrow> i \<noteq> '''' \<Longrightarrow> parentRowId r = Some i"
  by (auto simp: parentRowId_def neq_Nil_conv)

lemma reach_up:
  assumes "r \<in> set rows" "oe_parentId r = Some i" "reachesRoot rows i" "orgInv rows"
  shows "reachesRoot rows (oe_id r)"
proof -
  obtain x where "x \<in> set rows" "oe_id x = i" using assms(3) by (cases rule: reachesRoot.cases) auto
  then have "i \<noteq> ''''" using assms(4) by (auto simp: orgInv_def)
  then show ?thesis using go_up [OF assms(1) refl] parentRowId_Some [OF assms(2)] assms(3) by blast
qed

lemma placed_reach_root:
  fixes rows :: "org_employees_row list"
  assumes inv: "orgInv rows" and ids: "idsOk tid ids rows"
    and root: "\<exists>r \<in> set rows. oe_id r = rootId \<and> isRootOf tid r"
    and es: "es = map (toEmployee resolved) fresh"
    and placed: "\<And>e r. e \<in> set es \<Longrightarrow> r \<in> set rows \<Longrightarrow> isEmployee tid (re_userId e) r \<Longrightarrow>
      oe_parentId r = Some (parentTarget ids rootId e)"
    and dom: "dom (map_of ids) = re_userId ` set es"
    and "grounded resolved u" "u \<in> re_userId ` set es" "r \<in> set rows" "isEmployee tid u r"
  shows "reachesRoot rows (oe_id r)"
proof -
  have rootReach: "reachesRoot rows rootId"
    using root by (auto simp: isRootOf_def intro: at_root)
  show ?thesis
  using assms(7-)
proof (induction arbitrary: r rule: grounded.induct)
  case (top u)
  then obtain e where e: "e \<in> set es" "re_userId e = u" by auto
  have "re_parentUserId e = None" using top(1) e by (auto simp: es toEmployee_def)
  then have par: "oe_parentId r = Some rootId" using placed [OF e(1) top(3)] top(4) e by (simp add: parentTarget_def)
  show ?case by (rule reach_up [OF top(3) par rootReach inv])
next
  case (up u p)
  then obtain e where e: "e \<in> set es" "re_userId e = u" by auto
  have "re_parentUserId e = Some p" using up(1) e by (auto simp: es toEmployee_def)
  moreover have "oe_parentId r = Some (parentTarget ids rootId e)" using placed [OF e(1) up(5)] up(6) e by simp
  ultimately consider (toRoot) "oe_parentId r = Some rootId"
    | (toRow) i where "map_of ids p = Some i" "oe_parentId r = Some i"
    by (cases "map_of ids p") (auto simp: parentTarget_def split: if_splits)
  then show ?case
  proof cases
    case toRoot
    then show ?thesis by (rule reach_up [OF up(5) _ rootReach inv])
  next
    case toRow
    obtain x where x: "x \<in> set rows" "isEmployee tid p x" "oe_id x = i"
      using ids toRow(1) by (auto simp: idsOk_def)
    have "p \<in> re_userId ` set es" using toRow(1) dom by (metis domI)
    then have "reachesRoot rows i" using up.IH x by blast
    then show ?thesis by (rule reach_up [OF up(5) toRow(2) _ inv])
  qed
qed
qed

lemma reachesRoot_filter:
  assumes "reachesRoot rows i" "orgInv rows"
    and keep: "\<And>r q. r \<in> set rows \<Longrightarrow> P r \<Longrightarrow> \<not> oe_isRoot r \<Longrightarrow> q \<in> set rows \<Longrightarrow>
      parentRowId r = Some (oe_id q) \<Longrightarrow> P q"
  shows "\<forall>r \<in> set rows. oe_id r = i \<longrightarrow> P r \<longrightarrow> reachesRoot (filter P rows) i"
  using assms(1)
proof (induction rule: reachesRoot.induct)
  case (at_root x i)
  show ?case
  proof (intro ballI impI)
    fix r assume r: "r \<in> set rows" "oe_id r = i" "P r"
    then have "r = x" using at_root orgInv_id [OF assms(2)] by simp
    then show "reachesRoot (filter P rows) i" using r at_root by (auto intro: reachesRoot.at_root)
  qed
next
  case (go_up x i q)
  show ?case
  proof (intro ballI impI)
    fix r assume r: "r \<in> set rows" "oe_id r = i" "P r"
    then have x: "r = x" using go_up orgInv_id [OF assms(2)] by simp
    show "reachesRoot (filter P rows) i"
    proof (cases "oe_isRoot x")
      case True
      then show ?thesis using r x by (auto intro: reachesRoot.at_root)
    next
      case False
      obtain y where y: "y \<in> set rows" "oe_id y = q"
        using go_up(4) by (cases rule: reachesRoot.cases) auto
      then have "P y" using keep [OF r(1,3) _ y(1)] go_up(3) x False by simp
      then have "reachesRoot (filter P rows) q" using go_up.IH y by blast
      moreover have "x \<in> set (filter P rows)" using r x by simp
      ultimately show ?thesis using reachesRoot.go_up go_up.hyps(2,3) by blast
    qed
  qed
qed

lemma removeAll1_Inr:
  assumes "removeAll1 tid removed rows = Inr rows'"
  shows "rows' = filter (\<lambda>r. \<not> isRemoved tid removed r) rows"
proof (cases "removed = []")
  case True
  moreover have "\<not> isRemoved tid [] r" for r by (simp add: isRemoved_def split: option.splits)
  ultimately show ?thesis using assms by (simp add: removeAll1_def)
next
  case False
  have "deleteW P (updateW P f rs) = filter (\<lambda>r. \<not> P r) rs" if "\<And>r. P (f r) = P r"
    for P f and rs :: "org_employees_row list"
    using that by (induction rs) (auto simp: deleteW_def updateW_def)
  then show ?thesis
    using assms False by (simp add: removeAll1_def Let_def isRemoved_def split: if_splits)
qed

lemma prior_users: "pe_userId ` set (priorTree (tenantRows tid rows)) = usersOf tid rows"
  by (force simp: priorTree_def tenantRows_def usersOf_def isEmployee_def List.map_filter_def split: option.splits)

lemma syncTree_steps:
  assumes "syncTree env db tid fresh = Inr (built, rows)"
  obtains name rootId rows1 ids rows2 where
    "built = buildOrgTree fresh (priorTree (tenantRows tid (od_employees db)))"
    "ensureRoot env tid name (od_employees db) = Inr (rootId, rows1)"
    "upsertAll env tid (ob_employees built) 2 [] rows1 = Inr (ids, rows2)"
    "rows = filter (\<lambda>r. \<not> isRemoved tid (ob_removedUserIds built) r)
       (placeAll tid ids rootId (ob_employees built) rows2)"
  using assms by (auto simp: syncTree_def Let_def result_simps split: prod.splits dest!: removeAll1_Inr)

text \<open>What a run has achieved when only the departed employees are left to remove.\<close>

definition placedTree ::
  "string \<Rightarrow> OrgSourceRecord list \<Rightarrow> org_employees_row list \<Rightarrow> org_employees_row list \<Rightarrow>
   (string \<times> string) list \<Rightarrow> string \<Rightarrow> ResolvedEmployee list \<Rightarrow> bool" where
  "placedTree tid fresh old pl ids rootId es \<longleftrightarrow>
     orgInv pl \<and> idsOk tid ids pl \<and> usersOf tid pl = usersOf tid old \<union> os_userId ` set fresh \<and>
     (\<exists>r \<in> set pl. oe_id r = rootId \<and> isRootOf tid r) \<and>
     (\<exists>resolved. es = map (toEmployee resolved) fresh \<and> (\<forall>u. grounded resolved u)) \<and>
     dom (map_of ids) = os_userId ` set fresh \<and>
     (\<forall>e \<in> set es. \<forall>r \<in> set pl. isEmployee tid (re_userId e) r \<longrightarrow>
        oe_parentId r = Some (parentTarget ids rootId e))"

lemma passes_placed:
  assumes built: "built = buildOrgTree fresh (priorTree (tenantRows tid old))"
    and er: "ensureRoot env tid name old = Inr (rootId, rows1)"
    and up: "upsertAll env tid (ob_employees built) 2 [] rows1 = Inr (ids, rows2)"
    and "orgInv old" "\<And>k. on_rowId env k \<noteq> ''''"
  shows "placedTree tid fresh old (placeAll tid ids rootId (ob_employees built) rows2) ids rootId (ob_employees built)"
    and "set (ob_removedUserIds built) = usersOf tid old - os_userId ` set fresh"
proof -
  obtain resolved where es: "ob_employees built = map (toEmployee resolved) fresh"
    and ground: "\<And>u. grounded resolved u"
    unfolding built using buildOrgTree_parents by metis
  let ?es = "ob_employees built" and ?pl = "placeAll tid ids rootId (ob_employees built) rows2"
  have users: "re_userId ` set ?es = os_userId ` set fresh"
    by (simp add: es toEmployee_def image_image)
  note r1 = ensureRoot_ok [OF assms(4) er assms(5)]
  have users1: "usersOf tid rows1 = usersOf tid old"
    using r1 by (auto simp: usersOf_def isEmployee_def)
  have r2: "orgInv rows2" "idsOk tid ids rows2" "dom (map_of ids) = re_userId ` set ?es"
    "usersOf tid rows2 = usersOf tid rows1 \<union> re_userId ` set ?es" "rootKeys rows2 = rootKeys rows1"
    using upsertAll_ok [OF up _ _ assms(5)] r1 by (auto simp: idsOk_def)
  have roots: "rootKeys ?pl = rootKeys rows1" by (simp add: rootKeys_keys [OF placeAll_keys] r2(5))
  have root: "\<exists>r \<in> set ?pl. oe_id r = rootId \<and> isRootOf tid r"
    using r1 roots by (blast intro: root_kept)
  have own: "\<forall>e \<in> set ?es. \<forall>d \<in> set ?es. re_userId e = re_userId d \<longrightarrow> re_parentUserId e = re_parentUserId d"
    "\<forall>e \<in> set ?es. map_of ids (re_userId e) \<noteq> None"
    using r2(3) by (simp add: es toEmployee_def, metis domIff image_eqI)
  have placed: "\<forall>e \<in> set ?es. \<forall>r \<in> set ?pl. isEmployee tid (re_userId e) r \<longrightarrow>
      oe_parentId r = Some (parentTarget ids rootId e)"
    using placeAll_parent [OF r2(1,2) own] by blast
  have inv: "orgInv ?pl" "idsOk tid ids ?pl" "usersOf tid ?pl = usersOf tid rows2"
    using r2 by (simp_all add: orgInv_keys [OF placeAll_keys] idsOk_keys [OF placeAll_keys]
        usersOf_keys [OF placeAll_keys])
  show "placedTree tid fresh old ?pl ids rootId ?es"
    unfolding placedTree_def
  proof (intro conjI)
    show "usersOf tid ?pl = usersOf tid old \<union> os_userId ` set fresh"
      using inv(3) r2(4) users users1 by simp
    show "\<exists>resolved. ?es = map (toEmployee resolved) fresh \<and> (\<forall>u. grounded resolved u)"
      using es ground by blast
    show "dom (map_of ids) = os_userId ` set fresh" using r2(3) users by simp
  qed (fact inv root placed)+
  show "set (ob_removedUserIds built) = usersOf tid old - os_userId ` set fresh"
    unfolding built using buildOrgTree_removed prior_users by simp
qed

lemma syncTree_placed:
  assumes "syncTree env db tid fresh = Inr (built, rows)" "orgInv (od_employees db)"
    and "\<And>k. on_rowId env k \<noteq> ''''"
  obtains pl ids rootId where "placedTree tid fresh (od_employees db) pl ids rootId (ob_employees built)"
    "rows = filter (\<lambda>r. \<not> isRemoved tid (ob_removedUserIds built) r) pl"
    "set (ob_removedUserIds built) = usersOf tid (od_employees db) - os_userId ` set fresh"
  using syncTree_steps [OF assms(1)] passes_placed [OF _ _ _ assms(2-)] by metis

text \<open>Every stored parent is the root or an employee who stays.\<close>

lemma placed_target:
  assumes "placedTree tid fresh old pl ids rootId es" "e \<in> set es"
    and removed: "set removed = usersOf tid old - os_userId ` set fresh"
  shows "\<exists>q \<in> set pl. oe_id q = parentTarget ids rootId e \<and> \<not> isRemoved tid removed q \<and> oe_tenantId q = tid"
proof -
  have pl: "orgInv pl" "idsOk tid ids pl" "dom (map_of ids) = os_userId ` set fresh"
    and root: "\<exists>r \<in> set pl. oe_id r = rootId \<and> isRootOf tid r"
    using assms(1) by (auto simp: placedTree_def)
  have stays: "\<not> isRemoved tid removed x \<and> oe_tenantId x = tid"
    if "x \<in> set pl" "isRootOf tid x \<or> (\<exists>p. isEmployee tid p x \<and> p \<in> dom (map_of ids))" for x
    using that pl(1,3) removed by (auto simp: isRemoved_def isRootOf_def orgInv_def isEmployee_def)
  consider "parentTarget ids rootId e = rootId"
    | p i where "map_of ids p = Some i" "parentTarget ids rootId e = i"
  proof (cases "re_parentUserId e")
    case (Some p)
    then have "parentTarget ids rootId e = rootId \<or> map_of ids p = Some (parentTarget ids rootId e)"
      by (cases "map_of ids p") (auto simp: parentTarget_def dflt_def)
    then show thesis using that by blast
  qed (simp add: parentTarget_def)
  then show ?thesis
  proof cases
    case 1
    then show ?thesis using root stays by metis
  next
    case 2
    then obtain x where "x \<in> set pl" "isEmployee tid p x" "oe_id x = i" using pl(2) by (auto simp: idsOk_def)
    then show ?thesis using 2 stays by (metis domI)
  qed
qed

lemma placed_fresh_user:
  assumes "placedTree tid fresh old pl ids rootId es"
    and "set removed = usersOf tid old - os_userId ` set fresh"
    and "r \<in> set pl" "oe_tenantId r = tid" "\<not> isRemoved tid removed r" "\<not> oe_isRoot r"
  obtains e where "e \<in> set es" "isEmployee tid (re_userId e) r"
proof -
  obtain u where u: "isEmployee tid u r" using assms(1,3,4,6) by (auto simp: placedTree_def isEmployee_def orgInv_def)
  have "u \<in> usersOf tid pl" using u assms(3) by (auto simp: usersOf_def)
  then have "u \<in> os_userId ` set fresh"
    using assms(1,2,5) u by (auto simp: placedTree_def isRemoved_def isEmployee_def)
  moreover have "re_userId ` set es = os_userId ` set fresh"
    using assms(1) by (auto simp: placedTree_def toEmployee_def image_image)
  ultimately show ?thesis using that u by (metis image_iff)
qed

lemma placed_rooted:
  assumes pt: "placedTree tid fresh old pl ids rootId es"
    and rem: "set removed = usersOf tid old - os_userId ` set fresh"
    and "r \<in> set pl" "\<not> isRemoved tid removed r" "oe_tenantId r = tid"
  shows "reachesRoot (filter (\<lambda>r. \<not> isRemoved tid removed r \<and> oe_tenantId r = tid) pl) (oe_id r)"
proof (cases "oe_isRoot r")
  case True
  then show ?thesis using assms(3-) by (auto intro: at_root)
next
  case False
  have pl: "orgInv pl" "idsOk tid ids pl" "\<exists>r \<in> set pl. oe_id r = rootId \<and> isRootOf tid r"
    using pt by (auto simp: placedTree_def)
  obtain resolved where es: "es = map (toEmployee resolved) fresh" and ground: "\<And>u. grounded resolved u"
    using pt by (auto simp: placedTree_def)
  have dom: "dom (map_of ids) = re_userId ` set es"
    using pt by (auto simp: placedTree_def toEmployee_def image_image)
  have placed: "\<And>e r. e \<in> set es \<Longrightarrow> r \<in> set pl \<Longrightarrow> isEmployee tid (re_userId e) r \<Longrightarrow>
      oe_parentId r = Some (parentTarget ids rootId e)"
    using pt by (simp add: placedTree_def)
  obtain e where e: "e \<in> set es" "isEmployee tid (re_userId e) r"
    using placed_fresh_user [OF pt rem assms(3,5,4) False] .
  have "reachesRoot pl (oe_id r)"
    using placed_reach_root [OF pl es placed dom ground _ assms(3) e(2)] e(1) by blast
  moreover have "\<not> isRemoved tid removed q \<and> oe_tenantId q = tid"
    if x: "x \<in> set pl" "\<not> isRemoved tid removed x \<and> oe_tenantId x = tid" "\<not> oe_isRoot x"
      and q: "q \<in> set pl" "parentRowId x = Some (oe_id q)" for x q
  proof -
    obtain d where d: "d \<in> set es" "isEmployee tid (re_userId d) x"
      using placed_fresh_user [OF pt rem x(1)] x by blast
    then have "oe_id q = parentTarget ids rootId d"
      using placed [OF d(1) x(1) d(2)] q(2) by (auto simp: parentRowId_def split: option.splits list.splits)
    then show ?thesis using placed_target [OF pt d(1) rem] orgInv_id [OF pl(1) q(1)] by metis
  qed
  ultimately show ?thesis
    using reachesRoot_filter [OF _ pl(1), of "oe_id r" "\<lambda>r. \<not> isRemoved tid removed r \<and> oe_tenantId r = tid"]
      assms(3-5) by blast
qed

text \<open>The tree the transaction stores.\<close>

lemma syncTree_rooted:
  assumes "syncTree env db tid fresh = Inr (built, rows)" "orgInv (od_employees db)"
    and "\<And>k. on_rowId env k \<noteq> ''''"
  shows "orgInv rows \<and> usersOf tid rows = os_userId ` set fresh \<and>
    (\<forall>r \<in> set (tenantRows tid rows). reachesRoot (tenantRows tid rows) (oe_id r))"
proof -
  obtain pl ids rootId where pt: "placedTree tid fresh (od_employees db) pl ids rootId (ob_employees built)"
    and rows: "rows = filter (\<lambda>r. \<not> isRemoved tid (ob_removedUserIds built) r) pl"
    and rem: "set (ob_removedUserIds built) = usersOf tid (od_employees db) - os_userId ` set fresh"
    by (rule syncTree_placed [OF assms])
  have tr: "tenantRows tid rows =
      filter (\<lambda>r. \<not> isRemoved tid (ob_removedUserIds built) r \<and> oe_tenantId r = tid) pl"
    by (simp add: rows tenantRows_def selectW_def conj_commute)
  have "usersOf tid rows = usersOf tid pl - set (ob_removedUserIds built)"
    by (auto simp: usersOf_def rows isRemoved_def isEmployee_def)
  then have "usersOf tid rows = os_userId ` set fresh"
    using pt rem by (auto simp: placedTree_def)
  moreover have "orgInv rows" using pt by (simp add: rows orgInv_filter placedTree_def)
  ultimately show ?thesis using placed_rooted [OF pt rem] by (auto simp: tr)
qed

section \<open>The transaction succeeds\<close>

text \<open>
  The references between rows: a parent is a stored row of the same tenant, and the root has no
  parent.
\<close>

definition orgFk :: "org_employees_row list \<Rightarrow> bool" where
  "orgFk rows \<longleftrightarrow> (\<forall>r \<in> set rows. (oe_isRoot r \<longrightarrow> oe_parentId r = None) \<and>
     (\<forall>p. oe_parentId r = Some p \<longrightarrow> (\<exists>q \<in> set rows. oe_id q = p \<and> oe_tenantId q = oe_tenantId r)))"

definition parentKey4 :: "org_employees_row \<Rightarrow> string \<times> string \<times> bool \<times> string option" where
  "parentKey4 r = (oe_id r, oe_tenantId r, oe_isRoot r, oe_parentId r)"

lemma orgFk_keys:
  assumes "map parentKey4 rows' = map parentKey4 rows"
  shows "orgFk rows' = orgFk rows"
proof -
  have "orgFk rs \<longleftrightarrow> (\<forall>(i, t, b, p) \<in> set (map parentKey4 rs). (b \<longrightarrow> p = None) \<and>
      (\<forall>j. p = Some j \<longrightarrow> (\<exists>c p'. (j, t, c, p') \<in> set (map parentKey4 rs))))" for rs
    unfolding orgFk_def by (auto simp: parentKey4_def image_iff) metis+
  then show ?thesis using assms by (simp only:)
qed

lemma orgFk_insert:
  "orgFk rows \<Longrightarrow> insertEmployee row rows = Inr rows' \<Longrightarrow> oe_parentId row = None \<Longrightarrow> orgFk rows'"
  by (auto simp: orgFk_def insertEmployee_def insertRow_def split: if_splits)

lemma ensureRoot_fk: "orgFk rows \<Longrightarrow> ensureRoot env tid name rows = Inr (rootId, rows') \<Longrightarrow> orgFk rows'"
proof (cases "select1 (isRootOf tid) rows")
  case (Some x)
  assume fk: "orgFk rows" and "ensureRoot env tid name rows = Inr (rootId, rows')"
  then have rows': "rows' = updateW (isRowId tid (oe_id x)) (\<lambda>r. r\<lparr>oe_name := name, oe_updatedAt := on_now env\<rparr>) rows"
    using Some by (auto simp: ensureRoot_def)
  have "map parentKey4 rows' = map parentKey4 rows"
    unfolding rows' by (rule map_updateW_same) (simp add: parentKey4_def)
  then show ?thesis using orgFk_keys fk by blast
qed (auto simp: ensureRoot_def result_simps intro: orgFk_insert)

lemma upsertAll_fk: "orgFk rows \<Longrightarrow> upsertAll env tid es k ids rows = Inr (ids', rows') \<Longrightarrow> orgFk rows'"
proof (induction es arbitrary: k ids rows)
  case (Cons e es)
  show ?case
  proof (cases "select1 (isEmployee tid (re_userId e)) rows")
    case None
    obtain rows1 where "insertEmployee (employeeRow env tid k e) rows = Inr rows1"
      and rec: "upsertAll env tid es (k + 1) (AList.update (re_userId e) (on_rowId env k) ids) rows1 = Inr (ids', rows')"
      using Cons.prems(2) None by (auto simp: result_simps)
    then have "orgFk rows1" using orgFk_insert Cons.prems(1) by (simp add: employeeRow_def)
    then show ?thesis using Cons.IH rec by blast
  next
    case (Some x)
    let ?rows = "updateW (isRowId tid (oe_id x)) (\<lambda>r. r\<lparr>oe_name := re_name e, oe_title := re_title e,
      oe_department := re_department e, oe_email := re_email e, oe_updatedAt := on_now env\<rparr>) rows"
    have "map parentKey4 ?rows = map parentKey4 rows" by (rule map_updateW_same) (simp add: parentKey4_def)
    then have "orgFk ?rows" using orgFk_keys Cons.prems(1) by blast
    then show ?thesis using Cons.IH Cons.prems(2) Some by simp
  qed
qed simp

lemma orgFk_place:
  assumes "orgFk rows" "\<exists>q \<in> set rows. oe_id q = t \<and> oe_tenantId q = tid"
    and "\<forall>r \<in> set rows. P r \<longrightarrow> \<not> oe_isRoot r \<and> oe_tenantId r = tid"
  shows "orgFk (updateW P (\<lambda>r. r\<lparr>oe_parentId := Some t\<rparr>) rows)" (is "orgFk ?rows")
proof -
  have keep: "\<exists>q' \<in> set ?rows. oe_id q' = oe_id q \<and> oe_tenantId q' = oe_tenantId q" if "q \<in> set rows" for q
  proof -
    let ?q = "if P q then q\<lparr>oe_parentId := Some t\<rparr> else q"
    have "?q \<in> set ?rows" using that by (auto simp: updateW_def)
    moreover have "oe_id ?q = oe_id q \<and> oe_tenantId ?q = oe_tenantId q" by simp
    ultimately show ?thesis by blast
  qed
  show ?thesis unfolding orgFk_def
  proof (intro ballI conjI allI impI)
    fix r assume "r \<in> set ?rows" "oe_isRoot r"
    then show "oe_parentId r = None" using assms(1,3) by (cases rule: updateW_memE) (auto simp: orgFk_def)
  next
    fix r p assume "r \<in> set ?rows" "oe_parentId r = Some p"
    then have "\<exists>q \<in> set rows. oe_id q = p \<and> oe_tenantId q = oe_tenantId r"
      using assms by (cases rule: updateW_memE) (auto simp: orgFk_def)
    then show "\<exists>q \<in> set ?rows. oe_id q = p \<and> oe_tenantId q = oe_tenantId r" using keep by metis
  qed
qed

lemma parentTarget_row:
  assumes "idsOk tid ids rows" "\<exists>r \<in> set rows. oe_id r = rootId \<and> isRootOf tid r"
  shows "\<exists>q \<in> set rows. oe_id q = parentTarget ids rootId e \<and> oe_tenantId q = tid"
proof -
  have row: "\<exists>q \<in> set rows. oe_id q = i \<and> oe_tenantId q = tid" if "map_of ids p = Some i" for p i
    using assms(1) that by (auto simp: idsOk_def isEmployee_def)
  moreover have "\<exists>q \<in> set rows. oe_id q = rootId \<and> oe_tenantId q = tid"
    using assms(2) by (auto simp: isRootOf_def)
  ultimately show ?thesis by (auto simp: parentTarget_def dflt_def split: option.splits)
qed

lemma placeAll_fk:
  assumes "orgFk rows" "orgInv rows" "idsOk tid ids rows" "\<exists>r \<in> set rows. oe_id r = rootId \<and> isRootOf tid r"
  shows "orgFk (placeAll tid ids rootId es rows)"
proof (induction es rule: rev_induct)
  case Nil
  then show ?case using assms(1) by (simp add: placeAll_def)
next
  case (snoc e es)
  let ?mid = "placeAll tid ids rootId es rows"
  have inv: "orgInv ?mid" "idsOk tid ids ?mid" "rootKeys ?mid = rootKeys rows"
    using assms(2,3) by (simp_all add: orgInv_keys [OF placeAll_keys] idsOk_keys [OF placeAll_keys]
        rootKeys_keys [OF placeAll_keys])
  note target = parentTarget_row [OF inv(2) root_kept [OF assms(4) inv(3)]]
  have "\<not> oe_isRoot r" if "map_of ids u = Some own" "r \<in> set ?mid" "isRowId tid own r" for u own r
    using that inv(1,2) orgInv_id [OF inv(1)] by (fastforce simp: idsOk_def isRowId_def isEmployee_def orgInv_def)
  then have "orgFk (placeOne tid ids rootId e ?mid)"
    using snoc.IH orgFk_place [OF snoc.IH target] by (auto simp: placeOne_def isRowId_def split: option.splits)
  then show ?case by (simp add: placeAll_def)
qed

text \<open>Removing the departed employees never leaves a reference to one of them.\<close>

lemma placed_keeps_parent:
  assumes pt: "placedTree tid fresh old pl ids rootId es" and fk: "orgFk pl"
    and rem: "set removed = usersOf tid old - os_userId ` set fresh"
    and r: "r \<in> set pl" "\<not> isRemoved tid removed r" "oe_parentId r = Some p"
  shows "\<exists>q \<in> set pl. oe_id q = p \<and> oe_tenantId q = oe_tenantId r \<and> \<not> isRemoved tid removed q"
proof (cases "oe_tenantId r = tid")
  case True
  have "\<not> oe_isRoot r" using fk r by (auto simp: orgFk_def)
  then obtain e where e: "e \<in> set es" "isEmployee tid (re_userId e) r"
    using placed_fresh_user [OF pt rem r(1) True r(2)] by blast
  then have "p = parentTarget ids rootId e" using pt r by (auto simp: placedTree_def)
  then show ?thesis using placed_target [OF pt e(1) rem] True by auto
next
  case False
  then show ?thesis using fk r by (fastforce simp: orgFk_def isRemoved_def)
qed

lemma removeAll1_Inl:
  assumes "removeAll1 tid removed rows = Inl e"
  obtains r p x where "r \<in> set rows" "\<not> isRemoved tid removed r" "oe_parentId r = Some p"
    "x \<in> set rows" "isRemoved tid removed x" "oe_id x = p"
proof -
  let ?P = "isRemoved tid removed" and ?f = "\<lambda>r :: org_employees_row. r\<lparr>oe_parentId := None\<rparr>"
  have f: "?P (?f r) = ?P r" "oe_id (?f r) = oe_id r" for r by (simp_all add: isRemoved_def)
  obtain r p where "r \<in> set (deleteW ?P (updateW ?P ?f rows))" "oe_parentId r = Some p"
    and p: "p \<in> oe_id ` set (selectW ?P (updateW ?P ?f rows))"
    using assms by (auto simp: removeAll1_def Let_def list_ex_iff split: if_splits option.splits)
  then have "r \<in> set rows" "\<not> ?P r" using f by (auto simp: set_updateW)
  moreover obtain x where "x \<in> set rows" "?P x" "oe_id x = p" using p f by (auto simp: set_updateW)
  ultimately show ?thesis using that \<open>oe_parentId r = Some p\<close> by blast
qed

lemma removeAll1_succeeds:
  assumes pt: "placedTree tid fresh old pl ids rootId es" and fk: "orgFk pl"
    and rem: "set removed = usersOf tid old - os_userId ` set fresh"
  shows "\<exists>rows. removeAll1 tid removed pl = Inr rows \<and> orgFk rows"
proof -
  let ?P = "isRemoved tid removed"
  have inv: "orgInv pl" using pt by (simp add: placedTree_def)
  note keeps = placed_keeps_parent [OF pt fk rem]
  have "removeAll1 tid removed pl \<noteq> Inl e" for e
  proof
    assume "removeAll1 tid removed pl = Inl e"
    then obtain r p x where r: "r \<in> set pl" "\<not> ?P r" "oe_parentId r = Some p"
      and x: "x \<in> set pl" "?P x" "oe_id x = p"
      by (rule removeAll1_Inl)
    obtain q where "q \<in> set pl" "oe_id q = p" "\<not> ?P q" using keeps [OF r] by blast
    then show False using orgInv_id [OF inv x(1)] x by metis
  qed
  then obtain rows where rows: "removeAll1 tid removed pl = Inr rows" by (cases "removeAll1 tid removed pl") auto
  have "orgFk rows"
    unfolding removeAll1_Inr [OF rows] orgFk_def using keeps fk by (fastforce simp: orgFk_def)
  then show ?thesis using rows by blast
qed

lemma insertEmployee_new:
  "oe_id row \<notin> oe_id ` set rows \<Longrightarrow> insertEmployee row rows = Inr (rows @ [row])"
  by (simp add: insertEmployee_def insertRow_def list_ex_iff) (metis image_eqI)

lemma updateW_ids: "(\<And>r. oe_id (f r) = oe_id r) \<Longrightarrow> oe_id ` set (updateW P f rows) = oe_id ` set rows"
  using map_updateW_same [of oe_id f P rows] by (metis list.set_map)

lemma ensureRoot_succeeds:
  assumes "on_rowId env 1 \<notin> oe_id ` set rows"
  shows "\<exists>rootId rows1. ensureRoot env tid name rows = Inr (rootId, rows1) \<and>
    oe_id ` set rows1 \<subseteq> insert (on_rowId env 1) (oe_id ` set rows)"
proof (cases "select1 (isRootOf tid) rows")
  case None
  then show ?thesis using assms by (simp add: ensureRoot_def insertEmployee_new)
next
  case (Some x)
  then show ?thesis by (auto simp: ensureRoot_def updateW_ids)
qed

lemma upsertAll_succeeds:
  assumes "inj (on_rowId env)" "\<forall>j \<ge> k. on_rowId env j \<notin> oe_id ` set rows"
  shows "\<exists>res. upsertAll env tid es k ids rows = Inr res"
  using assms(2)
proof (induction es arbitrary: k ids rows)
  case (Cons e es)
  show ?case
  proof (cases "select1 (isEmployee tid (re_userId e)) rows")
    case None
    have "\<forall>j \<ge> k + 1. on_rowId env j \<notin> oe_id ` set (rows @ [employeeRow env tid k e])"
      using Cons.prems assms(1) by (auto simp: employeeRow_def inj_eq)
    from Cons.IH [OF this] show ?thesis
      using None Cons.prems by (simp add: insertEmployee_new employeeRow_def)
  next
    case (Some x)
    then show ?thesis using Cons.IH Cons.prems by (simp add: updateW_ids)
  qed
qed simp

text \<open>
  C17. The rebuilding transaction goes through: with the tenant on record, fresh row ids and no
  failing statement, it succeeds whatever the directory delivers, users that are delivered twice included. In particular the foreign key
  on the parent, which the database checks per statement, is never violated by the deletes,
  even when a whole chain of managers leaves at once, and it holds again afterwards.
\<close>
theorem syncTree_succeeds:
  assumes "on_treeFails env = None" "map_of (od_tenants db) tid = Some name"
    and "orgInv (od_employees db)" "orgFk (od_employees db)"
    and "inj (on_rowId env)" "\<forall>k. on_rowId env k \<noteq> '''' \<and> on_rowId env k \<notin> oe_id ` set (od_employees db)"
  shows "\<exists>built rows. syncTree env db tid fresh = Inr (built, rows) \<and> orgFk rows"
proof -
  let ?old = "od_employees db"
  define built where "built = buildOrgTree fresh (priorTree (tenantRows tid ?old))"
  have ne: "\<And>k. on_rowId env k \<noteq> ''''" using assms(6) by simp
  obtain rootId rows1 where er: "ensureRoot env tid name ?old = Inr (rootId, rows1)"
    and ids1: "oe_id ` set rows1 \<subseteq> insert (on_rowId env 1) (oe_id ` set ?old)"
    using ensureRoot_succeeds assms(6) by blast
  have "\<forall>j \<ge> 2. on_rowId env j \<notin> oe_id ` set rows1"
  proof (intro allI impI)
    fix j :: nat assume "2 \<le> j"
    then have "on_rowId env j \<noteq> on_rowId env 1" using assms(5) by (simp add: inj_eq)
    then show "on_rowId env j \<notin> oe_id ` set rows1" using ids1 assms(6) by blast
  qed
  then obtain ids rows2 where up: "upsertAll env tid (ob_employees built) 2 [] rows1 = Inr (ids, rows2)"
    using upsertAll_succeeds [OF assms(5)] by (metis surj_pair)
  let ?pl = "placeAll tid ids rootId (ob_employees built) rows2"
  note pt = passes_placed [OF built_def er up assms(3) ne]
  have r1: "orgInv rows1" "\<exists>r \<in> set rows1. oe_id r = rootId \<and> isRootOf tid r"
    using ensureRoot_ok [OF assms(3) er ne] by auto
  have r2: "orgInv rows2" "idsOk tid ids rows2" "rootKeys rows2 = rootKeys rows1"
    using upsertAll_ok [OF up r1(1) _ ne] by (auto simp: idsOk_def)
  have "\<exists>r \<in> set rows2. oe_id r = rootId \<and> isRootOf tid r" using r1(2) r2(3) by (rule root_kept)
  moreover have "orgFk rows2" using ensureRoot_fk [OF assms(4) er] upsertAll_fk [OF _ up] by blast
  ultimately have "orgFk ?pl" using placeAll_fk r2 by blast
  then obtain rows where "removeAll1 tid (ob_removedUserIds built) ?pl = Inr rows" "orgFk rows"
    using removeAll1_succeeds [OF pt(1) _ pt(2)] by blast
  then show ?thesis using assms(1,2) er up by (simp add: syncTree_def Let_def flip: built_def)
qed

text \<open>
  A concrete directory: user \<open>gone\<close> reported to \<open>a\<close> and leaves, while \<open>a\<close> now reports to
  \<open>b\<close>, whose manager is \<open>gone\<close>.
\<close>

definition demo_org :: org_db where
  "demo_org =
     \<lparr>od_tenants = [(''t1'', ''Acme'')],
      od_employees =
        [\<lparr>oe_id = ''r'', oe_tenantId = ''t1'', oe_userId = None, oe_parentId = None, oe_name = ''Acme'', oe_title = '''',
          oe_department = '''', oe_email = '''', oe_isRoot = True, oe_updatedAt = 0\<rparr>,
         \<lparr>oe_id = ''ra'', oe_tenantId = ''t1'', oe_userId = Some ''a'', oe_parentId = Some ''r'', oe_name = ''A'', oe_title = '''',
          oe_department = '''', oe_email = '''', oe_isRoot = False, oe_updatedAt = 0\<rparr>,
         \<lparr>oe_id = ''rg'', oe_tenantId = ''t1'', oe_userId = Some ''gone'', oe_parentId = Some ''ra'', oe_name = ''G'', oe_title = '''',
          oe_department = '''', oe_email = '''', oe_isRoot = False, oe_updatedAt = 0\<rparr>],
      od_runs = []\<rparr>"

definition demo_org_env :: org_env where
  "demo_org_env = \<lparr>on_lockAcquired = True, on_rowId = (\<lambda>k. replicate (Suc k) (CHR ''n'')), on_now = 1000,
     on_startFails = None, on_fetch = Inr demo_fresh, on_treeFails = None, on_completeFails = None,
     on_markFails = False\<rparr>"

lemma demo_hyps:
  "orgInv (od_employees demo_org)" "orgFk (od_employees demo_org)" "distinct (map os_userId demo_fresh)"
  "inj (on_rowId demo_org_env)" "on_rowId demo_org_env k \<noteq> ''''"
  "on_rowId demo_org_env k \<notin> oe_id ` set (od_employees demo_org)"
  "on_treeFails demo_org_env = None" "map_of (od_tenants demo_org) ''t1'' = Some ''Acme''"
  "on_fetch demo_org_env = Inr demo_fresh"
  by (auto simp: demo_org_def demo_org_env_def demo_fresh_def orgInv_def orgFk_def intro!: injI dest: arg_cong [of _ _ length])

theorem syncTree_succeeds_witness:
  "\<exists>built rows. syncTree demo_org_env demo_org ''t1'' (demo_fresh @ demo_fresh) = Inr (built, rows) \<and> orgFk rows"
  using demo_hyps by (intro syncTree_succeeds) auto

end
