(* ===== verification/OrgQuery.thy ===== *)
theory OrgQuery
  imports OrgSync
begin

text \<open>
  The queries over the stored directory (\<open>packages/org-directory/src/query.ts\<close>): the tree
  for display, the chain of managers above a user, the reports below a user, and the state of
  the synchronisation. The two walks are loops over a graph that the database does not force to
  be a tree, so they are partial functions, and that they return is a theorem.
\<close>

section \<open>Nodes and the tree\<close>

record OrgNode =
  nd_userId :: string
  nd_parentId :: "string option"
  nd_name :: string
  nd_title :: string
  nd_department :: string
  nd_email :: string
  nd_isRoot :: bool

definition toNode :: "org_employees_row \<Rightarrow> OrgNode" where
  "toNode r = \<lparr>nd_userId = dflt (oe_id r) (oe_userId r), nd_parentId = oe_parentId r,
     nd_name = oe_name r, nd_title = oe_title r, nd_department = oe_department r,
     nd_email = oe_email r, nd_isRoot = oe_isRoot r\<rparr>"

definition fetchAllRows :: "org_db \<Rightarrow> string \<Rightarrow> org_employees_row list" where
  "fetchAllRows db tenantId = tenantRows tenantId (od_employees db)"

record OrgTreeView =
  ot_root :: OrgNode
  ot_nodesByParentId :: "(string \<times> OrgNode list) list"

definition parentKey :: "org_employees_row list \<Rightarrow> org_employees_row \<Rightarrow> string" where
  "parentKey rows r =
     (case parentRowId r of
        None \<Rightarrow> ''''
      | Some p \<Rightarrow> (case rowById rows p of None \<Rightarrow> p | Some q \<Rightarrow> dflt (oe_id q) (oe_userId q)))"

definition addToBucket ::
  "org_employees_row list \<Rightarrow> org_employees_row \<Rightarrow> (string \<times> OrgNode list) list \<Rightarrow> (string \<times> OrgNode list) list" where
  "addToBucket rows r buckets =
     (if oe_isRoot r then buckets
      else (let k = parentKey rows r in
            AList.update k (dflt [] (map_of buckets k) @
              [(toNode r)\<lparr>nd_parentId := (if k = '''' then None else Some k)\<rparr>]) buckets))"

definition buildOrgTreeFromRows :: "org_employees_row list \<Rightarrow> OrgTreeView option" where
  "buildOrgTreeFromRows rows =
     (case find oe_isRoot rows of
        None \<Rightarrow> None
      | Some rootRow \<Rightarrow> Some \<lparr>ot_root = toNode rootRow,
          ot_nodesByParentId = fold (addToBucket rows) rows []\<rparr>)"

definition getOrgTree :: "org_db \<Rightarrow> string \<Rightarrow> OrgTreeView option" where
  "getOrgTree db tenantId = buildOrgTreeFromRows (fetchAllRows db tenantId)"

definition hasDirectReports :: "org_db \<Rightarrow> string \<Rightarrow> string \<Rightarrow> bool" where
  "hasDirectReports db tenantId userId =
     (case select1 (isEmployee tenantId userId) (od_employees db) of
        None \<Rightarrow> False
      | Some manager \<Rightarrow> select1 (\<lambda>r. oe_tenantId r = tenantId \<and> oe_parentId r = Some (oe_id manager) \<and>
          oe_userId r \<noteq> None) (od_employees db) \<noteq> None)"

section \<open>The chain above a user\<close>

partial_function (option) chainLoop ::
  "org_employees_row list \<Rightarrow> org_employees_row option \<Rightarrow> string list \<Rightarrow> org_employees_row list option" where
  "chainLoop rows current seen =
     (case current of
        None \<Rightarrow> Some []
      | Some r \<Rightarrow>
          if oe_isRoot r \<or> oe_id r \<in> set seen then Some []
          else Option.bind (chainLoop rows (Option.bind (parentRowId r) (rowById rows)) (oe_id r # seen))
                 (\<lambda>rest. Some (r # rest)))"

definition getChainToRoot :: "org_db \<Rightarrow> string \<Rightarrow> string \<Rightarrow> OrgNode list option" where
  "getChainToRoot db tenantId userId =
     (let rows = fetchAllRows db tenantId in
      case find (\<lambda>r. oe_userId r = Some userId) rows of
        None \<Rightarrow> Some []
      | Some start \<Rightarrow> map_option (map toNode) (chainLoop rows (Some start) []))"

section \<open>The reports below a user\<close>

definition childrenOf :: "org_employees_row list \<Rightarrow> string \<Rightarrow> org_employees_row list" where
  "childrenOf rows i = filter (\<lambda>r. oe_userId r \<noteq> None) (filter (\<lambda>r. parentRowId r = Some i) rows)"

fun nextFrontier ::
  "org_employees_row list \<Rightarrow> org_employees_row list \<Rightarrow> string list \<Rightarrow> org_employees_row list \<times> string list" where
  "nextFrontier rows [] seen = ([], seen)"
| "nextFrontier rows (r # rs) seen =
     (if oe_id r \<in> set seen then nextFrontier rows rs seen
      else (let (nexts, seen1) = nextFrontier rows rs (oe_id r # seen)
            in (childrenOf rows (oe_id r) @ nexts, seen1)))"

partial_function (option) levelsLoop ::
  "org_employees_row list \<Rightarrow> org_employees_row list \<Rightarrow> string list \<Rightarrow> org_employees_row list list option" where
  "levelsLoop rows frontier seen =
     (if frontier = [] then Some []
      else Option.bind (levelsLoop rows (fst (nextFrontier rows frontier seen)) (snd (nextFrontier rows frontier seen)))
             (\<lambda>rest. Some (frontier # rest)))"

definition getReportsByLevel :: "org_db \<Rightarrow> string \<Rightarrow> string \<Rightarrow> OrgNode list list option" where
  "getReportsByLevel db tenantId userId =
     (let rows = fetchAllRows db tenantId in
      case find (\<lambda>r. oe_userId r = Some userId) rows of
        None \<Rightarrow> Some []
      | Some start \<Rightarrow> map_option (map (map toNode)) (levelsLoop rows (childrenOf rows (oe_id start)) [oe_id start]))"

fun dedupe :: "string \<Rightarrow> OrgNode list \<Rightarrow> string list \<Rightarrow> OrgNode list" where
  "dedupe userId [] seen = []"
| "dedupe userId (n # ns) seen =
     (if nd_userId n = userId \<or> nd_userId n \<in> set seen then dedupe userId ns seen
      else n # dedupe userId ns (nd_userId n # seen))"

definition getSubtreeMembers :: "org_db \<Rightarrow> string \<Rightarrow> string \<Rightarrow> (string list \<times> OrgNode list) option" where
  "getSubtreeMembers db tenantId userId =
     map_option (\<lambda>levels. let members = dedupe userId (concat levels) [] in (map nd_userId members, members))
       (getReportsByLevel db tenantId userId)"

section \<open>The state of the synchronisation\<close>

text \<open>
  Descending order by a nullable column: the database lists rows without a value first. Of rows
  with equal keys the first is taken.
\<close>

fun sortsBefore :: "date option \<Rightarrow> date option \<Rightarrow> bool" where
  "sortsBefore None y = (y \<noteq> None)"
| "sortsBefore (Some x) None = False"
| "sortsBefore (Some x) (Some y) = (y < x)"

fun latestBy :: "('r \<Rightarrow> date option) \<Rightarrow> 'r list \<Rightarrow> 'r option" where
  "latestBy key [] = None"
| "latestBy key (r # rs) =
     (case latestBy key rs of
        None \<Rightarrow> Some r
      | Some q \<Rightarrow> if sortsBefore (key q) (key r) then Some q else Some r)"

record SyncStatus =
  ss_lastSyncedAt :: "string option"
  ss_lastSyncOk :: bool
  ss_staleSinceMs :: "int option"
  ss_syncInProgress :: bool

definition getSyncStatus :: "date \<Rightarrow> org_db \<Rightarrow> string \<Rightarrow> SyncStatus" where
  "getSyncStatus now db tenantId =
     (let running = select1 (\<lambda>r. sr_tenantId r = tenantId \<and> sr_status r = RunRunning) (od_runs db);
          lastFinished = latestBy sr_completedAt
            (selectW (\<lambda>r. sr_tenantId r = tenantId \<and> sr_status r = RunCompleted) (od_runs db));
          lastAttempt = latestBy (\<lambda>r. Some (sr_startedAt r)) (selectW (\<lambda>r. sr_tenantId r = tenantId) (od_runs db));
          completedAt = Option.bind lastFinished sr_completedAt
      in \<lparr>ss_lastSyncedAt = map_option toISOString completedAt,
          ss_lastSyncOk = (map_option sr_status lastAttempt \<noteq> Some RunFailed),
          ss_staleSinceMs = map_option (\<lambda>t. now - t) completedAt,
          ss_syncInProgress = (running \<noteq> None)\<rparr>)"

lemma latestBy_last:
  assumes "\<forall>r \<in> set rs. sortsBefore (key x) (key r)"
  shows "latestBy key (rs @ [x]) = Some x"
  using assms by (induction rs) auto

section \<open>Both walks return\<close>

text \<open>Every step marks a row of the table as seen, so the rows not seen yet bound the loops.\<close>

lemma unseen_less:
  assumes "r \<in> set rows" "oe_id r \<notin> set seen"
  shows "card (oe_id ` set rows - set (oe_id r # seen)) < card (oe_id ` set rows - set seen)"
  using assms by (intro psubset_card_mono) auto

lemma chainLoop_returns:
  assumes "\<forall>r. current = Some r \<longrightarrow> r \<in> set rows"
  shows "\<exists>chain. chainLoop rows current seen = Some chain"
  using assms
proof (induction "card (oe_id ` set rows - set seen)" arbitrary: current seen rule: less_induct)
  case less
  show ?case
  proof (cases current)
    case None
    then show ?thesis by (simp add: chainLoop.simps)
  next
    case (Some r)
    show ?thesis
    proof (cases "oe_isRoot r \<or> oe_id r \<in> set seen")
      case False
      let ?up = "Option.bind (parentRowId r) (rowById rows)"
      have "\<forall>q. ?up = Some q \<longrightarrow> q \<in> set rows" by (auto simp: bind_eq_Some_conv dest: rowById_mem)
      then obtain rest where "chainLoop rows ?up (oe_id r # seen) = Some rest"
        using less.hyps [OF unseen_less] less.prems Some False by blast
      then show ?thesis using Some False by (subst chainLoop.simps) simp
    qed (subst chainLoop.simps, simp add: Some)
  qed
qed

lemma nextFrontier_seen:
  "set (snd (nextFrontier rows frontier seen)) = set seen \<union> oe_id ` set frontier"
  by (induction rows frontier seen rule: nextFrontier.induct) (auto simp: Let_def split: prod.splits)

lemma nextFrontier_rows: "set (fst (nextFrontier rows frontier seen)) \<subseteq> set rows"
  by (induction rows frontier seen rule: nextFrontier.induct)
    (auto simp: Let_def childrenOf_def split: prod.splits)

lemma nextFrontier_stuck:
  "oe_id ` set frontier \<subseteq> set seen \<Longrightarrow> nextFrontier rows frontier seen = ([], seen)"
  by (induction rows frontier seen rule: nextFrontier.induct) auto

lemma levelsLoop_returns:
  assumes "set frontier \<subseteq> set rows"
  shows "\<exists>levels. levelsLoop rows frontier seen = Some levels"
  using assms
proof (induction "card (oe_id ` set rows - set seen)" arbitrary: frontier seen rule: less_induct)
  case less
  let ?nf = "nextFrontier rows frontier seen"
  have "\<exists>rest. levelsLoop rows (fst ?nf) (snd ?nf) = Some rest"
  proof (cases "oe_id ` set frontier \<subseteq> set seen")
    case True
    then show ?thesis by (subst levelsLoop.simps) (simp add: nextFrontier_stuck)
  next
    case False
    then obtain r where "r \<in> set frontier" "oe_id r \<notin> set seen" by auto
    then have "oe_id ` set rows - set (snd ?nf) \<subset> oe_id ` set rows - set seen"
      using less.prems by (auto simp: nextFrontier_seen)
    then have "card (oe_id ` set rows - set (snd ?nf)) < card (oe_id ` set rows - set seen)"
      by (intro psubset_card_mono) simp_all
    then show ?thesis using less.hyps nextFrontier_rows by blast
  qed
  then show ?case by (subst levelsLoop.simps) auto
qed

text \<open>
  C16. The walks over the directory always return, on every table: also on one with a cycle of
  parents, which the guards on the rows already seen cut.
\<close>
theorem walks_return:
  "(\<exists>chain. getChainToRoot db tid u = Some chain) \<and> (\<exists>levels. getReportsByLevel db tid u = Some levels) \<and>
   (\<exists>ids members. getSubtreeMembers db tid u = Some (ids, members))"
proof -
  let ?rows = "fetchAllRows db tid"
  have start: "\<exists>chain. chainLoop ?rows (Some r) [] = Some chain" if "r \<in> set ?rows" for r
    using chainLoop_returns [of "Some r"] that by simp
  have down: "\<exists>levels. levelsLoop ?rows (childrenOf ?rows i) seen = Some levels" for i seen
    by (rule levelsLoop_returns) (auto simp: childrenOf_def)
  have "\<exists>levels. getReportsByLevel db tid u = Some levels"
    using down by (auto simp: getReportsByLevel_def Let_def split: option.splits)
  moreover have "\<exists>chain. getChainToRoot db tid u = Some chain"
    using start by (auto simp: getChainToRoot_def Let_def find_Some_iff split: option.splits)
  ultimately show ?thesis by (auto simp: getSubtreeMembers_def Let_def)
qed

end
