(* ===== verification/OrgProps.thy ===== *)
theory OrgProps
  imports OrgQuery "HOL-Library.Sublist"
begin

text \<open>
  What a whole synchronisation run promises, and what the queries answer on the tree it leaves:
  the outcome of a run on every branch, the rooted tree, and the agreement of the walk up with
  the walk down.
\<close>

section \<open>A run touches one tenant\<close>

abbreviation others :: "string \<Rightarrow> org_employees_row list \<Rightarrow> org_employees_row list" where
  "others tid rows \<equiv> filter (\<lambda>r. oe_tenantId r \<noteq> tid) rows"

lemma insertEmployee_others:
  "insertEmployee row rows = Inr rows' \<Longrightarrow> oe_tenantId row = tid \<Longrightarrow> others tid rows' = others tid rows"
  by (auto simp: insertEmployee_def insertRow_def split: if_splits)

lemma ensureRoot_others: "ensureRoot env tid name rows = Inr (i, rows') \<Longrightarrow> others tid rows' = others tid rows"
  by (auto simp: ensureRoot_def result_simps isRowId_def intro!: filter_updateW_other
      dest: insertEmployee_others split: option.splits)

lemma upsertAll_others: "upsertAll env tid es k ids rows = Inr (ids', rows') \<Longrightarrow> others tid rows' = others tid rows"
proof (induction es arbitrary: k ids rows)
  case (Cons e es)
  show ?case
  proof (cases "select1 (isEmployee tid (re_userId e)) rows")
    case None
    then obtain rows1 where "insertEmployee (employeeRow env tid k e) rows = Inr rows1"
      and "upsertAll env tid es (k + 1) (AList.update (re_userId e) (on_rowId env k) ids) rows1 = Inr (ids', rows')"
      using Cons.prems by (auto simp: result_simps)
    then show ?thesis using Cons.IH insertEmployee_others by (metis employeeRow_tenant)
  next
    case (Some x)
    let ?f = "\<lambda>r. r\<lparr>oe_name := re_name e, oe_title := re_title e, oe_department := re_department e,
      oe_email := re_email e, oe_updatedAt := on_now env\<rparr>"
    have "others tid (updateW (isRowId tid (oe_id x)) ?f rows) = others tid rows"
      by (rule filter_updateW_other) (simp add: isRowId_def)
    then show ?thesis using Cons.IH Cons.prems Some by simp
  qed
qed simp

lemma placeAll_others: "others tid (placeAll tid ids rootId es rows) = others tid rows"
proof (induction es arbitrary: rows)
  case (Cons e es)
  have "others tid (placeOne tid ids rootId e rows) = others tid rows"
    by (auto simp: placeOne_def isRowId_def intro!: filter_updateW_other split: option.splits)
  then show ?case using Cons by (simp add: placeAll_def)
qed (simp add: placeAll_def)

lemma syncTree_others:
  assumes "syncTree env db tid fresh = Inr (built, rows)"
  shows "others tid rows = others tid (od_employees db)"
proof -
  obtain name rootId rows1 ids rows2 where
    er: "ensureRoot env tid name (od_employees db) = Inr (rootId, rows1)"
    and up: "upsertAll env tid (ob_employees built) 2 [] rows1 = Inr (ids, rows2)"
    and rows: "rows = filter (\<lambda>r. \<not> isRemoved tid (ob_removedUserIds built) r)
       (placeAll tid ids rootId (ob_employees built) rows2)"
    by (rule syncTree_steps [OF assms])
  have "others tid rows = others tid (placeAll tid ids rootId (ob_employees built) rows2)"
    unfolding rows filter_filter by (rule filter_cong) (auto simp: isRemoved_def)
  then show ?thesis using ensureRoot_others [OF er] upsertAll_others [OF up] placeAll_others by simp
qed

section \<open>The outcome of a run\<close>

definition runningRuns :: "string \<Rightarrow> org_db \<Rightarrow> sync_runs_row list" where
  "runningRuns tid db = filter (\<lambda>r. sr_tenantId r = tid \<and> sr_status r = RunRunning) (od_runs db)"

text \<open>Everything a run for one tenant must not change.\<close>

definition othersView :: "string \<Rightarrow> org_db \<Rightarrow> (string \<times> string) list \<times> org_employees_row list \<times> sync_runs_row list" where
  "othersView tid db = (od_tenants db, others tid (od_employees db), filter (\<lambda>r. sr_tenantId r \<noteq> tid) (od_runs db))"

lemma startRun_runs:
  "filter (\<lambda>r. sr_tenantId r \<noteq> tid) (startRun env tid tb runs) = filter (\<lambda>r. sr_tenantId r \<noteq> tid) runs"
  "filter (\<lambda>r. sr_tenantId r = tid \<and> sr_status r = RunRunning) (startRun env tid tb runs) =
     [last (startRun env tid tb runs)]"
  "isRun tid (on_rowId env 0) (last (startRun env tid tb runs))"
proof -
  have "filter (\<lambda>r. sr_tenantId r \<noteq> tid) (updateW (\<lambda>r. sr_tenantId r = tid \<and> sr_status r = RunRunning) f runs) =
      filter (\<lambda>r. sr_tenantId r \<noteq> tid) runs" if "\<And>r. sr_tenantId (f r) = sr_tenantId r" for f
    using that by (intro filter_updateW_other) simp
  then show "filter (\<lambda>r. sr_tenantId r \<noteq> tid) (startRun env tid tb runs) = filter (\<lambda>r. sr_tenantId r \<noteq> tid) runs"
    by (simp add: startRun_def insertRow_def)
  have "filter (\<lambda>r. sr_tenantId r = tid \<and> sr_status r = RunRunning)
      (updateW (\<lambda>r. sr_tenantId r = tid \<and> sr_status r = RunRunning) f runs) = []"
    if "\<And>r. sr_status (f r) = RunFailed" for f
    using that by (auto simp: filter_empty_conv set_updateW)
  then show "filter (\<lambda>r. sr_tenantId r = tid \<and> sr_status r = RunRunning) (startRun env tid tb runs) =
     [last (startRun env tid tb runs)]"
    by (simp add: startRun_def insertRow_def)
qed (simp add: startRun_def insertRow_def isRun_def)

text \<open>Settling the run: the started row is the only running one, and it gets a final status.\<close>

lemma settle_runs:
  assumes "filter (\<lambda>r. sr_tenantId r = tid \<and> sr_status r = RunRunning) runs = [x]" "isRun tid i x"
    and "\<And>r. sr_tenantId (f r) = sr_tenantId r" "\<And>r. sr_status (f r) \<noteq> RunRunning"
  shows "filter (\<lambda>r. sr_tenantId r = tid \<and> sr_status r = RunRunning) (updateW (isRun tid i) f runs) = []"
    and "filter (\<lambda>r. sr_tenantId r \<noteq> tid) (updateW (isRun tid i) f runs) = filter (\<lambda>r. sr_tenantId r \<noteq> tid) runs"
proof -
  have only: "{r \<in> set runs. sr_tenantId r = tid \<and> sr_status r = RunRunning} = {x}"
    using arg_cong [OF assms(1), of set] by simp
  have "\<not> (sr_tenantId r = tid \<and> sr_status r = RunRunning)" if r: "r \<in> set (updateW (isRun tid i) f runs)" for r
    using r
  proof (cases rule: updateW_memE)
    case 1
    then have "r \<noteq> x" using assms(2) by blast
    then show ?thesis using 1(1) only by blast
  qed (use assms(4) in simp)
  then show "filter (\<lambda>r. sr_tenantId r = tid \<and> sr_status r = RunRunning) (updateW (isRun tid i) f runs) = []"
    by (auto simp: filter_empty_conv)
  show "filter (\<lambda>r. sr_tenantId r \<noteq> tid) (updateW (isRun tid i) f runs) = filter (\<lambda>r. sr_tenantId r \<noteq> tid) runs"
    using assms(3) by (intro filter_updateW_other) (simp add: isRun_def)
qed

lemma syncTree_runs [simp]: "syncTree env (db\<lparr>od_runs := rs\<rparr>) tid fresh = syncTree env db tid fresh"
  by (simp add: syncTree_def)

lemma run_cases:
  assumes "runOrgDirectorySync env db tid tb = Inr (res, db')"
  obtains (busy) "\<not> on_lockAcquired env" "res = ALREADY_RUNNING_RESULT" "db' = db"
  | (failed) e where "res = FAILED_RESULT"
      "db' = db\<lparr>od_runs := failRun env tid e (startRun env tid tb (od_runs db))\<rparr>"
  | (late) fresh built rows e where "on_completeFails env = Some e" "res = FAILED_RESULT"
      "on_fetch env = Inr fresh" "syncTree env db tid fresh = Inr (built, rows)"
      "db' = db\<lparr>od_employees := rows, od_runs := failRun env tid e (startRun env tid tb (od_runs db))\<rparr>"
  | (stored) fresh built rows where "sy_status res = SyncCompleted" "sy_employeeCount res = length (ob_employees built)"
      "on_fetch env = Inr fresh" "syncTree env db tid fresh = Inr (built, rows)"
      "db' = db\<lparr>od_employees := rows, od_runs := completeRun env tid built (startRun env tid tb (od_runs db))\<rparr>"
proof (cases "on_lockAcquired env")
  case False
  then show ?thesis using assms busy by (simp add: runOrgDirectorySync_def)
next
  case True
  let ?runs = "startRun env tid tb (od_runs db)"
  have run: "runLockedSync env db tid tb = Inr (res, db')" using assms True by (simp add: runOrgDirectorySync_def)
  then have start: "on_startFails env = None" by (auto simp: runLockedSync_def split: option.splits)
  show ?thesis
  proof (cases "bindE (on_fetch env) (syncTree env (db\<lparr>od_runs := ?runs\<rparr>) tid)")
    case (Inl e)
    then show ?thesis using run start failed by (auto simp: runLockedSync_def Let_def)
  next
    case (Inr br)
    then obtain fresh built rows where br: "br = (built, rows)" "on_fetch env = Inr fresh"
      "syncTree env db tid fresh = Inr (built, rows)"
      by (cases br) (auto simp: result_simps)
    show ?thesis
    proof (cases "on_completeFails env")
      case None
      then have "sy_status res = SyncCompleted" "sy_employeeCount res = length (ob_employees built)"
        "db' = db\<lparr>od_employees := rows, od_runs := completeRun env tid built ?runs\<rparr>"
        using run start br by (auto simp: runLockedSync_def Let_def)
      then show ?thesis using stored br(2,3) by blast
    next
      case (Some e)
      then show ?thesis using run start br late by (auto simp: runLockedSync_def Let_def)
    qed
  qed
qed

lemmas run_settle = settle_runs [OF startRun_runs(2,3)]

lemma failRun_runs:
  defines "P \<equiv> \<lambda>tid r. sr_tenantId r = tid \<and> sr_status r = RunRunning"
  shows "length (filter (P tid) (failRun env tid e (startRun env tid tb runs))) \<le> (if on_markFails env then 1 else 0)"
    and "filter (\<lambda>r. sr_tenantId r \<noteq> tid) (failRun env tid e (startRun env tid tb runs)) =
      filter (\<lambda>r. sr_tenantId r \<noteq> tid) runs"
  by (simp_all add: failRun_def P_def startRun_runs run_settle)

definition demo_sync :: "SyncResult \<times> org_db" where
  "demo_sync = (case runOrgDirectorySync demo_org_env demo_org ''t1'' None of
     Inr x \<Rightarrow> x | Inl e \<Rightarrow> (FAILED_RESULT, demo_org))"

lemma demo_sync: "runOrgDirectorySync demo_org_env demo_org ''t1'' None = Inr (fst demo_sync, snd demo_sync)"
  "sy_status (fst demo_sync) = SyncCompleted"
  by code_simp+

lemma inProgress_runningRuns: "ss_syncInProgress (getSyncStatus now db tid) \<longleftrightarrow> runningRuns tid db \<noteq> []"
  using select1_None_iff [of "\<lambda>r. sr_tenantId r = tid \<and> sr_status r = RunRunning" "od_runs db"]
  by (auto simp: getSyncStatus_def Let_def runningRuns_def filter_empty_conv)

text \<open>The newest run is the last row, and settling it keeps it last.\<close>

lemma lastSyncOk_settled:
  assumes "\<forall>r \<in> set runs. sr_startedAt r < on_now env"
    and "\<And>r. sr_tenantId (f r) = sr_tenantId r" "\<And>r. sr_startedAt (f r) = sr_startedAt r"
    and "\<And>r. sr_status (f r) = st"
  shows "ss_lastSyncOk (getSyncStatus now (db\<lparr>od_runs := updateW (isRun tid (on_rowId env 0)) f (startRun env tid tb runs)\<rparr>) tid)
    \<longleftrightarrow> st \<noteq> RunFailed"
proof -
  obtain old x where start: "startRun env tid tb runs = old @ [x]" and x: "sr_startedAt x = on_now env" "isRun tid (on_rowId env 0) x"
    and old: "\<forall>r \<in> set old. sr_startedAt r < on_now env"
  proof (rule that)
    show "startRun env tid tb runs = butlast (startRun env tid tb runs) @ [last (startRun env tid tb runs)]"
      by (simp add: startRun_def insertRow_def)
    show "\<forall>r \<in> set (butlast (startRun env tid tb runs)). sr_startedAt r < on_now env"
      using assms(1) by (auto simp: startRun_def insertRow_def set_updateW)
  qed (simp_all add: startRun_def insertRow_def isRun_def)
  let ?sel = "\<lambda>rs. selectW (\<lambda>r. sr_tenantId r = tid) (updateW (isRun tid (on_rowId env 0)) f rs)"
  have "?sel (old @ [x]) = ?sel old @ [f x]"
    using x(2) assms(2) by (simp add: selectW_def updateW_def isRun_def)
  moreover have "\<forall>r \<in> set (?sel old). sr_startedAt r < sr_startedAt (f x)"
    using old assms(3) x(1) by (auto simp: set_updateW)
  ultimately have "latestBy (\<lambda>r. Some (sr_startedAt r)) (?sel (old @ [x])) = Some (f x)"
    by (simp add: latestBy_last)
  then show ?thesis using assms(4) by (simp add: getSyncStatus_def Let_def start)
qed

text \<open>
  A run has a clean outcome on every branch. It leaves the tenants and everything of other
  tenants alone. A run that finds another one in progress changes nothing. A run that fails to
  fetch or to rebuild leaves the employees exactly as they were. Only a run that reports completion, or whose final
  bookkeeping statement fails, stores a new tree. Afterwards at most one row is still marked
  running, and none unless a bookkeeping statement failed, also when earlier runs crashed. A run
  that starts after all earlier ones is what the status query then reports: it says whether this
  run succeeded, and it shows no run in progress.
\<close>
theorem sync_outcome:
  assumes "runOrgDirectorySync env db tid tb = Inr (res, db')"
  shows "othersView tid db' = othersView tid db \<and>
    (sy_status res = SyncAlreadyRunning \<longleftrightarrow> \<not> on_lockAcquired env) \<and>
    (sy_status res = SyncAlreadyRunning \<longrightarrow> db' = db) \<and>
    (sy_status res = SyncFailed \<and> on_completeFails env = None \<longrightarrow> od_employees db' = od_employees db) \<and>
    (on_lockAcquired env \<longrightarrow>
       length (runningRuns tid db') \<le> (if sy_status res = SyncFailed \<and> on_markFails env then 1 else 0)) \<and>
    (on_lockAcquired env \<and> \<not> on_markFails env \<and> (\<forall>r \<in> set (od_runs db). sr_startedAt r < on_now env) \<longrightarrow>
       \<not> ss_syncInProgress (getSyncStatus now db' tid) \<and>
       (ss_lastSyncOk (getSyncStatus now db' tid) \<longleftrightarrow> sy_status res = SyncCompleted))"
  using assms
proof (cases rule: run_cases)
  case busy
  then show ?thesis by (simp add: ALREADY_RUNNING_RESULT_def FAILED_RESULT_def)
next
  case (failed e)
  have "on_lockAcquired env"
    using assms failed(1) by (auto simp: runOrgDirectorySync_def ALREADY_RUNNING_RESULT_def FAILED_RESULT_def split: if_splits)
  then show ?thesis using failed failRun_runs
    by (simp add: othersView_def runningRuns_def FAILED_RESULT_def inProgress_runningRuns failRun_def
        run_settle lastSyncOk_settled)
next
  case (late fresh built rows e)
  have "on_lockAcquired env"
    using assms late(2) by (auto simp: runOrgDirectorySync_def ALREADY_RUNNING_RESULT_def FAILED_RESULT_def split: if_splits)
  then show ?thesis using late failRun_runs syncTree_others [OF late(4)]
    by (simp add: othersView_def runningRuns_def FAILED_RESULT_def inProgress_runningRuns failRun_def
        run_settle lastSyncOk_settled)
next
  case (stored fresh built rows)
  have "on_lockAcquired env"
    using assms stored(1) by (auto simp: runOrgDirectorySync_def ALREADY_RUNNING_RESULT_def split: if_splits)
  then show ?thesis using stored syncTree_others [OF stored(4)]
    by (simp add: othersView_def runningRuns_def completeRun_def run_settle startRun_runs
        inProgress_runningRuns lastSyncOk_settled)
qed

theorem sync_outcome_witness:
  "othersView ''t1'' (snd demo_sync) = othersView ''t1'' demo_org \<and> runningRuns ''t1'' (snd demo_sync) = [] \<and>
   ss_lastSyncOk (getSyncStatus 2000 (snd demo_sync) ''t1'')"
  using sync_outcome [OF demo_sync(1), of 2000] demo_sync(2) by (simp add: demo_org_env_def demo_org_def)

section \<open>Paths to the root\<close>

text \<open>The rows on the way from a row up to the root, without the root.\<close>

fun upPath :: "org_employees_row list \<Rightarrow> org_employees_row \<Rightarrow> org_employees_row list \<Rightarrow> bool" where
  "upPath rows r [] = oe_isRoot r"
| "upPath rows r (x # xs) =
     (x = r \<and> \<not> oe_isRoot r \<and> (\<exists>q \<in> set rows. parentRowId r = Some (oe_id q) \<and> upPath rows q xs))"

lemma rowById_unique: "orgInv rows \<Longrightarrow> q \<in> set rows \<Longrightarrow> rowById rows (oe_id q) = Some q"
proof -
  assume inv: "orgInv rows" and q: "q \<in> set rows"
  have "distinct (map fst (rev (map (\<lambda>r. (oe_id r, r)) rows)))"
    using inv by (simp add: orgInv_def rev_map [symmetric] comp_def)
  then show ?thesis unfolding rowById_def using q by (auto intro: map_of_is_SomeI)
qed

lemma reachesRoot_path:
  assumes "reachesRoot rows i" "orgInv rows" "r \<in> set rows" "oe_id r = i"
  shows "\<exists>rs. upPath rows r rs"
  using assms
proof (induction arbitrary: r rule: reachesRoot.induct)
  case (at_root x i)
  have "r = x" using orgInv_id [OF at_root(4,5) at_root(1)] at_root(2,6) by simp
  then have "upPath rows r []" using at_root by simp
  then show ?case ..
next
  case (go_up x i q)
  have x: "r = x" using orgInv_id [OF go_up.prems(1,2) go_up.hyps(1)] go_up.hyps(2) go_up.prems(3) by simp
  show ?case
  proof (cases "oe_isRoot x")
    case True
    then have "upPath rows r []" using x by simp
    then show ?thesis ..
  next
    case False
    obtain y where y: "y \<in> set rows" "oe_id y = q" using go_up(4) by (cases rule: reachesRoot.cases) auto
    then obtain ys where "upPath rows y ys" using go_up.IH [OF go_up.prems(1)] by blast
    then have "upPath rows r (r # ys)" using y x False go_up.hyps(3) by auto
    then show ?thesis ..
  qed
qed

lemma upPath_unique:
  assumes "orgInv rows"
  shows "upPath rows r rs \<Longrightarrow> upPath rows r rs' \<Longrightarrow> rs = rs'"
proof (induction rs arbitrary: r rs')
  case Nil
  then show ?case by (cases rs') auto
next
  case (Cons x xs)
  then obtain q where q: "q \<in> set rows" "parentRowId r = Some (oe_id q)" "upPath rows q xs" "x = r" by auto
  obtain ys where ys: "rs' = r # ys" using Cons.prems by (cases rs') auto
  then obtain q' where q': "q' \<in> set rows" "parentRowId r = Some (oe_id q')" "upPath rows q' ys"
    using Cons.prems(2) by auto
  have "q' = q" using orgInv_id [OF assms q'(1) q(1)] q(2) q'(2) by simp
  then show ?case using Cons.IH [OF q(3)] q'(3) q(4) ys by simp
qed

lemma upPath_suffix:
  "upPath rows r rs \<Longrightarrow> x \<in> set rs \<Longrightarrow> \<exists>xs. upPath rows x xs \<and> suffix xs rs"
proof (induction rs arbitrary: r)
  case (Cons y ys)
  show ?case
  proof (cases "x = y")
    case True
    then show ?thesis using Cons.prems(1) by (intro exI [of _ "y # ys"]) simp
  next
    case False
    then obtain q where "upPath rows q ys" "x \<in> set ys" using Cons.prems by auto
    then obtain xs where "upPath rows x xs" "suffix xs ys" using Cons.IH by blast
    then show ?thesis by (intro exI [of _ xs]) (simp add: suffix_ConsI)
  qed
qed simp

lemma upPath_distinct: "orgInv rows \<Longrightarrow> upPath rows r rs \<Longrightarrow> distinct rs"
proof (induction rs arbitrary: r)
  case (Cons x xs)
  have "x \<notin> set xs"
  proof
    assume "x \<in> set xs"
    moreover obtain q where "upPath rows q xs" using Cons.prems by auto
    ultimately obtain ys where ys: "upPath rows x ys" "suffix ys xs" using upPath_suffix by blast
    have "upPath rows x (x # xs)" using Cons.prems by simp
    then have "ys = x # xs" using upPath_unique [OF Cons.prems(1) ys(1)] by blast
    then show False using suffix_length_le [OF ys(2)] by simp
  qed
  then show ?case using Cons by auto
qed simp

lemma upPath_rows: "upPath rows r rs \<Longrightarrow> r \<in> set rows \<Longrightarrow> set rs \<subseteq> set rows"
  by (induction rs arbitrary: r) auto

lemma chainLoop_path:
  assumes "orgInv rows"
  shows "upPath rows r rs \<Longrightarrow> oe_id ` set rs \<inter> set seen = {} \<Longrightarrow> r \<in> set rows \<Longrightarrow>
    chainLoop rows (Some r) seen = Some rs"
proof (induction rs arbitrary: r seen)
  case Nil
  then show ?case by (simp add: chainLoop.simps)
next
  case (Cons x xs)
  then obtain q where q: "q \<in> set rows" "parentRowId r = Some (oe_id q)" "upPath rows q xs"
    and x: "x = r" "\<not> oe_isRoot r" by auto
  have "x \<notin> set xs" using upPath_distinct [OF assms Cons.prems(1)] by simp
  then have "oe_id x \<notin> oe_id ` set xs"
    using upPath_rows [OF q(3,1)] Cons.prems(3) x(1) by (auto dest!: orgInv_id [OF assms, rotated 2])
  then have "chainLoop rows (Some q) (oe_id r # seen) = Some xs"
    using Cons.IH [OF q(3) _ q(1), of "oe_id r # seen"] Cons.prems(2) x(1) by auto
  moreover have "oe_id r \<notin> set seen" using Cons.prems(2) x(1) by auto
  ultimately show ?case
    using x q(2) rowById_unique [OF assms q(1)] by (subst chainLoop.simps) simp
qed

section \<open>The reports of a user\<close>

text \<open>The specification of the walk down: everyone reachable through direct reports.\<close>

inductive below :: "org_employees_row list \<Rightarrow> string \<Rightarrow> org_employees_row \<Rightarrow> bool" for rows i where
  direct: "x \<in> set (childrenOf rows i) \<Longrightarrow> below rows i x"
| further: "below rows i y \<Longrightarrow> x \<in> set (childrenOf rows (oe_id y)) \<Longrightarrow> below rows i x"

lemma nextFrontier_set:
  "set (fst (nextFrontier rows fr seen)) =
     {x. \<exists>r \<in> set fr. oe_id r \<notin> set seen \<and> x \<in> set (childrenOf rows (oe_id r))}"
proof (induction rows fr seen rule: nextFrontier.induct)
  case (2 rows r rs seen)
  show ?case
  proof (cases "oe_id r \<in> set seen")
    case True
    then show ?thesis using 2(1) by auto
  next
    case False
    have "set (fst (nextFrontier rows (r # rs) seen)) =
        set (childrenOf rows (oe_id r)) \<union> set (fst (nextFrontier rows rs (oe_id r # seen)))"
      using False by (simp add: Let_def split: prod.splits)
    then have "x \<in> set (fst (nextFrontier rows (r # rs) seen)) \<longleftrightarrow> x \<in> set (childrenOf rows (oe_id r)) \<or>
        (\<exists>q \<in> set rs. oe_id q \<noteq> oe_id r \<and> oe_id q \<notin> set seen \<and> x \<in> set (childrenOf rows (oe_id q)))" for x
      using 2(2) [OF False] by simp
    moreover have "x \<in> set (childrenOf rows (oe_id r)) \<or>
        (\<exists>q \<in> set rs. oe_id q \<noteq> oe_id r \<and> oe_id q \<notin> set seen \<and> x \<in> set (childrenOf rows (oe_id q))) \<longleftrightarrow>
        (\<exists>q \<in> set (r # rs). oe_id q \<notin> set seen \<and> x \<in> set (childrenOf rows (oe_id q)))" for x
      using False by (metis list.set_intros(1,2) set_ConsD)
    ultimately show ?thesis by blast
  qed
qed simp

lemma levelsLoop_sound:
  "levelsLoop rows fr seen = Some levels \<Longrightarrow> \<forall>x \<in> set fr. below rows i x \<Longrightarrow>
   \<forall>x \<in> set (concat levels). below rows i x"
proof (induction levels arbitrary: fr seen)
  case (Cons l ls)
  have "fr \<noteq> []" using Cons.prems(1) by (auto simp: levelsLoop.simps)
  then have l: "l = fr" "levelsLoop rows (fst (nextFrontier rows fr seen)) (snd (nextFrontier rows fr seen)) = Some ls"
    using Cons.prems(1) by (auto simp: levelsLoop.simps [of rows fr] bind_eq_Some_conv)
  have "\<forall>x \<in> set (fst (nextFrontier rows fr seen)). below rows i x"
    using Cons.prems(2) by (auto simp: nextFrontier_set intro: further)
  then show ?case using Cons.IH [OF l(2)] Cons.prems(2) l(1) by auto
qed simp

text \<open>Each listed row has its direct reports listed, unless it had been visited before.\<close>

lemma levelsLoop_closed:
  "levelsLoop rows fr seen = Some levels \<Longrightarrow> set fr \<subseteq> set (concat levels) \<and>
   (\<forall>x \<in> set (concat levels). oe_id x \<in> set seen \<or> set (childrenOf rows (oe_id x)) \<subseteq> set (concat levels))"
proof (induction levels arbitrary: fr seen)
  case Nil
  then have "fr = []" by (cases "fr = []") (auto simp: levelsLoop.simps [of rows fr] bind_eq_Some_conv)
  then show ?case by simp
next
  case (Cons l ls)
  let ?nf = "nextFrontier rows fr seen"
  have "fr \<noteq> []" using Cons.prems(1) by (auto simp: levelsLoop.simps)
  then have l: "l = fr" "levelsLoop rows (fst ?nf) (snd ?nf) = Some ls"
    using Cons.prems(1) by (auto simp: levelsLoop.simps [of rows fr] bind_eq_Some_conv)
  note IH = Cons.IH [OF l(2)]
  have new: "set (childrenOf rows (oe_id x)) \<subseteq> set (concat ls)" if "x \<in> set fr" "oe_id x \<notin> set seen" for x
    using IH that by (auto simp: nextFrontier_set)
  have "oe_id x \<in> set seen \<or> set (childrenOf rows (oe_id x)) \<subseteq> set (concat ls)"
    if "x \<in> set fr \<or> x \<in> set (concat ls)" for x
  proof (cases "oe_id x \<in> set (snd ?nf)")
    case True
    then consider "oe_id x \<in> set seen" | y where "y \<in> set fr" "oe_id x = oe_id y" "oe_id x \<notin> set seen"
      unfolding nextFrontier_seen by blast
    then show ?thesis
    proof cases
      case 2
      then show ?thesis using new [of y] by simp
    qed simp
  next
    case False
    then have "x \<in> set (concat ls)" "oe_id x \<notin> set seen" using that unfolding nextFrontier_seen by auto
    then show ?thesis using IH False by blast
  qed
  then show ?case using l(1) by auto
qed

lemma levels_below:
  assumes "levelsLoop rows (childrenOf rows i) [i] = Some levels"
  shows "set (concat levels) = {x. below rows i x}"
proof (intro equalityI subsetI CollectI)
  show "below rows i x" if "x \<in> set (concat levels)" for x
    using levelsLoop_sound [OF assms] that by (blast intro: direct)
  fix x assume "x \<in> {x. below rows i x}"
  then have "below rows i x" by simp
  then show "x \<in> set (concat levels)"
  proof induction
    case (direct x)
    then show ?case using levelsLoop_closed [OF assms] by blast
  next
    case (further y x)
    note closed = levelsLoop_closed [OF assms]
    have "set (childrenOf rows (oe_id y)) \<subseteq> set (concat levels)"
    proof (cases "oe_id y = i")
      case True
      then show ?thesis using closed by blast
    next
      case False
      then have "oe_id y \<notin> set [i]" by simp
      then show ?thesis using closed further.IH by blast
    qed
    then show ?case using further.hyps(2) by blast
  qed
qed

section \<open>The walk up and the walk down agree\<close>

lemma upPath_hd: "upPath rows r rs \<Longrightarrow> \<not> oe_isRoot r \<Longrightarrow> \<exists>xs. rs = r # xs"
  by (cases rs) auto

lemma upPath_nonroot: "upPath rows r rs \<Longrightarrow> x \<in> set rs \<Longrightarrow> \<not> oe_isRoot x"
  by (induction rs arbitrary: r) auto

lemma path_below:
  "orgInv rows \<Longrightarrow> upPath rows x (x # rs) \<Longrightarrow> x \<in> set rows \<Longrightarrow> s \<in> set rs \<Longrightarrow> below rows (oe_id s) x"
proof (induction rs arbitrary: x)
  case (Cons q qs)
  have q: "q \<in> set rows" "parentRowId x = Some (oe_id q)" "upPath rows q (q # qs)" using Cons.prems(2) by auto
  have "oe_userId x \<noteq> None" using Cons.prems(1-3) by (auto simp: orgInv_def)
  then have child: "x \<in> set (childrenOf rows (oe_id q))" using q Cons.prems(3) by (simp add: childrenOf_def)
  show ?case
  proof (cases "s = q")
    case True
    then show ?thesis using child by (simp add: direct)
  next
    case False
    then have "below rows (oe_id s) q" using Cons.IH [OF Cons.prems(1) q(3,1)] Cons.prems(4) by simp
    then show ?thesis using child by (rule further)
  qed
qed simp

lemma below_path:
  assumes "below rows (oe_id s) x" "orgInv rows" "s \<in> set rows" "\<not> oe_isRoot s" "upPath rows x (x # rs)"
  shows "s \<in> set rs"
  using assms(1,5)
proof (induction arbitrary: rs)
  case (direct x)
  then obtain q where q: "q \<in> set rows" "parentRowId x = Some (oe_id q)" "upPath rows q rs" by auto
  have "q = s" using direct.hyps q(2) orgInv_id [OF assms(2) q(1) assms(3)] by (simp add: childrenOf_def)
  then show ?case using upPath_hd [OF q(3)] assms(4) by auto
next
  case (further y x)
  obtain q where q: "q \<in> set rows" "parentRowId x = Some (oe_id q)" "upPath rows q rs" using further.prems by auto
  have y: "y \<in> set rows" "oe_userId y \<noteq> None"
    using further.hyps(1) by (cases rule: below.cases; simp add: childrenOf_def)+
  have "q = y" using further.hyps(2) q(2) orgInv_id [OF assms(2) q(1) y(1)] by (simp add: childrenOf_def)
  moreover have "\<not> oe_isRoot y" using y assms(2) by (auto simp: orgInv_def)
  ultimately obtain ys where "rs = y # ys" using upPath_hd [OF q(3)] by blast
  then show ?case using further.IH q(3) \<open>q = y\<close> by simp
qed

lemma dedupe_users:
  "nd_userId ` set (dedupe u ns seen) = nd_userId ` set ns - insert u (set seen) \<and>
   distinct (map nd_userId (dedupe u ns seen))"
  by (induction u ns seen rule: dedupe.induct) auto

text \<open>The directory a run leaves: unique rows, and every row of the tenant leads to the root.\<close>

definition rootedFor :: "string \<Rightarrow> org_employees_row list \<Rightarrow> bool" where
  "rootedFor tid rows \<longleftrightarrow> orgInv rows \<and> (\<forall>r \<in> set rows. oe_tenantId r = tid \<and> reachesRoot rows (oe_id r))"

lemma rootedFor_sync:
  assumes "runOrgDirectorySync env db tid tb = Inr (res, db')" "sy_status res = SyncCompleted"
    and "on_fetch env = Inr fresh" "orgInv (od_employees db)"
    and "\<And>k. on_rowId env k \<noteq> ''''"
  shows "orgInv (od_employees db') \<and> rootedFor tid (fetchAllRows db' tid) \<and>
    usersOf tid (od_employees db') = os_userId ` set fresh \<and> sy_employeeCount res = length fresh"
  using assms(1)
proof (cases rule: run_cases)
  case (stored fresh' built rows)
  have "fresh' = fresh" using stored(3) assms(3) by simp
  note tree = syncTree_rooted [OF stored(4) [unfolded this] assms(4,5)]
  have "orgInv (tenantRows tid rows)" using tree by (simp add: tenantRows_def selectW_def orgInv_filter)
  moreover have "length (ob_employees built) = length fresh"
    using stored(4) \<open>fresh' = fresh\<close> by (auto elim!: syncTree_steps simp: buildOrgTree_def Let_def split: prod.splits)
  ultimately show ?thesis
    using tree stored by (auto simp: rootedFor_def fetchAllRows_def tenantRows_def)
qed (use assms(2) in \<open>auto simp: ALREADY_RUNNING_RESULT_def FAILED_RESULT_def\<close>)

lemma rootedFor_row:
  assumes "rootedFor tid rows" "r \<in> set rows" "oe_userId r = Some u"
  obtains rs where "find (\<lambda>r. oe_userId r = Some u) rows = Some r" "upPath rows r (r # rs)"
    "chainLoop rows (Some r) [] = Some (r # rs)"
proof -
  have inv: "orgInv rows" and tid: "\<And>r. r \<in> set rows \<Longrightarrow> oe_tenantId r = tid"
    using assms(1) by (auto simp: rootedFor_def)
  obtain x where x: "find (\<lambda>r. oe_userId r = Some u) rows = Some x"
    using assms(2,3) by (cases "find (\<lambda>r. oe_userId r = Some u) rows") (auto simp: find_None_iff)
  then have "x \<in> set rows" "oe_userId x = Some u" by (auto simp: find_Some_iff)
  then have "x = r" using orgInv_user [OF inv _ assms(2)] tid assms(2,3) by simp
  moreover have "\<not> oe_isRoot r" using inv assms(2,3) by (auto simp: orgInv_def)
  moreover obtain rs where "upPath rows r rs"
    using reachesRoot_path [OF _ inv assms(2) refl] assms(1,2) by (auto simp: rootedFor_def)
  ultimately show ?thesis
    using that x upPath_hd chainLoop_path [OF inv _ _ assms(2), of _ "[]"] by fastforce
qed

lemma walks_agree:
  assumes "rootedFor tid (fetchAllRows db tid)" (is "rootedFor tid ?rows")
    and "\<exists>r \<in> set (fetchAllRows db tid). oe_userId r = Some u"
    and "\<exists>r \<in> set (fetchAllRows db tid). oe_userId r = Some m"
  shows "\<exists>chain ids members. getChainToRoot db tid m = Some chain \<and>
    getSubtreeMembers db tid u = Some (ids, members) \<and> chain \<noteq> [] \<and> nd_userId (hd chain) = m \<and> distinct ids \<and>
    (m \<in> set ids \<longleftrightarrow> u \<in> nd_userId ` set (tl chain))"
proof -
  have inv: "orgInv ?rows" and tid: "\<And>r. r \<in> set ?rows \<Longrightarrow> oe_tenantId r = tid"
    using assms(1) by (auto simp: rootedFor_def)
  obtain s x where s: "s \<in> set ?rows" "oe_userId s = Some u" and x: "x \<in> set ?rows" "oe_userId x = Some m"
    using assms(2,3) by blast
  obtain ss where ss: "find (\<lambda>r. oe_userId r = Some u) ?rows = Some s" by (rule rootedFor_row [OF assms(1) s])
  obtain rs where rs: "find (\<lambda>r. oe_userId r = Some m) ?rows = Some x" "upPath ?rows x (x # rs)"
    "chainLoop ?rows (Some x) [] = Some (x # rs)" by (rule rootedFor_row [OF assms(1) x])
  have same: "a = b" if "a \<in> set ?rows" "b \<in> set ?rows" "oe_userId a = oe_userId b" for a b
    using orgInv_user [OF inv that(1,2)] that tid by simp
  obtain levels where levels: "levelsLoop ?rows (childrenOf ?rows (oe_id s)) [oe_id s] = Some levels"
    using levelsLoop_returns [of "childrenOf ?rows (oe_id s)" ?rows] by (auto simp: childrenOf_def)
  let ?members = "dedupe u (concat (map (map toNode) levels)) []"
  have sub: "getSubtreeMembers db tid u = Some (map nd_userId ?members, ?members)"
    by (simp add: getSubtreeMembers_def getReportsByLevel_def Let_def ss levels)
  have chain: "getChainToRoot db tid m = Some (map toNode (x # rs))"
    by (simp add: getChainToRoot_def Let_def rs)
  have member: "m \<in> set (map nd_userId ?members) \<longleftrightarrow> m \<noteq> u \<and> below ?rows (oe_id s) x"
  proof -
    have "concat (map (map toNode) levels) = map toNode (concat levels)" by (simp add: map_concat)
    then have "set (map nd_userId ?members) = (\<lambda>y. nd_userId (toNode y)) ` {y. below ?rows (oe_id s) y} - {u}"
      using dedupe_users [of u "map toNode (concat levels)" "[]"] levels_below [OF levels]
      by (simp add: image_image)
    moreover have "y = x" if "below ?rows (oe_id s) y" "nd_userId (toNode y) = m" for y
    proof -
      have "y \<in> set ?rows" "oe_userId y \<noteq> None"
        using that(1) by (cases rule: below.cases; simp add: childrenOf_def)+
      then show ?thesis using that(2) same x by (auto simp: toNode_def)
    qed
    moreover have "nd_userId (toNode x) = m" using x by (simp add: toNode_def)
    ultimately show ?thesis by auto
  qed
  have "s \<in> set rs \<longleftrightarrow> m \<noteq> u \<and> below ?rows (oe_id s) x"
  proof -
    have "\<not> oe_isRoot s" using inv s by (auto simp: orgInv_def)
    then have "below ?rows (oe_id s) x \<longleftrightarrow> s \<in> set rs"
      using below_path [OF _ inv s(1) _ rs(2)] path_below [OF inv rs(2) x(1)] by blast
    moreover have "s \<in> set rs \<Longrightarrow> m \<noteq> u"
      using upPath_distinct [OF inv rs(2)] same [OF s(1) x(1)] s(2) x(2) by auto
    ultimately show ?thesis by blast
  qed
  moreover have "u \<in> nd_userId ` set (map toNode rs) \<longleftrightarrow> s \<in> set rs"
  proof -
    have on: "q \<in> set ?rows \<and> oe_userId q \<noteq> None" if "q \<in> set rs" for q
      using upPath_rows [OF rs(2) x(1)] upPath_nonroot [OF rs(2)] inv that by (auto simp: orgInv_def)
    have "q = s" if "q \<in> set rs" "nd_userId (toNode q) = u" for q
      using on [OF that(1)] that(2) same [OF _ s(1)] s(2) by (auto simp: toNode_def)
    moreover have "nd_userId (toNode s) = u" using s by (simp add: toNode_def)
    ultimately show ?thesis by force
  qed
  ultimately show ?thesis
    using sub chain member dedupe_users x(2) by (simp add: toNode_def)
qed

text \<open>
  C18. A completed synchronisation leaves one tree per tenant: the tenant's employees are exactly
  those of the pull, each in one row, and following the stored parent of any of them leads to
  the tenant's root card. This holds whatever was stored before, also when managers leave together.
\<close>
theorem sync_rooted:
  assumes "runOrgDirectorySync env db tid tb = Inr (res, db')" "sy_status res = SyncCompleted"
    and "on_fetch env = Inr fresh" "orgInv (od_employees db)"
    and "\<And>k. on_rowId env k \<noteq> ''''"
  shows "usersOf tid (od_employees db') = os_userId ` set fresh \<and> sy_employeeCount res = length fresh \<and>
    orgInv (od_employees db') \<and>
    (\<forall>r \<in> set (fetchAllRows db' tid). reachesRoot (fetchAllRows db' tid) (oe_id r))"
  using rootedFor_sync [OF assms] by (auto simp: rootedFor_def)

theorem sync_rooted_witness:
  "usersOf ''t1'' (od_employees (snd demo_sync)) = {''a'', ''b''} \<and>
   list_all (\<lambda>r. reachesRoot (fetchAllRows (snd demo_sync) ''t1'') (oe_id r)) (fetchAllRows (snd demo_sync) ''t1'')"
  using sync_rooted [OF demo_sync demo_hyps(9,1,5)] by (simp add: demo_fresh_def list_all_iff)

text \<open>
  After a completed synchronisation the walk up and the walk down tell the same story:
  for any two employees, the second is among the subtree members of the first exactly when the
  first is in the chain of managers above the second. The chain of an employee starts with the
  employee, and no member is listed twice.
\<close>
theorem chain_subtree_dual:
  assumes "runOrgDirectorySync env db tid tb = Inr (res, db')" "sy_status res = SyncCompleted"
    and "on_fetch env = Inr fresh" "orgInv (od_employees db)"
    and "\<And>k. on_rowId env k \<noteq> ''''"
    and "u \<in> os_userId ` set fresh" "m \<in> os_userId ` set fresh"
  shows "\<exists>chain ids members. getChainToRoot db' tid m = Some chain \<and>
    getSubtreeMembers db' tid u = Some (ids, members) \<and> chain \<noteq> [] \<and> nd_userId (hd chain) = m \<and> distinct ids \<and>
    (m \<in> set ids \<longleftrightarrow> u \<in> nd_userId ` set (tl chain))"
proof -
  note sync = rootedFor_sync [OF assms(1-5)]
  have "\<exists>r \<in> set (fetchAllRows db' tid). oe_userId r = Some w" if "w \<in> os_userId ` set fresh" for w
  proof -
    have "w \<in> usersOf tid (od_employees db')" using sync that by simp
    then show ?thesis by (auto simp: usersOf_def isEmployee_def fetchAllRows_def tenantRows_def)
  qed
  then show ?thesis using walks_agree [of tid db' u m] sync assms(6,7) by blast
qed

theorem chain_subtree_dual_witness:
  "\<exists>chain ids members. getChainToRoot (snd demo_sync) ''t1'' ''b'' = Some chain \<and>
     getSubtreeMembers (snd demo_sync) ''t1'' ''a'' = Some (ids, members) \<and> nd_userId (hd chain) = ''b'' \<and>
     (''b'' \<in> set ids \<longleftrightarrow> ''a'' \<in> nd_userId ` set (tl chain))"
  using chain_subtree_dual [OF demo_sync demo_hyps(9,1,5), of "''a''" "''b''"] by (auto simp: demo_fresh_def)

end
