(* ===== verification/TriggerEvents.thy ===== *)
theory TriggerEvents
  imports Conditions
begin

text \<open>
  The events that trigger automation rules
  (\<open>packages/automation-engine/src/event-schemas.ts\<close>) and the scope test of a rule's
  \<open>trigger_config\<close> (\<open>trigger-scope.ts\<close>).

  The schemas are data: a list of fields per event type, and one interpreter for them. An
  object schema drops the keys it does not name and keeps the named ones in its own order.
  The two string formats that the validation library defines itself, ids and timestamps, are
  parameters.
\<close>

section \<open>Schemas\<close>

datatype field_type =
    ZVersion1
  | ZEventType string
  | ZGuid
  | ZString
  | ZUserId
  | ZDepth
  | ZPositive
  | ZDatetime
  | ZBoolean
  | ZEnum "string list"
  | ZRecord
  | ZUserIds
  | ZChanged

record field_spec =
  fs_name :: string
  fs_type :: field_type
  fs_nullable :: bool
  fs_optional :: bool

record formats =
  fm_isGuid :: "string \<Rightarrow> bool"
  fm_isDatetime :: "string \<Rightarrow> bool"

definition req :: "string \<Rightarrow> field_type \<Rightarrow> field_spec" where
  "req n t = \<lparr>fs_name = n, fs_type = t, fs_nullable = False, fs_optional = False\<rparr>"

definition nullable :: "string \<Rightarrow> field_type \<Rightarrow> field_spec" where
  "nullable n t = \<lparr>fs_name = n, fs_type = t, fs_nullable = True, fs_optional = False\<rparr>"

definition optional :: "string \<Rightarrow> field_type \<Rightarrow> field_spec" where
  "optional n t = \<lparr>fs_name = n, fs_type = t, fs_nullable = False, fs_optional = True\<rparr>"

definition baseEvent :: "string \<Rightarrow> field_spec list" where
  "baseEvent eventType =
     [req ''version'' ZVersion1, req ''tenantId'' ZGuid, optional ''depth'' ZDepth,
      req ''eventType'' (ZEventType eventType)]"

definition commentEvent :: "string \<Rightarrow> field_spec list" where
  "commentEvent eventType =
     baseEvent eventType @ [req ''instanceId'' ZGuid, req ''actorId'' ZString]"

definition TriggerEventSchema :: "(string \<times> field_spec list) list" where
  "TriggerEventSchema =
     [(''workflow.transitioned'', baseEvent ''workflow.transitioned'' @
        [req ''instanceId'' ZGuid, req ''entityTypeId'' ZGuid, req ''workflowId'' ZGuid,
         nullable ''fromState'' ZString, req ''toState'' ZString,
         req ''triggeredBy'' (ZEnum [''user'', ''automation'', ''api'', ''system'']),
         nullable ''actorId'' ZUserId, req ''occurredAt'' ZDatetime, optional ''override'' ZBoolean,
         optional ''transitionEventId'' ZGuid]),
      (''workflow.sla_breached'', baseEvent ''workflow.sla_breached'' @
        [req ''instanceId'' ZGuid, req ''entityTypeId'' ZGuid, req ''workflowId'' ZGuid,
         req ''state'' ZString, req ''slaHours'' ZPositive, req ''breachedAt'' ZDatetime]),
      (''entity.created'', baseEvent ''entity.created'' @
        [req ''instanceId'' ZGuid, req ''entityTypeId'' ZGuid, req ''fields'' ZRecord,
         nullable ''createdBy'' ZUserId]),
      (''entity.assigned'', baseEvent ''entity.assigned'' @
        [req ''instanceId'' ZGuid, req ''entityTypeId'' ZGuid, req ''assigneeId'' ZUserId,
         nullable ''assignedBy'' ZUserId]),
      (''entity.unassigned'', baseEvent ''entity.unassigned'' @
        [req ''instanceId'' ZGuid, req ''entityTypeId'' ZGuid, req ''previousAssigneeId'' ZUserId,
         nullable ''actorId'' ZUserId]),
      (''entity.updated'', baseEvent ''entity.updated'' @
        [req ''instanceId'' ZGuid, optional ''entityTypeId'' ZGuid, nullable ''actorId'' ZUserId,
         optional ''changed'' ZChanged]),
      (''entity.due_date_overdue'', baseEvent ''entity.due_date_overdue'' @
        [req ''instanceId'' ZGuid, req ''entityTypeId'' ZGuid, req ''dueDate'' ZDatetime,
         req ''overdueAt'' ZDatetime]),
      (''comment.mentioned'', commentEvent ''comment.mentioned'' @ [req ''mentionedUserIds'' ZUserIds]),
      (''comment.mention_access_granted'',
        commentEvent ''comment.mention_access_granted'' @ [req ''mentionedUserIds'' ZUserIds]),
      (''comment.replied'', commentEvent ''comment.replied'' @ [req ''targetUserId'' ZString]),
      (''access.granted'', commentEvent ''access.granted'' @ [req ''targetUserId'' ZString]),
      (''access.revoked'', commentEvent ''access.revoked'' @ [req ''targetUserId'' ZString]),
      (''system.error'', baseEvent ''system.error'' @ [req ''context'' ZRecord, req ''reason'' ZString]),
      (''comment.created'', commentEvent ''comment.created'' @ [req ''commentId'' ZGuid]),
      (''access_request.created'', commentEvent ''access_request.created'' @ [req ''requestId'' ZGuid]),
      (''access_request.updated'', commentEvent ''access_request.updated'' @
        [req ''requestId'' ZGuid, req ''status'' (ZEnum [''approved'', ''rejected''])])]"

text \<open>
  The value a field accepts, as it comes out: an entry of \<open>changed\<close> keeps its keys
  \<open>old\<close> and \<open>new\<close> only, every other accepted value is unchanged.
\<close>

definition MAX_SAFE_INTEGER :: rat where
  "MAX_SAFE_INTEGER = 9007199254740991"

fun isObj :: "jsval \<Rightarrow> bool" where
  "isObj (JObj _) = True"
| "isObj _ = False"

fun isStr :: "jsval \<Rightarrow> bool" where
  "isStr (JStr _) = True"
| "isStr _ = False"

definition keepOldNew :: "jsval \<Rightarrow> jsval" where
  "keepOldNew v = (case v of JObj o1 \<Rightarrow> JObj (filter (\<lambda>(k, _). k = ''old'' \<or> k = ''new'') o1) | _ \<Rightarrow> v)"

definition acceptField :: "formats \<Rightarrow> field_type \<Rightarrow> jsval \<Rightarrow> jsval option" where
  "acceptField fm t v =
     (case t of
        ZVersion1 \<Rightarrow> if v = JNum 1 then Some v else None
      | ZEventType e \<Rightarrow> if v = JStr e then Some v else None
      | ZGuid \<Rightarrow> (case v of JStr s \<Rightarrow> if fm_isGuid fm s then Some v else None | _ \<Rightarrow> None)
      | ZString \<Rightarrow> if isStr v then Some v else None
      | ZUserId \<Rightarrow> (case v of JStr s \<Rightarrow> if 1 \<le> length s \<and> length s \<le> 255 then Some v else None | _ \<Rightarrow> None)
      | ZDepth \<Rightarrow> (case v of JNum r \<Rightarrow> if r = of_int \<lfloor>r\<rfloor> \<and> 0 \<le> r \<and> r \<le> MAX_SAFE_INTEGER then Some v else None
                 | _ \<Rightarrow> None)
      | ZPositive \<Rightarrow> (case v of JNum r \<Rightarrow> if 0 < r then Some v else None | _ \<Rightarrow> None)
      | ZDatetime \<Rightarrow> (case v of JStr s \<Rightarrow> if fm_isDatetime fm s then Some v else None | _ \<Rightarrow> None)
      | ZBoolean \<Rightarrow> (case v of JBool _ \<Rightarrow> Some v | _ \<Rightarrow> None)
      | ZEnum xs \<Rightarrow> (case v of JStr s \<Rightarrow> if s \<in> set xs then Some v else None | _ \<Rightarrow> None)
      | ZRecord \<Rightarrow> if isObj v then Some v else None
      | ZUserIds \<Rightarrow> (case v of JArr xs \<Rightarrow> if xs \<noteq> [] \<and> list_all isStr xs then Some v else None | _ \<Rightarrow> None)
      | ZChanged \<Rightarrow> (case v of JObj o1 \<Rightarrow>
            if list_all (\<lambda>(_, w). isObj w) o1 then Some (JObj (map (\<lambda>(k, w). (k, keepOldNew w)) o1)) else None
          | _ \<Rightarrow> None))"

definition parseField :: "formats \<Rightarrow> jsobj \<Rightarrow> field_spec \<Rightarrow> jsobj option" where
  "parseField fm o1 f =
     (case map_of o1 (fs_name f) of
        None \<Rightarrow> if fs_optional f then Some [] else None
      | Some v \<Rightarrow>
          if fs_optional f \<and> v = JUndefined \<or> fs_nullable f \<and> v = JNull then Some [(fs_name f, v)]
          else map_option (\<lambda>w. [(fs_name f, w)]) (acceptField fm (fs_type f) v))"

fun parseFields :: "formats \<Rightarrow> jsobj \<Rightarrow> field_spec list \<Rightarrow> jsobj option" where
  "parseFields fm o1 [] = Some []"
| "parseFields fm o1 (f # fs) =
     Option.bind (parseField fm o1 f) (\<lambda>a. Option.bind (parseFields fm o1 fs) (\<lambda>rest. Some (a @ rest)))"

definition safeParse :: "formats \<Rightarrow> jsval \<Rightarrow> jsobj option" where
  "safeParse fm raw =
     (case raw of
        JObj o1 \<Rightarrow>
          (case map_of o1 ''eventType'' of
             Some (JStr e) \<Rightarrow> Option.bind (map_of TriggerEventSchema e) (parseFields fm o1)
           | _ \<Rightarrow> None)
      | _ \<Rightarrow> None)"

definition eventTypeOf :: "jsobj \<Rightarrow> string" where
  "eventTypeOf event = (case objGet event ''eventType'' of JStr e \<Rightarrow> e | _ \<Rightarrow> '''')"

section \<open>Scope of a rule\<close>

definition SCOPE_KEYS :: "(string \<times> (string \<times> string) list) list" where
  "SCOPE_KEYS =
     [(''workflow.transitioned'', [(''workflowId'', ''workflowId''), (''fromState'', ''fromState''),
        (''toState'', ''toState''), (''entityTypeId'', ''entityTypeId'')]),
      (''workflow.sla_breached'', [(''workflowId'', ''workflowId''), (''state'', ''state''),
        (''entityTypeId'', ''entityTypeId'')]),
      (''entity.created'', [(''entityTypeId'', ''entityTypeId'')]),
      (''entity.assigned'', [(''entityTypeId'', ''entityTypeId'')]),
      (''entity.unassigned'', [(''entityTypeId'', ''entityTypeId'')]),
      (''entity.updated'', [(''entityTypeId'', ''entityTypeId'')]),
      (''entity.due_date_overdue'', [(''entityTypeId'', ''entityTypeId'')])]"

definition ID_KEYS :: "string list" where
  "ID_KEYS = [''workflowId'', ''entityTypeId'']"

definition scopeValueMatches :: "string \<Rightarrow> jsval \<Rightarrow> jsval \<Rightarrow> bool" where
  "scopeValueMatches key expected actual =
     (case (expected, actual) of
        (JStr a, JStr b) \<Rightarrow> if key \<in> set ID_KEYS then toLowerCase a = toLowerCase b else a = b
      | _ \<Rightarrow> strictEq actual expected)"

text \<open>An own property of a value of type \<open>object\<close>; an array has its indices and its length.\<close>

definition objectHasOwn :: "jsval \<Rightarrow> string \<Rightarrow> bool" where
  "objectHasOwn v k =
     (case v of
        JObj o1 \<Rightarrow> hasOwn o1 k
      | JArr xs \<Rightarrow> k = ''length'' \<or> k \<in> set (map decDigits [0..<length xs])
      | _ \<Rightarrow> False)"

definition changedInScope :: "jsobj \<Rightarrow> jsobj \<Rightarrow> bool" where
  "changedInScope config event =
     (if eventTypeOf event = ''entity.updated'' \<and> \<not> isBlank (objGet config ''field'')
      then (case objGet config ''field'' of
              JStr f \<Rightarrow> objectHasOwn (objGet event ''changed'') f
            | _ \<Rightarrow> False)
      else True)"

definition nameInScope :: "jsobj \<Rightarrow> jsobj \<Rightarrow> (string \<Rightarrow> string option) \<Rightarrow> bool" where
  "nameInScope config event resolveEntityTypeName =
     (if isBlank (objGet config ''entityType'') then True
      else (case objGet event ''entityTypeId'' of
              JStr i \<Rightarrow> (case (objGet config ''entityType'', resolveEntityTypeName i) of
                  (JStr expected, Some actual) \<Rightarrow> toLowerCase actual = toLowerCase expected
                | _ \<Rightarrow> False)
            | _ \<Rightarrow> False))"

definition ruleInScope :: "jsobj option \<Rightarrow> jsobj \<Rightarrow> (string \<Rightarrow> string option) \<Rightarrow> bool" where
  "ruleInScope config event resolveEntityTypeName =
     (case config of
        None \<Rightarrow> True
      | Some c \<Rightarrow>
          (case map_of SCOPE_KEYS (eventTypeOf event) of
             None \<Rightarrow> True
           | Some keys \<Rightarrow>
               list_all (\<lambda>(key, eventField). isBlank (objGet c key) \<or>
                 scopeValueMatches key (objGet c key) (objGet event eventField)) keys \<and>
               changedInScope c event \<and> nameInScope c event resolveEntityTypeName))"

section \<open>Parsing is a projection\<close>

lemma keepOldNew_idem [simp]: "keepOldNew (keepOldNew v) = keepOldNew v"
  by (cases v) (simp_all add: keepOldNew_def)

lemma isObj_keepOldNew [simp]: "isObj (keepOldNew v) = isObj v"
  by (cases v) (simp_all add: keepOldNew_def)

lemma acceptField_idem: "acceptField fm t v = Some w \<Longrightarrow> acceptField fm t w = Some w"
  by (cases t; cases v) (fastforce simp: acceptField_def list_all_iff split: if_splits)+

lemma parseField_keys: "parseField fm o1 f = Some a \<Longrightarrow> a = [] \<or> (\<exists>v. a = [(fs_name f, v)])"
  by (auto simp: parseField_def split: option.splits if_splits)

lemma parseFields_keys: "parseFields fm o1 fs = Some e \<Longrightarrow> fst ` set e \<subseteq> fs_name ` set fs"
proof (induction fs arbitrary: e)
  case (Cons g gs)
  then obtain a rest where a: "parseField fm o1 g = Some a" "parseFields fm o1 gs = Some rest" "e = a @ rest"
    by (auto simp: bind_eq_Some_conv)
  then show ?case using Cons.IH [OF a(2)] parseField_keys [OF a(1)] by auto
qed simp

lemma parseFields_lookup:
  assumes "parseFields fm o1 fs = Some e" "distinct (map fs_name fs)" "f \<in> set fs"
  shows "\<exists>a. parseField fm o1 f = Some a \<and> map_of e (fs_name f) = map_of a (fs_name f)"
  using assms
proof (induction fs arbitrary: e)
  case (Cons g gs)
  then obtain a rest where a: "parseField fm o1 g = Some a" "parseFields fm o1 gs = Some rest" "e = a @ rest"
    by (auto simp: bind_eq_Some_conv)
  show ?case
  proof (cases "f = g")
    case True
    have "fs_name g \<notin> fst ` set rest" using parseFields_keys [OF a(2)] Cons.prems(2) by auto
    then have "map_of rest (fs_name g) = None" by (simp add: map_of_eq_None_iff)
    then show ?thesis using a True by (auto simp: map_add_def split: option.splits)
  next
    case False
    then have "f \<in> set gs" using Cons.prems(3) by simp
    then have "fs_name f \<noteq> fs_name g" using Cons.prems(2) by (metis distinct.simps(2) image_eqI list.set_map list.simps(9))
    then have "map_of a (fs_name f) = None" using parseField_keys [OF a(1)] by auto
    then show ?thesis using Cons.IH [OF a(2)] Cons.prems(2) \<open>f \<in> set gs\<close> a(3) by (auto simp: map_add_def split: option.splits)
  qed
qed simp

lemma parseField_again:
  assumes "parseField fm o1 f = Some a" "map_of e (fs_name f) = map_of a (fs_name f)"
  shows "parseField fm e f = Some a"
proof (cases "map_of o1 (fs_name f)")
  case None
  then show ?thesis using assms by (auto simp: parseField_def split: if_splits)
next
  case (Some v)
  then show ?thesis using assms
    by (auto simp: parseField_def dest: acceptField_idem split: if_splits)
qed

lemma schemas_distinct: "\<forall>(e, fs) \<in> set TriggerEventSchema. distinct (map fs_name fs) \<and> req ''eventType'' (ZEventType e) \<in> set fs"
  by (simp add: TriggerEventSchema_def baseEvent_def commentEvent_def req_def nullable_def optional_def)

lemma safeParse_cases:
  assumes "safeParse fm raw = Some event"
  obtains o1 e fs where "raw = JObj o1" "map_of o1 ''eventType'' = Some (JStr e)" "(e, fs) \<in> set TriggerEventSchema"
    "map_of TriggerEventSchema e = Some fs" "parseFields fm o1 fs = Some event" "distinct (map fs_name fs)"
    "map_of event ''eventType'' = Some (JStr e)"
proof -
  obtain o1 e fs where p: "raw = JObj o1" "map_of o1 ''eventType'' = Some (JStr e)"
    "map_of TriggerEventSchema e = Some fs" "parseFields fm o1 fs = Some event"
    using assms by (auto simp: safeParse_def bind_eq_Some_conv split: jsval.splits option.splits)
  note mem = map_of_SomeD [OF p(3)]
  let ?f = "req ''eventType'' (ZEventType e)"
  have fs: "distinct (map fs_name fs)" "?f \<in> set fs" using mem schemas_distinct by auto
  obtain a where "parseField fm o1 ?f = Some a" "map_of event ''eventType'' = map_of a ''eventType''"
    using parseFields_lookup [OF p(4) fs] by (auto simp: req_def)
  then have "map_of event ''eventType'' = Some (JStr e)"
    using p(2) by (auto simp: parseField_def req_def acceptField_def split: if_splits)
  then show ?thesis using that p mem fs by blast
qed

lemma safeParse_again:
  assumes "safeParse fm raw = Some event"
  shows "safeParse fm (JObj event) = Some event"
proof -
  obtain o1 e fs where p: "(e, fs) \<in> set TriggerEventSchema" "map_of TriggerEventSchema e = Some fs"
    "parseFields fm o1 fs = Some event" "distinct (map fs_name fs)" "map_of event ''eventType'' = Some (JStr e)"
    by (rule safeParse_cases [OF assms])
  have "parseField fm event f = parseField fm o1 f" if "f \<in> set fs" for f
    using parseFields_lookup [OF p(3,4) that] parseField_again by metis
  then have "parseFields fm event gs = parseFields fm o1 gs" if "set gs \<subseteq> set fs" for gs
    using that by (induction gs) auto
  then show ?thesis using p by (simp add: safeParse_def)
qed

end
