(* ===== verification/Redis.thy ===== *)
theory Redis
  imports JsValue
begin

text \<open>
  The commands of the key-value server that the modelled code uses. A key holds a value and, once it has been given
  a time to live, the last millisecond at which it still exists. Times are milliseconds.
\<close>

type_synonym 'v kvs = "string \<rightharpoonup> 'v \<times> date option"

definition live :: "date \<Rightarrow> 'v kvs \<Rightarrow> string \<Rightarrow> ('v \<times> date option) option" where
  "live now redis k =
     (case redis k of
        Some (v, Some deadline) \<Rightarrow> if deadline < now then None else Some (v, Some deadline)
      | x \<Rightarrow> x)"

definition redisGet :: "date \<Rightarrow> 'v kvs \<Rightarrow> string \<Rightarrow> 'v option" where
  "redisGet now redis k = map_option fst (live now redis k)"

definition redisIncr :: "date \<Rightarrow> int kvs \<Rightarrow> string \<Rightarrow> int \<times> int kvs" where
  "redisIncr now redis k =
     (case live now redis k of
        None \<Rightarrow> (1, redis(k \<mapsto> (1, None)))
      | Some (n, d) \<Rightarrow> (n + 1, redis(k \<mapsto> (n + 1, d))))"

definition redisExpire :: "date \<Rightarrow> 'v kvs \<Rightarrow> string \<Rightarrow> int \<Rightarrow> 'v kvs" where
  "redisExpire now redis k seconds =
     (case live now redis k of
        None \<Rightarrow> redis
      | Some (v, _) \<Rightarrow> redis(k \<mapsto> (v, Some (now + seconds * 1000))))"

text \<open>\<open>EXPIRE NX\<close>: only a key without a deadline gets one.\<close>

definition redisExpireNx :: "date \<Rightarrow> 'v kvs \<Rightarrow> string \<Rightarrow> int \<Rightarrow> 'v kvs" where
  "redisExpireNx now redis k seconds =
     (case live now redis k of
        Some (v, None) \<Rightarrow> redis(k \<mapsto> (v, Some (now + seconds * 1000)))
      | _ \<Rightarrow> redis)"

definition redisSetEx :: "date \<Rightarrow> 'v kvs \<Rightarrow> string \<Rightarrow> 'v \<Rightarrow> int \<Rightarrow> 'v kvs" where
  "redisSetEx now redis k v seconds = redis(k \<mapsto> (v, Some (now + seconds * 1000)))"

text \<open>\<open>TTL\<close> in seconds, rounded; \<open>-2\<close> for a key that does not exist and \<open>-1\<close> for one without a deadline.\<close>

definition redisTtl :: "date \<Rightarrow> 'v kvs \<Rightarrow> string \<Rightarrow> int" where
  "redisTtl now redis k =
     (case live now redis k of
        None \<Rightarrow> -2
      | Some (_, None) \<Rightarrow> -1
      | Some (_, Some deadline) \<Rightarrow> (deadline - now + 500) div 1000)"

definition redisDel :: "'v kvs \<Rightarrow> string \<Rightarrow> 'v kvs" where
  "redisDel redis k = redis(k := None)"

lemma redisDel_apply [simp]: "redisDel redis k k' = (if k' = k then None else redis k')"
  by (simp add: redisDel_def)

lemma redisSetEx_apply [simp]:
  "redisSetEx now redis k v s k' = (if k' = k then Some (v, Some (now + s * 1000)) else redis k')"
  by (simp add: redisSetEx_def)

lemma redisIncr_other [simp]: "k' \<noteq> k \<Longrightarrow> snd (redisIncr now redis k) k' = redis k'"
  by (simp add: redisIncr_def split: option.split)

lemma redisExpire_other [simp]: "k' \<noteq> k \<Longrightarrow> redisExpire now redis k s k' = redis k'"
  by (simp add: redisExpire_def split: option.split)

lemma redisExpireNx_other [simp]: "k' \<noteq> k \<Longrightarrow> redisExpireNx now redis k s k' = redis k'"
  by (simp add: redisExpireNx_def split: option.split)

lemma live_other: "k' \<noteq> k \<Longrightarrow> live now (redis(k := v)) k' = live now redis k'"
  by (simp add: live_def)

lemma redisGet_Some: "redisGet now redis k = Some v \<longleftrightarrow>
    (\<exists>d. redis k = Some (v, d) \<and> (case d of None \<Rightarrow> True | Some t \<Rightarrow> now \<le> t))"
  by (auto simp: redisGet_def live_def split: option.splits if_splits)

text \<open>A counter that gets a deadline with its first increment counts within a fixed window.\<close>

lemma count_up:
  "redisExpireNx now (snd (redisIncr now redis k)) k s k =
    (case live now redis k of
       None \<Rightarrow> Some (1, Some (now + s * 1000))
     | Some (n, None) \<Rightarrow> Some (n + 1, Some (now + s * 1000))
     | Some (n, Some d) \<Rightarrow> Some (n + 1, Some d))"
  by (auto simp: redisIncr_def redisExpireNx_def live_def split: option.splits if_splits)

lemma redisIncr_fst: "fst (redisIncr now redis k) = 1 + dflt 0 (redisGet now redis k)"
  by (auto simp: redisIncr_def redisGet_def split: option.splits)

text \<open>Reading the parts of a key back off it.\<close>

lemma split_front: "k \<notin> set a \<Longrightarrow> k \<notin> set b \<Longrightarrow> a @ k # x = b @ k # y \<Longrightarrow> a = b \<and> x = y"
  by (induction a arbitrary: b) (case_tac b; auto)+

lemma split_back: "k \<notin> set x \<Longrightarrow> k \<notin> set y \<Longrightarrow> a @ k # x = b @ k # y \<Longrightarrow> a = b \<and> x = y"
proof -
  assume k: "k \<notin> set x" "k \<notin> set y" and eq: "a @ k # x = b @ k # y"
  have "rev x @ k # rev a = rev y @ k # rev b" using arg_cong [OF eq, of rev] by simp
  with split_front [of k "rev x" "rev y" "rev a" "rev b"] k show ?thesis by simp
qed

end
