(* ===== verification/CircuitBreaker.thy ===== *)
theory CircuitBreaker
  imports Redis
begin

text \<open>
  The circuit breaker of automation actions
  (\<open>packages/automation-engine/src/circuit-breaker.ts\<close>) over the commands of theory Redis. A key holds a
  counter; \<open>INCR\<close> keeps the deadline that \<open>EXPIRE\<close> has given it.
\<close>

type_synonym redis = "int kvs"

section \<open>The breaker\<close>

definition DEFAULT_THRESHOLD :: int where
  "DEFAULT_THRESHOLD = 5"

definition DEFAULT_TTL_SECONDS :: int where
  "DEFAULT_TTL_SECONDS = 300"

definition circuitKey :: "string \<Rightarrow> string \<Rightarrow> string" where
  "circuitKey tenantId actionType = ''circuit:'' @ tenantId @ '':'' @ actionType"

definition isOpen :: "date \<Rightarrow> redis \<Rightarrow> string \<Rightarrow> string \<Rightarrow> bool" where
  "isOpen now redis tenantId actionType =
     (case redisGet now redis (circuitKey tenantId actionType) of
        None \<Rightarrow> False
      | Some val \<Rightarrow> DEFAULT_THRESHOLD \<le> val)"

definition recordFailure :: "date \<Rightarrow> redis \<Rightarrow> string \<Rightarrow> string \<Rightarrow> redis" where
  "recordFailure now redis tenantId actionType =
     (let k = circuitKey tenantId actionType; (current, redis1) = redisIncr now redis k
      in if current = 1 then redisExpire now redis1 k DEFAULT_TTL_SECONDS else redis1)"

definition reset :: "redis \<Rightarrow> string \<Rightarrow> string \<Rightarrow> redis" where
  "reset redis tenantId actionType = redisDel redis (circuitKey tenantId actionType)"

section \<open>What the breaker does\<close>

lemma circuitKey_eq:
  assumes "CHR '':'' \<notin> set t" "CHR '':'' \<notin> set t'"
  shows "circuitKey t a = circuitKey t' a' \<longleftrightarrow> t = t' \<and> a = a'"
proof
  assume "circuitKey t a = circuitKey t' a'"
  then have eq: "t @ '':'' @ a = t' @ '':'' @ a'" by (simp add: circuitKey_def)
  have "takeWhile (\<lambda>c. c \<noteq> CHR '':'') (s @ '':'' @ b) = s" if "CHR '':'' \<notin> set s" for s b
    using that by (subst takeWhile_append2) auto
  then have "t = t'" using arg_cong [OF eq, of "takeWhile (\<lambda>c. c \<noteq> CHR '':'')"] assms by simp
  then show "t = t' \<and> a = a'" using eq by simp
qed simp

text \<open>The interface the executor relies on: an opened circuit, what closes it, what leaves it alone.\<close>

locale breaker =
  fixes opened :: "date \<Rightarrow> 's \<Rightarrow> string \<Rightarrow> string \<Rightarrow> bool"
    and failed :: "date \<Rightarrow> 's \<Rightarrow> string \<Rightarrow> string \<Rightarrow> 's"
    and succeeded :: "'s \<Rightarrow> string \<Rightarrow> string \<Rightarrow> 's"
    and wellformed :: "string \<Rightarrow> bool"
  assumes success_closes: "\<not> opened now (succeeded s t a) t a"
    and success_other: "wellformed t \<Longrightarrow> wellformed t' \<Longrightarrow> (t, a) \<noteq> (t', a') \<Longrightarrow>
      opened now (succeeded s t a) t' a' = opened now s t' a'"
    and failure_other: "wellformed t \<Longrightarrow> wellformed t' \<Longrightarrow> (t, a) \<noteq> (t', a') \<Longrightarrow>
      opened now (failed now' s t a) t' a' = opened now s t' a'"
begin

definition after :: "(date \<times> bool \<times> string \<times> string) list \<Rightarrow> 's \<Rightarrow> 's" where
  "after outcomes s = fold (\<lambda>(now, ok, t, a) s. if ok then succeeded s t a else failed now s t a) outcomes s"

lemma others_unaffected:
  assumes "wellformed t'" "\<forall>(now, ok, t, a) \<in> set outcomes. wellformed t \<and> (t, a) \<noteq> (t', a')"
  shows "opened now (after outcomes s) t' a' = opened now s t' a'"
  using assms(2)
proof (induction outcomes arbitrary: s)
  case (Cons x xs)
  obtain now1 ok t a where x: "x = (now1, ok, t, a)" by (cases x)
  have "opened now (if ok then succeeded s t a else failed now1 s t a) t' a' = opened now s t' a'"
    using Cons.prems assms(1) success_other failure_other by (auto simp: x)
  moreover have "opened now (after xs s1) t' a' = opened now s1 t' a'" for s1
    using Cons by simp
  ultimately show ?case by (simp add: after_def x)
qed (simp add: after_def)

end

lemma recordFailure_other:
  "circuitKey t a \<noteq> k \<Longrightarrow> redisGet now (recordFailure now' redis t a) k = redisGet now redis k"
  by (auto simp: recordFailure_def redisIncr_def redisExpire_def Let_def redisGet_def live_other split: option.splits)

interpretation circuit: breaker isOpen recordFailure reset "\<lambda>t. CHR '':'' \<notin> set t"
proof
  show "\<not> isOpen now (reset s t a) t a" for now s t a
    by (simp add: isOpen_def reset_def redisDel_def redisGet_def live_def)
  show "isOpen now (reset s t a) t' a' = isOpen now s t' a'"
    if "CHR '':'' \<notin> set t" "CHR '':'' \<notin> set t'" "(t, a) \<noteq> (t', a')" for now s t t' a a'
    using that circuitKey_eq by (auto simp: isOpen_def reset_def redisDel_def redisGet_def live_other)
  show "isOpen now (recordFailure now' s t a) t' a' = isOpen now s t' a'"
    if "CHR '':'' \<notin> set t" "CHR '':'' \<notin> set t'" "(t, a) \<noteq> (t', a')" for now now' s t t' a a'
    using that circuitKey_eq by (auto simp: isOpen_def recordFailure_other)
qed

text \<open>A run of failures without a success in between.\<close>

definition failures :: "date list \<Rightarrow> string \<Rightarrow> string \<Rightarrow> redis \<Rightarrow> redis" where
  "failures stamps tenantId actionType redis =
     fold (\<lambda>now r. recordFailure now r tenantId actionType) stamps redis"

lemma recordFailure_first:
  "live now redis (circuitKey t a) = None \<Longrightarrow>
   recordFailure now redis t a = redis(circuitKey t a \<mapsto> (1, Some (now + DEFAULT_TTL_SECONDS * 1000)))"
  by (simp add: recordFailure_def redisIncr_def redisExpire_def live_def Let_def)

lemma recordFailure_next:
  "redis (circuitKey t a) = Some (n, Some d) \<Longrightarrow> now \<le> d \<Longrightarrow> 1 \<le> n \<Longrightarrow>
   recordFailure now redis t a = redis(circuitKey t a \<mapsto> (n + 1, Some d))"
  by (simp add: recordFailure_def redisIncr_def live_def Let_def)

lemma failures_count:
  assumes "redis (circuitKey t a) = Some (n, Some d)" "1 \<le> n" "\<forall>now \<in> set stamps. now \<le> d"
  shows "failures stamps t a redis (circuitKey t a) = Some (n + int (length stamps), Some d)"
  using assms
proof (induction stamps arbitrary: redis n)
  case (Cons now stamps)
  note step = recordFailure_next [of redis t a n d now, OF Cons.prems(1) _ Cons.prems(2)]
  have "failures stamps t a (recordFailure now redis t a) (circuitKey t a) = Some (n + 1 + int (length stamps), Some d)"
    using Cons step by (intro Cons.IH) simp_all
  then show ?case by (simp add: failures_def)
qed (simp add: failures_def)

text \<open>
  C21. The circuit of an action type opens exactly at the fifth failure in a row: with no counter
  running at the first failure, and the failures within 300 seconds of it, the action is
  blocked until those 300 seconds are over if and only if there were at least five; after that,
  and after any success, it is allowed again. Other tenants and action types are not affected.
\<close>
theorem breaker_window:
  assumes "redisGet first redis (circuitKey t a) = None"
    and "\<forall>now \<in> set stamps. first \<le> now \<and> now \<le> first + DEFAULT_TTL_SECONDS * 1000"
    and "CHR '':'' \<notin> set t" "CHR '':'' \<notin> set t'" "(t, a) \<noteq> (t', a')"
  shows "(isOpen now (failures (first # stamps) t a redis) t a \<longleftrightarrow>
      now \<le> first + DEFAULT_TTL_SECONDS * 1000 \<and> 4 \<le> length stamps) \<and>
    \<not> isOpen now (reset (failures (first # stamps) t a redis) t a) t a \<and>
    isOpen now (failures (first # stamps) t a redis) t' a' = isOpen now redis t' a'"
proof -
  let ?k = "circuitKey t a" and ?d = "first + DEFAULT_TTL_SECONDS * 1000"
  have "live first redis ?k = None" using assms(1) by (simp add: redisGet_def)
  then have "recordFailure first redis t a ?k = Some (1, Some ?d)" by (simp add: recordFailure_first)
  then have "failures stamps t a (recordFailure first redis t a) ?k = Some (1 + int (length stamps), Some ?d)"
    using assms(2) by (intro failures_count) simp_all
  then have count: "failures (first # stamps) t a redis ?k = Some (1 + int (length stamps), Some ?d)"
    by (simp add: failures_def)
  have "isOpen now (failures (first # stamps) t a redis) t a \<longleftrightarrow> now \<le> ?d \<and> 4 \<le> length stamps"
    by (auto simp: isOpen_def redisGet_def live_def count DEFAULT_THRESHOLD_def)
  moreover have "failures (first # stamps) t a redis = circuit.after (map (\<lambda>now. (now, False, t, a)) (first # stamps)) redis"
    by (simp add: failures_def circuit.after_def fold_map comp_def)
  ultimately show ?thesis
    using circuit.success_closes circuit.others_unaffected [OF assms(4)] assms(3,5) by simp
qed

theorem breaker_window_witness:
  "isOpen 3000 (failures [0, 1, 2, 3, 4] ''t'' ''webhook'' Map.empty) ''t'' ''webhook'' \<and>
   \<not> isOpen 300001 (failures [0, 1, 2, 3, 4] ''t'' ''webhook'' Map.empty) ''t'' ''webhook'' \<and>
   \<not> isOpen 3000 (failures [0, 1, 2, 3] ''t'' ''webhook'' Map.empty) ''t'' ''webhook''"
  using breaker_window [of 0 Map.empty "''t''" "''webhook''" "[1, 2, 3, 4]" "''u''" "''notify''" 3000]
    breaker_window [of 0 Map.empty "''t''" "''webhook''" "[1, 2, 3, 4]" "''u''" "''notify''" 300001]
    breaker_window [of 0 Map.empty "''t''" "''webhook''" "[1, 2, 3]" "''u''" "''notify''" 3000]
  by (simp add: isOpen_def redisGet_def live_def DEFAULT_TTL_SECONDS_def)

end
