(* ===== verification/Automation.thy ===== *)
theory Automation
  imports TriggerEvents CircuitBreaker WfEngine
begin

text \<open>
  The automation engine (\<open>packages/automation-engine/src\<close>): rules and their maintenance
  (\<open>automation-crud.ts\<close>), the executor (\<open>executor.ts\<close>) and the transition action
  (\<open>actions/transition.ts\<close>), which moves a record through the workflow engine and runs the
  follow-up rules in the same call, one level deeper.

  The other action handlers (notifications, webhooks, field updates, new records) are a
  parameter: a function of the call that may fail or change the workflow tables. The counters
  of the circuit breaker are not part of the database transaction, so they keep their value
  when a failed rule is rolled back. \<open>tick\<close> counts the calls to the surroundings; it selects the
  ids and the clock each of them sees.
\<close>

section \<open>Data\<close>

datatype AutomationErrorCode =
    RULE_NOT_FOUND | RULE_CREATE_FAILED | MAX_DEPTH_EXCEEDED | ACTION_FAILED | INVALID_EVENT_PAYLOAD
  | WEBHOOK_SSRF_BLOCKED | DNS_RESOLUTION_TIMEOUT | UNKNOWN_ACTION_TYPE | CIRCUIT_BREAKER_UNAVAILABLE
  | NOTIFY_LINK_INVALID

datatype automation_failure =
    AutomationError AutomationErrorCode
  | EngineFailure failure
  | ActionFailure string
  | DatabaseFailure string

record TransitionConfig =
  tc_instanceId :: "string option"
  tc_transitionId :: string
  tc_comment :: "string option"

datatype ActionConfig =
    ActNotify jsobj
  | ActSetField jsobj
  | ActTransition TransitionConfig
  | ActWebhook jsobj
  | ActAssign jsobj
  | ActCreateEntity jsobj
  | ActCreateChild jsobj
  | ActConnector jsobj
  | ActResolveOncall jsobj
  | ActDispatchSeverityNotification jsobj
  | ActUnknown string jsobj

fun actionType :: "ActionConfig \<Rightarrow> string" where
  "actionType (ActNotify _) = ''notify''"
| "actionType (ActSetField _) = ''set_field''"
| "actionType (ActTransition _) = ''transition''"
| "actionType (ActWebhook _) = ''webhook''"
| "actionType (ActAssign _) = ''assign''"
| "actionType (ActCreateEntity _) = ''create_entity''"
| "actionType (ActCreateChild _) = ''create_child''"
| "actionType (ActConnector _) = ''connector.action''"
| "actionType (ActResolveOncall _) = ''resolve_oncall''"
| "actionType (ActDispatchSeverityNotification _) = ''dispatch_severity_notification''"
| "actionType (ActUnknown t _) = t"

record AutomationRule =
  ar_id :: string
  ar_tenantId :: string
  ar_name :: string
  ar_isEnabled :: bool
  ar_triggerType :: string
  ar_triggerConfig :: "jsobj option"
  ar_conditions :: "ConditionTree option"
  ar_actions :: "ActionConfig list"
  ar_priority :: int
  ar_createdAt :: date
  ar_updatedAt :: date

datatype exec_status = ExRunning | ExSuccess | ExDegraded | ExFailed

record automation_executions_row =
  ae_id :: string
  ae_tenantId :: string
  ae_ruleId :: string
  ae_triggerEvent :: jsobj
  ae_status :: exec_status
  ae_result :: "jsobj option"
  ae_error :: "automation_failure option"
  ae_startedAt :: date
  ae_completedAt :: "date option"
  ae_transitionEventId :: "string option"

record entity_types_row =
  et_id :: string
  et_tenantId :: "string option"
  et_name :: string

record auto_db =
  adb_wf :: wf_db
  adb_entityTypes :: "entity_types_row list"
  adb_rules :: "AutomationRule list"
  adb_executions :: "automation_executions_row list"

record auto_side =
  sd_redis :: redis
  sd_tick :: nat

text \<open>The call of a handler that is a parameter.\<close>

record action_call =
  cl_tenantId :: string
  cl_ruleId :: string
  cl_ruleName :: string
  cl_execId :: string
  cl_event :: jsobj
  cl_action :: ActionConfig
  cl_depth :: nat

record auto_env =
  ax_formats :: formats
  ax_redis :: bool
  ax_rowId :: "nat \<Rightarrow> string"
  ax_now :: "nat \<Rightarrow> date"
  ax_wf :: "nat \<Rightarrow> wf_env"
  ax_handler :: "nat \<Rightarrow> action_call \<Rightarrow> wf_db \<Rightarrow> string + wf_db"

type_synonym auto_state = "auto_side \<times> auto_db"
type_synonym 'a outcome = "auto_side \<times> (automation_failure + 'a)"

section \<open>Maintenance of rules\<close>

record CreateAutomationRuleInput =
  ci_name :: string
  ci_triggerType :: string
  ci_triggerConfig :: "jsobj option"
  ci_conditions :: "ConditionTree option"
  ci_actions :: "ActionConfig list"
  ci_isEnabled :: "bool option"
  ci_priority :: "int option"

record UpdateAutomationRuleInput =
  ui_name :: "string option"
  ui_isEnabled :: "bool option"
  ui_triggerType :: "string option"
  ui_triggerConfig :: "jsobj option option"
  ui_conditions :: "ConditionTree option option"
  ui_actions :: "ActionConfig list option"
  ui_priority :: "int option"

text \<open>
  The check of a notification link resolves host names; it is a parameter that returns the
  error it throws.
\<close>

definition truthy :: "jsval \<Rightarrow> bool" where
  "truthy v = (v \<noteq> JUndefined \<and> v \<noteq> JNull \<and> v \<noteq> JBool False \<and> v \<noteq> JNum 0 \<and> v \<noteq> JStr '''')"

definition sendFieldsMissing :: "jsobj \<Rightarrow> bool" where
  "sendFieldsMissing config =
     (case objGet config ''sendFields'' of
        JArr xs \<Rightarrow> xs = []
      | v \<Rightarrow> \<not> truthy v)"

fun validateRuleActions ::
  "(string \<Rightarrow> AutomationErrorCode option) \<Rightarrow> string \<Rightarrow> ActionConfig list \<Rightarrow> automation_failure + unit" where
  "validateRuleActions linkError triggerType [] = Inr ()"
| "validateRuleActions linkError triggerType (a # as) =
     bindE (case a of
         ActNotify config \<Rightarrow>
           (case objGet config ''payload'' of
              JObj payload \<Rightarrow>
                (case objGet payload ''link'' of
                   JStr link \<Rightarrow> (case linkError link of Some c \<Rightarrow> Inl (AutomationError c) | None \<Rightarrow> Inr ())
                 | _ \<Rightarrow> Inr ())
            | _ \<Rightarrow> Inr ())
       | ActWebhook config \<Rightarrow>
           throwIf (triggerType = ''entity.created'' \<and> truthy (objGet config ''includePayload'') \<and>
               sendFieldsMissing config) (AutomationError INVALID_EVENT_PAYLOAD)
       | _ \<Rightarrow> Inr ())
       (\<lambda>_. validateRuleActions linkError triggerType as)"

definition isRule :: "string \<Rightarrow> string \<Rightarrow> AutomationRule \<Rightarrow> bool" where
  "isRule tenantId i r = (ar_id r = i \<and> ar_tenantId r = tenantId)"

definition createAutomationRule ::
  "(string \<Rightarrow> AutomationErrorCode option) \<Rightarrow> string \<Rightarrow> date \<Rightarrow> auto_db \<Rightarrow> string \<Rightarrow> CreateAutomationRuleInput \<Rightarrow>
   automation_failure + (AutomationRule \<times> auto_db)" where
  "createAutomationRule linkError newId now db tenantId input =
     bindE (validateRuleActions linkError (ci_triggerType input) (ci_actions input)) (\<lambda>_.
     (let row = \<lparr>ar_id = newId, ar_tenantId = tenantId, ar_name = ci_name input,
            ar_isEnabled = dflt True (ci_isEnabled input), ar_triggerType = ci_triggerType input,
            ar_triggerConfig = ci_triggerConfig input, ar_conditions = ci_conditions input,
            ar_actions = ci_actions input, ar_priority = dflt 0 (ci_priority input),
            ar_createdAt = now, ar_updatedAt = now\<rparr>
      in bindE (throwIf (list_ex (\<lambda>r. ar_id r = newId) (adb_rules db)) (DatabaseFailure ''automation_rules_pkey''))
           (\<lambda>_. Inr (row, db\<lparr>adb_rules := insertRow row (adb_rules db)\<rparr>))))"

definition getAutomationRule :: "auto_db \<Rightarrow> string \<Rightarrow> string \<Rightarrow> automation_failure + AutomationRule" where
  "getAutomationRule db tenantId i =
     orThrow (select1 (isRule tenantId i) (adb_rules db)) (AutomationError RULE_NOT_FOUND)"

text \<open>Rows ordered by priority, then by creation.\<close>

definition orderRules :: "AutomationRule list \<Rightarrow> AutomationRule list" where
  "orderRules rules = sort_key ar_priority (sort_key ar_createdAt rules)"

definition listAutomationRules ::
  "auto_db \<Rightarrow> string \<Rightarrow> string option \<Rightarrow> bool option \<Rightarrow> nat option \<Rightarrow> nat option \<Rightarrow> AutomationRule list" where
  "listAutomationRules db tenantId triggerType isEnabled limit offset =
     take (dflt 500 limit) (drop (dflt 0 offset) (orderRules
       (selectW (\<lambda>r. ar_tenantId r = tenantId \<and>
           (case triggerType of None \<Rightarrow> True | Some t \<Rightarrow> ar_triggerType r = t) \<and>
           (case isEnabled of None \<Rightarrow> True | Some b \<Rightarrow> ar_isEnabled r = b)) (adb_rules db))))"

definition applyRuleUpdates :: "date \<Rightarrow> UpdateAutomationRuleInput \<Rightarrow> AutomationRule \<Rightarrow> AutomationRule" where
  "applyRuleUpdates now input r =
     r\<lparr>ar_updatedAt := now, ar_name := dflt (ar_name r) (ui_name input),
       ar_isEnabled := dflt (ar_isEnabled r) (ui_isEnabled input),
       ar_triggerType := dflt (ar_triggerType r) (ui_triggerType input),
       ar_triggerConfig := dflt (ar_triggerConfig r) (ui_triggerConfig input),
       ar_conditions := dflt (ar_conditions r) (ui_conditions input),
       ar_actions := dflt (ar_actions r) (ui_actions input),
       ar_priority := dflt (ar_priority r) (ui_priority input)\<rparr>"

definition updateAutomationRule ::
  "(string \<Rightarrow> AutomationErrorCode option) \<Rightarrow> date \<Rightarrow> auto_db \<Rightarrow> string \<Rightarrow> string \<Rightarrow> UpdateAutomationRuleInput \<Rightarrow>
   automation_failure + (AutomationRule \<times> auto_db)" where
  "updateAutomationRule linkError now db tenantId i input =
     bindE (getAutomationRule db tenantId i) (\<lambda>existing.
     bindE (validateRuleActions linkError (dflt (ar_triggerType existing) (ui_triggerType input))
              (dflt (ar_actions existing) (ui_actions input))) (\<lambda>_.
     (let rules1 = updateW (isRule tenantId i) (applyRuleUpdates now input) (adb_rules db)
      in bindE (orThrow (select1 (isRule tenantId i) rules1) (AutomationError RULE_NOT_FOUND))
           (\<lambda>row. Inr (row, db\<lparr>adb_rules := rules1\<rparr>)))))"

definition deleteAutomationRule :: "auto_db \<Rightarrow> string \<Rightarrow> string \<Rightarrow> automation_failure + auto_db" where
  "deleteAutomationRule db tenantId i =
     bindE (throwIf (list_ex (\<lambda>e. list_ex (\<lambda>r. isRule tenantId i r \<and> ar_id r = ae_ruleId e) (adb_rules db))
         (adb_executions db)) (DatabaseFailure ''automation_executions_rule_id_fkey'')) (\<lambda>_.
     bindE (throwIf (selectW (isRule tenantId i) (adb_rules db) = []) (AutomationError RULE_NOT_FOUND)) (\<lambda>_.
     Inr (db\<lparr>adb_rules := deleteW (isRule tenantId i) (adb_rules db)\<rparr>)))"

section \<open>One action\<close>

definition MAX_DEPTH :: nat where
  "MAX_DEPTH = 10"

definition tick :: "auto_side \<Rightarrow> auto_side" where
  "tick side = side\<lparr>sd_tick := sd_tick side + 1\<rparr>"

definition eventInstanceId :: "jsobj \<Rightarrow> string option" where
  "eventInstanceId event = (case map_of event ''instanceId'' of Some (JStr i) \<Rightarrow> Some i | _ \<Rightarrow> None)"

definition followUpEvent :: "string \<Rightarrow> string \<Rightarrow> string \<Rightarrow> WorkflowEvent \<Rightarrow> jsobj" where
  "followUpEvent tenantId instanceId entityTypeId e =
     [(''version'', JNum 1), (''eventType'', JStr ''workflow.transitioned''), (''tenantId'', JStr tenantId),
      (''instanceId'', JStr instanceId), (''entityTypeId'', JStr entityTypeId),
      (''workflowId'', JStr (we_workflowId e)),
      (''fromState'', (case we_fromState e of None \<Rightarrow> JNull | Some s \<Rightarrow> JStr s)), (''toState'', JStr (we_toState e)),
      (''triggeredBy'', JStr ''automation''), (''actorId'', JNull),
      (''occurredAt'', JStr (toISOString (we_createdAt e)))]"

definition automationRequest :: "string \<Rightarrow> TransitionConfig \<Rightarrow> nat \<Rightarrow> TransitionRequest" where
  "automationRequest instanceId c depth =
     \<lparr>tr_instanceId = instanceId, tr_transitionId = tc_transitionId c, tr_actorId = None,
      tr_actorRoles = None, tr_comment = tc_comment c, tr_idempotencyKey = None,
      tr_triggeredBy = Some TrigAutomation, tr_metadata = None, tr_depth = Some (int depth)\<rparr>"

text \<open>
  \<open>followUp\<close> is the executor one level deeper, applied to an event and the identity of the
  transition that produced it.
\<close>

definition executeTransitionAction ::
  "auto_env \<Rightarrow> (jsval \<Rightarrow> string option \<Rightarrow> auto_state \<Rightarrow> auto_db outcome) \<Rightarrow> string \<Rightarrow> jsobj \<Rightarrow> TransitionConfig \<Rightarrow>
   nat \<Rightarrow> auto_state \<Rightarrow> auto_db outcome" where
  "executeTransitionAction env followUp tenantId event c depth st =
     (let (side, db) = st in
      case (case tc_instanceId c of Some i \<Rightarrow> Some i | None \<Rightarrow> eventInstanceId event) of
        None \<Rightarrow> (side, Inr db)
      | Some instanceId \<Rightarrow>
          if instanceId = '''' then (side, Inr db)
          else (case executeTransition (ax_wf env (sd_tick side)) (adb_wf db) tenantId
                       (automationRequest instanceId c depth) of
                  Inl e \<Rightarrow> (tick side, Inl (EngineFailure e))
                | Inr (workflowEvent, w) \<Rightarrow>
                    (let db1 = db\<lparr>adb_wf := w\<rparr> in
                     case select1 (isInstance tenantId instanceId) (db_instances w) of
                       None \<Rightarrow> (tick side, Inr db1)
                     | Some transitioned \<Rightarrow>
                         followUp (JObj (followUpEvent tenantId instanceId (ei_entityTypeId transitioned) workflowEvent))
                           (wev_transitionEventId workflowEvent) (tick side, db1))))"

definition performAction ::
  "auto_env \<Rightarrow> (jsval \<Rightarrow> string option \<Rightarrow> auto_state \<Rightarrow> auto_db outcome) \<Rightarrow> action_call \<Rightarrow> auto_state \<Rightarrow> auto_db outcome" where
  "performAction env followUp call st =
     (let (side, db) = st in
      case cl_action call of
        ActTransition c \<Rightarrow> executeTransitionAction env followUp (cl_tenantId call) (cl_event call) c (cl_depth call) st
      | ActConnector _ \<Rightarrow> (side, Inr db)
      | ActUnknown _ _ \<Rightarrow> (side, Inl (AutomationError UNKNOWN_ACTION_TYPE))
      | _ \<Rightarrow> (case ax_handler env (sd_tick side) call (adb_wf db) of
               Inl e \<Rightarrow> (tick side, Inl (ActionFailure e))
             | Inr w \<Rightarrow> (tick side, Inr (db\<lparr>adb_wf := w\<rparr>))))"

definition runAction ::
  "auto_env \<Rightarrow> (jsval \<Rightarrow> string option \<Rightarrow> auto_state \<Rightarrow> auto_db outcome) \<Rightarrow> action_call \<Rightarrow> auto_state \<Rightarrow>
   (bool \<times> auto_db) outcome" where
  "runAction env followUp call st =
     (let (side, db) = st; t = cl_tenantId call; a = actionType (cl_action call) in
      if \<not> ax_redis env then (side, Inl (AutomationError CIRCUIT_BREAKER_UNAVAILABLE))
      else if isOpen (ax_now env (sd_tick side)) (sd_redis side) t a then (side, Inr (True, db))
      else (case performAction env followUp call st of
              (side1, Inl e) \<Rightarrow>
                (side1\<lparr>sd_redis := recordFailure (ax_now env (sd_tick side1)) (sd_redis side1) t a\<rparr>, Inl e)
            | (side1, Inr db1) \<Rightarrow>
                (side1\<lparr>sd_redis := reset (sd_redis side1) t a\<rparr>, Inr (False, db1))))"

fun runActions ::
  "(ActionConfig \<Rightarrow> auto_state \<Rightarrow> (bool \<times> auto_db) outcome) \<Rightarrow> ActionConfig list \<Rightarrow> nat \<Rightarrow> auto_state \<Rightarrow>
   (nat \<times> auto_db) outcome" where
  "runActions run [] skipped st = (fst st, Inr (skipped, snd st))"
| "runActions run (a # as) skipped st =
     (case run a st of
        (side1, Inl e) \<Rightarrow> (side1, Inl e)
      | (side1, Inr (skip, db1)) \<Rightarrow> runActions run as (if skip then skipped + 1 else skipped) (side1, db1))"

section \<open>One rule\<close>

definition newExecution ::
  "auto_env \<Rightarrow> auto_side \<Rightarrow> string \<Rightarrow> AutomationRule \<Rightarrow> jsobj \<Rightarrow> string option \<Rightarrow> automation_executions_row" where
  "newExecution env side tenantId rule event transitionEventId =
     \<lparr>ae_id = ax_rowId env (sd_tick side), ae_tenantId = tenantId, ae_ruleId = ar_id rule, ae_triggerEvent = event,
      ae_status = ExRunning, ae_result = None, ae_error = None, ae_startedAt = ax_now env (sd_tick side),
      ae_completedAt = None, ae_transitionEventId = transitionEventId\<rparr>"

definition finalStatus :: "automation_failure + (nat \<times> auto_db) \<Rightarrow> exec_status" where
  "finalStatus result =
     (case result of Inl _ \<Rightarrow> ExFailed | Inr (skipped, _) \<Rightarrow> if 0 < skipped then ExDegraded else ExSuccess)"

definition settle ::
  "date \<Rightarrow> automation_failure + (nat \<times> auto_db) \<Rightarrow> automation_executions_row \<Rightarrow> automation_executions_row" where
  "settle now result r =
     r\<lparr>ae_status := finalStatus result,
       ae_result := (case result of
           Inr (skipped, _) \<Rightarrow> if 0 < skipped then Some [(''skippedActions'', JNum (of_nat skipped))] else None
         | Inl _ \<Rightarrow> None),
       ae_error := (case result of Inl e \<Rightarrow> Some e | Inr _ \<Rightarrow> None), ae_completedAt := Some now\<rparr>"

text \<open>The partial unique index over the successful executions of a rule for one transition.\<close>

definition successClash :: "automation_executions_row list \<Rightarrow> bool" where
  "successClash rows =
     (\<not> distinct (map (\<lambda>r. (ae_ruleId r, ae_transitionEventId r))
        (filter (\<lambda>r. ae_transitionEventId r \<noteq> None \<and> ae_status r = ExSuccess) rows)))"

definition runRule ::
  "auto_env \<Rightarrow> (jsval \<Rightarrow> string option \<Rightarrow> auto_state \<Rightarrow> auto_db outcome) \<Rightarrow> nat \<Rightarrow> string \<Rightarrow> jsobj \<Rightarrow> string option \<Rightarrow>
   AutomationRule \<Rightarrow> auto_state \<Rightarrow> auto_db outcome" where
  "runRule env followUp depth tenantId event transitionEventId rule st =
     (let (side, db) = st;
          execRow = newExecution env side tenantId rule event transitionEventId in
      if list_ex (\<lambda>r. ae_id r = ae_id execRow) (adb_executions db)
      then (side, Inl (DatabaseFailure ''automation_executions_pkey''))
      else (let db1 = db\<lparr>adb_executions := insertRow execRow (adb_executions db)\<rparr>;
                call = (\<lambda>a. \<lparr>cl_tenantId = tenantId, cl_ruleId = ar_id rule, cl_ruleName = ar_name rule,
                   cl_execId = ae_id execRow, cl_event = event, cl_action = a, cl_depth = depth\<rparr>);
                (side1, result) = runActions (\<lambda>a. runAction env followUp (call a)) (ar_actions rule) 0 (tick side, db1);
                db2 = (case result of Inl _ \<Rightarrow> db1 | Inr (_, done1) \<Rightarrow> done1);
                rows = updateW (\<lambda>r. ae_id r = ae_id execRow) (settle (ax_now env (sd_tick side1)) result)
                  (adb_executions db2)
            in if finalStatus result = ExSuccess \<and> successClash rows
               then (side1, Inl (DatabaseFailure ''automation_executions_rule_transition_success_idx''))
               else (side1, Inr (db2\<lparr>adb_executions := rows\<rparr>))))"

definition internalKeys :: "string list" where
  "internalKeys = [''fields'', ''version'', ''tenantId'', ''depth'', ''transitionEventId'']"

definition eventFields :: "jsobj \<Rightarrow> jsobj" where
  "eventFields event =
     objSpread (filter (\<lambda>(k, _). k \<notin> set internalKeys) event)
       (case map_of event ''fields'' of Some (JObj flds) \<Rightarrow> flds | _ \<Rightarrow> [])"

definition resolveEntityTypeName :: "auto_db \<Rightarrow> string \<Rightarrow> string \<Rightarrow> string option" where
  "resolveEntityTypeName db tenantId i =
     map_option et_name (select1 (\<lambda>r. et_id r = i \<and> (et_tenantId r = Some tenantId \<or> et_tenantId r = None))
       (adb_entityTypes db))"

definition rulePasses :: "auto_db \<Rightarrow> string \<Rightarrow> jsobj \<Rightarrow> AutomationRule \<Rightarrow> bool" where
  "rulePasses db tenantId event rule =
     (ruleInScope (ar_triggerConfig rule) event (resolveEntityTypeName db tenantId) \<and>
      evaluateConditionTree (ar_conditions rule) (eventFields event) None)"

definition alreadyDone :: "auto_db \<Rightarrow> string \<Rightarrow> string \<Rightarrow> string option \<Rightarrow> bool" where
  "alreadyDone db tenantId ruleId transitionEventId =
     (case transitionEventId of
        None \<Rightarrow> False
      | Some teid \<Rightarrow> teid \<noteq> '''' \<and>
          select1 (\<lambda>r. ae_tenantId r = tenantId \<and> ae_ruleId r = ruleId \<and> ae_transitionEventId r = Some teid \<and>
            ae_status r = ExSuccess) (adb_executions db) \<noteq> None)"

definition considerRule ::
  "auto_env \<Rightarrow> (jsval \<Rightarrow> string option \<Rightarrow> auto_state \<Rightarrow> auto_db outcome) \<Rightarrow> nat \<Rightarrow> string \<Rightarrow> jsobj \<Rightarrow> string option \<Rightarrow>
   AutomationRule \<Rightarrow> auto_state \<Rightarrow> auto_db outcome" where
  "considerRule env followUp depth tenantId event transitionEventId rule st =
     (let (side, db) = st in
      if \<not> rulePasses db tenantId event rule then (side, Inr db)
      else if alreadyDone db tenantId (ar_id rule) transitionEventId then (side, Inr db)
      else runRule env followUp depth tenantId event transitionEventId rule st)"

section \<open>All rules\<close>

fun considerRules ::
  "(AutomationRule \<Rightarrow> auto_state \<Rightarrow> auto_db outcome) \<Rightarrow> AutomationRule list \<Rightarrow> auto_state \<Rightarrow> auto_db outcome" where
  "considerRules f [] st = (fst st, Inr (snd st))"
| "considerRules f (r # rs) st =
     (case f r st of
        (side1, Inl e) \<Rightarrow> (side1, Inl e)
      | (side1, Inr db1) \<Rightarrow> considerRules f rs (side1, db1))"

definition matchingRules :: "auto_db \<Rightarrow> string \<Rightarrow> jsobj \<Rightarrow> AutomationRule list" where
  "matchingRules db tenantId event =
     orderRules (selectW (\<lambda>r. ar_tenantId r = tenantId \<and> ar_triggerType r = eventTypeOf event \<and> ar_isEnabled r)
       (adb_rules db))"

text \<open>The number of levels left counts down to zero, where the executor refuses to go deeper.\<close>

primrec rulesAt ::
  "nat \<Rightarrow> auto_env \<Rightarrow> string \<Rightarrow> jsval \<Rightarrow> string option \<Rightarrow> auto_state \<Rightarrow> auto_db outcome" where
  "rulesAt 0 = (\<lambda>env tenantId rawEvent transitionEventId st. (fst st, Inl (AutomationError MAX_DEPTH_EXCEEDED)))"
| "rulesAt (Suc n) = (\<lambda>env tenantId rawEvent transitionEventId st.
     case safeParse (ax_formats env) rawEvent of
       None \<Rightarrow> (fst st, Inl (AutomationError INVALID_EVENT_PAYLOAD))
     | Some event \<Rightarrow>
         considerRules (considerRule env (rulesAt n env tenantId) (MAX_DEPTH - Suc n) tenantId event transitionEventId)
           (matchingRules (snd st) tenantId event) st)"

definition executeAutomationRules ::
  "auto_env \<Rightarrow> nat \<Rightarrow> string \<Rightarrow> jsval \<Rightarrow> string option \<Rightarrow> auto_state \<Rightarrow> auto_db outcome" where
  "executeAutomationRules env depth = rulesAt (MAX_DEPTH - depth) env"

end
