(* ===== verification/Sweep.thy ===== *)
theory Sweep
  imports WfSchema
begin

text \<open>
  What the pollers of the outbox have in common (\<open>apps/worker/src/outbox-poller.ts\<close>,
  \<open>sla-scheduler.ts\<close>, \<open>due-date-scheduler.ts\<close> and \<open>alert-scheduler.ts\<close>): a batch of undelivered rows, oldest first, without those another
  transaction has locked; jobs added to a queue that ignores an id it already knows; and the mark
  on the rows of the batch. A queue keeps its finished jobs, so an id stays known.

  The locales \<open>row_sweeper\<close> and \<open>sweeper\<close> state what a tick does to the outbox and what follows for any of them:
  which rows are left, that rows of other consumers are not touched, and that enough ticks
  deliver everything.
\<close>

section \<open>Batches, marks and jobs\<close>

definition sweepBatch ::
  "nat \<Rightarrow> (string \<Rightarrow> bool) \<Rightarrow> (outbox_events_row \<Rightarrow> bool) \<Rightarrow> outbox_events_row list \<Rightarrow> outbox_events_row list" where
  "sweepBatch limit locked due outbox =
     take limit (filter (\<lambda>r. \<not> locked (ob_id r)) (sort_key ob_createdAt (selectW due outbox)))"

definition markDelivered :: "date \<Rightarrow> outbox_events_row list \<Rightarrow> outbox_events_row list \<Rightarrow> outbox_events_row list" where
  "markDelivered t rows outbox =
     updateW (\<lambda>r. ob_id r \<in> set (map ob_id rows)) (\<lambda>r. r\<lparr>ob_deliveredAt := Some t\<rparr>) outbox"

definition addUnique :: "('j \<Rightarrow> string) \<Rightarrow> 'j \<Rightarrow> 'j list \<Rightarrow> 'j list" where
  "addUnique jobId job jobs = (if jobId job \<in> set (map jobId jobs) then jobs else jobs @ [job])"

lemma set_sweepBatch:
  "set (sweepBatch limit locked due outbox) \<subseteq> {r \<in> set outbox. due r \<and> \<not> locked (ob_id r)}"
  by (auto simp: sweepBatch_def dest: in_set_takeD)

lemma length_sweepBatch:
  "length (sweepBatch limit locked due outbox) = min limit (length (filter (\<lambda>r. due r \<and> \<not> locked (ob_id r)) outbox))"
proof -
  have "length (filter P (sort_key k xs)) = length (filter P xs)" for P and k :: "outbox_events_row \<Rightarrow> date" and xs
    by (simp flip: sort_key_def add: filter_sort)
  then show ?thesis by (simp add: sweepBatch_def selectW_def min.commute conj_commute)
qed

lemma distinct_sweepBatch: "distinct outbox \<Longrightarrow> distinct (sweepBatch limit locked due outbox)"
  by (simp add: sweepBatch_def selectW_def distinct_take)

lemma markDelivered_Nil [simp]: "markDelivered t [] outbox = outbox"
  by (simp add: markDelivered_def updateW_def)

lemma map_markDelivered [simp]: "map ob_id (markDelivered t rows outbox) = map ob_id outbox"
  by (simp add: markDelivered_def map_updateW_same)

lemma ids_addUnique: "f ` set (fold (addUnique f) js jobs) = f ` set jobs \<union> f ` set js"
  by (induction js arbitrary: jobs) (auto simp: addUnique_def)

lemma distinct_addUnique: "distinct (map f jobs) \<Longrightarrow> distinct (map f (fold (addUnique f) js jobs))"
  by (induction js arbitrary: jobs) (auto simp: addUnique_def)

lemma addUnique_keeps: "j \<in> set jobs \<Longrightarrow> j \<in> set (fold (addUnique f) js jobs)"
  by (induction js arbitrary: jobs) (auto simp: addUnique_def)

text \<open>With distinct ids the mark reaches the rows of the batch and no other.\<close>

lemma set_markDelivered:
  assumes "distinct (map ob_id outbox)" "set rows \<subseteq> set outbox"
  shows "set (markDelivered t rows outbox) = (set outbox - set rows) \<union> (\<lambda>r. r\<lparr>ob_deliveredAt := Some t\<rparr>) ` set rows"
proof -
  have "ob_id r \<in> ob_id ` set rows \<longleftrightarrow> r \<in> set rows" if "r \<in> set outbox" for r
    using that assms by (auto simp: distinct_map dest!: inj_onD)
  then show ?thesis using assms(2) by (auto simp: markDelivered_def set_updateW)
qed

lemma filter_markDelivered:
  assumes "distinct (map ob_id outbox)" "set rows \<subseteq> set outbox" "\<And>r. Q r \<Longrightarrow> ob_deliveredAt r = None"
  shows "filter Q (markDelivered t rows outbox) = filter (\<lambda>r. Q r \<and> r \<notin> set rows) outbox"
proof -
  have member: "ob_id r \<in> ob_id ` set rows \<longleftrightarrow> r \<in> set rows" if "r \<in> set outbox" for r
    using that assms(1,2) by (auto simp: distinct_map dest!: inj_onD)
  have "\<not> Q (r\<lparr>ob_deliveredAt := Some t\<rparr>)" for r using assms(3) [of "r\<lparr>ob_deliveredAt := Some t\<rparr>"] by auto
  then have "filter Q (updateW (\<lambda>r. ob_id r \<in> set (map ob_id rows)) (\<lambda>r. r\<lparr>ob_deliveredAt := Some t\<rparr>) xs) =
      filter (\<lambda>r. Q r \<and> r \<notin> set rows) xs" if "set xs \<subseteq> set outbox" for xs
    using that by (induction xs) (auto simp: updateW_def member)
  then show ?thesis by (simp add: markDelivered_def)
qed

lemma markDelivered_cong:
  "ob_id ` set a = ob_id ` set b \<Longrightarrow> markDelivered t a outbox = markDelivered t b outbox"
  by (simp add: markDelivered_def)

section \<open>The interface of a poller\<close>

text \<open>
  A poller that decides row by row: some rows of the batch may be kept for the next tick, the others are
  marked.
\<close>

locale row_sweeper =
  fixes run :: "'env \<Rightarrow> 'w \<Rightarrow> 'w"
    and outboxOf :: "'w \<Rightarrow> outbox_events_row list"
    and due :: "outbox_events_row \<Rightarrow> bool"
    and limit :: nat
    and locked :: "'env \<Rightarrow> string \<Rightarrow> bool"
    and stamp :: "'env \<Rightarrow> date"
    and kept :: "'env \<Rightarrow> 'w \<Rightarrow> outbox_events_row \<Rightarrow> bool"
  assumes due_undelivered: "due r \<Longrightarrow> ob_deliveredAt r = None"
    and limit_positive: "0 < limit"
    and swept: "outboxOf (run env w) = markDelivered (stamp env)
      (filter (\<lambda>r. \<not> kept env w r) (sweepBatch limit (locked env) due (outboxOf w))) (outboxOf w)"
begin

lemma keeps_ids: "map ob_id (outboxOf (run env w)) = map ob_id (outboxOf w)"
  by (simp add: swept)

lemma left_over:
  assumes "distinct (map ob_id (outboxOf w))" "\<And>r. Q r \<Longrightarrow> ob_deliveredAt r = None"
  shows "filter Q (outboxOf (run env w)) =
    filter (\<lambda>r. Q r \<and> \<not> (r \<in> set (sweepBatch limit (locked env) due (outboxOf w)) \<and> \<not> kept env w r)) (outboxOf w)"
  unfolding swept using assms set_sweepBatch [of limit "locked env" due "outboxOf w"]
  by (subst filter_markDelivered) (auto intro!: filter_cong)

lemma keeps_others:
  assumes "distinct (map ob_id (outboxOf w))" "\<And>r. Q r \<Longrightarrow> ob_deliveredAt r = None" "\<And>r. Q r \<Longrightarrow> \<not> due r"
  shows "filter Q (outboxOf (run env w)) = filter Q (outboxOf w)"
proof -
  have "filter Q (outboxOf (run env w)) = filter (\<lambda>r. Q r \<and> \<not> (r \<in> set (sweepBatch limit (locked env) due (outboxOf w)) \<and>
      \<not> kept env w r)) (outboxOf w)"
    using assms(1,2) by (rule left_over)
  also have "\<dots> = filter Q (outboxOf w)"
    using assms(3) set_sweepBatch [of limit "locked env" due "outboxOf w"] by (intro filter_cong) auto
  finally show ?thesis .
qed

end

text \<open>A poller that marks the whole batch or, when the tick fails, nothing.\<close>

locale sweeper =
  fixes run :: "'env \<Rightarrow> 'w \<Rightarrow> 'w"
    and outboxOf :: "'w \<Rightarrow> outbox_events_row list"
    and due :: "outbox_events_row \<Rightarrow> bool"
    and limit :: nat
    and locked :: "'env \<Rightarrow> string \<Rightarrow> bool"
    and stamp :: "'env \<Rightarrow> date"
    and fails :: "'env \<Rightarrow> 'w \<Rightarrow> bool"
  assumes due_undelivered: "due r \<Longrightarrow> ob_deliveredAt r = None"
    and limit_positive: "0 < limit"
    and failed: "fails env w \<Longrightarrow> outboxOf (run env w) = outboxOf w"
    and delivered: "\<not> fails env w \<Longrightarrow> outboxOf (run env w) =
      markDelivered (stamp env) (sweepBatch limit (locked env) due (outboxOf w)) (outboxOf w)"

sublocale sweeper \<subseteq> rows: row_sweeper run outboxOf due limit locked stamp "\<lambda>env w r. fails env w"
proof
  fix env w
  show "outboxOf (run env w) = markDelivered (stamp env)
      (filter (\<lambda>r. \<not> fails env w) (sweepBatch limit (locked env) due (outboxOf w))) (outboxOf w)"
    by (cases "fails env w") (simp_all add: failed delivered)
qed (simp_all add: due_undelivered limit_positive)

context sweeper
begin

lemmas keeps_ids = rows.keeps_ids

lemmas keeps_others = rows.keeps_others

lemma remaining:
  assumes "\<not> fails env w" "distinct (map ob_id (outboxOf w))"
  shows "filter due (outboxOf (run env w)) =
    filter (\<lambda>r. due r \<and> r \<notin> set (sweepBatch limit (locked env) due (outboxOf w))) (outboxOf w)"
  using rows.left_over [OF assms(2) due_undelivered, where env = env] assms(1) by simp

lemma progress:
  assumes "\<not> fails env w" "distinct (map ob_id (outboxOf w))" "\<And>i. \<not> locked env i"
  shows "length (filter due (outboxOf (run env w))) = length (filter due (outboxOf w)) - limit"
proof -
  let ?b = "sweepBatch limit (locked env) due (outboxOf w)" and ?o = "outboxOf w"
  have d: "distinct ?o" using assms(2) by (simp add: distinct_map)
  have sub: "set ?b \<subseteq> {r \<in> set ?o. due r}" using set_sweepBatch [of limit "locked env" due ?o] by auto
  have "length (filter due (outboxOf (run env w))) = card ({r \<in> set ?o. due r} - set ?b)"
    using distinct_card [OF distinct_filter [OF d, of "\<lambda>r. due r \<and> r \<notin> set ?b"]]
    by (simp add: remaining [OF assms(1,2)] set_diff_eq conj_ac)
  also have "\<dots> = card {r \<in> set ?o. due r} - card (set ?b)"
    using sub by (intro card_Diff_subset) auto
  also have "\<dots> = length (filter due ?o) - min limit (length (filter due ?o))"
    using distinct_card [OF distinct_filter [OF d, of due]] distinct_card [OF distinct_sweepBatch [OF d]]
    by (simp add: length_sweepBatch assms(3))
  finally show ?thesis by simp
qed

text \<open>Ticks that meet neither failures nor locks leave nothing after enough of them.\<close>

lemma drains:
  assumes "\<And>env w. env \<in> set envs \<Longrightarrow> \<not> fails env w \<and> (\<forall>i. \<not> locked env i)"
    and "distinct (map ob_id (outboxOf w))"
  shows "length (filter due (outboxOf (fold run envs w))) = length (filter due (outboxOf w)) - limit * length envs"
  using assms
proof (induction envs arbitrary: w)
  case (Cons env envs)
  then have "length (filter due (outboxOf (run env w))) = length (filter due (outboxOf w)) - limit"
    by (intro progress) auto
  moreover have "distinct (map ob_id (outboxOf (run env w)))" using Cons.prems(2) by (simp add: keeps_ids)
  ultimately show ?case using Cons.IH [of "run env w"] Cons.prems(1) by (simp add: algebra_simps)
qed simp

lemma drains_all:
  assumes "\<And>env w. env \<in> set envs \<Longrightarrow> \<not> fails env w \<and> (\<forall>i. \<not> locked env i)"
    and "distinct (map ob_id (outboxOf w))" "length (outboxOf w) \<le> limit * length envs"
  shows "filter due (outboxOf (fold run envs w)) = []"
proof -
  have "length (filter due (outboxOf w)) \<le> limit * length envs"
    using assms(3) length_filter_le [of due "outboxOf w"] by linarith
  moreover have "length (filter due (outboxOf (fold run envs w))) = length (filter due (outboxOf w)) - limit * length envs"
    using assms(1,2) by (rule drains)
  ultimately show ?thesis by simp
qed

end

end
