(* ===== verification/SlaWorker.thy ===== *)
theory SlaWorker
  imports TriggerEvents WfDemo Sweep
begin

text \<open>
  The workers behind the service-level timers (\<open>apps/worker/src/sla-scheduler.ts\<close> and
  \<open>sla-breacher.ts\<close>). The scheduler turns the undelivered timer rows of the outbox into delayed
  jobs, or into dead letters when they are too old; the breacher turns a job that has become due
  into a breach event, unless the record has left the state.

  Parameters: the clock, the parsing of a timestamp, which rows another transaction has locked,
  which statements and queue operations fail, and whether the tenant is active. The queue is
  not part of the database transaction: jobs added before a failure stay. Adding a job whose id
  is already in the queue has no effect.
\<close>

section \<open>Data\<close>

record SlaJobData =
  jd_outboxEventId :: string
  jd_tenantId :: string
  jd_instanceId :: string
  jd_workflowId :: string
  jd_stateName :: string
  jd_slaHours :: jsval
  jd_fireAt :: string

record sla_job =
  sj_id :: string
  sj_data :: SlaJobData
  sj_delay :: int

record dead_letter_row =
  dl_tenantId :: string
  dl_originalEventId :: string
  dl_eventType :: string
  dl_payload :: jsobj
  dl_ruleId :: "string option"
  dl_error :: string
  dl_attemptCount :: nat

record sla_world =
  sl_db :: wf_db
  sl_dead :: "dead_letter_row list"
  sl_jobs :: "sla_job list"

record sla_env =
  se_now :: date
  se_deliveredAt :: date
  se_parseDate :: "string \<Rightarrow> date option"
  se_locked :: "string \<Rightarrow> bool"
  se_deadFails :: "string \<Rightarrow> bool"
  se_addFails :: "string \<Rightarrow> bool"

section \<open>The scheduler\<close>

definition BATCH_SIZE :: nat where
  "BATCH_SIZE = 50"

definition STALE_SLA_THRESHOLD_MS :: int where
  "STALE_SLA_THRESHOLD_MS = 48 * 60 * 60 * 1000"

definition payloadText :: "outbox_events_row \<Rightarrow> string \<Rightarrow> string" where
  "payloadText r k = dflt '''' (pgText (ob_payload r) k)"

definition isSlaDue :: "outbox_events_row \<Rightarrow> bool" where
  "isSlaDue r = (ob_deliveredAt r = None \<and> ob_eventType r = slaScheduled)"

definition slaBatch :: "sla_env \<Rightarrow> wf_db \<Rightarrow> outbox_events_row list" where
  "slaBatch env db =
     sweepBatch BATCH_SIZE (se_locked env) isSlaDue (db_outbox db)"

definition isStale :: "sla_env \<Rightarrow> outbox_events_row \<Rightarrow> bool" where
  "isStale env r =
     (case se_parseDate env (payloadText r ''fireAt'') of
        None \<Rightarrow> True
      | Some fireAt \<Rightarrow> STALE_SLA_THRESHOLD_MS < se_now env - fireAt)"

definition deadLetter :: "outbox_events_row \<Rightarrow> dead_letter_row" where
  "deadLetter r =
     \<lparr>dl_tenantId = ob_tenantId r, dl_originalEventId = ob_id r, dl_eventType = slaScheduled,
      dl_payload = ob_payload r, dl_ruleId = None,
      dl_error = ''SLA event exceeded stale threshold ('' @ decDigits (nat (STALE_SLA_THRESHOLD_MS div 3600000)) @
        ''h). fireAt='' @ payloadText r ''fireAt'', dl_attemptCount = 1\<rparr>"

text \<open>The tenants of the stale rows, in the order of their first row.\<close>

definition tenantsOf :: "outbox_events_row list \<Rightarrow> string list" where
  "tenantsOf rows = rev (remdups (rev (map ob_tenantId rows)))"

definition deadLetters :: "outbox_events_row list \<Rightarrow> dead_letter_row list" where
  "deadLetters stale =
     concat (map (\<lambda>t. map deadLetter (filter (\<lambda>r. ob_tenantId r = t) stale)) (tenantsOf stale))"

definition slaJobId :: "outbox_events_row \<Rightarrow> string" where
  "slaJobId r = ''sla:'' @ ob_id r"

definition slaJob :: "sla_env \<Rightarrow> outbox_events_row \<Rightarrow> sla_job" where
  "slaJob env r =
     \<lparr>sj_id = slaJobId r,
      sj_data = \<lparr>jd_outboxEventId = ob_id r, jd_tenantId = ob_tenantId r, jd_instanceId = payloadText r ''instanceId'',
        jd_workflowId = payloadText r ''workflowId'', jd_stateName = payloadText r ''stateName'',
        jd_slaHours = objGet (ob_payload r) ''slaHours'', jd_fireAt = payloadText r ''fireAt''\<rparr>,
      sj_delay = max 0 (dflt 0 (se_parseDate env (payloadText r ''fireAt'')) - se_now env)\<rparr>"

definition addJob :: "sla_job \<Rightarrow> sla_job list \<Rightarrow> sla_job list" where
  "addJob = addUnique sj_id"

definition slaTick :: "sla_env \<Rightarrow> sla_world \<Rightarrow> sla_world" where
  "slaTick env w =
     (let rows = slaBatch env (sl_db w) in
      if rows = [] then w
      else (let stale = filter (isStale env) rows;
                fresh = filter (\<lambda>r. \<not> isStale env r) rows in
            if list_ex (se_deadFails env) (tenantsOf stale) then w
            else (let jobs1 = fold addJob (map (slaJob env) (filter (\<lambda>r. \<not> se_addFails env (slaJobId r)) fresh)) (sl_jobs w) in
                  if list_ex (\<lambda>r. se_addFails env (slaJobId r)) fresh then w\<lparr>sl_jobs := jobs1\<rparr>
                  else w\<lparr>sl_jobs := jobs1, sl_dead := sl_dead w @ deadLetters stale,
                         sl_db := (sl_db w)\<lparr>db_outbox := markDelivered (se_deliveredAt env) rows (db_outbox (sl_db w))\<rparr>\<rparr>)))"

section \<open>The breacher\<close>

record breach_env =
  be_active :: bool
  be_now :: date
  be_rowId :: string
  be_dbNow :: date

definition breachPayload :: "breach_env \<Rightarrow> SlaJobData \<Rightarrow> string \<Rightarrow> jsobj" where
  "breachPayload env d entityTypeId =
     [(''eventType'', JStr ''workflow.sla_breached''), (''version'', JNum 1), (''tenantId'', JStr (jd_tenantId d)),
      (''instanceId'', JStr (jd_instanceId d)), (''entityTypeId'', JStr entityTypeId),
      (''workflowId'', JStr (jd_workflowId d)), (''state'', JStr (jd_stateName d)), (''slaHours'', jd_slaHours d),
      (''breachedAt'', JStr (toISOString (be_now env)))]"

definition breachRow :: "breach_env \<Rightarrow> SlaJobData \<Rightarrow> string \<Rightarrow> outbox_events_row" where
  "breachRow env d entityTypeId =
     \<lparr>ob_id = be_rowId env, ob_tenantId = jd_tenantId d, ob_eventType = ''workflow.sla_breached'', ob_version = 1,
      ob_payload = breachPayload env d entityTypeId, ob_createdAt = be_dbNow env, ob_deliveredAt = None\<rparr>"

definition slaBreach :: "breach_env \<Rightarrow> SlaJobData \<Rightarrow> wf_db \<Rightarrow> wf_db" where
  "slaBreach env d db =
     (if \<not> be_active env then db
      else (case select1 (isInstance (jd_tenantId d) (jd_instanceId d)) (db_instances db) of
              None \<Rightarrow> db
            | Some inst \<Rightarrow>
                if ei_currentState inst \<noteq> jd_stateName d then db
                else db\<lparr>db_outbox := insertRow (breachRow env d (ei_entityTypeId inst)) (db_outbox db)\<rparr>))"

text \<open>A job that has failed for the last time becomes a dead letter.\<close>

definition slaJobFailed :: "nat \<Rightarrow> nat option \<Rightarrow> string \<Rightarrow> SlaJobData \<Rightarrow> dead_letter_row list \<Rightarrow> dead_letter_row list" where
  "slaJobFailed attemptsMade attempts err d dead =
     (if dflt 1 attempts \<le> attemptsMade
      then dead @ [\<lparr>dl_tenantId = jd_tenantId d, dl_originalEventId = jd_outboxEventId d,
             dl_eventType = ''workflow.sla_breached'',
             dl_payload = [(''instanceId'', JStr (jd_instanceId d)), (''workflowId'', JStr (jd_workflowId d)),
               (''stateName'', JStr (jd_stateName d)), (''slaHours'', jd_slaHours d)],
             dl_ruleId = None, dl_error = err, dl_attemptCount = attemptsMade\<rparr>]
      else dead)"

section \<open>Accounting for every timer\<close>

lemma ids_addJob: "sj_id ` set (fold addJob js jobs) = sj_id ` set jobs \<union> sj_id ` set js"
  unfolding addJob_def by (rule ids_addUnique)

lemma distinct_addJob: "distinct (map sj_id jobs) \<Longrightarrow> distinct (map sj_id (fold addJob js jobs))"
  unfolding addJob_def by (rule distinct_addUnique)

lemma set_deadLetters: "set (deadLetters stale) = deadLetter ` set stale"
  by (auto simp: deadLetters_def tenantsOf_def)

definition tickFails :: "sla_env \<Rightarrow> sla_world \<Rightarrow> bool" where
  "tickFails env w \<longleftrightarrow> (\<exists>r \<in> set (slaBatch env (sl_db w)).
     if isStale env r then se_deadFails env (ob_tenantId r) else se_addFails env (slaJobId r))"

definition withoutFailures :: "sla_env \<Rightarrow> sla_env" where
  "withoutFailures env = env\<lparr>se_deadFails := (\<lambda>_. False), se_addFails := (\<lambda>_. False)\<rparr>"

lemma slaTick_fails:
  assumes "tickFails env w"
  shows "sl_db (slaTick env w) = sl_db w \<and> sl_dead (slaTick env w) = sl_dead w \<and>
    (\<exists>rs \<subseteq> {r \<in> set (slaBatch env (sl_db w)). \<not> isStale env r}.
       sj_id ` set (sl_jobs (slaTick env w)) = sj_id ` set (sl_jobs w) \<union> slaJobId ` rs)"
proof -
  let ?b = "slaBatch env (sl_db w)"
  have "?b \<noteq> []" using assms by (auto simp: tickFails_def)
  show ?thesis
  proof (cases "list_ex (se_deadFails env) (tenantsOf (filter (isStale env) ?b))")
    case True
    then show ?thesis by (auto simp: slaTick_def Let_def)
  next
    case False
    then have "list_ex (\<lambda>r. se_addFails env (slaJobId r)) (filter (\<lambda>r. \<not> isStale env r) ?b)"
      using assms by (auto simp: tickFails_def list_ex_iff tenantsOf_def split: if_splits)
    then have w': "slaTick env w = w\<lparr>sl_jobs := fold addJob (map (slaJob env)
        (filter (\<lambda>r. \<not> se_addFails env (slaJobId r)) (filter (\<lambda>r. \<not> isStale env r) ?b))) (sl_jobs w)\<rparr>"
      using False \<open>?b \<noteq> []\<close> by (simp add: slaTick_def Let_def)
    have "sj_id ` set (sl_jobs (slaTick env w)) =
        sj_id ` set (sl_jobs w) \<union> slaJobId ` {r \<in> set ?b. \<not> isStale env r \<and> \<not> se_addFails env (slaJobId r)}"
      unfolding w' by (auto simp: ids_addJob image_image slaJob_def)
    then show ?thesis using w' by (intro conjI exI [of _ "{r \<in> set ?b. \<not> isStale env r \<and> \<not> se_addFails env (slaJobId r)}"]) auto
  qed
qed

lemma slaTick_succeeds:
  assumes "\<not> tickFails env w"
  defines "b \<equiv> slaBatch env (sl_db w)"
  shows "sl_dead (slaTick env w) = sl_dead w @ deadLetters (filter (isStale env) b)"
    and "sl_jobs (slaTick env w) = fold addJob (map (slaJob env) (filter (\<lambda>r. \<not> isStale env r) b)) (sl_jobs w)"
    and "sl_db (slaTick env w) = (sl_db w)\<lparr>db_outbox := markDelivered (se_deliveredAt env) b (db_outbox (sl_db w))\<rparr>"
proof -
  have 1: "\<not> list_ex (se_deadFails env) (tenantsOf (filter (isStale env) b))"
    using assms(1) by (auto simp: tickFails_def b_def list_ex_iff tenantsOf_def split: if_splits)
  have 2: "\<not> se_addFails env (slaJobId r)" if "r \<in> set b" "\<not> isStale env r" for r
    using assms(1) that by (auto simp: tickFails_def b_def split: if_splits)
  then have 3: "filter (\<lambda>r. \<not> se_addFails env (slaJobId r)) (filter (\<lambda>r. \<not> isStale env r) b) = filter (\<lambda>r. \<not> isStale env r) b"
    by (auto simp: filter_filter intro!: filter_cong)
  show "sl_dead (slaTick env w) = sl_dead w @ deadLetters (filter (isStale env) b)"
    "sl_jobs (slaTick env w) = fold addJob (map (slaJob env) (filter (\<lambda>r. \<not> isStale env r) b)) (sl_jobs w)"
    "sl_db (slaTick env w) = (sl_db w)\<lparr>db_outbox := markDelivered (se_deliveredAt env) b (db_outbox (sl_db w))\<rparr>"
    using 1 2 unfolding slaTick_def Let_def b_def [symmetric] 3
    by (auto simp: list_ex_iff deadLetters_def tenantsOf_def)
qed

interpretation sla_sweep: sweeper slaTick "\<lambda>w. db_outbox (sl_db w)" isSlaDue BATCH_SIZE se_locked se_deliveredAt tickFails
  by unfold_locales (simp_all add: isSlaDue_def BATCH_SIZE_def slaTick_fails slaTick_succeeds(3) slaBatch_def)

text \<open>
  No timer is lost and none is scheduled twice. A tick that meets no failure takes up to 50
  unlocked undelivered timers; each becomes a job, or a dead letter when its time is unreadable
  or more than 48 hours past, and exactly those are marked delivered. A tick that fails leaves the
  tables as they were, and running it again ends with the same tables and the same jobs as if it
  had not failed, although some jobs had been queued: no job id ever occurs twice.
\<close>
theorem sla_tick_accounts:
  assumes "distinct (map ob_id (db_outbox (sl_db w)))" "distinct (map sj_id (sl_jobs w))"
  shows "distinct (map sj_id (sl_jobs (slaTick env w))) \<and>
    (\<not> tickFails env w \<longrightarrow>
      (\<forall>r \<in> set (slaBatch env (sl_db w)).
         if isStale env r then deadLetter r \<in> set (sl_dead (slaTick env w))
         else slaJobId r \<in> sj_id ` set (sl_jobs (slaTick env w))) \<and>
      filter isSlaDue (db_outbox (sl_db (slaTick env w))) =
        filter (\<lambda>r. isSlaDue r \<and> r \<notin> set (slaBatch env (sl_db w))) (db_outbox (sl_db w)) \<and>
      length (slaBatch env (sl_db w)) =
        min BATCH_SIZE (length (filter (\<lambda>r. isSlaDue r \<and> \<not> se_locked env (ob_id r)) (db_outbox (sl_db w))))) \<and>
    (tickFails env w \<longrightarrow>
      sl_db (slaTick env w) = sl_db w \<and> sl_dead (slaTick env w) = sl_dead w \<and>
      sl_db (slaTick (withoutFailures env) (slaTick env w)) = sl_db (slaTick (withoutFailures env) w) \<and>
      sl_dead (slaTick (withoutFailures env) (slaTick env w)) = sl_dead (slaTick (withoutFailures env) w) \<and>
      sj_id ` set (sl_jobs (slaTick (withoutFailures env) (slaTick env w))) =
        sj_id ` set (sl_jobs (slaTick (withoutFailures env) w)))"
proof (intro conjI impI)
  show "distinct (map sj_id (sl_jobs (slaTick env w)))"
    using assms(2) by (simp add: slaTick_def Let_def distinct_addJob)
next
  assume ok: "\<not> tickFails env w"
  show "\<forall>r \<in> set (slaBatch env (sl_db w)). if isStale env r then deadLetter r \<in> set (sl_dead (slaTick env w))
      else slaJobId r \<in> sj_id ` set (sl_jobs (slaTick env w))"
    by (auto simp: slaTick_succeeds [OF ok] set_deadLetters ids_addJob image_image slaJob_def)
  show "filter isSlaDue (db_outbox (sl_db (slaTick env w))) =
      filter (\<lambda>r. isSlaDue r \<and> r \<notin> set (slaBatch env (sl_db w))) (db_outbox (sl_db w))"
    unfolding slaBatch_def by (rule sla_sweep.remaining [OF ok assms(1)])
  show "length (slaBatch env (sl_db w)) =
      min BATCH_SIZE (length (filter (\<lambda>r. isSlaDue r \<and> \<not> se_locked env (ob_id r)) (db_outbox (sl_db w))))"
    unfolding slaBatch_def by (rule length_sweepBatch)
next
  let ?ok = "withoutFailures env"
  assume fail: "tickFails env w"
  have batch: "slaBatch ?ok db = slaBatch env db" "isStale ?ok r = isStale env r" for db r
    by (simp_all add: slaBatch_def isStale_def withoutFailures_def split: option.split)
  have ok: "\<not> tickFails ?ok v" for v by (simp add: tickFails_def withoutFailures_def)
  obtain rs where rs: "rs \<subseteq> {r \<in> set (slaBatch env (sl_db w)). \<not> isStale env r}"
    "sj_id ` set (sl_jobs (slaTick env w)) = sj_id ` set (sl_jobs w) \<union> slaJobId ` rs"
    and same: "sl_db (slaTick env w) = sl_db w" "sl_dead (slaTick env w) = sl_dead w"
    using slaTick_fails [OF fail] by blast
  show "sl_db (slaTick env w) = sl_db w" "sl_dead (slaTick env w) = sl_dead w" by (fact same)+
  show "sl_db (slaTick ?ok (slaTick env w)) = sl_db (slaTick ?ok w)"
    "sl_dead (slaTick ?ok (slaTick env w)) = sl_dead (slaTick ?ok w)"
    by (simp_all add: slaTick_succeeds [OF ok] same batch)
  show "sj_id ` set (sl_jobs (slaTick ?ok (slaTick env w))) = sj_id ` set (sl_jobs (slaTick ?ok w))"
    using rs by (auto simp: slaTick_succeeds [OF ok] same batch ids_addJob image_image slaJob_def)
qed

definition demo_timer :: "string \<Rightarrow> string \<Rightarrow> outbox_events_row" where
  "demo_timer i fireAt = \<lparr>ob_id = i, ob_tenantId = ''t1'', ob_eventType = slaScheduled, ob_version = 1,
     ob_payload = [(''instanceId'', JStr ''i1''), (''workflowId'', JStr ''w1''), (''stateName'', JStr ''A''),
       (''slaHours'', JNum 4), (''fireAt'', JStr fireAt)], ob_createdAt = 0, ob_deliveredAt = None\<rparr>"

definition demo_timers :: sla_world where
  "demo_timers = \<lparr>sl_db = empty_db\<lparr>db_outbox := [demo_timer ''o1'' ''later'', demo_timer ''o2'' ''garbage'']\<rparr>,
     sl_dead = [], sl_jobs = []\<rparr>"

definition demo_tick_env :: sla_env where
  "demo_tick_env = \<lparr>se_now = 0, se_deliveredAt = 0, se_parseDate = (\<lambda>s. if s = ''later'' then Some 5000 else None),
     se_locked = (\<lambda>_. False), se_deadFails = (\<lambda>_. False), se_addFails = (\<lambda>_. False)\<rparr>"

theorem sla_tick_accounts_witness:
  "distinct (map ob_id (db_outbox (sl_db demo_timers))) \<and> \<not> tickFails demo_tick_env demo_timers \<and>
   deadLetter (demo_timer ''o2'' ''garbage'') \<in> set (sl_dead (slaTick demo_tick_env demo_timers)) \<and>
   ''sla:o1'' \<in> sj_id ` set (sl_jobs (slaTick demo_tick_env demo_timers)) \<and>
   filter isSlaDue (db_outbox (sl_db (slaTick demo_tick_env demo_timers))) = []"
proof -
  have ids: "distinct (map ob_id (db_outbox (sl_db demo_timers)))" "distinct (map sj_id (sl_jobs demo_timers))"
    by (simp_all add: demo_timers_def demo_timer_def)
  have ok: "\<not> tickFails demo_tick_env demo_timers" by (simp add: tickFails_def demo_tick_env_def)
  have batch: "slaBatch demo_tick_env (sl_db demo_timers) = [demo_timer ''o1'' ''later'', demo_timer ''o2'' ''garbage'']"
    by (simp add: slaBatch_def sweepBatch_def BATCH_SIZE_def demo_timers_def demo_timer_def demo_tick_env_def selectW_def isSlaDue_def)
  have stale: "isStale demo_tick_env (demo_timer ''o2'' ''garbage'')" "\<not> isStale demo_tick_env (demo_timer ''o1'' ''later'')"
    by (simp_all add: isStale_def demo_tick_env_def demo_timer_def payloadText_def pgText_def STALE_SLA_THRESHOLD_MS_def)
  show ?thesis
    using sla_tick_accounts [OF ids, of demo_tick_env] ids ok stale
    by (simp add: batch slaJobId_def) (simp add: demo_timer_def demo_timers_def)
qed

section \<open>Breaches\<close>

text \<open>
  C23. A breach is reported exactly when the tenant is active and the record is, in the same
  transaction, in the state the timer was set for. It adds one event to the outbox and changes
  nothing else, and the automation engine accepts that event: it parses as a breach of that
  state, with the record's entity type.
\<close>
theorem breach_reported:
  assumes "jd_slaHours d = JNum h" "0 < h" "fm_isDatetime fm (toISOString (be_now env))"
    and "fm_isGuid fm (jd_tenantId d)" "fm_isGuid fm (jd_instanceId d)" "fm_isGuid fm (jd_workflowId d)"
    and "\<forall>inst \<in> set (db_instances db). fm_isGuid fm (ei_entityTypeId inst)"
  shows "(slaBreach env d db \<noteq> db \<longleftrightarrow> be_active env \<and>
      (\<exists>inst. select1 (isInstance (jd_tenantId d) (jd_instanceId d)) (db_instances db) = Some inst \<and>
         ei_currentState inst = jd_stateName d)) \<and>
    (slaBreach env d db \<noteq> db \<longrightarrow> (\<exists>row event inst.
       slaBreach env d db = db\<lparr>db_outbox := db_outbox db @ [row]\<rparr> \<and> ob_tenantId row = jd_tenantId d \<and>
       ob_deliveredAt row = None \<and> safeParse fm (JObj (ob_payload row)) = Some event \<and>
       eventTypeOf event = ''workflow.sla_breached'' \<and> objGet event ''state'' = JStr (jd_stateName d) \<and>
       objGet event ''instanceId'' = JStr (jd_instanceId d) \<and>
       inst \<in> set (db_instances db) \<and> objGet event ''entityTypeId'' = JStr (ei_entityTypeId inst)))"
proof -
  have grew: "db\<lparr>db_outbox := db_outbox db @ [row]\<rparr> \<noteq> db" for row
  proof
    assume "db\<lparr>db_outbox := db_outbox db @ [row]\<rparr> = db"
    from arg_cong [OF this, of db_outbox] show False by simp
  qed
  have event: "\<exists>event. safeParse fm (JObj (breachPayload env d t)) = Some event \<and>
      eventTypeOf event = ''workflow.sla_breached'' \<and> objGet event ''state'' = JStr (jd_stateName d) \<and>
      objGet event ''instanceId'' = JStr (jd_instanceId d) \<and> objGet event ''entityTypeId'' = JStr t"
    if "fm_isGuid fm t" for t
    using assms(1-6) that
    by (simp add: safeParse_def breachPayload_def TriggerEventSchema_def baseEvent_def req_def optional_def
        parseField_def acceptField_def eventTypeOf_def objGet_def)
  show ?thesis
  proof (cases "be_active env \<and> (\<exists>inst. select1 (isInstance (jd_tenantId d) (jd_instanceId d)) (db_instances db) = Some inst \<and>
      ei_currentState inst = jd_stateName d)")
    case True
    then obtain inst where inst: "be_active env" "select1 (isInstance (jd_tenantId d) (jd_instanceId d)) (db_instances db) = Some inst"
      "ei_currentState inst = jd_stateName d" by blast
    then have mem: "inst \<in> set (db_instances db)" by blast
    let ?row = "breachRow env d (ei_entityTypeId inst)"
    have run: "slaBreach env d db = db\<lparr>db_outbox := db_outbox db @ [?row]\<rparr>"
      using inst by (simp add: slaBreach_def insertRow_def)
    obtain event where ev: "safeParse fm (JObj (ob_payload ?row)) = Some event"
      "eventTypeOf event = ''workflow.sla_breached''" "objGet event ''state'' = JStr (jd_stateName d)"
      "objGet event ''instanceId'' = JStr (jd_instanceId d)" "objGet event ''entityTypeId'' = JStr (ei_entityTypeId inst)"
      using event [of "ei_entityTypeId inst"] assms(7) mem by (auto simp: breachRow_def)
    have "ob_tenantId ?row = jd_tenantId d" "ob_deliveredAt ?row = None" by (simp_all add: breachRow_def)
    then have "\<exists>row event inst. slaBreach env d db = db\<lparr>db_outbox := db_outbox db @ [row]\<rparr> \<and> ob_tenantId row = jd_tenantId d \<and>
       ob_deliveredAt row = None \<and> safeParse fm (JObj (ob_payload row)) = Some event \<and>
       eventTypeOf event = ''workflow.sla_breached'' \<and> objGet event ''state'' = JStr (jd_stateName d) \<and>
       objGet event ''instanceId'' = JStr (jd_instanceId d) \<and>
       inst \<in> set (db_instances db) \<and> objGet event ''entityTypeId'' = JStr (ei_entityTypeId inst)"
      using run ev mem by blast
    moreover have "slaBreach env d db \<noteq> db" unfolding run by (rule grew)
    ultimately show ?thesis using True by blast
  next
    case False
    then have "slaBreach env d db = db" by (auto simp: slaBreach_def split: option.splits)
    then show ?thesis using False by auto
  qed
qed

definition demo_formats :: formats where
  "demo_formats = \<lparr>fm_isGuid = (\<lambda>s. s \<in> {''t1'', ''i1'', ''w1'', ''et1''}), fm_isDatetime = (\<lambda>s. s = toISOString 7)\<rparr>"

definition demo_job :: SlaJobData where
  "demo_job = \<lparr>jd_outboxEventId = ''o1'', jd_tenantId = ''t1'', jd_instanceId = ''i1'', jd_workflowId = ''w1'',
     jd_stateName = ''A'', jd_slaHours = JNum 4, jd_fireAt = ''later''\<rparr>"

definition demo_breach_env :: breach_env where
  "demo_breach_env = \<lparr>be_active = True, be_now = 7, be_rowId = ''o9'', be_dbNow = 8\<rparr>"

definition demo_stay :: wf_db where
  "demo_stay = empty_db\<lparr>
     db_instances := [\<lparr>ei_id = ''i1'', ei_entityTypeId = ''et1'', ei_tenantId = ''t1'', ei_workflowId = Some ''w1'',
       ei_currentState = ''A'', ei_fields = [], ei_createdBy = None, ei_assignedTo = None, ei_updatedAt = 0\<rparr>]\<rparr>"

theorem breach_reported_witness:
  "slaBreach demo_breach_env demo_job demo_stay \<noteq> demo_stay \<and>
   (\<exists>row event. slaBreach demo_breach_env demo_job demo_stay = demo_stay\<lparr>db_outbox := db_outbox demo_stay @ [row]\<rparr> \<and>
      safeParse demo_formats (JObj (ob_payload row)) = Some event \<and> objGet event ''state'' = JStr ''A'')"
proof -
  have hyps: "jd_slaHours demo_job = JNum 4" "0 < (4 :: rat)"
    "fm_isDatetime demo_formats (toISOString (be_now demo_breach_env))"
    "fm_isGuid demo_formats (jd_tenantId demo_job)" "fm_isGuid demo_formats (jd_instanceId demo_job)"
    "fm_isGuid demo_formats (jd_workflowId demo_job)"
    "\<forall>inst \<in> set (db_instances demo_stay). fm_isGuid demo_formats (ei_entityTypeId inst)"
    by (simp_all add: demo_job_def demo_formats_def demo_breach_env_def demo_stay_def)
  have "be_active demo_breach_env \<and>
      (\<exists>inst. select1 (isInstance (jd_tenantId demo_job) (jd_instanceId demo_job)) (db_instances demo_stay) = Some inst \<and>
         ei_currentState inst = jd_stateName demo_job)"
    by (simp add: demo_breach_env_def demo_job_def demo_stay_def isInstance_def select1_def)
  moreover have "jd_stateName demo_job = ''A''" by (simp add: demo_job_def)
  ultimately show ?thesis using breach_reported [OF hyps] by metis
qed

section \<open>A record that comes back to a state\<close>

text \<open>
  The breacher compares the record's state with the state the timer was set for and looks at
  nothing else of the stay: the timer row the job came from and the time it was due have no
  influence. A job queued for a first stay in a state therefore reports a breach while the
  record is in a second, later stay, whose own timer is still pending.
\<close>

lemma breach_forgets_stay:
  "slaBreach env (d\<lparr>jd_outboxEventId := ob, jd_fireAt := due\<rparr>) db = slaBreach env d db"
  by (simp add: slaBreach_def breachRow_def breachPayload_def split: option.split)

lemma breach_of_an_earlier_stay:
  "map ob_eventType (db_outbox (slaBreach demo_breach_env demo_job
     (demo_stay\<lparr>db_outbox := [demo_timer ''o2'' ''much later'']\<rparr>))) = [slaScheduled, ''workflow.sla_breached'']"
  by (simp add: slaBreach_def demo_breach_env_def demo_job_def demo_stay_def isInstance_def select1_def
      insertRow_def breachRow_def demo_timer_def)

end
