(* ===== verification/AutomationProps.thy ===== *)
theory AutomationProps
  imports Automation
begin

text \<open>
  What the automation executor promises about its execution log: it only grows, every new entry
  is justified by an enabled rule of the tenant, a rule that has succeeded for a transition is
  not run for it again, and a failed rule leaves no trace but its log entry. The executor one
  level deeper is used through an interface, so that each level is proved from the next.
\<close>

section \<open>Growth of the log\<close>

definition goodRow ::
  "string \<Rightarrow> string option set \<Rightarrow> auto_db \<Rightarrow> automation_executions_row \<Rightarrow> bool" where
  "goodRow tid T db r \<longleftrightarrow> ae_tenantId r = tid \<and> ae_transitionEventId r \<in> T \<and> ae_status r \<noteq> ExRunning \<and>
     \<not> alreadyDone db tid (ae_ruleId r) (ae_transitionEventId r) \<and>
     (\<exists>rule \<in> set (adb_rules db). ar_id rule = ae_ruleId r \<and> ar_tenantId rule = tid \<and> ar_isEnabled rule \<and>
        ar_triggerType rule = eventTypeOf (ae_triggerEvent r) \<and> rulePasses db tid (ae_triggerEvent r) rule)"

definition grows :: "string \<Rightarrow> string option set \<Rightarrow> auto_db \<Rightarrow> auto_db \<Rightarrow> bool" where
  "grows tid T db db' \<longleftrightarrow> adb_rules db' = adb_rules db \<and> adb_entityTypes db' = adb_entityTypes db \<and>
     (\<exists>new. adb_executions db' = adb_executions db @ new \<and> (\<forall>r \<in> set new. goodRow tid T db r))"

lemma growsE:
  assumes "grows tid T db db'"
  obtains new where "adb_rules db' = adb_rules db" "adb_entityTypes db' = adb_entityTypes db"
    "adb_executions db' = adb_executions db @ new" "\<forall>r \<in> set new. goodRow tid T db r"
  using assms by (auto simp: grows_def)

lemma rulePasses_types:
  assumes "adb_entityTypes db' = adb_entityTypes db"
  shows "rulePasses db' tid event rule = rulePasses db tid event rule"
proof -
  have "resolveEntityTypeName db' tid = resolveEntityTypeName db tid"
    by (rule ext) (simp add: resolveEntityTypeName_def assms)
  then show ?thesis by (simp add: rulePasses_def)
qed

lemma alreadyDone_mono:
  "adb_executions db' = adb_executions db @ new \<Longrightarrow> alreadyDone db tid i teid \<Longrightarrow> alreadyDone db' tid i teid"
  by (auto simp: alreadyDone_def select1_def find_None_iff split: option.splits)

lemma goodRow_later:
  assumes "goodRow tid T db1 r" "adb_rules db1 = adb_rules db" "adb_entityTypes db1 = adb_entityTypes db"
    and "adb_executions db1 = adb_executions db @ new"
  shows "goodRow tid T db r"
  using assms(1,2) alreadyDone_mono [OF assms(4)] by (auto simp: goodRow_def rulePasses_types [OF assms(3)])

lemma goodRow_settle: "goodRow tid T db r \<Longrightarrow> goodRow tid T db (settle now result r)"
  by (auto simp: goodRow_def settle_def finalStatus_def split: sum.splits prod.splits)

lemma grows_refl [simp]: "grows tid T db db" by (simp add: grows_def)

lemma grows_wf [simp]: "grows tid T db (db\<lparr>adb_wf := w\<rparr>)" by (simp add: grows_def)

lemma grows_trans:
  assumes "grows tid T db db1" "grows tid T db1 db2"
  shows "grows tid T db db2"
proof -
  obtain new1 where 1: "adb_rules db1 = adb_rules db" "adb_entityTypes db1 = adb_entityTypes db"
    "adb_executions db1 = adb_executions db @ new1" "\<forall>r \<in> set new1. goodRow tid T db r"
    by (rule growsE [OF assms(1)])
  obtain new2 where 2: "adb_rules db2 = adb_rules db1" "adb_entityTypes db2 = adb_entityTypes db1"
    "adb_executions db2 = adb_executions db1 @ new2" "\<forall>r \<in> set new2. goodRow tid T db1 r"
    by (rule growsE [OF assms(2)])
  have "\<forall>r \<in> set (new1 @ new2). goodRow tid T db r"
    using 1(4) 2(4) goodRow_later [OF _ 1(1-3)] by auto
  then show ?thesis unfolding grows_def using 1 2 by (intro conjI exI [of _ "new1 @ new2"]) simp_all
qed

lemma updateW_none: "\<forall>r \<in> set rows. \<not> P r \<Longrightarrow> updateW P f rows = rows"
  by (auto simp: updateW_def intro: map_idI)

text \<open>Giving a row a status other than success takes it out of the unique index.\<close>

lemma successClash_settle:
  assumes "\<not> successClash rows" "finalStatus result \<noteq> ExSuccess"
  shows "\<not> successClash (updateW P (settle now result) rows)"
proof -
  let ?S = "\<lambda>r. ae_transitionEventId r \<noteq> None \<and> ae_status r = ExSuccess"
  have "filter ?S (updateW P (settle now result) rows) = filter (\<lambda>r. \<not> P r) (filter ?S rows)"
    using assms(2) by (induction rows) (auto simp: updateW_def settle_def)
  moreover have "distinct (map (\<lambda>r. (ae_ruleId r, ae_transitionEventId r)) (filter (\<lambda>r. \<not> P r) (filter ?S rows)))"
    by (rule distinct_map_filter) (use assms(1) in \<open>simp add: successClash_def\<close>)
  ultimately show ?thesis unfolding successClash_def by (simp only: not_not not_False_eq_True)
qed

lemma successClash_running:
  "successClash (rows @ [r\<lparr>ae_status := ExRunning\<rparr>]) = successClash rows"
  by (simp add: successClash_def)

text \<open>The parts of a rule's run: its log entry, its actions, what they leave and the settled entry.\<close>

lemma runRule_cases:
  assumes "runRule env followUp depth tid event teid rule (side, db) = (side', Inr db')"
  obtains row db1 call result db2 where
    "row = newExecution env side tid rule event teid" "db1 = db\<lparr>adb_executions := adb_executions db @ [row]\<rparr>"
    "\<forall>a. cl_tenantId (call a) = tid \<and> cl_action (call a) = a"
    "runActions (\<lambda>a. runAction env followUp (call a)) (ar_actions rule) 0 (tick side, db1) = (side', result)"
    "db2 = (case result of Inl _ \<Rightarrow> db1 | Inr (_, d) \<Rightarrow> d)" "ae_id row \<notin> ae_id ` set (adb_executions db)"
    "db' = db2\<lparr>adb_executions := updateW (\<lambda>r. ae_id r = ae_id row) (settle (ax_now env (sd_tick side')) result)
       (adb_executions db2)\<rparr>"
    "finalStatus result = ExSuccess \<longrightarrow> \<not> successClash (adb_executions db')"
proof -
  define row where "row = newExecution env side tid rule event teid"
  define db1 where "db1 = db\<lparr>adb_executions := insertRow row (adb_executions db)\<rparr>"
  define call where "call = (\<lambda>a. \<lparr>cl_tenantId = tid, cl_ruleId = ar_id rule, cl_ruleName = ar_name rule,
      cl_execId = ae_id row, cl_event = event, cl_action = a, cl_depth = depth\<rparr>)"
  obtain side1 result where acts:
    "runActions (\<lambda>a. runAction env followUp (call a)) (ar_actions rule) 0 (tick side, db1) = (side1, result)"
    by (meson surj_pair)
  have run: "(if list_ex (\<lambda>r. ae_id r = ae_id row) (adb_executions db) then (side, Inl (DatabaseFailure ''automation_executions_pkey''))
      else (let (side1, result) = runActions (\<lambda>a. runAction env followUp (call a)) (ar_actions rule) 0 (tick side, db1);
                db2 = (case result of Inl _ \<Rightarrow> db1 | Inr (_, d) \<Rightarrow> d);
                rows = updateW (\<lambda>r. ae_id r = ae_id row) (settle (ax_now env (sd_tick side1)) result) (adb_executions db2)
            in if finalStatus result = ExSuccess \<and> successClash rows
               then (side1, Inl (DatabaseFailure ''automation_executions_rule_transition_success_idx''))
               else (side1, Inr (db2\<lparr>adb_executions := rows\<rparr>)))) = (side', Inr db')"
    using assms by (simp only: runRule_def Let_def row_def db1_def call_def prod.case)
  define db2 where "db2 = (case result of Inl _ \<Rightarrow> db1 | Inr (_, d) \<Rightarrow> d)"
  have "\<forall>r \<in> set (adb_executions db). ae_id r \<noteq> ae_id row"
    using run by (auto simp: list_ex_iff split: if_splits)
  then have "ae_id row \<notin> ae_id ` set (adb_executions db)" by (metis imageE)
  moreover have "side' = side1"
    "db' = db2\<lparr>adb_executions := updateW (\<lambda>r. ae_id r = ae_id row) (settle (ax_now env (sd_tick side1)) result)
       (adb_executions db2)\<rparr>"
    "finalStatus result = ExSuccess \<longrightarrow> \<not> successClash (adb_executions db')"
    using run acts by (auto simp: Let_def db2_def split: if_splits)
  moreover have "db1 = db\<lparr>adb_executions := adb_executions db @ [row]\<rparr>" by (simp add: db1_def insertRow_def)
  moreover have "\<forall>a. cl_tenantId (call a) = tid \<and> cl_action (call a) = a" by (simp add: call_def)
  ultimately show ?thesis using that [OF row_def _ _ _ db2_def] acts by blast
qed

text \<open>
  What the current level relies on: the level below only lets the log grow, by good entries. The
  identities a level may use are the one it was called with and those of new transitions.
\<close>

locale follow_up =
  fixes env :: auto_env and tid :: string and T :: "string option set"
    and followUp :: "jsval \<Rightarrow> string option \<Rightarrow> auto_state \<Rightarrow> auto_db outcome"
  assumes fresh: "Some (env_randomUUID (ax_wf env k)) \<in> T"
    and deeper: "followUp raw teid (side, db) = (side', Inr db') \<Longrightarrow> teid \<in> T \<Longrightarrow> grows tid T db db'"
    and deeper_unique: "followUp raw teid (side, db) = (side', Inr db') \<Longrightarrow>
      \<not> successClash (adb_executions db) \<Longrightarrow> \<not> successClash (adb_executions db')"
begin

lemma transition_grows:
  assumes "executeTransitionAction env followUp tid event c depth (side, db) = (side', Inr db')"
  shows "grows tid T db db'"
proof -
  have uuid: "wev_transitionEventId e \<in> T"
    if "executeTransition (ax_wf env k) w tid (automationRequest i c depth) = Inr (e, w')" for k w i e w'
    using that fresh by (auto simp: executeTransition_def findReplay_def automationRequest_def result_simps
        commitStateChange_def transitionChange_def rowToEvent_def EventCore.defs Let_def split: option.splits)
  show ?thesis
    using assms uuid by (auto simp: executeTransitionAction_def Let_def
        split: option.splits if_splits sum.splits prod.splits intro: grows_trans [OF grows_wf deeper])
qed

lemma performAction_grows:
  "performAction env followUp call (side, db) = (side', Inr db') \<Longrightarrow> cl_tenantId call = tid \<Longrightarrow> grows tid T db db'"
proof (cases "cl_action call")
  case (ActTransition c)
  assume "performAction env followUp call (side, db) = (side', Inr db')" "cl_tenantId call = tid"
  then show ?thesis using ActTransition transition_grows by (simp add: performAction_def)
qed (auto simp: performAction_def split: sum.splits)

lemma runAction_grows:
  "runAction env followUp call (side, db) = (side', Inr (skip, db')) \<Longrightarrow> cl_tenantId call = tid \<Longrightarrow> grows tid T db db'"
  by (auto simp: runAction_def Let_def split: if_splits prod.splits sum.splits dest: performAction_grows)

lemma runActions_grows:
  assumes "\<And>a. cl_tenantId (call a) = tid"
  shows "runActions (\<lambda>a. runAction env followUp (call a)) as n (side, db) = (side', Inr (m, db')) \<Longrightarrow> grows tid T db db'"
proof (induction as arbitrary: n side db)
  case (Cons a as)
  then obtain side1 skip db1 where step: "runAction env followUp (call a) (side, db) = (side1, Inr (skip, db1))"
    and rest: "runActions (\<lambda>a. runAction env followUp (call a)) as (if skip then n + 1 else n) (side1, db1) = (side', Inr (m, db'))"
    by (auto split: prod.splits sum.splits)
  show ?case
    using grows_trans [OF runAction_grows [OF step assms] Cons.IH [OF rest]] .
qed simp

lemma runRule_grows:
  assumes run: "runRule env followUp depth tid event teid rule (side, db) = (side', Inr db')"
    and "teid \<in> T" "rule \<in> set (matchingRules db tid event)" "rulePasses db tid event rule"
    and "\<not> alreadyDone db tid (ar_id rule) teid"
  shows "grows tid T db db'"
proof -
  obtain row db1 call result db2 where row: "row = newExecution env side tid rule event teid"
    and db1: "db1 = db\<lparr>adb_executions := adb_executions db @ [row]\<rparr>"
    and call: "\<forall>a. cl_tenantId (call a) = tid \<and> cl_action (call a) = a"
    and acts: "runActions (\<lambda>a. runAction env followUp (call a)) (ar_actions rule) 0 (tick side, db1) = (side', result)"
    and db2: "db2 = (case result of Inl _ \<Rightarrow> db1 | Inr (_, d) \<Rightarrow> d)"
    and new: "ae_id row \<notin> ae_id ` set (adb_executions db)"
    and db': "db' = db2\<lparr>adb_executions := updateW (\<lambda>r. ae_id r = ae_id row) (settle (ax_now env (sd_tick side')) result)
       (adb_executions db2)\<rparr>"
    and "finalStatus result = ExSuccess \<longrightarrow> \<not> successClash (adb_executions db')"
    by (rule runRule_cases [OF run])
  let ?set = "settle (ax_now env (sd_tick side')) result"
  have "grows tid T db1 db2"
  proof (cases result)
    case (Inr x)
    obtain m d where "x = (m, d)" by (cases x)
    then have r: "result = Inr (m, d)" using Inr by simp
    show ?thesis using runActions_grows [OF _ acts [unfolded r]] call by (simp add: db2 r)
  qed (simp add: db2)
  then obtain more where more: "adb_rules db2 = adb_rules db1" "adb_entityTypes db2 = adb_entityTypes db1"
    "adb_executions db2 = adb_executions db1 @ more" "\<forall>r \<in> set more. goodRow tid T db1 r"
    by (rule growsE)
  have "goodRow tid T db (row\<lparr>ae_status := ExFailed\<rparr>)"
    using assms(2-) by (auto simp: goodRow_def row newExecution_def matchingRules_def orderRules_def)
  then have "goodRow tid T db (?set row)"
    using goodRow_settle by (fastforce simp: settle_def)
  moreover have "goodRow tid T db r" if "r \<in> set more" for r
    using more(4) that by (intro goodRow_later [of tid T db1 r db "[row]"]) (simp_all add: db1)
  moreover have "updateW (\<lambda>r. ae_id r = ae_id row) ?set (adb_executions db) = adb_executions db"
    using new by (intro updateW_none) (metis image_eqI)
  ultimately show ?thesis
    unfolding grows_def db' using more(1-3)
    by (intro conjI exI [of _ "?set row # updateW (\<lambda>r. ae_id r = ae_id row) ?set more"])
      (auto simp: db1 updateW_def goodRow_settle)
qed

lemma performAction_unique:
  "performAction env followUp call (side, db) = (side', Inr db') \<Longrightarrow>
   \<not> successClash (adb_executions db) \<Longrightarrow> \<not> successClash (adb_executions db')"
  by (cases "cl_action call") (auto simp: performAction_def executeTransitionAction_def Let_def
      split: sum.splits option.splits if_splits prod.splits dest: deeper_unique)

lemma runActions_unique:
  "runActions (\<lambda>a. runAction env followUp (call a)) as n (side, db) = (side', Inr (m, db')) \<Longrightarrow>
   \<not> successClash (adb_executions db) \<Longrightarrow> \<not> successClash (adb_executions db')"
proof (induction as arbitrary: n side db)
  case (Cons a as)
  then obtain side1 skip db1 where step: "runAction env followUp (call a) (side, db) = (side1, Inr (skip, db1))"
    and rest: "runActions (\<lambda>a. runAction env followUp (call a)) as (if skip then n + 1 else n) (side1, db1) = (side', Inr (m, db'))"
    by (auto split: prod.splits sum.splits)
  have "\<not> successClash (adb_executions db1)"
    using step Cons.prems(2)
    by (auto simp: runAction_def Let_def split: if_splits prod.splits sum.splits dest: performAction_unique)
  then show ?case using Cons.IH [OF rest] by simp
qed simp

lemma runRule_unique:
  assumes "runRule env followUp depth tid event teid rule (side, db) = (side', Inr db')"
    and "\<not> successClash (adb_executions db)"
  shows "\<not> successClash (adb_executions db')"
proof -
  obtain row db1 call result db2 where row: "row = newExecution env side tid rule event teid"
    and db1: "db1 = db\<lparr>adb_executions := adb_executions db @ [row]\<rparr>"
    and "\<forall>a. cl_tenantId (call a) = tid \<and> cl_action (call a) = a"
    and acts: "runActions (\<lambda>a. runAction env followUp (call a)) (ar_actions rule) 0 (tick side, db1) = (side', result)"
    and db2: "db2 = (case result of Inl _ \<Rightarrow> db1 | Inr (_, d) \<Rightarrow> d)"
    and "ae_id row \<notin> ae_id ` set (adb_executions db)"
    and db': "db' = db2\<lparr>adb_executions := updateW (\<lambda>r. ae_id r = ae_id row) (settle (ax_now env (sd_tick side')) result)
       (adb_executions db2)\<rparr>"
    and succ: "finalStatus result = ExSuccess \<longrightarrow> \<not> successClash (adb_executions db')"
    by (rule runRule_cases [OF assms(1)])
  have "row = row\<lparr>ae_status := ExRunning\<rparr>" by (simp add: row newExecution_def)
  then have 1: "\<not> successClash (adb_executions db1)"
    using assms(2) successClash_running [of _ row] by (simp add: db1)
  have "\<not> successClash (adb_executions db2)"
    using acts 1 runActions_unique by (auto simp: db2 split: sum.splits prod.splits)
  then show ?thesis
    using succ successClash_settle by (cases "finalStatus result = ExSuccess") (auto simp: db')
qed

lemma considerRules_unique:
  assumes "considerRules (considerRule env followUp depth tid event teid) rules (side, db) = (side', Inr db')"
    and "\<not> successClash (adb_executions db)"
  shows "\<not> successClash (adb_executions db')"
  using assms
proof (induction rules arbitrary: side db)
  case (Cons r rs)
  then obtain side1 db1 where step: "considerRule env followUp depth tid event teid r (side, db) = (side1, Inr db1)"
    and rest: "considerRules (considerRule env followUp depth tid event teid) rs (side1, db1) = (side', Inr db')"
    by (auto split: prod.splits sum.splits)
  have "\<not> successClash (adb_executions db1)"
    using step Cons.prems(2) by (auto simp: considerRule_def split: if_splits dest: runRule_unique)
  then show ?case using Cons.IH [OF rest] by simp
qed simp

lemma considerRule_grows:
  "considerRule env followUp depth tid event teid rule (side, db) = (side', Inr db') \<Longrightarrow>
   teid \<in> T \<Longrightarrow> rule \<in> set (matchingRules db tid event) \<Longrightarrow> grows tid T db db'"
  by (auto simp: considerRule_def split: if_splits dest: runRule_grows)

lemma considerRules_grows:
  assumes "considerRules (considerRule env followUp depth tid event teid) rules (side, db) = (side', Inr db')"
    and "teid \<in> T" "set rules \<subseteq> set (matchingRules db tid event)"
  shows "grows tid T db db'"
  using assms(1,3)
proof (induction rules arbitrary: side db)
  case (Cons r rs)
  then obtain side1 db1 where step: "considerRule env followUp depth tid event teid r (side, db) = (side1, Inr db1)"
    and rest: "considerRules (considerRule env followUp depth tid event teid) rs (side1, db1) = (side', Inr db')"
    by (auto split: prod.splits sum.splits)
  have g: "grows tid T db db1" using considerRule_grows [OF step assms(2)] Cons.prems(2) by simp
  then have "matchingRules db1 tid event = matchingRules db tid event" by (auto simp: matchingRules_def grows_def)
  then show ?case using grows_trans [OF g Cons.IH [OF rest]] Cons.prems(2) by simp
qed simp

end

lemma rulesAt_follow_up:
  assumes "\<forall>k. Some (env_randomUUID (ax_wf env k)) \<in> T"
  shows "follow_up env tid T (rulesAt n env tid)"
proof (induction n)
  case 0
  show ?case by unfold_locales (use assms in auto)
next
  case (Suc n)
  show ?case
  proof (unfold_locales, goal_cases)
    case (1 k)
    then show ?case using assms by simp
  next
    case (2 raw teid side db side' db')
    then show ?case using follow_up.considerRules_grows [OF Suc] by (auto split: option.splits)
  next
    case (3 raw teid side db side' db')
    then show ?case using follow_up.considerRules_unique [OF Suc] by (auto split: option.splits)
  qed
qed

text \<open>The identities a call may write: its own and those of the transitions it makes.\<close>

definition identities :: "auto_env \<Rightarrow> string option \<Rightarrow> string option set" where
  "identities env teid = insert teid (range (\<lambda>k. Some (env_randomUUID (ax_wf env k))))"

interpretation level: follow_up env tid "identities env teid" "rulesAt n env tid" for env tid teid n
  by (rule rulesAt_follow_up) (auto simp: identities_def)

lemma execute_grows:
  "executeAutomationRules env depth tid raw teid (side, db) = (side', Inr db') \<Longrightarrow>
   grows tid (identities env teid) db db'"
  unfolding executeAutomationRules_def by (erule level.deeper) (simp add: identities_def)

lemma execute_unique:
  "executeAutomationRules env depth tid raw teid (side, db) = (side', Inr db') \<Longrightarrow>
   \<not> successClash (adb_executions db) \<Longrightarrow> \<not> successClash (adb_executions db')"
  unfolding executeAutomationRules_def by (rule level.deeper_unique)

section \<open>A concrete tenant\<close>

definition demo_rule :: "string \<Rightarrow> ActionConfig list \<Rightarrow> AutomationRule" where
  "demo_rule i acts = \<lparr>ar_id = i, ar_tenantId = ''t1'', ar_name = i, ar_isEnabled = True, ar_triggerType = ''entity.created'',
     ar_triggerConfig = Some [], ar_conditions = None, ar_actions = acts, ar_priority = 0, ar_createdAt = 0, ar_updatedAt = 0\<rparr>"

definition demo_auto :: auto_db where
  "demo_auto = \<lparr>adb_wf = empty_db, adb_entityTypes = [],
     adb_rules = [demo_rule ''r1'' [ActNotify []], demo_rule ''r2'' [ActSetField [], ActWebhook []]],
     adb_executions = []\<rparr>"

definition demo_event :: jsobj where
  "demo_event = [(''version'', JNum 1), (''tenantId'', JStr ''t1''), (''eventType'', JStr ''entity.created''),
     (''instanceId'', JStr ''i1''), (''entityTypeId'', JStr ''et1''), (''fields'', JObj []), (''createdBy'', JNull)]"

definition demo_auto_env :: auto_env where
  "demo_auto_env = \<lparr>ax_formats = \<lparr>fm_isGuid = (\<lambda>_. True), fm_isDatetime = (\<lambda>_. True)\<rparr>, ax_redis = True,
     ax_rowId = (\<lambda>k. replicate (Suc k) (CHR ''x'')), ax_now = int, 
     ax_wf = (\<lambda>k. \<lparr>env_rowId = (\<lambda>j. replicate (Suc j) (CHR ''w'')), env_randomUUID = replicate (Suc k) (CHR ''u''),
       env_occurredAt = 0, env_cancelledAt = 0, env_dbNow = 0, env_lock = (\<lambda>_. LockGranted),
       env_rejectEmptySet = False, env_workflowReferenced = (\<lambda>_. False)\<rparr>),
     ax_handler = (\<lambda>k call w. case cl_action call of ActWebhook _ \<Rightarrow> Inl ''timeout'' | _ \<Rightarrow> Inr w)\<rparr>"

definition demo_side :: "nat \<Rightarrow> auto_side" where
  "demo_side k = \<lparr>sd_redis = Map.empty, sd_tick = k\<rparr>"

definition demo_call :: "nat \<Rightarrow> auto_db \<Rightarrow> auto_db outcome" where
  "demo_call k db = executeAutomationRules demo_auto_env 0 ''t1'' (JObj demo_event) (Some ''te'') (demo_side k, db)"

definition demo_tables :: "auto_db outcome \<Rightarrow> auto_db" where
  "demo_tables x = (case snd x of Inl _ \<Rightarrow> demo_auto | Inr db \<Rightarrow> db)"

lemma demo_calls:
  "\<not> isl (snd (demo_call 0 demo_auto))" "\<not> isl (snd (demo_call 10 (demo_tables (demo_call 0 demo_auto))))"
  "map ae_status (adb_executions (demo_tables (demo_call 0 demo_auto))) = [ExSuccess, ExFailed]"
  by code_simp+

lemma demo_call_Inr:
  assumes "\<not> isl (snd (demo_call k db))"
  shows "executeAutomationRules demo_auto_env 0 ''t1'' (JObj demo_event) (Some ''te'') (demo_side k, db) =
    (fst (demo_call k db), Inr (demo_tables (demo_call k db)))"
  using assms by (cases "demo_call k db"; cases "snd (demo_call k db)") (auto simp: demo_tables_def demo_call_def)

section \<open>The properties\<close>

text \<open>
  C19. The execution log only grows, and every new entry is justified: it is finished, belongs to
  the calling tenant, and names an enabled rule of that tenant whose trigger type is the type of
  the recorded event, whose scope contains the event and whose conditions the event satisfies.
  This includes the entries of rules that fire in a chain of automatic transitions.
\<close>
theorem automation_justified:
  assumes "executeAutomationRules env depth tid raw teid (side, db) = (side', Inr db')"
  shows "adb_rules db' = adb_rules db \<and> (\<exists>new. adb_executions db' = adb_executions db @ new \<and>
    (\<forall>r \<in> set new. ae_tenantId r = tid \<and> ae_status r \<noteq> ExRunning \<and>
       (\<exists>rule \<in> set (adb_rules db). ar_id rule = ae_ruleId r \<and> ar_tenantId rule = tid \<and> ar_isEnabled rule \<and>
          ar_triggerType rule = eventTypeOf (ae_triggerEvent r) \<and>
          ruleInScope (ar_triggerConfig rule) (ae_triggerEvent r) (resolveEntityTypeName db tid) \<and>
          evaluateConditionTree (ar_conditions rule) (eventFields (ae_triggerEvent r)) None)))"
proof -
  obtain new where new: "adb_rules db' = adb_rules db" "adb_executions db' = adb_executions db @ new"
    "\<forall>r \<in> set new. goodRow tid (identities env teid) db r"
    by (rule growsE [OF execute_grows [OF assms]])
  then show ?thesis by (intro conjI exI [of _ new]) (auto simp: goodRow_def rulePasses_def)
qed

theorem automation_justified_witness:
  "\<exists>new. adb_executions (demo_tables (demo_call 0 demo_auto)) = new \<and> map ae_ruleId new = [''r1'', ''r2''] \<and>
     (\<forall>r \<in> set new. ae_tenantId r = ''t1'' \<and> (\<exists>rule \<in> set (adb_rules demo_auto). ar_id rule = ae_ruleId r))"
proof -
  note run = automation_justified [OF demo_call_Inr [OF demo_calls(1)]]
  moreover have "map ae_ruleId (adb_executions (demo_tables (demo_call 0 demo_auto))) = [''r1'', ''r2'']" by code_simp
  moreover have "adb_executions demo_auto = []" by (simp add: demo_auto_def)
  ultimately show ?thesis by fastforce
qed

text \<open>What may happen over time: calls for any tenant, other writes, maintenance of the rules.\<close>

inductive automation_steps :: "auto_db \<Rightarrow> auto_db \<Rightarrow> bool" for db where
  stay: "automation_steps db db"
| call: "automation_steps db db1 \<Longrightarrow>
    executeAutomationRules env depth tid raw teid (side, db1) = (side', Inr db2) \<Longrightarrow> automation_steps db db2"
| elsewhere: "automation_steps db db1 \<Longrightarrow> automation_steps db (db1\<lparr>adb_wf := w, adb_entityTypes := ets, adb_rules := rs\<rparr>)"

text \<open>
  C20. A rule succeeds at most once per transition. Along any sequence of calls (the
  in-process call after a transition, the worker's call for its outbox row, retries), with other
  work in between, a rule has at most one successful execution for a transition; once it has one,
  no later call adds any entry for that rule and that transition.
\<close>
theorem automation_once:
  assumes "automation_steps db db'" "\<not> successClash (adb_executions db)"
  shows "\<not> successClash (adb_executions db') \<and>
    (alreadyDone db tid ruleId (Some teid) \<longrightarrow>
       filter (\<lambda>r. ae_tenantId r = tid \<and> ae_ruleId r = ruleId \<and> ae_transitionEventId r = Some teid) (adb_executions db') =
       filter (\<lambda>r. ae_tenantId r = tid \<and> ae_ruleId r = ruleId \<and> ae_transitionEventId r = Some teid) (adb_executions db) \<and>
       alreadyDone db' tid ruleId (Some teid))"
  using assms(1)
proof induction
  case (call db1 env depth tid1 raw teid1 side side' db2)
  obtain new where new: "adb_executions db2 = adb_executions db1 @ new"
    "\<forall>r \<in> set new. goodRow tid1 (identities env teid1) db1 r"
    by (rule growsE [OF execute_grows [OF call.hyps(2)]])
  have "filter (\<lambda>r. ae_tenantId r = tid \<and> ae_ruleId r = ruleId \<and> ae_transitionEventId r = Some teid) new = []"
    if "alreadyDone db1 tid ruleId (Some teid)"
    using new(2) that by (auto simp: filter_empty_conv goodRow_def)
  then show ?case
    using call.IH execute_unique [OF call.hyps(2)] alreadyDone_mono [OF new(1)] new(1) by auto
next
  case (elsewhere db1 w ets rs)
  then show ?case by (simp add: alreadyDone_def)
qed (use assms(2) in simp)

theorem automation_once_witness:
  "length (filter (\<lambda>r. ae_tenantId r = ''t1'' \<and> ae_ruleId r = ''r1'' \<and> ae_transitionEventId r = Some ''te'')
     (adb_executions (demo_tables (demo_call 10 (demo_tables (demo_call 0 demo_auto)))))) = 1"
proof -
  let ?db = "demo_tables (demo_call 0 demo_auto)"
  have steps: "automation_steps ?db (demo_tables (demo_call 10 ?db))"
    by (rule automation_steps.call [OF automation_steps.stay demo_call_Inr [OF demo_calls(2)]])
  have "\<not> successClash (adb_executions ?db)" "alreadyDone ?db ''t1'' ''r1'' (Some ''te'')"
    "length (filter (\<lambda>r. ae_tenantId r = ''t1'' \<and> ae_ruleId r = ''r1'' \<and> ae_transitionEventId r = Some ''te'')
       (adb_executions ?db)) = 1"
    by code_simp+
  then show ?thesis using automation_once [OF steps, of "''t1''" "''r1''" "''te''"] by simp
qed

lemma runActions_all_open:
  assumes "ax_redis env" "\<forall>a \<in> set as. isOpen (ax_now env (sd_tick side)) (sd_redis side) tid (actionType a)"
    and "\<And>a. cl_tenantId (call a) = tid \<and> cl_action (call a) = a"
  shows "runActions (\<lambda>a. runAction env followUp (call a)) as n (side, db) = (side, Inr (n + length as, db))"
  using assms(2) by (induction as arbitrary: n) (simp_all add: runAction_def assms(1,3))

text \<open>
  A rule is all or nothing. When its execution is recorded as failed, the workflow tables are
  exactly as before the rule ran, whichever of its actions failed and whatever the earlier ones
  (and the rules those triggered) had written: the log entry with the error is all that remains.
  When the circuits of all its actions are open, nothing is called and the execution is recorded
  as degraded.
\<close>
theorem rule_atomic:
  assumes "runRule env followUp depth tid event teid rule (side, db) = (side', Inr db')"
    and "row \<in> set (adb_executions db')" "ae_id row = ax_rowId env (sd_tick side)"
  shows "(ae_status row = ExFailed \<longrightarrow>
      adb_wf db' = adb_wf db \<and> adb_executions db' = adb_executions db @ [row] \<and> ae_error row \<noteq> None) \<and>
    (ax_redis env \<and> ar_actions rule \<noteq> [] \<and>
     (\<forall>a \<in> set (ar_actions rule). isOpen (ax_now env (sd_tick side + 1)) (sd_redis side) tid (actionType a)) \<longrightarrow>
      ae_status row = ExDegraded \<and> adb_wf db' = adb_wf db \<and> sd_redis side' = sd_redis side)"
proof -
  obtain new db1 call result db2 where new: "new = newExecution env side tid rule event teid"
    and db1: "db1 = db\<lparr>adb_executions := adb_executions db @ [new]\<rparr>"
    and call: "\<forall>a. cl_tenantId (call a) = tid \<and> cl_action (call a) = a"
    and acts: "runActions (\<lambda>a. runAction env followUp (call a)) (ar_actions rule) 0 (tick side, db1) = (side', result)"
    and db2: "db2 = (case result of Inl _ \<Rightarrow> db1 | Inr (_, d) \<Rightarrow> d)"
    and fresh: "ae_id new \<notin> ae_id ` set (adb_executions db)"
    and db': "db' = db2\<lparr>adb_executions := updateW (\<lambda>r. ae_id r = ae_id new) (settle (ax_now env (sd_tick side')) result)
       (adb_executions db2)\<rparr>"
    and "finalStatus result = ExSuccess \<longrightarrow> \<not> successClash (adb_executions db')"
    by (rule runRule_cases [OF assms(1)])
  let ?set = "settle (ax_now env (sd_tick side')) result"
  have id: "ae_id new = ae_id row" using assms(3) by (simp add: new newExecution_def)
  have status: "ae_status row = finalStatus result" "ae_error row = (case result of Inl e \<Rightarrow> Some e | Inr _ \<Rightarrow> None)"
  proof -
    have "row \<in> set (updateW (\<lambda>r. ae_id r = ae_id new) ?set (adb_executions db2))" using assms(2) by (simp add: db')
    then obtain r where "row = ?set r" by (cases rule: updateW_memE) (use id in auto)
    then show "ae_status row = finalStatus result" "ae_error row = (case result of Inl e \<Rightarrow> Some e | Inr _ \<Rightarrow> None)"
      by (simp_all add: settle_def)
  qed
  have old: "updateW (\<lambda>r. ae_id r = ae_id new) ?set (adb_executions db) = adb_executions db"
    using fresh by (intro updateW_none) (metis image_eqI)
  then have only: "adb_executions db' = adb_executions db @ [?set new]" if "db2 = db1"
    using that by (simp add: db' db1 updateW_def)
  have "adb_wf db' = adb_wf db \<and> adb_executions db' = adb_executions db @ [row] \<and> ae_error row \<noteq> None"
    if failed: "ae_status row = ExFailed"
  proof -
    obtain e where e: "result = Inl e" using failed status(1) by (auto simp: finalStatus_def split: sum.splits if_splits)
    then have d: "db2 = db1" by (simp add: db2)
    have "row \<notin> set (adb_executions db)" using fresh id by auto
    then have "row = ?set new" using only [OF d] assms(2) by simp
    then show ?thesis using only [OF d] d status(2) e by (simp add: db' db1)
  qed
  moreover have "ae_status row = ExDegraded \<and> adb_wf db' = adb_wf db \<and> sd_redis side' = sd_redis side"
    if "ax_redis env" "ar_actions rule \<noteq> []"
      "\<forall>a \<in> set (ar_actions rule). isOpen (ax_now env (sd_tick side + 1)) (sd_redis side) tid (actionType a)"
  proof -
    have "side' = tick side \<and> result = Inr (length (ar_actions rule), db1)"
      using acts runActions_all_open [OF that(1), of "ar_actions rule" "tick side" tid call followUp 0 db1] call that(3)
      by (simp add: tick_def)
    then show ?thesis using status(1) that(2) by (simp add: finalStatus_def db' db2 db1 tick_def)
  qed
  ultimately show ?thesis by blast
qed

definition demo_failed :: "auto_db outcome" where
  "demo_failed = runRule demo_auto_env (\<lambda>_ _ st. (fst st, Inr (snd st))) 0 ''t1'' demo_event None
     (demo_rule ''r2'' [ActSetField [], ActWebhook []]) (demo_side 0, demo_auto)"

theorem rule_atomic_witness:
  "adb_wf (demo_tables demo_failed) = adb_wf demo_auto \<and>
   (\<exists>row. adb_executions (demo_tables demo_failed) = [row] \<and> ae_status row = ExFailed \<and> ae_error row \<noteq> None)"
proof -
  have run: "runRule demo_auto_env (\<lambda>_ _ st. (fst st, Inr (snd st))) 0 ''t1'' demo_event None
     (demo_rule ''r2'' [ActSetField [], ActWebhook []]) (demo_side 0, demo_auto) = (fst demo_failed, Inr (demo_tables demo_failed))"
  proof -
    have "\<not> isl (snd demo_failed)" by code_simp
    then show ?thesis by (cases demo_failed; cases "snd demo_failed") (auto simp: demo_tables_def demo_failed_def)
  qed
  have row: "length (adb_executions (demo_tables demo_failed)) = 1" "ae_id (hd (adb_executions (demo_tables demo_failed))) = ''x''"
    "ae_status (hd (adb_executions (demo_tables demo_failed))) = ExFailed"
    by code_simp+
  then obtain r where r: "adb_executions (demo_tables demo_failed) = [r]" by (auto simp: length_Suc_conv)
  then show ?thesis
    using rule_atomic [OF run, of r] row by (simp add: demo_auto_env_def demo_side_def)
qed


section \<open>Degraded executions\<close>

text \<open>
  An execution in which one action ran and another was held back by its open circuit is recorded
  as degraded. Only a success blocks a second execution for the same transition, so the action
  that ran is run again when the same transition is delivered once more.
\<close>

definition demo_degraded_env :: auto_env where
  "demo_degraded_env = demo_auto_env\<lparr>ax_handler := (\<lambda>k call w. Inr (w\<lparr>db_outbox := db_outbox w @
     [\<lparr>ob_id = replicate k (CHR ''o''), ob_tenantId = ''t1'', ob_eventType = ''entity.updated'', ob_version = 1,
       ob_payload = [], ob_createdAt = 0, ob_deliveredAt = None\<rparr>]\<rparr>))\<rparr>"

definition demo_degraded :: "nat \<Rightarrow> auto_db \<Rightarrow> auto_db" where
  "demo_degraded k db = demo_tables (executeAutomationRules demo_degraded_env 0 ''t1'' (JObj demo_event) (Some ''te'')
     (\<lparr>sd_redis = [circuitKey ''t1'' ''webhook'' \<mapsto> (5, Some 1000)], sd_tick = k\<rparr>, db))"

lemma degraded_rule_runs_again:
  "map ae_status (adb_executions (demo_degraded 10 (demo_degraded 0
     (demo_auto\<lparr>adb_rules := [demo_rule ''r2'' [ActSetField [], ActWebhook []]]\<rparr>)))) = [ExDegraded, ExDegraded] \<and>
   length (db_outbox (adb_wf (demo_degraded 10 (demo_degraded 0
     (demo_auto\<lparr>adb_rules := [demo_rule ''r2'' [ActSetField [], ActWebhook []]]\<rparr>))))) = 2"
  by code_simp

end
