(* ===== verification/DeliveryProps.thy ===== *)
theory DeliveryProps
  imports OutboxDelivery AutomationProps
begin

text \<open>
  End-to-end properties of event delivery: an event that has been written reaches the automation
  queue exactly once, and the worker reads from the event of a transition what the engine recorded.
  The last section shows what the recorded depth means for a cycle of rules.
\<close>

section \<open>Every event reaches the queue\<close>

lemma worldDb_simps [simp]:
  "worldDb (poll env w) = fst (outboxTick env (worldDb w, ww_jobs w))"
  "ww_jobs (poll env w) = snd (outboxTick env (worldDb w, ww_jobs w))"
  "worldDb (schedule senv w) = sl_db (slaTick senv (ww_sla w))" "ww_jobs (schedule senv w) = ww_jobs w"
  "worldDb (withDb w db) = db" "ww_jobs (withDb w db) = ww_jobs w"
  by (simp_all add: worldDb_def poll_def schedule_def withDb_def split: prod.split)

lemma schedule_is_step: "scheduleStep (worldDb w) (worldDb (schedule env w))"
  by (auto simp: scheduleStep_def worldDb_def schedule_def)

lemma schedule_ids: "map ob_id (db_outbox (worldDb (schedule env w))) = map ob_id (db_outbox (worldDb w))"
  using sla_sweep.keeps_ids [of env "ww_sla w"] by (simp add: worldDb_def schedule_def)

lemma outboxTick_keeps:
  assumes "handedOver db jobs" "q \<in> set (db_outbox db)" "isTrigger q"
  shows "\<exists>p \<in> set (db_outbox (fst (outboxTick env (db, jobs)))). isTrigger p \<and> automationJob p = automationJob q"
proof (cases "pollFails env (db, jobs)")
  case False
  let ?b = "outboxBatch env db"
  have "set (db_outbox (fst (outboxTick env (db, jobs)))) = (set (db_outbox db) - set ?b) \<union>
      (\<lambda>r. r\<lparr>ob_deliveredAt := Some (po_deliveredAt env)\<rparr>) ` set ?b"
    using set_markDelivered [of "db_outbox db" ?b] batch_rows [of env db] assms(1) False
    by (auto simp: outboxTick_db handedOver_def)
  then show ?thesis using assms(2,3)
    by (intro bexI [of _ "if q \<in> set ?b then q\<lparr>ob_deliveredAt := Some (po_deliveredAt env)\<rparr> else q"]) auto
qed (use assms in \<open>auto simp: outboxTick_db\<close>)

lemma delivery_run_keeps:
  assumes "delivery_run w v" "handedOver (worldDb w) (ww_jobs w)" "r \<in> set (db_outbox (worldDb w))" "isTrigger r"
  shows "handedOver (worldDb v) (ww_jobs v) \<and>
    (\<exists>q \<in> set (db_outbox (worldDb v)). isTrigger q \<and> automationJob q = automationJob r)"
  using assms(1)
proof induction
  case start
  show ?case using assms(2-4) by blast
next
  case (polled v env)
  then obtain q where q: "q \<in> set (db_outbox (worldDb v))" "isTrigger q" "automationJob q = automationJob r"
    and inv: "handedOver (worldDb v) (ww_jobs v)" by blast
  show ?case using outboxTick_handedOver [OF inv, of env] outboxTick_keeps [OF inv q(1,2), of env] q(3) by simp
next
  case (scheduled v env)
  then have inv: "handedOver (worldDb v) (ww_jobs v)" by blast
  then have ids: "distinct (map ob_id (db_outbox (worldDb v)))" by (simp add: handedOver_def)
  have "handedOver (worldDb (schedule env v)) (ww_jobs v)"
    using schedule_step.keeps_handedOver [OF schedule_is_step _ inv, of env] ids by (simp only: schedule_ids)
  moreover have "\<exists>q \<in> set (db_outbox (worldDb (schedule env v))). isTrigger q \<and> automationJob q = automationJob r"
    using scheduled.IH schedule_step.keeps_triggers [OF schedule_is_step ids] by blast
  ultimately show ?case by simp
next
  case (produced v db)
  then have inv: "handedOver (worldDb v) (ww_jobs v)" by blast
  then have ids: "distinct (map ob_id (db_outbox (worldDb v)))" by (simp add: handedOver_def)
  have "handedOver db (ww_jobs v)"
    using produced.hyps(2) transition_step.keeps_handedOver [OF _ produced.hyps(3) inv]
      override_step.keeps_handedOver [OF _ produced.hyps(3) inv] breach_step.keeps_handedOver [OF _ produced.hyps(3) inv]
      write_step.keeps_handedOver [OF _ produced.hyps(3) inv] by blast
  moreover have "q \<in> set (db_outbox db)" if "q \<in> set (db_outbox (worldDb v))" "isTrigger q" for q
    using produced.hyps(2) transition_step.keeps_triggers [OF _ ids that] override_step.keeps_triggers [OF _ ids that]
      breach_step.keeps_triggers [OF _ ids that] write_step.keeps_triggers [OF _ ids that] by blast
  ultimately show ?case using produced.IH by auto
qed

lemma fold_poll:
  "(worldDb (fold poll envs w), ww_jobs (fold poll envs w)) = fold outboxTick envs (worldDb w, ww_jobs w)"
  by (induction envs arbitrary: w) simp_all

definition cleanPoll :: "outbox_env \<Rightarrow> bool" where
  "cleanPoll env \<longleftrightarrow> (\<forall>i. \<not> po_locked env i \<and> \<not> po_addFails env i)"

lemma delivery_run_fold_poll: "delivery_run w v \<Longrightarrow> delivery_run w (fold poll envs v)"
  by (induction envs arbitrary: v) (auto intro: delivery_run.polled)

text \<open>
  C22. Every event reaches its consumer exactly once. Take any event of a type that rules can react
  to, and any interleaving of the two pollers, failing ticks included, with transitions, overrides,
  breaches and other writers. Then enough undisturbed ticks of the poller (one per hundred rows)
  put the event into the automation queue with its payload, and no id is in the queue twice, nor
  anything that is not an event of the outbox.
\<close>
theorem event_reaches_queue:
  assumes "delivery_run w v" "handedOver (worldDb w) (ww_jobs w)" "r \<in> set (db_outbox (worldDb w))" "isTrigger r"
    and "\<forall>env \<in> set envs. cleanPoll env" "length (db_outbox (worldDb v)) \<le> OUTBOX_BATCH_SIZE * length envs"
  shows "automationJob r \<in> set (ww_jobs (fold poll envs v)) \<and>
    distinct (map aj_outboxEventId (ww_jobs (fold poll envs v))) \<and>
    set (ww_jobs (fold poll envs v)) \<subseteq> automationJob ` set (db_outbox (worldDb (fold poll envs v)))"
proof -
  have inv: "handedOver (worldDb (fold poll envs v)) (ww_jobs (fold poll envs v))"
    and "\<exists>q \<in> set (db_outbox (worldDb (fold poll envs v))). isTrigger q \<and> automationJob q = automationJob r"
    using delivery_run_keeps [OF delivery_run_fold_poll [OF assms(1)] assms(2-4)] by blast+
  then obtain q where q: "q \<in> set (db_outbox (worldDb (fold poll envs v)))" "isTrigger q" "automationJob q = automationJob r"
    by blast
  have ids: "distinct (map ob_id (db_outbox (worldDb v)))"
    using delivery_run_keeps [OF assms(1-4)] by (simp add: handedOver_def)
  have "filter isTriggerDue (db_outbox (fst (fold outboxTick envs (worldDb v, ww_jobs v)))) = []"
    using assms(5,6) ids
    by (intro poll_sweep.drains_all) (auto simp: cleanPoll_def pollFails_def list_ex_iff)
  then have "filter isTriggerDue (db_outbox (worldDb (fold poll envs v))) = []"
    by (simp flip: fold_poll)
  then have "ob_deliveredAt q \<noteq> None" using q(1,2) by (auto simp: filter_empty_conv isTriggerDue_def)
  then show ?thesis using inv q unfolding handedOver_def by (metis image_eqI subsetI)
qed

definition demo_waiting :: worker_world where
  "demo_waiting = \<lparr>ww_sla = demo_timers\<lparr>sl_db := empty_db\<lparr>db_outbox :=
     [demo_timer ''o1'' ''later'', (demo_timer ''o2'' ''later'')\<lparr>ob_eventType := ''entity.created''\<rparr>]\<rparr>\<rparr>, ww_jobs = []\<rparr>"

definition demo_poll :: "bool \<Rightarrow> outbox_env" where
  "demo_poll down = \<lparr>po_locked = (\<lambda>_. False), po_addFails = (\<lambda>_. down), po_deliveredAt = 7\<rparr>"

theorem event_reaches_queue_witness:
  "automationJob ((demo_timer ''o2'' ''later'')\<lparr>ob_eventType := ''entity.created''\<rparr>) \<in>
     set (ww_jobs (fold poll [demo_poll False] (schedule demo_tick_env (poll (demo_poll True) demo_waiting))))"
proof -
  let ?r = "(demo_timer ''o2'' ''later'')\<lparr>ob_eventType := ''entity.created''\<rparr>"
  let ?v = "schedule demo_tick_env (poll (demo_poll True) demo_waiting)"
  have run: "delivery_run demo_waiting ?v" by (intro delivery_run.intros)
  have inv: "handedOver (worldDb demo_waiting) (ww_jobs demo_waiting)" "?r \<in> set (db_outbox (worldDb demo_waiting))" "isTrigger ?r"
    by (auto simp: handedOver_def demo_waiting_def worldDb_def demo_timer_def isTrigger_def TRIGGER_TYPES_def slaScheduled_def)
  have "\<forall>env \<in> set [demo_poll False]. cleanPoll env" by (simp add: cleanPoll_def demo_poll_def)
  moreover have "length (db_outbox (worldDb ?v)) \<le> OUTBOX_BATCH_SIZE * length [demo_poll False]"
  proof -
    have "length (db_outbox (worldDb ?v)) = length (db_outbox (worldDb (poll (demo_poll True) demo_waiting)))"
      by (rule map_eq_imp_length_eq [OF schedule_ids])
    also have "\<dots> = length (db_outbox (worldDb demo_waiting))"
      using map_eq_imp_length_eq [OF poll_sweep.keeps_ids [of "demo_poll True" "(worldDb demo_waiting, ww_jobs demo_waiting)"]]
      by simp
    finally show ?thesis by (simp add: demo_waiting_def worldDb_def OUTBOX_BATCH_SIZE_def)
  qed
  ultimately show ?thesis using event_reaches_queue [OF run inv] by blast
qed

section \<open>What the worker reads\<close>

definition validIds :: "formats \<Rightarrow> wf_db \<Rightarrow> bool" where
  "validIds fm db \<longleftrightarrow> (\<forall>inst \<in> set (db_instances db). fm_isGuid fm (ei_entityTypeId inst) \<and>
     (\<forall>w. ei_workflowId inst = Some w \<longrightarrow> fm_isGuid fm w))"

definition validRequest :: "formats \<Rightarrow> TransitionRequest \<Rightarrow> bool" where
  "validRequest fm rq \<longleftrightarrow> fm_isGuid fm (tr_instanceId rq) \<and>
     (\<forall>a. tr_actorId rq = Some a \<longrightarrow> 1 \<le> length a \<and> length a \<le> 255) \<and>
     (\<forall>d. tr_depth rq = Some d \<longrightarrow> 0 \<le> d \<and> of_int d \<le> MAX_SAFE_INTEGER)"

lemma readDepth_outboxPayload:
  assumes "\<forall>d. sc_depth ch = Some d \<longrightarrow> 0 \<le> d \<and> of_int d \<le> MAX_SAFE_INTEGER"
  shows "readDepth fm (outboxPayload env tid inst w ch) = nat (dflt 0 (sc_depth ch))"
  using assms by (cases "sc_depth ch")
    (auto simp: readDepth_def outboxPayload_def parseField_def optional_def acceptField_def objGet_def)

lemma readTransitionEventId_outboxPayload:
  assumes "fm_isGuid fm (sc_transitionEventId ch)"
  shows "readTransitionEventId fm (outboxPayload env tid inst w ch) = Some (sc_transitionEventId ch)"
  using assms by (simp add: readTransitionEventId_def outboxPayload_def parseField_def optional_def acceptField_def objGet_def)

lemma safeParse_outboxPayload:
  assumes "fm_isGuid fm tid" "fm_isGuid fm (ei_id inst)" "fm_isGuid fm (ei_entityTypeId inst)" "fm_isGuid fm w"
    and "fm_isGuid fm (sc_transitionEventId ch)" "fm_isDatetime fm (toISOString (env_occurredAt env))"
    and "\<forall>a. sc_actorId ch = Some a \<longrightarrow> 1 \<le> length a \<and> length a \<le> 255"
    and "\<forall>d. sc_depth ch = Some d \<longrightarrow> 0 \<le> d \<and> of_int d \<le> MAX_SAFE_INTEGER"
  shows "\<exists>event. safeParse fm (JObj (outboxPayload env tid inst w ch)) = Some event \<and>
    eventTypeOf event = ''workflow.transitioned'' \<and> objGet event ''instanceId'' = JStr (ei_id inst) \<and>
    objGet event ''fromState'' = JStr (ei_currentState inst) \<and> objGet event ''toState'' = JStr (sc_toState ch)"
  using assms
  by (cases "sc_actorId ch"; cases "sc_depth ch"; cases "sc_triggeredBy ch"; cases "sc_override ch")
    (simp_all add: safeParse_def outboxPayload_def TriggerEventSchema_def baseEvent_def req_def optional_def nullable_def
      parseField_def acceptField_def eventTypeOf_def objGet_def jsOpt_def)

text \<open>
  What the engine records is what the automation worker acts on. After a transition (not a
  replay) the outbox holds an undelivered event that the poller claims and the worker accepts: it
  parses as a transition of that record from its old to its new state. The worker runs the rules of
  the record's tenant with the identity the transition returned, the identity the in-process rules
  use as well, and at the depth the transition was requested at.
\<close>
theorem transition_reaches_worker:
  assumes "executeTransition env db tid rq = Inr (e, db')" "findReplay db tid rq = None"
    and "fm_isGuid (ax_formats aenv) tid" "fm_isGuid (ax_formats aenv) (env_randomUUID env)"
    and "fm_isDatetime (ax_formats aenv) (toISOString (env_occurredAt env))"
    and "validIds (ax_formats aenv) db" "validRequest (ax_formats aenv) rq"
  shows "\<exists>row event. row \<in> set (db_outbox db') \<and> isTriggerDue row \<and>
    safeParse (ax_formats aenv) (JObj (ob_payload row)) = Some event \<and> eventTypeOf event = ''workflow.transitioned'' \<and>
    objGet event ''instanceId'' = JStr (tr_instanceId rq) \<and>
    Some (objGet event ''fromState'') = map_option JStr (we_fromState e) \<and> objGet event ''toState'' = JStr (we_toState e) \<and>
    automationWorker aenv True (automationJob row) st =
      executeAutomationRules aenv (nat (dflt 0 (tr_depth rq))) tid (JObj (ob_payload row)) (wev_transitionEventId e) st"
proof -
  let ?fm = "ax_formats aenv"
  obtain inst w wf t where lock: "lockInstance env db tid (tr_instanceId rq) = Inr (inst, w)"
    and commit: "commitStateChange env db tid inst w (transitionChange env rq t) = Inr (e, db')"
    using assms(1,2) unfolding executeTransition_Inr by auto
  let ?ch = "transitionChange env rq t"
  let ?row = "transitionedOutboxRow env tid inst w ?ch"
  note facts = lockInstance_facts [OF lock]
  have depth: "sc_depth ?ch = tr_depth rq" by (simp add: transitionChange_def)
  have e: "we_fromState e = Some (ei_currentState inst)" "we_toState e = wt_toState t"
    "wev_transitionEventId e = Some (env_randomUUID env)" and row: "?row \<in> set (db_outbox db')"
    using commit by (auto simp: commitStateChange_Inr newEventRow_def committedDb_def)
  have payload: "ob_payload ?row = outboxPayload env tid inst w ?ch" "ob_tenantId ?row = tid"
    by (simp_all add: transitionedOutboxRow_def)
  obtain event where "safeParse ?fm (JObj (ob_payload ?row)) = Some event" "eventTypeOf event = ''workflow.transitioned''"
    "objGet event ''instanceId'' = JStr (tr_instanceId rq)" "objGet event ''fromState'' = JStr (ei_currentState inst)"
    "objGet event ''toState'' = JStr (wt_toState t)"
    using safeParse_outboxPayload [of ?fm tid inst w ?ch env] assms(3-7) facts
    by (auto simp: validIds_def validRequest_def payload depth)
  moreover have "isTriggerDue ?row"
    by (simp add: isTriggerDue_def isTrigger_def TRIGGER_TYPES_def transitionedOutboxRow_def)
  moreover have "automationWorker aenv True (automationJob ?row) st =
      executeAutomationRules aenv (nat (dflt 0 (tr_depth rq))) tid (JObj (ob_payload ?row)) (wev_transitionEventId e) st"
    using readDepth_outboxPayload [of ?ch ?fm env tid inst w] readTransitionEventId_outboxPayload [of ?fm ?ch env tid inst w]
      assms(4,7) by (simp add: automationWorker_def automationJob_def payload e validRequest_def depth)
  ultimately show ?thesis using row e by force
qed

theorem transition_reaches_worker_witness:
  "\<exists>e db' row. executeTransition demo_env demo_db ''t1'' demo_request = Inr (e, db') \<and> row \<in> set (db_outbox db') \<and>
     isTriggerDue row \<and> automationWorker demo_auto_env True (automationJob row) (demo_side 0, demo_auto) =
       executeAutomationRules demo_auto_env 0 ''t1'' (JObj (ob_payload row)) (wev_transitionEventId e) (demo_side 0, demo_auto)"
proof -
  obtain e db' where run: "executeTransition demo_env demo_db ''t1'' demo_request = Inr (e, db')"
    by (rule demo_transition)
  have "validIds (ax_formats demo_auto_env) demo_db" "validRequest (ax_formats demo_auto_env) demo_request"
    "fm_isGuid (ax_formats demo_auto_env) s" "fm_isDatetime (ax_formats demo_auto_env) s" for s
    by (simp_all add: validIds_def validRequest_def demo_auto_env_def demo_request_def)
  then show ?thesis
    using transition_reaches_worker [OF run demo_no_replay, of demo_auto_env "(demo_side 0, demo_auto)"] run
    by (fastforce simp: demo_request_def)
qed

section \<open>A cycle of rules through the outbox\<close>

text \<open>
  Two rules move a record back and forth between \<open>A\<close> and \<open>B\<close>. In process, the depth limit ends
  the chain: the rule at depth 9 fails and the transition of depth 8 is the last one kept. The
  event of that transition carries depth 8 and its rule has not succeeded, so the worker runs it at
  depth 8: it succeeds, its follow-up fails at the limit, and the transition it made leaves again an
  event of depth 8. Each delivery moves the record once more and leaves the next event to deliver.
\<close>

definition cycle_rule :: "string \<Rightarrow> string \<Rightarrow> string \<Rightarrow> AutomationRule" where
  "cycle_rule i entered edge = (demo_rule i [ActTransition \<lparr>tc_instanceId = None, tc_transitionId = edge, tc_comment = None\<rparr>])
     \<lparr>ar_triggerType := ''workflow.transitioned'', ar_triggerConfig := Some [(''toState'', JStr entered)]\<rparr>"

definition cycle_edge :: "string \<Rightarrow> string \<Rightarrow> workflow_transitions_row" where
  "cycle_edge a b = \<lparr>wt_id = a @ b, wt_workflowId = ''w1'', wt_fromState = a, wt_toState = b, wt_label = None,
     wt_allowedRoles = [], wt_conditions = None, wt_requiresComment = False, wt_requiresFields = [], wt_sortOrder = 0,
     wt_tenantId = ''t1''\<rparr>"

definition cycle_payload :: jsobj where
  "cycle_payload = [(''eventType'', JStr ''workflow.transitioned''), (''version'', JNum 1), (''tenantId'', JStr ''t1''),
     (''instanceId'', JStr ''i1''), (''entityTypeId'', JStr ''et1''), (''workflowId'', JStr ''w1''),
     (''fromState'', JStr ''A''), (''toState'', JStr ''B''), (''triggeredBy'', JStr ''automation''), (''actorId'', JNull),
     (''occurredAt'', JStr ''now''), (''transitionEventId'', JStr ''first''), (''depth'', JNum 8)]"

definition cycle_db :: auto_db where
  "cycle_db = demo_auto\<lparr>adb_rules := [cycle_rule ''ra'' ''A'' ''AB'', cycle_rule ''rb'' ''B'' ''BA''],
     adb_wf := empty_db\<lparr>
       db_instances := [\<lparr>ei_id = ''i1'', ei_entityTypeId = ''et1'', ei_tenantId = ''t1'', ei_workflowId = Some ''w1'',
         ei_currentState = ''B'', ei_fields = [], ei_createdBy = None, ei_assignedTo = None, ei_updatedAt = 0\<rparr>],
       db_workflows := [\<lparr>wf_id = ''w1'', wf_tenantId = Some ''t1'', wf_entityTypeId = ''et1'', wf_name = ''W'',
         wf_initialState = ''A'', wf_isActive = True, wf_createdBy = None, wf_maxChildDepth = 1, wf_maxChildrenPerParent = 10,
         wf_allowAutoGrantOnMention = False, wf_allowStateOverride = False, wf_createdAt = 0, wf_assignedTo = None\<rparr>],
       db_transitions := [cycle_edge ''A'' ''B'', cycle_edge ''B'' ''A''],
       db_outbox := [(demo_timer ''o0'' ''now'')\<lparr>ob_eventType := ''workflow.transitioned'', ob_payload := cycle_payload\<rparr>]\<rparr>\<rparr>"

text \<open>The worker on the event written last; its effect on the tables is kept only when it succeeds.\<close>

definition cycle_deliver :: "auto_state \<Rightarrow> auto_state" where
  "cycle_deliver st =
     (case automationWorker demo_auto_env True (automationJob (last (db_outbox (adb_wf (snd st))))) st of
        (side, Inr db) \<Rightarrow> (side, db)
      | (side, Inl _) \<Rightarrow> (side, snd st))"

definition cycle_report :: "auto_state \<Rightarrow> jsval list \<times> exec_status list" where
  "cycle_report st =
     (case st of (side, db) \<Rightarrow>
        (map (\<lambda>r. objGet (ob_payload r) ''depth'') (db_outbox (adb_wf db)), map ae_status (adb_executions db)))"

lemma cycle_goes_on:
  "cycle_report (cycle_deliver (demo_side 0, cycle_db)) = ([JNum 8, JNum 8], [ExSuccess, ExFailed])"
  by code_simp

end
