(* ===== verification/Oncall.thy ===== *)
theory Oncall
  imports Rotation
begin

text \<open>
  The on-call roster as it is stored: members of a team (\<open>packages/teams/src/team-members.ts\<close>), the
  state a rotation continues from (\<open>rotation-state.ts\<close>), who is on call now
  (\<open>oncall-resolver.ts\<close>), references to other tables (\<open>cross-tenant-ref-validator.ts\<close>), and the
  worker that creates the windows of every active rotation and announces them
  (\<open>apps/worker/src/oncall-rotation-worker.ts\<close>).

  The constraints of the tables are those of the migrations: live windows of a team never overlap, a
  rotation has one window per start, a notice is sent once per window, person and role. The k-th row
  of a table that is never shortened gets the k-th id of a supply. Parameters: locked rows, failing
  statements, whether a tenant is active, whether outbound messages are enabled.
\<close>

section \<open>Tables\<close>

record teams_row =
  te_id :: string
  te_tenantId :: string
  te_name :: string
  te_deletedAt :: "date option"

record team_members_row =
  tm_id :: string
  tm_tenantId :: string
  tm_teamId :: string
  tm_userId :: string
  tm_position :: int

record on_call_schedules_row =
  cs_id :: string
  cs_tenantId :: string
  cs_teamId :: string
  cs_label :: string
  cs_startsAt :: date
  cs_endsAt :: date
  cs_primaryUserId :: string
  cs_backupUserId :: "string option"
  cs_escalationManagerUserId :: "string option"
  cs_createdBy :: string
  cs_deletedAt :: "date option"
  cs_rotationId :: "string option"

datatype rotation_status = RotationActive | RotationStopped

record on_call_rotations_row =
  ro_id :: string
  ro_tenantId :: string
  ro_teamId :: string
  ro_cycleDays :: int
  ro_status :: rotation_status
  ro_endsOn :: "string option"
  ro_blockedReason :: "string option"
  ro_nextStartsAt :: date
  ro_lastPrimaryUserId :: string
  ro_lastBackupUserId :: "string option"
  ro_escalationManagerUserId :: "string option"
  ro_createdBy :: string
  ro_updatedAt :: date

datatype NoticeRole = RolePrimary | RoleBackup | RoleEscalationManager

record notices_row =
  nt_tenantId :: string
  nt_scheduleId :: string
  nt_userId :: string
  nt_role :: NoticeRole

record notifications_row =
  nf_id :: string
  nf_tenantId :: string
  nf_type :: string
  nf_title :: string
  nf_body :: string

record recipients_row =
  nr_notificationId :: string
  nr_tenantId :: string
  nr_userId :: string

record tenant_users_row =
  tu_tenantId :: string
  tu_userId :: string

record audit_entry =
  au_tenantId :: string
  au_actorId :: string
  au_resourceId :: string
  au_action :: string

record oncall_db =
  oc_teams :: "teams_row list"
  oc_members :: "team_members_row list"
  oc_schedules :: "on_call_schedules_row list"
  oc_rotations :: "on_call_rotations_row list"
  oc_notices :: "notices_row list"
  oc_notifications :: "notifications_row list"
  oc_recipients :: "recipients_row list"
  oc_users :: "tenant_users_row list"
  oc_audit :: "audit_entry list"
  oc_outbound :: "string list"

record oncall_env =
  ce_scheduleId :: "nat \<Rightarrow> string"
  ce_notificationId :: "nat \<Rightarrow> string"
  ce_updatedAt :: date
  ce_rotationLocked :: "string \<Rightarrow> bool"
  ce_auditFails :: "string \<Rightarrow> bool"
  ce_noticeFails :: "string \<Rightarrow> string \<Rightarrow> NoticeRole \<Rightarrow> bool"
  ce_outboundEnabled :: "string \<Rightarrow> bool option"
  ce_enqueueFails :: "string \<Rightarrow> bool"
  ce_tenantActive :: "string \<Rightarrow> bool"

section \<open>Members of a team\<close>

definition isMemberOf :: "string \<Rightarrow> string \<Rightarrow> team_members_row \<Rightarrow> bool" where
  "isMemberOf tenantId teamId r = (tm_tenantId r = tenantId \<and> tm_teamId r = teamId)"

definition membersInOrder :: "oncall_db \<Rightarrow> string \<Rightarrow> string \<Rightarrow> team_members_row list" where
  "membersInOrder db tenantId teamId = sort_key tm_position (selectW (isMemberOf tenantId teamId) (oc_members db))"

definition loadTeamMemberIds :: "oncall_db \<Rightarrow> string \<Rightarrow> string \<Rightarrow> string list" where
  "loadTeamMemberIds db tenantId teamId = map tm_userId (membersInOrder db tenantId teamId)"

text \<open>The unique indexes of the table: a person is in one team of a tenant, a position is taken once.\<close>

definition membersUnique :: "team_members_row list \<Rightarrow> bool" where
  "membersUnique rows =
     (distinct (map (\<lambda>r. (tm_tenantId r, tm_userId r)) rows) \<and> distinct (map (\<lambda>r. (tm_teamId r, tm_userId r)) rows) \<and>
      distinct (map (\<lambda>r. (tm_teamId r, tm_position r)) rows))"

fun compactFrom ::
  "string \<Rightarrow> nat \<Rightarrow> team_members_row list \<Rightarrow> team_members_row list \<Rightarrow> string + team_members_row list" where
  "compactFrom tenantId index [] rows = Inr rows"
| "compactFrom tenantId index (r # rs) rows =
     (if tm_position r = int index then compactFrom tenantId (index + 1) rs rows
      else (let rows1 = updateW (\<lambda>q. tm_tenantId q = tenantId \<and> tm_id q = tm_id r) (\<lambda>q. q\<lparr>tm_position := int index\<rparr>) rows
            in if membersUnique rows1 then compactFrom tenantId (index + 1) rs rows1
               else Inl ''team_members_team_position_unique''))"

definition compactTeamPositions :: "oncall_db \<Rightarrow> string \<Rightarrow> string \<Rightarrow> string + oncall_db" where
  "compactTeamPositions db tenantId teamId =
     bindE (compactFrom tenantId 0 (membersInOrder db tenantId teamId) (oc_members db))
       (\<lambda>rows. Inr (db\<lparr>oc_members := rows\<rparr>))"

definition newMember :: "(nat \<Rightarrow> string) \<Rightarrow> string \<Rightarrow> string \<Rightarrow> nat \<Rightarrow> string \<Rightarrow> team_members_row" where
  "newMember newId tenantId teamId position userId =
     \<lparr>tm_id = newId position, tm_tenantId = tenantId, tm_teamId = teamId, tm_userId = userId, tm_position = int position\<rparr>"

definition replaceTeamMembers ::
  "(nat \<Rightarrow> string) \<Rightarrow> oncall_db \<Rightarrow> string \<Rightarrow> string \<Rightarrow> string list \<Rightarrow> string + (string list \<times> oncall_db)" where
  "replaceTeamMembers newId db tenantId teamId userIds =
     (let previous = loadTeamMemberIds db tenantId teamId;
          rows = deleteW (isMemberOf tenantId teamId) (oc_members db) @
            map (\<lambda>position. newMember newId tenantId teamId position (userIds ! position)) [0..<length userIds]
      in bindE (throwIf (\<not> membersUnique rows) ''team_members_unique'')
           (\<lambda>_. Inr (previous, db\<lparr>oc_members := rows\<rparr>)))"

section \<open>Where a rotation continues\<close>

definition isLive :: "on_call_schedules_row \<Rightarrow> bool" where
  "isLive r = (cs_deletedAt r = None)"

text \<open>The first row in descending order of the start.\<close>

definition latestWindow :: "on_call_schedules_row list \<Rightarrow> on_call_schedules_row option" where
  "latestWindow rows = (case sort_key (\<lambda>r. - cs_startsAt r) rows of [] \<Rightarrow> None | r # _ \<Rightarrow> Some r)"

definition loadPreviousHolders :: "oncall_db \<Rightarrow> string \<Rightarrow> on_call_rotations_row \<Rightarrow> RotationHolders" where
  "loadPreviousHolders db tenantId rotation =
     (case latestWindow (selectW (\<lambda>r. cs_tenantId r = tenantId \<and> cs_rotationId r = Some (ro_id rotation) \<and> isLive r)
             (oc_schedules db)) of
        Some latest \<Rightarrow> \<lparr>rh_primary = Some (cs_primaryUserId latest), rh_backup = cs_backupUserId latest\<rparr>
      | None \<Rightarrow> \<lparr>rh_primary = Some (ro_lastPrimaryUserId rotation), rh_backup = ro_lastBackupUserId rotation\<rparr>)"

section \<open>Who is on call\<close>

definition isActiveAt :: "string \<Rightarrow> string \<Rightarrow> date \<Rightarrow> on_call_schedules_row \<Rightarrow> bool" where
  "isActiveAt tenantId teamId now r =
     (cs_tenantId r = tenantId \<and> cs_teamId r = teamId \<and> isLive r \<and> cs_startsAt r \<le> now \<and> now < cs_endsAt r)"

definition getActiveScheduleForTeam :: "oncall_db \<Rightarrow> string \<Rightarrow> string \<Rightarrow> date \<Rightarrow> on_call_schedules_row option" where
  "getActiveScheduleForTeam db tenantId teamId now = select1 (isActiveAt tenantId teamId now) (oc_schedules db)"

definition getUsersResolvableSet :: "oncall_db \<Rightarrow> string \<Rightarrow> string list \<Rightarrow> string set" where
  "getUsersResolvableSet db tenantId userIds =
     (if userIds = [] then {}
      else set (map tu_userId (selectW (\<lambda>r. tu_tenantId r = tenantId \<and> tu_userId r \<in> set userIds) (oc_users db))))"

definition isUserResolvable :: "oncall_db \<Rightarrow> string \<Rightarrow> string \<Rightarrow> bool" where
  "isUserResolvable db tenantId userId = (userId \<in> getUsersResolvableSet db tenantId [userId])"

record ResolvedOncallUser =
  ru_userId :: string
  ru_displayName :: "string option"
  ru_deleted :: bool

definition classifyOncallUser :: "string option \<Rightarrow> string option \<Rightarrow> ResolvedOncallUser option" where
  "classifyOncallUser userId displayName =
     (case userId of
        None \<Rightarrow> None
      | Some u \<Rightarrow> if u = '''' then None
          else Some \<lparr>ru_userId = u, ru_displayName = displayName, ru_deleted = (displayName = None)\<rparr>)"

datatype OncallTier = TierPrimary | TierBackup | TierEscalation

definition cascadeCandidates :: "on_call_schedules_row \<Rightarrow> (OncallTier \<times> string) list" where
  "cascadeCandidates schedule =
     filter (\<lambda>(_, u). u \<noteq> '''')
       ((TierPrimary, cs_primaryUserId schedule) #
        (case cs_backupUserId schedule of None \<Rightarrow> [] | Some u \<Rightarrow> [(TierBackup, u)]) @
        (case cs_escalationManagerUserId schedule of None \<Rightarrow> [] | Some u \<Rightarrow> [(TierEscalation, u)]))"

definition resolveOncallCascade :: "oncall_db \<Rightarrow> string \<Rightarrow> on_call_schedules_row \<Rightarrow> (OncallTier \<times> string) option" where
  "resolveOncallCascade db tenantId schedule =
     (let candidates = cascadeCandidates schedule;
          resolvable = getUsersResolvableSet db tenantId (map snd candidates)
      in List.find (\<lambda>(_, u). u \<in> resolvable) candidates)"

section \<open>References\<close>

record FieldError =
  fe_field :: string
  fe_refId :: string

definition validateCrossTenantRefs :: "(string \<times> string) list \<Rightarrow> (string list \<Rightarrow> string set) \<Rightarrow> FieldError list" where
  "validateCrossTenantRefs refs lookupValidIds =
     (if refs = [] then []
      else (let validIdSet = lookupValidIds (rev (remdups (rev (map snd refs)))) in
            map (\<lambda>(fieldName, refId). \<lparr>fe_field = fieldName, fe_refId = refId\<rparr>)
              (filter (\<lambda>(_, refId). refId \<notin> validIdSet) refs)))"

text \<open>The lookup in the teams of a tenant, soft-deleted ones left out.\<close>

definition lookupValidTeams :: "oncall_db \<Rightarrow> string \<Rightarrow> string list \<Rightarrow> string set" where
  "lookupValidTeams db tenantId refIds =
     set (map te_id (selectW (\<lambda>r. te_id r \<in> set refIds \<and> te_tenantId r = tenantId \<and> te_deletedAt r = None) (oc_teams db)))"

end
