(* ===== verification/OncallWorker.thy ===== *)
theory OncallWorker
  imports Oncall Sweep
begin

text \<open>
  The worker of the recurring roster (\<open>apps/worker/src/oncall-rotation-worker.ts\<close>): for every active
  rotation it creates the windows that are due, in one transaction, and then announces the windows that
  start soon, one transaction per notice.
\<close>

section \<open>Texts\<close>

definition SYSTEM_ACTOR :: string where
  "SYSTEM_ACTOR = ''system:oncall-rotation-worker''"

definition NOTICE_TYPE :: string where
  "NOTICE_TYPE = ''oncall.rotation_notice''"

definition TEAM_DELETED_REASON :: string where
  "TEAM_DELETED_REASON = ''The team was deleted, so this roster cannot make new windows. Stop it.''"

definition NO_MEMBERS_REASON :: string where
  "NO_MEMBERS_REASON = ''This team has no members, so no further windows can be made''"

fun rolePhrase :: "NoticeRole \<Rightarrow> string" where
  "rolePhrase RolePrimary = ''primary on call''"
| "rolePhrase RoleBackup = ''backup on call''"
| "rolePhrase RoleEscalationManager = ''the escalation manager''"

fun replaceFirst :: "char \<Rightarrow> char \<Rightarrow> string \<Rightarrow> string" where
  "replaceFirst a b [] = []"
| "replaceFirst a b (c # cs) = (if c = a then b # cs else c # replaceFirst a b cs)"

definition utcStamp :: "date \<Rightarrow> string" where
  "utcStamp d = replaceFirst (CHR ''T'') (CHR '' '') (take 16 (toISOString d)) @ '' UTC''"

definition plain :: "string \<Rightarrow> string" where
  "plain value = filter (\<lambda>c. c \<noteq> CHR ''<'' \<and> c \<noteq> CHR ''>'') value"

definition overlapReason :: "on_call_schedules_row \<Rightarrow> GeneratedWindow \<Rightarrow> string" where
  "overlapReason clash w =
     ''The window '' @ [CHR 0x22] @ cs_label clash @ [CHR 0x22] @ '' ('' @ utcStamp (cs_startsAt clash) @ '' to '' @
     utcStamp (cs_endsAt clash) @ '') overlaps the next window, which would start '' @ utcStamp (gw_startsAt w) @
     ''. Remove or move it to resume.''"

section \<open>Storing a window\<close>

definition windowsOverlap :: "on_call_schedules_row \<Rightarrow> on_call_schedules_row \<Rightarrow> bool" where
  "windowsOverlap a b = (cs_startsAt a < cs_endsAt b \<and> cs_startsAt b < cs_endsAt a)"

definition sameTeam :: "on_call_schedules_row \<Rightarrow> on_call_schedules_row \<Rightarrow> bool" where
  "sameTeam a b = (cs_tenantId a = cs_tenantId b \<and> cs_teamId a = cs_teamId b)"

text \<open>
  The insert with its constraints, in the order the server checks them: the check on the bounds, the
  named conflict target, the primary key and the exclusion of overlaps. The result says whether a row was inserted.
\<close>

definition insertWindow :: "on_call_schedules_row \<Rightarrow> on_call_schedules_row list \<Rightarrow> string + (bool \<times> on_call_schedules_row list)" where
  "insertWindow row rows =
     (if \<not> cs_startsAt row < cs_endsAt row then Inl ''on_call_schedules_window_check''
      else if cs_rotationId row \<noteq> None \<and>
          list_ex (\<lambda>r. cs_rotationId r = cs_rotationId row \<and> cs_startsAt r = cs_startsAt row) rows then Inr (False, rows)
      else if list_ex (\<lambda>r. cs_id r = cs_id row) rows then Inl ''on_call_schedules_pkey''
      else if isLive row \<and> list_ex (\<lambda>r. isLive r \<and> sameTeam r row \<and> windowsOverlap r row) rows
        then Inl ''on_call_schedules_no_overlap''
      else Inr (True, insertRow row rows))"

definition windowRow :: "string \<Rightarrow> on_call_rotations_row \<Rightarrow> string \<Rightarrow> GeneratedWindow \<Rightarrow> on_call_schedules_row" where
  "windowRow newId rotation tenantId w =
     \<lparr>cs_id = newId, cs_tenantId = tenantId, cs_teamId = ro_teamId rotation,
      cs_label = ''Rotation '' @ take 10 (toISOString (gw_startsAt w)), cs_startsAt = gw_startsAt w, cs_endsAt = gw_endsAt w,
      cs_primaryUserId = gw_primary w, cs_backupUserId = gw_backup w, cs_escalationManagerUserId = gw_escalationManager w,
      cs_createdBy = ro_createdBy rotation, cs_deletedAt = None, cs_rotationId = Some (ro_id rotation)\<rparr>"

fun createWindows ::
  "oncall_env \<Rightarrow> string \<Rightarrow> on_call_rotations_row \<Rightarrow> GeneratedWindow list \<Rightarrow> nat \<Rightarrow> oncall_db \<Rightarrow> string + (nat \<times> oncall_db)" where
  "createWindows env tenantId rotation [] created db = Inr (created, db)"
| "createWindows env tenantId rotation (w # ws) created db =
     (let row = windowRow (ce_scheduleId env (length (oc_schedules db))) rotation tenantId w in
      bindE (insertWindow row (oc_schedules db)) (\<lambda>(inserted, rows).
      if \<not> inserted then createWindows env tenantId rotation ws created db
      else bindE (throwIf (ce_auditFails env (cs_id row)) ''audit_log'') (\<lambda>_.
        createWindows env tenantId rotation ws (created + 1)
          (db\<lparr>oc_schedules := rows,
              oc_audit := oc_audit db @ [\<lparr>au_tenantId = tenantId, au_actorId = SYSTEM_ACTOR, au_resourceId = cs_id row,
                au_action = ''created''\<rparr>]\<rparr>))))"

section \<open>Generating the windows of a rotation\<close>

record GenerationResult =
  gr_windowsCreated :: nat
  gr_blocked :: bool
  gr_capped :: bool

definition idle :: GenerationResult where
  "idle = \<lparr>gr_windowsCreated = 0, gr_blocked = False, gr_capped = False\<rparr>"

definition isRotation :: "string \<Rightarrow> string \<Rightarrow> on_call_rotations_row \<Rightarrow> bool" where
  "isRotation tenantId rotationId r = (ro_id r = rotationId \<and> ro_tenantId r = tenantId)"

text \<open>The row another instance holds is skipped.\<close>

definition lockRotation :: "oncall_env \<Rightarrow> oncall_db \<Rightarrow> string \<Rightarrow> string \<Rightarrow> on_call_rotations_row option" where
  "lockRotation env db tenantId rotationId =
     select1 (\<lambda>r. isRotation tenantId rotationId r \<and> ro_status r = RotationActive \<and> \<not> ce_rotationLocked env (ro_id r))
       (oc_rotations db)"

definition clashOf :: "oncall_db \<Rightarrow> string \<Rightarrow> string \<Rightarrow> GeneratedWindow \<Rightarrow> on_call_schedules_row option" where
  "clashOf db tenantId teamId w =
     select1 (\<lambda>r. cs_tenantId r = tenantId \<and> cs_teamId r = teamId \<and> isLive r \<and> cs_startsAt r < gw_endsAt w \<and>
       gw_startsAt w < cs_endsAt r) (oc_schedules db)"

text \<open>The planned windows before the first one that clashes, and the clash.\<close>

fun untilClash ::
  "oncall_db \<Rightarrow> string \<Rightarrow> string \<Rightarrow> GeneratedWindow list \<Rightarrow>
   GeneratedWindow list \<times> (on_call_schedules_row \<times> GeneratedWindow) option" where
  "untilClash db tenantId teamId [] = ([], None)"
| "untilClash db tenantId teamId (w # ws) =
     (case clashOf db tenantId teamId w of
        Some clash \<Rightarrow> ([], Some (clash, w))
      | None \<Rightarrow> (case untilClash db tenantId teamId ws of (free, clash) \<Rightarrow> (w # free, clash)))"

record rotation_cursor =
  cu_nextStartsAt :: date
  cu_lastPrimary :: string
  cu_lastBackup :: "string option"

definition nextCursor ::
  "on_call_rotations_row \<Rightarrow> PlanWindowsResult \<Rightarrow> GeneratedWindow list \<Rightarrow> bool \<Rightarrow> rotation_cursor" where
  "nextCursor rotation plan free blocked =
     (if \<not> blocked then \<lparr>cu_nextStartsAt = pr_nextStartsAt plan,
         cu_lastPrimary = dflt (ro_lastPrimaryUserId rotation) (pr_lastPrimary plan), cu_lastBackup = pr_lastBackup plan\<rparr>
      else if free = [] then \<lparr>cu_nextStartsAt = ro_nextStartsAt rotation, cu_lastPrimary = ro_lastPrimaryUserId rotation,
         cu_lastBackup = ro_lastBackupUserId rotation\<rparr>
      else \<lparr>cu_nextStartsAt = gw_endsAt (last free), cu_lastPrimary = gw_primary (last free),
         cu_lastBackup = gw_backup (last free)\<rparr>)"

definition nextBlockedReason ::
  "on_call_rotations_row \<Rightarrow> PlanWindowsResult \<Rightarrow> (on_call_schedules_row \<times> GeneratedWindow) option \<Rightarrow> string option" where
  "nextBlockedReason rotation plan clash =
     (if pr_stoppedBy plan = Some StopNoMembers then Some NO_MEMBERS_REASON
      else (case clash of
              Some (c, w) \<Rightarrow> Some (overlapReason c w)
            | None \<Rightarrow> if 0 < length (pr_windows plan) + pr_skippedEnded plan then None else ro_blockedReason rotation))"

definition moveCursor ::
  "oncall_env \<Rightarrow> string \<Rightarrow> on_call_rotations_row \<Rightarrow> rotation_cursor \<Rightarrow> string option \<Rightarrow> oncall_db \<Rightarrow> oncall_db" where
  "moveCursor env tenantId rotation cursor blockedReason db =
     (if cu_nextStartsAt cursor \<noteq> ro_nextStartsAt rotation \<or> cu_lastPrimary cursor \<noteq> ro_lastPrimaryUserId rotation \<or>
         cu_lastBackup cursor \<noteq> ro_lastBackupUserId rotation \<or> blockedReason \<noteq> ro_blockedReason rotation
      then db\<lparr>oc_rotations := updateW (isRotation tenantId (ro_id rotation))
             (\<lambda>r. r\<lparr>ro_nextStartsAt := cu_nextStartsAt cursor, ro_lastPrimaryUserId := cu_lastPrimary cursor,
                ro_lastBackupUserId := cu_lastBackup cursor, ro_blockedReason := blockedReason,
                ro_updatedAt := ce_updatedAt env\<rparr>) (oc_rotations db)\<rparr>
      else db)"

definition planInput :: "oncall_db \<Rightarrow> string \<Rightarrow> on_call_rotations_row \<Rightarrow> date \<Rightarrow> PlanWindowsInput" where
  "planInput db tenantId rotation now =
     \<lparr>pw_members = loadTeamMemberIds db tenantId (ro_teamId rotation), pw_cycleDays = ro_cycleDays rotation,
      pw_nextStartsAt = ro_nextStartsAt rotation, pw_previous = loadPreviousHolders db tenantId rotation,
      pw_escalationManager = ro_escalationManagerUserId rotation, pw_now = now, pw_endsOn = ro_endsOn rotation,
      pw_maxSteps = None\<rparr>"

definition liveTeam :: "oncall_db \<Rightarrow> string \<Rightarrow> string \<Rightarrow> teams_row option" where
  "liveTeam db tenantId teamId =
     select1 (\<lambda>t. te_id t = teamId \<and> te_tenantId t = tenantId \<and> te_deletedAt t = None) (oc_teams db)"

definition teamGone :: "oncall_env \<Rightarrow> string \<Rightarrow> on_call_rotations_row \<Rightarrow> oncall_db \<Rightarrow> oncall_db" where
  "teamGone env tenantId rotation db =
     (if ro_blockedReason rotation \<noteq> Some TEAM_DELETED_REASON
      then db\<lparr>oc_rotations := updateW (isRotation tenantId (ro_id rotation))
             (\<lambda>r. r\<lparr>ro_blockedReason := Some TEAM_DELETED_REASON, ro_updatedAt := ce_updatedAt env\<rparr>) (oc_rotations db)\<rparr>
      else db)"

definition generateForRotation ::
  "oncall_env \<Rightarrow> oncall_db \<Rightarrow> string \<Rightarrow> string \<Rightarrow> date \<Rightarrow> string + (GenerationResult \<times> oncall_db)" where
  "generateForRotation env db tenantId rotationId now =
     (case lockRotation env db tenantId rotationId of
        None \<Rightarrow> Inr (idle, db)
      | Some rotation \<Rightarrow>
          if liveTeam db tenantId (ro_teamId rotation) = None then Inr (idle, teamGone env tenantId rotation db)
          else (let plan = planWindows (planInput db tenantId rotation now);
                    (free, clash) = untilClash db tenantId (ro_teamId rotation) (pr_windows plan) in
                bindE (createWindows env tenantId rotation free 0 db) (\<lambda>(created, db1).
                let reason = nextBlockedReason rotation plan clash
                in Inr (\<lparr>gr_windowsCreated = created, gr_blocked = (reason \<noteq> None), gr_capped = pr_capped plan\<rparr>,
                        moveCursor env tenantId rotation (nextCursor rotation plan free (clash \<noteq> None)) reason db1))))"

section \<open>Announcing windows\<close>

record NoticeTarget =
  ta_scheduleId :: string
  ta_userId :: string
  ta_role :: NoticeRole
  ta_startsAt :: date
  ta_endsAt :: date

definition isAnnounced :: "string \<Rightarrow> string \<Rightarrow> date \<Rightarrow> on_call_schedules_row \<Rightarrow> bool" where
  "isAnnounced tenantId rotationId now r =
     (cs_tenantId r = tenantId \<and> cs_rotationId r = Some rotationId \<and> isLive r \<and> now < cs_startsAt r \<and>
      cs_startsAt r \<le> now + ROTATION_NOTICE_LEAD_MS)"

definition holdersOf :: "on_call_schedules_row \<Rightarrow> (string \<times> NoticeRole) list" where
  "holdersOf w =
     filter (\<lambda>(u, _). u \<noteq> '''')
       ((cs_primaryUserId w, RolePrimary) #
        (case cs_backupUserId w of None \<Rightarrow> [] | Some u \<Rightarrow> [(u, RoleBackup)]) @
        (case cs_escalationManagerUserId w of None \<Rightarrow> [] | Some u \<Rightarrow> [(u, RoleEscalationManager)]))"

definition noticeTargets :: "oncall_db \<Rightarrow> string \<Rightarrow> string \<Rightarrow> date \<Rightarrow> NoticeTarget list" where
  "noticeTargets db tenantId rotationId now =
     concat (map (\<lambda>w. map (\<lambda>(u, role). \<lparr>ta_scheduleId = cs_id w, ta_userId = u, ta_role = role,
           ta_startsAt = cs_startsAt w, ta_endsAt = cs_endsAt w\<rparr>) (holdersOf w))
       (sort_key cs_startsAt (selectW (isAnnounced tenantId rotationId now) (oc_schedules db))))"

definition noticeBody :: "string \<Rightarrow> NoticeTarget \<Rightarrow> string" where
  "noticeBody teamName target =
     ''You will be '' @ rolePhrase (ta_role target) @ '' for '' @ plain teamName @ '' from '' @
     utcStamp (ta_startsAt target) @ '' to '' @ utcStamp (ta_endsAt target)"

definition claimed :: "oncall_db \<Rightarrow> NoticeTarget \<Rightarrow> bool" where
  "claimed db target =
     list_ex (\<lambda>r. nt_scheduleId r = ta_scheduleId target \<and> nt_userId r = ta_userId target \<and> nt_role r = ta_role target)
       (oc_notices db)"

text \<open>
  The claim and the notification commit together; the message to the outbound queue follows and its
  failure is only logged, but a failing query for the setting is thrown after the commit.
\<close>

definition sendOneNotice :: "oncall_env \<Rightarrow> oncall_db \<Rightarrow> string \<Rightarrow> string \<Rightarrow> NoticeTarget \<Rightarrow> (string + bool) \<times> oncall_db" where
  "sendOneNotice env db tenantId teamName target =
     (if claimed db target then (Inr False, db)
      else if ce_noticeFails env (ta_scheduleId target) (ta_userId target) (ta_role target) then (Inl ''notice'', db)
      else (let newId = ce_notificationId env (length (oc_notifications db));
                db1 = db\<lparr>oc_notices := insertRow \<lparr>nt_tenantId = tenantId, nt_scheduleId = ta_scheduleId target,
                         nt_userId = ta_userId target, nt_role = ta_role target\<rparr> (oc_notices db),
                      oc_notifications := insertRow \<lparr>nf_id = newId, nf_tenantId = tenantId, nf_type = NOTICE_TYPE,
                         nf_title = ''On-call rotation'', nf_body = noticeBody teamName target\<rparr> (oc_notifications db),
                      oc_recipients := insertRow \<lparr>nr_notificationId = newId, nr_tenantId = tenantId,
                         nr_userId = ta_userId target\<rparr> (oc_recipients db)\<rparr>
            in case ce_outboundEnabled env newId of
                 None \<Rightarrow> (Inl ''settings'', db1)
               | Some enabled \<Rightarrow>
                   (Inr True, if enabled \<and> \<not> ce_enqueueFails env newId
                      then db1\<lparr>oc_outbound := addUnique id newId (oc_outbound db1)\<rparr> else db1)))"

record notice_counts =
  nc_sent :: nat
  nc_failed :: nat

fun sendNotices ::
  "oncall_env \<Rightarrow> string \<Rightarrow> string \<Rightarrow> NoticeTarget list \<Rightarrow> notice_counts \<Rightarrow> oncall_db \<Rightarrow> notice_counts \<times> oncall_db" where
  "sendNotices env tenantId teamName [] counts db = (counts, db)"
| "sendNotices env tenantId teamName (t # ts) counts db =
     (case sendOneNotice env db tenantId teamName t of
        (Inr sent, db1) \<Rightarrow>
          sendNotices env tenantId teamName ts (if sent then counts\<lparr>nc_sent := nc_sent counts + 1\<rparr> else counts) db1
      | (Inl _, db1) \<Rightarrow>
          sendNotices env tenantId teamName ts (counts\<lparr>nc_failed := nc_failed counts + 1\<rparr>) db1)"

definition sendNoticesForRotation ::
  "oncall_env \<Rightarrow> oncall_db \<Rightarrow> string \<Rightarrow> string \<Rightarrow> date \<Rightarrow> notice_counts \<times> oncall_db" where
  "sendNoticesForRotation env db tenantId rotationId now =
     (case select1 (isRotation tenantId rotationId) (oc_rotations db) of
        None \<Rightarrow> (\<lparr>nc_sent = 0, nc_failed = 0\<rparr>, db)
      | Some rotation \<Rightarrow>
          (let teamName = (case select1 (\<lambda>t. te_id t = ro_teamId rotation \<and> te_tenantId t = tenantId) (oc_teams db) of
                 Some t \<Rightarrow> te_name t | None \<Rightarrow> ''your team'')
           in sendNotices env tenantId teamName (noticeTargets db tenantId rotationId now) \<lparr>nc_sent = 0, nc_failed = 0\<rparr> db))"

section \<open>The tick\<close>

record tick_counts =
  tk_windowsCreated :: nat
  tk_noticesSent :: nat
  tk_failed :: nat
  tk_skippedIneligible :: nat

definition tickRotation ::
  "oncall_env \<Rightarrow> date \<Rightarrow> string \<times> string \<Rightarrow> tick_counts \<times> oncall_db \<Rightarrow> tick_counts \<times> oncall_db" where
  "tickRotation env now r w =
     (let (rotationId, tenantId) = r; (counts, db) = w in
      if \<not> ce_tenantActive env tenantId then (counts\<lparr>tk_skippedIneligible := tk_skippedIneligible counts + 1\<rparr>, db)
      else (case generateForRotation env db tenantId rotationId now of
              Inl _ \<Rightarrow> (counts\<lparr>tk_failed := tk_failed counts + 1\<rparr>, db)
            | Inr (generated, db1) \<Rightarrow>
                (let (notices, db2) = sendNoticesForRotation env db1 tenantId rotationId now
                 in (counts\<lparr>tk_windowsCreated := tk_windowsCreated counts + gr_windowsCreated generated,
                       tk_noticesSent := tk_noticesSent counts + nc_sent notices,
                       tk_failed := tk_failed counts + nc_failed notices\<rparr>, db2))))"

definition rotationTick :: "oncall_env \<Rightarrow> date \<Rightarrow> oncall_db \<Rightarrow> tick_counts \<times> oncall_db" where
  "rotationTick env now db =
     fold (tickRotation env now)
       (map (\<lambda>r. (ro_id r, ro_tenantId r)) (selectW (\<lambda>r. ro_status r = RotationActive) (oc_rotations db)))
       (\<lparr>tk_windowsCreated = 0, tk_noticesSent = 0, tk_failed = 0, tk_skippedIneligible = 0\<rparr>, db)"

end
