(* ===== verification/OncallProps.thy ===== *)
theory OncallProps
  imports OncallWorker RotationProps
begin

text \<open>
  What the stored roster guarantees: generation never fails and never creates overlapping windows,
  at any moment at most one window of a team is active and the cascade picks its first reachable person,
  and nobody gets a notice twice.
\<close>

section \<open>The roster invariant\<close>

definition compatible :: "on_call_schedules_row \<Rightarrow> on_call_schedules_row \<Rightarrow> bool" where
  "compatible r q \<longleftrightarrow> \<not> (isLive r \<and> isLive q \<and> sameTeam r q \<and> windowsOverlap r q) \<and>
     \<not> (cs_rotationId r \<noteq> None \<and> cs_rotationId r = cs_rotationId q \<and> cs_startsAt r = cs_startsAt q)"

definition rosterInv :: "on_call_schedules_row list \<Rightarrow> bool" where
  "rosterInv rows \<longleftrightarrow> distinct (map cs_id rows) \<and> (\<forall>r \<in> set rows. cs_startsAt r < cs_endsAt r) \<and>
     (\<forall>r \<in> set rows. \<forall>q \<in> set rows. r \<noteq> q \<longrightarrow> compatible r q)"

lemma compatible_sym: "compatible a b \<longleftrightarrow> compatible b a"
  by (auto simp: compatible_def sameTeam_def windowsOverlap_def)

lemma insertWindow_True:
  assumes "insertWindow row rows = Inr (True, rows')" "isLive row"
  shows "rows' = rows @ [row] \<and> cs_startsAt row < cs_endsAt row \<and> cs_id row \<notin> cs_id ` set rows \<and>
    (\<forall>r \<in> set rows. compatible row r)"
  using assms by (auto simp: insertWindow_def insertRow_def list_ex_iff compatible_def sameTeam_def windowsOverlap_def split: if_splits)

lemma insertWindow_False: "insertWindow row rows = Inr (False, rows') \<Longrightarrow> rows' = rows"
  by (auto simp: insertWindow_def split: if_splits)

lemma rosterInv_snoc:
  assumes "rosterInv rows" "cs_startsAt row < cs_endsAt row" "cs_id row \<notin> cs_id ` set rows" "\<forall>r \<in> set rows. compatible row r"
  shows "rosterInv (rows @ [row])"
  using assms compatible_sym unfolding rosterInv_def by auto

lemma insertWindow_inv:
  assumes "insertWindow row rows = Inr (b, rows')" "rosterInv rows" "isLive row"
  shows "rosterInv rows'"
  using assms insertWindow_True [of row rows rows'] insertWindow_False [of row rows rows'] rosterInv_snoc
  by (cases b) auto

section \<open>Who is on call\<close>

lemma find_first:
  "List.find P xs = Some x \<longleftrightarrow> (\<exists>ys zs. xs = ys @ x # zs \<and> P x \<and> (\<forall>y \<in> set ys. \<not> P y))"
proof
  show "List.find P xs = Some x \<Longrightarrow> \<exists>ys zs. xs = ys @ x # zs \<and> P x \<and> (\<forall>y \<in> set ys. \<not> P y)"
  proof (induction xs)
    case (Cons a xs)
    show ?case
    proof (cases "P a")
      case True
      then show ?thesis using Cons.prems by (intro exI [of _ "[]"] exI [of _ xs]) simp
    next
      case False
      then obtain ys zs where "xs = ys @ x # zs" "P x" "\<forall>y \<in> set ys. \<not> P y" using Cons by auto
      then show ?thesis using False by (intro exI [of _ "a # ys"] exI [of _ zs]) simp
    qed
  qed simp
next
  have "List.find P (ys @ x # zs) = Some x" if "P x" "\<forall>y \<in> set ys. \<not> P y" for ys zs
    using that by (induction ys) auto
  then show "\<exists>ys zs. xs = ys @ x # zs \<and> P x \<and> (\<forall>y \<in> set ys. \<not> P y) \<Longrightarrow> List.find P xs = Some x" by blast
qed

lemma resolvable_known:
  "p \<in> set ps \<Longrightarrow> snd p \<in> getUsersResolvableSet db tid (map snd ps) \<longleftrightarrow> isUserResolvable db tid (snd p)"
  by (force simp: isUserResolvable_def getUsersResolvableSet_def)

lemma cascade_first:
  "resolveOncallCascade db tid s = Some (tier, u) \<longleftrightarrow>
    (\<exists>ys zs. cascadeCandidates s = ys @ (tier, u) # zs \<and> isUserResolvable db tid u \<and>
       (\<forall>p \<in> set ys. \<not> isUserResolvable db tid (snd p)))"
proof -
  let ?known = "\<lambda>p. snd p \<in> getUsersResolvableSet db tid (map snd (cascadeCandidates s))"
  note known = resolvable_known [where ps = "cascadeCandidates s"]
  have "resolveOncallCascade db tid s = List.find ?known (cascadeCandidates s)"
    by (simp add: resolveOncallCascade_def Let_def case_prod_beta')
  then have "resolveOncallCascade db tid s = Some (tier, u) \<longleftrightarrow>
      (\<exists>ys zs. cascadeCandidates s = ys @ (tier, u) # zs \<and> ?known (tier, u) \<and> (\<forall>p \<in> set ys. \<not> ?known p))"
    by (simp only: find_first)
  moreover have "?known (tier, u) \<and> (\<forall>p \<in> set ys. \<not> ?known p) \<longleftrightarrow>
      isUserResolvable db tid u \<and> (\<forall>p \<in> set ys. \<not> isUserResolvable db tid (snd p))"
    if "cascadeCandidates s = ys @ (tier, u) # zs" for ys zs
    using known [of "(tier, u)" db tid] known [of _ db tid] that by (metis in_set_conv_decomp snd_conv Un_iff set_append)
  ultimately show ?thesis by blast
qed

lemma active_unique:
  assumes "rosterInv (oc_schedules db)"
  shows "getActiveScheduleForTeam db tid team now = Some w \<longleftrightarrow> w \<in> set (oc_schedules db) \<and> isActiveAt tid team now w"
proof
  assume "getActiveScheduleForTeam db tid team now = Some w"
  then show "w \<in> set (oc_schedules db) \<and> isActiveAt tid team now w" by (auto simp: getActiveScheduleForTeam_def)
next
  assume w: "w \<in> set (oc_schedules db) \<and> isActiveAt tid team now w"
  then obtain q where q: "getActiveScheduleForTeam db tid team now = Some q"
    using select1_None_iff [of "isActiveAt tid team now" "oc_schedules db"]
    by (cases "getActiveScheduleForTeam db tid team now") (auto simp: getActiveScheduleForTeam_def)
  then have "q \<in> set (oc_schedules db)" "isActiveAt tid team now q" by (auto simp: getActiveScheduleForTeam_def)
  moreover have "\<not> compatible q w" if "isActiveAt tid team now q"
    using that w by (auto simp: compatible_def isActiveAt_def sameTeam_def windowsOverlap_def)
  ultimately have "q = w" using assms w unfolding rosterInv_def by blast
  then show "getActiveScheduleForTeam db tid team now = Some w" using q by simp
qed

section \<open>The planned windows\<close>

definition inOrder :: "GeneratedWindow list \<Rightarrow> bool" where
  "inOrder ws \<longleftrightarrow> sorted_wrt (\<lambda>a b. gw_endsAt a \<le> gw_startsAt b) ws \<and> (\<forall>w \<in> set ws. gw_startsAt w < gw_endsAt w)"

lemma startAt_mono: "0 < rc_cycleDays c \<Longrightarrow> j \<le> k \<Longrightarrow> startAt c j \<le> startAt c k"
  by (simp add: startAt_def cycleMs_def DAY_MS_def mult_right_mono)

lemma planned_inOrder:
  assumes "0 < pw_cycleDays i"
  shows "inOrder (pr_windows (planWindows i))"
proof (cases "rc_members (planCfg i) = []")
  case False
  have pos: "0 < rc_cycleDays (planCfg i)" using assms by (simp add: planCfg_def)
  obtain a b where ws: "pr_windows (planWindows i) = map (windowAt (planCfg i)) [a..<b]"
    using planned.slice [OF False pos] by blast
  have "sorted_wrt (<) [a..<b]" by simp
  then have "sorted_wrt (\<lambda>j k. startAt (planCfg i) (Suc j) \<le> startAt (planCfg i) k) [a..<b]"
    by (rule sorted_wrt_mono_rel [rotated]) (simp add: startAt_mono [OF pos])
  moreover have "startAt (planCfg i) k < startAt (planCfg i) (Suc k)" for k
    using pos by (simp add: startAt_Suc cycleMs_def DAY_MS_def)
  ultimately show ?thesis by (auto simp: inOrder_def ws sorted_wrt_map)
qed (simp add: planned.nobody inOrder_def)

lemma planned_current:
  assumes "w \<in> set (pr_windows (planWindows i))"
  shows "pw_now i < gw_endsAt w \<and> gw_startsAt w \<le> pw_now i + ROTATION_NOTICE_LEAD_MS"
proof -
  have "pw_members i \<noteq> []" using assms by (auto simp: planWindows_def planInit_def Let_def)
  then obtain s where "onTrack i s" "pr_windows (planWindows i) = ps_windows s" by (rule planWindows_state)
  then show ?thesis using assms by (auto simp: onTrack_def due_def)
qed

section \<open>Generating without overlap\<close>

lemma untilClash_split:
  assumes "untilClash db tid team ws = (free, clash)"
  shows "\<exists>rest. ws = free @ rest \<and> (\<forall>w \<in> set free. clashOf db tid team w = None) \<and>
    (clash = None \<longleftrightarrow> rest = []) \<and> (\<forall>c w. clash = Some (c, w) \<longrightarrow> clashOf db tid team w = Some c \<and> (\<exists>rs. rest = w # rs))"
  using assms
proof (induction ws arbitrary: free)
  case (Cons w ws)
  show ?case
  proof (cases "clashOf db tid team w")
    case None
    then obtain free' where f: "free = w # free'" "untilClash db tid team ws = (free', clash)"
      using Cons.prems by (auto split: prod.splits)
    show ?thesis using Cons.IH [OF f(2)] None by (auto simp: f(1))
  qed (use Cons.prems in auto)
qed simp

definition noClash :: "string \<Rightarrow> string \<Rightarrow> on_call_schedules_row list \<Rightarrow> GeneratedWindow \<Rightarrow> bool" where
  "noClash tid team rows w \<longleftrightarrow> (\<forall>r \<in> set rows. cs_tenantId r = tid \<and> cs_teamId r = team \<and> isLive r \<longrightarrow>
     \<not> (cs_startsAt r < gw_endsAt w \<and> gw_startsAt w < cs_endsAt r))"

lemma clashOf_None: "clashOf db tid team w = None \<longleftrightarrow> noClash tid team (oc_schedules db) w"
  by (auto simp: clashOf_def noClash_def select1_None_iff)

definition freshIds :: "oncall_env \<Rightarrow> on_call_schedules_row list \<Rightarrow> bool" where
  "freshIds env rows \<longleftrightarrow> inj (ce_scheduleId env) \<and> (\<forall>k \<ge> length rows. ce_scheduleId env k \<notin> cs_id ` set rows)"

lemma windowRow_sel [simp]:
  "cs_id (windowRow i ro tid w) = i" "cs_tenantId (windowRow i ro tid w) = tid" "cs_teamId (windowRow i ro tid w) = ro_teamId ro"
  "cs_startsAt (windowRow i ro tid w) = gw_startsAt w" "cs_endsAt (windowRow i ro tid w) = gw_endsAt w"
  "cs_primaryUserId (windowRow i ro tid w) = gw_primary w" "cs_backupUserId (windowRow i ro tid w) = gw_backup w"
  "cs_rotationId (windowRow i ro tid w) = Some (ro_id ro)" "isLive (windowRow i ro tid w)"
  by (simp_all add: windowRow_def isLive_def)

definition createdFrom ::
  "string \<Rightarrow> on_call_rotations_row \<Rightarrow> GeneratedWindow list \<Rightarrow> on_call_schedules_row list \<Rightarrow> bool" where
  "createdFrom tid ro ws new \<longleftrightarrow> (\<forall>r \<in> set new. \<exists>w \<in> set ws. r = windowRow (cs_id r) ro tid w)"

lemma insertWindow_free:
  assumes "gw_startsAt w < gw_endsAt w" "noClash tid (ro_teamId ro) rows w" "i \<notin> cs_id ` set rows"
  shows "insertWindow (windowRow i ro tid w) rows =
    Inr (\<not> (\<exists>r \<in> set rows. cs_rotationId r = Some (ro_id ro) \<and> cs_startsAt r = gw_startsAt w),
      if \<exists>r \<in> set rows. cs_rotationId r = Some (ro_id ro) \<and> cs_startsAt r = gw_startsAt w then rows
      else rows @ [windowRow i ro tid w])"
  using assms by (auto simp: insertWindow_def list_ex_iff insertRow_def noClash_def sameTeam_def windowsOverlap_def)

lemma freshIds_snoc: "freshIds env rows \<Longrightarrow> cs_id r = ce_scheduleId env (length rows) \<Longrightarrow> freshIds env (rows @ [r])"
  by (auto simp: freshIds_def dest: injD)

lemma noClash_snoc:
  "noClash tid team rows w' \<Longrightarrow> gw_endsAt w \<le> gw_startsAt w' \<Longrightarrow> cs_endsAt r = gw_endsAt w \<Longrightarrow> noClash tid team (rows @ [r]) w'"
  by (auto simp: noClash_def)

lemma createWindows_ok:
  assumes "rosterInv (oc_schedules db)" "freshIds env (oc_schedules db)" "\<forall>i. \<not> ce_auditFails env i" "inOrder ws"
    and "\<forall>w \<in> set ws. noClash tid (ro_teamId ro) (oc_schedules db) w"
  shows "\<exists>new au. createWindows env tid ro ws n db =
      Inr (n + length new, db\<lparr>oc_schedules := oc_schedules db @ new, oc_audit := au\<rparr>) \<and> createdFrom tid ro ws new \<and>
    rosterInv (oc_schedules db @ new) \<and> freshIds env (oc_schedules db @ new)"
  using assms
proof (induction ws arbitrary: n db)
  case Nil
  show ?case using Nil.prems by (intro exI [of _ "[]"] exI [of _ "oc_audit db"]) (simp add: createdFrom_def)
next
  case (Cons w ws)
  let ?rows = "oc_schedules db" and ?row = "windowRow (ce_scheduleId env (length (oc_schedules db))) ro tid w"
  have w: "gw_startsAt w < gw_endsAt w" "noClash tid (ro_teamId ro) ?rows w" and ws: "inOrder ws"
    using Cons.prems(4,5) by (simp_all add: inOrder_def)
  have new: "cs_id ?row \<notin> cs_id ` set ?rows" using Cons.prems(2) by (simp add: freshIds_def)
  note insert = insertWindow_free [OF w new [simplified]]
  show ?case
  proof (cases "\<exists>r \<in> set ?rows. cs_rotationId r = Some (ro_id ro) \<and> cs_startsAt r = gw_startsAt w")
    case True
    have "createWindows env tid ro (w # ws) n db = createWindows env tid ro ws n db"
      using insert True by (simp add: Let_def)
    moreover obtain nw au where "createWindows env tid ro ws n db =
        Inr (n + length nw, db\<lparr>oc_schedules := ?rows @ nw, oc_audit := au\<rparr>)"
      "createdFrom tid ro ws nw" "rosterInv (?rows @ nw)" "freshIds env (?rows @ nw)"
      using Cons.IH [OF Cons.prems(1-3) ws, of n] Cons.prems(5) by auto
    ultimately show ?thesis by (intro exI [of _ nw] exI [of _ au]) (auto simp: createdFrom_def)
  next
    case False
    define db1 where "db1 = db\<lparr>oc_schedules := ?rows @ [?row], oc_audit := oc_audit db @
      [\<lparr>au_tenantId = tid, au_actorId = SYSTEM_ACTOR, au_resourceId = cs_id ?row, au_action = ''created''\<rparr>]\<rparr>"
    have ins: "insertWindow ?row ?rows = Inr (True, ?rows @ [?row])" using insert False by simp
    then have run: "createWindows env tid ro (w # ws) n db = createWindows env tid ro ws (n + 1) db1"
      using Cons.prems(3) by (simp add: Let_def db1_def)
    have "\<forall>w' \<in> set ws. noClash tid (ro_teamId ro) (oc_schedules db1) w'"
      using Cons.prems(4,5) noClash_snoc [of tid "ro_teamId ro" ?rows _ w ?row] by (simp add: db1_def inOrder_def)
    moreover have "rosterInv (oc_schedules db1)" "freshIds env (oc_schedules db1)"
      using insertWindow_inv [OF ins Cons.prems(1)] freshIds_snoc [OF Cons.prems(2)] by (simp_all add: db1_def)
    ultimately obtain nw au where "createWindows env tid ro ws (n + 1) db1 =
        Inr (n + 1 + length nw, db1\<lparr>oc_schedules := oc_schedules db1 @ nw, oc_audit := au\<rparr>)"
      "createdFrom tid ro ws nw" "rosterInv (oc_schedules db1 @ nw)" "freshIds env (oc_schedules db1 @ nw)"
      using Cons.IH [of db1 "n + 1"] Cons.prems(3) ws by auto
    then show ?thesis unfolding run
      by (intro exI [of _ "?row # nw"] exI [of _ au]) (auto simp: createdFrom_def db1_def)
  qed
qed

lemma moveCursor_frame [simp]:
  "oc_schedules (moveCursor env tid ro c reason db) = oc_schedules db"
  "oc_schedules (teamGone env tid ro db) = oc_schedules db"
  by (simp_all add: moveCursor_def teamGone_def)

lemma distinct_members: "membersUnique (oc_members db) \<Longrightarrow> distinct (loadTeamMemberIds db tid team)"
  by (auto simp: loadTeamMemberIds_def membersInOrder_def selectW_def membersUnique_def distinct_map isMemberOf_def inj_on_def)

text \<open>
  C24. Generating a roster never fails and never overlaps. On a roster whose windows are disjoint, a
  run for any rotation returns; the windows there were are kept as they are and the new ones are
  appended, as many as it reports; windows of a team still do not overlap and a rotation still has
  one window per start. Each new window belongs to the rotation and its team, is not over,
  has a primary who is a member of the team, and with two or more members a backup who is another one.
\<close>
theorem roster_generation:
  assumes "rosterInv (oc_schedules db)" "freshIds env (oc_schedules db)" "\<forall>i. \<not> ce_auditFails env i"
    and "\<forall>ro \<in> set (oc_rotations db). 0 < ro_cycleDays ro" "membersUnique (oc_members db)"
  shows "\<exists>res db' new. generateForRotation env db tid rid now = Inr (res, db') \<and>
    oc_schedules db' = oc_schedules db @ new \<and> length new = gr_windowsCreated res \<and> rosterInv (oc_schedules db') \<and>
    (\<forall>r \<in> set new. cs_tenantId r = tid \<and> cs_rotationId r = Some rid \<and> now < cs_endsAt r \<and>
       (let members = loadTeamMemberIds db tid (cs_teamId r)
        in cs_primaryUserId r \<in> set members \<and>
           (1 < length members \<longrightarrow> (\<exists>b \<in> set members. cs_backupUserId r = Some b \<and> b \<noteq> cs_primaryUserId r))))"
proof (cases "lockRotation env db tid rid")
  case None
  then show ?thesis using assms(1) by (simp add: generateForRotation_def idle_def)
next
  case (Some ro)
  then have ro: "ro \<in> set (oc_rotations db)" "ro_id ro = rid" by (auto simp: lockRotation_def isRotation_def)
  show ?thesis
  proof (cases "liveTeam db tid (ro_teamId ro) = None")
    case True
    then show ?thesis using Some assms(1) by (simp add: generateForRotation_def idle_def)
  next
    case False
    let ?i = "planInput db tid ro now"
    let ?plan = "planWindows ?i"
    obtain free clash where clash: "untilClash db tid (ro_teamId ro) (pr_windows ?plan) = (free, clash)" by fastforce
    obtain rest where rest: "pr_windows ?plan = free @ rest" and ok: "\<forall>w \<in> set free. noClash tid (ro_teamId ro) (oc_schedules db) w"
      using untilClash_split [OF clash] by (auto simp: clashOf_None)
    have pos: "0 < pw_cycleDays ?i" using assms(4) ro by (simp add: planInput_def)
    then have "inOrder free" using planned_inOrder [of ?i] by (simp add: inOrder_def rest sorted_wrt_append)
    then obtain new au where run: "createWindows env tid ro free 0 db =
        Inr (length new, db\<lparr>oc_schedules := oc_schedules db @ new, oc_audit := au\<rparr>)"
      and origin: "createdFrom tid ro free new" and inv: "rosterInv (oc_schedules db @ new)"
      using createWindows_ok [OF assms(1-3) _ ok, of 0] by auto
    have members: "distinct (pw_members ?i)" using distinct_members [OF assms(5)] by (simp add: planInput_def)
    have "\<forall>r \<in> set new. cs_tenantId r = tid \<and> cs_rotationId r = Some rid \<and> now < cs_endsAt r \<and>
       (let members = loadTeamMemberIds db tid (cs_teamId r)
        in cs_primaryUserId r \<in> set members \<and>
           (1 < length members \<longrightarrow> (\<exists>b \<in> set members. cs_backupUserId r = Some b \<and> b \<noteq> cs_primaryUserId r)))"
    proof
      fix r assume "r \<in> set new"
      then obtain w where w: "w \<in> set (pr_windows ?plan)" and r: "r = windowRow (cs_id r) ro tid w"
        using origin rest by (auto simp: createdFrom_def)
      have staffed: "gw_primary w \<in> set (pw_members ?i) \<and>
          (1 < length (pw_members ?i) \<longrightarrow> (\<exists>b \<in> set (pw_members ?i). gw_backup w = Some b \<and> b \<noteq> gw_primary w))"
        using planned.staffed [of ?i w] pos members w by (simp add: planCfg_def)
      show "cs_tenantId r = tid \<and> cs_rotationId r = Some rid \<and> now < cs_endsAt r \<and>
         (let members = loadTeamMemberIds db tid (cs_teamId r)
          in cs_primaryUserId r \<in> set members \<and>
             (1 < length members \<longrightarrow> (\<exists>b \<in> set members. cs_backupUserId r = Some b \<and> b \<noteq> cs_primaryUserId r)))"
        using staffed planned_current [OF w] ro(2) by (subst (1 2 3 4 5 6 7) r) (simp add: planInput_def Let_def)
    qed
    then show ?thesis using Some False run inv
      by (auto simp: generateForRotation_def Let_def clash)
  qed
qed

definition demo_window :: on_call_schedules_row where
  "demo_window = \<lparr>cs_id = ''m'', cs_tenantId = ''t1'', cs_teamId = ''team'', cs_label = ''Manual'', cs_startsAt = -1000, cs_endsAt = 0,
     cs_primaryUserId = ''ann'', cs_backupUserId = Some ''ben'', cs_escalationManagerUserId = None, cs_createdBy = ''olga'',
     cs_deletedAt = None, cs_rotationId = None\<rparr>"

definition demo_roster :: oncall_db where
  "demo_roster = \<lparr>oc_teams = [\<lparr>te_id = ''team'', te_tenantId = ''t1'', te_name = ''Ops'', te_deletedAt = None\<rparr>],
     oc_members = [\<lparr>tm_id = ''m1'', tm_tenantId = ''t1'', tm_teamId = ''team'', tm_userId = ''ann'', tm_position = 0\<rparr>,
       \<lparr>tm_id = ''m2'', tm_tenantId = ''t1'', tm_teamId = ''team'', tm_userId = ''ben'', tm_position = 1\<rparr>],
     oc_schedules = [demo_window],
     oc_rotations = [\<lparr>ro_id = ''rot'', ro_tenantId = ''t1'', ro_teamId = ''team'', ro_cycleDays = 7, ro_status = RotationActive,
       ro_endsOn = None, ro_blockedReason = None, ro_nextStartsAt = 100000000, ro_lastPrimaryUserId = ''ann'',
       ro_lastBackupUserId = Some ''ben'', ro_escalationManagerUserId = None, ro_createdBy = ''olga'', ro_updatedAt = 0\<rparr>],
     oc_notices = [], oc_notifications = [], oc_recipients = [], oc_users = [\<lparr>tu_tenantId = ''t1'', tu_userId = ''ben''\<rparr>],
     oc_audit = [], oc_outbound = []\<rparr>"

definition demo_roster_env :: oncall_env where
  "demo_roster_env = \<lparr>ce_scheduleId = (\<lambda>k. replicate (Suc k) (CHR ''n'')), ce_notificationId = (\<lambda>k. replicate (Suc k) (CHR ''f'')),
     ce_updatedAt = 0, ce_rotationLocked = (\<lambda>_. False), ce_auditFails = (\<lambda>_. False), ce_noticeFails = (\<lambda>_ _ _. False),
     ce_outboundEnabled = (\<lambda>_. Some True), ce_enqueueFails = (\<lambda>_. False), ce_tenantActive = (\<lambda>_. True)\<rparr>"

lemma demo_rosterInv: "rosterInv (oc_schedules demo_roster)"
  by (simp add: rosterInv_def demo_roster_def demo_window_def)

lemma demo_created:
  "map_sum id (\<lambda>p. gr_windowsCreated (fst p)) (generateForRotation demo_roster_env demo_roster ''t1'' ''rot'' 0) = Inr 1"
  by code_simp

theorem roster_generation_witness:
  "\<exists>res db' r. generateForRotation demo_roster_env demo_roster ''t1'' ''rot'' 0 = Inr (res, db') \<and>
     oc_schedules db' = [demo_window, r] \<and> cs_primaryUserId r \<in> {''ann'', ''ben''} \<and> rosterInv (oc_schedules db')"
proof -
  have hyps: "freshIds demo_roster_env (oc_schedules demo_roster)" "\<forall>i. \<not> ce_auditFails demo_roster_env i"
    "\<forall>ro \<in> set (oc_rotations demo_roster). 0 < ro_cycleDays ro" "membersUnique (oc_members demo_roster)"
    by (auto simp: freshIds_def demo_roster_env_def demo_roster_def demo_window_def membersUnique_def inj_def replicate_eq_replicate)
  obtain res db' new where run: "generateForRotation demo_roster_env demo_roster ''t1'' ''rot'' 0 = Inr (res, db')"
    and new: "oc_schedules db' = oc_schedules demo_roster @ new" "length new = gr_windowsCreated res" "rosterInv (oc_schedules db')"
      "\<forall>r \<in> set new. cs_primaryUserId r \<in> set (loadTeamMemberIds demo_roster ''t1'' (cs_teamId r))"
    using roster_generation [OF demo_rosterInv hyps, of "''t1''" "''rot''" 0] by (auto simp: Let_def)
  have "length new = 1" using demo_created run new(2) by simp
  then obtain r where "new = [r]" by (auto simp: length_Suc_conv)
  moreover have "set (loadTeamMemberIds demo_roster ''t1'' team) \<subseteq> {''ann'', ''ben''}" for team
    by (auto simp: loadTeamMemberIds_def membersInOrder_def demo_roster_def)
  moreover have "oc_schedules demo_roster = [demo_window]" by (simp add: demo_roster_def)
  ultimately show ?thesis using run new by (intro exI [of _ res] exI [of _ db'] exI [of _ r]) auto
qed

section \<open>Ticks\<close>

definition noticeKeys :: "oncall_db \<Rightarrow> (string \<times> string \<times> NoticeRole) list" where
  "noticeKeys db = map (\<lambda>n. (nt_scheduleId n, nt_userId n, nt_role n)) (oc_notices db)"

text \<open>A notice for someone who holds a role in a live window that starts soon and has not started.\<close>

definition timely :: "date \<Rightarrow> on_call_schedules_row list \<Rightarrow> notices_row \<Rightarrow> bool" where
  "timely now rows n \<longleftrightarrow> (\<exists>w \<in> set rows. cs_id w = nt_scheduleId n \<and> isLive w \<and> now < cs_startsAt w \<and>
     cs_startsAt w \<le> now + ROTATION_NOTICE_LEAD_MS \<and> (nt_userId n, nt_role n) \<in> set (holdersOf w))"

definition tickStep :: "date \<Rightarrow> oncall_db \<Rightarrow> oncall_db \<Rightarrow> bool" where
  "tickStep now db db' \<longleftrightarrow> (\<exists>windows new rs.
     oc_schedules db' = oc_schedules db @ windows \<and> oc_notices db' = oc_notices db @ new \<and>
     oc_recipients db' = oc_recipients db @ rs \<and> map nr_userId rs = map nt_userId new \<and>
     length (oc_notifications db') = length (oc_notifications db) + length new \<and>
     (\<forall>n \<in> set new. timely now (oc_schedules db') n)) \<and>
     (rosterInv (oc_schedules db) \<longrightarrow> rosterInv (oc_schedules db')) \<and>
     (distinct (noticeKeys db) \<longrightarrow> distinct (noticeKeys db'))"

lemma timely_more: "timely now rows n \<Longrightarrow> timely now (rows @ xs) n"
  by (auto simp: timely_def)

lemma tickStep_refl: "tickStep now db db"
  by (auto simp: tickStep_def)

lemma tickStep_trans:
  assumes "tickStep now a b" "tickStep now b c"
  shows "tickStep now a c"
proof -
  obtain w1 n1 r1 where 1: "oc_schedules b = oc_schedules a @ w1" "oc_notices b = oc_notices a @ n1"
    "oc_recipients b = oc_recipients a @ r1" "map nr_userId r1 = map nt_userId n1"
    "length (oc_notifications b) = length (oc_notifications a) + length n1" "\<forall>n \<in> set n1. timely now (oc_schedules b) n"
    using assms(1) unfolding tickStep_def by blast
  obtain w2 n2 r2 where 2: "oc_schedules c = oc_schedules b @ w2" "oc_notices c = oc_notices b @ n2"
    "oc_recipients c = oc_recipients b @ r2" "map nr_userId r2 = map nt_userId n2"
    "length (oc_notifications c) = length (oc_notifications b) + length n2" "\<forall>n \<in> set n2. timely now (oc_schedules c) n"
    using assms(2) unfolding tickStep_def by blast
  have "\<forall>n \<in> set (n1 @ n2). timely now (oc_schedules c) n" using 1(6) 2(1,6) timely_more by fastforce
  moreover have "oc_schedules c = oc_schedules a @ (w1 @ w2)" "oc_notices c = oc_notices a @ (n1 @ n2)"
    "oc_recipients c = oc_recipients a @ (r1 @ r2)" "map nr_userId (r1 @ r2) = map nt_userId (n1 @ n2)"
    "length (oc_notifications c) = length (oc_notifications a) + length (n1 @ n2)"
    using 1 2 by simp_all
  ultimately show ?thesis using assms unfolding tickStep_def by metis
qed

lemma createWindows_step:
  "createWindows env tid ro ws n db = Inr (m, db') \<Longrightarrow> tickStep now db db'"
proof (induction ws arbitrary: n db)
  case (Cons w ws)
  let ?row = "windowRow (ce_scheduleId env (length (oc_schedules db))) ro tid w"
  obtain b rows where ins: "insertWindow ?row (oc_schedules db) = Inr (b, rows)"
    using Cons.prems by (auto simp: Let_def result_simps)
  show ?case
  proof (cases b)
    case False
    then show ?thesis using Cons ins by (simp add: Let_def)
  next
    case True
    let ?db1 = "db\<lparr>oc_schedules := rows, oc_audit := oc_audit db @
      [\<lparr>au_tenantId = tid, au_actorId = SYSTEM_ACTOR, au_resourceId = cs_id ?row, au_action = ''created''\<rparr>]\<rparr>"
    have "createWindows env tid ro ws (n + 1) ?db1 = Inr (m, db')"
      using Cons.prems ins True by (auto simp: Let_def result_simps)
    moreover have "tickStep now db ?db1"
      using insertWindow_True [of ?row "oc_schedules db" rows] insertWindow_inv [OF ins] ins True
      by (auto simp: tickStep_def noticeKeys_def)
    ultimately show ?thesis using Cons.IH tickStep_trans by blast
  qed
qed (simp add: tickStep_refl)

lemma cursor_step: "tickStep now db (moveCursor env tid ro c reason db)" "tickStep now db (teamGone env tid ro db)"
  by (auto simp: tickStep_def moveCursor_def teamGone_def noticeKeys_def)

lemma generate_step:
  assumes "generateForRotation env db tid rid now = Inr (res, db')"
  shows "tickStep now db db'"
proof (cases "lockRotation env db tid rid")
  case None
  then show ?thesis using assms tickStep_refl by (simp add: generateForRotation_def)
next
  case (Some ro)
  show ?thesis
  proof (cases "liveTeam db tid (ro_teamId ro) = None")
    case True
    then show ?thesis using assms Some cursor_step by (auto simp: generateForRotation_def)
  next
    case False
    then show ?thesis using assms Some
      by (auto simp: generateForRotation_def Let_def result_simps split: prod.splits
          intro!: tickStep_trans [OF createWindows_step cursor_step(1)])
  qed
qed

lemma sendOneNotice_step:
  assumes "sendOneNotice env db tid name t = (out, db')"
    and "timely now (oc_schedules db) \<lparr>nt_tenantId = tid, nt_scheduleId = ta_scheduleId t, nt_userId = ta_userId t, nt_role = ta_role t\<rparr>"
  shows "tickStep now db db' \<and> oc_schedules db' = oc_schedules db"
proof (cases "claimed db t \<or> ce_noticeFails env (ta_scheduleId t) (ta_userId t) (ta_role t)")
  case True
  then show ?thesis using assms(1) tickStep_refl by (auto simp: sendOneNotice_def split: if_splits)
next
  case False
  then have free: "(ta_scheduleId t, ta_userId t, ta_role t) \<notin> set (noticeKeys db)"
    by (auto simp: claimed_def list_ex_iff noticeKeys_def)
  have db': "oc_schedules db' = oc_schedules db" "oc_notices db' = oc_notices db @ [\<lparr>nt_tenantId = tid,
      nt_scheduleId = ta_scheduleId t, nt_userId = ta_userId t, nt_role = ta_role t\<rparr>]"
    "\<exists>r. oc_recipients db' = oc_recipients db @ [r] \<and> nr_userId r = ta_userId t"
    "length (oc_notifications db') = length (oc_notifications db) + 1"
    using assms(1) False by (auto simp: sendOneNotice_def Let_def insertRow_def split: option.splits if_splits)
  then have "distinct (noticeKeys db) \<longrightarrow> distinct (noticeKeys db')" using free by (simp add: noticeKeys_def)
  then show ?thesis using db' assms(2) unfolding tickStep_def by fastforce
qed

lemma noticeTargets_timely:
  "t \<in> set (noticeTargets db tid rid now) \<Longrightarrow>
   timely now (oc_schedules db) \<lparr>nt_tenantId = tid, nt_scheduleId = ta_scheduleId t, nt_userId = ta_userId t, nt_role = ta_role t\<rparr>"
  by (fastforce simp: noticeTargets_def timely_def isAnnounced_def)

lemma sendNotices_step:
  assumes "\<forall>t \<in> set ts. timely now (oc_schedules db)
      \<lparr>nt_tenantId = tid, nt_scheduleId = ta_scheduleId t, nt_userId = ta_userId t, nt_role = ta_role t\<rparr>"
  shows "tickStep now db (snd (sendNotices env tid name ts counts db))"
  using assms
proof (induction ts arbitrary: counts db)
  case (Cons t ts)
  obtain out db1 where one: "sendOneNotice env db tid name t = (out, db1)" by fastforce
  have step: "tickStep now db db1" "oc_schedules db1 = oc_schedules db"
    using sendOneNotice_step [OF one, of now] Cons.prems by simp_all
  have "tickStep now db1 (snd (sendNotices env tid name ts c db1))" for c
    using Cons.IH [of db1 c] Cons.prems step(2) by simp
  then show ?case using step(1) tickStep_trans by (auto simp: one split: sum.split)
qed (simp add: tickStep_refl)

lemma tickRotation_step: "tickStep now (snd w) (snd (tickRotation env now r w))"
proof -
  obtain rid tid counts db where rw: "r = (rid, tid)" "w = (counts, db)" by (cases r; cases w)
  show ?thesis
  proof (cases "ce_tenantActive env tid \<and> \<not> isl (generateForRotation env db tid rid now)")
    case True
    then obtain res db1 where g: "generateForRotation env db tid rid now = Inr (res, db1)"
      using returns_pair by blast
    have "tickStep now db1 (snd (sendNoticesForRotation env db1 tid rid now))"
      by (auto simp: sendNoticesForRotation_def Let_def tickStep_refl noticeTargets_timely
          intro!: sendNotices_step split: option.split)
    then have "tickStep now db (snd (sendNoticesForRotation env db1 tid rid now))"
      using generate_step [OF g] tickStep_trans by blast
    then show ?thesis using True g by (auto simp: tickRotation_def rw Let_def split: prod.splits)
  next
    case False
    then show ?thesis by (auto simp: tickRotation_def rw tickStep_refl split: sum.splits)
  qed
qed

lemma fold_tickRotation_step: "tickStep now (snd w) (snd (fold (tickRotation env now) rs w))"
proof (induction rs arbitrary: w)
  case (Cons r rs)
  show ?case using tickStep_trans [OF tickRotation_step Cons] by simp
qed (simp add: tickStep_refl)

text \<open>
  A tick of the roster keeps the books, whatever fails in it. It only appends windows, and no two
  live windows of a team overlap afterwards if none did before. Each person gets at most one
  notice per window and role, ever: the claims stay distinct, each new claim comes with
  exactly one notification to that person, and it is for a live window in which the person has that
  role, which has not started and starts within two days.
\<close>
theorem tick_keeps_books:
  assumes "rotationTick env now db = (counts, db')"
  shows "\<exists>windows new rs. oc_schedules db' = oc_schedules db @ windows \<and> oc_notices db' = oc_notices db @ new \<and>
     oc_recipients db' = oc_recipients db @ rs \<and> map nr_userId rs = map nt_userId new \<and>
     length (oc_notifications db') = length (oc_notifications db) + length new \<and>
     (\<forall>n \<in> set new. timely now (oc_schedules db') n) \<and>
     (rosterInv (oc_schedules db) \<longrightarrow> rosterInv (oc_schedules db')) \<and>
     (distinct (noticeKeys db) \<longrightarrow> distinct (noticeKeys db'))"
proof -
  have "tickStep now db db'"
    using fold_tickRotation_step [of now "(_, db)"] assms unfolding rotationTick_def by (metis snd_conv)
  then show ?thesis unfolding tickStep_def by blast
qed

theorem tick_keeps_books_witness:
  "distinct (noticeKeys (snd (rotationTick demo_roster_env 0 demo_roster))) \<and>
   rosterInv (oc_schedules (snd (rotationTick demo_roster_env 0 demo_roster))) \<and>
   length (oc_notices (snd (rotationTick demo_roster_env 0 demo_roster))) = 2 \<and>
   length (oc_notifications (snd (rotationTick demo_roster_env 0 demo_roster))) = 2"
proof -
  have "length (oc_notices (snd (rotationTick demo_roster_env 0 demo_roster))) = 2" by code_simp
  then show ?thesis
    using tick_keeps_books [of demo_roster_env 0 demo_roster, OF surjective_pairing] demo_rosterInv
    by (auto simp: demo_roster_def noticeKeys_def)
qed

text \<open>
  C25. Who is on call is never ambiguous. On a roster without overlaps the lookup finds a window
  exactly when it is a live window of the team that covers the moment, so the answer does not depend on the order of
  the rows; and the cascade names the first of primary, backup and escalation manager whom the tenant still
  knows, and nobody only if it knows none of them.
\<close>
theorem oncall_unambiguous:
  assumes "rosterInv (oc_schedules db)"
  shows "(getActiveScheduleForTeam db tid team now = Some w \<longleftrightarrow> w \<in> set (oc_schedules db) \<and> isActiveAt tid team now w) \<and>
    (resolveOncallCascade db tid w = Some (tier, u) \<longleftrightarrow>
      (\<exists>ys zs. cascadeCandidates w = ys @ (tier, u) # zs \<and> isUserResolvable db tid u \<and>
         (\<forall>p \<in> set ys. \<not> isUserResolvable db tid (snd p)))) \<and>
    (resolveOncallCascade db tid w = None \<longleftrightarrow> (\<forall>p \<in> set (cascadeCandidates w). \<not> isUserResolvable db tid (snd p)))"
proof (intro conjI)
  show "resolveOncallCascade db tid w = None \<longleftrightarrow> (\<forall>p \<in> set (cascadeCandidates w). \<not> isUserResolvable db tid (snd p))"
    using resolvable_known [of _ "cascadeCandidates w" db tid]
    by (auto simp: resolveOncallCascade_def Let_def case_prod_beta' find_None_iff)
qed (fact active_unique [OF assms] cascade_first)+

theorem oncall_unambiguous_witness:
  "getActiveScheduleForTeam demo_roster ''t1'' ''team'' (-500) = Some demo_window \<and>
   resolveOncallCascade demo_roster ''t1'' demo_window = Some (TierBackup, ''ben'')"
proof -
  have "demo_window \<in> set (oc_schedules demo_roster) \<and> isActiveAt ''t1'' ''team'' (-500) demo_window"
    by (simp add: demo_roster_def demo_window_def isActiveAt_def isLive_def)
  moreover have "cascadeCandidates demo_window = [(TierPrimary, ''ann'')] @ (TierBackup, ''ben'') # []"
    by (simp add: cascadeCandidates_def demo_window_def)
  moreover have "isUserResolvable demo_roster ''t1'' ''ben''" "\<not> isUserResolvable demo_roster ''t1'' ''ann''"
    by (simp_all add: isUserResolvable_def getUsersResolvableSet_def demo_roster_def selectW_def)
  ultimately show ?thesis
    using oncall_unambiguous [OF demo_rosterInv, of "''t1''" "''team''" "-500" demo_window TierBackup "''ben''"] by fastforce
qed

end
