(* ===== verification/RecSchema.thy ===== *)
theory RecSchema
  imports EntityAccess Oncall "HOL-Library.AList"
begin

text \<open>
  The data of the record engine (\<open>packages/entity-engine/src\<close>): the interfaces of
  \<open>types.ts\<close>, \<open>errors.ts\<close>, \<open>field-types.ts\<close>, \<open>severity-and-tags.ts\<close> and
  \<open>audit-hook.ts\<close>, the tables of \<open>packages/db/src/schema/entity-engine.ts\<close>, and the
  parameters of a call.

  A row of \<open>entity_instances\<close>, \<open>entity_fields\<close> and \<open>entity_relations\<close> extends the row
  the workflow engine knows by the columns only the record engine uses, so \<open>workflowView\<close> gives
  the workflow engine's database by truncating rows.
\<close>

section \<open>Timestamps\<close>

text \<open>
  A \<open>created_at\<close> column is filled by the database to the microsecond; read into a \<open>Date\<close> it loses
  what is below the millisecond.
\<close>

type_synonym micros = int

definition toDate :: "micros \<Rightarrow> date" where
  "toDate us = us div 1000"

section \<open>Errors\<close>

datatype EntityErrorCode =
    ENTITY_TYPE_NOT_FOUND | ENTITY_TYPE_HAS_INSTANCES | ENTITY_NOT_FOUND | FIELD_NOT_FOUND
  | FIELD_VALIDATION_FAILED | SYSTEM_FIELD_IMMUTABLE | CUSTOM_FIELDS_NOT_ALLOWED | FIELD_NAME_CONFLICT
  | RELATION_NOT_FOUND | RELATION_TARGET_NOT_FOUND | FORMULA_EVALUATION_FAILED
  | CHILD_ALREADY_HAS_PARENT | CHILD_DEPTH_EXCEEDED | CHILDREN_CAP_EXCEEDED | CHILD_CYCLE_DETECTED
  | CHILDREN_DISABLED | ENTITY_HAS_ACTIVE_CHILDREN | RELATION_SELF_LINK | RELATION_ALREADY_EXISTS
  | SEVERITY_REQUIRED | TAG_NOT_FOUND | TAG_FORBIDDEN | TAG_ALREADY_EXISTS | STATE_CHANGE_NOT_ALLOWED

record EntityFieldError =
  xe_field :: string
  xe_code :: string
  xe_message :: string
  xe_meta :: "jsobj option"

text \<open>
  What a call can throw: an error of the engine with its metadata, a list of field errors, or an
  error of the database, the date conversion or the audit hook that the engine lets through.
\<close>

datatype rec_failure =
    EntityError EntityErrorCode jsobj
  | ValidationError "EntityFieldError list"
  | ThrownError string

section \<open>Entity types and fields\<close>

datatype FieldType =
    FtText | FtLongtext | FtNumber | FtCurrency | FtDate | FtDatetime | FtBoolean | FtEnum | FtSelect
  | FtMultiEnum | FtUserRef | FtEntityRef | FtFile | FtFiles | FtFormula | FtLookup | FtOther string

record EntityType =
  et_id :: string
  et_tenantId :: "string option"
  et_name :: string
  et_plural :: string
  et_icon :: "string option"
  et_moduleId :: "string option"
  et_allowCustomFields :: bool
  et_createdAt :: micros

record EntityField = entity_fields_row +
  fd_id :: string
  fd_label :: string
  fd_fieldType :: FieldType
  fd_config :: jsobj
  fd_isRequired :: bool
  fd_isIndexed :: bool
  fd_isSystem :: bool
  fd_sortOrder :: int
  fd_createdAt :: micros

section \<open>Records, relations and tags\<close>

datatype TicketSeverity = SevLow | SevMedium | SevHigh | SevCritical

definition TICKET_SEVERITIES :: "TicketSeverity list" where
  "TICKET_SEVERITIES = [SevLow, SevMedium, SevHigh, SevCritical]"

definition DEFAULT_TICKET_SEVERITY :: TicketSeverity where
  "DEFAULT_TICKET_SEVERITY = SevMedium"

fun jsIndexOf :: "'a \<Rightarrow> 'a list \<Rightarrow> int" where
  "jsIndexOf x [] = - 1"
| "jsIndexOf x (y # ys) = (if x = y then 0 else (let i = jsIndexOf x ys in if i < 0 then i else i + 1))"

definition severityRank :: "TicketSeverity \<Rightarrow> int" where
  "severityRank s = jsIndexOf s TICKET_SEVERITIES + 1"

definition TAG_TEXT_MAX_LENGTH :: nat where
  "TAG_TEXT_MAX_LENGTH = 50"

definition normalizeTagText :: "string \<Rightarrow> string" where
  "normalizeTagText raw = toLowerCase (trim raw)"

definition escapeLikePattern :: "string \<Rightarrow> string" where
  "escapeLikePattern raw =
     concat (map (\<lambda>ch. if ch \<in> {CHR 0x5C, CHR ''%'', CHR ''_''} then [CHR 0x5C, ch] else [ch]) raw)"

record entity_row = entity_instances_row +
  ri_dueDate :: "date option"
  ri_remark :: "string option"
  ri_severity :: "TicketSeverity option"
  ri_createdAt :: micros
  ri_deletedAt :: "date option"
  ri_originMechanism :: "string option"
  ri_originOidcClientId :: "string option"
  ri_originPerformerUserId :: "string option"

record EntityRelation = entity_relations_row +
  rl_id :: string
  rl_createdAt :: micros

record EntityInstanceTag =
  tg_id :: string
  tg_tenantId :: string
  tg_entityInstanceId :: string
  tg_tagText :: string
  tg_createdBy :: string
  tg_createdAt :: micros

section \<open>The audit hook\<close>

datatype EntityAuditAction = ActionCreated | ActionUpdated | ActionDeleted | ActionTransitioned | ActionRestored

datatype EntityAuditActorType = ActorUser | ActorApiKey | ActorSystem

record EntityAuditHookParams =
  ah_tenantId :: string
  ah_actorId :: string
  ah_actorType :: EntityAuditActorType
  ah_actingPersonId :: "string option"
  ah_resourceType :: string
  ah_resourceId :: string
  ah_action :: EntityAuditAction
  ah_beforeSnapshot :: "jsobj option"
  ah_afterSnapshot :: "jsobj option"
  ah_entityFields :: "(string \<times> FieldSensitivity) list"

section \<open>The database\<close>

record rec_db =
  rd_instances :: "entity_row list"
  rd_types :: "EntityType list"
  rd_fields :: "EntityField list"
  rd_relations :: "EntityRelation list"
  rd_tags :: "EntityInstanceTag list"
  rd_workflows :: "workflows_row list"
  rd_states :: "workflow_states_row list"
  rd_transitions :: "workflow_transitions_row list"
  rd_events :: "workflow_events_row list"
  rd_outbox :: "outbox_events_row list"
  rd_teams :: "teams_row list"
  rd_users :: "tenant_users_row list"
  rd_audit :: "EntityAuditHookParams list"

definition empty_rec_db :: rec_db where
  "empty_rec_db = \<lparr>rd_instances = [], rd_types = [], rd_fields = [], rd_relations = [], rd_tags = [],
     rd_workflows = [], rd_states = [], rd_transitions = [], rd_events = [], rd_outbox = [],
     rd_teams = [], rd_users = [], rd_audit = []\<rparr>"

definition workflowView :: "rec_db \<Rightarrow> wf_db" where
  "workflowView db = \<lparr>db_instances = map entity_instances_row.truncate (rd_instances db),
     db_fields = map entity_fields_row.truncate (rd_fields db), db_workflows = rd_workflows db,
     db_states = rd_states db, db_transitions = rd_transitions db, db_transition_seq = 1,
     db_events = rd_events db, db_outbox = rd_outbox db\<rparr>"

text \<open>An insert into a table whose id is already taken is refused by the primary key.\<close>

definition insertKeyed :: "('r \<Rightarrow> string) \<Rightarrow> 'r \<Rightarrow> 'r list \<Rightarrow> rec_failure + 'r list" where
  "insertKeyed key r t =
     (if key r \<in> key ` set t then Inl (ThrownError ''duplicate key'') else Inr (insertRow r t))"

lemma insertKeyed_Inr [result_simps]:
  "insertKeyed key r t = Inr t' \<longleftrightarrow> key r \<notin> key ` set t \<and> t' = t @ [r]"
  by (auto simp: insertKeyed_def insertRow_def)

end
