(* ===== verification/RecValidation.thy ===== *)
theory RecValidation
  imports RecSchema "HOL-Library.List_Lexorder" "HOL-Library.Char_ord"
begin

text \<open>
  Field validation in the record engine: \<open>validation/schema-builder.ts\<close>, \<open>schema-cache.ts\<close>,
  \<open>formula-evaluator.ts\<close>, \<open>ref-validator.ts\<close> and \<open>regex-safety.ts\<close>.

  The schema a type's fields give is built here as the term the source builds with the validation
  library; parsing a value against it is the library's, a parameter. So are the sandbox that runs
  formulas, the analyser of regular expressions, the contents of the schema cache at the moment it is
  read, the cross-field validators the application registers and its audit hook.
\<close>

section \<open>Schemas of the validation library\<close>

datatype zcheck =
    ZcMin rat | ZcMax rat | ZcLength nat | ZcRegex string | ZcDate | ZcDatetimeOffset | ZcNotBlank
  | ZcNonNegative | ZcDecimals rat

datatype zod =
    ZodString "zcheck list"
  | ZodNumber "zcheck list"
  | ZodBoolean
  | ZodEnum "jsval list"
  | ZodGuid
  | ZodArray zod "zcheck list"
  | ZodObject "(string \<times> zod) list"
  | ZodUnknown
  | ZodNever
  | ZodOptional zod

datatype issue_code =
    IssueInvalidType | IssueTooSmall | IssueTooBig | IssueInvalidValue | IssueInvalidFormat | IssueCustom | IssueOther

record zod_issue =
  zi_code :: issue_code
  zi_path :: "string list"
  zi_message :: string
  zi_inputUndefined :: bool
  zi_originString :: bool
  zi_bound :: jsval
  zi_values :: "jsval list"

datatype vmode = ModeCreate | ModeUpdate

datatype MandatoryFieldsMode = ModeLog | ModeEnforce

datatype recheck_result = RecheckSafe | RecheckUnknown | RecheckVulnerable | RecheckThrows

record rec_env =
  re_now :: date
  re_updatedAt :: date
  re_dbNow :: micros
  re_parseDate :: "string \<Rightarrow> date option"
  re_instanceId :: "nat \<Rightarrow> string"
  re_eventId :: "nat \<Rightarrow> string"
  re_outboxId :: "nat \<Rightarrow> string"
  re_relationId :: "nat \<Rightarrow> string"
  re_rowId :: "nat \<Rightarrow> string"
  re_safeParse :: "(string \<times> zod) list \<Rightarrow> jsobj \<Rightarrow> zod_issue list + jsobj"
  re_regexCompiles :: "string \<Rightarrow> bool"
  re_recheck :: "string \<Rightarrow> recheck_result"
  re_runScript :: "(string \<Rightarrow> jsobj \<Rightarrow> jsval option) option"
  re_validators :: "string \<Rightarrow> (jsobj \<Rightarrow> vmode \<Rightarrow> EntityFieldError list) list"
  re_cachedFields :: "string \<Rightarrow> string \<Rightarrow> vmode \<Rightarrow> EntityField list option"
  re_hookRegistered :: bool
  re_hookFails :: "EntityAuditHookParams \<Rightarrow> bool"
  re_mandatoryMode :: MandatoryFieldsMode

definition fieldError :: "string \<Rightarrow> string \<Rightarrow> string \<Rightarrow> EntityFieldError" where
  "fieldError f c m = \<lparr>xe_field = f, xe_code = c, xe_message = m, xe_meta = None\<rparr>"

fun joinWith :: "string \<Rightarrow> string list \<Rightarrow> string" where
  "joinWith sep [] = []"
| "joinWith sep [s] = s"
| "joinWith sep (s # t # ss) = s @ sep @ joinWith sep (t # ss)"

section \<open>Reserved names\<close>

definition isReservedFieldName :: "string \<Rightarrow> bool" where
  "isReservedFieldName name = (startsWith name ''__'' \<or> name = ''prototype'' \<or> name = ''constructor'')"

definition validateReservedFieldNames :: "jsobj \<Rightarrow> rec_failure + unit" where
  "validateReservedFieldNames flds =
     (let reservedKeys = filter isReservedFieldName (map fst flds) in
      throwIf (reservedKeys \<noteq> [])
        (ValidationError (map (\<lambda>key. fieldError key ''RESERVED_FIELD''
           (''Field '' @ [CHR 0x27] @ key @ [CHR 0x27] @ '' is reserved for internal engine use and cannot be set directly''))
           reservedKeys)))"

section \<open>Building a schema\<close>

definition numberIn :: "jsobj \<Rightarrow> string \<Rightarrow> rat option" where
  "numberIn cfg k = (case objGet cfg k of JNum r \<Rightarrow> Some r | _ \<Rightarrow> None)"

definition stringIn :: "jsobj \<Rightarrow> string \<Rightarrow> string option" where
  "stringIn cfg k = (case objGet cfg k of JStr s \<Rightarrow> Some s | _ \<Rightarrow> None)"

text \<open>Reading \<open>.value\<close> of \<open>null\<close> or \<open>undefined\<close> throws.\<close>

fun optionValue :: "jsval \<Rightarrow> jsval option" where
  "optionValue (JStr s) = Some (JStr s)"
| "optionValue JNull = None"
| "optionValue JUndefined = None"
| "optionValue v = Some (propertyOf v ''value'')"

definition extractOptionValues :: "jsval \<Rightarrow> rec_failure + jsval list" where
  "extractOptionValues opts =
     (case opts of
        JArr xs \<Rightarrow>
          (if list_ex (\<lambda>x. optionValue x = None) xs then Inl (ThrownError ''TypeError'')
           else Inr (filter (\<lambda>v. case v of JStr _ \<Rightarrow> True | _ \<Rightarrow> False) (map (the \<circ> optionValue) xs)))
      | _ \<Rightarrow> Inr [])"

definition optCheck :: "('a \<Rightarrow> zcheck) \<Rightarrow> 'a option \<Rightarrow> zcheck list" where
  "optCheck c x = (case x of None \<Rightarrow> [] | Some v \<Rightarrow> [c v])"

definition textSchema :: "rec_env \<Rightarrow> EntityField \<Rightarrow> zod" where
  "textSchema env field =
     (let cfg = fd_config field in
      ZodString (optCheck ZcMin (numberIn cfg ''minLength'') @ optCheck ZcMax (numberIn cfg ''maxLength'') @
        (case stringIn cfg ''pattern'' of None \<Rightarrow> []
         | Some p \<Rightarrow> if re_regexCompiles env p then [ZcRegex p] else []) @
        (if fd_isSystem field \<and> fd_isRequired field then [ZcNotBlank] else [])))"

definition currencySchema :: "jsobj \<Rightarrow> zod" where
  "currencySchema cfg =
     ZodObject [(''amount'', ZodNumber [ZcNonNegative]),
       (''currency'', case objGet cfg ''allowedCurrencies'' of JArr (v # vs) \<Rightarrow> ZodEnum (v # vs) | _ \<Rightarrow> ZodString [ZcLength 3])]"

definition buildFieldSchema :: "rec_env \<Rightarrow> EntityField \<Rightarrow> rec_failure + zod" where
  "buildFieldSchema env field =
     (let cfg = fd_config field;
          choice = (\<lambda>wrap. bindE (extractOptionValues (objGet cfg ''options''))
                     (\<lambda>values. Inr (wrap (if values \<noteq> [] then ZodEnum values else ZodString [])))) in
      case fd_fieldType field of
        FtText \<Rightarrow> Inr (textSchema env field)
      | FtLongtext \<Rightarrow> Inr (ZodString [])
      | FtNumber \<Rightarrow> Inr (ZodNumber (optCheck ZcMin (numberIn cfg ''min'') @ optCheck ZcMax (numberIn cfg ''max'') @
                              optCheck ZcDecimals (numberIn cfg ''decimalPlaces'')))
      | FtCurrency \<Rightarrow> Inr (currencySchema cfg)
      | FtDate \<Rightarrow> Inr (ZodString [ZcDate])
      | FtDatetime \<Rightarrow> Inr (ZodString [ZcDatetimeOffset])
      | FtBoolean \<Rightarrow> Inr ZodBoolean
      | FtEnum \<Rightarrow> choice (\<lambda>s. s)
      | FtSelect \<Rightarrow> choice (\<lambda>s. s)
      | FtMultiEnum \<Rightarrow> choice (\<lambda>s. ZodArray s [])
      | FtUserRef \<Rightarrow> Inr (ZodString [ZcMin 1])
      | FtEntityRef \<Rightarrow> Inr ZodGuid
      | FtFile \<Rightarrow> Inr (ZodString [ZcMin 1])
      | FtFiles \<Rightarrow> Inr (ZodArray (ZodString [ZcMin 1]) [ZcMax (dflt 20 (numberIn cfg ''maxCount''))])
      | _ \<Rightarrow> Inr ZodUnknown)"

definition isComputed :: "EntityField \<Rightarrow> bool" where
  "isComputed field = (fd_fieldType field = FtFormula \<or> fd_fieldType field = FtLookup)"

fun buildZodSchemaFrom :: "rec_env \<Rightarrow> vmode \<Rightarrow> EntityField list \<Rightarrow> (string \<times> zod) list \<Rightarrow> rec_failure + (string \<times> zod) list" where
  "buildZodSchemaFrom env mode [] shape = Inr shape"
| "buildZodSchemaFrom env mode (field # fs) shape =
     (if isComputed field
      then buildZodSchemaFrom env mode fs (AList.update (ef_name field) (ZodOptional ZodNever) shape)
      else bindE (buildFieldSchema env field) (\<lambda>s.
             buildZodSchemaFrom env mode fs
               (AList.update (ef_name field)
                  (if mode = ModeUpdate \<or> \<not> fd_isRequired field then ZodOptional s else s) shape)))"

definition buildZodSchema :: "rec_env \<Rightarrow> EntityField list \<Rightarrow> vmode \<Rightarrow> rec_failure + (string \<times> zod) list" where
  "buildZodSchema env flds mode = buildZodSchemaFrom env mode flds []"

definition fieldVisible :: "string \<Rightarrow> string \<Rightarrow> EntityField \<Rightarrow> bool" where
  "fieldVisible entityTypeId tenantId f =
     (ef_entityTypeId f = entityTypeId \<and> (ef_tenantId f = None \<or> ef_tenantId f = Some tenantId))"

definition loadEntityFields :: "rec_db \<Rightarrow> string \<Rightarrow> string \<Rightarrow> EntityField list" where
  "loadEntityFields db entityTypeId tenantId =
     sort_key fd_sortOrder (selectW (fieldVisible entityTypeId tenantId) (rd_fields db))"

definition getValidationSchema :: "rec_env \<Rightarrow> rec_db \<Rightarrow> string \<Rightarrow> string \<Rightarrow> vmode \<Rightarrow> rec_failure + (string \<times> zod) list" where
  "getValidationSchema env db entityTypeId tenantId mode =
     buildZodSchema env
       (case re_cachedFields env entityTypeId tenantId mode of
          Some flds \<Rightarrow> flds
        | None \<Rightarrow> loadEntityFields db entityTypeId tenantId) mode"

section \<open>Issues as field errors\<close>

definition mapZodCode :: "zod_issue \<Rightarrow> string" where
  "mapZodCode i =
     (case zi_code i of
        IssueInvalidType \<Rightarrow> if zi_inputUndefined i then ''REQUIRED'' else ''INVALID_TYPE''
      | IssueTooSmall \<Rightarrow> if zi_originString i then ''TOO_SHORT'' else ''TOO_SMALL''
      | IssueTooBig \<Rightarrow> if zi_originString i then ''TOO_LONG'' else ''TOO_LARGE''
      | IssueInvalidValue \<Rightarrow> ''INVALID_ENUM''
      | IssueInvalidFormat \<Rightarrow> ''INVALID_FORMAT''
      | IssueCustom \<Rightarrow> ''VALIDATION_FAILED''
      | IssueOther \<Rightarrow> ''INVALID'')"

definition buildMeta :: "zod_issue \<Rightarrow> jsobj option" where
  "buildMeta i =
     (case zi_code i of
        IssueTooBig \<Rightarrow> Some [(''max'', zi_bound i)]
      | IssueTooSmall \<Rightarrow> Some [(''min'', zi_bound i)]
      | IssueInvalidValue \<Rightarrow> Some [(''options'', JArr (zi_values i))]
      | _ \<Rightarrow> None)"

definition transformZodErrors :: "zod_issue list \<Rightarrow> EntityFieldError list" where
  "transformZodErrors issues =
     map (\<lambda>i. let path = joinWith ''.'' (zi_path i) in
            \<lparr>xe_field = (if path = [] then ''_root'' else path), xe_code = mapZodCode i,
             xe_message = zi_message i, xe_meta = buildMeta i\<rparr>) issues"

definition parseFor :: "rec_env \<Rightarrow> rec_db \<Rightarrow> string \<Rightarrow> string \<Rightarrow> vmode \<Rightarrow> jsobj \<Rightarrow> rec_failure + jsobj" where
  "parseFor env db entityTypeId tenantId mode flds =
     bindE (getValidationSchema env db entityTypeId tenantId mode) (\<lambda>schema.
       case re_safeParse env schema flds of
         Inl issues \<Rightarrow> Inl (ValidationError (transformZodErrors issues))
       | Inr data \<Rightarrow> Inr data)"

section \<open>Formulas\<close>

definition evaluateFormula :: "rec_env \<Rightarrow> string \<Rightarrow> jsobj \<Rightarrow> jsval" where
  "evaluateFormula env expression flds =
     (case re_runScript env of
        None \<Rightarrow> JNull
      | Some run \<Rightarrow> dflt JNull (run (''(function() { return ('' @ expression @ ''); })()'') flds))"

definition applyFormulaFields :: "rec_env \<Rightarrow> EntityField list \<Rightarrow> jsobj \<Rightarrow> jsobj" where
  "applyFormulaFields env flds values =
     fold (\<lambda>field result.
       if fd_fieldType field \<noteq> FtFormula then result
       else (case stringIn (fd_config field) ''expression'' of
               None \<Rightarrow> result
             | Some e \<Rightarrow> objPut (ef_name field) (evaluateFormula env e result) result)) flds values"

section \<open>References to other tenants\<close>

definition refsIn :: "FieldType \<Rightarrow> jsobj \<Rightarrow> EntityField list \<Rightarrow> (string \<times> string) list" where
  "refsIn t flds entityFields =
     concat (map (\<lambda>f. case objGet flds (ef_name f) of JStr (c # cs) \<Rightarrow> [(ef_name f, c # cs)] | _ \<Rightarrow> [])
       (filter (\<lambda>f. fd_fieldType f = t) entityFields))"

definition invalidRefs :: "string \<Rightarrow> string \<Rightarrow> string set \<Rightarrow> (string \<times> string) list \<Rightarrow> EntityFieldError list" where
  "invalidRefs message key validIds refs =
     map (\<lambda>(fieldName, refId). \<lparr>xe_field = fieldName, xe_code = ''INVALID_REFERENCE'', xe_message = message,
            xe_meta = Some [(key, JStr refId)]\<rparr>)
       (filter (\<lambda>(_, refId). refId \<notin> validIds) refs)"

definition validateEntityRefs :: "rec_db \<Rightarrow> string \<Rightarrow> jsobj \<Rightarrow> EntityField list \<Rightarrow> EntityFieldError list" where
  "validateEntityRefs db tenantId flds entityFields =
     (let refs = refsIn FtEntityRef flds entityFields;
          validRows = selectW (\<lambda>r. ei_id r \<in> set (map snd refs) \<and> ei_tenantId r = tenantId) (rd_instances db) in
      invalidRefs ''Referenced entity does not exist or is not accessible'' ''refId''
        (set (map ei_id validRows)) refs)"

definition validateUserRefs :: "rec_db \<Rightarrow> string \<Rightarrow> jsobj \<Rightarrow> EntityField list \<Rightarrow> EntityFieldError list" where
  "validateUserRefs db tenantId flds entityFields =
     (let refs = refsIn FtUserRef flds entityFields;
          validRows = selectW (\<lambda>r. tu_userId r \<in> set (map snd refs) \<and> tu_tenantId r = tenantId) (rd_users db) in
      invalidRefs ''Referenced user does not exist or is not accessible'' ''userId''
        (set (map tu_userId validRows)) refs)"

section \<open>Regular expressions\<close>

definition isSafeRegex :: "rec_env \<Rightarrow> string \<Rightarrow> bool" where
  "isSafeRegex env pattern =
     (re_regexCompiles env pattern \<and>
      (case re_recheck env pattern of RecheckVulnerable \<Rightarrow> False | RecheckThrows \<Rightarrow> False | _ \<Rightarrow> True))"

end
