(* ===== verification/RecGuards.thy ===== *)
theory RecGuards
  imports RecValidation
begin

text \<open>
  The rules that every write of the record engine obeys: the four values a workflow record must
  carry (\<open>mandatory-fields.ts\<close>, \<open>mandatory-refs.ts\<close>), the lock on direct state writes
  (\<open>state-write-lock.ts\<close> and its callers in \<open>engine.ts\<close>), redaction (\<open>redact.ts\<close>), due dates, and
  the audit hook (\<open>audit-hook.ts\<close>).
\<close>

section \<open>Mandatory values\<close>

record MandatoryValues =
  mv_title :: jsval
  mv_dueDate :: jsval
  mv_remark :: "string option"
  mv_severity :: "TicketSeverity option"

definition isBlankValue :: "jsval \<Rightarrow> bool" where
  "isBlankValue v = (case v of JUndefined \<Rightarrow> True | JNull \<Rightarrow> True | JStr s \<Rightarrow> trim s = [] | _ \<Rightarrow> False)"

definition requiredError :: "string \<Rightarrow> string \<Rightarrow> EntityFieldError" where
  "requiredError field label = fieldError field ''required'' (label @ '' is required'')"

definition findMissingMandatoryFields :: "MandatoryValues \<Rightarrow> EntityFieldError list" where
  "findMissingMandatoryFields v =
     (if isBlankValue (mv_title v) then [requiredError ''title'' ''Title''] else []) @
     (if isBlank (mv_dueDate v) then [requiredError ''dueDate'' ''Due date''] else []) @
     (if isBlankValue (jsOpt (mv_remark v)) then [requiredError ''remark'' ''Remark''] else []) @
     (if mv_severity v = None then [requiredError ''severity'' ''Severity''] else [])"

definition report :: "rec_env \<Rightarrow> EntityFieldError list \<Rightarrow> rec_failure + unit" where
  "report env missing =
     (if missing = [] then Inr ()
      else if re_mandatoryMode env = ModeEnforce then Inl (ValidationError missing)
      else Inr ())"

definition checkMandatoryFields :: "rec_env \<Rightarrow> MandatoryValues \<Rightarrow> rec_failure + unit" where
  "checkMandatoryFields env values = report env (findMissingMandatoryFields values)"

definition checkMandatoryFieldsOnUpdate :: "rec_env \<Rightarrow> MandatoryValues \<Rightarrow> MandatoryValues \<Rightarrow> rec_failure + unit" where
  "checkMandatoryFieldsOnUpdate env before1 after1 =
     (let hadBefore = set (map xe_field (findMissingMandatoryFields before1)) in
      report env (filter (\<lambda>e. xe_field e \<notin> hadBefore) (findMissingMandatoryFields after1)))"

section \<open>The team and the workflow of a new record\<close>

definition isHexDigit :: "char \<Rightarrow> bool" where
  "isHexDigit c = (let n = of_char c :: nat in (48 \<le> n \<and> n \<le> 57) \<or> (65 \<le> n \<and> n \<le> 70) \<or> (97 \<le> n \<and> n \<le> 102))"

definition isUuid :: "string \<Rightarrow> bool" where
  "isUuid s = (length s = 36 \<and>
     list_all (\<lambda>i. if i \<in> {8, 13, 18, 23} then s ! i = CHR ''-'' else isHexDigit (s ! i)) [0..<36])"

definition assertTeamInTenant :: "rec_db \<Rightarrow> string \<Rightarrow> string \<Rightarrow> rec_failure + unit" where
  "assertTeamInTenant db tenantId teamId =
     throwIf (\<not> isUuid teamId \<or>
              select1 (\<lambda>r. te_id r = teamId \<and> te_tenantId r = tenantId \<and> te_deletedAt r = None) (rd_teams db) = None)
       (ValidationError [fieldError ''teamId'' ''invalid'' ''Unknown team''])"

definition isVisibleWorkflow :: "string \<Rightarrow> string \<Rightarrow> workflows_row \<Rightarrow> bool" where
  "isVisibleWorkflow tenantId workflowId r = (wf_id r = workflowId \<and> visibleTo tenantId r)"

definition assertWorkflowMatchesType :: "rec_db \<Rightarrow> string \<Rightarrow> string \<Rightarrow> string \<Rightarrow> rec_failure + unit" where
  "assertWorkflowMatchesType db tenantId workflowId entityTypeId =
     bindE (throwIf (\<not> isUuid workflowId)
              (ValidationError [fieldError ''workflowId'' ''invalid'' ''Not a valid workflow id''])) (\<lambda>_.
       throwIf (map_option wf_entityTypeId (select1 (isVisibleWorkflow tenantId workflowId) (rd_workflows db)) \<noteq> Some entityTypeId)
         (ValidationError [fieldError ''workflowId'' ''invalid''
            (''The workflow doesn'' @ [CHR 0x27] @ ''t belong to this entity type'')]))"

definition entityTypeHasWorkflow :: "rec_db \<Rightarrow> string \<Rightarrow> string \<Rightarrow> bool" where
  "entityTypeHasWorkflow db tenantId entityTypeId =
     (select1 (\<lambda>r. wf_entityTypeId r = entityTypeId \<and> visibleTo tenantId r \<and> wf_isActive r) (rd_workflows db) \<noteq> None)"

section \<open>The lock on direct state writes\<close>

text \<open>
  The conditions of a transition are searched as text for a quotation mark followed by
  \<open>actor_\<close>. In the text of a JSON document that is a string (a key, an operator, a value) which starts
  with \<open>actor_\<close>, or one that contains a quotation mark followed by it.
\<close>

primrec jsStrings :: "jsval \<Rightarrow> string list" where
  "jsStrings JUndefined = []"
| "jsStrings JNull = []"
| "jsStrings (JBool b) = []"
| "jsStrings (JNum r) = []"
| "jsStrings (JStr s) = [s]"
| "jsStrings (JArr xs) = concat (map jsStrings xs)"
| "jsStrings (JObj o1) = concat (map (\<lambda>(k, ss). k # ss) (map (map_prod id jsStrings) o1))"
| "jsStrings (JFun k) = []"

fun opText :: "field_op \<Rightarrow> string" where
  "opText OpEq = ''eq''"
| "opText OpNeq = ''neq''"
| "opText OpGt = ''gt''"
| "opText OpGte = ''gte''"
| "opText OpLt = ''lt''"
| "opText OpLte = ''lte''"
| "opText OpContains = ''contains''"
| "opText OpIn = ''in''"
| "opText OpEmpty = ''empty''"
| "opText OpNotEmpty = ''not_empty''"
| "opText (OpOther s) = s"

fun conditionStrings :: "ConditionTree \<Rightarrow> string list" where
  "conditionStrings (CAnd ts) = [''op'', ''and'', ''children''] @ concat (map conditionStrings ts)"
| "conditionStrings (COr ts) = [''op'', ''or'', ''children''] @ concat (map conditionStrings ts)"
| "conditionStrings (CNot t) = [''op'', ''not'', ''child''] @ conditionStrings t"
| "conditionStrings (CField (FieldCondition op1 f v)) = [''op'', opText op1, ''field'', f, ''value''] @ jsStrings v"
| "conditionStrings ActorNotCreator = [''op'', ''actor_not_creator'']"
| "conditionStrings ActorIsCreator = [''op'', ''actor_is_creator'']"
| "conditionStrings (ActorNotPriorActor ss) = [''op'', ''actor_not_prior_actor'', ''states''] @ dflt [] ss"

definition namesActorRule :: "ConditionTree option \<Rightarrow> bool" where
  "namesActorRule conditions =
     (case conditions of
        None \<Rightarrow> False
      | Some t \<Rightarrow> list_ex (\<lambda>s. startsWith s ''actor_'' \<or> stringIncludes s (CHR 0x22 # ''actor_'')) (conditionStrings t))"

definition isLockedWorkflow :: "rec_db \<Rightarrow> string \<Rightarrow> workflows_row \<Rightarrow> bool" where
  "isLockedWorkflow db tenantId w =
     (wf_allowStateOverride w \<or>
      list_ex (\<lambda>t. wt_workflowId t = wf_id w \<and> wt_tenantId t = tenantId \<and> namesActorRule (wt_conditions t))
        (rd_transitions db))"

definition lockedWorkflowIds :: "rec_db \<Rightarrow> string \<Rightarrow> string list \<Rightarrow> string set" where
  "lockedWorkflowIds db tenantId workflowIds =
     set (map wf_id (selectW (\<lambda>w. wf_tenantId w = Some tenantId \<and> wf_id w \<in> set workflowIds \<and>
            isLockedWorkflow db tenantId w) (rd_workflows db)))"

definition isStateWriteLocked :: "rec_db \<Rightarrow> string \<Rightarrow> string \<Rightarrow> bool" where
  "isStateWriteLocked db tenantId workflowId = (workflowId \<in> lockedWorkflowIds db tenantId [workflowId])"

definition recStateNames :: "rec_db \<Rightarrow> string \<Rightarrow> string \<Rightarrow> string list" where
  "recStateNames db tenantId workflowId =
     map ws_name (selectW (\<lambda>s. ws_workflowId s = workflowId \<and> ws_tenantId s = tenantId) (rd_states db))"

definition workflowHasStateNamed :: "rec_db \<Rightarrow> string \<Rightarrow> string \<Rightarrow> string \<Rightarrow> bool" where
  "workflowHasStateNamed db tenantId workflowId name =
     (select1 (\<lambda>s. ws_workflowId s = workflowId \<and> ws_tenantId s = tenantId \<and> ws_name s = name) (rd_states db) \<noteq> None)"

definition childStateWriteReachesLockedStep :: "rec_db \<Rightarrow> string \<Rightarrow> string \<Rightarrow> string \<Rightarrow> bool" where
  "childStateWriteReachesLockedStep db tenantId workflowId name =
     (selectW (\<lambda>w. wf_tenantId w = Some tenantId \<and> wf_id w = workflowId \<and> isLockedWorkflow db tenantId w \<and>
         list_ex (\<lambda>s. ws_workflowId s = wf_id w \<and> ws_tenantId s = tenantId \<and> ws_name s = name) (rd_states db))
        (rd_workflows db) \<noteq> [])"

definition CHILD_TICKET_STATES :: "string list" where
  "CHILD_TICKET_STATES = [''open'', ''in-progress'', ''closed'']"

definition assertDirectStateWriteAllowed :: "rec_db \<Rightarrow> string \<Rightarrow> string \<Rightarrow> entity_row \<Rightarrow> string \<Rightarrow> bool \<Rightarrow> rec_failure + unit" where
  "assertDirectStateWriteAllowed db tenantId instanceId existing to1 isChildTicket =
     (case truthyId (ei_workflowId existing) of
        None \<Rightarrow> Inr ()
      | Some workflowId \<Rightarrow>
          if to1 = ei_currentState existing then Inr ()
          else throwIf (if isChildTicket then childStateWriteReachesLockedStep db tenantId workflowId to1
                        else isStateWriteLocked db tenantId workflowId)
                 (EntityError STATE_CHANGE_NOT_ALLOWED
                    [(''instanceId'', JStr instanceId), (''from'', JStr (ei_currentState existing)), (''to'', JStr to1)]))"

section \<open>Redaction\<close>

definition redactFields :: "jsobj \<Rightarrow> (string \<rightharpoonup> FieldSensitivity) \<Rightarrow> jsobj" where
  "redactFields flds sensitivityMap =
     map (\<lambda>(k, v). (k, if isSensitive (sensitivityMap k) then JStr ''[REDACTED]'' else v)) flds"

definition fieldSensitivityMap :: "EntityField list \<Rightarrow> (string \<rightharpoonup> FieldSensitivity)" where
  "fieldSensitivityMap flds =
     fold (\<lambda>f m. if isSensitive (Some (ef_sensitivity f)) then m(ef_name f \<mapsto> ef_sensitivity f) else m) flds Map.empty"

section \<open>Due dates\<close>

definition CREATE_DUE_DATE_GRACE_MS :: int where
  "CREATE_DUE_DATE_GRACE_MS = 15000"

definition validateDueDateAfterCreation :: "rec_env \<Rightarrow> string \<Rightarrow> date \<Rightarrow> EntityFieldError list" where
  "validateDueDateAfterCreation env dueDate createdAt =
     (case re_parseDate env dueDate of
        Some d \<Rightarrow> if d \<le> createdAt
                   then [fieldError ''dueDate'' ''invalid'' (''dueDate must be after the entity'' @ [CHR 0x27] @ ''s created date'')]
                   else []
      | None \<Rightarrow> [])"

definition validateDueDateOnCreate :: "rec_env \<Rightarrow> string \<Rightarrow> EntityFieldError list" where
  "validateDueDateOnCreate env dueDate =
     (case re_parseDate env dueDate of
        Some d \<Rightarrow> if d < re_now env - CREATE_DUE_DATE_GRACE_MS
                   then [fieldError ''dueDate'' ''invalid'' ''dueDate must not be in the past''] else []
      | None \<Rightarrow> [])"

definition validateDueDateEdit :: "rec_env \<Rightarrow> string \<Rightarrow> entity_row \<Rightarrow> EntityFieldError list" where
  "validateDueDateEdit env dueDate existing =
     (let after1 = validateDueDateAfterCreation env dueDate (toDate (ri_createdAt existing)) in
      if after1 \<noteq> [] then after1
      else if ri_dueDate existing \<noteq> None \<and> ri_dueDate existing = re_parseDate env dueDate then []
      else validateDueDateOnCreate env dueDate)"

text \<open>
  \<open>dueDate ? new Date(dueDate) : null\<close> as the value of a timestamp column: the driver refuses
  an invalid date.
\<close>

definition toDueColumn :: "rec_env \<Rightarrow> string option \<Rightarrow> rec_failure + date option" where
  "toDueColumn env dueDate =
     (case truthyId dueDate of
        None \<Rightarrow> Inr None
      | Some s \<Rightarrow> (case re_parseDate env s of
                     None \<Rightarrow> Inl (ThrownError ''Invalid time value'')
                   | Some d \<Rightarrow> Inr (Some d)))"

definition dueScheduled :: string where
  "dueScheduled = ''entity.due_date_scheduled''"

definition buildEntityDueDateScheduledPayload :: "string \<Rightarrow> string \<Rightarrow> string \<Rightarrow> date \<Rightarrow> jsobj" where
  "buildEntityDueDateScheduledPayload tenantId instanceId entityTypeId dueDate =
     [(''eventType'', JStr dueScheduled), (''version'', JNum 1), (''tenantId'', JStr tenantId),
      (''instanceId'', JStr instanceId), (''entityTypeId'', JStr entityTypeId),
      (''dueDate'', JStr (toISOString dueDate))]"

definition outboxRow :: "rec_env \<Rightarrow> nat \<Rightarrow> string \<Rightarrow> string \<Rightarrow> jsobj \<Rightarrow> outbox_events_row" where
  "outboxRow env k tenantId eventType payload =
     \<lparr>ob_id = re_outboxId env k, ob_tenantId = tenantId, ob_eventType = eventType, ob_version = 1,
      ob_payload = payload, ob_createdAt = toDate (re_dbNow env), ob_deliveredAt = None\<rparr>"

definition isPendingDue :: "string \<Rightarrow> string \<Rightarrow> outbox_events_row \<Rightarrow> bool" where
  "isPendingDue tenantId instanceId r =
     (ob_deliveredAt r = None \<and> ob_eventType r = dueScheduled \<and> ob_tenantId r = tenantId \<and>
      pgText (ob_payload r) ''instanceId'' = Some instanceId)"

definition cancelDue :: "rec_env \<Rightarrow> string \<Rightarrow> string \<Rightarrow> outbox_events_row list \<Rightarrow> outbox_events_row list" where
  "cancelDue env tenantId instanceId outbox =
     updateW (isPendingDue tenantId instanceId) (\<lambda>r. r\<lparr>ob_deliveredAt := Some (toDate (re_dbNow env))\<rparr>) outbox"

definition rescheduleDueDate ::
  "rec_env \<Rightarrow> nat \<Rightarrow> string \<Rightarrow> string \<Rightarrow> string \<Rightarrow> date option \<Rightarrow> date option \<Rightarrow> rec_db \<Rightarrow> rec_db" where
  "rescheduleDueDate env k tenantId instanceId entityTypeId oldDueDate newDueDate db =
     (if oldDueDate = newDueDate then db
      else db\<lparr>rd_outbox := cancelDue env tenantId instanceId (rd_outbox db) @
             (case newDueDate of None \<Rightarrow> []
              | Some d \<Rightarrow> [outboxRow env k tenantId dueScheduled
                             (buildEntityDueDateScheduledPayload tenantId instanceId entityTypeId d)])\<rparr>)"

section \<open>The audit hook\<close>

definition fireEntityAuditHook :: "rec_env \<Rightarrow> EntityAuditHookParams \<Rightarrow> rec_db \<Rightarrow> rec_failure + rec_db" where
  "fireEntityAuditHook env p db =
     (if \<not> re_hookRegistered env then Inr db
      else if re_hookFails env p then Inl (ThrownError ''audit'')
      else Inr (db\<lparr>rd_audit := rd_audit db @ [p]\<rparr>))"

definition auditFields :: "EntityField list \<Rightarrow> (string \<times> FieldSensitivity) list" where
  "auditFields flds = map (\<lambda>f. (ef_name f, ef_sensitivity f)) flds"

end
