(* ===== verification/RecEngine.thy ===== *)
theory RecEngine
  imports RecGuards
begin

text \<open>
  Creating, reading, editing and deleting one record (\<open>packages/entity-engine/src/engine.ts\<close>), with
  its severity and tags, and the resolution of lookup fields (\<open>lookup-resolver.ts\<close>). What a call
  returns of a row is the row itself: \<open>rowToInstance\<close> copies every column.
\<close>

section \<open>Reading the surroundings of a record\<close>

definition isEntity :: "string \<Rightarrow> string \<Rightarrow> entity_row \<Rightarrow> bool" where
  "isEntity tenantId instanceId r = (ei_id r = instanceId \<and> ei_tenantId r = tenantId)"

definition isLiveEntity :: "string \<Rightarrow> string \<Rightarrow> entity_row \<Rightarrow> bool" where
  "isLiveEntity tenantId instanceId r = (isEntity tenantId instanceId r \<and> ri_deletedAt r = None)"

definition isLiveRel :: "string \<Rightarrow> string \<Rightarrow> string \<Rightarrow> EntityRelation \<Rightarrow> bool" where
  "isLiveRel tenantId ty from1 r =
     (er_tenantId r = tenantId \<and> er_fromInstanceId r = from1 \<and> er_relationType r = ty \<and> er_deletedAt r = None)"

definition RELATION_PARENT_OF :: string where
  "RELATION_PARENT_OF = ''parent_of''"

definition RELATION_CHILD_OF :: string where
  "RELATION_CHILD_OF = ''child_of''"

definition getParentId :: "rec_db \<Rightarrow> string \<Rightarrow> string \<Rightarrow> string option" where
  "getParentId db tenantId instanceId =
     map_option er_toInstanceId (select1 (isLiveRel tenantId RELATION_CHILD_OF instanceId) (rd_relations db))"

definition liveEntity :: "rec_db \<Rightarrow> string \<Rightarrow> string \<Rightarrow> rec_failure + entity_row" where
  "liveEntity db tenantId instanceId =
     orThrow (select1 (isLiveEntity tenantId instanceId) (rd_instances db))
       (EntityError ENTITY_NOT_FOUND [(''instanceId'', JStr instanceId)])"

definition loadEntityType :: "rec_db \<Rightarrow> string \<Rightarrow> string \<Rightarrow> rec_failure + EntityType" where
  "loadEntityType db entityTypeId tenantId =
     orThrow (select1 (\<lambda>t. et_id t = entityTypeId \<and> (et_tenantId t = None \<or> et_tenantId t = Some tenantId)) (rd_types db))
       (EntityError ENTITY_TYPE_NOT_FOUND [(''entityTypeId'', JStr entityTypeId)])"

definition resolveInitialState :: "rec_db \<Rightarrow> string \<Rightarrow> string option \<Rightarrow> string" where
  "resolveInitialState db tenantId workflowId =
     (case truthyId workflowId of
        None \<Rightarrow> ''initial''
      | Some w \<Rightarrow> (case select1 (isVisibleWorkflow tenantId w) (rd_workflows db) of
                     None \<Rightarrow> ''initial'' | Some row \<Rightarrow> wf_initialState row))"

definition runCrossFieldValidators :: "rec_env \<Rightarrow> string \<Rightarrow> jsobj \<Rightarrow> vmode \<Rightarrow> EntityFieldError list" where
  "runCrossFieldValidators env entityTypeName flds mode =
     concat (map (\<lambda>v. v flds mode) (re_validators env entityTypeName))"

section \<open>Event payloads\<close>

definition nextDepth :: "int option \<Rightarrow> jsobj" where
  "nextDepth depth = (case depth of None \<Rightarrow> [] | Some d \<Rightarrow> [(''depth'', JNum (of_int (d + 1)))])"

definition buildEntityCreatedPayload ::
  "string \<Rightarrow> string \<Rightarrow> string \<Rightarrow> jsobj \<Rightarrow> string option \<Rightarrow> int option \<Rightarrow> jsobj" where
  "buildEntityCreatedPayload tenantId instanceId entityTypeId flds createdBy depth =
     [(''eventType'', JStr ''entity.created''), (''version'', JNum 1), (''tenantId'', JStr tenantId),
      (''instanceId'', JStr instanceId), (''entityTypeId'', JStr entityTypeId), (''fields'', JObj flds),
      (''createdBy'', jsOpt createdBy)] @ nextDepth depth"

definition buildEntityAssignedPayload ::
  "string \<Rightarrow> string \<Rightarrow> string \<Rightarrow> string \<Rightarrow> string option \<Rightarrow> int option \<Rightarrow> jsobj" where
  "buildEntityAssignedPayload tenantId instanceId entityTypeId assigneeId assignedBy depth =
     [(''eventType'', JStr ''entity.assigned''), (''version'', JNum 1), (''tenantId'', JStr tenantId),
      (''instanceId'', JStr instanceId), (''entityTypeId'', JStr entityTypeId), (''assigneeId'', JStr assigneeId),
      (''assignedBy'', jsOpt assignedBy)] @ nextDepth depth"

definition buildEntityUnassignedPayload ::
  "string \<Rightarrow> string \<Rightarrow> string \<Rightarrow> string \<Rightarrow> string option \<Rightarrow> int option \<Rightarrow> jsobj" where
  "buildEntityUnassignedPayload tenantId instanceId entityTypeId previousAssigneeId actorId depth =
     [(''eventType'', JStr ''entity.unassigned''), (''version'', JNum 1), (''tenantId'', JStr tenantId),
      (''instanceId'', JStr instanceId), (''entityTypeId'', JStr entityTypeId),
      (''previousAssigneeId'', JStr previousAssigneeId), (''actorId'', jsOpt actorId)] @ nextDepth depth"

definition resolveAssignedBy :: "string option \<Rightarrow> string option \<Rightarrow> string option" where
  "resolveAssignedBy actorId createdBy = (case actorId of Some a \<Rightarrow> Some a | None \<Rightarrow> createdBy)"

section \<open>Creating a record\<close>

record CreateEntityInput =
  ci_entityTypeId :: string
  ci_fields :: jsobj
  ci_createdBy :: "string option"
  ci_actorId :: "string option"
  ci_actorType :: "EntityAuditActorType option"
  ci_actingPersonId :: "string option"
  ci_actorName :: "string option"
  ci_assignedTo :: "string option"
  ci_dueDate :: "string option"
  ci_remark :: "string option"
  ci_workflowId :: "string option"
  ci_currentState :: "string option"
  ci_depth :: "int option"
  ci_originMechanism :: "string option"
  ci_originOidcClientId :: "string option"
  ci_originPerformerUserId :: "string option"
  ci_severity :: "TicketSeverity option"
  ci_teamId :: "string option"
  ci_enforceInitialState :: bool

definition orFail :: "EntityFieldError list \<Rightarrow> rec_failure + unit" where
  "orFail errors = throwIf (errors \<noteq> []) (ValidationError errors)"

definition dueErrorsOnCreate :: "rec_env \<Rightarrow> string option \<Rightarrow> EntityFieldError list" where
  "dueErrorsOnCreate env dueDate =
     (case truthyId dueDate of None \<Rightarrow> [] | Some s \<Rightarrow> validateDueDateOnCreate env s)"

text \<open>The checks up to the formulas: what is left is the type, its fields and the values to store.\<close>

definition createChecks ::
  "rec_env \<Rightarrow> rec_db \<Rightarrow> string \<Rightarrow> CreateEntityInput \<Rightarrow> rec_failure + (EntityType \<times> EntityField list \<times> jsobj)" where
  "createChecks env db tenantId input =
     bindE (loadEntityType db (ci_entityTypeId input) tenantId) (\<lambda>entityType.
     bindE (validateReservedFieldNames (ci_fields input)) (\<lambda>_.
     bindE (parseFor env db (ci_entityTypeId input) tenantId ModeCreate (ci_fields input)) (\<lambda>data.
     bindE (orFail (runCrossFieldValidators env (et_name entityType) data ModeCreate)) (\<lambda>_.
     let allFields = loadEntityFields db (ci_entityTypeId input) tenantId in
     bindE (orFail (validateEntityRefs db tenantId data allFields @ validateUserRefs db tenantId data allFields)) (\<lambda>_.
     bindE (orFail (dueErrorsOnCreate env (ci_dueDate input))) (\<lambda>_.
       Inr (entityType, allFields, applyFormulaFields env allFields data)))))))"

definition createMandatory :: "CreateEntityInput \<Rightarrow> TicketSeverity option \<Rightarrow> jsobj \<Rightarrow> MandatoryValues" where
  "createMandatory input severity flds =
     \<lparr>mv_title = objGet flds ''title'', mv_dueDate = jsOpt (ci_dueDate input), mv_remark = ci_remark input,
      mv_severity = severity\<rparr>"

definition placeRecord ::
  "rec_env \<Rightarrow> rec_db \<Rightarrow> string \<Rightarrow> CreateEntityInput \<Rightarrow> TicketSeverity option \<Rightarrow> jsobj \<Rightarrow> rec_failure + jsobj" where
  "placeRecord env db tenantId input severity flds =
     bindE (case truthyId (ci_teamId input) of
              None \<Rightarrow> Inr flds
            | Some t \<Rightarrow> bindE (assertTeamInTenant db tenantId t) (\<lambda>_. Inr (objPut ''team_id'' (JStr t) flds))) (\<lambda>flds1.
     bindE (case truthyId (ci_workflowId input) of
              None \<Rightarrow> Inr ()
            | Some w \<Rightarrow> assertWorkflowMatchesType db tenantId w (ci_entityTypeId input)) (\<lambda>_.
     bindE (if truthyId (ci_workflowId input) \<noteq> None \<or> entityTypeHasWorkflow db tenantId (ci_entityTypeId input)
            then checkMandatoryFields env (createMandatory input severity flds1) else Inr ()) (\<lambda>_.
       Inr flds1)))"

definition expectedInitial :: "rec_db \<Rightarrow> string \<Rightarrow> string \<Rightarrow> string" where
  "expectedInitial db tenantId workflowId =
     (let validStates = recStateNames db tenantId workflowId;
          initial = resolveInitialState db tenantId (Some workflowId) in
      if initial \<in> set validStates then initial else (case validStates of s # _ \<Rightarrow> s | [] \<Rightarrow> ''initial''))"

definition invalidState :: "string \<Rightarrow> string \<Rightarrow> string \<Rightarrow> string list \<Rightarrow> rec_failure" where
  "invalidState field state what validStates =
     ValidationError [fieldError field ''invalid''
       (''Invalid state '' @ [CHR 0x27] @ state @ [CHR 0x27] @ '' for the '' @ what @ ''. Valid states are: '' @ joinWith '', '' validStates)]"

definition startState :: "rec_db \<Rightarrow> string \<Rightarrow> CreateEntityInput \<Rightarrow> rec_failure + string" where
  "startState db tenantId input =
     (case truthyId (ci_workflowId input) of
        None \<Rightarrow> Inr (dflt ''initial'' (ci_currentState input))
      | Some w \<Rightarrow>
          (let validStates = recStateNames db tenantId w in
           case truthyId (ci_currentState input) of
             None \<Rightarrow> Inr (expectedInitial db tenantId w)
           | Some s \<Rightarrow>
               bindE (throwIf (s \<notin> set validStates) (invalidState ''currentState'' s ''selected workflow'' validStates)) (\<lambda>_.
               bindE (throwIf (ci_enforceInitialState input \<and> s \<noteq> expectedInitial db tenantId w \<and> isStateWriteLocked db tenantId w)
                        (EntityError STATE_CHANGE_NOT_ALLOWED [(''workflowId'', JStr w), (''requested'', JStr s),
                           (''initial'', JStr (expectedInitial db tenantId w))])) (\<lambda>_. Inr s))))"

definition newEntityRow ::
  "rec_env \<Rightarrow> nat \<Rightarrow> string \<Rightarrow> CreateEntityInput \<Rightarrow> TicketSeverity option \<Rightarrow> string \<Rightarrow> jsobj \<Rightarrow> date option \<Rightarrow> entity_row" where
  "newEntityRow env k tenantId input severity state flds due =
     \<lparr>ei_id = re_instanceId env k, ei_entityTypeId = ci_entityTypeId input, ei_tenantId = tenantId,
      ei_workflowId = ci_workflowId input, ei_currentState = state, ei_fields = flds,
      ei_createdBy = ci_createdBy input, ei_assignedTo = ci_assignedTo input, ei_updatedAt = toDate (re_dbNow env),
      ri_dueDate = due, ri_remark = ci_remark input, ri_severity = severity, ri_createdAt = re_dbNow env,
      ri_deletedAt = None, ri_originMechanism = ci_originMechanism input,
      ri_originOidcClientId = ci_originOidcClientId input, ri_originPerformerUserId = ci_originPerformerUserId input\<rparr>"

definition createTrigger :: "CreateEntityInput \<Rightarrow> trigger_source" where
  "createTrigger input =
     (case ci_actorType input of
        Some ActorApiKey \<Rightarrow> TrigApi
      | Some ActorUser \<Rightarrow> TrigUser
      | Some ActorSystem \<Rightarrow> TrigSystem
      | None \<Rightarrow> if ci_createdBy input \<noteq> None then TrigUser else TrigSystem)"

definition createEvent :: "rec_env \<Rightarrow> string \<Rightarrow> CreateEntityInput \<Rightarrow> entity_row \<Rightarrow> string \<Rightarrow> jsobj \<Rightarrow> workflow_events_row" where
  "createEvent env tenantId input row workflowId redacted =
     \<lparr>we_id = re_eventId env 0, we_instanceId = ei_id row, we_workflowId = workflowId, we_fromState = None,
      we_toState = ei_currentState row, we_triggeredBy = createTrigger input,
      we_actorId = (case ci_actorId input of Some a \<Rightarrow> Some a | None \<Rightarrow> ci_createdBy input),
      we_comment = Some ''Record created'',
      we_metadata = [(''type'', JStr ''create''), (''fields'', JObj redacted), (''actorName'', jsOpt (ci_actorName input))],
      we_createdAt = toDate (re_dbNow env), we_originMechanism = ci_originMechanism input,
      we_originOidcClientId = ci_originOidcClientId input, we_originPerformerUserId = ci_originPerformerUserId input,
      we_tenantId = tenantId, we_idempotencyKey = None\<rparr>"

definition createOutbox :: "rec_env \<Rightarrow> nat \<Rightarrow> string \<Rightarrow> string option \<Rightarrow> int option \<Rightarrow> entity_row \<Rightarrow> jsobj \<Rightarrow> outbox_events_row list" where
  "createOutbox env k tenantId actorId depth row redacted =
     outboxRow env k tenantId ''entity.created''
       (buildEntityCreatedPayload tenantId (ei_id row) (ei_entityTypeId row) redacted (ei_createdBy row) depth) #
     (case ei_assignedTo row of
        None \<Rightarrow> []
      | Some a \<Rightarrow> [outboxRow env (k + 1) tenantId ''entity.assigned''
          (buildEntityAssignedPayload tenantId (ei_id row) (ei_entityTypeId row) a
             (resolveAssignedBy actorId (ei_createdBy row)) depth)])"

definition createAudit :: "string \<Rightarrow> CreateEntityInput \<Rightarrow> EntityType \<Rightarrow> EntityField list \<Rightarrow> entity_row \<Rightarrow> EntityAuditHookParams" where
  "createAudit tenantId input entityType allFields row =
     \<lparr>ah_tenantId = tenantId, ah_actorId = dflt (dflt ''system'' (ci_createdBy input)) (ci_actorId input),
      ah_actorType = dflt (if ci_createdBy input \<noteq> None then ActorUser else ActorSystem) (ci_actorType input),
      ah_actingPersonId = ci_actingPersonId input, ah_resourceType = et_name entityType, ah_resourceId = ei_id row,
      ah_action = ActionCreated, ah_beforeSnapshot = None, ah_afterSnapshot = Some (ei_fields row),
      ah_entityFields = auditFields allFields\<rparr>"

definition recordCreated ::
  "rec_env \<Rightarrow> string \<Rightarrow> CreateEntityInput \<Rightarrow> EntityField list \<Rightarrow> entity_row \<Rightarrow> rec_db \<Rightarrow> rec_db" where
  "recordCreated env tenantId input allFields row db =
     (let db1 = (if ri_dueDate row \<noteq> None
                 then rescheduleDueDate env 0 tenantId (ei_id row) (ei_entityTypeId row) None (ri_dueDate row) db else db);
          redacted = redactFields (ei_fields row) (fieldSensitivityMap allFields);
          db2 = (case truthyId (ei_workflowId row) of
                   None \<Rightarrow> db1
                 | Some w \<Rightarrow> db1\<lparr>rd_events := rd_events db1 @ [createEvent env tenantId input row w redacted]\<rparr>) in
      db2\<lparr>rd_outbox := rd_outbox db2 @ createOutbox env 1 tenantId (ci_actorId input) (ci_depth input) row redacted\<rparr>)"

definition createEntity :: "rec_env \<Rightarrow> rec_db \<Rightarrow> string \<Rightarrow> CreateEntityInput \<Rightarrow> rec_failure + (entity_row \<times> rec_db)" where
  "createEntity env db tenantId input =
     bindE (createChecks env db tenantId input) (\<lambda>(entityType, allFields, flds0).
     bindE (placeRecord env db tenantId input (ci_severity input) flds0) (\<lambda>flds.
     bindE (startState db tenantId input) (\<lambda>state.
     bindE (toDueColumn env (ci_dueDate input)) (\<lambda>due.
     let row = newEntityRow env 0 tenantId input (ci_severity input) state flds due in
     bindE (insertKeyed ei_id row (rd_instances db)) (\<lambda>rows.
     bindE (fireEntityAuditHook env (createAudit tenantId input entityType allFields row)
              (recordCreated env tenantId input allFields row (db\<lparr>rd_instances := rows\<rparr>))) (\<lambda>db'.
       Inr (row, db')))))))"

end
