(* ===== verification/RecUpdate.thy ===== *)
theory RecUpdate
  imports RecEngine
begin

text \<open>
  Editing one record: \<open>updateEntity\<close>, \<open>setEntityInstanceSeverity\<close>, \<open>setEntityState\<close>, the tags and
  \<open>deleteEntity\<close> of \<open>packages/entity-engine/src/engine.ts\<close>. The two branches of \<open>updateEntity\<close> (with
  and without field values) share the checks on the due date and the state and the writes that follow.
\<close>

section \<open>Input\<close>

text \<open>
  An optional property that may also be \<open>null\<close> is an option of an option: \<open>None\<close> is
  \<open>undefined\<close> and leaves the column alone, \<open>Some None\<close> is \<open>null\<close>.
\<close>

record UpdateEntityInput =
  ui_fields :: "jsobj option"
  ui_assignedTo :: "string option option"
  ui_dueDate :: "string option option"
  ui_currentState :: "string option option"
  ui_actorId :: "string option"
  ui_actorType :: "EntityAuditActorType option"
  ui_actorName :: "string option"
  ui_depth :: "int option"

text \<open>The columns an update sets.\<close>

record edit =
  ed_fields :: "jsobj option"
  ed_assignedTo :: "string option option"
  ed_dueDate :: "date option option"
  ed_currentState :: "string option"

definition applyEdit :: "rec_env \<Rightarrow> edit \<Rightarrow> entity_row \<Rightarrow> entity_row" where
  "applyEdit env e r =
     r\<lparr>ei_fields := dflt (ei_fields r) (ed_fields e), ei_assignedTo := dflt (ei_assignedTo r) (ed_assignedTo e),
       ri_dueDate := dflt (ri_dueDate r) (ed_dueDate e), ei_currentState := dflt (ei_currentState r) (ed_currentState e),
       ei_updatedAt := re_updatedAt env\<rparr>"

section \<open>Checks\<close>

text \<open>The operator \<open>in\<close> also finds inherited members.\<close>

definition jsIn :: "string \<Rightarrow> jsobj \<Rightarrow> bool" where
  "jsIn k o1 = (hasOwn o1 k \<or> k \<in> set objectPrototypeKeys)"

definition editRefErrors :: "rec_db \<Rightarrow> string \<Rightarrow> jsobj \<Rightarrow> EntityField list \<Rightarrow> EntityFieldError list" where
  "editRefErrors db tenantId providedFields allFields =
     validateEntityRefs db tenantId providedFields
       (filter (\<lambda>f. fd_fieldType f = FtEntityRef \<and> jsIn (ef_name f) providedFields) allFields) @
     validateUserRefs db tenantId providedFields
       (filter (\<lambda>f. fd_fieldType f = FtUserRef \<and> jsIn (ef_name f) providedFields) allFields)"

definition editedFields ::
  "rec_env \<Rightarrow> rec_db \<Rightarrow> string \<Rightarrow> entity_row \<Rightarrow> bool \<Rightarrow> jsobj \<Rightarrow> rec_failure + (EntityType \<times> EntityField list \<times> jsobj)" where
  "editedFields env db tenantId existing isChildTicket provided =
     bindE (validateReservedFieldNames provided) (\<lambda>_.
     bindE (parseFor env db (ei_entityTypeId existing) tenantId ModeUpdate provided) (\<lambda>partial.
     let merged = objSpread (ei_fields existing) partial in
     bindE (if isChildTicket then Inr merged
            else bindE (parseFor env db (ei_entityTypeId existing) tenantId ModeCreate merged)
                   (\<lambda>full. Inr (objSpread (ei_fields existing) full))) (\<lambda>validatedFields.
     bindE (loadEntityType db (ei_entityTypeId existing) tenantId) (\<lambda>entityType.
     bindE (if isChildTicket then Inr ()
            else orFail (runCrossFieldValidators env (et_name entityType) validatedFields ModeUpdate)) (\<lambda>_.
     let allFields = loadEntityFields db (ei_entityTypeId existing) tenantId in
     bindE (orFail (editRefErrors db tenantId provided allFields)) (\<lambda>_.
       Inr (entityType, allFields, applyFormulaFields env allFields validatedFields)))))))"

definition editDueErrors :: "rec_env \<Rightarrow> entity_row \<Rightarrow> string option option \<Rightarrow> EntityFieldError list" where
  "editDueErrors env existing dueDate =
     (case truthyId (dflt None dueDate) of None \<Rightarrow> [] | Some s \<Rightarrow> validateDueDateEdit env s existing)"

text \<open>The due date as an edit sets it, before the driver sees it: an unreadable one is a date object still.\<close>

definition nextDue :: "rec_env \<Rightarrow> string option \<Rightarrow> jsval" where
  "nextDue env dueDate =
     (case truthyId dueDate of None \<Rightarrow> JNull
      | Some s \<Rightarrow> (case re_parseDate env s of None \<Rightarrow> JObj [] | Some d \<Rightarrow> JNum (of_int d)))"

definition editColumn :: "rec_env \<Rightarrow> string option option \<Rightarrow> rec_failure + date option option" where
  "editColumn env dueDate =
     (case dueDate of None \<Rightarrow> Inr None | Some d \<Rightarrow> bindE (toDueColumn env d) (\<lambda>due. Inr (Some due)))"

definition dateValue :: "date option \<Rightarrow> jsval" where
  "dateValue d = (case d of None \<Rightarrow> JNull | Some t \<Rightarrow> JNum (of_int t))"

definition checkEditKeepsMandatoryValues ::
  "rec_env \<Rightarrow> entity_row \<Rightarrow> jsval \<Rightarrow> jsval option \<Rightarrow> rec_failure + unit" where
  "checkEditKeepsMandatoryValues env existing nextTitle nextDueDate =
     (case truthyId (ei_workflowId existing) of
        None \<Rightarrow> Inr ()
      | Some w \<Rightarrow> checkMandatoryFieldsOnUpdate env
          \<lparr>mv_title = objGet (ei_fields existing) ''title'', mv_dueDate = dateValue (ri_dueDate existing),
           mv_remark = ri_remark existing, mv_severity = ri_severity existing\<rparr>
          \<lparr>mv_title = nextTitle, mv_dueDate = dflt (dateValue (ri_dueDate existing)) nextDueDate,
           mv_remark = ri_remark existing, mv_severity = ri_severity existing\<rparr>)"

text \<open>A direct write of the state, as both branches of \<open>updateEntity\<close> and \<open>setEntityState\<close> check it.\<close>

definition checkStateWrite ::
  "rec_db \<Rightarrow> string \<Rightarrow> string \<Rightarrow> string \<Rightarrow> entity_row \<Rightarrow> bool \<Rightarrow> string \<Rightarrow> rec_failure + unit" where
  "checkStateWrite db tenantId instanceId field existing isChildTicket state =
     (if isChildTicket
      then bindE (throwIf (state \<notin> set CHILD_TICKET_STATES)
                    (ValidationError [fieldError field ''invalid''
                       (''Child ticket state must be one of: '' @ joinWith '', '' CHILD_TICKET_STATES)])) (\<lambda>_.
           assertDirectStateWriteAllowed db tenantId instanceId existing state True)
      else (case truthyId (ei_workflowId existing) of
              None \<Rightarrow> Inr ()
            | Some w \<Rightarrow>
                bindE (assertDirectStateWriteAllowed db tenantId instanceId existing state False) (\<lambda>_.
                throwIf (state \<notin> set (recStateNames db tenantId w))
                  (invalidState field state ''workflow'' (recStateNames db tenantId w)))))"

definition editState ::
  "rec_db \<Rightarrow> string \<Rightarrow> string \<Rightarrow> entity_row \<Rightarrow> bool \<Rightarrow> string option option \<Rightarrow> rec_failure + string option" where
  "editState db tenantId instanceId existing isChildTicket currentState =
     (case currentState of
        Some (Some s) \<Rightarrow> bindE (checkStateWrite db tenantId instanceId ''currentState'' existing isChildTicket s) (\<lambda>_. Inr (Some s))
      | _ \<Rightarrow> Inr None)"

section \<open>What an edit leaves behind\<close>

definition writeEntity :: "string \<Rightarrow> string \<Rightarrow> (entity_row \<Rightarrow> entity_row) \<Rightarrow> rec_db \<Rightarrow> rec_failure + (entity_row \<times> rec_db)" where
  "writeEntity tenantId instanceId f db =
     (let db1 = db\<lparr>rd_instances := updateW (isEntity tenantId instanceId) f (rd_instances db)\<rparr> in
      bindE (orThrow (select1 (isEntity tenantId instanceId) (rd_instances db1))
               (EntityError ENTITY_NOT_FOUND [(''instanceId'', JStr instanceId)])) (\<lambda>row. Inr (row, db1)))"

definition assignmentRows ::
  "rec_env \<Rightarrow> nat \<Rightarrow> string \<Rightarrow> string option \<Rightarrow> int option \<Rightarrow> entity_row \<Rightarrow> entity_row \<Rightarrow> outbox_events_row list" where
  "assignmentRows env k tenantId actorId depth existing row =
     (case ei_assignedTo row of
        Some a \<Rightarrow> (if ei_assignedTo row \<noteq> ei_assignedTo existing
           then [outboxRow env k tenantId ''entity.assigned''
                   (buildEntityAssignedPayload tenantId (ei_id row) (ei_entityTypeId row) a
                      (resolveAssignedBy actorId (ei_createdBy row)) depth)] else [])
      | None \<Rightarrow> []) @
     (case ei_assignedTo existing of
        Some p \<Rightarrow> (if ei_assignedTo row \<noteq> ei_assignedTo existing
           then [outboxRow env (k + 1) tenantId ''entity.unassigned''
                   (buildEntityUnassignedPayload tenantId (ei_id row) (ei_entityTypeId row) p actorId depth)] else [])
      | None \<Rightarrow> [])"

definition effectiveWorkflowId :: "rec_db \<Rightarrow> string \<Rightarrow> string \<Rightarrow> entity_row \<Rightarrow> string option" where
  "effectiveWorkflowId db tenantId instanceId row =
     (case truthyId (ei_workflowId row) of
        Some w \<Rightarrow> Some w
      | None \<Rightarrow> Option.bind (getParentId db tenantId instanceId) (\<lambda>p.
                  Option.bind (select1 (isEntity tenantId p) (rd_instances db)) (\<lambda>parent. truthyId (ei_workflowId parent))))"

text \<open>
  Two values have the same JSON text once the database has brought the keys of their objects in
  its own order: members that are \<open>undefined\<close> are left out, in an array they are \<open>null\<close>.
\<close>

primrec normJson :: "jsval \<Rightarrow> jsval" where
  "normJson JUndefined = JUndefined"
| "normJson JNull = JNull"
| "normJson (JBool b) = JBool b"
| "normJson (JNum r) = JNum r"
| "normJson (JStr s) = JStr s"
| "normJson (JArr xs) = JArr (map (\<lambda>v. if v = JUndefined then JNull else v) (map normJson xs))"
| "normJson (JObj o1) = JObj (sort_key fst (filter (\<lambda>(k, v). v \<noteq> JUndefined) (map (map_prod id normJson) o1)))"
| "normJson (JFun k) = JUndefined"

definition changeOf :: "jsval \<Rightarrow> jsval \<Rightarrow> jsval" where
  "changeOf old new = JObj (filter (\<lambda>(k, v). v \<noteq> JUndefined) [(''old'', old), (''new'', new)])"

definition fieldChanges :: "(string \<rightharpoonup> FieldSensitivity) \<Rightarrow> jsobj \<Rightarrow> jsobj \<Rightarrow> jsobj" where
  "fieldChanges sensitivity oldFields newFields =
     map (\<lambda>key. (key, if isSensitive (sensitivity key) then changeOf (JStr ''[REDACTED]'') (JStr ''[REDACTED]'')
                      else changeOf (normJson (objGet oldFields key)) (normJson (objGet newFields key))))
       (filter (\<lambda>key. normJson (objGet oldFields key) \<noteq> normJson (objGet newFields key)) (map fst newFields))"

definition columnChanges :: "entity_row \<Rightarrow> entity_row \<Rightarrow> jsobj \<Rightarrow> jsobj" where
  "columnChanges existing row changed =
     (let c1 = (if ei_assignedTo existing \<noteq> ei_assignedTo row
                then objPut ''assignedTo'' (changeOf (jsOpt (ei_assignedTo existing)) (jsOpt (ei_assignedTo row))) changed
                else changed) in
      if ei_currentState existing \<noteq> ei_currentState row
      then objPut ''state'' (changeOf (JStr (ei_currentState existing)) (JStr (ei_currentState row))) c1 else c1)"

definition updateEvent ::
  "rec_env \<Rightarrow> string \<Rightarrow> string \<Rightarrow> UpdateEntityInput \<Rightarrow> entity_row \<Rightarrow> entity_row \<Rightarrow> string \<Rightarrow> jsobj \<Rightarrow> workflow_events_row" where
  "updateEvent env tenantId instanceId input existing row workflowId changed =
     \<lparr>we_id = re_eventId env 0, we_instanceId = instanceId, we_workflowId = workflowId,
      we_fromState = Some (ei_currentState existing), we_toState = ei_currentState row, we_triggeredBy = TrigUser,
      we_actorId = ui_actorId input,
      we_comment = Some (if ei_currentState existing \<noteq> ei_currentState row
                         then ''State changed to '' @ ei_currentState row else ''Record updated''),
      we_metadata = [(''type'', JStr ''update''), (''changed'', JObj changed), (''actorName'', jsOpt (ui_actorName input))],
      we_createdAt = toDate (re_dbNow env), we_originMechanism = None, we_originOidcClientId = None,
      we_originPerformerUserId = None, we_tenantId = tenantId, we_idempotencyKey = None\<rparr>"

definition logUpdate ::
  "rec_env \<Rightarrow> string \<Rightarrow> string \<Rightarrow> UpdateEntityInput \<Rightarrow> entity_row \<Rightarrow> entity_row \<Rightarrow> string \<Rightarrow> jsobj \<Rightarrow> rec_db \<Rightarrow> rec_db" where
  "logUpdate env tenantId instanceId input existing row workflowId changed db =
     (if changed \<noteq> [] \<or> ei_currentState existing \<noteq> ei_currentState row
      then db\<lparr>rd_events := rd_events db @ [updateEvent env tenantId instanceId input existing row workflowId changed]\<rparr>
      else db)"

definition updatedPayload :: "string \<Rightarrow> string \<Rightarrow> string \<Rightarrow> string option \<Rightarrow> jsobj \<Rightarrow> jsobj" where
  "updatedPayload tenantId instanceId entityTypeId actorId changed =
     [(''eventType'', JStr ''entity.updated''), (''version'', JNum 1), (''tenantId'', JStr tenantId),
      (''instanceId'', JStr instanceId), (''entityTypeId'', JStr entityTypeId), (''actorId'', jsOpt actorId),
      (''changed'', JObj changed)]"

definition announceUpdate ::
  "rec_env \<Rightarrow> string \<Rightarrow> string \<Rightarrow> UpdateEntityInput \<Rightarrow> entity_row \<Rightarrow> jsobj \<Rightarrow> rec_db \<Rightarrow> rec_db" where
  "announceUpdate env tenantId instanceId input existing changed db =
     (if filter (\<lambda>k. k \<noteq> ''assignedTo'' \<and> k \<noteq> ''state'') (map fst changed) \<noteq> []
      then db\<lparr>rd_outbox := rd_outbox db @ [outboxRow env 3 tenantId ''entity.updated''
                (updatedPayload tenantId instanceId (ei_entityTypeId existing) (ui_actorId input) changed)]\<rparr>
      else db)"

definition editEffects :: "rec_env \<Rightarrow> string \<Rightarrow> UpdateEntityInput \<Rightarrow> entity_row \<Rightarrow> entity_row \<Rightarrow> rec_db \<Rightarrow> rec_db" where
  "editEffects env tenantId input existing row db =
     (let db1 = db\<lparr>rd_outbox := rd_outbox db @
                    assignmentRows env 0 tenantId (ui_actorId input) (ui_depth input) existing row\<rparr> in
      if ui_dueDate input \<noteq> None
      then rescheduleDueDate env 2 tenantId (ei_id row) (ei_entityTypeId row) (ri_dueDate existing) (ri_dueDate row) db1
      else db1)"

definition updateAudit ::
  "string \<Rightarrow> string \<Rightarrow> UpdateEntityInput \<Rightarrow> EntityType \<Rightarrow> EntityField list \<Rightarrow> entity_row \<Rightarrow> entity_row \<Rightarrow> EntityAuditHookParams" where
  "updateAudit tenantId instanceId input entityType allFields existing row =
     \<lparr>ah_tenantId = tenantId, ah_actorId = dflt ''system'' (ui_actorId input),
      ah_actorType = dflt (if ui_actorId input \<noteq> None then ActorUser else ActorSystem) (ui_actorType input),
      ah_actingPersonId = None, ah_resourceType = et_name entityType, ah_resourceId = instanceId,
      ah_action = ActionUpdated, ah_beforeSnapshot = Some (ei_fields existing), ah_afterSnapshot = Some (ei_fields row),
      ah_entityFields = auditFields allFields\<rparr>"

section \<open>Updating a record\<close>

text \<open>The history line and the event of an edit, where the record or its parent has a workflow.\<close>

definition recordFieldUpdate ::
  "rec_env \<Rightarrow> string \<Rightarrow> string \<Rightarrow> UpdateEntityInput \<Rightarrow> entity_row \<Rightarrow> entity_row \<Rightarrow> EntityField list \<Rightarrow> rec_db \<Rightarrow> rec_db" where
  "recordFieldUpdate env tenantId instanceId input existing row allFields db =
     (case effectiveWorkflowId db tenantId instanceId row of
        None \<Rightarrow> db
      | Some w \<Rightarrow>
          (let changed = columnChanges existing row
                 (fieldChanges (fieldSensitivityMap allFields) (ei_fields existing) (ei_fields row)) in
           announceUpdate env tenantId instanceId input existing changed
             (logUpdate env tenantId instanceId input existing row w changed db)))"

definition recordColumnUpdate ::
  "rec_env \<Rightarrow> string \<Rightarrow> string \<Rightarrow> UpdateEntityInput \<Rightarrow> entity_row \<Rightarrow> entity_row \<Rightarrow> rec_db \<Rightarrow> rec_db" where
  "recordColumnUpdate env tenantId instanceId input existing row db =
     (case effectiveWorkflowId db tenantId instanceId row of
        None \<Rightarrow> db
      | Some w \<Rightarrow> logUpdate env tenantId instanceId input existing row w (columnChanges existing row []) db)"

definition updateWithFields ::
  "rec_env \<Rightarrow> rec_db \<Rightarrow> string \<Rightarrow> string \<Rightarrow> entity_row \<Rightarrow> UpdateEntityInput \<Rightarrow> jsobj \<Rightarrow> rec_failure + (entity_row \<times> rec_db)" where
  "updateWithFields env db tenantId instanceId existing input provided =
     (let isChildTicket = getParentId db tenantId instanceId \<noteq> None in
      bindE (editedFields env db tenantId existing isChildTicket provided) (\<lambda>(entityType, allFields, flds).
      bindE (orFail (editDueErrors env existing (ui_dueDate input))) (\<lambda>_.
      bindE (checkEditKeepsMandatoryValues env existing (objGet flds ''title'') (map_option (nextDue env) (ui_dueDate input))) (\<lambda>_.
      bindE (editState db tenantId instanceId existing isChildTicket (ui_currentState input)) (\<lambda>state.
      bindE (editColumn env (ui_dueDate input)) (\<lambda>due.
      bindE (writeEntity tenantId instanceId (applyEdit env \<lparr>ed_fields = Some flds, ed_assignedTo = ui_assignedTo input,
               ed_dueDate = due, ed_currentState = state\<rparr>) db) (\<lambda>(row, db1).
      let db2 = editEffects env tenantId input existing row db1;
          db3 = recordFieldUpdate env tenantId instanceId input existing row allFields db2 in
      bindE (fireEntityAuditHook env (updateAudit tenantId instanceId input entityType allFields existing row) db3) (\<lambda>db4.
        Inr (row, db4)))))))))"

definition updateColumns ::
  "rec_env \<Rightarrow> rec_db \<Rightarrow> string \<Rightarrow> string \<Rightarrow> entity_row \<Rightarrow> UpdateEntityInput \<Rightarrow> rec_failure + (entity_row \<times> rec_db)" where
  "updateColumns env db tenantId instanceId existing input =
     (let isChildTicket = getParentId db tenantId instanceId \<noteq> None in
      bindE (orFail (editDueErrors env existing (ui_dueDate input))) (\<lambda>_.
      bindE (checkEditKeepsMandatoryValues env existing (objGet (ei_fields existing) ''title'') (map_option (nextDue env) (ui_dueDate input))) (\<lambda>_.
      bindE (editState db tenantId instanceId existing isChildTicket (ui_currentState input)) (\<lambda>state.
      bindE (editColumn env (ui_dueDate input)) (\<lambda>due.
      bindE (writeEntity tenantId instanceId (applyEdit env \<lparr>ed_fields = None, ed_assignedTo = ui_assignedTo input,
               ed_dueDate = due, ed_currentState = state\<rparr>) db) (\<lambda>(row, db1).
      let db2 = editEffects env tenantId input existing row db1 in
      Inr (row, recordColumnUpdate env tenantId instanceId input existing row db2)))))))"

definition updateEntity ::
  "rec_env \<Rightarrow> rec_db \<Rightarrow> string \<Rightarrow> string \<Rightarrow> UpdateEntityInput \<Rightarrow> rec_failure + (entity_row \<times> rec_db)" where
  "updateEntity env db tenantId instanceId input =
     bindE (liveEntity db tenantId instanceId) (\<lambda>existing.
       case ui_fields input of
         Some provided \<Rightarrow> updateWithFields env db tenantId instanceId existing input provided
       | None \<Rightarrow>
           if ui_assignedTo input \<noteq> None \<or> ui_currentState input \<noteq> None \<or> ui_dueDate input \<noteq> None
           then updateColumns env db tenantId instanceId existing input
           else Inr (existing, db))"

section \<open>Severity and state\<close>

definition setEntityInstanceSeverity ::
  "rec_env \<Rightarrow> rec_db \<Rightarrow> string \<Rightarrow> string \<Rightarrow> TicketSeverity \<Rightarrow>
     rec_failure + ((entity_row \<times> TicketSeverity option) \<times> rec_db)" where
  "setEntityInstanceSeverity env db tenantId instanceId severity =
     bindE (liveEntity db tenantId instanceId) (\<lambda>existing.
     bindE (writeEntity tenantId instanceId (\<lambda>r. r\<lparr>ri_severity := Some severity, ei_updatedAt := re_updatedAt env\<rparr>) db)
       (\<lambda>(row, db1). Inr ((row, ri_severity existing), db1)))"

definition directSetEvent ::
  "rec_env \<Rightarrow> nat \<Rightarrow> string \<Rightarrow> string option \<Rightarrow> entity_row \<Rightarrow> string \<Rightarrow> string \<Rightarrow> workflow_events_row" where
  "directSetEvent env k tenantId actorId existing workflowId state =
     \<lparr>we_id = re_eventId env k, we_instanceId = ei_id existing, we_workflowId = workflowId,
      we_fromState = Some (ei_currentState existing), we_toState = state, we_triggeredBy = TrigUser,
      we_actorId = actorId, we_comment = Some (''State set directly to '' @ state),
      we_metadata = [(''type'', JStr ''direct-set'')], we_createdAt = toDate (re_dbNow env), we_originMechanism = None,
      we_originOidcClientId = None, we_originPerformerUserId = None, we_tenantId = tenantId, we_idempotencyKey = None\<rparr>"

definition directSetPayload :: "rec_env \<Rightarrow> string \<Rightarrow> string option \<Rightarrow> entity_row \<Rightarrow> string \<Rightarrow> string \<Rightarrow> jsobj" where
  "directSetPayload env tenantId actorId existing workflowId state =
     [(''eventType'', JStr ''workflow.transitioned''), (''version'', JNum 1), (''tenantId'', JStr tenantId),
      (''instanceId'', JStr (ei_id existing)), (''entityTypeId'', JStr (ei_entityTypeId existing)),
      (''workflowId'', JStr workflowId), (''fromState'', JStr (ei_currentState existing)), (''toState'', JStr state),
      (''triggeredBy'', JStr ''user''), (''actorId'', jsOpt actorId), (''occurredAt'', JStr (toISOString (re_updatedAt env)))]"

definition stateAudit :: "string \<Rightarrow> EntityType \<Rightarrow> EntityField list \<Rightarrow> entity_row \<Rightarrow> string \<Rightarrow> EntityAuditHookParams" where
  "stateAudit tenantId entityType allFields existing state =
     \<lparr>ah_tenantId = tenantId, ah_actorId = ''system'', ah_actorType = ActorSystem, ah_actingPersonId = None,
      ah_resourceType = et_name entityType, ah_resourceId = ei_id existing, ah_action = ActionTransitioned,
      ah_beforeSnapshot = Some [(''currentState'', JStr (ei_currentState existing))],
      ah_afterSnapshot = Some [(''currentState'', JStr state)], ah_entityFields = auditFields allFields\<rparr>"

definition setEntityState ::
  "rec_env \<Rightarrow> rec_db \<Rightarrow> string \<Rightarrow> string \<Rightarrow> string \<Rightarrow> string option \<Rightarrow> rec_failure + (entity_row \<times> rec_db)" where
  "setEntityState env db tenantId instanceId state actorId =
     bindE (liveEntity db tenantId instanceId) (\<lambda>existing.
     bindE (checkStateWrite db tenantId instanceId ''state'' existing (getParentId db tenantId instanceId \<noteq> None) state) (\<lambda>_.
     bindE (writeEntity tenantId instanceId (\<lambda>r. r\<lparr>ei_currentState := state, ei_updatedAt := re_updatedAt env\<rparr>) db)
       (\<lambda>(row, db1).
     let db2 = (case truthyId (ei_workflowId existing) of
                  None \<Rightarrow> db1
                | Some w \<Rightarrow>
                    if ei_currentState existing = state then db1
                    else db1\<lparr>rd_events := rd_events db1 @ [directSetEvent env 0 tenantId actorId existing w state],
                             rd_outbox := rd_outbox db1 @ [outboxRow env 0 tenantId ''workflow.transitioned''
                               (directSetPayload env tenantId actorId existing w state)]\<rparr>) in
     bindE (loadEntityType db2 (ei_entityTypeId existing) tenantId) (\<lambda>entityType.
     bindE (fireEntityAuditHook env (stateAudit tenantId entityType
              (loadEntityFields db2 (ei_entityTypeId existing) tenantId) existing state) db2) (\<lambda>db3.
       Inr (row, db3))))))"

section \<open>Tags\<close>

definition isTagOf :: "string \<Rightarrow> string \<Rightarrow> string \<Rightarrow> EntityInstanceTag \<Rightarrow> bool" where
  "isTagOf tenantId entityInstanceId tagText t =
     (tg_tenantId t = tenantId \<and> tg_entityInstanceId t = entityInstanceId \<and> tg_tagText t = tagText)"

definition addEntityInstanceTag ::
  "rec_env \<Rightarrow> rec_db \<Rightarrow> string \<Rightarrow> string \<Rightarrow> string \<Rightarrow> string \<Rightarrow> rec_failure + (EntityInstanceTag \<times> rec_db)" where
  "addEntityInstanceTag env db tenantId entityInstanceId rawTagText createdBy =
     (let tagText = normalizeTagText rawTagText in
      bindE (throwIf (length tagText = 0 \<or> TAG_TEXT_MAX_LENGTH < length tagText)
               (ValidationError [fieldError ''tagText'' ''invalid'' ''Tag must be 1-50 characters after trimming''])) (\<lambda>_.
      bindE (orThrow (select1 (isLiveEntity tenantId entityInstanceId) (rd_instances db))
               (EntityError ENTITY_NOT_FOUND [(''entityInstanceId'', JStr entityInstanceId)])) (\<lambda>_.
      bindE (throwIf (list_ex (isTagOf tenantId entityInstanceId tagText) (rd_tags db))
               (EntityError TAG_ALREADY_EXISTS [(''entityInstanceId'', JStr entityInstanceId), (''tagText'', JStr tagText)])) (\<lambda>_.
      let row = \<lparr>tg_id = re_rowId env 0, tg_tenantId = tenantId, tg_entityInstanceId = entityInstanceId,
                 tg_tagText = tagText, tg_createdBy = createdBy, tg_createdAt = re_dbNow env\<rparr> in
      Inr (row, db\<lparr>rd_tags := insertRow row (rd_tags db)\<rparr>)))))"

definition removeEntityInstanceTag ::
  "rec_db \<Rightarrow> string \<Rightarrow> string \<Rightarrow> string \<Rightarrow> string \<Rightarrow> bool \<Rightarrow> rec_failure + (EntityInstanceTag \<times> rec_db)" where
  "removeEntityInstanceTag db tenantId entityInstanceId tagId requestingUserId allowAdminOverride =
     bindE (orThrow (select1 (\<lambda>t. tg_id t = tagId \<and> tg_entityInstanceId t = entityInstanceId \<and> tg_tenantId t = tenantId) (rd_tags db))
              (EntityError TAG_NOT_FOUND [(''tagId'', JStr tagId)])) (\<lambda>existing.
     bindE (throwIf (tg_createdBy existing \<noteq> requestingUserId \<and> \<not> allowAdminOverride)
              (EntityError TAG_FORBIDDEN [(''tagId'', JStr tagId)])) (\<lambda>_.
       Inr (existing, db\<lparr>rd_tags := deleteW (\<lambda>t. tg_id t = tagId \<and> tg_tenantId t = tenantId) (rd_tags db)\<rparr>)))"

definition listEntityInstanceTags :: "rec_db \<Rightarrow> string \<Rightarrow> string \<Rightarrow> EntityInstanceTag list" where
  "listEntityInstanceTags db tenantId entityInstanceId =
     sort_key tg_createdAt (selectW (\<lambda>t. tg_entityInstanceId t = entityInstanceId \<and> tg_tenantId t = tenantId) (rd_tags db))"

section \<open>Deleting a record\<close>

definition deleteAudit :: "string \<Rightarrow> string \<Rightarrow> string option \<Rightarrow> EntityType \<Rightarrow> EntityField list \<Rightarrow> entity_row \<Rightarrow> EntityAuditHookParams" where
  "deleteAudit tenantId instanceId actorId entityType allFields row =
     \<lparr>ah_tenantId = tenantId, ah_actorId = dflt ''system'' actorId,
      ah_actorType = (if actorId \<noteq> None then ActorUser else ActorSystem), ah_actingPersonId = None,
      ah_resourceType = et_name entityType, ah_resourceId = instanceId, ah_action = ActionDeleted,
      ah_beforeSnapshot = Some (ei_fields row), ah_afterSnapshot = None, ah_entityFields = auditFields allFields\<rparr>"

definition deleteEntity :: "rec_env \<Rightarrow> rec_db \<Rightarrow> string \<Rightarrow> string \<Rightarrow> string option \<Rightarrow> rec_failure + (unit \<times> rec_db)" where
  "deleteEntity env db tenantId instanceId actorId =
     bindE (liveEntity db tenantId instanceId) (\<lambda>row0.
     let row = row0\<lparr>ri_deletedAt := Some (re_updatedAt env)\<rparr>;
         db1 = db\<lparr>rd_instances := updateW (isLiveEntity tenantId instanceId)
                    (\<lambda>r. r\<lparr>ri_deletedAt := Some (re_updatedAt env)\<rparr>) (rd_instances db)\<rparr>;
         db2 = (if ri_dueDate row \<noteq> None
                then rescheduleDueDate env 0 tenantId (ei_id row) (ei_entityTypeId row) (ri_dueDate row) None db1 else db1) in
     bindE (loadEntityType db2 (ei_entityTypeId row) tenantId) (\<lambda>entityType.
     bindE (fireEntityAuditHook env (deleteAudit tenantId instanceId actorId entityType
              (loadEntityFields db2 (ei_entityTypeId row) tenantId) row) db2) (\<lambda>db3.
       Inr ((), db3))))"

end
