(* ===== verification/RecBulk.thy ===== *)
theory RecBulk
  imports RecUpdate
begin

text \<open>
  The bulk operations of \<open>packages/entity-engine/src/engine.ts\<close>. An item that fails validation is
  reported with its index and does not stop the others; any other error ends the whole call. The items
  of a bulk update are started together; they touch different rows, so the model takes them in order.
  An unreadable due date, which the insert or update statement refuses, ends the call.
\<close>

section \<open>Items\<close>

text \<open>A validation error is the item's, every other error the call's.\<close>

definition softly :: "rec_failure + 'a \<Rightarrow> rec_failure + (EntityFieldError list + 'a)" where
  "softly r =
     (case r of
        Inl (ValidationError es) \<Rightarrow> Inr (Inl es)
      | Inl e \<Rightarrow> Inl e
      | Inr x \<Rightarrow> Inr (Inr x))"

lemma softly_Inr_Inr [result_simps]: "softly r = Inr (Inr x) \<longleftrightarrow> r = Inr x"
  by (auto simp: softly_def split: sum.splits rec_failure.splits)

lemma softly_Inr_Inl [result_simps]: "softly r = Inr (Inl es) \<longleftrightarrow> r = Inl (ValidationError es)"
  by (auto simp: softly_def split: sum.splits rec_failure.splits)

section \<open>Bulk creation\<close>

record BulkCreateResult =
  bc_created :: "entity_row list"
  bc_errors :: "(nat \<times> EntityFieldError list) list"

record bulk_new =
  bn_row :: entity_row
  bn_type :: EntityType
  bn_fields :: "EntityField list"
  bn_input :: CreateEntityInput

definition bulkCreateItem :: "rec_env \<Rightarrow> rec_db \<Rightarrow> string \<Rightarrow> nat \<Rightarrow> CreateEntityInput \<Rightarrow> rec_failure + bulk_new" where
  "bulkCreateItem env db tenantId i input =
     bindE (validateReservedFieldNames (ci_fields input)) (\<lambda>_.
     bindE (parseFor env db (ci_entityTypeId input) tenantId ModeCreate (ci_fields input)) (\<lambda>data.
     bindE (loadEntityType db (ci_entityTypeId input) tenantId) (\<lambda>entityType.
     let allFields = loadEntityFields db (ci_entityTypeId input) tenantId;
         severity = Some (dflt DEFAULT_TICKET_SEVERITY (ci_severity input)) in
     bindE (orFail (runCrossFieldValidators env (et_name entityType) data ModeCreate)) (\<lambda>_.
     bindE (orFail (validateEntityRefs db tenantId data allFields @ validateUserRefs db tenantId data allFields)) (\<lambda>_.
     bindE (orFail (dueErrorsOnCreate env (ci_dueDate input))) (\<lambda>_.
     bindE (placeRecord env db tenantId input severity (applyFormulaFields env allFields data)) (\<lambda>flds.
     bindE (toDueColumn env (ci_dueDate input)) (\<lambda>due.
       Inr \<lparr>bn_row = newEntityRow env i tenantId
              (input\<lparr>ci_originMechanism := None, ci_originOidcClientId := None, ci_originPerformerUserId := None\<rparr>)
              severity (resolveInitialState db tenantId (ci_workflowId input)) flds due,
            bn_type = entityType, bn_fields = allFields, bn_input = input\<rparr>))))))))"

fun bulkCreateItems ::
  "rec_env \<Rightarrow> rec_db \<Rightarrow> string \<Rightarrow> nat \<Rightarrow> CreateEntityInput list \<Rightarrow>
     rec_failure + ((nat \<times> EntityFieldError list) list \<times> bulk_new list)" where
  "bulkCreateItems env db tenantId i [] = Inr ([], [])"
| "bulkCreateItems env db tenantId i (input # inputs) =
     bindE (softly (bulkCreateItem env db tenantId i input)) (\<lambda>outcome.
     bindE (bulkCreateItems env db tenantId (i + 1) inputs) (\<lambda>(errors, news).
       Inr (case outcome of Inl es \<Rightarrow> ((i, es) # errors, news) | Inr n \<Rightarrow> (errors, n # news))))"

fun insertAll :: "entity_row list \<Rightarrow> entity_row list \<Rightarrow> rec_failure + entity_row list" where
  "insertAll [] t = Inr t"
| "insertAll (r # rs) t = bindE (insertKeyed ei_id r t) (insertAll rs)"

definition bulkCreatedRows :: "rec_env \<Rightarrow> string \<Rightarrow> nat \<Rightarrow> bulk_new \<Rightarrow> outbox_events_row list" where
  "bulkCreatedRows env tenantId idx n =
     createOutbox env (3 * idx) tenantId (ci_actorId (bn_input n)) (ci_depth (bn_input n)) (bn_row n)
       (redactFields (ei_fields (bn_row n)) (fieldSensitivityMap (bn_fields n)))"

definition scheduleNew :: "rec_env \<Rightarrow> string \<Rightarrow> nat \<times> bulk_new \<Rightarrow> rec_db \<Rightarrow> rec_db" where
  "scheduleNew env tenantId p db =
     (let row = bn_row (snd p) in
      if ri_dueDate row \<noteq> None
      then rescheduleDueDate env (3 * fst p + 2) tenantId (ei_id row) (ei_entityTypeId row) None (ri_dueDate row) db else db)"

definition bulkCreateAudit :: "string \<Rightarrow> bulk_new \<Rightarrow> EntityAuditHookParams" where
  "bulkCreateAudit tenantId n =
     \<lparr>ah_tenantId = tenantId, ah_actorId = dflt ''system'' (ci_createdBy (bn_input n)),
      ah_actorType = (if ci_createdBy (bn_input n) \<noteq> None then ActorUser else ActorSystem), ah_actingPersonId = None,
      ah_resourceType = et_name (bn_type n), ah_resourceId = ei_id (bn_row n), ah_action = ActionCreated,
      ah_beforeSnapshot = None, ah_afterSnapshot = Some (ei_fields (bn_row n)), ah_entityFields = auditFields (bn_fields n)\<rparr>"

fun fireAll :: "rec_env \<Rightarrow> EntityAuditHookParams list \<Rightarrow> rec_db \<Rightarrow> rec_failure + rec_db" where
  "fireAll env [] db = Inr db"
| "fireAll env (p # ps) db = bindE (fireEntityAuditHook env p db) (fireAll env ps)"

definition bulkCreateEntities ::
  "rec_env \<Rightarrow> rec_db \<Rightarrow> string \<Rightarrow> CreateEntityInput list \<Rightarrow> rec_failure + (BulkCreateResult \<times> rec_db)" where
  "bulkCreateEntities env db tenantId inputs =
     bindE (bulkCreateItems env db tenantId 0 inputs) (\<lambda>(errors, news).
       if news = [] then Inr (\<lparr>bc_created = [], bc_errors = errors\<rparr>, db)
       else bindE (insertAll (map bn_row news) (rd_instances db)) (\<lambda>rows.
            let numbered = zip [0..<length news] news;
                db1 = db\<lparr>rd_instances := rows,
                         rd_outbox := rd_outbox db @ concat (map (\<lambda>(idx, n). bulkCreatedRows env tenantId idx n) numbered)\<rparr>;
                db2 = fold (scheduleNew env tenantId) numbered db1 in
            bindE (fireAll env (map (bulkCreateAudit tenantId) news) db2) (\<lambda>db3.
              Inr (\<lparr>bc_created = map bn_row news, bc_errors = errors\<rparr>, db3))))"

section \<open>Bulk update\<close>

record BulkUpdateError =
  bu_index :: nat
  bu_id :: string
  bu_code :: string
  bu_fields :: "EntityFieldError list option"

record BulkUpdateResult =
  bu_updated :: "entity_row list"
  bu_errors :: "BulkUpdateError list"

definition bulkEditedFields ::
  "rec_env \<Rightarrow> rec_db \<Rightarrow> string \<Rightarrow> entity_row \<Rightarrow> jsobj \<Rightarrow> rec_failure + (EntityType \<times> EntityField list \<times> jsobj)" where
  "bulkEditedFields env db tenantId existing provided =
     bindE (validateReservedFieldNames provided) (\<lambda>_.
     bindE (parseFor env db (ei_entityTypeId existing) tenantId ModeUpdate provided) (\<lambda>partial.
     bindE (parseFor env db (ei_entityTypeId existing) tenantId ModeCreate (objSpread (ei_fields existing) partial)) (\<lambda>full.
     bindE (loadEntityType db (ei_entityTypeId existing) tenantId) (\<lambda>entityType.
     bindE (orFail (runCrossFieldValidators env (et_name entityType) full ModeUpdate)) (\<lambda>_.
     let allFields = loadEntityFields db (ei_entityTypeId existing) tenantId in
       Inr (entityType, allFields, applyFormulaFields env allFields (objSpread (ei_fields existing) full)))))))"

text \<open>The write of one item with its due-date marker and audit entry; a row that is gone is left out.\<close>

definition bulkWrite ::
  "rec_env \<Rightarrow> nat \<Rightarrow> string \<Rightarrow> string \<Rightarrow> entity_row \<Rightarrow> UpdateEntityInput \<Rightarrow> edit \<Rightarrow>
     (rec_db \<Rightarrow> rec_failure + (EntityType \<times> EntityField list)) \<Rightarrow> rec_db \<Rightarrow>
     rec_failure + (entity_row option \<times> outbox_events_row list \<times> rec_db)" where
  "bulkWrite env i tenantId instanceId existing input e meta db =
     (let db1 = db\<lparr>rd_instances := updateW (isEntity tenantId instanceId) (applyEdit env e) (rd_instances db)\<rparr> in
      case select1 (isEntity tenantId instanceId) (rd_instances db1) of
        None \<Rightarrow> Inr (None, [], db1)
      | Some row \<Rightarrow>
          (let db2 = (if ui_dueDate input \<noteq> None
                      then rescheduleDueDate env (3 * i + 2) tenantId (ei_id row) (ei_entityTypeId row)
                             (ri_dueDate existing) (ri_dueDate row) db1
                      else db1) in
           bindE (meta db2) (\<lambda>(entityType, allFields).
           bindE (fireEntityAuditHook env (updateAudit tenantId instanceId input entityType allFields existing row) db2) (\<lambda>db3.
             Inr (Some row, assignmentRows env (3 * i) tenantId (ui_actorId input) (ui_depth input) existing row, db3)))))"

definition bulkUpdateItem ::
  "rec_env \<Rightarrow> nat \<Rightarrow> string \<Rightarrow> string \<Rightarrow> entity_row \<Rightarrow> UpdateEntityInput \<Rightarrow> rec_db \<Rightarrow>
     rec_failure + (entity_row option \<times> outbox_events_row list \<times> rec_db)" where
  "bulkUpdateItem env i tenantId instanceId existing input db =
     (case ui_fields input of
        Some provided \<Rightarrow>
          bindE (bulkEditedFields env db tenantId existing provided) (\<lambda>(entityType, allFields, flds).
          bindE (orFail (editDueErrors env existing (ui_dueDate input))) (\<lambda>_.
          bindE (checkEditKeepsMandatoryValues env existing (objGet flds ''title'') (map_option (nextDue env) (ui_dueDate input))) (\<lambda>_.
          bindE (editColumn env (ui_dueDate input)) (\<lambda>due.
            bulkWrite env i tenantId instanceId existing input
              \<lparr>ed_fields = Some flds, ed_assignedTo = ui_assignedTo input, ed_dueDate = due, ed_currentState = None\<rparr>
              (\<lambda>_. Inr (entityType, allFields)) db))))
      | None \<Rightarrow>
          if ui_assignedTo input \<noteq> None \<or> ui_dueDate input \<noteq> None
          then bindE (orFail (editDueErrors env existing (ui_dueDate input))) (\<lambda>_.
               bindE (checkEditKeepsMandatoryValues env existing (objGet (ei_fields existing) ''title'') (map_option (nextDue env) (ui_dueDate input))) (\<lambda>_.
               bindE (editColumn env (ui_dueDate input)) (\<lambda>due.
                 bulkWrite env i tenantId instanceId existing input
                   \<lparr>ed_fields = None, ed_assignedTo = ui_assignedTo input, ed_dueDate = due, ed_currentState = None\<rparr>
                   (\<lambda>db1. bindE (loadEntityType db1 (ei_entityTypeId existing) tenantId)
                            (\<lambda>t. Inr (t, loadEntityFields db1 (ei_entityTypeId existing) tenantId))) db)))
          else Inr (Some existing, [], db))"

fun bulkUpdateItems ::
  "rec_env \<Rightarrow> rec_db \<Rightarrow> string \<Rightarrow> nat \<Rightarrow> (string \<times> UpdateEntityInput) list \<Rightarrow> rec_db \<Rightarrow>
     rec_failure + (BulkUpdateResult \<times> outbox_events_row list \<times> rec_db)" where
  "bulkUpdateItems env snapshot tenantId i [] db = Inr (\<lparr>bu_updated = [], bu_errors = []\<rparr>, [], db)"
| "bulkUpdateItems env snapshot tenantId i ((instanceId, input) # items) db =
     (case select1 (isLiveEntity tenantId instanceId) (rd_instances snapshot) of
        None \<Rightarrow>
          bindE (bulkUpdateItems env snapshot tenantId (i + 1) items db) (\<lambda>(res, rows, db1).
            Inr (res\<lparr>bu_errors := \<lparr>bu_index = i, bu_id = instanceId, bu_code = ''ENTITY_NOT_FOUND'', bu_fields = None\<rparr> # bu_errors res\<rparr>,
                 rows, db1))
      | Some existing \<Rightarrow>
          bindE (softly (bulkUpdateItem env i tenantId instanceId existing input db)) (\<lambda>outcome.
          case outcome of
            Inl es \<Rightarrow>
              bindE (bulkUpdateItems env snapshot tenantId (i + 1) items db) (\<lambda>(res, rows, db1).
                Inr (res\<lparr>bu_errors := \<lparr>bu_index = i, bu_id = instanceId, bu_code = ''VALIDATION_ERROR'', bu_fields = Some es\<rparr> # bu_errors res\<rparr>,
                     rows, db1))
          | Inr (row, rows0, db0) \<Rightarrow>
              bindE (bulkUpdateItems env snapshot tenantId (i + 1) items db0) (\<lambda>(res, rows, db1).
                Inr (res\<lparr>bu_updated := (case row of None \<Rightarrow> [] | Some r \<Rightarrow> [r]) @ bu_updated res\<rparr>, rows0 @ rows, db1))))"

definition bulkUpdateEntities ::
  "rec_env \<Rightarrow> rec_db \<Rightarrow> string \<Rightarrow> (string \<times> UpdateEntityInput) list \<Rightarrow> rec_failure + (BulkUpdateResult \<times> rec_db)" where
  "bulkUpdateEntities env db tenantId updates =
     bindE (bulkUpdateItems env db tenantId 0 updates db) (\<lambda>(res, rows, db1).
       Inr (res, db1\<lparr>rd_outbox := rd_outbox db1 @ rows\<rparr>))"

section \<open>Bulk state change\<close>

record BulkSetStateResult =
  bs_updatedIds :: "string list"
  bs_errors :: "(nat \<times> string \<times> string) list"

definition foundEntity :: "rec_db \<Rightarrow> string \<Rightarrow> string \<Rightarrow> entity_row option" where
  "foundEntity db tenantId i = select1 (isLiveEntity tenantId i) (rd_instances db)"

text \<open>Why an item whose record was found is refused, if it is.\<close>

definition stateRefusal :: "rec_db \<Rightarrow> string \<Rightarrow> entity_row \<Rightarrow> string \<Rightarrow> string option" where
  "stateRefusal db tenantId existing state =
     (let workflowId = truthyId (ei_workflowId existing);
          locked = (case workflowId of None \<Rightarrow> False | Some w \<Rightarrow> w \<in> lockedWorkflowIds db tenantId [w]);
          changes = (state \<noteq> ei_currentState existing) in
      if getParentId db tenantId (ei_id existing) \<noteq> None
      then (if state \<notin> set CHILD_TICKET_STATES then Some ''INVALID_STATE''
            else if locked \<and> changes \<and> workflowHasStateNamed db tenantId (dflt [] workflowId) state
            then Some ''STATE_CHANGE_NOT_ALLOWED'' else None)
      else (if locked \<and> changes then Some ''STATE_CHANGE_NOT_ALLOWED''
            else if workflowId \<noteq> None \<and> state \<notin> set (recStateNames db tenantId (dflt [] workflowId))
            then Some ''INVALID_STATE'' else None))"

definition bulkStateErrors :: "rec_db \<Rightarrow> string \<Rightarrow> (nat \<times> string \<times> string) list \<Rightarrow> (nat \<times> string \<times> string) list" where
  "bulkStateErrors db tenantId items =
     concat (map (\<lambda>(i, iid, _). if foundEntity db tenantId iid = None then [(i, iid, ''ENTITY_NOT_FOUND'')] else []) items) @
     concat (map (\<lambda>(i, iid, state).
       case foundEntity db tenantId iid of None \<Rightarrow> []
       | Some existing \<Rightarrow> (case stateRefusal db tenantId existing state of None \<Rightarrow> [] | Some code \<Rightarrow> [(i, iid, code)])) items)"

definition acceptedStates :: "rec_db \<Rightarrow> string \<Rightarrow> (string \<times> string) list \<Rightarrow> (string \<times> string) list" where
  "acceptedStates db tenantId items =
     filter (\<lambda>(iid, state). case foundEntity db tenantId iid of None \<Rightarrow> False
             | Some existing \<Rightarrow> stateRefusal db tenantId existing state = None) items"

definition byState :: "(string \<times> string) list \<Rightarrow> (string \<times> string list) list" where
  "byState items = map (\<lambda>s. (s, map fst (filter (\<lambda>p. snd p = s) items))) (rev (remdups (rev (map snd items))))"

definition writeStates :: "rec_env \<Rightarrow> string \<Rightarrow> (string \<times> string list) list \<Rightarrow> entity_row list \<Rightarrow> entity_row list" where
  "writeStates env tenantId groups rows =
     fold (\<lambda>(state, ids). updateW (\<lambda>r. ei_id r \<in> set ids \<and> ei_tenantId r = tenantId)
             (\<lambda>r. r\<lparr>ei_currentState := state, ei_updatedAt := re_updatedAt env\<rparr>)) groups rows"

definition writtenRows :: "rec_db \<Rightarrow> string \<Rightarrow> (string \<times> string list) list \<Rightarrow> (entity_row \<times> string) list" where
  "writtenRows db tenantId groups =
     concat (map (\<lambda>(state, ids). map (\<lambda>r. (r, state))
       (selectW (\<lambda>r. ei_id r \<in> set ids \<and> ei_tenantId r = tenantId) (rd_instances db))) groups)"

text \<open>The rows whose state really changed, with the state each had before the call.\<close>

definition stateMoves :: "rec_db \<Rightarrow> string \<Rightarrow> (string \<times> string list) list \<Rightarrow> (entity_row \<times> string \<times> string) list" where
  "stateMoves db tenantId groups =
     concat (map (\<lambda>(r, state).
       case Option.bind (foundEntity db tenantId (ei_id r)) (\<lambda>prior. map_option (\<lambda>w. (prior, w)) (truthyId (ei_workflowId prior))) of
         None \<Rightarrow> []
       | Some (prior, w) \<Rightarrow> if ei_currentState prior = state then [] else [(prior, w, state)]) (writtenRows db tenantId groups))"

fun stateAudits :: "rec_db \<Rightarrow> string \<Rightarrow> rec_db \<Rightarrow> (string \<times> string) list \<Rightarrow> rec_failure + EntityAuditHookParams list" where
  "stateAudits snapshot tenantId db [] = Inr []"
| "stateAudits snapshot tenantId db ((iid, state) # items) =
     (case foundEntity snapshot tenantId iid of
        None \<Rightarrow> stateAudits snapshot tenantId db items
      | Some prior \<Rightarrow>
          bindE (loadEntityType db (ei_entityTypeId prior) tenantId) (\<lambda>t.
          bindE (stateAudits snapshot tenantId db items) (\<lambda>ps.
            Inr (stateAudit tenantId t (loadEntityFields db (ei_entityTypeId prior) tenantId) prior state # ps))))"

definition bulkSetState ::
  "rec_env \<Rightarrow> rec_db \<Rightarrow> string \<Rightarrow> (string \<times> string) list \<Rightarrow> string option \<Rightarrow> rec_failure + (BulkSetStateResult \<times> rec_db)" where
  "bulkSetState env db tenantId items actorId =
     (let errors = bulkStateErrors db tenantId (zip [0..<length items] items);
          accepted = acceptedStates db tenantId items in
      if accepted = [] then Inr (\<lparr>bs_updatedIds = [], bs_errors = errors\<rparr>, db)
      else (let groups = byState accepted;
                moves = stateMoves db tenantId groups;
                numbered = zip [0..<length moves] moves;
                db1 = db\<lparr>rd_instances := writeStates env tenantId groups (rd_instances db),
                  rd_events := rd_events db @ map (\<lambda>(k, prior, w, state). directSetEvent env k tenantId actorId prior w state) numbered,
                  rd_outbox := rd_outbox db @ map (\<lambda>(k, prior, w, state). outboxRow env k tenantId ''workflow.transitioned''
                                 (directSetPayload env tenantId actorId prior w state)) numbered\<rparr> in
            bindE (stateAudits db tenantId db1 accepted) (\<lambda>ps.
            bindE (fireAll env ps db1) (\<lambda>db2.
              Inr (\<lparr>bs_updatedIds = map (ei_id \<circ> fst) (writtenRows db tenantId groups), bs_errors = errors\<rparr>, db2)))))"

end
