(* ===== verification/RecTree.thy ===== *)
theory RecTree
  imports RecBulk
begin

text \<open>
  Parents and children: \<open>packages/entity-engine/src/child-relations.ts\<close> and \<open>archive.ts\<close>. A link is a
  pair of rows, \<open>parent_of\<close> from the parent and \<open>child_of\<close> from the child. The walks down the tree
  have no bound in the code, so they are partial: \<open>None\<close> means that the call does not return.
\<close>

section \<open>Walks\<close>

definition HARD_MAX :: nat where
  "HARD_MAX = 20"

fun ancestorDepthFrom :: "rec_db \<Rightarrow> string \<Rightarrow> nat \<Rightarrow> string \<Rightarrow> nat" where
  "ancestorDepthFrom db tenantId 0 current = 0"
| "ancestorDepthFrom db tenantId (Suc n) current =
     (case getParentId db tenantId current of None \<Rightarrow> 0 | Some p \<Rightarrow> Suc (ancestorDepthFrom db tenantId n p))"

definition getAncestorDepth :: "rec_db \<Rightarrow> string \<Rightarrow> string \<Rightarrow> nat" where
  "getAncestorDepth db tenantId instanceId = ancestorDepthFrom db tenantId HARD_MAX instanceId"

definition childIdsOf :: "rec_db \<Rightarrow> string \<Rightarrow> string \<Rightarrow> string list" where
  "childIdsOf db tenantId instanceId =
     map er_toInstanceId (selectW (isLiveRel tenantId RELATION_PARENT_OF instanceId) (rd_relations db))"

partial_function (option) depthMax :: "rec_db \<Rightarrow> string \<Rightarrow> string list \<Rightarrow> nat \<Rightarrow> nat option" where
  "depthMax db tenantId children m =
     (case children of
        [] \<Rightarrow> Some m
      | c # cs \<Rightarrow>
          Option.bind (depthMax db tenantId (childIdsOf db tenantId c) 0) (\<lambda>d.
            depthMax db tenantId cs (if m < d + 1 then d + 1 else m)))"

definition getDescendantDepth :: "rec_db \<Rightarrow> string \<Rightarrow> string \<Rightarrow> nat option" where
  "getDescendantDepth db tenantId instanceId = depthMax db tenantId (childIdsOf db tenantId instanceId) 0"

text \<open>The breadth-first collection of ids along a relation to children; an empty id ends it.\<close>

partial_function (option) collectLoop :: "(string \<Rightarrow> string list) \<Rightarrow> string list \<Rightarrow> string list \<Rightarrow> string list option" where
  "collectLoop next queue result =
     (case queue of
        [] \<Rightarrow> Some result
      | c # q \<Rightarrow> if c = [] then Some result
                 else collectLoop next (q @ next c) (result @ next c))"

definition collectDescendantIds :: "rec_db \<Rightarrow> string \<Rightarrow> string \<Rightarrow> string list option" where
  "collectDescendantIds db tenantId instanceId = collectLoop (childIdsOf db tenantId) [instanceId] []"

definition countActiveChildren :: "rec_db \<Rightarrow> string \<Rightarrow> string \<Rightarrow> nat" where
  "countActiveChildren db tenantId parentId = length (childIdsOf db tenantId parentId)"

section \<open>Creating a child\<close>

definition loadWorkflowLimits :: "rec_db \<Rightarrow> string \<Rightarrow> string \<Rightarrow> rec_failure + (int \<times> int)" where
  "loadWorkflowLimits db tenantId workflowId =
     bindE (orThrow (select1 (isVisibleWorkflow tenantId workflowId) (rd_workflows db))
              (EntityError ENTITY_NOT_FOUND [(''workflowId'', JStr workflowId)])) (\<lambda>w.
       Inr (wf_maxChildDepth w, wf_maxChildrenPerParent w))"

record CreateChildRelationInput =
  cc_parentId :: string
  cc_childFields :: jsobj
  cc_entityTypeId :: string
  cc_assignedTo :: "string option"
  cc_createdBy :: "string option"
  cc_dueDate :: "string option"
  cc_remark :: "string option"
  cc_actorType :: "EntityAuditActorType option"
  cc_actingPersonId :: "string option"
  cc_maxAncestorDepth :: "int option"
  cc_originMechanism :: "string option"
  cc_originOidcClientId :: "string option"
  cc_originPerformerUserId :: "string option"
  cc_severity :: "TicketSeverity option"
  cc_teamId :: "string option"

definition notFound :: "string \<Rightarrow> rec_failure" where
  "notFound instanceId = EntityError ENTITY_NOT_FOUND [(''instanceId'', JStr instanceId)]"

definition lockedParent :: "rec_db \<Rightarrow> string \<Rightarrow> string \<Rightarrow> rec_failure + entity_row" where
  "lockedParent db tenantId instanceId =
     bindE (orThrow (select1 (isEntity tenantId instanceId) (rd_instances db)) (notFound instanceId)) (\<lambda>row.
     bindE (throwIf (ri_deletedAt row \<noteq> None) (notFound instanceId)) (\<lambda>_. Inr row))"

text \<open>The workflow of a parent that may have children, with its limits.\<close>

definition childLimits ::
  "rec_db \<Rightarrow> string \<Rightarrow> string \<Rightarrow> (string \<Rightarrow> jsobj) \<Rightarrow> entity_row \<Rightarrow> rec_failure + (string \<times> int \<times> int)" where
  "childLimits db tenantId reason extra parent =
     bindE (orThrow (truthyId (ei_workflowId parent))
              (EntityError CHILDREN_DISABLED [(''instanceId'', JStr (ei_id parent)), (''reason'', JStr reason)])) (\<lambda>w.
     bindE (loadWorkflowLimits db tenantId w) (\<lambda>(maxDepth, maxChildren).
     bindE (throwIf (maxDepth = 0)
              (EntityError CHILDREN_DISABLED ((''instanceId'', JStr (ei_id parent)) # extra w))) (\<lambda>_.
       Inr (w, maxDepth, maxChildren))))"

definition capCheck :: "rec_db \<Rightarrow> string \<Rightarrow> string \<Rightarrow> int \<Rightarrow> rec_failure + unit" where
  "capCheck db tenantId parentId maxChildren =
     throwIf (maxChildren \<le> int (countActiveChildren db tenantId parentId))
       (EntityError CHILDREN_CAP_EXCEEDED [(''instanceId'', JStr parentId), (''cap'', JNum (of_int maxChildren))])"

definition grant :: "string \<Rightarrow> string \<Rightarrow> jsval" where
  "grant level tag = JObj [(''level'', JStr level), (''tag'', JStr tag)]"

text \<open>A list on the parent is the older form, a list of user ids; an object maps user ids to grants.\<close>

definition inheritedAccessUsers :: "jsval \<Rightarrow> jsobj" where
  "inheritedAccessUsers raw =
     (case raw of
        JArr us \<Rightarrow> objSpread [] (concat (map (\<lambda>u. case u of JStr uid \<Rightarrow> [(uid, grant ''read_comment'' ''mention'')] | _ \<Rightarrow> []) us))
      | JObj o1 \<Rightarrow> o1
      | _ \<Rightarrow> [])"

definition childAccessUsers :: "entity_row \<Rightarrow> string option \<Rightarrow> jsobj" where
  "childAccessUsers parent assignedTo =
     objSpread (inheritedAccessUsers (objGet (ei_fields parent) ''__accessUsers''))
       (case truthyId assignedTo of None \<Rightarrow> [] | Some a \<Rightarrow> [(a, grant ''read_write'' ''assigned'')])"

definition childRow :: "rec_env \<Rightarrow> string \<Rightarrow> CreateChildRelationInput \<Rightarrow> entity_row \<Rightarrow> string \<Rightarrow> date option \<Rightarrow> entity_row" where
  "childRow env tenantId input parent workflowId due =
     \<lparr>ei_id = re_instanceId env 0, ei_entityTypeId = cc_entityTypeId input, ei_tenantId = tenantId,
      ei_workflowId = Some workflowId, ei_currentState = ''open'',
      ei_fields = objSpread (objSpread (cc_childFields input)
          (case truthyId (cc_teamId input) of None \<Rightarrow> [] | Some t \<Rightarrow> [(''team_id'', JStr t)]))
        [(''child_status'', JStr ''open''), (''__accessUsers'', JObj (childAccessUsers parent (cc_assignedTo input)))],
      ei_createdBy = cc_createdBy input, ei_assignedTo = cc_assignedTo input, ei_updatedAt = toDate (re_dbNow env),
      ri_dueDate = due, ri_remark = cc_remark input, ri_severity = Some (dflt DEFAULT_TICKET_SEVERITY (cc_severity input)),
      ri_createdAt = re_dbNow env, ri_deletedAt = None, ri_originMechanism = cc_originMechanism input,
      ri_originOidcClientId = cc_originOidcClientId input, ri_originPerformerUserId = cc_originPerformerUserId input\<rparr>"

definition actorTypeText :: "EntityAuditActorType \<Rightarrow> string" where
  "actorTypeText t = (case t of ActorUser \<Rightarrow> ''user'' | ActorApiKey \<Rightarrow> ''api_key'' | ActorSystem \<Rightarrow> ''system'')"

definition childEvent :: "rec_env \<Rightarrow> string \<Rightarrow> CreateChildRelationInput \<Rightarrow> entity_row \<Rightarrow> string \<Rightarrow> workflow_events_row" where
  "childEvent env tenantId input row workflowId =
     \<lparr>we_id = re_eventId env 0, we_instanceId = ei_id row, we_workflowId = workflowId, we_fromState = None,
      we_toState = ''open'',
      we_triggeredBy = (case cc_actorType input of Some ActorApiKey \<Rightarrow> TrigApi | Some ActorSystem \<Rightarrow> TrigSystem | _ \<Rightarrow> TrigUser),
      we_actorId = Some (dflt ''system'' (cc_createdBy input)), we_comment = None,
      we_metadata = [(''type'', JStr ''create''), (''actorName'', jsOpt (cc_createdBy input))] @
        (case cc_actorType input of None \<Rightarrow> [] | Some t \<Rightarrow> [(''actorType'', JStr (actorTypeText t))]) @
        (case truthyId (cc_actingPersonId input) of None \<Rightarrow> [] | Some p \<Rightarrow> [(''actingPersonId'', JStr p)]),
      we_createdAt = toDate (re_dbNow env), we_originMechanism = cc_originMechanism input,
      we_originOidcClientId = cc_originOidcClientId input, we_originPerformerUserId = cc_originPerformerUserId input,
      we_tenantId = tenantId, we_idempotencyKey = None\<rparr>"

definition relationRow :: "rec_env \<Rightarrow> nat \<Rightarrow> string \<Rightarrow> string \<Rightarrow> string \<Rightarrow> string \<Rightarrow> EntityRelation" where
  "relationRow env k tenantId from1 to1 ty =
     \<lparr>er_fromInstanceId = from1, er_toInstanceId = to1, er_tenantId = tenantId, er_relationType = ty,
      er_deletedAt = None, rl_id = re_relationId env k, rl_createdAt = re_dbNow env\<rparr>"

definition linkRows :: "rec_env \<Rightarrow> string \<Rightarrow> string \<Rightarrow> string \<Rightarrow> EntityRelation list" where
  "linkRows env tenantId parentId childId =
     [relationRow env 0 tenantId parentId childId RELATION_PARENT_OF,
      relationRow env 1 tenantId childId parentId RELATION_CHILD_OF]"

definition insertLink :: "rec_env \<Rightarrow> string \<Rightarrow> string \<Rightarrow> string \<Rightarrow> rec_db \<Rightarrow> rec_failure + (EntityRelation list \<times> rec_db)" where
  "insertLink env tenantId parentId childId db =
     (let rows = linkRows env tenantId parentId childId in
      bindE (insertKeyed rl_id (rows ! 0) (rd_relations db)) (\<lambda>t1.
      bindE (insertKeyed rl_id (rows ! 1) t1) (\<lambda>t2. Inr (rows, db\<lparr>rd_relations := t2\<rparr>))))"

definition childMandatory :: "CreateChildRelationInput \<Rightarrow> MandatoryValues" where
  "childMandatory input =
     \<lparr>mv_title = objGet (cc_childFields input) ''title'', mv_dueDate = jsOpt (cc_dueDate input),
      mv_remark = cc_remark input, mv_severity = Some (dflt DEFAULT_TICKET_SEVERITY (cc_severity input))\<rparr>"

definition childDepthCheck :: "rec_db \<Rightarrow> string \<Rightarrow> CreateChildRelationInput \<Rightarrow> int \<Rightarrow> rec_failure + unit" where
  "childDepthCheck db tenantId input maxDepth =
     (let ancestorDepth = int (getAncestorDepth db tenantId (cc_parentId input)) in
      bindE (case cc_maxAncestorDepth input of
               None \<Rightarrow> Inr ()
             | Some m \<Rightarrow> throwIf (m \<le> ancestorDepth)
                 (EntityError CHILD_DEPTH_EXCEEDED [(''instanceId'', JStr (cc_parentId input)),
                    (''currentAncestorDepth'', JNum (of_int ancestorDepth)), (''maxAncestorDepth'', JNum (of_int m)),
                    (''reason'', JStr ''caller_max_ancestor_depth'')])) (\<lambda>_.
        throwIf (maxDepth < ancestorDepth + 1)
          (EntityError CHILD_DEPTH_EXCEEDED [(''instanceId'', JStr (cc_parentId input)),
             (''currentDepth'', JNum (of_int (ancestorDepth + 1))), (''maxDepth'', JNum (of_int maxDepth))])))"

definition createChildRelation ::
  "rec_env \<Rightarrow> rec_db \<Rightarrow> string \<Rightarrow> CreateChildRelationInput \<Rightarrow>
     rec_failure + ((entity_row \<times> EntityRelation list) \<times> rec_db)" where
  "createChildRelation env db tenantId input =
     bindE (case truthyId (cc_teamId input) of None \<Rightarrow> Inr () | Some t \<Rightarrow> assertTeamInTenant db tenantId t) (\<lambda>_.
     bindE (checkMandatoryFields env (childMandatory input)) (\<lambda>_.
     bindE (lockedParent db tenantId (cc_parentId input)) (\<lambda>parent.
     bindE (validateReservedFieldNames (cc_childFields input)) (\<lambda>_.
     bindE (childLimits db tenantId ''parent has no workflow'' (\<lambda>w. [(''workflowId'', JStr w)]) parent) (\<lambda>(w, maxDepth, maxChildren).
     bindE (childDepthCheck db tenantId input maxDepth) (\<lambda>_.
     bindE (capCheck db tenantId (cc_parentId input) maxChildren) (\<lambda>_.
     bindE (toDueColumn env (cc_dueDate input)) (\<lambda>due.
     let row = childRow env tenantId input parent w due in
     bindE (insertKeyed ei_id row (rd_instances db)) (\<lambda>rows.
     let redacted = redactFields (ei_fields row) (fieldSensitivityMap (loadEntityFields db (cc_entityTypeId input) tenantId));
         db1 = db\<lparr>rd_instances := rows, rd_events := rd_events db @ [childEvent env tenantId input row w],
                  rd_outbox := rd_outbox db @ createOutbox env 0 tenantId (cc_createdBy input) None row redacted\<rparr> in
     bindE (insertLink env tenantId (cc_parentId input) (ei_id row) db1) (\<lambda>(links, db2).
       Inr ((row, links), db2)))))))))))"

section \<open>Moving a child\<close>

definition isLiveParentOf :: "string \<Rightarrow> string \<Rightarrow> EntityRelation \<Rightarrow> bool" where
  "isLiveParentOf tenantId childId r =
     (er_tenantId r = tenantId \<and> er_toInstanceId r = childId \<and> er_relationType r = RELATION_PARENT_OF \<and> er_deletedAt r = None)"

definition unlink :: "rec_env \<Rightarrow> string \<Rightarrow> string \<Rightarrow> rec_db \<Rightarrow> rec_db" where
  "unlink env tenantId childId db =
     (let deleted = (\<lambda>r. r\<lparr>er_deletedAt := Some (toDate (re_dbNow env))\<rparr>);
          t1 = updateW (isLiveRel tenantId RELATION_CHILD_OF childId) deleted (rd_relations db) in
      db\<lparr>rd_relations := (case select1 (isLiveParentOf tenantId childId) t1 of
                            None \<Rightarrow> t1
                          | Some oldParentOf \<Rightarrow> updateW (\<lambda>r. rl_id r = rl_id oldParentOf) deleted t1)\<rparr>)"

definition detach :: "rec_env \<Rightarrow> string \<Rightarrow> string \<Rightarrow> rec_db \<Rightarrow> rec_db" where
  "detach env tenantId childId db =
     db\<lparr>rd_instances := updateW (isEntity tenantId childId)
          (\<lambda>r. r\<lparr>ei_fields := objRemove ''child_status'' (ei_fields r), ei_currentState := ''initial'',
                 ei_updatedAt := toDate (re_dbNow env)\<rparr>) (rd_instances db)\<rparr>"

text \<open>
  The checks on the new parent, run after the old link is gone. \<open>None\<close> is a walk that does not
  return.
\<close>

definition moveChecks :: "rec_db \<Rightarrow> string \<Rightarrow> string \<Rightarrow> string \<Rightarrow> (rec_failure + unit) option" where
  "moveChecks db tenantId childId newParentId =
     (case bindE (lockedParent db tenantId newParentId) (childLimits db tenantId ''new parent has no workflow'' (\<lambda>_. [])) of
        Inl e \<Rightarrow> Some (Inl e)
      | Inr (w, maxDepth, maxChildren) \<Rightarrow>
          Option.bind (collectDescendantIds db tenantId childId) (\<lambda>descendants.
            if newParentId = childId \<or> newParentId \<in> set descendants
            then Some (Inl (EntityError CHILD_CYCLE_DETECTED [(''childId'', JStr childId), (''newParentId'', JStr newParentId)]))
            else Option.bind (getDescendantDepth db tenantId childId) (\<lambda>descendantDepth.
              let newChainDepth = int (getAncestorDepth db tenantId newParentId) + 1 + int descendantDepth in
              Some (bindE (throwIf (maxDepth < newChainDepth)
                             (EntityError CHILD_DEPTH_EXCEEDED [(''childId'', JStr childId), (''newParentId'', JStr newParentId),
                                (''currentDepth'', JNum (of_int newChainDepth)), (''maxDepth'', JNum (of_int maxDepth))])) (\<lambda>_.
                      capCheck db tenantId newParentId maxChildren)))))"

definition moveChildRelation ::
  "rec_env \<Rightarrow> rec_db \<Rightarrow> string \<Rightarrow> string \<Rightarrow> string option \<Rightarrow> (rec_failure + (EntityRelation list \<times> rec_db)) option" where
  "moveChildRelation env db tenantId childId newParentId =
     (case lockedParent db tenantId childId of
        Inl e \<Rightarrow> Some (Inl e)
      | Inr child \<Rightarrow>
          (let db1 = unlink env tenantId childId db in
           case truthyId newParentId of
             None \<Rightarrow> Some (Inr ([], detach env tenantId childId db1))
           | Some p \<Rightarrow>
               Option.bind (moveChecks db1 tenantId childId p) (\<lambda>checked.
                 Some (bindE checked (\<lambda>_. insertLink env tenantId p childId db1)))))"

section \<open>Reading through the tree\<close>

fun ancestorAssigned :: "rec_db \<Rightarrow> string \<Rightarrow> string \<Rightarrow> nat \<Rightarrow> string \<Rightarrow> bool" where
  "ancestorAssigned db tenantId userId 0 current = False"
| "ancestorAssigned db tenantId userId (Suc n) current =
     (case getParentId db tenantId current of
        None \<Rightarrow> False
      | Some p \<Rightarrow>
          (case select1 (isLiveEntity tenantId p) (rd_instances db) of
             Some a \<Rightarrow> ei_assignedTo a = Some userId | None \<Rightarrow> False) \<or>
          ancestorAssigned db tenantId userId n p)"

definition canUserReadInstance :: "rec_db \<Rightarrow> string \<Rightarrow> string \<Rightarrow> string \<Rightarrow> string \<Rightarrow> bool" where
  "canUserReadInstance db tenantId userId userRole instanceId =
     (if userRole = ''admin'' \<or> userRole = ''agent'' then True
      else (case select1 (isLiveEntity tenantId instanceId) (rd_instances db) of
              None \<Rightarrow> False
            | Some inst \<Rightarrow> ei_assignedTo inst = Some userId \<or> ancestorAssigned db tenantId userId HARD_MAX instanceId))"

section \<open>Archiving and restoring\<close>

datatype ArchiveResult = RequiresConfirm nat | Archived nat

definition isPendingDueOf :: "string \<Rightarrow> string list \<Rightarrow> outbox_events_row \<Rightarrow> bool" where
  "isPendingDueOf tenantId ids r =
     (ob_deliveredAt r = None \<and> ob_eventType r = dueScheduled \<and> ob_tenantId r = tenantId \<and>
      (case pgText (ob_payload r) ''instanceId'' of None \<Rightarrow> False | Some i \<Rightarrow> i \<in> set ids))"

definition archiveAll :: "rec_env \<Rightarrow> string \<Rightarrow> string \<Rightarrow> string list \<Rightarrow> rec_db \<Rightarrow> rec_db" where
  "archiveAll env tenantId instanceId allIds db =
     (let ts = re_updatedAt env; deleted = (\<lambda>r. r\<lparr>er_deletedAt := Some ts\<rparr>) in
      db\<lparr>rd_instances := updateW (\<lambda>r. ei_tenantId r = tenantId \<and> ei_id r \<in> set allIds \<and> ri_deletedAt r = None)
            (\<lambda>r. r\<lparr>ri_deletedAt := Some ts\<rparr>) (rd_instances db),
         rd_relations := updateW (isLiveParentOf tenantId instanceId) deleted
            (updateW (\<lambda>r. er_tenantId r = tenantId \<and> er_fromInstanceId r \<in> set allIds \<and> er_deletedAt r = None) deleted
              (rd_relations db)),
         rd_outbox := updateW (isPendingDueOf tenantId allIds) (\<lambda>r. r\<lparr>ob_deliveredAt := Some (toDate (re_dbNow env))\<rparr>) (rd_outbox db)\<rparr>)"

definition archiveEntity ::
  "rec_env \<Rightarrow> rec_db \<Rightarrow> string \<Rightarrow> string \<Rightarrow> bool \<Rightarrow> (rec_failure + (ArchiveResult \<times> rec_db)) option" where
  "archiveEntity env db tenantId instanceId confirm =
     (case lockedParent db tenantId instanceId of
        Inl e \<Rightarrow> Some (Inl e)
      | Inr row \<Rightarrow>
          Option.bind (collectDescendantIds db tenantId instanceId) (\<lambda>descendantIds.
            if descendantIds \<noteq> [] \<and> \<not> confirm then Some (Inr (RequiresConfirm (length descendantIds), db))
            else (let allIds = instanceId # descendantIds in
                  Some (Inr (Archived (length allIds), archiveAll env tenantId instanceId allIds db)))))"

definition batchChildIds :: "rec_db \<Rightarrow> string \<Rightarrow> date \<Rightarrow> string \<Rightarrow> string list" where
  "batchChildIds db tenantId ts current =
     filter (\<lambda>c. case select1 (isEntity tenantId c) (rd_instances db) of
                   None \<Rightarrow> False | Some r \<Rightarrow> ri_deletedAt r = Some ts)
       (map er_toInstanceId (selectW (\<lambda>r. er_tenantId r = tenantId \<and> er_fromInstanceId r = current \<and>
          er_relationType r = RELATION_PARENT_OF \<and> er_deletedAt r = Some ts) (rd_relations db)))"

definition restoreAll :: "string \<Rightarrow> string \<Rightarrow> date \<Rightarrow> string list \<Rightarrow> rec_db \<Rightarrow> rec_db" where
  "restoreAll tenantId instanceId ts allIds db =
     (let live = (\<lambda>r. r\<lparr>er_deletedAt := None\<rparr>) in
      db\<lparr>rd_instances := updateW (\<lambda>r. ei_tenantId r = tenantId \<and> ei_id r \<in> set allIds \<and> ri_deletedAt r = Some ts)
            (\<lambda>r. r\<lparr>ri_deletedAt := None\<rparr>) (rd_instances db),
         rd_relations := updateW (\<lambda>r. er_tenantId r = tenantId \<and> er_toInstanceId r = instanceId \<and>
              er_relationType r = RELATION_PARENT_OF \<and> er_deletedAt r = Some ts) live
            (updateW (\<lambda>r. er_tenantId r = tenantId \<and> er_fromInstanceId r \<in> set allIds \<and> er_deletedAt r = Some ts) live
              (rd_relations db))\<rparr>)"

definition restoreEntity :: "rec_db \<Rightarrow> string \<Rightarrow> string \<Rightarrow> (rec_failure + (nat \<times> rec_db)) option" where
  "restoreEntity db tenantId instanceId =
     (case select1 (isEntity tenantId instanceId) (rd_instances db) of
        None \<Rightarrow> Some (Inl (notFound instanceId))
      | Some row \<Rightarrow>
          (case ri_deletedAt row of
             None \<Rightarrow> Some (Inl (EntityError ENTITY_NOT_FOUND [(''instanceId'', JStr instanceId), (''reason'', JStr ''not archived'')]))
           | Some ts \<Rightarrow>
               Option.bind (collectLoop (batchChildIds db tenantId ts) [instanceId] []) (\<lambda>batch.
                 let allIds = instanceId # batch in
                 Some (Inr (length allIds, restoreAll tenantId instanceId ts allIds db)))))"

end
