(* ===== verification/RecRelations.thy ===== *)
theory RecRelations
  imports RecTree
begin

text \<open>
  Free relations and reference links between records
  (\<open>packages/entity-engine/src/entity-relations.ts\<close>), with the history lines on both records.
\<close>

section \<open>History\<close>

definition historyContext :: "rec_db \<Rightarrow> string \<Rightarrow> string \<Rightarrow> (string \<times> string) option" where
  "historyContext db tenantId instanceId =
     Option.bind (select1 (isEntity tenantId instanceId) (rd_instances db)) (\<lambda>row.
       map_option (\<lambda>w. (w, ei_currentState row)) (effectiveWorkflowId db tenantId instanceId row))"

definition writeLinkHistoryEvent ::
  "rec_env \<Rightarrow> nat \<Rightarrow> string \<Rightarrow> string \<Rightarrow> string \<Rightarrow> string \<Rightarrow> string option \<Rightarrow> string \<Rightarrow> rec_db \<Rightarrow> rec_db" where
  "writeLinkHistoryEvent env k tenantId instanceId counterpartId relationType actorId ty db =
     (case historyContext db tenantId instanceId of
        None \<Rightarrow> db
      | Some (w, state) \<Rightarrow> db\<lparr>rd_events := rd_events db @
          [\<lparr>we_id = re_eventId env k, we_instanceId = instanceId, we_workflowId = w, we_fromState = Some state,
            we_toState = state, we_triggeredBy = TrigUser, we_actorId = actorId, we_comment = None,
            we_metadata = [(''type'', JStr ty), (''counterpartId'', JStr counterpartId), (''relationType'', JStr relationType)],
            we_createdAt = toDate (re_dbNow env), we_originMechanism = None, we_originOidcClientId = None,
            we_originPerformerUserId = None, we_tenantId = tenantId, we_idempotencyKey = None\<rparr>]\<rparr>)"

definition linkHistory ::
  "rec_env \<Rightarrow> string \<Rightarrow> string \<Rightarrow> string \<Rightarrow> string \<Rightarrow> string option \<Rightarrow> string \<Rightarrow> rec_db \<Rightarrow> rec_db" where
  "linkHistory env tenantId from1 to1 relationType actorId ty db =
     writeLinkHistoryEvent env 1 tenantId to1 from1 relationType actorId ty
       (writeLinkHistoryEvent env 0 tenantId from1 to1 relationType actorId ty db)"

section \<open>Relations\<close>

definition relationEnd :: "rec_db \<Rightarrow> string \<Rightarrow> string \<Rightarrow> rec_failure + unit" where
  "relationEnd db tenantId instanceId =
     throwIf (select1 (isLiveEntity tenantId instanceId) (rd_instances db) = None)
       (EntityError RELATION_TARGET_NOT_FOUND [(''instanceId'', JStr instanceId)])"

record CreateRelationInput =
  cr_fromInstanceId :: string
  cr_toInstanceId :: string
  cr_relationType :: string
  cr_actorId :: "string option"

definition createRelation ::
  "rec_env \<Rightarrow> rec_db \<Rightarrow> string \<Rightarrow> CreateRelationInput \<Rightarrow> rec_failure + (EntityRelation \<times> rec_db)" where
  "createRelation env db tenantId input =
     bindE (relationEnd db tenantId (cr_fromInstanceId input)) (\<lambda>_.
     bindE (relationEnd db tenantId (cr_toInstanceId input)) (\<lambda>_.
     let row = relationRow env 0 tenantId (cr_fromInstanceId input) (cr_toInstanceId input) (cr_relationType input) in
     bindE (insertKeyed rl_id row (rd_relations db)) (\<lambda>t.
       Inr (row, linkHistory env tenantId (cr_fromInstanceId input) (cr_toInstanceId input) (cr_relationType input)
                   (cr_actorId input) ''link_created'' (db\<lparr>rd_relations := t\<rparr>)))))"

definition RELATION_REFERENCES :: string where
  "RELATION_REFERENCES = ''references''"

definition RELATION_REFERENCED_BY :: string where
  "RELATION_REFERENCED_BY = ''referenced_by''"

definition createReferenceLink ::
  "rec_env \<Rightarrow> rec_db \<Rightarrow> string \<Rightarrow> string \<Rightarrow> string \<Rightarrow> string option \<Rightarrow> rec_failure + (EntityRelation list \<times> rec_db)" where
  "createReferenceLink env db tenantId from1 to1 actorId =
     bindE (throwIf (from1 = to1) (EntityError RELATION_SELF_LINK [(''instanceId'', JStr from1)])) (\<lambda>_.
     bindE (relationEnd db tenantId from1) (\<lambda>_.
     bindE (relationEnd db tenantId to1) (\<lambda>_.
     bindE (throwIf (select1 (\<lambda>r. isLiveRel tenantId RELATION_REFERENCES from1 r \<and> er_toInstanceId r = to1) (rd_relations db) \<noteq> None)
              (EntityError RELATION_ALREADY_EXISTS [(''fromInstanceId'', JStr from1), (''toInstanceId'', JStr to1)])) (\<lambda>_.
     let a = relationRow env 0 tenantId from1 to1 RELATION_REFERENCES;
         b = relationRow env 1 tenantId to1 from1 RELATION_REFERENCED_BY in
     bindE (insertKeyed rl_id a (rd_relations db)) (\<lambda>t1.
     bindE (insertKeyed rl_id b t1) (\<lambda>t2.
       Inr ([a, b], linkHistory env tenantId from1 to1 RELATION_REFERENCES actorId ''reference_created'' (db\<lparr>rd_relations := t2\<rparr>))))))))"

definition getReferenceRelation :: "rec_db \<Rightarrow> string \<Rightarrow> string \<Rightarrow> EntityRelation option" where
  "getReferenceRelation db tenantId relationId =
     select1 (\<lambda>r. rl_id r = relationId \<and> er_tenantId r = tenantId \<and>
        (er_relationType r = RELATION_REFERENCES \<or> er_relationType r = RELATION_REFERENCED_BY) \<and> er_deletedAt r = None)
       (rd_relations db)"

definition mirrorType :: "string \<Rightarrow> string" where
  "mirrorType ty = (if ty = RELATION_REFERENCES then RELATION_REFERENCED_BY else RELATION_REFERENCES)"

definition deleteReferenceLink ::
  "rec_env \<Rightarrow> rec_db \<Rightarrow> string \<Rightarrow> string \<Rightarrow> string option \<Rightarrow> rec_failure + (unit \<times> rec_db)" where
  "deleteReferenceLink env db tenantId relationId actorId =
     bindE (orThrow (getReferenceRelation db tenantId relationId)
              (EntityError RELATION_NOT_FOUND [(''relationId'', JStr relationId)])) (\<lambda>rel.
     let t = updateW (\<lambda>r. rl_id r = rl_id rel \<or>
               (isLiveRel tenantId (mirrorType (er_relationType rel)) (er_toInstanceId rel) r \<and>
                er_toInstanceId r = er_fromInstanceId rel))
               (\<lambda>r. r\<lparr>er_deletedAt := Some (toDate (re_dbNow env))\<rparr>) (rd_relations db) in
     Inr ((), linkHistory env tenantId (er_fromInstanceId rel) (er_toInstanceId rel) (er_relationType rel) actorId
                ''reference_removed'' (db\<lparr>rd_relations := t\<rparr>)))"

definition deleteRelation ::
  "rec_env \<Rightarrow> rec_db \<Rightarrow> string \<Rightarrow> string \<Rightarrow> string option \<Rightarrow> rec_failure + (unit \<times> rec_db)" where
  "deleteRelation env db tenantId relationId actorId =
     bindE (orThrow (select1 (\<lambda>r. rl_id r = relationId \<and> er_tenantId r = tenantId) (rd_relations db))
              (EntityError RELATION_NOT_FOUND [(''relationId'', JStr relationId)])) (\<lambda>existing.
     Inr ((), linkHistory env tenantId (er_fromInstanceId existing) (er_toInstanceId existing) (er_relationType existing)
                actorId ''link_removed''
                (db\<lparr>rd_relations := updateW (\<lambda>r. rl_id r = relationId)
                       (\<lambda>r. r\<lparr>er_deletedAt := Some (toDate (re_dbNow env))\<rparr>) (rd_relations db)\<rparr>)))"

end
