(* ===== verification/RecRead.thy ===== *)
theory RecRead
  imports RecRelations
begin

text \<open>
  Reading records: lookup fields (\<open>lookup-resolver.ts\<close>), \<open>getEntity\<close> and \<open>listEntities\<close> of
  \<open>engine.ts\<close>, the pages of children (\<open>child-relations.ts\<close>) and of relations
  (\<open>entity-relations.ts\<close>). A cursor is the pair of a date and an id that the opaque string of
  \<open>pagination.ts\<close> carries.
\<close>

section \<open>Lookup fields\<close>

record ParsedLookup =
  pl_fieldName :: string
  pl_relationType :: string
  pl_targetField :: string

definition parseLookupFields :: "EntityField list \<Rightarrow> ParsedLookup list" where
  "parseLookupFields flds =
     concat (map (\<lambda>f. if fd_fieldType f \<noteq> FtLookup then []
       else (case (stringIn (fd_config f) ''relationType'', stringIn (fd_config f) ''targetField'') of
               (Some r, Some t) \<Rightarrow> [\<lparr>pl_fieldName = ef_name f, pl_relationType = r, pl_targetField = t\<rparr>]
             | _ \<Rightarrow> [])) flds)"

definition relationTypes :: "ParsedLookup list \<Rightarrow> string list" where
  "relationTypes lookups = rev (remdups (rev (map pl_relationType lookups)))"

definition orNull :: "jsval \<Rightarrow> jsval" where
  "orNull v = (if v = JUndefined then JNull else v)"

definition fillFrom :: "jsobj \<Rightarrow> ParsedLookup list \<Rightarrow> jsobj \<Rightarrow> jsobj" where
  "fillFrom target lookups values =
     fold (\<lambda>l. objPut (pl_fieldName l) (orNull (objGet target (pl_targetField l)))) lookups values"

definition lookupStep :: "rec_db \<Rightarrow> string \<Rightarrow> string \<Rightarrow> ParsedLookup list \<Rightarrow> string \<Rightarrow> jsobj \<Rightarrow> jsobj" where
  "lookupStep db tenantId instanceId lookups relationType result =
     (case select1 (\<lambda>r. er_fromInstanceId r = instanceId \<and> er_tenantId r = tenantId \<and> er_relationType r = relationType)
             (rd_relations db) of
        None \<Rightarrow> result
      | Some rel \<Rightarrow>
          (case select1 (isLiveEntity tenantId (er_toInstanceId rel)) (rd_instances db) of
             None \<Rightarrow> result
           | Some target \<Rightarrow> fillFrom (ei_fields target) (filter (\<lambda>l. pl_relationType l = relationType) lookups) result))"

definition resolveLookupFields :: "rec_db \<Rightarrow> string \<Rightarrow> string \<Rightarrow> EntityField list \<Rightarrow> jsobj \<Rightarrow> jsobj" where
  "resolveLookupFields db tenantId instanceId flds values =
     (let lookups = parseLookupFields flds in
      if lookups = [] then values else fold (lookupStep db tenantId instanceId lookups) (relationTypes lookups) values)"

definition keepFirst :: "EntityRelation list \<Rightarrow> (string \<times> string) list" where
  "keepFirst rels =
     fold (\<lambda>r m. if map_of m (er_fromInstanceId r) = None then m @ [(er_fromInstanceId r, er_toInstanceId r)] else m) rels []"

definition batchStep ::
  "rec_db \<Rightarrow> string \<Rightarrow> string list \<Rightarrow> ParsedLookup list \<Rightarrow> string \<Rightarrow> (string \<times> jsobj) list \<Rightarrow> (string \<times> jsobj) list" where
  "batchStep db tenantId instanceIds lookups relationType resultMap =
     (let rels = selectW (\<lambda>r. er_fromInstanceId r \<in> set instanceIds \<and> er_tenantId r = tenantId \<and>
                    er_relationType r = relationType) (rd_relations db);
          fromTo = keepFirst rels;
          targets = selectW (\<lambda>r. ei_id r \<in> set (map snd fromTo) \<and> ei_tenantId r = tenantId \<and> ri_deletedAt r = None) (rd_instances db);
          fieldsById = map_of (rev (map (\<lambda>t. (ei_id t, ei_fields t)) targets)) in
      fold (\<lambda>(from1, to1) m.
        case fieldsById to1 of
          None \<Rightarrow> m
        | Some target \<Rightarrow> AList.map_entry from1 (fillFrom target (filter (\<lambda>l. pl_relationType l = relationType) lookups)) m)
        fromTo resultMap)"

definition resolveLookupFieldsBatch ::
  "rec_db \<Rightarrow> string \<Rightarrow> (string \<times> jsobj) list \<Rightarrow> EntityField list \<Rightarrow> (string \<times> jsobj) list" where
  "resolveLookupFieldsBatch db tenantId instances flds =
     (let resultMap = fold (\<lambda>(i, v) m. AList.update i v m) instances [];
          lookups = parseLookupFields flds in
      if lookups = [] \<or> instances = [] then resultMap
      else fold (batchStep db tenantId (map fst instances) lookups) (relationTypes lookups) resultMap)"

section \<open>One record\<close>

definition getEntity :: "rec_env \<Rightarrow> rec_db \<Rightarrow> string \<Rightarrow> string \<Rightarrow> rec_failure + entity_row" where
  "getEntity env db tenantId instanceId =
     bindE (liveEntity db tenantId instanceId) (\<lambda>row.
     let allFields = loadEntityFields db (ei_entityTypeId row) tenantId;
         withLookups = resolveLookupFields db tenantId (ei_id row) allFields (ei_fields row) in
     Inr (row\<lparr>ei_fields := applyFormulaFields env allFields withLookups\<rparr>))"

section \<open>Filters of the list\<close>

text \<open>Containment of \<open>jsonb\<close> values; the first argument is the contained one.\<close>

primrec contained :: "jsval \<Rightarrow> jsval \<Rightarrow> bool" where
  "contained JUndefined = (\<lambda>c. True)"
| "contained JNull = (\<lambda>c. c = JNull)"
| "contained (JBool b) = (\<lambda>c. c = JBool b)"
| "contained (JNum r) = (\<lambda>c. c = JNum r)"
| "contained (JStr s) = (\<lambda>c. c = JStr s)"
| "contained (JArr xs) = (\<lambda>c. case c of JArr ys \<Rightarrow> list_all (\<lambda>p. list_ex p ys) (map contained xs) | _ \<Rightarrow> False)"
| "contained (JObj o1) = (\<lambda>c. case c of
     JObj o2 \<Rightarrow> list_all (\<lambda>(k, p). case map_of o2 k of None \<Rightarrow> False | Some w \<Rightarrow> p w) (map (map_prod id contained) o1)
   | _ \<Rightarrow> False)"
| "contained (JFun k) = (\<lambda>c. True)"

text \<open>The operator \<open>?\<close>: a key of an object or a string in an array.\<close>

definition jsonbHas :: "jsval \<Rightarrow> string \<Rightarrow> bool" where
  "jsonbHas v k =
     (case v of JObj o1 \<Rightarrow> hasOwn o1 k | JArr xs \<Rightarrow> JStr k \<in> set xs | JStr s \<Rightarrow> s = k | _ \<Rightarrow> False)"

text \<open>\<open>LIKE\<close> with the backslash as its escape character; \<open>ILIKE\<close> compares in lower case.\<close>

fun likeMatch :: "string \<Rightarrow> string \<Rightarrow> bool" where
  "likeMatch [] t = (t = [])"
| "likeMatch (c # p) t =
     (if c = CHR ''%'' then likeMatch p t \<or> (case t of [] \<Rightarrow> False | _ # t' \<Rightarrow> likeMatch (c # p) t')
      else if c = CHR ''_'' then (case t of [] \<Rightarrow> False | _ # t' \<Rightarrow> likeMatch p t')
      else if c = CHR 0x5C
      then (case p of [] \<Rightarrow> False
            | d # p' \<Rightarrow> (case t of [] \<Rightarrow> False | e # t' \<Rightarrow> d = e \<and> likeMatch p' t'))
      else (case t of [] \<Rightarrow> False | e # t' \<Rightarrow> c = e \<and> likeMatch p t'))"

definition ilike :: "string \<Rightarrow> string \<Rightarrow> bool" where
  "ilike text pattern = likeMatch (toLowerCase pattern) (toLowerCase text)"

datatype origin_filter = OriginInternal | OriginExternal | OriginRedirected

record ListEntitiesInput =
  li_entityTypeId :: string
  li_state :: "string option"
  li_assignedTo :: "string option"
  li_unassigned :: bool
  li_scopeToUserId :: "string option"
  li_fieldFilters :: jsobj
  li_severity :: "TicketSeverity list"
  li_tag :: "string option"
  li_origin :: "origin_filter option"
  li_limit :: "nat option"
  li_cursor :: "(date \<times> string) option"
  li_includeDeleted :: bool
  li_rootOnly :: bool

definition originMatches :: "origin_filter option \<Rightarrow> string option \<Rightarrow> bool" where
  "originMatches f m =
     (case f of None \<Rightarrow> True | Some OriginInternal \<Rightarrow> m = None
      | Some OriginExternal \<Rightarrow> m = Some ''api'' | Some OriginRedirected \<Rightarrow> m = Some ''handoff'')"

definition hasTagLike :: "rec_db \<Rightarrow> string \<Rightarrow> string \<Rightarrow> string \<Rightarrow> bool" where
  "hasTagLike db tenantId instanceId tag =
     list_ex (\<lambda>t. tg_entityInstanceId t = instanceId \<and> tg_tenantId t = tenantId \<and>
        ilike (tg_tagText t) (''%'' @ escapeLikePattern tag @ ''%'')) (rd_tags db)"

definition inScopeOf :: "string \<Rightarrow> entity_row \<Rightarrow> bool" where
  "inScopeOf userId r =
     (ei_createdBy r = Some userId \<or> ei_assignedTo r = Some userId \<or>
      jsonbHas (objGet (ei_fields r) ''__accessUsers'') userId)"

definition listMatches :: "rec_db \<Rightarrow> string \<Rightarrow> ListEntitiesInput \<Rightarrow> entity_row \<Rightarrow> bool" where
  "listMatches db tenantId input r =
     (ei_tenantId r = tenantId \<and> ei_entityTypeId r = li_entityTypeId input \<and>
      (li_includeDeleted input \<or> ri_deletedAt r = None) \<and>
      (case li_state input of None \<Rightarrow> True | Some s \<Rightarrow> ei_currentState r = s) \<and>
      (case li_assignedTo input of None \<Rightarrow> True | Some a \<Rightarrow> ei_assignedTo r = Some a) \<and>
      (li_unassigned input \<longrightarrow> ei_assignedTo r = None) \<and>
      (li_severity input = [] \<or> (case ri_severity r of None \<Rightarrow> False | Some s \<Rightarrow> s \<in> set (li_severity input))) \<and>
      originMatches (li_origin input) (ri_originMechanism r) \<and>
      (case li_tag input of None \<Rightarrow> True | Some t \<Rightarrow> hasTagLike db tenantId (ei_id r) t) \<and>
      (case li_scopeToUserId input of None \<Rightarrow> True | Some u \<Rightarrow> inScopeOf u r) \<and>
      (li_fieldFilters input = [] \<or> contained (JObj (li_fieldFilters input)) (JObj (ei_fields r))) \<and>
      (li_rootOnly input \<longrightarrow> select1 (isLiveRel tenantId RELATION_CHILD_OF (ei_id r)) (rd_relations db) = None))"

section \<open>Pages\<close>

definition DEFAULT_PAGE_SIZE :: nat where
  "DEFAULT_PAGE_SIZE = 50"

definition MAX_PAGE_SIZE :: nat where
  "MAX_PAGE_SIZE = 100"

definition pageLimit :: "nat option \<Rightarrow> nat" where
  "pageLimit limit = min (dflt DEFAULT_PAGE_SIZE limit) MAX_PAGE_SIZE"

text \<open>One row more than the page is fetched, to see whether another page follows.\<close>

definition cutPage :: "nat \<Rightarrow> ('r \<Rightarrow> 'c) \<Rightarrow> 'r list \<Rightarrow> 'r list \<times> 'c option" where
  "cutPage limit cursorOf rows =
     (let fetched = take (limit + 1) rows; hasMore = limit < length fetched;
          data = (if hasMore then take limit fetched else fetched) in
      (data, if hasMore \<and> data \<noteq> [] then Some (cursorOf (last data)) else None))"

definition createdMs :: "entity_row \<Rightarrow> date" where
  "createdMs r = toDate (ri_createdAt r)"

definition afterCursor :: "(date \<times> string) option \<Rightarrow> entity_row \<Rightarrow> bool" where
  "afterCursor cursor r =
     (case cursor of None \<Rightarrow> True | Some (d, i) \<Rightarrow> d < createdMs r \<or> (createdMs r = d \<and> i < ei_id r))"

definition listRowsOf :: "rec_db \<Rightarrow> string \<Rightarrow> ListEntitiesInput \<Rightarrow> entity_row list \<times> (date \<times> string) option" where
  "listRowsOf db tenantId input =
     cutPage (pageLimit (li_limit input)) (\<lambda>r. (createdMs r, ei_id r))
       (sort_key createdMs (sort_key ei_id
          (selectW (\<lambda>r. listMatches db tenantId input r \<and> afterCursor (li_cursor input) r) (rd_instances db))))"

definition listEntities :: "rec_env \<Rightarrow> rec_db \<Rightarrow> string \<Rightarrow> ListEntitiesInput \<Rightarrow> entity_row list \<times> (date \<times> string) option" where
  "listEntities env db tenantId input =
     (let (data, nextCursor) = listRowsOf db tenantId input;
          allFields = loadEntityFields db (li_entityTypeId input) tenantId;
          resolved = resolveLookupFieldsBatch db tenantId (map (\<lambda>r. (ei_id r, ei_fields r)) data) allFields in
      (map (\<lambda>r. r\<lparr>ei_fields := applyFormulaFields env allFields (dflt (ei_fields r) (map_of resolved (ei_id r)))\<rparr>) data,
       nextCursor))"

text \<open>Relations are compared to the microsecond with a cursor that has milliseconds.\<close>

definition relAfter :: "(date \<times> string) option \<Rightarrow> EntityRelation \<Rightarrow> bool" where
  "relAfter cursor r =
     (case cursor of None \<Rightarrow> True
      | Some (d, i) \<Rightarrow> d * 1000 < rl_createdAt r \<or> (rl_createdAt r = d * 1000 \<and> i < rl_id r))"

definition relPage :: "nat \<Rightarrow> EntityRelation list \<Rightarrow> EntityRelation list \<times> (date \<times> string) option" where
  "relPage limit rels =
     cutPage limit (\<lambda>r. (toDate (rl_createdAt r), rl_id r)) (sort_key rl_createdAt (sort_key rl_id rels))"

definition listChildInstances ::
  "rec_db \<Rightarrow> string \<Rightarrow> string \<Rightarrow> (date \<times> string) option \<Rightarrow> nat option \<Rightarrow> entity_row list \<times> (date \<times> string) option" where
  "listChildInstances db tenantId parentId cursor limit =
     (let (pageRows, nextCursor) = relPage (pageLimit limit)
            (selectW (\<lambda>r. isLiveRel tenantId RELATION_PARENT_OF parentId r \<and> relAfter cursor r) (rd_relations db));
          childIds = map er_toInstanceId pageRows;
          instances = selectW (\<lambda>r. ei_tenantId r = tenantId \<and> ei_id r \<in> set childIds \<and> ri_deletedAt r = None) (rd_instances db) in
      if childIds = [] then ([], None)
      else (concat (map (\<lambda>i. case map_of (rev (map (\<lambda>r. (ei_id r, r)) instances)) i of None \<Rightarrow> [] | Some r \<Rightarrow> [r]) childIds),
            nextCursor))"

datatype direction = DirFrom | DirTo | DirBoth

record ListRelationsInput =
  lr_direction :: "direction option"
  lr_relationType :: "string option"
  lr_cursor :: "(date \<times> string) option"
  lr_limit :: "nat option"

definition relMatches :: "string \<Rightarrow> string \<Rightarrow> ListRelationsInput \<Rightarrow> EntityRelation \<Rightarrow> bool" where
  "relMatches tenantId instanceId input r =
     (er_tenantId r = tenantId \<and> er_deletedAt r = None \<and>
      (case dflt DirBoth (lr_direction input) of
         DirFrom \<Rightarrow> er_fromInstanceId r = instanceId
       | DirTo \<Rightarrow> er_toInstanceId r = instanceId
       | DirBoth \<Rightarrow> er_fromInstanceId r = instanceId \<or> er_toInstanceId r = instanceId) \<and>
      (case truthyId (lr_relationType input) of None \<Rightarrow> True | Some t \<Rightarrow> er_relationType r = t))"

definition listRelations ::
  "rec_db \<Rightarrow> string \<Rightarrow> string \<Rightarrow> ListRelationsInput \<Rightarrow> EntityRelation list \<times> (date \<times> string) option" where
  "listRelations db tenantId instanceId input =
     relPage (pageLimit (lr_limit input))
       (selectW (\<lambda>r. relMatches tenantId instanceId input r \<and> relAfter (lr_cursor input) r) (rd_relations db))"

end
