(* ===== verification/RecTypes.thy ===== *)
theory RecTypes
  imports RecRead
begin

text \<open>
  Maintenance of entity types and their fields: \<open>packages/entity-engine/src/entity-types.ts\<close>,
  \<open>entity-fields.ts\<close> and \<open>addEntityField\<close> of \<open>engine.ts\<close>, with the constraints of
  \<open>packages/db/migrations/0000_initial_schema.sql\<close> that a statement can violate: a field name is
  unique within its type, and a type that a field, a record or a workflow refers to cannot be deleted.
  The write policies of migrations 0001 and 0037 let a tenant write its own rows only: a statement does
  not see the shared ones.
  The invalidation of the schema cache is not part of the database; what a later read of the cache
  gives is a parameter of that read.
\<close>

section \<open>Fields\<close>

text \<open>A field to add, without the columns the engine fills in.\<close>

record NewField =
  nf_name :: string
  nf_label :: string
  nf_fieldType :: FieldType
  nf_config :: jsobj
  nf_isRequired :: bool
  nf_isIndexed :: bool
  nf_isSystem :: bool
  nf_sortOrder :: int
  nf_sensitivity :: FieldSensitivity

definition newFieldRow :: "rec_env \<Rightarrow> nat \<Rightarrow> string \<Rightarrow> string \<Rightarrow> NewField \<Rightarrow> EntityField" where
  "newFieldRow env k tenantId entityTypeId f =
     \<lparr>ef_entityTypeId = entityTypeId, ef_tenantId = Some tenantId, ef_name = nf_name f, ef_sensitivity = nf_sensitivity f,
      fd_id = re_rowId env k, fd_label = nf_label f, fd_fieldType = nf_fieldType f, fd_config = nf_config f,
      fd_isRequired = nf_isRequired f, fd_isIndexed = nf_isIndexed f, fd_isSystem = nf_isSystem f,
      fd_sortOrder = nf_sortOrder f, fd_createdAt = re_dbNow env\<rparr>"

definition insertField :: "EntityField \<Rightarrow> EntityField list \<Rightarrow> rec_failure + EntityField list" where
  "insertField f t =
     bindE (throwIf (list_ex (\<lambda>g. ef_entityTypeId g = ef_entityTypeId f \<and> ef_name g = ef_name f) t)
              (ThrownError ''entity_fields_entity_type_id_name_unique'')) (\<lambda>_. insertKeyed fd_id f t)"

definition addEntityField ::
  "rec_env \<Rightarrow> nat \<Rightarrow> rec_db \<Rightarrow> string \<Rightarrow> string \<Rightarrow> NewField \<Rightarrow> rec_failure + (EntityField \<times> rec_db)" where
  "addEntityField env k db tenantId entityTypeId f =
     bindE (throwIf (isReservedFieldName (nf_name f))
              (ValidationError [fieldError ''name'' ''RESERVED_FIELD''
                 (''Field name '' @ [CHR 0x27] @ nf_name f @ [CHR 0x27] @ '' is reserved for internal engine use'')])) (\<lambda>_.
     bindE (loadEntityType db entityTypeId tenantId) (\<lambda>entityType.
     bindE (throwIf (\<not> et_allowCustomFields entityType \<and> et_tenantId entityType \<noteq> None)
              (EntityError CUSTOM_FIELDS_NOT_ALLOWED [(''entityTypeId'', JStr entityTypeId)])) (\<lambda>_.
     let row = newFieldRow env k tenantId entityTypeId f in
     bindE (insertField row (rd_fields db)) (\<lambda>t. Inr (row, db\<lparr>rd_fields := t\<rparr>)))))"

definition isFieldRow :: "string \<Rightarrow> string \<Rightarrow> string \<Rightarrow> EntityField \<Rightarrow> bool" where
  "isFieldRow tenantId entityTypeId fieldId f = (fd_id f = fieldId \<and> fieldVisible entityTypeId tenantId f)"

definition fieldWritable :: "string \<Rightarrow> string \<Rightarrow> EntityField \<Rightarrow> bool" where
  "fieldWritable tenantId fieldId f = (fd_id f = fieldId \<and> ef_tenantId f = Some tenantId)"

definition listEntityFields :: "rec_db \<Rightarrow> string \<Rightarrow> string \<Rightarrow> EntityField list" where
  "listEntityFields db tenantId entityTypeId =
     sort_key fd_sortOrder (sort_key fd_id (selectW (fieldVisible entityTypeId tenantId) (rd_fields db)))"

record UpdateEntityFieldInput =
  uf_label :: "string option"
  uf_config :: "jsobj option"
  uf_isRequired :: "bool option"
  uf_sortOrder :: "int option"
  uf_sensitivity :: "FieldSensitivity option"

definition fieldToEdit :: "rec_db \<Rightarrow> string \<Rightarrow> string \<Rightarrow> string \<Rightarrow> rec_failure + EntityField" where
  "fieldToEdit db tenantId entityTypeId fieldId =
     bindE (orThrow (select1 (isFieldRow tenantId entityTypeId fieldId) (rd_fields db))
              (EntityError FIELD_NOT_FOUND [(''fieldId'', JStr fieldId)])) (\<lambda>existing.
     bindE (throwIf (fd_isSystem existing) (EntityError SYSTEM_FIELD_IMMUTABLE [(''fieldId'', JStr fieldId)])) (\<lambda>_.
       Inr existing))"

definition unsafePattern :: "rec_env \<Rightarrow> EntityField \<Rightarrow> jsobj option \<Rightarrow> bool" where
  "unsafePattern env existing config =
     (fd_fieldType existing = FtText \<and>
      (case Option.bind config (\<lambda>c. stringIn c ''pattern'') of
         None \<Rightarrow> False | Some p \<Rightarrow> p \<noteq> [] \<and> \<not> isSafeRegex env p))"

definition applyFieldUpdates :: "UpdateEntityFieldInput \<Rightarrow> EntityField \<Rightarrow> EntityField" where
  "applyFieldUpdates u f =
     f\<lparr>fd_label := dflt (fd_label f) (uf_label u), fd_config := dflt (fd_config f) (uf_config u),
       fd_isRequired := dflt (fd_isRequired f) (uf_isRequired u), fd_sortOrder := dflt (fd_sortOrder f) (uf_sortOrder u),
       ef_sensitivity := dflt (ef_sensitivity f) (uf_sensitivity u)\<rparr>"

definition updateEntityField ::
  "rec_env \<Rightarrow> rec_db \<Rightarrow> string \<Rightarrow> string \<Rightarrow> string \<Rightarrow> UpdateEntityFieldInput \<Rightarrow> rec_failure + (EntityField \<times> rec_db)" where
  "updateEntityField env db tenantId entityTypeId fieldId input =
     bindE (fieldToEdit db tenantId entityTypeId fieldId) (\<lambda>existing.
     bindE (throwIf (unsafePattern env existing (uf_config input))
              (ValidationError [fieldError ''config.pattern'' ''INVALID_FORMAT''
                 ''Pattern is invalid or vulnerable to ReDoS -- use a simpler regex''])) (\<lambda>_.
     if uf_label input = None \<and> uf_config input = None \<and> uf_isRequired input = None \<and> uf_sortOrder input = None \<and>
        uf_sensitivity input = None
     then Inr (existing, db)
     else (let db1 = db\<lparr>rd_fields := updateW (fieldWritable tenantId fieldId) (applyFieldUpdates input) (rd_fields db)\<rparr> in
           bindE (orThrow (select1 (fieldWritable tenantId fieldId) (rd_fields db1))
                    (EntityError FIELD_NOT_FOUND [(''fieldId'', JStr fieldId)])) (\<lambda>row. Inr (row, db1)))))"

definition deleteEntityField :: "rec_db \<Rightarrow> string \<Rightarrow> string \<Rightarrow> string \<Rightarrow> rec_failure + (unit \<times> rec_db)" where
  "deleteEntityField db tenantId entityTypeId fieldId =
     bindE (fieldToEdit db tenantId entityTypeId fieldId) (\<lambda>_.
       Inr ((), db\<lparr>rd_fields := deleteW (fieldWritable tenantId fieldId) (rd_fields db)\<rparr>))"

section \<open>Types\<close>

record CreateEntityTypeInput =
  ct_name :: string
  ct_plural :: string
  ct_icon :: "string option"
  ct_moduleId :: "string option"
  ct_allowCustomFields :: "bool option"

definition titleField :: NewField where
  "titleField = \<lparr>nf_name = ''title'', nf_label = ''Title'', nf_fieldType = FtText, nf_config = [], nf_isRequired = True,
     nf_isIndexed = True, nf_isSystem = True, nf_sortOrder = 0, nf_sensitivity = SensPublic\<rparr>"

definition teamField :: NewField where
  "teamField = \<lparr>nf_name = ''team_id'', nf_label = ''Team'', nf_fieldType = FtText, nf_config = [(''virtual'', JBool True)],
     nf_isRequired = False, nf_isIndexed = True, nf_isSystem = False, nf_sortOrder = 1, nf_sensitivity = SensPublic\<rparr>"

definition createEntityType ::
  "rec_env \<Rightarrow> rec_db \<Rightarrow> string option \<Rightarrow> CreateEntityTypeInput \<Rightarrow> rec_failure + (EntityType \<times> rec_db)" where
  "createEntityType env db tenantId input =
     (let row = \<lparr>et_id = re_rowId env 0, et_tenantId = tenantId, et_name = ct_name input, et_plural = ct_plural input,
                 et_icon = ct_icon input, et_moduleId = ct_moduleId input,
                 et_allowCustomFields = dflt True (ct_allowCustomFields input), et_createdAt = re_dbNow env\<rparr> in
      bindE (insertKeyed et_id row (rd_types db)) (\<lambda>t.
      let db1 = db\<lparr>rd_types := t\<rparr> in
      case tenantId of
        None \<Rightarrow> Inr (row, db1)
      | Some tid \<Rightarrow>
          if \<not> dflt True (ct_allowCustomFields input) then Inr (row, db1)
          else bindE (addEntityField env 1 db1 tid (et_id row) titleField) (\<lambda>(_, db2).
               bindE (addEntityField env 2 db2 tid (et_id row) teamField) (\<lambda>(_, db3). Inr (row, db3)))))"

definition typeVisible :: "string \<Rightarrow> EntityType \<Rightarrow> bool" where
  "typeVisible tenantId t = (et_tenantId t = None \<or> et_tenantId t = Some tenantId)"

definition typeWritable :: "string \<Rightarrow> string \<Rightarrow> EntityType \<Rightarrow> bool" where
  "typeWritable tenantId entityTypeId t = (et_id t = entityTypeId \<and> et_tenantId t = Some tenantId)"

definition getEntityType :: "rec_db \<Rightarrow> string \<Rightarrow> string \<Rightarrow> rec_failure + EntityType" where
  "getEntityType db tenantId entityTypeId =
     orThrow (select1 (\<lambda>t. et_id t = entityTypeId \<and> typeVisible tenantId t) (rd_types db))
       (EntityError ENTITY_TYPE_NOT_FOUND [(''entityTypeId'', JStr entityTypeId)])"

record ListEntityTypesInput =
  lt_moduleId :: "string option"
  lt_limit :: "nat option"
  lt_cursor :: "(date \<times> string) option"

definition typeAfter :: "(date \<times> string) option \<Rightarrow> EntityType \<Rightarrow> bool" where
  "typeAfter cursor t =
     (case cursor of None \<Rightarrow> True
      | Some (d, i) \<Rightarrow> d * 1000 < et_createdAt t \<or> (et_createdAt t = d * 1000 \<and> i < et_id t))"

definition listEntityTypes :: "rec_db \<Rightarrow> string \<Rightarrow> ListEntityTypesInput \<Rightarrow> EntityType list \<times> (date \<times> string) option" where
  "listEntityTypes db tenantId input =
     cutPage (pageLimit (lt_limit input)) (\<lambda>t. (toDate (et_createdAt t), et_id t))
       (sort_key et_createdAt (sort_key et_id
          (selectW (\<lambda>t. typeVisible tenantId t \<and>
             (case lt_moduleId input of None \<Rightarrow> True | Some m \<Rightarrow> et_moduleId t = Some m) \<and>
             typeAfter (lt_cursor input) t) (rd_types db))))"

record UpdateEntityTypeInput =
  uy_name :: "string option"
  uy_plural :: "string option"
  uy_icon :: "string option option"
  uy_allowCustomFields :: "bool option"

definition applyTypeUpdates :: "UpdateEntityTypeInput \<Rightarrow> EntityType \<Rightarrow> EntityType" where
  "applyTypeUpdates u t =
     t\<lparr>et_name := dflt (et_name t) (uy_name u), et_plural := dflt (et_plural t) (uy_plural u),
       et_icon := dflt (et_icon t) (uy_icon u), et_allowCustomFields := dflt (et_allowCustomFields t) (uy_allowCustomFields u)\<rparr>"

definition updateEntityType ::
  "rec_db \<Rightarrow> string \<Rightarrow> string \<Rightarrow> UpdateEntityTypeInput \<Rightarrow> rec_failure + (EntityType \<times> rec_db)" where
  "updateEntityType db tenantId entityTypeId input =
     bindE (getEntityType db tenantId entityTypeId) (\<lambda>existing.
     if uy_name input = None \<and> uy_plural input = None \<and> uy_icon input = None \<and> uy_allowCustomFields input = None
     then Inr (existing, db)
     else (let db1 = db\<lparr>rd_types := updateW (typeWritable tenantId entityTypeId) (applyTypeUpdates input) (rd_types db)\<rparr> in
           bindE (orThrow (select1 (typeWritable tenantId entityTypeId) (rd_types db1))
                    (EntityError ENTITY_TYPE_NOT_FOUND [(''entityTypeId'', JStr entityTypeId)])) (\<lambda>row. Inr (row, db1))))"

text \<open>
  The deletion of a type counts the records of the type the caller's tenant can see: row-level
  security hides the others. Fields, workflows and hidden records that refer to it block the statement.
\<close>

definition typeReferenced :: "rec_db \<Rightarrow> string \<Rightarrow> bool" where
  "typeReferenced db entityTypeId =
     (list_ex (\<lambda>f. ef_entityTypeId f = entityTypeId) (rd_fields db) \<or>
      list_ex (\<lambda>r. ei_entityTypeId r = entityTypeId) (rd_instances db) \<or>
      list_ex (\<lambda>w. wf_entityTypeId w = entityTypeId) (rd_workflows db))"

definition deleteEntityType :: "rec_db \<Rightarrow> string \<Rightarrow> string \<Rightarrow> rec_failure + (unit \<times> rec_db)" where
  "deleteEntityType db tenantId entityTypeId =
     bindE (getEntityType db tenantId entityTypeId) (\<lambda>_.
     let n = length (selectW (\<lambda>r. ei_entityTypeId r = entityTypeId \<and> ei_tenantId r = tenantId) (rd_instances db)) in
     bindE (throwIf (0 < n) (EntityError ENTITY_TYPE_HAS_INSTANCES
              [(''entityTypeId'', JStr entityTypeId), (''count'', JNum (of_nat n))])) (\<lambda>_.
     bindE (throwIf (list_ex (typeWritable tenantId entityTypeId) (rd_types db) \<and> typeReferenced db entityTypeId)
              (ThrownError ''foreign key'')) (\<lambda>_.
       Inr ((), db\<lparr>rd_types := deleteW (typeWritable tenantId entityTypeId) (rd_types db)\<rparr>))))"

end
