(* ===== verification/RecOps.thy ===== *)
theory RecOps
  imports RecTypes
begin

text \<open>
  The record engine as one system: every operation that writes, as a call. The lemmas here say which
  tables an operation leaves alone and what it does to the others; the properties rest on them.
\<close>

section \<open>Calls\<close>

datatype rec_call =
    RcCreate CreateEntityInput
  | RcUpdate string UpdateEntityInput
  | RcSeverity string TicketSeverity
  | RcState string string "string option"
  | RcAddTag string string string
  | RcRemoveTag string string string bool
  | RcDelete string "string option"
  | RcBulkCreate "CreateEntityInput list"
  | RcBulkUpdate "(string \<times> UpdateEntityInput) list"
  | RcBulkState "(string \<times> string) list" "string option"
  | RcChild CreateChildRelationInput
  | RcMove string "string option"
  | RcArchive string bool
  | RcRestore string
  | RcRelation CreateRelationInput
  | RcReference string string "string option"
  | RcUnreference string "string option"
  | RcUnrelate string "string option"
  | RcAddField string NewField
  | RcUpdateField string string UpdateEntityFieldInput
  | RcDeleteField string string
  | RcCreateType CreateEntityTypeInput
  | RcUpdateType string UpdateEntityTypeInput
  | RcDeleteType string

definition afterCall :: "rec_failure + ('a \<times> rec_db) \<Rightarrow> rec_failure + rec_db" where
  "afterCall r = (case r of Inl e \<Rightarrow> Inl e | Inr (x, db) \<Rightarrow> Inr db)"

lemma afterCall_Inr [result_simps]: "afterCall r = Inr db \<longleftrightarrow> (\<exists>x. r = Inr (x, db))"
  by (auto simp: afterCall_def split: sum.splits)

text \<open>\<open>None\<close> is a call that does not return.\<close>

fun performRec :: "rec_env \<Rightarrow> rec_db \<Rightarrow> string \<Rightarrow> rec_call \<Rightarrow> (rec_failure + rec_db) option" where
  "performRec env db tid (RcCreate input) = Some (afterCall (createEntity env db tid input))"
| "performRec env db tid (RcUpdate i input) = Some (afterCall (updateEntity env db tid i input))"
| "performRec env db tid (RcSeverity i s) = Some (afterCall (setEntityInstanceSeverity env db tid i s))"
| "performRec env db tid (RcState i s a) = Some (afterCall (setEntityState env db tid i s a))"
| "performRec env db tid (RcAddTag i t u) = Some (afterCall (addEntityInstanceTag env db tid i t u))"
| "performRec env db tid (RcRemoveTag i t u ov) = Some (afterCall (removeEntityInstanceTag db tid i t u ov))"
| "performRec env db tid (RcDelete i a) = Some (afterCall (deleteEntity env db tid i a))"
| "performRec env db tid (RcBulkCreate inputs) = Some (afterCall (bulkCreateEntities env db tid inputs))"
| "performRec env db tid (RcBulkUpdate updates) = Some (afterCall (bulkUpdateEntities env db tid updates))"
| "performRec env db tid (RcBulkState items a) = Some (afterCall (bulkSetState env db tid items a))"
| "performRec env db tid (RcChild input) = Some (afterCall (createChildRelation env db tid input))"
| "performRec env db tid (RcMove c p) = map_option afterCall (moveChildRelation env db tid c p)"
| "performRec env db tid (RcArchive i confirm) = map_option afterCall (archiveEntity env db tid i confirm)"
| "performRec env db tid (RcRestore i) = map_option afterCall (restoreEntity db tid i)"
| "performRec env db tid (RcRelation input) = Some (afterCall (createRelation env db tid input))"
| "performRec env db tid (RcReference a b u) = Some (afterCall (createReferenceLink env db tid a b u))"
| "performRec env db tid (RcUnreference r u) = Some (afterCall (deleteReferenceLink env db tid r u))"
| "performRec env db tid (RcUnrelate r u) = Some (afterCall (deleteRelation env db tid r u))"
| "performRec env db tid (RcAddField ty f) = Some (afterCall (addEntityField env 0 db tid ty f))"
| "performRec env db tid (RcUpdateField ty f input) = Some (afterCall (updateEntityField env db tid ty f input))"
| "performRec env db tid (RcDeleteField ty f) = Some (afterCall (deleteEntityField db tid ty f))"
| "performRec env db tid (RcCreateType input) = Some (afterCall (createEntityType env db (Some tid) input))"
| "performRec env db tid (RcUpdateType ty input) = Some (afterCall (updateEntityType db tid ty input))"
| "performRec env db tid (RcDeleteType ty) = Some (afterCall (deleteEntityType db tid ty))"

section \<open>Tables a call leaves alone\<close>

definition sameConfig :: "rec_db \<Rightarrow> rec_db \<Rightarrow> bool" where
  "sameConfig db db' =
     (rd_types db' = rd_types db \<and> rd_fields db' = rd_fields db \<and> rd_workflows db' = rd_workflows db \<and>
      rd_states db' = rd_states db \<and> rd_transitions db' = rd_transitions db \<and> rd_teams db' = rd_teams db \<and>
      rd_users db' = rd_users db)"

lemma reschedule_sel:
  "rd_instances (rescheduleDueDate env k t i ty a b db) = rd_instances db"
  "rd_relations (rescheduleDueDate env k t i ty a b db) = rd_relations db"
  "rd_tags (rescheduleDueDate env k t i ty a b db) = rd_tags db"
  "rd_events (rescheduleDueDate env k t i ty a b db) = rd_events db"
  "sameConfig d0 (rescheduleDueDate env k t i ty a b db) = sameConfig d0 db"
  by (simp_all add: rescheduleDueDate_def sameConfig_def)

lemma fire_Inr [result_simps]:
  "fireEntityAuditHook env p db = Inr db' \<longleftrightarrow>
     (db' = db \<and> \<not> re_hookRegistered env) \<or>
     (db' = db\<lparr>rd_audit := rd_audit db @ [p]\<rparr> \<and> re_hookRegistered env \<and> \<not> re_hookFails env p)"
  by (auto simp: fireEntityAuditHook_def)

text \<open>What an audit entry does not touch.\<close>

definition upToAudit :: "rec_db \<Rightarrow> rec_db \<Rightarrow> bool" where
  "upToAudit db db' = (\<exists>ps. db' = db\<lparr>rd_audit := ps\<rparr>)"

lemma upToAudit_refl [simp]: "upToAudit db db"
proof -
  have "db = db\<lparr>rd_audit := rd_audit db\<rparr>" by simp
  then show ?thesis unfolding upToAudit_def by blast
qed

lemma upToAudit_trans: "upToAudit a b \<Longrightarrow> upToAudit b c \<Longrightarrow> upToAudit a c"
  by (auto simp: upToAudit_def)

lemma fire_upToAudit: "fireEntityAuditHook env p db = Inr db' \<Longrightarrow> upToAudit db db'"
  by (auto simp: result_simps upToAudit_def intro: exI [of _ "rd_audit db"])

lemma fireAll_upToAudit: "fireAll env ps db = Inr db' \<Longrightarrow> upToAudit db db'"
  by (induction ps arbitrary: db) (auto simp: bindE_eq_Inr intro: upToAudit_trans fire_upToAudit)

lemma upToAudit_sel:
  assumes "upToAudit db db'"
  shows "rd_instances db' = rd_instances db" "rd_relations db' = rd_relations db" "rd_tags db' = rd_tags db"
    "rd_events db' = rd_events db" "rd_outbox db' = rd_outbox db" "sameConfig d0 db' = sameConfig d0 db"
  using assms by (auto simp: upToAudit_def sameConfig_def)

lemma sameConfig_refl [simp]: "sameConfig db db"
  by (simp add: sameConfig_def)

lemma sameConfig_trans: "sameConfig a b \<Longrightarrow> sameConfig b c \<Longrightarrow> sameConfig a c"
  by (simp add: sameConfig_def)

lemma sameConfig_updates [simp]:
  "sameConfig d0 (rd_instances_update f db) = sameConfig d0 db"
  "sameConfig d0 (rd_relations_update g db) = sameConfig d0 db"
  "sameConfig d0 (rd_tags_update h db) = sameConfig d0 db"
  "sameConfig d0 (rd_events_update e db) = sameConfig d0 db"
  "sameConfig d0 (rd_outbox_update o1 db) = sameConfig d0 db"
  "sameConfig d0 (rd_audit_update a db) = sameConfig d0 db"
  by (simp_all add: sameConfig_def)

section \<open>How a table evolves\<close>

text \<open>
  Old rows keep their places and change by \<open>R\<close>, new rows follow them and satisfy \<open>N\<close>. A statement
  that deletes rows is not of this shape; only tags and fields are deleted.
\<close>

definition evolves :: "('r \<Rightarrow> 'r \<Rightarrow> bool) \<Rightarrow> ('r \<Rightarrow> bool) \<Rightarrow> 'r list \<Rightarrow> 'r list \<Rightarrow> bool" where
  "evolves R N t t' = (\<exists>old news. t' = old @ news \<and> list_all2 R t old \<and> list_all N news)"

named_theorems evolve_intros \<open>statements that make a table evolve\<close>

lemma evolves_append [evolve_intros]:
  "(\<And>r. r \<in> set t \<Longrightarrow> R r r) \<Longrightarrow> list_all N news \<Longrightarrow> evolves R N t (t @ news)"
  unfolding evolves_def by (auto intro: list.rel_refl_strong)

lemma evolves_refl [evolve_intros]: "(\<And>r. r \<in> set t \<Longrightarrow> R r r) \<Longrightarrow> evolves R N t t"
  using evolves_append [of t R N "[]"] by simp

lemma evolves_updateW [evolve_intros]:
  assumes "\<And>r. r \<in> set t \<Longrightarrow> P r \<Longrightarrow> R r (f r)" "\<And>r. r \<in> set t \<Longrightarrow> R r r"
  shows "evolves R N t (updateW P f t)"
  unfolding evolves_def using assms
  by (intro exI [of _ "updateW P f t"] exI [of _ "[]"]) (auto simp: updateW_def list_all2_conv_all_nth)

lemma evolves_trans:
  assumes "evolves R N t t'" "evolves R N t' t''"
    and "\<And>a b c. R a b \<Longrightarrow> R b c \<Longrightarrow> R a c" "\<And>a b. N a \<Longrightarrow> R a b \<Longrightarrow> N b"
  shows "evolves R N t t''"
proof -
  obtain o1 n1 o2 n2 where t': "t' = o1 @ n1" "list_all2 R t o1" "list_all N n1"
    and t'': "t'' = o2 @ n2" "list_all2 R t' o2" "list_all N n2"
    using assms(1,2) by (auto simp: evolves_def)
  obtain a b where o2: "o2 = a @ b" "list_all2 R o1 a" "list_all2 R n1 b"
    using t''(2) unfolding t'(1) list_all2_append1 by blast
  have "list_all2 R t a" by (rule list_all2_trans [OF assms(3) t'(2) o2(2)])
  moreover have "list_all N b"
    using o2(3) t'(3) by (induction rule: list_all2_induct) (auto intro: assms(4))
  ultimately show ?thesis
    unfolding evolves_def using t'' o2 by (intro exI [of _ a] exI [of _ "b @ n2"]) auto
qed

lemma evolves_mono:
  assumes "evolves R N t t'" "\<And>r r'. r \<in> set t \<Longrightarrow> R r r' \<Longrightarrow> R' r r'" "\<And>r. N r \<Longrightarrow> N' r"
  shows "evolves R' N' t t'"
  using assms unfolding evolves_def
  by (blast intro: list.rel_mono_strong list.pred_mono_strong)

lemma evolves_mem:
  assumes "evolves R N t t'" "r' \<in> set t'"
  shows "(\<exists>r \<in> set t. R r r') \<or> N r'"
proof -
  obtain old news where t': "t' = old @ news" "list_all2 R t old" "list_all N news"
    using assms(1) by (auto simp: evolves_def)
  show ?thesis
  proof (cases "r' \<in> set old")
    case True
    then obtain i where "i < length old" "r' = old ! i" by (auto simp: in_set_conv_nth)
    then show ?thesis using t'(2) by (metis list_all2_conv_all_nth nth_mem)
  qed (use assms(2) t' in \<open>auto simp: list_all_iff\<close>)
qed

lemma evolves_old:
  assumes "evolves R N t t'" "r \<in> set t"
  shows "\<exists>r' \<in> set t'. R r r'"
  using assms by (force simp: evolves_def list_all2_conv_all_nth in_set_conv_nth)

lemma evolves_filter:
  assumes "evolves R N t t'" "\<And>r r'. R r r' \<Longrightarrow> Q r \<or> Q r' \<Longrightarrow> r' = r" "\<And>r. N r \<Longrightarrow> \<not> Q r"
  shows "filter Q t' = filter Q t"
proof -
  obtain old news where t': "t' = old @ news" "list_all2 R t old" "list_all N news"
    using assms(1) by (auto simp: evolves_def)
  have "filter Q old = filter Q t"
    using t'(2)
  proof (induction rule: list_all2_induct)
    case (Cons r rs r' rs')
    then show ?case using assms(2) [of r r'] by (cases "Q r"; cases "Q r'") auto
  qed simp
  moreover have "filter Q news = []" using t'(3) assms(3) by (auto simp: filter_empty_conv list_all_iff)
  ultimately show ?thesis using t'(1) by simp
qed

lemma evolves_updated:
  "evolves R N (updateW P f t) t' \<Longrightarrow> (\<And>r r'. R (if P r then f r else r) r' \<Longrightarrow> R' r r') \<Longrightarrow> evolves R' N t t'"
  unfolding evolves_def updateW_def list_all2_map1 by (blast intro: list_all2_mono)

end
