(* ===== verification/RecStep.thy ===== *)
theory RecStep
  imports RecOps
begin

text \<open>
  What one call of the record engine may do to the database, as a step relation: how a row of a record
  may change and under which checks, which rows may appear, and that the other tables change inside the
  caller's tenant only. Every operation is shown to be such a step; the properties of the record engine
  are proved from the step relation by its cases.
\<close>

section \<open>Keys\<close>

definition recKeys :: "rec_db \<Rightarrow> bool" where
  "recKeys db = (distinct (map ei_id (rd_instances db)) \<and> distinct (map rl_id (rd_relations db)))"

lemma keyed_unique: "distinct (map key t) \<Longrightarrow> a \<in> set t \<Longrightarrow> b \<in> set t \<Longrightarrow> key a = key b \<Longrightarrow> a = b"
  by (metis distinct_map inj_onD)

lemma recKeys_entity:
  assumes "recKeys db" "select1 P (rd_instances db) = Some r0" "r \<in> set (rd_instances db)" "ei_id r = ei_id r0"
  shows "r = r0"
  using assms keyed_unique [of ei_id] by (auto simp: recKeys_def dest!: select1_Some)

lemma insertAll_Inr: "insertAll rs t = Inr t' \<Longrightarrow> t' = t @ rs"
  by (induction rs arbitrary: t) (fastforce simp: result_simps)+

lemma insertAll_keys:
  "insertAll rs t = Inr t' \<Longrightarrow> distinct (map ei_id t) \<Longrightarrow> distinct (map ei_id t')"
proof (induction rs arbitrary: t)
  case (Cons r rs)
  then have r: "ei_id r \<notin> ei_id ` set t" "insertAll rs (t @ [r]) = Inr t'" by (auto simp: result_simps)
  show ?case by (rule Cons.IH [OF r(2)]) (use r(1) Cons.prems(2) in auto)
qed simp

section \<open>Checks on a write\<close>

definition stateOk :: "rec_db \<Rightarrow> string \<Rightarrow> entity_row \<Rightarrow> string \<Rightarrow> bool" where
  "stateOk db tid r s =
     (case truthyId (ei_workflowId r) of
        None \<Rightarrow> getParentId db tid (ei_id r) \<noteq> None \<longrightarrow> s \<in> set CHILD_TICKET_STATES
      | Some w \<Rightarrow>
          if getParentId db tid (ei_id r) \<noteq> None
          then s \<in> set CHILD_TICKET_STATES \<and>
               (s = ei_currentState r \<or> \<not> isStateWriteLocked db tid w \<or> \<not> workflowHasStateNamed db tid w s)
          else workflowHasStateNamed db tid w s \<and> (s = ei_currentState r \<or> \<not> isStateWriteLocked db tid w))"

lemma hasState_iff: "workflowHasStateNamed db tid w s \<longleftrightarrow> s \<in> set (recStateNames db tid w)"
  by (auto simp: workflowHasStateNamed_def recStateNames_def select1_None_iff)

lemma hasState_select:
  "workflowHasStateNamed db tid w s \<longleftrightarrow>
     (\<exists>x \<in> set (rd_states db). ws_workflowId x = w \<and> ws_tenantId x = tid \<and> ws_name x = s)"
  by (auto simp: workflowHasStateNamed_def select1_None_iff)

lemma locked_iff:
  "isStateWriteLocked db tid w \<longleftrightarrow>
     (\<exists>x \<in> set (rd_workflows db). wf_tenantId x = Some tid \<and> wf_id x = w \<and> isLockedWorkflow db tid x)"
  by (auto simp: isStateWriteLocked_def lockedWorkflowIds_def)

lemma childReaches_iff:
  "childStateWriteReachesLockedStep db tid w s \<longleftrightarrow> isStateWriteLocked db tid w \<and> workflowHasStateNamed db tid w s"
  unfolding locked_iff hasState_select childStateWriteReachesLockedStep_def
  by (auto simp: selectW_def filter_empty_conv list_ex_iff)

lemma checkStateWrite_iff:
  "checkStateWrite db tid i f r (getParentId db tid (ei_id r) \<noteq> None) s = Inr u \<longleftrightarrow> stateOk db tid r s"
  by (auto simp: checkStateWrite_def stateOk_def assertDirectStateWriteAllowed_def result_simps hasState_iff
      childReaches_iff split: option.splits if_splits)

lemma stateRefusal_iff: "stateRefusal db tid r s = None \<longleftrightarrow> stateOk db tid r s"
  by (auto simp: stateRefusal_def stateOk_def isStateWriteLocked_def [symmetric] hasState_iff Let_def
      split: option.splits if_splits)

definition keepsMandatory :: "rec_env \<Rightarrow> entity_row \<Rightarrow> edit \<Rightarrow> bool" where
  "keepsMandatory env r e =
     (\<exists>due. editColumn env due = Inr (ed_dueDate e) \<and>
        checkEditKeepsMandatoryValues env r (objGet (dflt (ei_fields r) (ed_fields e)) ''title'')
          (map_option (nextDue env) due) = Inr ())"

definition validEdit :: "rec_env \<Rightarrow> rec_db \<Rightarrow> string \<Rightarrow> entity_row \<Rightarrow> jsobj \<Rightarrow> bool" where
  "validEdit env db tid r flds =
     (\<exists>provided ty allFields.
        editedFields env db tid r (getParentId db tid (ei_id r) \<noteq> None) provided = Inr (ty, allFields, flds) \<or>
        bulkEditedFields env db tid r provided = Inr (ty, allFields, flds))"

definition editOk :: "rec_env \<Rightarrow> rec_db \<Rightarrow> string \<Rightarrow> entity_row \<Rightarrow> edit \<Rightarrow> bool" where
  "editOk env db tid r e =
     ((case ed_fields e of None \<Rightarrow> True | Some flds \<Rightarrow> validEdit env db tid r flds) \<and>
      (case ed_currentState e of None \<Rightarrow> True | Some s \<Rightarrow> stateOk db tid r s) \<and>
      keepsMandatory env r e)"

section \<open>Steps\<close>

text \<open>\<open>D\<close> is the set of records the call detaches from their parents.\<close>

inductive rowStep :: "rec_env \<Rightarrow> string set \<Rightarrow> rec_db \<Rightarrow> string \<Rightarrow> entity_row \<Rightarrow> entity_row \<Rightarrow> bool"
  for env D db tid where
  rs_same: "rowStep env D db tid r r"
| rs_edit: "isLiveEntity tid (ei_id r) r \<Longrightarrow> \<forall>e \<in> set es. editOk env db tid r e \<Longrightarrow>
    rowStep env D db tid r (fold (applyEdit env) es r)"
| rs_severity: "isLiveEntity tid (ei_id r) r \<Longrightarrow>
    rowStep env D db tid r (r\<lparr>ri_severity := Some sev, ei_updatedAt := re_updatedAt env\<rparr>)"
| rs_state: "isLiveEntity tid (ei_id r) r \<Longrightarrow> stateOk db tid r s \<Longrightarrow>
    rowStep env D db tid r (r\<lparr>ei_currentState := s, ei_updatedAt := re_updatedAt env\<rparr>)"
| rs_delete: "isLiveEntity tid (ei_id r) r \<Longrightarrow> rowStep env D db tid r (r\<lparr>ri_deletedAt := Some ts\<rparr>)"
| rs_restore: "ei_tenantId r = tid \<Longrightarrow> rowStep env D db tid r (r\<lparr>ri_deletedAt := None\<rparr>)"
| rs_detach: "isLiveEntity tid (ei_id r) r \<Longrightarrow> ei_id r \<in> D \<Longrightarrow>
    rowStep env D db tid r (r\<lparr>ei_fields := objRemove ''child_status'' (ei_fields r), ei_currentState := ''initial'',
      ei_updatedAt := toDate (re_dbNow env)\<rparr>)"

inductive rowNew :: "rec_env \<Rightarrow> rec_db \<Rightarrow> string \<Rightarrow> entity_row \<Rightarrow> bool" for env db tid where
  rn_create: "validateReservedFieldNames (ci_fields input) = Inr () \<Longrightarrow>
    parseFor env db (ci_entityTypeId input) tid ModeCreate (ci_fields input) = Inr data \<Longrightarrow>
    placeRecord env db tid input sev (applyFormulaFields env (loadEntityFields db (ci_entityTypeId input) tid) data) = Inr flds \<Longrightarrow>
    toDueColumn env (ci_dueDate input) = Inr due \<Longrightarrow>
    input' = input \<or> input' = input\<lparr>ci_originMechanism := None, ci_originOidcClientId := None, ci_originPerformerUserId := None\<rparr> \<Longrightarrow>
    rowNew env db tid (newEntityRow env k tid input' sev state flds due)"
| rn_child: "checkMandatoryFields env (childMandatory input) = Inr () \<Longrightarrow>
    lockedParent db tid (cc_parentId input) = Inr parent \<Longrightarrow>
    validateReservedFieldNames (cc_childFields input) = Inr () \<Longrightarrow>
    toDueColumn env (cc_dueDate input) = Inr due \<Longrightarrow>
    rowNew env db tid (childRow env tid input parent w due)"

definition relStep :: "string \<Rightarrow> EntityRelation \<Rightarrow> EntityRelation \<Rightarrow> bool" where
  "relStep tid r r' = (r' = r \<or> (er_tenantId r = tid \<and> (\<exists>d. r' = r\<lparr>er_deletedAt := d\<rparr>)))"

definition outStep :: "string \<Rightarrow> outbox_events_row \<Rightarrow> outbox_events_row \<Rightarrow> bool" where
  "outStep tid r r' =
     (r' = r \<or> (ob_tenantId r = tid \<and> ob_eventType r = dueScheduled \<and> ob_deliveredAt r = None \<and>
                (\<exists>d. r' = r\<lparr>ob_deliveredAt := Some d\<rparr>)))"

definition recStep :: "rec_env \<Rightarrow> string set \<Rightarrow> rec_db \<Rightarrow> string \<Rightarrow> rec_db \<Rightarrow> bool" where
  "recStep env D db tid db' =
     (evolves (rowStep env D db tid) (rowNew env db tid) (rd_instances db) (rd_instances db') \<and>
      evolves (relStep tid) (\<lambda>r. er_tenantId r = tid) (rd_relations db) (rd_relations db') \<and>
      evolves (outStep tid) (\<lambda>r. ob_tenantId r = tid) (rd_outbox db) (rd_outbox db') \<and>
      evolves (=) (\<lambda>e. we_tenantId e = tid) (rd_events db) (rd_events db') \<and>
      filter (\<lambda>t. tg_tenantId t \<noteq> tid) (rd_tags db') = filter (\<lambda>t. tg_tenantId t \<noteq> tid) (rd_tags db) \<and>
      sameConfig db db' \<and> recKeys db')"

lemmas recStepI = recStep_def [THEN iffD2, OF conjI, OF _ conjI, OF _ _ conjI, OF _ _ _ conjI, OF _ _ _ _ conjI,
  OF _ _ _ _ _ conjI]

lemma relStep_refl [simp]: "relStep tid r r" by (simp add: relStep_def)
lemma outStep_refl [simp]: "outStep tid r r" by (simp add: outStep_def)
lemma rowStep_refl [simp]: "rowStep env D db tid r r" by (rule rs_same)

lemma relStep_trans: "relStep tid a b \<Longrightarrow> relStep tid b c \<Longrightarrow> relStep tid a c"
  by (auto simp: relStep_def)

lemma outStep_trans: "outStep tid a b \<Longrightarrow> outStep tid b c \<Longrightarrow> outStep tid a c"
  by (auto simp: outStep_def)

lemma outbox_trans:
  assumes "evolves (outStep tid) (\<lambda>r. ob_tenantId r = tid) a b" "evolves (outStep tid) (\<lambda>r. ob_tenantId r = tid) b c"
  shows "evolves (outStep tid) (\<lambda>r. ob_tenantId r = tid) a c"
  using assms by (rule evolves_trans) (auto intro: outStep_trans simp: outStep_def)

lemma outboxRow_sel [simp]:
  "ob_tenantId (outboxRow env k tid ty p) = tid" "ob_eventType (outboxRow env k tid ty p) = ty"
  "ob_deliveredAt (outboxRow env k tid ty p) = None" "ob_payload (outboxRow env k tid ty p) = p"
  by (simp_all add: outboxRow_def)

lemma cancelDue_evolves:
  "evolves (outStep tid) (\<lambda>r. ob_tenantId r = tid) t (cancelDue env tid i t)"
  unfolding cancelDue_def by (rule evolves_updateW) (auto simp: outStep_def isPendingDue_def)

lemma out_append:
  "evolves (outStep tid) (\<lambda>r. ob_tenantId r = tid) a b \<Longrightarrow> list_all (\<lambda>r. ob_tenantId r = tid) n \<Longrightarrow>
     evolves (outStep tid) (\<lambda>r. ob_tenantId r = tid) a (b @ n)"
  by (rule outbox_trans, assumption, rule evolves_append) simp_all

text \<open>A call's side effects: what it appends to the log and the outbox, and the markers it cancels.\<close>

definition sideStep :: "string \<Rightarrow> rec_db \<Rightarrow> rec_db \<Rightarrow> bool" where
  "sideStep tid db db' =
     (rd_instances db' = rd_instances db \<and> rd_relations db' = rd_relations db \<and> rd_tags db' = rd_tags db \<and>
      sameConfig db db' \<and>
      evolves (outStep tid) (\<lambda>r. ob_tenantId r = tid) (rd_outbox db) (rd_outbox db') \<and>
      evolves (=) (\<lambda>e. we_tenantId e = tid) (rd_events db) (rd_events db'))"

lemma events_trans:
  assumes "evolves (=) (\<lambda>e. we_tenantId e = tid) a b" "evolves (=) (\<lambda>e. we_tenantId e = tid) b c"
  shows "evolves (=) (\<lambda>e. we_tenantId e = tid) a c"
  using assms by (rule evolves_trans) simp_all

lemma sideStep_trans: "sideStep tid a b \<Longrightarrow> sideStep tid b c \<Longrightarrow> sideStep tid a c"
  unfolding sideStep_def by (auto intro: outbox_trans events_trans sameConfig_trans)

lemma recStep_side: "recStep env D db tid db1 \<Longrightarrow> sideStep tid db1 db2 \<Longrightarrow> recStep env D db tid db2"
  unfolding recStep_def sideStep_def
  by (auto simp: recKeys_def intro: outbox_trans events_trans sameConfig_trans)

named_theorems side_intros \<open>side effects of an operation\<close>

lemma sideStep_refl [side_intros]: "sideStep tid db db"
  by (auto simp: sideStep_def intro!: evolve_intros)

lemma sideStep_outbox [side_intros]:
  "sideStep tid a db \<Longrightarrow> list_all (\<lambda>r. ob_tenantId r = tid) rows \<Longrightarrow> sideStep tid a (db\<lparr>rd_outbox := rd_outbox db @ rows\<rparr>)"
  by (rule sideStep_trans, assumption) (auto simp: sideStep_def intro!: evolve_intros)

lemma sideStep_events [side_intros]:
  "sideStep tid a db \<Longrightarrow> list_all (\<lambda>e. we_tenantId e = tid) es \<Longrightarrow> sideStep tid a (db\<lparr>rd_events := rd_events db @ es\<rparr>)"
  by (rule sideStep_trans, assumption) (auto simp: sideStep_def intro!: evolve_intros)

lemma sideStep_cancel:
  "evolves (outStep tid) (\<lambda>r. ob_tenantId r = tid) (rd_outbox db) t \<Longrightarrow> sideStep tid db (db\<lparr>rd_outbox := t\<rparr>)"
  by (auto simp: sideStep_def intro!: evolve_intros)

lemma sideStep_reschedule [side_intros]:
  assumes "sideStep tid d0 db"
  shows "sideStep tid d0 (rescheduleDueDate env k tid i ty a b db)"
proof -
  have "evolves (outStep tid) (\<lambda>r. ob_tenantId r = tid) (rd_outbox db) (cancelDue env tid i (rd_outbox db) @ n)"
    if "list_all (\<lambda>r. ob_tenantId r = tid) n" for n
    using out_append [OF cancelDue_evolves that] .
  then have "sideStep tid d0 (db\<lparr>rd_outbox := cancelDue env tid i (rd_outbox db) @ n\<rparr>)"
    if "list_all (\<lambda>r. ob_tenantId r = tid) n" for n
    using that by (intro sideStep_trans [OF assms sideStep_cancel])
  from this [of "[]"] this show ?thesis
    unfolding rescheduleDueDate_def using assms by (auto split: option.split)
qed

lemma sideStep_audit: "upToAudit db db' \<Longrightarrow> sideStep tid db db'"
  by (auto simp: sideStep_def upToAudit_def sameConfig_def intro!: evolve_intros)

section \<open>Every operation is a step\<close>

lemma rows_update:
  assumes "recKeys db" "select1 (isLiveEntity tid i) (rd_instances db) = Some r0" "rowStep env D db tid r0 (f r0)"
  shows "evolves (rowStep env D db tid) (rowNew env db tid) (rd_instances db)
           (updateW (isEntity tid i) f (rd_instances db))"
proof (rule evolves_updateW)
  fix r assume r: "r \<in> set (rd_instances db)" and i: "isEntity tid i r"
  have "ei_id r0 = i" using assms(2) by (auto simp: isLiveEntity_def isEntity_def)
  then have "r = r0" using recKeys_entity [OF assms(1,2) r] i by (simp add: isEntity_def)
  then show "rowStep env D db tid r (f r)" using assms(3) by simp
qed simp

lemma keys_update: "recKeys db \<Longrightarrow> (\<And>r. ei_id (f r) = ei_id r) \<Longrightarrow>
  distinct (map ei_id (updateW P f (rd_instances db)))"
  by (simp add: recKeys_def map_updateW_same)

lemma writeEntity_Inr [result_simps]:
  "writeEntity tid i f db = Inr (row, db') \<longleftrightarrow>
     db' = db\<lparr>rd_instances := updateW (isEntity tid i) f (rd_instances db)\<rparr> \<and>
     select1 (isEntity tid i) (rd_instances db') = Some row"
  by (auto simp: writeEntity_def Let_def result_simps)

lemma liveEntity_Inr [result_simps]:
  "liveEntity db tid i = Inr r \<longleftrightarrow> select1 (isLiveEntity tid i) (rd_instances db) = Some r"
  by (auto simp: liveEntity_def result_simps)

lemma selected_live: "select1 (isLiveEntity tid i) t = Some r \<Longrightarrow> isLiveEntity tid (ei_id r) r \<and> ei_id r = i"
  by (auto simp: isLiveEntity_def isEntity_def)

text \<open>The two shapes of a write to the records.\<close>

lemma recStep_row:
  assumes keys: "recKeys db" and r0: "select1 (isLiveEntity tid i) (rd_instances db) = Some r0"
    and step: "rowStep env D db tid r0 (f r0)" and ids: "\<And>r. ei_id (f r) = ei_id r"
    and side: "sideStep tid (db\<lparr>rd_instances := updateW (isEntity tid i) f (rd_instances db)\<rparr>) db'"
  shows "recStep env D db tid db'"
  using rows_update [OF keys r0, where f = f, OF step] keys_update [OF keys ids] keys
  by (intro recStep_side [OF recStepI side]) (auto simp: recKeys_def intro!: evolve_intros)

lemma recStep_insert:
  assumes keys: "recKeys db" and t: "insertAll rows (rd_instances db) = Inr t"
    and new: "list_all (rowNew env db tid) rows" and side: "sideStep tid (db\<lparr>rd_instances := t\<rparr>) db'"
  shows "recStep env D db tid db'"
  using insertAll_Inr [OF t] insertAll_keys [OF t] keys new
  by (intro recStep_side [OF recStepI side]) (auto simp: recKeys_def intro!: evolve_intros)

lemma recStep_sideI: "recKeys db \<Longrightarrow> sideStep tid db db' \<Longrightarrow> recStep env D db tid db'"
  by (rule recStep_side [OF recStepI]) (auto intro!: evolve_intros)

lemma createOutbox_tenant [simp]: "list_all (\<lambda>r. ob_tenantId r = tid) (createOutbox env k tid a d row f)"
  by (auto simp: createOutbox_def split: option.splits)

lemma recordCreated_side [side_intros]:
  "sideStep tid d0 db \<Longrightarrow> sideStep tid d0 (recordCreated env tid input fs row db)"
  unfolding recordCreated_def Let_def
  by (rule sideStep_outbox) (auto simp: createEvent_def split: option.split intro!: side_intros)

lemma createEntity_inv:
  assumes "createEntity env db tid input = Inr (row, db')"
  obtains ty fs flds0 flds state due t where "createChecks env db tid input = Inr (ty, fs, flds0)"
    "placeRecord env db tid input (ci_severity input) flds0 = Inr flds" "toDueColumn env (ci_dueDate input) = Inr due"
    "row = newEntityRow env 0 tid input (ci_severity input) state flds due" "insertKeyed ei_id row (rd_instances db) = Inr t"
    "fireEntityAuditHook env (createAudit tid input ty fs row)
       (recordCreated env tid input fs row (db\<lparr>rd_instances := t\<rparr>)) = Inr db'"
  using assms by (auto simp: createEntity_def Let_def bindE_eq_Inr)

lemma createEntity_step:
  assumes run: "createEntity env db tid input = Inr (row, db')" and keys: "recKeys db"
  shows "recStep env {} db tid db'"
proof -
  obtain ty fs flds0 flds state due t where c: "createChecks env db tid input = Inr (ty, fs, flds0)"
    and p: "placeRecord env db tid input (ci_severity input) flds0 = Inr flds"
    and due: "toDueColumn env (ci_dueDate input) = Inr due"
    and row: "row = newEntityRow env 0 tid input (ci_severity input) state flds due"
    and t: "insertKeyed ei_id row (rd_instances db) = Inr t"
    and db': "fireEntityAuditHook env (createAudit tid input ty fs row)
       (recordCreated env tid input fs row (db\<lparr>rd_instances := t\<rparr>)) = Inr db'"
    by (rule createEntity_inv [OF run])
  obtain data where "validateReservedFieldNames (ci_fields input) = Inr ()"
    and "parseFor env db (ci_entityTypeId input) tid ModeCreate (ci_fields input) = Inr data"
    and "flds0 = applyFormulaFields env (loadEntityFields db (ci_entityTypeId input) tid) data"
    using c by (auto simp: createChecks_def result_simps Let_def)
  then have "rowNew env db tid row" unfolding row using p due by (blast intro: rn_create)
  then show ?thesis
    using t sideStep_trans [OF recordCreated_side [OF sideStep_refl] sideStep_audit [OF fire_upToAudit [OF db']]]
    by (intro recStep_insert [OF keys, of "[row]"]) (auto simp: bindE_eq_Inr)
qed

lemma assignmentRows_tenant [simp]: "list_all (\<lambda>r. ob_tenantId r = tid) (assignmentRows env k tid a d r r')"
  by (auto simp: assignmentRows_def split: option.splits)

lemma editEffects_side [side_intros]:
  "sideStep tid d0 db \<Longrightarrow> sideStep tid d0 (editEffects env tid input r row db)"
  by (auto simp: editEffects_def Let_def intro!: side_intros)

lemma logUpdate_side [side_intros]:
  "sideStep tid d0 db \<Longrightarrow> sideStep tid d0 (logUpdate env tid i input r row w c db)"
  by (auto simp: logUpdate_def updateEvent_def intro!: side_intros)

lemma announceUpdate_side [side_intros]:
  "sideStep tid d0 db \<Longrightarrow> sideStep tid d0 (announceUpdate env tid i input r c db)"
  by (auto simp: announceUpdate_def intro!: side_intros)

lemma recordFieldUpdate_side [side_intros]:
  "sideStep tid d0 db \<Longrightarrow> sideStep tid d0 (recordFieldUpdate env tid i input r row fs db)"
  by (auto simp: recordFieldUpdate_def Let_def split: option.split intro!: side_intros)

lemma recordColumnUpdate_side [side_intros]:
  "sideStep tid d0 db \<Longrightarrow> sideStep tid d0 (recordColumnUpdate env tid i input r row db)"
  by (auto simp: recordColumnUpdate_def split: option.split intro!: side_intros)

lemma editState_ok:
  assumes "editState db tid i r child c = Inr state" "ei_id r = i" "child = (getParentId db tid i \<noteq> None)"
  shows "case state of None \<Rightarrow> True | Some s \<Rightarrow> stateOk db tid r s"
  using assms checkStateWrite_iff [of db tid i _ r]
  by (auto simp: editState_def result_simps split: option.splits)

lemma recStep_edit:
  assumes keys: "recKeys db" and r0: "select1 (isLiveEntity tid i) (rd_instances db) = Some r0"
    and e: "editOk env db tid r0 e"
    and side: "sideStep tid (db\<lparr>rd_instances := updateW (isEntity tid i) (applyEdit env e) (rd_instances db)\<rparr>) db'"
  shows "recStep env {} db tid db'"
proof -
  have "rowStep env {} db tid r0 (fold (applyEdit env) [e] r0)"
    using e selected_live [OF r0] by (intro rs_edit) auto
  then show ?thesis using side by (intro recStep_row [OF keys r0]) (simp_all add: applyEdit_def)
qed

lemma updateWithFields_inv:
  assumes "updateWithFields env db tid i r0 input provided = Inr (row, db')"
  obtains ty fs flds state due db1 where
    "editedFields env db tid r0 (getParentId db tid i \<noteq> None) provided = Inr (ty, fs, flds)"
    "checkEditKeepsMandatoryValues env r0 (objGet flds ''title'') (map_option (nextDue env) (ui_dueDate input)) = Inr ()"
    "editState db tid i r0 (getParentId db tid i \<noteq> None) (ui_currentState input) = Inr state"
    "editColumn env (ui_dueDate input) = Inr due"
    "db1 = db\<lparr>rd_instances := updateW (isEntity tid i) (applyEdit env \<lparr>ed_fields = Some flds,
         ed_assignedTo = ui_assignedTo input, ed_dueDate = due, ed_currentState = state\<rparr>) (rd_instances db)\<rparr>"
    "select1 (isEntity tid i) (rd_instances db1) = Some row"
    "fireEntityAuditHook env (updateAudit tid i input ty fs r0 row)
      (recordFieldUpdate env tid i input r0 row fs (editEffects env tid input r0 row db1)) = Inr db'"
proof -
  define child where "child = (getParentId db tid i \<noteq> None)"
  show thesis
    using assms that unfolding updateWithFields_def Let_def bindE_eq_Inr child_def [symmetric]
    by (auto simp: bindE_eq_Inr writeEntity_Inr)
qed

lemma updateWithFields_step:
  assumes run: "updateWithFields env db tid i r0 input provided = Inr (row, db')"
    and keys: "recKeys db" and r0: "select1 (isLiveEntity tid i) (rd_instances db) = Some r0"
  shows "recStep env {} db tid db'"
proof -
  have i: "ei_id r0 = i" using r0 selected_live by blast
  obtain ty fs flds state due db1 where flds: "editedFields env db tid r0 (getParentId db tid i \<noteq> None) provided = Inr (ty, fs, flds)"
    and m: "checkEditKeepsMandatoryValues env r0 (objGet flds ''title'') (map_option (nextDue env) (ui_dueDate input)) = Inr ()"
    and state: "editState db tid i r0 (getParentId db tid i \<noteq> None) (ui_currentState input) = Inr state"
    and due: "editColumn env (ui_dueDate input) = Inr due"
    and db1: "db1 = db\<lparr>rd_instances := updateW (isEntity tid i) (applyEdit env \<lparr>ed_fields = Some flds,
         ed_assignedTo = ui_assignedTo input, ed_dueDate = due, ed_currentState = state\<rparr>) (rd_instances db)\<rparr>"
    and audit: "fireEntityAuditHook env (updateAudit tid i input ty fs r0 row)
      (recordFieldUpdate env tid i input r0 row fs (editEffects env tid input r0 row db1)) = Inr db'"
    by (rule updateWithFields_inv [OF run])
  have side: "sideStep tid db1 (recordFieldUpdate env tid i input r0 row fs (editEffects env tid input r0 row db1))"
    by (intro side_intros)
  have "editOk env db tid r0 \<lparr>ed_fields = Some flds, ed_assignedTo = ui_assignedTo input, ed_dueDate = due,
      ed_currentState = state\<rparr>"
    unfolding editOk_def keepsMandatory_def validEdit_def
    using flds m due editState_ok [OF state i refl] i by auto
  then show ?thesis
    using sideStep_trans [OF side sideStep_audit [OF fire_upToAudit [OF audit]]] unfolding db1
    by (rule recStep_edit [OF keys r0])
qed

lemma updateColumns_inv:
  assumes "updateColumns env db tid i r0 input = Inr (row, db')"
  obtains state due db1 where
    "checkEditKeepsMandatoryValues env r0 (objGet (ei_fields r0) ''title'') (map_option (nextDue env) (ui_dueDate input)) = Inr ()"
    "editState db tid i r0 (getParentId db tid i \<noteq> None) (ui_currentState input) = Inr state"
    "editColumn env (ui_dueDate input) = Inr due"
    "db1 = db\<lparr>rd_instances := updateW (isEntity tid i) (applyEdit env \<lparr>ed_fields = None,
         ed_assignedTo = ui_assignedTo input, ed_dueDate = due, ed_currentState = state\<rparr>) (rd_instances db)\<rparr>"
    "select1 (isEntity tid i) (rd_instances db1) = Some row"
    "db' = recordColumnUpdate env tid i input r0 row (editEffects env tid input r0 row db1)"
  using assms unfolding updateColumns_def Let_def bindE_eq_Inr by (auto simp: bindE_eq_Inr writeEntity_Inr)

lemma updateColumns_step:
  assumes run: "updateColumns env db tid i r0 input = Inr (row, db')"
    and keys: "recKeys db" and r0: "select1 (isLiveEntity tid i) (rd_instances db) = Some r0"
  shows "recStep env {} db tid db'"
proof -
  have i: "ei_id r0 = i" using r0 selected_live by blast
  obtain state due db1 where
    m: "checkEditKeepsMandatoryValues env r0 (objGet (ei_fields r0) ''title'') (map_option (nextDue env) (ui_dueDate input)) = Inr ()"
    and state: "editState db tid i r0 (getParentId db tid i \<noteq> None) (ui_currentState input) = Inr state"
    and due: "editColumn env (ui_dueDate input) = Inr due"
    and db1: "db1 = db\<lparr>rd_instances := updateW (isEntity tid i) (applyEdit env \<lparr>ed_fields = None,
         ed_assignedTo = ui_assignedTo input, ed_dueDate = due, ed_currentState = state\<rparr>) (rd_instances db)\<rparr>"
    and db': "db' = recordColumnUpdate env tid i input r0 row (editEffects env tid input r0 row db1)"
    by (rule updateColumns_inv [OF run])
  have "editOk env db tid r0 \<lparr>ed_fields = None, ed_assignedTo = ui_assignedTo input, ed_dueDate = due,
      ed_currentState = state\<rparr>"
    unfolding editOk_def keepsMandatory_def using m due editState_ok [OF state i refl] by auto
  then show ?thesis unfolding db' db1 by (rule recStep_edit [OF keys r0]) (intro side_intros)
qed

lemma updateEntity_step:
  assumes "updateEntity env db tid i input = Inr (row, db')" "recKeys db"
  shows "recStep env {} db tid db'"
  using assms unfolding updateEntity_def
  by (auto simp: result_simps split: option.splits if_splits
      intro: updateWithFields_step updateColumns_step recStep_sideI [OF _ sideStep_refl])

lemma setSeverity_step:
  assumes "setEntityInstanceSeverity env db tid i sev = Inr (x, db')" "recKeys db"
  shows "recStep env {} db tid db'"
proof -
  obtain r0 where r0: "select1 (isLiveEntity tid i) (rd_instances db) = Some r0"
    and db': "db' = db\<lparr>rd_instances := updateW (isEntity tid i)
      (\<lambda>r. r\<lparr>ri_severity := Some sev, ei_updatedAt := re_updatedAt env\<rparr>) (rd_instances db)\<rparr>"
    using assms(1) by (auto simp: setEntityInstanceSeverity_def result_simps)
  show ?thesis
    unfolding db' using selected_live [OF r0]
    by (intro recStep_row [OF assms(2) r0 _ _ sideStep_refl] rs_severity) auto
qed

definition directSetSide :: "rec_env \<Rightarrow> string \<Rightarrow> string option \<Rightarrow> entity_row \<Rightarrow> string \<Rightarrow> rec_db \<Rightarrow> rec_db" where
  "directSetSide env tid a r0 s db1 =
     (case truthyId (ei_workflowId r0) of None \<Rightarrow> db1
      | Some w \<Rightarrow> if ei_currentState r0 = s then db1
          else db1\<lparr>rd_events := rd_events db1 @ [directSetEvent env 0 tid a r0 w s],
                   rd_outbox := rd_outbox db1 @ [outboxRow env 0 tid ''workflow.transitioned'' (directSetPayload env tid a r0 w s)]\<rparr>)"

lemma setEntityState_inv:
  assumes "setEntityState env db tid i s a = Inr (row, db')"
  obtains r0 p where "select1 (isLiveEntity tid i) (rd_instances db) = Some r0"
    "checkStateWrite db tid i ''state'' r0 (getParentId db tid i \<noteq> None) s = Inr ()"
    "fireEntityAuditHook env p (directSetSide env tid a r0 s (db\<lparr>rd_instances := updateW (isEntity tid i)
      (\<lambda>r. r\<lparr>ei_currentState := s, ei_updatedAt := re_updatedAt env\<rparr>) (rd_instances db)\<rparr>)) = Inr db'"
  using assms unfolding setEntityState_def directSetSide_def Let_def bindE_eq_Inr
  by (auto simp: bindE_eq_Inr writeEntity_Inr liveEntity_Inr)

lemma setEntityState_step:
  assumes run: "setEntityState env db tid i s a = Inr (row, db')" and keys: "recKeys db"
  shows "recStep env {} db tid db'"
proof -
  define db1 where "db1 = db\<lparr>rd_instances := updateW (isEntity tid i)
      (\<lambda>r. r\<lparr>ei_currentState := s, ei_updatedAt := re_updatedAt env\<rparr>) (rd_instances db)\<rparr>"
  obtain r0 p where r0: "select1 (isLiveEntity tid i) (rd_instances db) = Some r0"
    and ok: "checkStateWrite db tid i ''state'' r0 (getParentId db tid i \<noteq> None) s = Inr ()"
    and audit: "fireEntityAuditHook env p (directSetSide env tid a r0 s db1) = Inr db'"
    using setEntityState_inv [OF run] unfolding db1_def by blast
  have "sideStep tid db1 (db1\<lparr>rd_events := rd_events db1 @ es, rd_outbox := rd_outbox db1 @ os\<rparr>)"
    if "list_all (\<lambda>e. we_tenantId e = tid) es" "list_all (\<lambda>r. ob_tenantId r = tid) os" for es os
    using that by (auto simp: sideStep_def intro!: evolve_intros)
  then have "sideStep tid db1 (directSetSide env tid a r0 s db1)"
    by (auto simp: directSetSide_def directSetEvent_def split: option.split intro!: sideStep_refl)
  then have "sideStep tid db1 db'" using sideStep_audit [OF fire_upToAudit [OF audit]] by (rule sideStep_trans)
  moreover have "rowStep env {} db tid r0 (r0\<lparr>ei_currentState := s, ei_updatedAt := re_updatedAt env\<rparr>)"
    using selected_live [OF r0] ok checkStateWrite_iff [of db tid i _ r0 s] by (intro rs_state) auto
  ultimately show ?thesis unfolding db1_def by (intro recStep_row [OF keys r0]) auto
qed

lemma deleteEntity_inv:
  assumes "deleteEntity env db tid i a = Inr (x, db')"
  obtains r0 db1 p where "select1 (isLiveEntity tid i) (rd_instances db) = Some r0"
    "db1 = db\<lparr>rd_instances := updateW (isLiveEntity tid i)
        (\<lambda>r. r\<lparr>ri_deletedAt := Some (re_updatedAt env)\<rparr>) (rd_instances db)\<rparr>"
    "fireEntityAuditHook env p (if ri_dueDate r0 \<noteq> None
        then rescheduleDueDate env 0 tid (ei_id r0) (ei_entityTypeId r0) (ri_dueDate r0) None db1 else db1) = Inr db'"
  using assms unfolding deleteEntity_def Let_def bindE_eq_Inr liveEntity_Inr by (auto simp: bindE_eq_Inr cong: if_cong)

lemma deleteEntity_step:
  assumes run: "deleteEntity env db tid i a = Inr (x, db')" and keys: "recKeys db"
  shows "recStep env {} db tid db'"
proof -
  obtain r0 db1 p where r0: "select1 (isLiveEntity tid i) (rd_instances db) = Some r0"
    and db1: "db1 = db\<lparr>rd_instances := updateW (isLiveEntity tid i)
        (\<lambda>r. r\<lparr>ri_deletedAt := Some (re_updatedAt env)\<rparr>) (rd_instances db)\<rparr>"
    and audit: "fireEntityAuditHook env p (if ri_dueDate r0 \<noteq> None
        then rescheduleDueDate env 0 tid (ei_id r0) (ei_entityTypeId r0) (ri_dueDate r0) None db1 else db1) = Inr db'"
    by (rule deleteEntity_inv [OF run])
  have "recStep env {} db tid db1"
    unfolding db1 using keys
    by (intro recStepI) (auto simp: recKeys_def map_updateW_same intro!: evolve_intros rs_delete simp: isLiveEntity_def isEntity_def)
  moreover have "sideStep tid db1 db'"
    by (rule sideStep_trans [OF _ sideStep_audit [OF fire_upToAudit [OF audit]]]) (auto intro!: side_intros)
  ultimately show ?thesis by (rule recStep_side)
qed

lemma addTag_step:
  assumes "addEntityInstanceTag env db tid i text u = Inr (x, db')" "recKeys db"
  shows "recStep env {} db tid db'"
  using assms
  by (intro recStepI) (auto simp: addEntityInstanceTag_def Let_def result_simps recKeys_def insertRow_def intro!: evolve_intros)

lemma removeTag_step:
  assumes "removeEntityInstanceTag db tid i t u ov = Inr (x, db')" "recKeys db"
  shows "recStep env {} db tid db'"
  using assms
  by (intro recStepI)
    (auto simp: removeEntityInstanceTag_def result_simps recKeys_def intro!: evolve_intros filter_deleteW_other)

section \<open>Bulk operations\<close>

lemma bulkCreateItem_new:
  assumes "bulkCreateItem env db tid k input = Inr n"
  shows "rowNew env db tid (bn_row n)"
proof -
  obtain data flds due where 1: "validateReservedFieldNames (ci_fields input) = Inr ()"
    "parseFor env db (ci_entityTypeId input) tid ModeCreate (ci_fields input) = Inr data"
    "placeRecord env db tid input (Some (dflt DEFAULT_TICKET_SEVERITY (ci_severity input)))
       (applyFormulaFields env (loadEntityFields db (ci_entityTypeId input) tid) data) = Inr flds"
    "toDueColumn env (ci_dueDate input) = Inr due"
    and n: "bn_row n = newEntityRow env k tid
       (input\<lparr>ci_originMechanism := None, ci_originOidcClientId := None, ci_originPerformerUserId := None\<rparr>)
       (Some (dflt DEFAULT_TICKET_SEVERITY (ci_severity input)))
       (resolveInitialState db tid (ci_workflowId input)) flds due"
    using assms unfolding bulkCreateItem_def Let_def by (auto simp: bindE_eq_Inr)
  show ?thesis unfolding n by (rule rn_create [OF 1]) simp
qed

lemma bulkCreateItems_new:
  "bulkCreateItems env db tid k inputs = Inr (errors, news) \<Longrightarrow> list_all (\<lambda>n. rowNew env db tid (bn_row n)) news"
proof (induction inputs arbitrary: k errors news)
  case (Cons input inputs)
  obtain outcome errors1 news1 where o: "softly (bulkCreateItem env db tid k input) = Inr outcome"
    and rest: "bulkCreateItems env db tid (k + 1) inputs = Inr (errors1, news1)"
    and res: "(case outcome of Inl es \<Rightarrow> ((k, es) # errors1, news1) | Inr n \<Rightarrow> (errors1, n # news1)) = (errors, news)"
    using Cons.prems by (auto simp: bindE_eq_Inr)
  show ?case
    using Cons.IH [OF rest] o res bulkCreateItem_new [of env db tid k input]
    by (cases outcome) (auto simp: softly_Inr_Inr)
qed simp

lemma scheduleAll_side [side_intros]:
  "sideStep tid d0 db \<Longrightarrow> sideStep tid d0 (fold (scheduleNew env tid) ps db)"
  by (induction ps arbitrary: db) (auto simp: scheduleNew_def Let_def intro!: side_intros)

definition bulkInserted :: "rec_env \<Rightarrow> string \<Rightarrow> bulk_new list \<Rightarrow> entity_row list \<Rightarrow> rec_db \<Rightarrow> rec_db" where
  "bulkInserted env tid news rows db = db\<lparr>rd_instances := rows, rd_outbox := rd_outbox db @
     concat (map (\<lambda>(idx, n). bulkCreatedRows env tid idx n) (zip [0..<length news] news))\<rparr>"

lemma bulkCreate_inv:
  assumes "bulkCreateEntities env db tid inputs = Inr (x, db')"
  obtains errors news where "bulkCreateItems env db tid 0 inputs = Inr (errors, news)" "news = []" "db' = db"
  | errors news rows where "bulkCreateItems env db tid 0 inputs = Inr (errors, news)"
      "insertAll (map bn_row news) (rd_instances db) = Inr rows"
      "fireAll env (map (bulkCreateAudit tid) news)
         (fold (scheduleNew env tid) (zip [0..<length news] news) (bulkInserted env tid news rows db)) = Inr db'"
  using assms unfolding bulkCreateEntities_def bulkInserted_def Let_def by (auto simp: bindE_eq_Inr split: if_splits)

lemma bulkInserted_side [side_intros]: "sideStep tid (db\<lparr>rd_instances := rows\<rparr>) (bulkInserted env tid news rows db)"
proof -
  have "list_all (\<lambda>r. ob_tenantId r = tid) (concat (map (\<lambda>(idx, n). bulkCreatedRows env tid idx n) ps))" for ps
    by (induction ps) (auto simp: bulkCreatedRows_def)
  from sideStep_outbox [OF sideStep_refl this, of "db\<lparr>rd_instances := rows\<rparr>"]
  show ?thesis by (simp add: bulkInserted_def)
qed

lemma bulkCreate_step:
  assumes run: "bulkCreateEntities env db tid inputs = Inr (x, db')" and keys: "recKeys db"
  shows "recStep env {} db tid db'"
  using run
proof (cases rule: bulkCreate_inv)
  case (1 errors news)
  then show ?thesis using keys by (auto intro: recStep_sideI sideStep_refl)
next
  case (2 errors news rows)
  have "sideStep tid (db\<lparr>rd_instances := rows\<rparr>)
      (fold (scheduleNew env tid) (zip [0..<length news] news) (bulkInserted env tid news rows db))"
    by (intro side_intros)
  from sideStep_trans [OF this sideStep_audit [OF fireAll_upToAudit [OF 2(3)]]]
  show ?thesis
    using bulkCreateItems_new [OF 2(1)]
    by (intro recStep_insert [OF keys 2(2)]) (simp_all add: list.pred_map comp_def)
qed

text \<open>
  The items of a bulk update are checked against the records as they were before the call, so a record
  named twice is edited twice: each edit is valid for the record it started from.
\<close>

definition editsOf :: "rec_env \<Rightarrow> rec_db \<Rightarrow> string \<Rightarrow> entity_row \<Rightarrow> entity_row \<Rightarrow> bool" where
  "editsOf env db tid r r' =
     (r' = r \<or> (\<exists>es. isLiveEntity tid (ei_id r) r \<and> (\<forall>e \<in> set es. editOk env db tid r e) \<and> r' = fold (applyEdit env) es r))"

definition bulkStep :: "rec_env \<Rightarrow> rec_db \<Rightarrow> string \<Rightarrow> rec_db \<Rightarrow> bool" where
  "bulkStep env db tid db' =
     (list_all2 (editsOf env db tid) (rd_instances db) (rd_instances db') \<and>
      sideStep tid (db\<lparr>rd_instances := rd_instances db'\<rparr>) db')"

lemma applyEdit_sel [simp]:
  "ei_id (applyEdit env e r) = ei_id r" "ei_tenantId (applyEdit env e r) = ei_tenantId r"
  "ri_deletedAt (applyEdit env e r) = ri_deletedAt r" "ei_workflowId (applyEdit env e r) = ei_workflowId r"
  by (simp_all add: applyEdit_def)

lemma editsOf_ids: "editsOf env db tid r r' \<Longrightarrow> ei_id r' = ei_id r \<and> ei_tenantId r' = ei_tenantId r"
proof -
  have "ei_id (fold (applyEdit env) es r) = ei_id r \<and> ei_tenantId (fold (applyEdit env) es r) = ei_tenantId r" for es
    by (induction es arbitrary: r) auto
  then show "editsOf env db tid r r' \<Longrightarrow> ?thesis" by (auto simp: editsOf_def)
qed

lemma editsOf_more:
  assumes "editsOf env db tid r r'" "isLiveEntity tid (ei_id r) r" "editOk env db tid r e"
  shows "editsOf env db tid r (applyEdit env e r')"
proof -
  obtain es where "\<forall>e \<in> set es. editOk env db tid r e" "r' = fold (applyEdit env) es r"
    using assms(1) by (metis editsOf_def empty_iff empty_set fold_simps(1))
  then show ?thesis unfolding editsOf_def using assms(2,3) by (intro disjI2 exI [of _ "es @ [e]"]) auto
qed

lemma bulkWrite_step:
  assumes run: "bulkWrite env k tid i r0 input e meta db = Inr (row, rows, db')"
    and keys: "recKeys snap" and r0: "select1 (isLiveEntity tid i) (rd_instances snap) = Some r0"
    and e: "editOk env snap tid r0 e" and step: "bulkStep env snap tid db"
  shows "bulkStep env snap tid db' \<and> list_all (\<lambda>r. ob_tenantId r = tid) rows"
proof -
  define t where "t = updateW (isEntity tid i) (applyEdit env e) (rd_instances db)"
  have side: "sideStep tid (db\<lparr>rd_instances := t\<rparr>) db'"
    using run unfolding bulkWrite_def Let_def t_def [symmetric]
    by (auto simp: bindE_eq_Inr split: option.splits if_splits
        intro!: side_intros intro: sideStep_trans sideStep_audit [OF fire_upToAudit])
  have "list_all2 (editsOf env snap tid) (rd_instances snap) t"
    unfolding t_def updateW_def list_all2_map2
  proof (rule list.rel_mono_strong)
    show "list_all2 (editsOf env snap tid) (rd_instances snap) (rd_instances db)" using step by (simp add: bulkStep_def)
    fix r r' assume r: "r \<in> set (rd_instances snap)" and rr: "editsOf env snap tid r r'"
    have "r = r0" if "isEntity tid i r'"
      using that editsOf_ids [OF rr] selected_live [OF r0] by (intro recKeys_entity [OF keys r0 r]) (simp add: isEntity_def)
    then show "editsOf env snap tid r (if isEntity tid i r' then applyEdit env e r' else r')"
      using rr editsOf_more [OF rr] e selected_live [OF r0] by auto
  qed
  moreover have "rd_instances db' = t" using side by (simp add: sideStep_def)
  moreover have "sideStep tid (snap\<lparr>rd_instances := t\<rparr>) (db\<lparr>rd_instances := t\<rparr>)"
    using step by (simp add: bulkStep_def sideStep_def sameConfig_def)
  ultimately have "bulkStep env snap tid db'"
    unfolding bulkStep_def using sideStep_trans [OF _ side] by simp
  moreover have "list_all (\<lambda>r. ob_tenantId r = tid) rows"
    using run unfolding bulkWrite_def Let_def by (auto simp: bindE_eq_Inr split: option.splits)
  ultimately show ?thesis ..
qed

lemma sameConfig_reads:
  assumes "sameConfig a b"
  shows "loadEntityFields b = loadEntityFields a" "loadEntityType b = loadEntityType a" "parseFor env b = parseFor env a"
proof -
  show 1: "loadEntityFields b = loadEntityFields a" "loadEntityType b = loadEntityType a"
    using assms by (auto simp: fun_eq_iff loadEntityFields_def loadEntityType_def sameConfig_def)
  show "parseFor env b = parseFor env a"
    unfolding fun_eq_iff parseFor_def getValidationSchema_def 1 by simp
qed

lemma bulkUpdateItem_step:
  assumes run: "bulkUpdateItem env k tid i r0 input db = Inr (row, rows, db')"
    and keys: "recKeys snap" and r0: "select1 (isLiveEntity tid i) (rd_instances snap) = Some r0"
    and step: "bulkStep env snap tid db"
  shows "bulkStep env snap tid db' \<and> list_all (\<lambda>r. ob_tenantId r = tid) rows"
proof -
  have config: "sameConfig snap db" using step by (simp add: bulkStep_def sideStep_def sameConfig_def)
  have ctx: "bulkEditedFields env db tid r0 p = bulkEditedFields env snap tid r0 p" for p
    by (simp add: bulkEditedFields_def sameConfig_reads [OF config])
  show ?thesis
  proof (cases "ui_fields input")
    case (Some provided)
    then obtain ty fs flds due where "bulkEditedFields env snap tid r0 provided = Inr (ty, fs, flds)"
      "checkEditKeepsMandatoryValues env r0 (objGet flds ''title'') (map_option (nextDue env) (ui_dueDate input)) = Inr ()"
      "editColumn env (ui_dueDate input) = Inr due"
      and w: "bulkWrite env k tid i r0 input \<lparr>ed_fields = Some flds, ed_assignedTo = ui_assignedTo input, ed_dueDate = due,
        ed_currentState = None\<rparr> (\<lambda>_. Inr (ty, fs)) db = Inr (row, rows, db')"
      using run by (auto simp: bulkUpdateItem_def ctx bindE_eq_Inr)
    then have "editOk env snap tid r0 \<lparr>ed_fields = Some flds, ed_assignedTo = ui_assignedTo input, ed_dueDate = due,
        ed_currentState = None\<rparr>"
      unfolding editOk_def keepsMandatory_def validEdit_def by auto
    then show ?thesis by (rule bulkWrite_step [OF w keys r0 _ step])
  next
    case None
    then consider (columns) due meta where
      "checkEditKeepsMandatoryValues env r0 (objGet (ei_fields r0) ''title'') (map_option (nextDue env) (ui_dueDate input)) = Inr ()"
      "editColumn env (ui_dueDate input) = Inr due"
      "bulkWrite env k tid i r0 input \<lparr>ed_fields = None, ed_assignedTo = ui_assignedTo input, ed_dueDate = due,
        ed_currentState = None\<rparr> meta db = Inr (row, rows, db')"
      | (nothing) "rows = []" "db' = db"
      using run by (auto simp: bulkUpdateItem_def bindE_eq_Inr split: if_splits)
    then show ?thesis
    proof cases
      case columns
      then have "editOk env snap tid r0 \<lparr>ed_fields = None, ed_assignedTo = ui_assignedTo input, ed_dueDate = due,
          ed_currentState = None\<rparr>"
        unfolding editOk_def keepsMandatory_def by auto
      then show ?thesis by (rule bulkWrite_step [OF columns(3) keys r0 _ step])
    qed (use step in simp)
  qed
qed

lemma bulkUpdateItems_step:
  assumes "bulkUpdateItems env snap tid k items db = Inr (res, rows, db')" "recKeys snap" "bulkStep env snap tid db"
  shows "bulkStep env snap tid db' \<and> list_all (\<lambda>r. ob_tenantId r = tid) rows"
  using assms
proof (induction items arbitrary: k db res rows)
  case (Cons item items)
  obtain i input where item: "item = (i, input)" by (cases item)
  show ?case
  proof (cases "select1 (isLiveEntity tid i) (rd_instances snap)")
    case None
    then show ?thesis using Cons by (auto simp: item bindE_eq_Inr)
  next
    case (Some r0)
    with Cons.prems(1) obtain outcome where o: "softly (bulkUpdateItem env k tid i r0 input db) = Inr outcome"
      by (auto simp: item bindE_eq_Inr)
    with Some Cons.prems(1) consider (bad) res1 where "bulkUpdateItems env snap tid (k + 1) items db = Inr (res1, rows, db')"
      | (good) row rows0 db0 res1 rows1 where "bulkUpdateItem env k tid i r0 input db = Inr (row, rows0, db0)"
        "bulkUpdateItems env snap tid (k + 1) items db0 = Inr (res1, rows1, db')" "rows = rows0 @ rows1"
      by (cases outcome) (auto simp: item bindE_eq_Inr softly_Inr_Inr)
    then show ?thesis
    proof cases
      case bad
      then show ?thesis using Cons by blast
    next
      case good
      with bulkUpdateItem_step [OF good(1) Cons.prems(2) Some Cons.prems(3)] Cons.IH [OF good(2) Cons.prems(2)]
      show ?thesis by simp
    qed
  qed
qed simp

lemma bulkUpdate_step:
  assumes run: "bulkUpdateEntities env db tid items = Inr (x, db')" and keys: "recKeys db"
  shows "recStep env {} db tid db'"
proof -
  obtain rows db1 where 1: "bulkUpdateItems env db tid 0 items db = Inr (x, rows, db1)"
    and db': "db' = db1\<lparr>rd_outbox := rd_outbox db1 @ rows\<rparr>"
    using run by (auto simp: bulkUpdateEntities_def bindE_eq_Inr)
  have "bulkStep env db tid db"
    by (auto simp: bulkStep_def editsOf_def intro: list.rel_refl sideStep_refl)
  note step = bulkUpdateItems_step [OF 1 keys this]
  have ids: "map ei_id (rd_instances db1) = map ei_id (rd_instances db)"
    using step editsOf_ids
    by (intro nth_equalityI) (auto simp: bulkStep_def list_all2_conv_all_nth)
  have "evolves (rowStep env {} db tid) (rowNew env db tid) (rd_instances db) (rd_instances db1)"
    unfolding evolves_def using step
    by (intro exI [of _ "rd_instances db1"] exI [of _ "[]"])
      (auto simp: bulkStep_def editsOf_def elim!: list_all2_mono intro: rs_edit)
  then have "recStep env {} db tid (db\<lparr>rd_instances := rd_instances db1\<rparr>)"
    using keys ids by (intro recStepI) (auto simp: recKeys_def intro!: evolve_intros)
  moreover have "sideStep tid (db\<lparr>rd_instances := rd_instances db1\<rparr>) db'"
    unfolding db' using step by (intro sideStep_outbox) (auto simp: bulkStep_def)
  ultimately show ?thesis by (rule recStep_side)
qed

lemma writeStates_rows:
  assumes keys: "recKeys db"
    and ok: "\<And>s ids i. (s, ids) \<in> set groups \<Longrightarrow> i \<in> set ids \<Longrightarrow>
      \<exists>r. foundEntity db tid i = Some r \<and> stateOk db tid r s"
  shows "list_all2 (\<lambda>r r'. r' = r \<or> (isLiveEntity tid (ei_id r) r \<and>
             (\<exists>s. stateOk db tid r s \<and> r' = r\<lparr>ei_currentState := s, ei_updatedAt := re_updatedAt env\<rparr>)))
           (rd_instances db) (writeStates env tid groups (rd_instances db))"
  using ok
proof (induction groups rule: rev_induct)
  case (snoc g groups)
  obtain s ids where g: "g = (s, ids)" by (cases g)
  have before: "list_all2 (\<lambda>r r'. r' = r \<or> (isLiveEntity tid (ei_id r) r \<and>
             (\<exists>s. stateOk db tid r s \<and> r' = r\<lparr>ei_currentState := s, ei_updatedAt := re_updatedAt env\<rparr>)))
           (rd_instances db) (writeStates env tid groups (rd_instances db))"
    using snoc by auto
  have live: "isLiveEntity tid (ei_id r) r \<and> stateOk db tid r s" if r: "r \<in> set (rd_instances db)" "ei_id r \<in> set ids" for r
  proof -
    obtain r0 where r0: "select1 (isLiveEntity tid (ei_id r)) (rd_instances db) = Some r0" "stateOk db tid r0 s"
      using snoc.prems [of s ids "ei_id r"] r(2) by (auto simp: g foundEntity_def)
    then have "r = r0" using recKeys_entity [OF keys r0(1) r(1)] selected_live [OF r0(1)] by simp
    then show ?thesis using r0(2) selected_live [OF r0(1)] by simp
  qed
  have "writeStates env tid (groups @ [g]) (rd_instances db) = map (\<lambda>r. if ei_id r \<in> set ids \<and> ei_tenantId r = tid
      then r\<lparr>ei_currentState := s, ei_updatedAt := re_updatedAt env\<rparr> else r) (writeStates env tid groups (rd_instances db))"
    by (simp add: writeStates_def g updateW_def)
  then show ?case
    by (simp only: list_all2_map2) (rule list.rel_mono_strong [OF before], use live in \<open>auto intro: exI [of _ s]\<close>)
qed (simp add: writeStates_def list.rel_refl)

lemma byState_mem: "(s, ids) \<in> set (byState items) \<Longrightarrow> i \<in> set ids \<Longrightarrow> (i, s) \<in> set items"
  by (auto simp: byState_def)

lemma bulkSetState_inv:
  assumes "bulkSetState env db tid items a = Inr (x, db')"
  obtains "acceptedStates db tid items = []" "db' = db"
  | groups es os ps where "groups = byState (acceptedStates db tid items)"
      "list_all (\<lambda>e. we_tenantId e = tid) es" "list_all (\<lambda>r. ob_tenantId r = tid \<and> ob_eventType r = ''workflow.transitioned'') os"
      "fireAll env ps (db\<lparr>rd_instances := writeStates env tid groups (rd_instances db), rd_events := rd_events db @ es,
         rd_outbox := rd_outbox db @ os\<rparr>) = Inr db'"
proof (cases "acceptedStates db tid items = []")
  case True
  then have "db' = db" using assms by (simp add: bulkSetState_def Let_def)
  with True show thesis by (rule that(1))
next
  case False
  define groups where "groups = byState (acceptedStates db tid items)"
  define moves where "moves = zip [0..<length (stateMoves db tid groups)] (stateMoves db tid groups)"
  define es where "es = map (\<lambda>(k, prior, w, state). directSetEvent env k tid a prior w state) moves"
  define os where "os = map (\<lambda>(k, prior, w, state). outboxRow env k tid ''workflow.transitioned''
      (directSetPayload env tid a prior w state)) moves"
  obtain ps where "fireAll env ps (db\<lparr>rd_instances := writeStates env tid groups (rd_instances db),
      rd_events := rd_events db @ es, rd_outbox := rd_outbox db @ os\<rparr>) = Inr db'"
    using assms False
    unfolding bulkSetState_def Let_def groups_def [symmetric] moves_def [symmetric] es_def [symmetric] os_def [symmetric]
    by (auto simp: bindE_eq_Inr)
  moreover have "list_all (\<lambda>e. we_tenantId e = tid) es"
    "list_all (\<lambda>r. ob_tenantId r = tid \<and> ob_eventType r = ''workflow.transitioned'') os"
    by (auto simp: es_def os_def list_all_iff directSetEvent_def)
  ultimately show thesis using that(2) [OF groups_def] by simp
qed

lemma bulkSetState_step:
  assumes run: "bulkSetState env db tid items a = Inr (x, db')" and keys: "recKeys db"
  shows "recStep env {} db tid db'"
  using run
proof (cases rule: bulkSetState_inv)
  case 1
  then show ?thesis using keys by (auto intro: recStep_sideI sideStep_refl)
next
  case (2 groups es os ps)
  define t where "t = writeStates env tid groups (rd_instances db)"
  have "\<exists>r. foundEntity db tid i = Some r \<and> stateOk db tid r s" if "(s, ids) \<in> set groups" "i \<in> set ids" for s ids i
    using byState_mem [of s ids "acceptedStates db tid items" i] that
    by (auto simp: 2(1) acceptedStates_def stateRefusal_iff split: option.splits)
  from writeStates_rows [OF keys this, where env = env and groups = groups]
  have rows: "list_all2 (\<lambda>r r'. r' = r \<or> (isLiveEntity tid (ei_id r) r \<and>
      (\<exists>s. stateOk db tid r s \<and> r' = r\<lparr>ei_currentState := s, ei_updatedAt := re_updatedAt env\<rparr>))) (rd_instances db) t"
    by (simp add: t_def)
  then have "map ei_id t = map ei_id (rd_instances db)"
    by (induction rule: list_all2_induct) auto
  moreover have "evolves (rowStep env {} db tid) (rowNew env db tid) (rd_instances db) t"
    unfolding evolves_def using rows
    by (intro exI [of _ t] exI [of _ "[]"]) (auto elim!: list_all2_mono intro: rs_state)
  ultimately have "recStep env {} db tid (db\<lparr>rd_instances := t\<rparr>)"
    using keys by (intro recStepI) (auto simp: recKeys_def intro!: evolve_intros)
  moreover have "sideStep tid (db\<lparr>rd_instances := t\<rparr>)
      (db\<lparr>rd_instances := t, rd_events := rd_events db @ es, rd_outbox := rd_outbox db @ os\<rparr>)"
    using 2(2,3) by (auto simp: sideStep_def list_all_iff intro!: evolve_intros)
  ultimately show ?thesis
    using recStep_side sideStep_trans [OF _ sideStep_audit [OF fireAll_upToAudit [OF 2(4)]]] unfolding t_def by blast
qed

section \<open>Parents, children and links\<close>

lemma relationRow_sel [simp]:
  "er_tenantId (relationRow env k tid a b ty) = tid" "rl_id (relationRow env k tid a b ty) = re_relationId env k"
  "er_fromInstanceId (relationRow env k tid a b ty) = a" "er_toInstanceId (relationRow env k tid a b ty) = b"
  "er_relationType (relationRow env k tid a b ty) = ty" "er_deletedAt (relationRow env k tid a b ty) = None"
  by (simp_all add: relationRow_def)

lemma rels_trans:
  assumes "evolves (relStep tid) (\<lambda>r. er_tenantId r = tid) a b" "evolves (relStep tid) (\<lambda>r. er_tenantId r = tid) b c"
  shows "evolves (relStep tid) (\<lambda>r. er_tenantId r = tid) a c"
  using assms by (rule evolves_trans) (auto intro: relStep_trans simp: relStep_def)

lemma recStep_rels:
  assumes "recStep env D db tid db1" "evolves (relStep tid) (\<lambda>r. er_tenantId r = tid) (rd_relations db1) t"
    "distinct (map rl_id t)"
  shows "recStep env D db tid (db1\<lparr>rd_relations := t\<rparr>)"
  using assms unfolding recStep_def by (auto simp: recKeys_def intro: rels_trans)

lemma insertLink_step:
  assumes "insertLink env tid p c db1 = Inr (x, db2)" "recStep env D db tid db1"
  shows "recStep env D db tid db2"
proof -
  have t: "db2 = db1\<lparr>rd_relations := rd_relations db1 @ linkRows env tid p c\<rparr>"
    "distinct (map rl_id (rd_relations db1)) \<Longrightarrow> distinct (map rl_id (rd_relations db1 @ linkRows env tid p c))"
    using assms(1) by (auto simp: insertLink_def Let_def linkRows_def bindE_eq_Inr insertKeyed_Inr image_iff) metis+
  have "distinct (map rl_id (rd_relations db1))" using assms(2) by (simp add: recStep_def recKeys_def)
  note d = t(2) [OF this]
  show ?thesis unfolding t(1)
    by (rule recStep_rels [OF assms(2) _ d], rule evolves_append) (simp_all add: linkRows_def)
qed

definition childInserted ::
  "rec_env \<Rightarrow> string \<Rightarrow> CreateChildRelationInput \<Rightarrow> string \<Rightarrow> entity_row \<Rightarrow> entity_row list \<Rightarrow> rec_db \<Rightarrow> rec_db" where
  "childInserted env tid input w row t db = db\<lparr>rd_instances := t, rd_events := rd_events db @ [childEvent env tid input row w],
     rd_outbox := rd_outbox db @ createOutbox env 0 tid (cc_createdBy input) None row
       (redactFields (ei_fields row) (fieldSensitivityMap (loadEntityFields db (cc_entityTypeId input) tid)))\<rparr>"

lemma createChild_inv:
  assumes "createChildRelation env db tid input = Inr (x, db')"
  obtains parent w due row t links where "checkMandatoryFields env (childMandatory input) = Inr ()"
    "lockedParent db tid (cc_parentId input) = Inr parent" "validateReservedFieldNames (cc_childFields input) = Inr ()"
    "toDueColumn env (cc_dueDate input) = Inr due" "row = childRow env tid input parent w due"
    "insertKeyed ei_id row (rd_instances db) = Inr t"
    "insertLink env tid (cc_parentId input) (ei_id row) (childInserted env tid input w row t db) = Inr (links, db')"
  using assms unfolding createChildRelation_def childInserted_def Let_def by (auto simp: bindE_eq_Inr)

lemma createChild_step:
  assumes run: "createChildRelation env db tid input = Inr (x, db')" and keys: "recKeys db"
  shows "recStep env {} db tid db'"
proof -
  obtain parent w due row t links where new: "checkMandatoryFields env (childMandatory input) = Inr ()"
    "lockedParent db tid (cc_parentId input) = Inr parent" "validateReservedFieldNames (cc_childFields input) = Inr ()"
    "toDueColumn env (cc_dueDate input) = Inr due"
    and row: "row = childRow env tid input parent w due" and ins: "insertKeyed ei_id row (rd_instances db) = Inr t"
    and link: "insertLink env tid (cc_parentId input) (ei_id row) (childInserted env tid input w row t db) = Inr (links, db')"
    by (rule createChild_inv [OF run])
  have "rowNew env db tid row" unfolding row by (rule rn_child [OF new])
  then have "recStep env {} db tid (childInserted env tid input w row t db)"
    using ins by (intro recStep_insert [OF keys, of "[row]"])
      (auto simp: childInserted_def bindE_eq_Inr sideStep_def sameConfig_def childEvent_def intro!: evolve_intros)
  then show ?thesis by (rule insertLink_step [OF link])
qed

lemma rel_delete:
  "(\<And>r. r \<in> set t \<Longrightarrow> P r \<Longrightarrow> er_tenantId r = tid) \<Longrightarrow>
     evolves (relStep tid) (\<lambda>r. er_tenantId r = tid) t (updateW P (\<lambda>r. r\<lparr>er_deletedAt := d\<rparr>) t)"
  by (rule evolves_updateW) (auto simp: relStep_def)

lemma rel_ids: "map rl_id (updateW P (\<lambda>r. r\<lparr>er_deletedAt := d\<rparr>) t) = map rl_id t"
  by (simp add: map_updateW_same)

lemma lockedParent_Inr:
  "recKeys db \<Longrightarrow> lockedParent db tid i = Inr r \<Longrightarrow>
     select1 (isLiveEntity tid i) (rd_instances db) = Some r \<and> isLiveEntity tid i r \<and> r \<in> set (rd_instances db)"
proof -
  assume keys: "recKeys db" and "lockedParent db tid i = Inr r"
  then have r: "select1 (isEntity tid i) (rd_instances db) = Some r" "ri_deletedAt r = None"
    by (auto simp: lockedParent_def result_simps)
  then have live: "r \<in> set (rd_instances db)" "isLiveEntity tid i r" by (auto simp: isLiveEntity_def)
  then obtain r1 where r1: "select1 (isLiveEntity tid i) (rd_instances db) = Some r1"
    by (cases "select1 (isLiveEntity tid i) (rd_instances db)") (auto simp: select1_None_iff)
  then have "r = r1" using recKeys_entity [OF keys r1 live(1)] selected_live [OF r1] live(2) by (simp add: isLiveEntity_def isEntity_def)
  then show ?thesis using r1 live by simp
qed

lemma unlink_rels:
  assumes "distinct (map rl_id (rd_relations db))"
  shows "evolves (relStep tid) (\<lambda>r. er_tenantId r = tid) (rd_relations db) (rd_relations (unlink env tid c db))"
    "map rl_id (rd_relations (unlink env tid c db)) = map rl_id (rd_relations db)"
proof -
  define t1 where "t1 = updateW (isLiveRel tid RELATION_CHILD_OF c) (\<lambda>r. r\<lparr>er_deletedAt := Some (toDate (re_dbNow env))\<rparr>) (rd_relations db)"
  have t1: "evolves (relStep tid) (\<lambda>r. er_tenantId r = tid) (rd_relations db) t1" "map rl_id t1 = map rl_id (rd_relations db)"
    unfolding t1_def by (rule rel_delete) (auto simp: isLiveRel_def rel_ids)
  have u: "rd_relations (unlink env tid c db) = (case select1 (isLiveParentOf tid c) t1 of None \<Rightarrow> t1
      | Some p \<Rightarrow> updateW (\<lambda>r. rl_id r = rl_id p) (\<lambda>r. r\<lparr>er_deletedAt := Some (toDate (re_dbNow env))\<rparr>) t1)"
    unfolding unlink_def Let_def t1_def [symmetric] by simp
  have d1: "distinct (map rl_id t1)" using t1(2) assms by simp
  have "er_tenantId r = tid" if p: "select1 (isLiveParentOf tid c) t1 = Some p" "r \<in> set t1" "rl_id r = rl_id p" for p r
  proof -
    have "p \<in> set t1" "isLiveParentOf tid c p" using select1_Some [OF p(1)] by auto
    then show ?thesis using keyed_unique [OF d1 p(2) _ p(3)] by (simp add: isLiveParentOf_def)
  qed
  then have "evolves (relStep tid) (\<lambda>r. er_tenantId r = tid) t1
      (updateW (\<lambda>r. rl_id r = rl_id p) (\<lambda>r. r\<lparr>er_deletedAt := Some (toDate (re_dbNow env))\<rparr>) t1)"
    if "select1 (isLiveParentOf tid c) t1 = Some p" for p
    using that by (intro rel_delete) blast
  then show "evolves (relStep tid) (\<lambda>r. er_tenantId r = tid) (rd_relations db) (rd_relations (unlink env tid c db))"
    unfolding u using t1(1) rels_trans [OF t1(1)] by (cases "select1 (isLiveParentOf tid c) t1") simp_all
  show "map rl_id (rd_relations (unlink env tid c db)) = map rl_id (rd_relations db)"
    unfolding u using t1(2) by (auto split: option.split simp: rel_ids)
qed

definition detachedBy :: "string \<Rightarrow> string option \<Rightarrow> string set" where
  "detachedBy childId newParentId = (if truthyId newParentId = None then {childId} else {})"

lemma unlink_step:
  assumes "recKeys db"
  shows "recStep env D db tid (unlink env tid c db)"
proof -
  have d: "distinct (map rl_id (rd_relations db))" using assms by (simp add: recKeys_def)
  have "unlink env tid c db = db\<lparr>rd_relations := rd_relations (unlink env tid c db)\<rparr>" by (simp add: unlink_def Let_def)
  then show ?thesis
    using recStep_rels [OF recStep_sideI [OF assms sideStep_refl] unlink_rels(1) [OF d]] unlink_rels(2) [OF d] d by metis
qed

lemma move_step:
  assumes run: "moveChildRelation env db tid c p = Some (Inr (x, db'))" and keys: "recKeys db"
  shows "recStep env (detachedBy c p) db tid db'"
proof -
  obtain child where child: "lockedParent db tid c = Inr child"
    using run by (cases "lockedParent db tid c") (auto simp: moveChildRelation_def)
  note live = lockedParent_Inr [OF keys child]
  show ?thesis
  proof (cases "truthyId p")
    case None
    define f where "f = (\<lambda>r :: entity_row. r\<lparr>ei_fields := objRemove ''child_status'' (ei_fields r), ei_currentState := ''initial'',
        ei_updatedAt := toDate (re_dbNow env)\<rparr>)"
    have db': "db' = (unlink env tid c db)\<lparr>rd_instances := updateW (isEntity tid c) f (rd_instances db)\<rparr>"
      using run child None by (auto simp: moveChildRelation_def Let_def detach_def unlink_def f_def)
    have "ei_id child = c" using live selected_live by blast
    then have "rowStep env (detachedBy c p) db tid child (f child)"
      unfolding f_def using None live by (intro rs_detach) (auto simp: detachedBy_def)
    then have "recStep env (detachedBy c p) db tid (db\<lparr>rd_instances := updateW (isEntity tid c) f (rd_instances db)\<rparr>)"
      using live by (intro recStep_row [OF keys _ _ _ sideStep_refl]) (auto simp: f_def)
    moreover have "db' = (db\<lparr>rd_instances := updateW (isEntity tid c) f (rd_instances db)\<rparr>)\<lparr>rd_relations := rd_relations (unlink env tid c db)\<rparr>"
      by (simp add: db' unlink_def Let_def)
    moreover have "distinct (map rl_id (rd_relations db))" using keys by (simp add: recKeys_def)
    ultimately show ?thesis using unlink_rels [where db = db and tid = tid and env = env and c = c] by (auto intro!: recStep_rels)
  next
    case (Some q)
    then have "insertLink env tid q c (unlink env tid c db) = Inr (x, db')"
      using run child by (auto simp: moveChildRelation_def Let_def bindE_eq_Inr split: bind_splits)
    then show ?thesis by (rule insertLink_step [OF _ unlink_step [OF keys]])
  qed
qed

lemma archiveAll_step:
  assumes keys: "recKeys db"
  shows "recStep env D db tid (archiveAll env tid i ids db)"
proof -
  define t where "t = updateW (isLiveParentOf tid i) (\<lambda>r. r\<lparr>er_deletedAt := Some (re_updatedAt env)\<rparr>)
    (updateW (\<lambda>r. er_tenantId r = tid \<and> er_fromInstanceId r \<in> set ids \<and> er_deletedAt r = None)
       (\<lambda>r. r\<lparr>er_deletedAt := Some (re_updatedAt env)\<rparr>) (rd_relations db))"
  define u where "u = updateW (isPendingDueOf tid ids) (\<lambda>r. r\<lparr>ob_deliveredAt := Some (toDate (re_dbNow env))\<rparr>) (rd_outbox db)"
  define s where "s = updateW (\<lambda>r. ei_tenantId r = tid \<and> ei_id r \<in> set ids \<and> ri_deletedAt r = None)
            (\<lambda>r. r\<lparr>ri_deletedAt := Some (re_updatedAt env)\<rparr>) (rd_instances db)"
  have a: "archiveAll env tid i ids db = db\<lparr>rd_instances := s, rd_relations := t, rd_outbox := u\<rparr>"
    by (simp add: archiveAll_def s_def t_def u_def Let_def)
  have "evolves (relStep tid) (\<lambda>r. er_tenantId r = tid) (rd_relations db) t"
    unfolding t_def by (rule rels_trans [OF rel_delete rel_delete]) (auto simp: isLiveParentOf_def)
  moreover have "evolves (rowStep env D db tid) (rowNew env db tid) (rd_instances db) s"
    unfolding s_def by (rule evolves_updateW) (auto intro!: rs_delete simp: isLiveEntity_def isEntity_def)
  moreover have "evolves (outStep tid) (\<lambda>r. ob_tenantId r = tid) (rd_outbox db) u"
    unfolding u_def by (rule evolves_updateW) (auto simp: outStep_def isPendingDueOf_def)
  moreover have "map rl_id t = map rl_id (rd_relations db)" "map ei_id s = map ei_id (rd_instances db)"
    by (simp_all add: t_def s_def rel_ids map_updateW_same)
  ultimately show ?thesis unfolding a using keys
    by (intro recStepI) (auto simp: recKeys_def sameConfig_def intro!: evolve_intros)
qed

lemma restoreAll_step:
  assumes keys: "recKeys db"
  shows "recStep env D db tid (restoreAll tid i ts ids db)"
proof -
  define t where "t = updateW (\<lambda>r. er_tenantId r = tid \<and> er_toInstanceId r = i \<and> er_relationType r = RELATION_PARENT_OF \<and>
        er_deletedAt r = Some ts) (\<lambda>r. r\<lparr>er_deletedAt := None\<rparr>)
    (updateW (\<lambda>r. er_tenantId r = tid \<and> er_fromInstanceId r \<in> set ids \<and> er_deletedAt r = Some ts)
       (\<lambda>r. r\<lparr>er_deletedAt := None\<rparr>) (rd_relations db))"
  define s where "s = updateW (\<lambda>r. ei_tenantId r = tid \<and> ei_id r \<in> set ids \<and> ri_deletedAt r = Some ts)
            (\<lambda>r. r\<lparr>ri_deletedAt := None\<rparr>) (rd_instances db)"
  have a: "restoreAll tid i ts ids db = db\<lparr>rd_instances := s, rd_relations := t\<rparr>"
    by (simp add: restoreAll_def s_def t_def Let_def)
  have "evolves (relStep tid) (\<lambda>r. er_tenantId r = tid) (rd_relations db) t"
    unfolding t_def by (rule rels_trans [OF rel_delete rel_delete]) auto
  moreover have "evolves (rowStep env D db tid) (rowNew env db tid) (rd_instances db) s"
    unfolding s_def by (rule evolves_updateW) (auto intro!: rs_restore)
  moreover have "map rl_id t = map rl_id (rd_relations db)" "map ei_id s = map ei_id (rd_instances db)"
    by (simp_all add: t_def s_def rel_ids map_updateW_same)
  ultimately show ?thesis unfolding a using keys
    by (intro recStepI) (auto simp: recKeys_def sameConfig_def intro!: evolve_intros)
qed

lemma archive_step:
  assumes "archiveEntity env db tid i c = Some (Inr (x, db'))" "recKeys db"
  shows "recStep env {} db tid db'"
  using assms unfolding archiveEntity_def
  by (auto simp: Let_def split: sum.splits bind_splits if_splits intro: archiveAll_step recStep_sideI sideStep_refl)

lemma restore_step:
  assumes "restoreEntity db tid i = Some (Inr (x, db'))" "recKeys db"
  shows "recStep env {} db tid db'"
  using assms unfolding restoreEntity_def
  by (auto simp: Let_def split: option.splits bind_splits intro: restoreAll_step)

lemma linkHistory_side [side_intros]:
  "sideStep tid d0 db \<Longrightarrow> sideStep tid d0 (linkHistory env tid a b ty u k db)"
proof -
  have "sideStep tid d0 (writeLinkHistoryEvent env n tid i c ty u k db)" if "sideStep tid d0 db" for n i c db
    using that by (auto simp: writeLinkHistoryEvent_def split: option.split intro!: side_intros)
  then show "sideStep tid d0 db \<Longrightarrow> ?thesis" by (simp add: linkHistory_def)
qed

lemma recStep_relsI:
  assumes "recKeys db" "evolves (relStep tid) (\<lambda>r. er_tenantId r = tid) (rd_relations db) t" "distinct (map rl_id t)"
    "sideStep tid (db\<lparr>rd_relations := t\<rparr>) db'"
  shows "recStep env D db tid db'"
  using recStep_side [OF recStep_rels [OF recStep_sideI [OF assms(1) sideStep_refl] assms(2,3)] assms(4)] .

lemma createRelation_step:
  assumes "createRelation env db tid input = Inr (x, db')" and keys: "recKeys db"
  shows "recStep env {} db tid db'"
proof -
  obtain t where t: "insertKeyed rl_id x (rd_relations db) = Inr t" "er_tenantId x = tid"
    and side: "sideStep tid (db\<lparr>rd_relations := t\<rparr>) db'"
  proof -
    from assms(1) obtain t where "insertKeyed rl_id x (rd_relations db) = Inr t" "er_tenantId x = tid"
      and "db' = linkHistory env tid (cr_fromInstanceId input) (cr_toInstanceId input) (cr_relationType input)
        (cr_actorId input) ''link_created'' (db\<lparr>rd_relations := t\<rparr>)"
      unfolding createRelation_def Let_def by (auto simp: bindE_eq_Inr)
    then show thesis using that linkHistory_side [OF sideStep_refl] by blast
  qed
  from t show ?thesis using keys
    by (intro recStep_relsI [OF keys _ _ side]) (auto simp: insertKeyed_Inr recKeys_def intro!: evolve_intros)
qed

lemma createReference_step:
  assumes "createReferenceLink env db tid a b u = Inr (x, db')" and keys: "recKeys db"
  shows "recStep env {} db tid db'"
proof -
  obtain r s t t2 where t: "insertKeyed rl_id r (rd_relations db) = Inr t" "insertKeyed rl_id s t = Inr t2"
    "er_tenantId r = tid" "er_tenantId s = tid" and side: "sideStep tid (db\<lparr>rd_relations := t2\<rparr>) db'"
  proof -
    from assms(1) obtain t t2 where "insertKeyed rl_id (relationRow env 0 tid a b RELATION_REFERENCES) (rd_relations db) = Inr t"
      "insertKeyed rl_id (relationRow env 1 tid b a RELATION_REFERENCED_BY) t = Inr t2"
      and db': "db' = linkHistory env tid a b RELATION_REFERENCES u ''reference_created'' (db\<lparr>rd_relations := t2\<rparr>)"
      unfolding createReferenceLink_def Let_def by (auto simp: bindE_eq_Inr)
    then show thesis using that linkHistory_side [OF sideStep_refl] relationRow_sel(1) by blast
  qed
  then have t2: "t2 = rd_relations db @ [r, s]" "rl_id r \<notin> rl_id ` set (rd_relations db)"
    "rl_id s \<noteq> rl_id r" "rl_id s \<notin> rl_id ` set (rd_relations db)"
    by (auto simp: insertKeyed_Inr)
  show ?thesis
    using keys t(3,4) t2(2-4) unfolding t2(1)
    by (intro recStep_relsI [OF keys _ _ side [unfolded t2(1)]] evolves_append) (auto simp: recKeys_def)
qed

lemma deleteReference_step:
  assumes "deleteReferenceLink env db tid i u = Inr (x, db')" and keys: "recKeys db"
  shows "recStep env {} db tid db'"
proof -
  obtain rel t where rel: "getReferenceRelation db tid i = Some rel"
    and t: "t = updateW (\<lambda>r. rl_id r = rl_id rel \<or> (isLiveRel tid (mirrorType (er_relationType rel)) (er_toInstanceId rel) r \<and>
        er_toInstanceId r = er_fromInstanceId rel)) (\<lambda>r. r\<lparr>er_deletedAt := Some (toDate (re_dbNow env))\<rparr>) (rd_relations db)"
    and side: "sideStep tid (db\<lparr>rd_relations := t\<rparr>) db'"
    using assms(1) unfolding deleteReferenceLink_def Let_def by (auto simp: bindE_eq_Inr orThrow_eq_Inr intro!: side_intros)
  have d: "distinct (map rl_id (rd_relations db))" using keys by (simp add: recKeys_def)
  have "rel \<in> set (rd_relations db)" "er_tenantId rel = tid"
    using select1_Some [OF rel [unfolded getReferenceRelation_def]] by auto
  then have "er_tenantId r = tid" if "r \<in> set (rd_relations db)" "rl_id r = rl_id rel" for r
    using keyed_unique [OF d that(1) _ that(2)] by auto
  then have "evolves (relStep tid) (\<lambda>r. er_tenantId r = tid) (rd_relations db) t"
    unfolding t by (intro rel_delete) (auto simp: isLiveRel_def)
  then show ?thesis using d by (intro recStep_relsI [OF keys _ _ side]) (simp_all add: t rel_ids)
qed

lemma deleteRelation_step:
  assumes "deleteRelation env db tid i u = Inr (x, db')" and keys: "recKeys db"
  shows "recStep env {} db tid db'"
proof -
  obtain rel t where rel: "select1 (\<lambda>r. rl_id r = i \<and> er_tenantId r = tid) (rd_relations db) = Some rel"
    and t: "t = updateW (\<lambda>r. rl_id r = i) (\<lambda>r. r\<lparr>er_deletedAt := Some (toDate (re_dbNow env))\<rparr>) (rd_relations db)"
    and side: "sideStep tid (db\<lparr>rd_relations := t\<rparr>) db'"
    using assms(1) unfolding deleteRelation_def by (auto simp: bindE_eq_Inr orThrow_eq_Inr intro!: side_intros)
  have d: "distinct (map rl_id (rd_relations db))" using keys by (simp add: recKeys_def)
  have r: "rel \<in> set (rd_relations db)" "er_tenantId rel = tid" "rl_id rel = i" using select1_Some [OF rel] by auto
  then have "er_tenantId r = tid" if "r \<in> set (rd_relations db)" "rl_id r = i" for r
    using keyed_unique [OF d that(1) r(1)] that by auto
  then have "evolves (relStep tid) (\<lambda>r. er_tenantId r = tid) (rd_relations db) t"
    unfolding t by (intro rel_delete) auto
  then show ?thesis using d by (intro recStep_relsI [OF keys _ _ side]) (simp_all add: t rel_ids)
qed

section \<open>What a step keeps\<close>

text \<open>What a tenant has in the tables the record engine writes.\<close>

definition recView :: "string \<Rightarrow> rec_db \<Rightarrow> entity_row list \<times> EntityRelation list \<times> EntityInstanceTag list \<times>
    workflow_events_row list \<times> outbox_events_row list" where
  "recView T db = (filter (\<lambda>r. ei_tenantId r = T) (rd_instances db), filter (\<lambda>r. er_tenantId r = T) (rd_relations db),
     filter (\<lambda>t. tg_tenantId t = T) (rd_tags db), filter (\<lambda>e. we_tenantId e = T) (rd_events db),
     filter (\<lambda>r. ob_tenantId r = T) (rd_outbox db))"

lemma fold_edit_sel [simp]:
  "ei_id (fold (applyEdit env) es r) = ei_id r" "ei_tenantId (fold (applyEdit env) es r) = ei_tenantId r"
  "ri_deletedAt (fold (applyEdit env) es r) = ri_deletedAt r" "ei_workflowId (fold (applyEdit env) es r) = ei_workflowId r"
  by (induction es arbitrary: r) simp_all

lemma rowStep_sel:
  "rowStep env D db tid r r' \<Longrightarrow> ei_id r' = ei_id r \<and> ei_tenantId r' = ei_tenantId r \<and> ei_workflowId r' = ei_workflowId r"
  by (induction rule: rowStep.induct) auto

lemma rowStep_other: "rowStep env D db tid r r' \<Longrightarrow> ei_tenantId r \<noteq> tid \<Longrightarrow> r' = r"
  by (induction rule: rowStep.induct) (auto simp: isLiveEntity_def isEntity_def)

lemma rowNew_tenant: "rowNew env db tid r \<Longrightarrow> ei_tenantId r = tid \<and> ri_deletedAt r = None"
  by (induction rule: rowNew.induct) (auto simp: newEntityRow_def childRow_def)

lemma recStep_view:
  assumes step: "recStep env D db tid db'" and T: "T \<noteq> tid"
  shows "recView T db' = recView T db"
proof -
  have "filter (\<lambda>r. ei_tenantId r = T) (rd_instances db') = filter (\<lambda>r. ei_tenantId r = T) (rd_instances db)"
    using step unfolding recStep_def
    by (elim conjE evolves_filter) (use T rowStep_other rowStep_sel rowNew_tenant in metis)+
  moreover have "filter (\<lambda>r. er_tenantId r = T) (rd_relations db') = filter (\<lambda>r. er_tenantId r = T) (rd_relations db)"
    by (rule evolves_filter [where R = "relStep tid" and N = "\<lambda>r. er_tenantId r = tid"])
      (use step T in \<open>auto simp: recStep_def relStep_def\<close>)
  moreover have "filter (\<lambda>r. ob_tenantId r = T) (rd_outbox db') = filter (\<lambda>r. ob_tenantId r = T) (rd_outbox db)"
    by (rule evolves_filter [where R = "outStep tid" and N = "\<lambda>r. ob_tenantId r = tid"])
      (use step T in \<open>auto simp: recStep_def outStep_def\<close>)
  moreover have "filter (\<lambda>e. we_tenantId e = T) (rd_events db') = filter (\<lambda>e. we_tenantId e = T) (rd_events db)"
    by (rule evolves_filter [where R = "(=)" and N = "\<lambda>e. we_tenantId e = tid"])
      (use step T in \<open>auto simp: recStep_def\<close>)
  moreover have "filter (\<lambda>t. tg_tenantId t = T) (rd_tags db') = filter (\<lambda>t. tg_tenantId t = T) (rd_tags db)"
  proof -
    have "filter (\<lambda>t. tg_tenantId t = T) ts = filter (\<lambda>t. tg_tenantId t = T) (filter (\<lambda>t. tg_tenantId t \<noteq> tid) ts)" for ts
      using T by (induction ts) auto
    then show ?thesis using step unfolding recStep_def by metis
  qed
  ultimately show ?thesis by (simp add: recView_def)
qed

section \<open>The interface of an operation\<close>

text \<open>
  What the properties use of an operation: a call that succeeds is a step. \<open>D\<close> gives the records a
  request detaches.
\<close>

locale record_op =
  fixes run :: "rec_env \<Rightarrow> rec_db \<Rightarrow> string \<Rightarrow> 'req \<Rightarrow> (rec_failure + ('res \<times> rec_db)) option"
    and D :: "'req \<Rightarrow> string set"
  assumes is_step: "run env db tid req = Some (Inr (x, db')) \<Longrightarrow> recKeys db \<Longrightarrow> recStep env (D req) db tid db'"
begin

lemma after_step:
  "map_option afterCall (run env db tid req) = Some (Inr db') \<Longrightarrow> recKeys db \<Longrightarrow> recStep env (D req) db tid db'"
  using is_step by (auto simp: result_simps)

end

interpretation create_call: record_op "\<lambda>env db tid req. Some (createEntity env db tid req)" "\<lambda>_. {}"
  by unfold_locales (simp add: createEntity_step)

interpretation update_call: record_op "\<lambda>env db tid (i, input). Some (updateEntity env db tid i input)" "\<lambda>_. {}"
  by unfold_locales (auto intro: updateEntity_step)

interpretation severity_call: record_op "\<lambda>env db tid (i, s). Some (setEntityInstanceSeverity env db tid i s)" "\<lambda>_. {}"
  by unfold_locales (auto intro: setSeverity_step)

interpretation state_call: record_op "\<lambda>env db tid (i, s, a). Some (setEntityState env db tid i s a)" "\<lambda>_. {}"
  by unfold_locales (auto intro: setEntityState_step)

interpretation add_tag_call: record_op "\<lambda>env db tid (i, t, u). Some (addEntityInstanceTag env db tid i t u)" "\<lambda>_. {}"
  by unfold_locales (auto intro: addTag_step)

interpretation remove_tag_call: record_op "\<lambda>env db tid (i, t, u, ov). Some (removeEntityInstanceTag db tid i t u ov)" "\<lambda>_. {}"
  by unfold_locales (auto intro: removeTag_step)

interpretation delete_call: record_op "\<lambda>env db tid (i, a). Some (deleteEntity env db tid i a)" "\<lambda>_. {}"
  by unfold_locales (auto intro: deleteEntity_step)

interpretation bulk_create_call: record_op "\<lambda>env db tid inputs. Some (bulkCreateEntities env db tid inputs)" "\<lambda>_. {}"
  by unfold_locales (auto intro: bulkCreate_step)

interpretation bulk_update_call: record_op "\<lambda>env db tid items. Some (bulkUpdateEntities env db tid items)" "\<lambda>_. {}"
  by unfold_locales (auto intro: bulkUpdate_step)

interpretation bulk_state_call: record_op "\<lambda>env db tid (items, a). Some (bulkSetState env db tid items a)" "\<lambda>_. {}"
  by unfold_locales (auto intro: bulkSetState_step)

interpretation child_call: record_op "\<lambda>env db tid input. Some (createChildRelation env db tid input)" "\<lambda>_. {}"
  by unfold_locales (auto intro: createChild_step)

interpretation move_call: record_op "\<lambda>env db tid (c, p). moveChildRelation env db tid c p" "\<lambda>(c, p). detachedBy c p"
  by unfold_locales (auto intro: move_step)

interpretation archive_call: record_op "\<lambda>env db tid (i, c). archiveEntity env db tid i c" "\<lambda>_. {}"
  by unfold_locales (auto intro: archive_step)

interpretation restore_call: record_op "\<lambda>env db tid i. restoreEntity db tid i" "\<lambda>_. {}"
  by unfold_locales (auto intro: restore_step)

interpretation relation_call: record_op "\<lambda>env db tid input. Some (createRelation env db tid input)" "\<lambda>_. {}"
  by unfold_locales (auto intro: createRelation_step)

interpretation reference_call: record_op "\<lambda>env db tid (a, b, u). Some (createReferenceLink env db tid a b u)" "\<lambda>_. {}"
  by unfold_locales (auto intro: createReference_step)

interpretation unreference_call: record_op "\<lambda>env db tid (r, u). Some (deleteReferenceLink env db tid r u)" "\<lambda>_. {}"
  by unfold_locales (auto intro: deleteReference_step)

interpretation unrelate_call: record_op "\<lambda>env db tid (r, u). Some (deleteRelation env db tid r u)" "\<lambda>_. {}"
  by unfold_locales (auto intro: deleteRelation_step)

section \<open>The system\<close>

text \<open>The calls that write records, and those that maintain types and their fields.\<close>

fun isConfigCall :: "rec_call \<Rightarrow> bool" where
  "isConfigCall (RcAddField ty f) = True"
| "isConfigCall (RcUpdateField ty f u) = True"
| "isConfigCall (RcDeleteField ty f) = True"
| "isConfigCall (RcCreateType input) = True"
| "isConfigCall (RcUpdateType ty u) = True"
| "isConfigCall (RcDeleteType ty) = True"
| "isConfigCall _ = False"

fun callDetaches :: "rec_call \<Rightarrow> string set" where
  "callDetaches (RcMove c p) = detachedBy c p"
| "callDetaches _ = {}"

lemma perform_step:
  assumes "performRec env db tid call = Some (Inr db')" "\<not> isConfigCall call" "recKeys db"
  shows "recStep env (callDetaches call) db tid db'"
proof (cases call)
  case (RcCreate i)
  then show ?thesis using create_call.after_step [of env db tid i db'] assms by simp
next
  case (RcUpdate i u)
  then show ?thesis using update_call.after_step [of env db tid "(i, u)" db'] assms by simp
next
  case (RcSeverity i u)
  then show ?thesis using severity_call.after_step [of env db tid "(i, u)" db'] assms by simp
next
  case (RcState i u a)
  then show ?thesis using state_call.after_step [of env db tid "(i, u, a)" db'] assms by simp
next
  case (RcAddTag i u a)
  then show ?thesis using add_tag_call.after_step [of env db tid "(i, u, a)" db'] assms by simp
next
  case (RcRemoveTag i u a b)
  then show ?thesis using remove_tag_call.after_step [where env = env and db = db and tid = tid and req = "(i, u, a, b)" and db' = db'] assms by simp
next
  case (RcDelete i a)
  then show ?thesis using delete_call.after_step [of env db tid "(i, a)" db'] assms by simp
next
  case (RcBulkCreate i)
  then show ?thesis using bulk_create_call.after_step [of env db tid i db'] assms by simp
next
  case (RcBulkUpdate i)
  then show ?thesis using bulk_update_call.after_step [of env db tid i db'] assms by simp
next
  case (RcBulkState i a)
  then show ?thesis using bulk_state_call.after_step [of env db tid "(i, a)" db'] assms by simp
next
  case (RcChild i)
  then show ?thesis using child_call.after_step [of env db tid i db'] assms by simp
next
  case (RcMove c p)
  then show ?thesis using move_call.after_step [of env db tid "(c, p)" db'] assms by simp
next
  case (RcArchive i c)
  then show ?thesis using archive_call.after_step [of env db tid "(i, c)" db'] assms by simp
next
  case (RcRestore i)
  then show ?thesis using restore_call.after_step [where env = env and db = db and tid = tid and req = i and db' = db'] assms by simp
next
  case (RcRelation i)
  then show ?thesis using relation_call.after_step [of env db tid i db'] assms by simp
next
  case (RcReference a b u)
  then show ?thesis using reference_call.after_step [of env db tid "(a, b, u)" db'] assms by simp
next
  case (RcUnreference r u)
  then show ?thesis using unreference_call.after_step [of env db tid "(r, u)" db'] assms by simp
next
  case (RcUnrelate r u)
  then show ?thesis using unrelate_call.after_step [of env db tid "(r, u)" db'] assms by simp
qed (use assms in simp_all)

text \<open>A call that maintains types writes rows of the caller's tenant only, and never a field with a reserved name.\<close>

definition configStep :: "string \<Rightarrow> rec_db \<Rightarrow> rec_db \<Rightarrow> bool" where
  "configStep tid db db' =
     (\<exists>t u. db' = db\<lparr>rd_fields := t, rd_types := u\<rparr> \<and>
        (\<forall>f \<in> set t. isReservedFieldName (ef_name f) \<longrightarrow> (\<exists>g \<in> set (rd_fields db). ef_name f = ef_name g)) \<and>
        (\<forall>T. T \<noteq> Some tid \<longrightarrow> filter (\<lambda>f. ef_tenantId f = T) t = filter (\<lambda>f. ef_tenantId f = T) (rd_fields db) \<and>
           filter (\<lambda>y. et_tenantId y = T) u = filter (\<lambda>y. et_tenantId y = T) (rd_types db)))"

lemma configStep_trans: "configStep tid a b \<Longrightarrow> configStep tid b c \<Longrightarrow> configStep tid a c"
  unfolding configStep_def by (elim exE conjE) (simp, metis)

lemma configStep_refl: "configStep tid db db"
  unfolding configStep_def by (intro exI [of _ "rd_fields db"] exI [of _ "rd_types db"]) auto

lemma configStep_fields:
  "(\<And>f. f \<in> set t \<Longrightarrow> isReservedFieldName (ef_name f) \<Longrightarrow> \<exists>g \<in> set (rd_fields db). ef_name f = ef_name g) \<Longrightarrow>
   (\<And>T. T \<noteq> Some tid \<Longrightarrow> filter (\<lambda>f. ef_tenantId f = T) t = filter (\<lambda>f. ef_tenantId f = T) (rd_fields db)) \<Longrightarrow>
   configStep tid db (db\<lparr>rd_fields := t\<rparr>)"
  unfolding configStep_def by (intro exI [of _ t] exI [of _ "rd_types db"]) auto

lemma configStep_types:
  "(\<And>T. T \<noteq> Some tid \<Longrightarrow> filter (\<lambda>y. et_tenantId y = T) u = filter (\<lambda>y. et_tenantId y = T) (rd_types db)) \<Longrightarrow>
   configStep tid db (db\<lparr>rd_types := u\<rparr>)"
  unfolding configStep_def by (intro exI [of _ "rd_fields db"] exI [of _ u]) auto

lemma addField_config: "addEntityField env k db tid ty f = Inr (x, db') \<Longrightarrow> configStep tid db db'"
  unfolding addEntityField_def Let_def
  by (auto simp: bindE_eq_Inr throwIf_eq_Inr insertField_def insertKeyed_Inr newFieldRow_def intro!: configStep_fields)

lemma perform_config:
  assumes "performRec env db tid call = Some (Inr db')" "isConfigCall call"
  shows "configStep tid db db'"
proof (cases call)
  case (RcAddField ty f)
  then show ?thesis using assms(1) by (auto simp: result_simps dest: addField_config)
next
  case (RcUpdateField ty f u)
  have "configStep tid db (db\<lparr>rd_fields := updateW (fieldWritable tid f) (applyFieldUpdates u) (rd_fields db)\<rparr>)"
    by (rule configStep_fields)
      (auto simp: set_updateW fieldWritable_def applyFieldUpdates_def intro!: filter_updateW_other)
  then show ?thesis
    using assms(1) RcUpdateField configStep_refl
    by (auto simp: updateEntityField_def Let_def result_simps split: if_splits)
next
  case (RcDeleteField ty f)
  then show ?thesis using assms(1)
    by (auto simp: deleteEntityField_def result_simps fieldWritable_def intro!: configStep_fields filter_deleteW_other)
next
  case (RcCreateType input)
  define row where "row = \<lparr>et_id = re_rowId env 0, et_tenantId = Some tid, et_name = ct_name input, et_plural = ct_plural input,
     et_icon = ct_icon input, et_moduleId = ct_moduleId input,
     et_allowCustomFields = dflt True (ct_allowCustomFields input), et_createdAt = re_dbNow env\<rparr>"
  obtain x where "createEntityType env db (Some tid) input = Inr (x, db')" using assms(1) RcCreateType by (auto simp: afterCall_Inr)
  then obtain t where t: "insertKeyed et_id row (rd_types db) = Inr t"
    and rest: "db' = db\<lparr>rd_types := t\<rparr> \<or> (\<exists>x y db2. addEntityField env 1 (db\<lparr>rd_types := t\<rparr>) tid (et_id row) titleField = Inr (x, db2) \<and>
      addEntityField env 2 db2 tid (et_id row) teamField = Inr (y, db'))"
    unfolding createEntityType_def row_def [symmetric] Let_def
    by (cases "dflt True (ct_allowCustomFields input)") (auto simp: bindE_eq_Inr)
  have 1: "configStep tid db (db\<lparr>rd_types := t\<rparr>)"
    using t by (intro configStep_types) (auto simp: insertKeyed_Inr row_def)
  from rest show ?thesis
    by (elim disjE exE conjE) (use 1 addField_config configStep_trans in \<open>metis+\<close>)
next
  case (RcUpdateType ty u)
  have "configStep tid db (db\<lparr>rd_types := updateW (typeWritable tid ty) (applyTypeUpdates u) (rd_types db)\<rparr>)"
    by (rule configStep_types) (auto simp: typeWritable_def applyTypeUpdates_def intro!: filter_updateW_other)
  then show ?thesis
    using assms(1) RcUpdateType configStep_refl
    by (auto simp: updateEntityType_def Let_def result_simps split: if_splits)
next
  case (RcDeleteType ty)
  then show ?thesis using assms(1)
    by (auto simp: deleteEntityType_def Let_def result_simps typeWritable_def intro!: configStep_types filter_deleteW_other)
qed (use assms in simp_all)

end
