(* ===== verification/RecDemo.thy ===== *)
theory RecDemo
  imports RecStep WfDemo
begin

text \<open>
  A small tenant on which the witnesses of the record engine are evaluated: the approval workflow of
  \<open>WfDemo\<close>, a parent record in draft with an access list, an open child below it, and a validation
  library that accepts every value and strips the keys a schema does not name.
\<close>

definition rec_demo_env :: rec_env where
  "rec_demo_env = \<lparr>re_now = 5000, re_updatedAt = 5001, re_dbNow = 5000123,
     re_parseDate = (\<lambda>s. if s = ''soon'' then Some 90000 else if s = ''later'' then Some 95000 else None),
     re_instanceId = (\<lambda>k. ''n'' @ replicate k (CHR ''i'')), re_eventId = (\<lambda>k. ''e'' @ replicate k (CHR ''i'')),
     re_outboxId = (\<lambda>k. ''o'' @ replicate k (CHR ''i'')), re_relationId = (\<lambda>k. ''l'' @ replicate k (CHR ''i'')),
     re_rowId = (\<lambda>k. ''r'' @ replicate k (CHR ''i'')),
     re_safeParse = (\<lambda>shape o1. Inr (filter (\<lambda>(k, v). k \<in> set (map fst shape)) o1)),
     re_regexCompiles = (\<lambda>_. True), re_recheck = (\<lambda>_. RecheckSafe), re_runScript = None, re_validators = (\<lambda>_. []),
     re_cachedFields = (\<lambda>_ _ _. None), re_hookRegistered = True, re_hookFails = (\<lambda>_. False),
     re_mandatoryMode = ModeEnforce\<rparr>"

definition rec_demo_field :: "string \<Rightarrow> string \<Rightarrow> FieldSensitivity \<Rightarrow> EntityField" where
  "rec_demo_field i name sens =
     \<lparr>ef_entityTypeId = ''et1'', ef_tenantId = Some ''t1'', ef_name = name, ef_sensitivity = sens, fd_id = i, fd_label = name,
      fd_fieldType = FtText, fd_config = [], fd_isRequired = False, fd_isIndexed = False, fd_isSystem = False,
      fd_sortOrder = 0, fd_createdAt = 0\<rparr>"

definition rec_demo_row :: "string \<Rightarrow> string \<Rightarrow> jsobj \<Rightarrow> entity_row" where
  "rec_demo_row i state extra =
     \<lparr>ei_id = i, ei_entityTypeId = ''et1'', ei_tenantId = ''t1'', ei_workflowId = Some ''w1'', ei_currentState = state,
      ei_fields = (''title'', JStr i) # extra, ei_createdBy = Some ''alice'', ei_assignedTo = None, ei_updatedAt = 0,
      ri_dueDate = Some 90000, ri_remark = Some ''as agreed'', ri_severity = Some SevHigh, ri_createdAt = 1000000,
      ri_deletedAt = None, ri_originMechanism = None, ri_originOidcClientId = None, ri_originPerformerUserId = None\<rparr>"

definition rec_demo_rel :: "string \<Rightarrow> string \<Rightarrow> string \<Rightarrow> string \<Rightarrow> EntityRelation" where
  "rec_demo_rel i from1 to1 ty =
     \<lparr>er_fromInstanceId = from1, er_toInstanceId = to1, er_tenantId = ''t1'', er_relationType = ty, er_deletedAt = None,
      rl_id = i, rl_createdAt = 1000000\<rparr>"

definition rec_demo_db :: rec_db where
  "rec_demo_db = empty_rec_db\<lparr>
     rd_instances := [rec_demo_row ''p'' ''draft'' [(''__accessUsers'', JObj [(''bob'', grant ''read'' ''mention'')])],
                      rec_demo_row ''c'' ''open'' [(''child_status'', JStr ''open'')]],
     rd_types := [\<lparr>et_id = ''et1'', et_tenantId = Some ''t1'', et_name = ''Ticket'', et_plural = ''Tickets'', et_icon = None,
                   et_moduleId = None, et_allowCustomFields = True, et_createdAt = 0\<rparr>],
     rd_fields := [rec_demo_field ''f1'' ''title'' SensPublic, rec_demo_field ''f2'' ''iban'' SensFinancial],
     rd_relations := [rec_demo_rel ''r1'' ''p'' ''c'' RELATION_PARENT_OF, rec_demo_rel ''r2'' ''c'' ''p'' RELATION_CHILD_OF],
     rd_workflows := db_workflows demo_db, rd_states := db_states demo_db, rd_transitions := db_transitions demo_db\<rparr>"

definition rec_demo_child :: CreateChildRelationInput where
  "rec_demo_child =
     \<lparr>cc_parentId = ''p'', cc_childFields = [(''title'', JStr ''Check''), (''iban'', JStr ''DE00'')], cc_entityTypeId = ''et1'', cc_assignedTo = Some ''carl'',
      cc_createdBy = Some ''alice'', cc_dueDate = Some ''soon'', cc_remark = Some ''please'', cc_actorType = None,
      cc_actingPersonId = None, cc_maxAncestorDepth = None, cc_originMechanism = None, cc_originOidcClientId = None,
      cc_originPerformerUserId = None, cc_severity = None, cc_teamId = None\<rparr>"

definition rec_demo_update :: UpdateEntityInput where
  "rec_demo_update =
     \<lparr>ui_fields = Some [(''iban'', JStr ''DE11'')], ui_assignedTo = Some (Some ''carl''), ui_dueDate = None,
      ui_currentState = None, ui_actorId = Some ''alice'', ui_actorType = None, ui_actorName = None, ui_depth = None\<rparr>"

definition rec_demo_start :: UpdateEntityInput where
  "rec_demo_start = rec_demo_update\<lparr>ui_fields := None, ui_assignedTo := None, ui_currentState := Some (Some ''in-progress'')\<rparr>"

lemma rec_demo_state:
  "case performRec rec_demo_env rec_demo_db ''t1'' (RcUpdate ''c'' rec_demo_start) of
     Some (Inr db') \<Rightarrow> map (\<lambda>r. (ei_id r, ei_currentState r)) (rd_instances db') = [(''p'', ''draft''), (''c'', ''in-progress'')]
   | _ \<Rightarrow> False"
  by code_simp

lemma rec_demo_new_child:
  "case performRec rec_demo_env rec_demo_db ''t1'' (RcChild rec_demo_child) of
     Some (Inr db') \<Rightarrow> map ei_id (rd_instances db') = [''p'', ''c'', ''n''] | _ \<Rightarrow> False"
  by code_simp

lemma rec_demo_edit:
  "case performRec rec_demo_env rec_demo_db ''t1'' (RcUpdate ''p'' rec_demo_update) of
     Some (Inr db') \<Rightarrow> map ei_assignedTo (rd_instances db') = [Some ''carl'', None] | _ \<Rightarrow> False"
  by code_simp

lemma rec_demo_returns:
  "(case performRec env db tid call of Some (Inr db') \<Rightarrow> P db' | _ \<Rightarrow> False) \<Longrightarrow>
     \<exists>db'. performRec env db tid call = Some (Inr db') \<and> P db'"
  by (auto split: option.splits sum.splits)

lemma rec_demo_keys: "recKeys rec_demo_db"
  by (simp add: recKeys_def rec_demo_db_def empty_rec_db_def rec_demo_row_def rec_demo_rel_def)

end
