(* ===== verification/RecProps.thy ===== *)
theory RecProps
  imports RecDemo
begin

text \<open>
  Properties of the record engine over all its calls: the lock on direct state writes, separation of
  tenants, the mandatory values of workflow records and the reserved fields that carry access rights.
  They follow from the step relation of \<open>RecStep\<close> by its cases.
\<close>

section \<open>One row through a call\<close>

lemma step_row:
  assumes step: "recStep env D db tid db'" and r: "r \<in> set (rd_instances db)" and r': "r' \<in> set (rd_instances db')"
    and ids: "ei_id r' = ei_id r"
  shows "rowStep env D db tid r r'"
proof -
  have ev: "evolves (rowStep env D db tid) (rowNew env db tid) (rd_instances db) (rd_instances db')"
    and keys: "distinct (map ei_id (rd_instances db'))" using step by (auto simp: recStep_def recKeys_def)
  from evolves_old [OF ev r] obtain r1 where r1: "r1 \<in> set (rd_instances db')" "rowStep env D db tid r r1" by blast
  have "r1 = r'" using keyed_unique [OF keys r1(1) r'] rowStep_sel [OF r1(2)] ids by simp
  then show ?thesis using r1 by simp
qed

lemma perform_row:
  assumes "performRec env db tid call = Some (Inr db')" "recKeys db" "r \<in> set (rd_instances db)"
    "r' \<in> set (rd_instances db')" "ei_id r' = ei_id r"
  shows "rowStep env (callDetaches call) db tid r r'"
proof (cases "isConfigCall call")
  case True
  then have "rd_instances db' = rd_instances db" using perform_config [OF assms(1)] by (auto simp: configStep_def)
  then have "r' = r" using assms keyed_unique [of ei_id "rd_instances db" r' r] by (simp add: recKeys_def)
  then show ?thesis by simp
qed (use assms perform_step step_row in blast)

lemma perform_keys: "performRec env db tid call = Some (Inr db') \<Longrightarrow> recKeys db \<Longrightarrow> recKeys db'"
proof (cases "isConfigCall call")
  case True
  assume "performRec env db tid call = Some (Inr db')" "recKeys db"
  with perform_config [OF this(1) True] show ?thesis by (auto simp: configStep_def recKeys_def)
qed (auto dest: perform_step simp: recStep_def)

lemma perform_origin:
  assumes "performRec env db tid call = Some (Inr db')" "recKeys db" "r' \<in> set (rd_instances db')"
  shows "(\<exists>r \<in> set (rd_instances db). rowStep env (callDetaches call) db tid r r') \<or> rowNew env db tid r'"
proof (cases "isConfigCall call")
  case True
  then have "rd_instances db' = rd_instances db" using perform_config [OF assms(1)] by (auto simp: configStep_def)
  then show ?thesis using assms(3) rowStep_refl by metis
next
  case False
  then show ?thesis
    using perform_step [OF assms(1) False assms(2)] evolves_mem [OF _ assms(3)] by (auto simp: recStep_def)
qed

section \<open>The lock on direct state writes\<close>

lemma namesActorRule_tree: "treeUsesActorRule t \<Longrightarrow> namesActorRule (Some t)"
proof -
  have "\<exists>s \<in> set (conditionStrings t). startsWith s ''actor_''" if "treeUsesActorRule t" for t
    using that
    by (induction t rule: conditionStrings.induct) (fastforce simp: list_ex_iff startsWith_def prefix_def)+
  then show "treeUsesActorRule t \<Longrightarrow> ?thesis" by (auto simp: namesActorRule_def list_ex_iff)
qed

definition usesSelfApprovalRule :: "rec_db \<Rightarrow> workflows_row \<Rightarrow> bool" where
  "usesSelfApprovalRule db w =
     list_ex (\<lambda>t. wt_workflowId t = wf_id w \<and> Some (wt_tenantId t) = wf_tenantId w \<and>
       (case wt_conditions t of None \<Rightarrow> False | Some c \<Rightarrow> treeUsesActorRule c)) (rd_transitions db)"

lemma locked_rule:
  assumes "w \<in> set (rd_workflows db)" "wf_tenantId w = Some tid" "wf_allowStateOverride w \<or> usesSelfApprovalRule db w"
  shows "isStateWriteLocked db tid (wf_id w)"
proof -
  have "isLockedWorkflow db tid w"
    using assms namesActorRule_tree
    by (auto simp: isLockedWorkflow_def usesSelfApprovalRule_def list_ex_iff split: option.splits)
  then show ?thesis using assms(1,2) by (auto simp: locked_iff)
qed

lemma fold_edit_state:
  "ei_currentState (fold (applyEdit env) es r) = ei_currentState r \<or>
     (\<exists>e \<in> set es. ed_currentState e = Some (ei_currentState (fold (applyEdit env) es r)))"
proof (induction es arbitrary: r)
  case (Cons e es)
  show ?case using Cons [of "applyEdit env e r"] by (cases "ed_currentState e") (auto simp: applyEdit_def)
qed simp

lemma rowStep_state:
  assumes "rowStep env D db tid r r'" "ei_currentState r' \<noteq> ei_currentState r"
  shows "(ei_id r \<in> D \<and> ei_currentState r' = ''initial'') \<or> stateOk db tid r (ei_currentState r')"
  using assms
proof cases
  case (rs_edit es)
  then show ?thesis using fold_edit_state [of env es r] assms(2) by (auto simp: editOk_def)
qed auto

text \<open>
  C26. A workflow whose states are protected (it allows the override of a state, or one of its transitions
  depends on who acts) is not advanced by the record engine, with one exception: if a call changes the state of
  one of its records, either the record is a child ticket that takes one of the three child states, which is not a
  step of the workflow, or the call detaches the record from its parent and the new state is the one named initial,
  whether or not the workflow has a step of that name.
\<close>

theorem locked_state:
  assumes run: "performRec env db tid call = Some (Inr db')" and keys: "recKeys db"
    and r: "r \<in> set (rd_instances db)" "r' \<in> set (rd_instances db')" "ei_id r' = ei_id r"
    and changed: "ei_currentState r' \<noteq> ei_currentState r"
    and w: "w \<in> set (rd_workflows db)" "wf_tenantId w = Some (ei_tenantId r)" "truthyId (ei_workflowId r) = Some (wf_id w)"
    and protected: "wf_allowStateOverride w \<or> usesSelfApprovalRule db w"
  shows "(\<exists>p. call = RcMove (ei_id r) p \<and> truthyId p = None \<and> ei_currentState r' = ''initial'') \<or>
         (getParentId db tid (ei_id r) \<noteq> None \<and> ei_currentState r' \<in> set CHILD_TICKET_STATES \<and>
          \<not> workflowHasStateNamed db tid (wf_id w) (ei_currentState r'))"
proof -
  have step: "rowStep env (callDetaches call) db tid r r'" by (rule perform_row [OF run keys r])
  have "ei_tenantId r = tid" using rowStep_other [OF step] changed by auto
  then have "isStateWriteLocked db tid (wf_id w)" using locked_rule [OF w(1) _ protected] w(2) by simp
  then show ?thesis
    using rowStep_state [OF step changed] changed w(3)
    by (cases call) (auto simp: detachedBy_def stateOk_def split: if_splits)
qed

theorem locked_state_witness:
  "\<exists>db'. performRec rec_demo_env rec_demo_db ''t1'' (RcUpdate ''c'' rec_demo_start) = Some (Inr db') \<and>
     ei_currentState (rd_instances db' ! 1) = ''in-progress'' \<and> getParentId rec_demo_db ''t1'' ''c'' \<noteq> None \<and>
     \<not> workflowHasStateNamed rec_demo_db ''t1'' ''w1'' ''in-progress''"
proof -
  obtain db' where run: "performRec rec_demo_env rec_demo_db ''t1'' (RcUpdate ''c'' rec_demo_start) = Some (Inr db')"
    and st: "map (\<lambda>r. (ei_id r, ei_currentState r)) (rd_instances db') = [(''p'', ''draft''), (''c'', ''in-progress'')]"
    using rec_demo_returns [OF rec_demo_state] by (elim exE conjE) (rule that)
  define r where "r = rec_demo_row ''c'' ''open'' [(''child_status'', JStr ''open'')]"
  define w where "w = hd (db_workflows demo_db)"
  obtain r' where r': "r' \<in> set (rd_instances db')" "r' = rd_instances db' ! 1" "ei_id r' = ''c''" "ei_currentState r' = ''in-progress''"
    using st by (cases "rd_instances db'"; cases "tl (rd_instances db')") auto
  have "r \<in> set (rd_instances rec_demo_db)" by (simp add: r_def rec_demo_db_def)
  moreover have "ei_id r' = ei_id r" "ei_currentState r' \<noteq> ei_currentState r" "truthyId (ei_workflowId r) = Some (wf_id w)"
    "w \<in> set (rd_workflows rec_demo_db)" "wf_tenantId w = Some (ei_tenantId r)" "wf_allowStateOverride w" "wf_id w = ''w1''"
    using r' by (simp_all add: r_def w_def rec_demo_row_def rec_demo_db_def demo_db_def truthyId_def)
  ultimately show ?thesis
    using locked_state [OF run rec_demo_keys _ r'(1), of r w] run r' by (auto simp: r_def rec_demo_row_def)
qed

section \<open>Tenants\<close>

text \<open>
  C27. A call made for one tenant leaves the records, relations, tags, log entries and outbox rows of
  every other tenant as they are, and also the types and fields of every other tenant and the shared ones.
\<close>

theorem record_isolation:
  assumes run: "performRec env db tid call = Some (Inr db')" and keys: "recKeys db" and T: "T \<noteq> tid" and S: "S \<noteq> Some tid"
  shows "recView T db' = recView T db \<and>
         filter (\<lambda>f. ef_tenantId f = S) (rd_fields db') = filter (\<lambda>f. ef_tenantId f = S) (rd_fields db) \<and>
         filter (\<lambda>y. et_tenantId y = S) (rd_types db') = filter (\<lambda>y. et_tenantId y = S) (rd_types db)"
proof (cases "isConfigCall call")
  case True
  then show ?thesis using perform_config [OF run True] S by (auto simp: configStep_def recView_def)
next
  case False
  from perform_step [OF run False keys] show ?thesis
    using recStep_view [OF _ T] by (auto simp: recStep_def sameConfig_def)
qed

theorem record_isolation_witness:
  "\<exists>db'. performRec rec_demo_env rec_demo_db ''t1'' (RcChild rec_demo_child) = Some (Inr db') \<and>
     map ei_id (rd_instances db') = [''p'', ''c'', ''n''] \<and> recView ''t2'' db' = recView ''t2'' rec_demo_db"
proof -
  obtain db' where run: "performRec rec_demo_env rec_demo_db ''t1'' (RcChild rec_demo_child) = Some (Inr db')"
    and ids: "map ei_id (rd_instances db') = [''p'', ''c'', ''n'']"
    using rec_demo_returns [OF rec_demo_new_child] by (elim exE conjE) (rule that)
  have "recView ''t2'' db' = recView ''t2'' rec_demo_db"
    using record_isolation [OF run rec_demo_keys, of "''t2''" None] by simp
  with run ids show ?thesis by (intro exI [of _ db'] conjI)
qed

section \<open>Mandatory values\<close>

definition mandatoryValues :: "entity_row \<Rightarrow> MandatoryValues" where
  "mandatoryValues r =
     \<lparr>mv_title = objGet (ei_fields r) ''title'', mv_dueDate = dateValue (ri_dueDate r), mv_remark = ri_remark r,
      mv_severity = ri_severity r\<rparr>"

definition mandatoryOk :: "entity_row \<Rightarrow> bool" where
  "mandatoryOk r = (truthyId (ei_workflowId r) = None \<or> findMissingMandatoryFields (mandatoryValues r) = [])"

lemma findMissing_Nil:
  "findMissingMandatoryFields v = [] \<longleftrightarrow>
     \<not> isBlankValue (mv_title v) \<and> \<not> isBlank (mv_dueDate v) \<and> \<not> isBlankValue (jsOpt (mv_remark v)) \<and> mv_severity v \<noteq> None"
  by (simp add: findMissingMandatoryFields_def)

lemma checkMandatory_Inr:
  "re_mandatoryMode env = ModeEnforce \<Longrightarrow> checkMandatoryFields env v = Inr u \<longleftrightarrow> findMissingMandatoryFields v = []"
  by (auto simp: checkMandatoryFields_def report_def)

lemma dueColumn_blank: "toDueColumn env d = Inr c \<Longrightarrow> isBlank (dateValue c) \<longleftrightarrow> isBlank (jsOpt d)"
  by (cases d) (auto simp: toDueColumn_def truthyId_def dateValue_def isBlank_def jsOpt_def split: option.splits if_splits list.splits)

lemma nextDue_blank: "toDueColumn env d = Inr c \<Longrightarrow> isBlank (nextDue env d) \<longleftrightarrow> c = None"
  by (auto simp: toDueColumn_def nextDue_def isBlank_def split: option.splits)

lemma keeps_Inr:
  assumes "re_mandatoryMode env = ModeEnforce" "mandatoryOk r" "truthyId (ei_workflowId r) \<noteq> None" "keepsMandatory env r e"
  shows "\<not> isBlankValue (objGet (dflt (ei_fields r) (ed_fields e)) ''title'') \<and> ed_dueDate e \<noteq> Some None"
proof -
  obtain due where due: "editColumn env due = Inr (ed_dueDate e)"
    and chk: "checkEditKeepsMandatoryValues env r (objGet (dflt (ei_fields r) (ed_fields e)) ''title'')
          (map_option (nextDue env) due) = Inr ()"
    using assms(4) by (auto simp: keepsMandatory_def)
  have "findMissingMandatoryFields (mandatoryValues r) = []" using assms(2,3) by (simp add: mandatoryOk_def)
  then have "findMissingMandatoryFields \<lparr>mv_title = objGet (dflt (ei_fields r) (ed_fields e)) ''title'',
      mv_dueDate = dflt (dateValue (ri_dueDate r)) (map_option (nextDue env) due), mv_remark = ri_remark r,
      mv_severity = ri_severity r\<rparr> = []"
    using chk assms(1,3) by (auto simp: checkEditKeepsMandatoryValues_def checkMandatoryFieldsOnUpdate_def report_def
        mandatoryValues_def Let_def split: option.splits if_splits)
  then show ?thesis
    using due by (auto simp: findMissing_Nil editColumn_def bindE_eq_Inr nextDue_blank split: option.splits)
qed

lemma fold_edit_mandatory:
  assumes "\<forall>e \<in> set es. \<not> isBlankValue (objGet (dflt flds (ed_fields e)) ''title'') \<and> ed_dueDate e \<noteq> Some None"
    and "findMissingMandatoryFields (mandatoryValues r) = []"
  shows "findMissingMandatoryFields (mandatoryValues (fold (applyEdit env) es r)) = []"
  using assms
proof (induction es arbitrary: r)
  case (Cons e es)
  have "findMissingMandatoryFields (mandatoryValues (applyEdit env e r)) = []"
    using Cons.prems by (cases "ed_fields e"; cases "ed_dueDate e")
      (auto simp: findMissing_Nil mandatoryValues_def applyEdit_def dateValue_def isBlank_def split: option.splits)
  then show ?case using Cons by simp
qed simp

lemma rowStep_mandatory:
  assumes "rowStep env D db tid r r'" "re_mandatoryMode env = ModeEnforce" "mandatoryOk r"
  shows "mandatoryOk r'"
  using assms(1)
proof cases
  case (rs_edit es)
  show ?thesis
  proof (cases "truthyId (ei_workflowId r)")
    case (Some w)
    with rs_edit keeps_Inr [OF assms(2,3)]
    have "\<forall>e \<in> set es. \<not> isBlankValue (objGet (dflt (ei_fields r) (ed_fields e)) ''title'') \<and> ed_dueDate e \<noteq> Some None"
      by (auto simp: editOk_def)
    then show ?thesis using fold_edit_mandatory rs_edit(1) assms(3) Some by (auto simp: mandatoryOk_def)
  qed (simp add: rs_edit mandatoryOk_def)
next
  case rs_detach
  then show ?thesis using assms(3)
    by (auto simp: mandatoryOk_def findMissing_Nil mandatoryValues_def objGet_def map_of_objRemove)
qed (use assms(3) in \<open>auto simp: mandatoryOk_def findMissing_Nil mandatoryValues_def\<close>)

lemma rowNew_mandatory:
  assumes "rowNew env db tid r" "re_mandatoryMode env = ModeEnforce"
  shows "mandatoryOk r"
  using assms(1)
proof cases
  case (rn_create input data sev flds due input' k state)
  then show ?thesis
    using dueColumn_blank [OF rn_create(5)]
    by (auto simp: mandatoryOk_def mandatoryValues_def newEntityRow_def placeRecord_def bindE_eq_Inr findMissing_Nil
        checkMandatory_Inr [OF assms(2)] createMandatory_def split: option.splits if_splits)
next
  case (rn_child input parent due w)
  have title: "objGet (ei_fields r) ''title'' = objGet (cc_childFields input) ''title''"
    unfolding rn_child(1) childRow_def
    by (auto simp: objGet_def map_of_objSpread map_add_def split: option.splits)
  then show ?thesis
    using rn_child dueColumn_blank [OF rn_child(5)]
    by (auto simp: mandatoryOk_def mandatoryValues_def findMissing_Nil checkMandatory_Inr [OF assms(2)] childMandatory_def childRow_def)
qed

text \<open>A run of calls, each with its own surroundings; a call that fails or never returns commits nothing.\<close>

fun runRec :: "(rec_env \<times> string \<times> rec_call) list \<Rightarrow> rec_db \<Rightarrow> rec_db" where
  "runRec [] db = db"
| "runRec ((env, tid, call) # calls) db =
     runRec calls (case performRec env db tid call of Some (Inr db') \<Rightarrow> db' | _ \<Rightarrow> db)"

lemma runRec_induct:
  assumes "P db" "\<And>env tid call db db'. (env, tid, call) \<in> set calls \<Longrightarrow> P db \<Longrightarrow>
      performRec env db tid call = Some (Inr db') \<Longrightarrow> P db'"
  shows "P (runRec calls db)"
  using assms
proof (induction calls arbitrary: db)
  case (Cons c calls)
  obtain env tid call where c: "c = (env, tid, call)" by (cases c)
  have "P (case performRec env db tid call of Some (Inr db') \<Rightarrow> db' | _ \<Rightarrow> db)"
    using Cons.prems(1) Cons.prems(2) [of env tid call db] by (auto simp: c split: option.split sum.split)
  then have "P (runRec calls (case performRec env db tid call of Some (Inr db') \<Rightarrow> db' | _ \<Rightarrow> db))"
    by (rule Cons.IH) (rule Cons.prems(2), auto)
  then show ?case by (simp add: c)
qed simp

text \<open>
  C28. While the mandatory fields are enforced, no sequence of calls of the record engine leaves a record
  with a workflow but without a title, a due date, a remark or a severity, provided there was none before.
\<close>

theorem mandatory_always:
  assumes keys: "recKeys db" and enforced: "\<forall>(env, tid, call) \<in> set calls. re_mandatoryMode env = ModeEnforce"
    and before1: "list_all mandatoryOk (rd_instances db)"
  shows "list_all mandatoryOk (rd_instances (runRec calls db))"
proof -
  have "recKeys (runRec calls db) \<and> list_all mandatoryOk (rd_instances (runRec calls db))"
  proof (rule runRec_induct)
    show "recKeys db \<and> list_all mandatoryOk (rd_instances db)" using keys before1 by simp
    fix env tid call db db'
    assume c: "(env, tid, call) \<in> set calls" and inv: "recKeys db \<and> list_all mandatoryOk (rd_instances db)"
      and run: "performRec env db tid call = Some (Inr db')"
    have "re_mandatoryMode env = ModeEnforce" using enforced c by auto
    then have "mandatoryOk r'" if "r' \<in> set (rd_instances db')" for r'
      using perform_origin [OF run _ that] inv rowStep_mandatory rowNew_mandatory by (auto simp: list_all_iff)
    then show "recKeys db' \<and> list_all mandatoryOk (rd_instances db')"
      using perform_keys [OF run] inv by (simp add: list_all_iff)
  qed
  then show ?thesis ..
qed

theorem mandatory_always_witness:
  "list_all mandatoryOk (rd_instances (runRec [(rec_demo_env, ''t1'', RcChild rec_demo_child),
     (rec_demo_env, ''t1'', RcUpdate ''p'' rec_demo_update)] rec_demo_db))"
proof (rule mandatory_always [OF rec_demo_keys])
  show "list_all mandatoryOk (rd_instances rec_demo_db)" by code_simp
qed (simp add: rec_demo_env_def)

section \<open>Reserved fields\<close>

text \<open>
  The access list of a record is one of its fields, under a reserved name. What keeps a caller from
  writing it: the validation library strips keys the schema does not name, and no field of a type, stored
  or cached, has a reserved name.
\<close>

definition stripsUnknown :: "rec_env \<Rightarrow> bool" where
  "stripsUnknown env =
     (\<forall>shape input data. re_safeParse env shape input = Inr data \<longrightarrow> fst ` set data \<subseteq> fst ` set shape)"

definition namesUnreserved :: "rec_env \<Rightarrow> rec_db \<Rightarrow> bool" where
  "namesUnreserved env db =
     ((\<forall>f \<in> set (rd_fields db). \<not> isReservedFieldName (ef_name f)) \<and>
      (\<forall>ty t m flds. re_cachedFields env ty t m = Some flds \<longrightarrow> (\<forall>f \<in> set flds. \<not> isReservedFieldName (ef_name f))))"

lemma buildSchema_keys:
  "buildZodSchemaFrom env mode flds shape = Inr shape' \<Longrightarrow> fst ` set shape' = fst ` set shape \<union> ef_name ` set flds"
proof (induction flds arbitrary: shape)
  case (Cons f flds)
  obtain z where "buildZodSchemaFrom env mode flds (AList.update (ef_name f) z shape) = Inr shape'"
    using Cons.prems by (auto simp: bindE_eq_Inr simp del: buildZodSchemaFrom.simps(1) split: if_split_asm)
  then show ?case using Cons.IH by (auto simp: dom_update)
qed simp

lemma parseFor_keys:
  assumes "parseFor env db ty tid mode flds = Inr data" "stripsUnknown env" "namesUnreserved env db"
  shows "\<forall>k \<in> fst ` set data. \<not> isReservedFieldName k"
proof -
  obtain shape where shape: "getValidationSchema env db ty tid mode = Inr shape" and p: "re_safeParse env shape flds = Inr data"
  proof -
    obtain shape where shape: "getValidationSchema env db ty tid mode = Inr shape"
      using assms(1) by (auto simp: parseFor_def bindE_eq_Inr)
    then show thesis using that assms(1) by (cases "re_safeParse env shape flds") (auto simp: parseFor_def)
  qed
  have "\<forall>k \<in> fst ` set shape. \<not> isReservedFieldName k"
  proof -
    have "fst ` set shape = ef_name ` set (case re_cachedFields env ty tid mode of
        Some flds \<Rightarrow> flds | None \<Rightarrow> loadEntityFields db ty tid)"
      using buildSchema_keys [OF shape [unfolded getValidationSchema_def buildZodSchema_def]] by simp
    then show ?thesis
      using assms(3) by (simp add: namesUnreserved_def loadEntityFields_def split: option.split)
  qed
  then show ?thesis using p assms(2) unfolding stripsUnknown_def by blast
qed

lemma applyFormulas_reserved:
  assumes "isReservedFieldName k" "\<forall>f \<in> set flds. \<not> isReservedFieldName (ef_name f)"
  shows "map_of (applyFormulaFields env flds vs) k = map_of vs k"
  using assms(2) unfolding applyFormulaFields_def
proof (induction flds arbitrary: vs)
  case (Cons f flds)
  then have "k \<noteq> ef_name f" using assms(1) by auto
  then show ?case using Cons by (auto split: option.split)
qed simp

lemma loadFields_unreserved:
  "namesUnreserved env db \<Longrightarrow> \<forall>f \<in> set (loadEntityFields db ty tid). \<not> isReservedFieldName (ef_name f)"
  by (simp add: namesUnreserved_def loadEntityFields_def)

lemma map_of_spread_other: "k \<notin> fst ` set b \<Longrightarrow> map_of (objSpread a b) k = map_of a k"
proof -
  assume "k \<notin> fst ` set b"
  then have "map_of (rev b) k = None" by (simp add: map_of_eq_None_iff)
  then show ?thesis by (simp add: map_of_objSpread map_add_def)
qed

lemma validEdit_reserved:
  assumes "validEdit env db tid r flds" "stripsUnknown env" "namesUnreserved env db" "isReservedFieldName k"
  shows "map_of flds k = map_of (ei_fields r) k"
proof -
  have spread: "map_of (objSpread a b) k = map_of a k" if "parseFor env db ty tid m x = Inr b" for a b ty m x
    using parseFor_keys [OF that assms(2,3)] assms(4) by (intro map_of_spread_other) auto
  show ?thesis
    using assms(1) unfolding validEdit_def editedFields_def bulkEditedFields_def Let_def
    by (auto simp: bindE_eq_Inr applyFormulas_reserved [OF assms(4) loadFields_unreserved [OF assms(3)]] spread split: if_splits)
qed

lemma fold_edit_fields:
  "ei_fields (fold (applyEdit env) es r) = ei_fields r \<or>
     (\<exists>e \<in> set es. ed_fields e = Some (ei_fields (fold (applyEdit env) es r)))"
proof (induction es arbitrary: r)
  case (Cons e es)
  show ?case using Cons [of "applyEdit env e r"] by (cases "ed_fields e") (auto simp: applyEdit_def)
qed simp

lemma rowStep_reserved:
  assumes "rowStep env D db tid r r'" "stripsUnknown env" "namesUnreserved env db" "isReservedFieldName k"
  shows "map_of (ei_fields r') k = map_of (ei_fields r) k"
  using assms(1)
proof cases
  case (rs_edit es)
  then show ?thesis
    using fold_edit_fields [of env es r] validEdit_reserved [OF _ assms(2-4)] by (auto simp: editOk_def)
next
  case rs_detach
  moreover have "k \<noteq> ''child_status''"
    using assms(4) by (auto simp: isReservedFieldName_def startsWith_def)
  ultimately show ?thesis by (simp add: map_of_objRemove)
qed simp_all

text \<open>What a new record has under a reserved name: nothing, or the list a child takes over from its parent.\<close>

definition inheritedFrom :: "rec_db \<Rightarrow> string \<Rightarrow> entity_row \<Rightarrow> jsval \<Rightarrow> bool" where
  "inheritedFrom db tid r v =
     (\<exists>parent \<in> set (rd_instances db). ei_tenantId parent = tid \<and> ri_deletedAt parent = None \<and>
        v = JObj (childAccessUsers parent (ei_assignedTo r)))"

lemma rowNew_reserved:
  assumes "rowNew env db tid r" "stripsUnknown env" "namesUnreserved env db" "isReservedFieldName k"
  shows "map_of (ei_fields r) k = None \<or>
    (\<exists>v. k = ''__accessUsers'' \<and> map_of (ei_fields r) k = Some v \<and> inheritedFrom db tid r v)"
  using assms(1)
proof cases
  case (rn_create input data sev flds due input' n state)
  have "map_of data k = None"
    using parseFor_keys [OF rn_create(3) assms(2,3)] assms(4) by (auto simp: map_of_eq_None_iff)
  moreover have "k \<noteq> ''team_id''" using assms(4) by (auto simp: isReservedFieldName_def startsWith_def)
  ultimately have "map_of flds k = None"
    using rn_create(4) applyFormulas_reserved [OF assms(4) loadFields_unreserved [OF assms(3)]]
    by (auto simp: placeRecord_def bindE_eq_Inr split: option.splits if_splits)
  then show ?thesis using rn_create(1) by (simp add: newEntityRow_def)
next
  case (rn_child input parent due w)
  have none: "map_of (cc_childFields input) k = None"
    using rn_child(4) assms(4) by (auto simp: validateReservedFieldNames_def Let_def throwIf_eq_Inr map_of_eq_None_iff filter_empty_conv)
  have "k \<noteq> ''team_id''" "k \<noteq> ''child_status''" using assms(4) by (auto simp: isReservedFieldName_def startsWith_def)
  then have "map_of (ei_fields r) k = (if k = ''__accessUsers'' then Some (JObj (childAccessUsers parent (ei_assignedTo r))) else None)"
    unfolding rn_child(1) childRow_def using none
    by (auto simp: map_of_objSpread map_add_def split: option.splits)
  moreover have "parent \<in> set (rd_instances db)" "ei_tenantId parent = tid" "ri_deletedAt parent = None"
    using rn_child(3) by (auto simp: lockedParent_def result_simps isEntity_def dest!: select1_Some)
  ultimately show ?thesis by (auto simp: inheritedFrom_def)
qed

text \<open>
  No call of the record engine lets a caller touch a reserved field. The reserved fields of an
  existing record, its access list among them, never change; a new record has none, except that a child
  has the access list of its parent with the assignee added. No field with a reserved name comes into being.
\<close>

theorem reserved_closed:
  assumes run: "performRec env db tid call = Some (Inr db')" and keys: "recKeys db"
    and zod: "stripsUnknown env" and names: "namesUnreserved env db" and k: "isReservedFieldName k"
    and r': "r' \<in> set (rd_instances db')"
  shows "namesUnreserved env db' \<and>
    ((\<exists>r \<in> set (rd_instances db). ei_id r' = ei_id r \<and> map_of (ei_fields r') k = map_of (ei_fields r) k) \<or>
     map_of (ei_fields r') k = None \<or>
     (\<exists>v. k = ''__accessUsers'' \<and> map_of (ei_fields r') k = Some v \<and> inheritedFrom db tid r' v))"
proof
  show "namesUnreserved env db'"
  proof (cases "isConfigCall call")
    case True
    then show ?thesis using perform_config [OF run True] names by (fastforce simp: configStep_def namesUnreserved_def)
  next
    case False
    then show ?thesis using perform_step [OF run False keys] names by (simp add: recStep_def sameConfig_def namesUnreserved_def)
  qed
  show "(\<exists>r \<in> set (rd_instances db). ei_id r' = ei_id r \<and> map_of (ei_fields r') k = map_of (ei_fields r) k) \<or>
     map_of (ei_fields r') k = None \<or>
     (\<exists>v. k = ''__accessUsers'' \<and> map_of (ei_fields r') k = Some v \<and> inheritedFrom db tid r' v)"
    using perform_origin [OF run keys r'] rowStep_reserved [OF _ zod names k] rowStep_sel
      rowNew_reserved [OF _ zod names k] by blast
qed

lemma rec_demo_strips: "stripsUnknown rec_demo_env"
  by (force simp: stripsUnknown_def rec_demo_env_def)

lemma rec_demo_names: "namesUnreserved rec_demo_env rec_demo_db"
  by (simp add: namesUnreserved_def rec_demo_env_def rec_demo_db_def empty_rec_db_def rec_demo_field_def
      isReservedFieldName_def startsWith_def)

theorem reserved_closed_witness:
  "\<exists>db' r'. performRec rec_demo_env rec_demo_db ''t1'' (RcChild rec_demo_child) = Some (Inr db') \<and>
     r' \<in> set (rd_instances db') \<and> ei_id r' = ''n'' \<and>
     (\<exists>v. map_of (ei_fields r') ''__accessUsers'' = Some v \<and> inheritedFrom rec_demo_db ''t1'' r' v)"
proof -
  have "case performRec rec_demo_env rec_demo_db ''t1'' (RcChild rec_demo_child) of
     Some (Inr db') \<Rightarrow> (\<exists>r' \<in> set (rd_instances db'). ei_id r' = ''n'' \<and> map_of (ei_fields r') ''__accessUsers'' \<noteq> None) | _ \<Rightarrow> False"
    by code_simp
  from rec_demo_returns [OF this] obtain db' r' where
    run: "performRec rec_demo_env rec_demo_db ''t1'' (RcChild rec_demo_child) = Some (Inr db')"
    and r': "r' \<in> set (rd_instances db')" "ei_id r' = ''n''" "map_of (ei_fields r') ''__accessUsers'' \<noteq> None" by blast
  have "isReservedFieldName ''__accessUsers''" by (simp add: isReservedFieldName_def startsWith_def)
  from reserved_closed [OF run rec_demo_keys rec_demo_strips rec_demo_names this r'(1)] run r'
  show ?thesis by (auto simp: rec_demo_db_def empty_rec_db_def rec_demo_row_def)
qed

end
