(* ===== verification/RecDue.thy ===== *)
theory RecDue
  imports RecProps
begin

text \<open>
  Due-date markers. A record with a due date has a marker in the outbox, from which the worker makes the
  reminder job. The markers that are still pending are accurate: at most one per record, for a live record,
  with the record's current due date. What counts of an operation is how it changes the table of records
  and the outbox; the lemmas are about these two lists.
\<close>

section \<open>Pending markers\<close>

definition pend :: "string \<Rightarrow> string \<Rightarrow> outbox_events_row list \<Rightarrow> outbox_events_row list" where
  "pend T i out = filter (isPendingDue T i) out"

definition markerOk :: "entity_row list \<Rightarrow> string \<Rightarrow> string \<Rightarrow> outbox_events_row list \<Rightarrow> bool" where
  "markerOk t T i ms =
     (ms = [] \<or> (\<exists>m r d. ms = [m] \<and> r \<in> set t \<and> isLiveEntity T i r \<and> ri_dueDate r = Some d \<and>
        ob_payload m = buildEntityDueDateScheduledPayload T i (ei_entityTypeId r) d))"

definition dueSound :: "entity_row list \<Rightarrow> outbox_events_row list \<Rightarrow> bool" where
  "dueSound t out = (\<forall>T i. markerOk t T i (pend T i out))"

definition dueInv :: "rec_db \<Rightarrow> bool" where
  "dueInv db = dueSound (rd_instances db) (rd_outbox db)"

text \<open>A live record stays live and keeps its due date and its type.\<close>

definition sameDue :: "entity_row \<Rightarrow> entity_row \<Rightarrow> bool" where
  "sameDue r r' = (ri_deletedAt r = None \<longrightarrow> ri_deletedAt r' = None \<and> ei_id r' = ei_id r \<and> ei_tenantId r' = ei_tenantId r \<and>
     ri_dueDate r' = ri_dueDate r \<and> ei_entityTypeId r' = ei_entityTypeId r)"

definition keepsDue :: "entity_row list \<Rightarrow> entity_row list \<Rightarrow> bool" where
  "keepsDue t t' = (\<forall>r \<in> set t. \<exists>r' \<in> set t'. sameDue r r')"

lemma sameDue_live: "sameDue r r' \<Longrightarrow> isLiveEntity T i r \<Longrightarrow>
    isLiveEntity T i r' \<and> ri_dueDate r' = ri_dueDate r \<and> ei_entityTypeId r' = ei_entityTypeId r"
  by (simp add: sameDue_def isLiveEntity_def isEntity_def)

lemma markerOk_keeps: "markerOk t T i ms \<Longrightarrow> keepsDue t t' \<Longrightarrow> markerOk t' T i ms"
proof -
  assume ok: "markerOk t T i ms" and keeps: "keepsDue t t'"
  show "markerOk t' T i ms"
  proof (cases "ms = []")
    case False
    then obtain m r d where m: "ms = [m]" "r \<in> set t" "isLiveEntity T i r" "ri_dueDate r = Some d"
      "ob_payload m = buildEntityDueDateScheduledPayload T i (ei_entityTypeId r) d"
      using ok unfolding markerOk_def by blast
    then obtain r' where "r' \<in> set t'" "sameDue r r'" using keeps unfolding keepsDue_def by blast
    with m sameDue_live [OF this(2) m(3)] show ?thesis unfolding markerOk_def by metis
  qed (simp add: markerOk_def)
qed

lemma dueSound_keeps: "dueSound t out \<Longrightarrow> keepsDue t t' \<Longrightarrow> dueSound t' out"
  unfolding dueSound_def by (blast intro: markerOk_keeps)

lemma sameDue_refl [simp]: "sameDue r r"
  by (simp add: sameDue_def)

lemma keepsDue_append: "keepsDue t (t @ rows)"
  unfolding keepsDue_def using sameDue_refl by fastforce

lemma keepsDue_all2: "list_all2 sameDue t t' \<Longrightarrow> keepsDue t t'"
  unfolding keepsDue_def list_all2_conv_all_nth by (metis in_set_conv_nth)

lemma keepsDue_update:
  assumes "\<And>r. r \<in> set t \<Longrightarrow> P r \<Longrightarrow> sameDue r (f r)"
  shows "keepsDue t (updateW P f t)"
  using assms by (intro keepsDue_all2) (simp add: updateW_def list_all2_conv_all_nth)

lemma pend_append_other:
  assumes "list_all (\<lambda>r. ob_eventType r \<noteq> dueScheduled) rows"
  shows "pend T i (out @ rows) = pend T i out"
proof -
  have "filter (isPendingDue T i) rows = []"
    using assms by (simp add: filter_empty_conv list_all_iff isPendingDue_def)
  then show ?thesis by (simp add: pend_def)
qed

lemma dueSound_append:
  "list_all (\<lambda>r. ob_eventType r \<noteq> dueScheduled) rows \<Longrightarrow> dueSound t (out @ rows) = dueSound t out"
  by (simp add: dueSound_def pend_append_other)

lemma markers_none: "dueSound t out \<Longrightarrow> (\<And>r. r \<in> set t \<Longrightarrow> \<not> isLiveEntity T i r) \<Longrightarrow> pend T i out = []"
  unfolding dueSound_def markerOk_def by metis

section \<open>Rescheduling\<close>

definition rescheduled ::
  "rec_env \<Rightarrow> nat \<Rightarrow> string \<Rightarrow> string \<Rightarrow> string \<Rightarrow> date option \<Rightarrow> date option \<Rightarrow> outbox_events_row list \<Rightarrow> outbox_events_row list" where
  "rescheduled env k tid i ty a b out =
     (if a = b then out
      else cancelDue env tid i out @ (case b of None \<Rightarrow> []
        | Some d \<Rightarrow> [outboxRow env k tid dueScheduled (buildEntityDueDateScheduledPayload tid i ty d)]))"

lemma reschedule_outbox [simp]:
  "rd_outbox (rescheduleDueDate env k tid i ty a b db) = rescheduled env k tid i ty a b (rd_outbox db)"
  "rd_instances (rescheduleDueDate env k tid i ty a b db) = rd_instances db"
  by (simp_all add: rescheduled_def rescheduleDueDate_def)

lemma rescheduled_same [simp]: "rescheduled env k tid i ty a a out = out"
  by (simp add: rescheduled_def)

lemma delivered_not_pending [simp]: "\<not> isPendingDue T i (r\<lparr>ob_deliveredAt := Some d\<rparr>)"
  by (simp add: isPendingDue_def)

lemma pend_delivered:
  "pend T i (updateW P (\<lambda>r. r\<lparr>ob_deliveredAt := Some d\<rparr>) out) = filter (\<lambda>r. isPendingDue T i r \<and> \<not> P r) out"
  by (induction out) (simp_all add: pend_def updateW_def)

lemma pend_cancel: "pend T i (cancelDue env tid j out) = (if T = tid \<and> i = j then [] else pend T i out)"
proof -
  have "isPendingDue T i r \<and> \<not> isPendingDue tid j r \<longleftrightarrow> \<not> (T = tid \<and> i = j) \<and> isPendingDue T i r" for r
    unfolding isPendingDue_def by (metis option.inject)
  then show ?thesis unfolding cancelDue_def pend_delivered by (simp add: pend_def)
qed

lemma pend_marker:
  "isPendingDue T i (outboxRow env k tid dueScheduled (buildEntityDueDateScheduledPayload tid j ty d)) \<longleftrightarrow> T = tid \<and> i = j"
  by (auto simp: isPendingDue_def pgText_def buildEntityDueDateScheduledPayload_def)

lemma pend_rescheduled:
  assumes "a \<noteq> b"
  shows "pend tid j (rescheduled env k tid j ty a b out) =
    (case b of None \<Rightarrow> [] | Some d \<Rightarrow> [outboxRow env k tid dueScheduled (buildEntityDueDateScheduledPayload tid j ty d)])"
  using assms pend_cancel [of tid j env tid j out]
  by (auto simp: rescheduled_def pend_def pend_marker split: option.split)

lemma pend_rescheduled_other:
  assumes "\<not> (T = tid \<and> i = j)"
  shows "pend T i (rescheduled env k tid j ty a b out) = pend T i out"
  using assms pend_cancel [of T i env tid j out] pend_marker [of T i env k tid j ty]
  by (auto simp: rescheduled_def pend_def split: option.split)

text \<open>
  A write that may change the due date of one record, followed by the call that reschedules it: \<open>a\<close> is the
  date before and \<open>b\<close> the date after.
\<close>

lemma dueSound_rescheduled:
  assumes others: "\<And>T i. \<not> (T = tid \<and> i = j) \<Longrightarrow> markerOk t T i (pend T i out)"
    and same: "a = b \<Longrightarrow> markerOk t tid j (pend tid j out)"
    and row: "b \<noteq> None \<Longrightarrow> \<exists>r \<in> set t. isLiveEntity tid j r \<and> ri_dueDate r = b \<and> ei_entityTypeId r = ty"
  shows "dueSound t (rescheduled env k tid j ty a b out)"
proof -
  have "markerOk t T i (pend T i (rescheduled env k tid j ty a b out))" for T i
  proof (cases "T = tid \<and> i = j")
    case True
    show ?thesis
    proof (cases "a = b")
      case True
      then show ?thesis using same \<open>T = tid \<and> i = j\<close> by simp
    next
      case False
      then show ?thesis using row \<open>T = tid \<and> i = j\<close>
        by (cases b) (auto simp: pend_rescheduled markerOk_def)
    qed
  next
    case False
    then show ?thesis using others by (simp add: pend_rescheduled_other)
  qed
  then show ?thesis by (simp add: dueSound_def)
qed

text \<open>An edit of one live record with its rescheduling.\<close>

lemma dueSound_edit:
  assumes inv: "dueSound t out" and ids: "distinct (map ei_id t)"
    and r0: "r0 \<in> set t" "isLiveEntity tid i r0"
    and f: "\<And>r. ei_id (f r) = ei_id r \<and> ei_tenantId (f r) = ei_tenantId r \<and> ri_deletedAt (f r) = ri_deletedAt r \<and>
              ei_entityTypeId (f r) = ei_entityTypeId r"
  shows "dueSound (updateW (isEntity tid i) f t)
    (rescheduled env k tid i (ei_entityTypeId r0) (ri_dueDate r0) (ri_dueDate (f r0)) out)"
proof (rule dueSound_rescheduled)
  have only: "r = r0" if "r \<in> set t" "isEntity tid i r" for r
    using keyed_unique [OF ids that(1) r0(1)] that(2) r0(2) by (simp add: isLiveEntity_def isEntity_def)
  have m: "markerOk t T j (pend T j out)" for T j using inv by (simp add: dueSound_def)
  show "markerOk (updateW (isEntity tid i) f t) T j (pend T j out)" if o: "\<not> (T = tid \<and> j = i)" for T j
  proof -
    have "r \<in> set (updateW (isEntity tid i) f t)" if "r \<in> set t" "isLiveEntity T j r" for r
      using that o by (force simp: updateW_def isLiveEntity_def isEntity_def)
    then show ?thesis using m [of T j] unfolding markerOk_def by blast
  qed
  show "markerOk (updateW (isEntity tid i) f t) tid i (pend tid i out)" if "ri_dueDate r0 = ri_dueDate (f r0)"
  proof (rule markerOk_keeps [OF m])
    have "sameDue r (f r)" if r: "r \<in> set t" "isEntity tid i r" for r
      using only [OF r] f [of r] \<open>ri_dueDate r0 = ri_dueDate (f r0)\<close> by (simp add: sameDue_def)
    then show "keepsDue t (updateW (isEntity tid i) f t)" by (rule keepsDue_update)
  qed
  have "f r0 \<in> set (updateW (isEntity tid i) f t)" using r0 by (auto simp: updateW_def isLiveEntity_def)
  moreover have "isLiveEntity tid i (f r0)" using r0(2) f [of r0] by (simp add: isLiveEntity_def isEntity_def)
  ultimately show "\<exists>r \<in> set (updateW (isEntity tid i) f t). isLiveEntity tid i r \<and> ri_dueDate r = ri_dueDate (f r0) \<and>
      ei_entityTypeId r = ei_entityTypeId r0"
    using f [of r0] by auto
qed

section \<open>Effects that are not markers\<close>

named_theorems due_simps \<open>what the parts of an operation do to records and outbox\<close>

definition otherEvents :: "outbox_events_row list \<Rightarrow> bool" where
  "otherEvents rows = list_all (\<lambda>r. ob_eventType r \<noteq> dueScheduled) rows"

lemma dueSound_other [due_simps]: "otherEvents rows \<Longrightarrow> dueSound t (out @ rows) = dueSound t out"
  by (simp add: otherEvents_def dueSound_append)

lemma otherEvents_simps [due_simps]:
  "otherEvents []" "otherEvents (a @ b) \<longleftrightarrow> otherEvents a \<and> otherEvents b"
  "otherEvents [outboxRow env k tid ty p] \<longleftrightarrow> ty \<noteq> dueScheduled"
  by (auto simp: otherEvents_def)

lemma otherEvents_create [due_simps]: "otherEvents (createOutbox env k tid a d row f)"
  by (cases "ei_assignedTo row") (simp_all add: otherEvents_def createOutbox_def dueScheduled_def)

lemma otherEvents_assign [due_simps]: "otherEvents (assignmentRows env k tid a d x y)"
  by (cases "ei_assignedTo x"; cases "ei_assignedTo y") (simp_all add: otherEvents_def assignmentRows_def dueScheduled_def)

lemma dueInv_audit: "upToAudit db db' \<Longrightarrow> dueInv db' = dueInv db"
  by (simp add: dueInv_def upToAudit_sel)

lemma logUpdate_sel [due_simps]:
  "rd_instances (logUpdate env tid i input r row w c db) = rd_instances db"
  "rd_outbox (logUpdate env tid i input r row w c db) = rd_outbox db"
  by (simp_all add: logUpdate_def)

lemma announceUpdate_due [due_simps]: "dueInv (announceUpdate env tid i input r c db) = dueInv db"
  by (simp add: announceUpdate_def dueInv_def due_simps dueScheduled_def)

lemma recordFieldUpdate_due [due_simps]: "dueInv (recordFieldUpdate env tid i input r row fs db) = dueInv db"
  by (cases "effectiveWorkflowId db tid i row") (simp_all add: recordFieldUpdate_def Let_def due_simps, simp add: dueInv_def due_simps)

lemma recordColumnUpdate_due [due_simps]: "dueInv (recordColumnUpdate env tid i input r row db) = dueInv db"
  by (cases "effectiveWorkflowId db tid i row") (simp_all add: recordColumnUpdate_def dueInv_def due_simps)

lemma linkHistory_sel [due_simps]:
  "rd_instances (linkHistory env tid a b ty u k db) = rd_instances db"
  "rd_outbox (linkHistory env tid a b ty u k db) = rd_outbox db"
proof -
  have "rd_instances (writeLinkHistoryEvent env n tid i c ty u k db) = rd_instances db \<and>
    rd_outbox (writeLinkHistoryEvent env n tid i c ty u k db) = rd_outbox db" for n i c db
    by (cases "historyContext db tid i") (auto simp: writeLinkHistoryEvent_def)
  then show "rd_instances (linkHistory env tid a b ty u k db) = rd_instances db"
    "rd_outbox (linkHistory env tid a b ty u k db) = rd_outbox db"
    by (simp_all add: linkHistory_def)
qed

section \<open>Writes that leave due dates alone\<close>

lemma dueInv_keeps:
  "dueInv db \<Longrightarrow> keepsDue (rd_instances db) (rd_instances db') \<Longrightarrow> otherEvents rows \<Longrightarrow> rd_outbox db' = rd_outbox db @ rows \<Longrightarrow> dueInv db'"
  by (simp add: dueInv_def due_simps dueSound_keeps)

lemma dueInv_same: "dueInv db \<Longrightarrow> rd_instances db' = rd_instances db \<Longrightarrow> rd_outbox db' = rd_outbox db \<Longrightarrow> dueInv db'"
  by (simp add: dueInv_def)

lemma severity_due: "setEntityInstanceSeverity env db tid i s = Inr (x, db') \<Longrightarrow> dueInv db \<Longrightarrow> dueInv db'"
proof -
  assume run: "setEntityInstanceSeverity env db tid i s = Inr (x, db')" and inv: "dueInv db"
  have "db' = db\<lparr>rd_instances := updateW (isEntity tid i) (\<lambda>r. r\<lparr>ri_severity := Some s, ei_updatedAt := re_updatedAt env\<rparr>) (rd_instances db)\<rparr>"
    using run by (auto simp: setEntityInstanceSeverity_def result_simps)
  then show "dueInv db'" by (intro dueInv_keeps [OF inv, where rows = "[]"]) (simp_all add: keepsDue_update sameDue_def due_simps)
qed

lemma state_due: "setEntityState env db tid i s a = Inr (x, db') \<Longrightarrow> dueInv db \<Longrightarrow> dueInv db'"
proof -
  assume run: "setEntityState env db tid i s a = Inr (x, db')" and inv: "dueInv db"
  define db1 where "db1 = db\<lparr>rd_instances := updateW (isEntity tid i)
      (\<lambda>r. r\<lparr>ei_currentState := s, ei_updatedAt := re_updatedAt env\<rparr>) (rd_instances db)\<rparr>"
  obtain r0 p where audit: "fireEntityAuditHook env p (directSetSide env tid a r0 s db1) = Inr db'"
    using setEntityState_inv [OF run] unfolding db1_def by blast
  have "dueInv db1"
    unfolding db1_def by (rule dueInv_keeps [OF inv, where rows = "[]"]) (simp_all add: keepsDue_update sameDue_def due_simps)
  then have "dueInv (directSetSide env tid a r0 s db1)"
    by (cases "truthyId (ei_workflowId r0)") (simp_all add: directSetSide_def dueInv_def due_simps dueScheduled_def)
  then show "dueInv db'" using dueInv_audit [OF fire_upToAudit [OF audit]] by simp
qed

lemma bulkSetState_due: "bulkSetState env db tid items a = Inr (x, db') \<Longrightarrow> dueInv db \<Longrightarrow> dueInv db'"
proof -
  assume run: "bulkSetState env db tid items a = Inr (x, db')" and inv: "dueInv db"
  from run show "dueInv db'"
  proof (cases rule: bulkSetState_inv)
    case (2 groups es os ps)
    define db1 where "db1 = db\<lparr>rd_instances := writeStates env tid groups (rd_instances db), rd_events := rd_events db @ es,
      rd_outbox := rd_outbox db @ os\<rparr>"
    have "list_all2 sameDue t (writeStates env tid groups t)" for t
    proof (induction groups rule: rev_induct)
      case (snoc g groups)
      obtain s ids where g: "g = (s, ids)" by (cases g)
      have "writeStates env tid (groups @ [g]) t = map (\<lambda>r. if ei_id r \<in> set ids \<and> ei_tenantId r = tid
          then r\<lparr>ei_currentState := s, ei_updatedAt := re_updatedAt env\<rparr> else r) (writeStates env tid groups t)"
        by (simp add: writeStates_def g updateW_def)
      then show ?case by (simp only: list_all2_map2) (rule list_all2_mono [OF snoc], simp add: sameDue_def)
    qed (simp add: writeStates_def list.rel_refl)
    moreover have "otherEvents os" using 2(3) by (auto simp: otherEvents_def list_all_iff dueScheduled_def)
    ultimately have "dueInv db1"
      unfolding db1_def by (intro dueInv_keeps [OF inv, where rows = os]) (simp_all add: keepsDue_all2)
    then show ?thesis using dueInv_audit [OF fireAll_upToAudit [OF 2(4)]] by (simp add: db1_def)
  qed (use inv in simp)
qed

lemma insertLink_due: "insertLink env tid p c db = Inr (x, db') \<Longrightarrow> dueInv db' = dueInv db"
  by (auto simp: insertLink_def Let_def bindE_eq_Inr dueInv_def)

lemma child_due: "createChildRelation env db tid input = Inr (x, db') \<Longrightarrow> dueInv db \<Longrightarrow> dueInv db'"
proof -
  assume run: "createChildRelation env db tid input = Inr (x, db')" and inv: "dueInv db"
  obtain w row t links where ins: "insertKeyed ei_id row (rd_instances db) = Inr t"
    and link: "insertLink env tid (cc_parentId input) (ei_id row) (childInserted env tid input w row t db) = Inr (links, db')"
    by (rule createChild_inv [OF run])
  have "dueInv (childInserted env tid input w row t db)"
    using ins unfolding childInserted_def
    by (intro dueInv_keeps [OF inv]) (simp_all add: insertKeyed_Inr keepsDue_append due_simps)
  then show "dueInv db'" using insertLink_due [OF link] by simp
qed

lemma move_due: "moveChildRelation env db tid c p = Some (Inr (x, db')) \<Longrightarrow> dueInv db \<Longrightarrow> dueInv db'"
proof -
  assume run: "moveChildRelation env db tid c p = Some (Inr (x, db'))" and inv: "dueInv db"
  have unlink: "dueInv (unlink env tid c db)" by (rule dueInv_same [OF inv]) (simp_all add: unlink_def Let_def)
  obtain child where child: "lockedParent db tid c = Inr child"
    using run by (cases "lockedParent db tid c") (auto simp: moveChildRelation_def)
  show "dueInv db'"
  proof (cases "truthyId p")
    case None
    then have "db' = detach env tid c (unlink env tid c db)" using run child by (simp add: moveChildRelation_def Let_def)
    then show ?thesis
      by (intro dueInv_keeps [OF unlink, where rows = "[]"]) (simp_all add: detach_def keepsDue_update sameDue_def due_simps)
  next
    case (Some q)
    then have "insertLink env tid q c (unlink env tid c db) = Inr (x, db')"
      using run child by (auto simp: moveChildRelation_def Let_def bindE_eq_Inr split: bind_splits)
    then show ?thesis using insertLink_due unlink by blast
  qed
qed

lemma restore_due: "restoreEntity db tid i = Some (Inr (x, db')) \<Longrightarrow> dueInv db \<Longrightarrow> dueInv db'"
proof -
  assume run: "restoreEntity db tid i = Some (Inr (x, db'))" and inv: "dueInv db"
  obtain ts ids where "db' = restoreAll tid i ts ids db"
    using run by (auto simp: restoreEntity_def Let_def split: option.splits bind_splits)
  then show "dueInv db'"
    by (intro dueInv_keeps [OF inv, where rows = "[]"]) (simp_all add: restoreAll_def Let_def keepsDue_update sameDue_def due_simps)
qed

section \<open>Writes that change due dates\<close>

text \<open>A new record with a due date gets its marker.\<close>

lemma dueSound_new:
  assumes "dueSound t out" "row \<in> set t" "isLiveEntity tid i row"
  shows "dueSound t (rescheduled env k tid i (ei_entityTypeId row) None (ri_dueDate row) out)"
  using assms by (intro dueSound_rescheduled) (auto simp: dueSound_def)

lemma recordCreated_due:
  assumes "dueInv db" "row \<in> set (rd_instances db)" "isLiveEntity tid (ei_id row) row"
  shows "dueInv (recordCreated env tid input fs row db)"
    "ri_dueDate row = Some d \<Longrightarrow> pend tid (ei_id row) (rd_outbox (recordCreated env tid input fs row db)) =
       [outboxRow env 0 tid dueScheduled (buildEntityDueDateScheduledPayload tid (ei_id row) (ei_entityTypeId row) d)]"
proof -
  have out: "rd_outbox (recordCreated env tid input fs row db) =
      rescheduled env 0 tid (ei_id row) (ei_entityTypeId row) None (ri_dueDate row) (rd_outbox db) @
      createOutbox env 1 tid (ci_actorId input) (ci_depth input) row (redactFields (ei_fields row) (fieldSensitivityMap fs))"
    by (cases "truthyId (ei_workflowId row)"; cases "ri_dueDate row") (simp_all add: recordCreated_def Let_def)
  have inst: "rd_instances (recordCreated env tid input fs row db) = rd_instances db"
    by (cases "truthyId (ei_workflowId row)") (simp_all add: recordCreated_def Let_def)
  show "dueInv (recordCreated env tid input fs row db)"
    unfolding dueInv_def out inst using dueSound_new [OF assms(1) [unfolded dueInv_def] assms(2,3)] by (simp add: due_simps)
  have "otherEvents (createOutbox env 1 tid (ci_actorId input) (ci_depth input) row (redactFields (ei_fields row) (fieldSensitivityMap fs)))"
    by (simp add: due_simps)
  from pend_append_other [OF this [unfolded otherEvents_def]]
  show "pend tid (ei_id row) (rd_outbox (recordCreated env tid input fs row db)) =
       [outboxRow env 0 tid dueScheduled (buildEntityDueDateScheduledPayload tid (ei_id row) (ei_entityTypeId row) d)]"
    if "ri_dueDate row = Some d"
    unfolding out by (simp add: pend_rescheduled that)
qed

lemma create_due:
  assumes run: "createEntity env db tid input = Inr (row, db')" and inv: "dueInv db"
  shows "dueInv db'"
    "ri_dueDate row = Some d \<Longrightarrow> pend tid (ei_id row) (rd_outbox db') =
       [outboxRow env 0 tid dueScheduled (buildEntityDueDateScheduledPayload tid (ei_id row) (ei_entityTypeId row) d)]"
proof -
  obtain ty fs flds state due t where row: "row = newEntityRow env 0 tid input (ci_severity input) state flds due"
    and ins: "insertKeyed ei_id row (rd_instances db) = Inr t"
    and fire: "fireEntityAuditHook env (createAudit tid input ty fs row)
       (recordCreated env tid input fs row (db\<lparr>rd_instances := t\<rparr>)) = Inr db'"
    by (rule createEntity_inv [OF run])
  have t: "t = rd_instances db @ [row]" using ins by (simp add: insertKeyed_Inr)
  have 1: "dueInv (db\<lparr>rd_instances := t\<rparr>)"
    by (rule dueInv_keeps [OF inv, where rows = "[]"]) (simp_all add: t keepsDue_append due_simps)
  have 2: "row \<in> set (rd_instances (db\<lparr>rd_instances := t\<rparr>))" by (simp add: t)
  have 3: "isLiveEntity tid (ei_id row) row" by (simp add: row newEntityRow_def isLiveEntity_def isEntity_def)
  show "dueInv db'" using recordCreated_due(1) [OF 1 2 3] dueInv_audit [OF fire_upToAudit [OF fire]] by simp
  show "pend tid (ei_id row) (rd_outbox db') =
       [outboxRow env 0 tid dueScheduled (buildEntityDueDateScheduledPayload tid (ei_id row) (ei_entityTypeId row) d)]"
    if "ri_dueDate row = Some d"
    using recordCreated_due(2) [OF 1 2 3 that] upToAudit_sel(5) [OF fire_upToAudit [OF fire]] by simp
qed

lemma create_only:
  assumes run: "createEntity env db tid input = Inr (row, db')" and r: "r \<in> set (rd_instances db')" "ei_id r = ei_id row"
  shows "r = row"
proof -
  obtain ty fs flds state due t where ins: "insertKeyed ei_id row (rd_instances db) = Inr t"
    and fire: "fireEntityAuditHook env (createAudit tid input ty fs row)
       (recordCreated env tid input fs row (db\<lparr>rd_instances := t\<rparr>)) = Inr db'"
    by (rule createEntity_inv [OF run])
  have "rd_instances db' = t"
    using upToAudit_sel(1) [OF fire_upToAudit [OF fire]]
    by (cases "truthyId (ei_workflowId row)") (simp_all add: recordCreated_def Let_def)
  moreover have "t = rd_instances db @ [row]" "ei_id row \<notin> ei_id ` set (rd_instances db)"
    using ins by (simp_all add: insertKeyed_Inr)
  ultimately show ?thesis using r image_eqI [of "ei_id row" ei_id r] by auto
qed

lemma scheduleAll_due:
  assumes "dueInv db" "\<And>p. p \<in> set ps \<Longrightarrow> bn_row (snd p) \<in> set (rd_instances db) \<and>
      isLiveEntity tid (ei_id (bn_row (snd p))) (bn_row (snd p))"
  shows "dueInv (fold (scheduleNew env tid) ps db)"
  using assms
proof (induction ps arbitrary: db)
  case (Cons p ps)
  have out: "rd_outbox (scheduleNew env tid p db) = rescheduled env (3 * fst p + 2) tid (ei_id (bn_row (snd p)))
      (ei_entityTypeId (bn_row (snd p))) None (ri_dueDate (bn_row (snd p))) (rd_outbox db)"
    by (cases "ri_dueDate (bn_row (snd p))") (simp_all add: scheduleNew_def Let_def)
  have inst: "rd_instances (scheduleNew env tid p db) = rd_instances db" by (simp add: scheduleNew_def Let_def)
  have "dueInv (scheduleNew env tid p db)"
    unfolding dueInv_def out inst using Cons.prems(1) Cons.prems(2) [of p] by (intro dueSound_new) (simp_all add: dueInv_def)
  then show ?case using Cons.IH [of "scheduleNew env tid p db"] Cons.prems(2) by (simp add: inst)
qed simp

lemma bulkCreate_due:
  assumes run: "bulkCreateEntities env db tid inputs = Inr (x, db')" and inv: "dueInv db"
  shows "dueInv db'"
  using run
proof (cases rule: bulkCreate_inv)
  case (2 errors news rows)
  have rows: "rows = rd_instances db @ map bn_row news" by (rule insertAll_Inr [OF 2(2)])
  have other: "otherEvents (concat (map (\<lambda>(idx, n). bulkCreatedRows env tid idx n) ps))" for ps
    by (induction ps) (auto simp: due_simps bulkCreatedRows_def)
  have 1: "dueInv (bulkInserted env tid news rows db)"
    unfolding bulkInserted_def by (rule dueInv_keeps [OF inv _ other]) (simp_all add: rows keepsDue_append)
  have "dueInv (fold (scheduleNew env tid) (zip [0..<length news] news) (bulkInserted env tid news rows db))"
  proof (rule scheduleAll_due [OF 1])
    fix p assume "p \<in> set (zip [0..<length news] news)"
    then have n: "snd p \<in> set news" using set_zip_rightD [of "fst p" "snd p"] by simp
    then have "rowNew env db tid (bn_row (snd p))" using bulkCreateItems_new [OF 2(1)] by (auto simp: list_all_iff)
    then show "bn_row (snd p) \<in> set (rd_instances (bulkInserted env tid news rows db)) \<and>
        isLiveEntity tid (ei_id (bn_row (snd p))) (bn_row (snd p))"
      using n rowNew_tenant by (auto simp: bulkInserted_def rows isLiveEntity_def isEntity_def)
  qed
  then show ?thesis using dueInv_audit [OF fireAll_upToAudit [OF 2(3)]] by simp
qed (use inv in simp)

text \<open>An edit that does not name the due date keeps it, so that its rescheduling would do nothing.\<close>

lemma editColumn_none: "editColumn env None = Inr due \<Longrightarrow> due = None"
  by (simp add: editColumn_def)

lemma applyEdit_due: "ei_entityTypeId (applyEdit env e r) = ei_entityTypeId r"
  "ri_dueDate (applyEdit env e r) = dflt (ri_dueDate r) (ed_dueDate e)"
  by (simp_all add: applyEdit_def)

lemma editEffects_due:
  assumes inv: "dueInv db" and keys: "recKeys db" and r0: "select1 (isLiveEntity tid i) (rd_instances db) = Some r0"
    and due: "editColumn env (ui_dueDate input) = Inr (ed_dueDate e)"
    and db1: "db1 = db\<lparr>rd_instances := updateW (isEntity tid i) (applyEdit env e) (rd_instances db)\<rparr>"
    and row: "select1 (isEntity tid i) (rd_instances db1) = Some row"
  shows "dueInv (editEffects env tid input r0 row db1)"
    "ui_dueDate input \<noteq> None \<Longrightarrow> ri_dueDate row \<noteq> ri_dueDate r0 \<Longrightarrow>
      map ob_payload (pend tid i (rd_outbox (editEffects env tid input r0 row db1))) =
        (case ri_dueDate row of None \<Rightarrow> [] | Some d \<Rightarrow> [buildEntityDueDateScheduledPayload tid i (ei_entityTypeId row) d])"
proof -
  have live: "r0 \<in> set (rd_instances db)" "isLiveEntity tid i r0" using select1_Some [OF r0] by auto
  have ids: "distinct (map ei_id (rd_instances db))" using keys by (simp add: recKeys_def)
  have i: "ei_id row = i" "row \<in> set (rd_instances db1)" using select1_Some [OF row] by (auto simp: isEntity_def)
  have "ei_id (applyEdit env e r0) = i" "applyEdit env e r0 \<in> set (rd_instances db1)"
    using live by (auto simp: db1 updateW_def isLiveEntity_def isEntity_def)
  moreover have "distinct (map ei_id (rd_instances db1))" using ids by (simp add: db1 map_updateW_same)
  ultimately have row0: "row = applyEdit env e r0" using keyed_unique [OF _ i(2)] i(1) by blast
  have same: "ui_dueDate input = None \<Longrightarrow> ri_dueDate row = ri_dueDate r0"
    using due editColumn_none [of env "ed_dueDate e"] by (simp add: row0 applyEdit_due)
  define rows where "rows = assignmentRows env 0 tid (ui_actorId input) (ui_depth input) r0 row"
  have out: "rd_outbox (editEffects env tid input r0 row db1) =
      rescheduled env 2 tid i (ei_entityTypeId r0) (ri_dueDate r0) (ri_dueDate (applyEdit env e r0)) (rd_outbox db @ rows)"
    using same by (simp add: editEffects_def Let_def rows_def row0 applyEdit_due db1 isLiveEntity_def isEntity_def i(1) [unfolded row0 applyEdit_sel])
  have "dueSound (rd_instances db) (rd_outbox db @ rows)" using inv by (simp add: dueInv_def rows_def due_simps)
  then have "dueSound (updateW (isEntity tid i) (applyEdit env e) (rd_instances db)) (rescheduled env 2 tid i
      (ei_entityTypeId r0) (ri_dueDate r0) (ri_dueDate (applyEdit env e r0)) (rd_outbox db @ rows))"
    by (rule dueSound_edit [OF _ ids live]) (simp add: applyEdit_due)
  then show "dueInv (editEffects env tid input r0 row db1)"
    unfolding dueInv_def out by (simp add: db1 editEffects_def Let_def)
  show "map ob_payload (pend tid i (rd_outbox (editEffects env tid input r0 row db1))) =
      (case ri_dueDate row of None \<Rightarrow> [] | Some d \<Rightarrow> [buildEntityDueDateScheduledPayload tid i (ei_entityTypeId row) d])"
    if "ui_dueDate input \<noteq> None" "ri_dueDate row \<noteq> ri_dueDate r0"
    unfolding out using that(2) [symmetric]
    by (simp add: row0 [symmetric] pend_rescheduled applyEdit_due(1) [of env e r0, unfolded row0 [symmetric]] split: option.split)
qed

lemma updateWithFields_due:
  assumes run: "updateWithFields env db tid i r0 input provided = Inr (row, db')"
    and inv: "dueInv db" and keys: "recKeys db" and r0: "select1 (isLiveEntity tid i) (rd_instances db) = Some r0"
  shows "dueInv db'"
proof -
  obtain ty fs flds state due db1 where due: "editColumn env (ui_dueDate input) = Inr due"
    and db1: "db1 = db\<lparr>rd_instances := updateW (isEntity tid i) (applyEdit env \<lparr>ed_fields = Some flds,
         ed_assignedTo = ui_assignedTo input, ed_dueDate = due, ed_currentState = state\<rparr>) (rd_instances db)\<rparr>"
    and row: "select1 (isEntity tid i) (rd_instances db1) = Some row"
    and audit: "fireEntityAuditHook env (updateAudit tid i input ty fs r0 row)
      (recordFieldUpdate env tid i input r0 row fs (editEffects env tid input r0 row db1)) = Inr db'"
    by (rule updateWithFields_inv [OF run])
  show ?thesis
    using editEffects_due(1) [OF inv keys r0 _ db1 row] due dueInv_audit [OF fire_upToAudit [OF audit]] by (simp add: due_simps)
qed

lemma updateColumns_due:
  assumes run: "updateColumns env db tid i r0 input = Inr (row, db')"
    and inv: "dueInv db" and keys: "recKeys db" and r0: "select1 (isLiveEntity tid i) (rd_instances db) = Some r0"
  shows "dueInv db'"
proof -
  obtain state due db1 where due: "editColumn env (ui_dueDate input) = Inr due"
    and db1: "db1 = db\<lparr>rd_instances := updateW (isEntity tid i) (applyEdit env \<lparr>ed_fields = None,
         ed_assignedTo = ui_assignedTo input, ed_dueDate = due, ed_currentState = state\<rparr>) (rd_instances db)\<rparr>"
    and row: "select1 (isEntity tid i) (rd_instances db1) = Some row"
    and db': "db' = recordColumnUpdate env tid i input r0 row (editEffects env tid input r0 row db1)"
    by (rule updateColumns_inv [OF run])
  show ?thesis using editEffects_due(1) [OF inv keys r0 _ db1 row] due by (simp add: db' due_simps)
qed

lemma update_due:
  assumes "updateEntity env db tid i input = Inr (row, db')" "dueInv db" "recKeys db"
  shows "dueInv db'"
  using assms unfolding updateEntity_def
  by (auto simp: result_simps split: option.splits if_splits intro: updateWithFields_due updateColumns_due)

text \<open>
  The items of a bulk update read the records as they were before the call; with distinct ids an item finds
  its record as the call found it.
\<close>

definition untouched :: "string \<Rightarrow> string set \<Rightarrow> rec_db \<Rightarrow> rec_db \<Rightarrow> bool" where
  "untouched tid ids snap db =
     (distinct (map ei_id (rd_instances db)) \<and>
      (\<forall>r \<in> set (rd_instances snap). ei_id r \<in> ids \<longrightarrow> ei_tenantId r = tid \<longrightarrow> r \<in> set (rd_instances db)))"

lemma bulkWrite_due:
  assumes run: "bulkWrite env k tid i r0 input e meta db = Inr (row, rows, db')"
    and due: "editColumn env (ui_dueDate input) = Inr (ed_dueDate e)"
    and inv: "dueInv db" and r0: "select1 (isLiveEntity tid i) (rd_instances snap) = Some r0"
    and un: "untouched tid (insert i ids) snap db" and i: "i \<notin> ids"
  shows "dueInv db' \<and> otherEvents rows \<and> untouched tid ids snap db'"
proof -
  define t where "t = updateW (isEntity tid i) (applyEdit env e) (rd_instances db)"
  have live: "r0 \<in> set (rd_instances snap)" "isLiveEntity tid i r0" using select1_Some [OF r0] by auto
  then have r0: "r0 \<in> set (rd_instances db)" using un by (simp add: untouched_def isLiveEntity_def isEntity_def)
  have ids: "distinct (map ei_id (rd_instances db))" "distinct (map ei_id t)" using un by (simp_all add: untouched_def t_def map_updateW_same)
  have new: "applyEdit env e r0 \<in> set t" "isEntity tid i (applyEdit env e r0)"
    using r0 live(2) by (auto simp: t_def updateW_def isLiveEntity_def isEntity_def)
  then have sel: "select1 (isEntity tid i) t = Some (applyEdit env e r0)"
  proof (cases "select1 (isEntity tid i) t")
    case (Some r)
    then show ?thesis using select1_Some [OF Some] new keyed_unique [OF ids(2), of r "applyEdit env e r0"] by (simp add: isEntity_def)
  qed (auto simp: select1_None_iff)
  define db2 where "db2 = (if ui_dueDate input \<noteq> None
    then rescheduleDueDate env (3 * k + 2) tid (ei_id (applyEdit env e r0)) (ei_entityTypeId (applyEdit env e r0))
           (ri_dueDate r0) (ri_dueDate (applyEdit env e r0)) (db\<lparr>rd_instances := t\<rparr>)
    else db\<lparr>rd_instances := t\<rparr>)"
  obtain p where audit: "fireEntityAuditHook env p db2 = Inr db'"
    and rows: "rows = assignmentRows env (3 * k) tid (ui_actorId input) (ui_depth input) r0 (applyEdit env e r0)"
    using run unfolding bulkWrite_def Let_def t_def [symmetric] by (auto simp: sel db2_def bindE_eq_Inr cong: if_cong)
  have same: "ui_dueDate input = None \<Longrightarrow> ri_dueDate (applyEdit env e r0) = ri_dueDate r0"
    using due editColumn_none [of env "ed_dueDate e"] by (simp add: applyEdit_due)
  have id: "ei_id r0 = i" using live(2) by (simp add: isLiveEntity_def isEntity_def)
  have out: "rd_outbox db2 = rescheduled env (3 * k + 2) tid i (ei_entityTypeId r0) (ri_dueDate r0) (ri_dueDate (applyEdit env e r0)) (rd_outbox db)"
    using same by (simp add: db2_def id applyEdit_due(1))
  have inst: "rd_instances db2 = t" by (simp add: db2_def)
  have "dueSound t (rescheduled env (3 * k + 2) tid i (ei_entityTypeId r0) (ri_dueDate r0) (ri_dueDate (applyEdit env e r0)) (rd_outbox db))"
    unfolding t_def by (rule dueSound_edit [OF inv [unfolded dueInv_def] ids(1) r0 live(2)]) (simp add: applyEdit_due(1))
  then have "dueInv db2" unfolding dueInv_def out inst .
  then have "dueInv db'" using dueInv_audit [OF fire_upToAudit [OF audit]] by simp
  moreover have "rd_instances db' = t" using upToAudit_sel(1) [OF fire_upToAudit [OF audit]] inst by simp
  moreover have "untouched tid ids snap db'"
    unfolding untouched_def \<open>rd_instances db' = t\<close>
  proof (intro conjI ballI impI)
    fix r assume r: "r \<in> set (rd_instances snap)" "ei_id r \<in> ids" "ei_tenantId r = tid"
    then have "r \<in> set (rd_instances db)" "\<not> isEntity tid i r" using un i by (auto simp: untouched_def isEntity_def)
    then show "r \<in> set t" by (force simp: t_def updateW_def)
  qed (rule ids(2))
  ultimately show ?thesis by (simp add: rows due_simps)
qed

lemma bulkUpdateItem_due:
  assumes run: "bulkUpdateItem env k tid i r0 input db = Inr (row, rows, db')"
    and inv: "dueInv db" and r0: "select1 (isLiveEntity tid i) (rd_instances snap) = Some r0"
    and un: "untouched tid (insert i ids) snap db" and i: "i \<notin> ids"
  shows "dueInv db' \<and> otherEvents rows \<and> untouched tid ids snap db'"
proof -
  have less: "untouched tid ids snap db" using un by (simp add: untouched_def)
  consider (edit) flds due meta where "editColumn env (ui_dueDate input) = Inr due"
      "bulkWrite env k tid i r0 input \<lparr>ed_fields = flds, ed_assignedTo = ui_assignedTo input, ed_dueDate = due,
        ed_currentState = None\<rparr> meta db = Inr (row, rows, db')"
    | (nothing) "rows = []" "db' = db"
    using run by (cases "ui_fields input") (auto simp: bulkUpdateItem_def bindE_eq_Inr split: if_splits)
  then show ?thesis
  proof cases
    case edit
    then show ?thesis by (intro bulkWrite_due [OF edit(2) _ inv r0 un i]) simp
  qed (use inv less in \<open>simp add: due_simps\<close>)
qed

lemma bulkUpdateItems_due:
  assumes "bulkUpdateItems env snap tid k items db = Inr (res, rows, db')" "dueInv db"
    "untouched tid (fst ` set items) snap db" "distinct (map fst items)"
  shows "dueInv db' \<and> otherEvents rows"
  using assms
proof (induction items arbitrary: k db res rows)
  case (Cons item items)
  obtain i input where item: "item = (i, input)" by (cases item)
  have less: "untouched tid (fst ` set items) snap db" using Cons.prems(3) by (simp add: untouched_def)
  have d: "distinct (map fst items)" "i \<notin> fst ` set items" using Cons.prems(4) by (simp_all add: item)
  show ?case
  proof (cases "select1 (isLiveEntity tid i) (rd_instances snap)")
    case None
    then obtain res1 where "bulkUpdateItems env snap tid (k + 1) items db = Inr (res1, rows, db')"
      using Cons.prems(1) by (auto simp: item bindE_eq_Inr)
    then show ?thesis using Cons.IH [OF _ Cons.prems(2) less d(1)] by blast
  next
    case (Some r0)
    with Cons.prems(1) obtain outcome where o: "softly (bulkUpdateItem env k tid i r0 input db) = Inr outcome"
      by (auto simp: item bindE_eq_Inr)
    with Some Cons.prems(1) consider (bad) res1 where "bulkUpdateItems env snap tid (k + 1) items db = Inr (res1, rows, db')"
      | (good) row rows0 db0 res1 rows1 where "bulkUpdateItem env k tid i r0 input db = Inr (row, rows0, db0)"
        "bulkUpdateItems env snap tid (k + 1) items db0 = Inr (res1, rows1, db')" "rows = rows0 @ rows1"
      by (cases outcome) (auto simp: item bindE_eq_Inr softly_Inr_Inr)
    then show ?thesis
    proof cases
      case bad
      then show ?thesis using Cons.IH [OF _ Cons.prems(2) less d(1)] by blast
    next
      case good
      have un: "untouched tid (insert i (fst ` set items)) snap db" using Cons.prems(3) by (simp add: item)
      have 1: "dueInv db0 \<and> otherEvents rows0 \<and> untouched tid (fst ` set items) snap db0"
        by (rule bulkUpdateItem_due [OF good(1) Cons.prems(2) Some un d(2)])
      then have "dueInv db' \<and> otherEvents rows1" using Cons.IH [OF good(2) _ _ d(1)] by blast
      with 1 show ?thesis by (simp add: good(3) due_simps)
    qed
  qed
qed (simp add: due_simps)

lemma bulkUpdate_due:
  assumes run: "bulkUpdateEntities env db tid items = Inr (x, db')" and inv: "dueInv db" and keys: "recKeys db"
    and d: "distinct (map fst items)"
  shows "dueInv db'"
proof -
  obtain rows db1 where 1: "bulkUpdateItems env db tid 0 items db = Inr (x, rows, db1)"
    and db': "db' = db1\<lparr>rd_outbox := rd_outbox db1 @ rows\<rparr>"
    using run by (auto simp: bulkUpdateEntities_def bindE_eq_Inr)
  have "untouched tid (fst ` set items) db db" using keys by (simp add: untouched_def recKeys_def)
  from bulkUpdateItems_due [OF 1 inv this d] show ?thesis by (simp add: db' dueInv_def due_simps)
qed

section \<open>Deleting and archiving\<close>

text \<open>What leaves takes its pending markers along.\<close>

lemma markerOk_stays:
  "markerOk t T i ms \<Longrightarrow> (\<And>r. r \<in> set t \<Longrightarrow> isLiveEntity T i r \<Longrightarrow> r \<in> set t') \<Longrightarrow> markerOk t' T i ms"
  unfolding markerOk_def by blast

lemma delete_due:
  assumes run: "deleteEntity env db tid i a = Inr (x, db')" and inv: "dueInv db" and keys: "recKeys db"
  shows "dueInv db'"
proof -
  obtain r0 db1 p where r0: "select1 (isLiveEntity tid i) (rd_instances db) = Some r0"
    and db1: "db1 = db\<lparr>rd_instances := updateW (isLiveEntity tid i)
        (\<lambda>r. r\<lparr>ri_deletedAt := Some (re_updatedAt env)\<rparr>) (rd_instances db)\<rparr>"
    and audit: "fireEntityAuditHook env p (if ri_dueDate r0 \<noteq> None
        then rescheduleDueDate env 0 tid (ei_id r0) (ei_entityTypeId r0) (ri_dueDate r0) None db1 else db1) = Inr db'"
    by (rule deleteEntity_inv [OF run])
  define db2 where "db2 = (if ri_dueDate r0 \<noteq> None
        then rescheduleDueDate env 0 tid (ei_id r0) (ei_entityTypeId r0) (ri_dueDate r0) None db1 else db1)"
  have live: "r0 \<in> set (rd_instances db)" "isLiveEntity tid i r0" and id: "ei_id r0 = i"
    using select1_Some [OF r0] by (auto simp: isLiveEntity_def isEntity_def)
  have m: "markerOk (rd_instances db) T j (pend T j (rd_outbox db))" for T j using inv by (simp add: dueInv_def dueSound_def)
  have "dueSound (rd_instances db1) (rescheduled env 0 tid i (ei_entityTypeId r0) (ri_dueDate r0) None (rd_outbox db))"
  proof (rule dueSound_rescheduled)
    show "markerOk (rd_instances db1) T j (pend T j (rd_outbox db))" if "\<not> (T = tid \<and> j = i)" for T j
      by (rule markerOk_stays [OF m]) (use that in \<open>force simp: db1 updateW_def isLiveEntity_def isEntity_def\<close>)
    show "markerOk (rd_instances db1) tid i (pend tid i (rd_outbox db))" if none: "ri_dueDate r0 = None"
    proof -
      have "r = r0" if "r \<in> set (rd_instances db)" "isLiveEntity tid i r" for r
        using recKeys_entity [OF keys r0 that(1)] that(2) id by (simp add: isLiveEntity_def isEntity_def)
      then have "pend tid i (rd_outbox db) = []" using m [of tid i] none unfolding markerOk_def by (metis option.distinct(1))
      then show ?thesis by (simp add: markerOk_def)
    qed
  qed simp
  moreover have "rd_outbox db2 = rescheduled env 0 tid i (ei_entityTypeId r0) (ri_dueDate r0) None (rd_outbox db)"
    "rd_instances db2 = rd_instances db1" by (simp_all add: db2_def db1 id)
  ultimately have "dueInv db2" by (simp add: dueInv_def)
  then show ?thesis using dueInv_audit [OF fire_upToAudit [OF audit]] by (simp add: db2_def)
qed

lemma pend_archived:
  "pend T i (updateW (isPendingDueOf tid ids) (\<lambda>r. r\<lparr>ob_deliveredAt := Some d\<rparr>) out) =
     (if T = tid \<and> i \<in> set ids then [] else pend T i out)"
proof -
  have "isPendingDue T i r \<and> \<not> isPendingDueOf tid ids r \<longleftrightarrow> \<not> (T = tid \<and> i \<in> set ids) \<and> isPendingDue T i r" for r
    by (cases "pgText (ob_payload r) ''instanceId''") (auto simp: isPendingDue_def isPendingDueOf_def)
  then show ?thesis unfolding pend_delivered by (simp add: pend_def)
qed

lemma archive_due:
  assumes run: "archiveEntity env db tid i c = Some (Inr (x, db'))" and inv: "dueInv db"
  shows "dueInv db'"
proof -
  have "dueInv (archiveAll env tid i ids db)" for ids
  proof -
    have m: "markerOk (rd_instances db) T j (pend T j (rd_outbox db))" for T j using inv by (simp add: dueInv_def dueSound_def)
    have "markerOk (rd_instances (archiveAll env tid i ids db)) T j (pend T j (rd_outbox (archiveAll env tid i ids db)))" for T j
    proof (cases "T = tid \<and> j \<in> set ids")
      case True
      then show ?thesis by (simp add: archiveAll_def Let_def pend_archived markerOk_def)
    next
      case False
      have "markerOk (rd_instances (archiveAll env tid i ids db)) T j (pend T j (rd_outbox db))"
        by (rule markerOk_stays [OF m]) (use False in \<open>force simp: archiveAll_def Let_def updateW_def isLiveEntity_def isEntity_def\<close>)
      moreover have "pend T j (rd_outbox (archiveAll env tid i ids db)) = pend T j (rd_outbox db)"
        using False by (auto simp: archiveAll_def Let_def pend_archived)
      ultimately show ?thesis by simp
    qed
    then show ?thesis by (simp add: dueInv_def dueSound_def)
  qed
  then show ?thesis
    using run inv by (auto simp: archiveEntity_def Let_def split: sum.splits bind_splits if_splits)
qed

section \<open>Every call\<close>

lemma tag_relation_due:
  "addEntityInstanceTag env db tid i t u = Inr (x1, db') \<Longrightarrow> dueInv db' = dueInv db"
  "removeEntityInstanceTag db tid i t u b = Inr (x2, db') \<Longrightarrow> dueInv db' = dueInv db"
  "createRelation env db tid rel = Inr (x3, db') \<Longrightarrow> dueInv db' = dueInv db"
  "createReferenceLink env db tid i t a = Inr (x4, db') \<Longrightarrow> dueInv db' = dueInv db"
  "deleteReferenceLink env db tid i a = Inr (x5, db') \<Longrightarrow> dueInv db' = dueInv db"
  "deleteRelation env db tid i a = Inr (x6, db') \<Longrightarrow> dueInv db' = dueInv db"
  by (auto simp: addEntityInstanceTag_def removeEntityInstanceTag_def createRelation_def createReferenceLink_def
      deleteReferenceLink_def deleteRelation_def Let_def bindE_eq_Inr dueInv_def due_simps)

fun distinctItems :: "rec_call \<Rightarrow> bool" where
  "distinctItems (RcBulkUpdate items) = distinct (map fst items)"
| "distinctItems _ = True"

lemma perform_due:
  assumes run: "performRec env db tid call = Some (Inr db')" and inv: "dueInv db" and keys: "recKeys db"
    and d: "distinctItems call"
  shows "dueInv db'"
proof (cases "isConfigCall call")
  case True
  then have "rd_instances db' = rd_instances db \<and> rd_outbox db' = rd_outbox db"
    using perform_config [OF run] by (auto simp: configStep_def)
  then show ?thesis using inv by (simp add: dueInv_def)
next
  case False
  show ?thesis
  proof (cases call)
    case (RcCreate x)
    then show ?thesis using run inv keys d create_due(1) by (simp add: afterCall_Inr) blast?
  next
    case (RcUpdate x1 x2)
    then show ?thesis using run inv keys d update_due by (simp add: afterCall_Inr) blast?
  next
    case (RcSeverity x1 x2)
    then show ?thesis using run inv keys d severity_due by (simp add: afterCall_Inr) blast?
  next
    case (RcState x1 x2 x3)
    then show ?thesis using run inv keys d state_due by (simp add: afterCall_Inr) blast?
  next
    case (RcAddTag x1 x2 x3)
    then show ?thesis using run inv keys d tag_relation_due(1) by (simp add: afterCall_Inr) blast?
  next
    case (RcRemoveTag x1 x2 x3 x4)
    then show ?thesis using run inv keys d tag_relation_due(2) by (simp add: afterCall_Inr) blast?
  next
    case (RcDelete x1 x2)
    then show ?thesis using run inv keys d delete_due by (simp add: afterCall_Inr) blast?
  next
    case (RcBulkCreate x)
    then show ?thesis using run inv keys d bulkCreate_due by (simp add: afterCall_Inr) blast?
  next
    case (RcBulkUpdate x)
    then show ?thesis using run inv keys d bulkUpdate_due by (simp add: afterCall_Inr) blast?
  next
    case (RcBulkState x1 x2)
    then show ?thesis using run inv keys d bulkSetState_due by (simp add: afterCall_Inr) blast?
  next
    case (RcChild x)
    then show ?thesis using run inv keys d child_due by (simp add: afterCall_Inr) blast?
  next
    case (RcMove x1 x2)
    then show ?thesis using run inv keys d move_due by (simp add: afterCall_Inr) blast?
  next
    case (RcArchive x1 x2)
    then show ?thesis using run inv keys d archive_due by (simp add: afterCall_Inr) blast?
  next
    case (RcRestore x)
    then show ?thesis using run inv keys d restore_due by (simp add: afterCall_Inr) blast?
  next
    case (RcRelation x)
    then show ?thesis using run inv keys d tag_relation_due(3) by (simp add: afterCall_Inr) blast?
  next
    case (RcReference x1 x2 x3)
    then show ?thesis using run inv keys d tag_relation_due(4) by (simp add: afterCall_Inr) blast?
  next
    case (RcUnreference x1 x2)
    then show ?thesis using run inv keys d tag_relation_due(5) by (simp add: afterCall_Inr) blast?
  next
    case (RcUnrelate x1 x2)
    then show ?thesis using run inv keys d tag_relation_due(6) by (simp add: afterCall_Inr) blast?
  qed (use False in simp_all)
qed

text \<open>
  C29. The due-date markers that wait in the outbox are accurate after every sequence of calls in which no bulk
  update names a record twice: of a record there is at most one, the record is live, and the marker carries the due
  date the record has now. (A record need not have one: child tickets and restored records have none.)
\<close>

theorem due_markers:
  assumes keys: "recKeys db" and once: "\<forall>(env, tid, call) \<in> set calls. distinctItems call"
    and before1: "dueInv db"
  shows "dueInv (runRec calls db)"
proof -
  have "recKeys (runRec calls db) \<and> dueInv (runRec calls db)"
  proof (rule runRec_induct)
    show "recKeys db \<and> dueInv db" using keys before1 by simp
    fix env tid call db db'
    assume c: "(env, tid, call) \<in> set calls" and inv: "recKeys db \<and> dueInv db"
      and run: "performRec env db tid call = Some (Inr db')"
    have "distinctItems call" using once c by auto
    then show "recKeys db' \<and> dueInv db'" using perform_keys [OF run] perform_due [OF run] inv by simp
  qed
  then show ?thesis ..
qed

lemma dueInv_empty: "rd_outbox db = [] \<Longrightarrow> dueInv db"
  by (simp add: dueInv_def dueSound_def markerOk_def pend_def)

text \<open>
  The marker of a new record is there at once: after \<open>createEntity\<close> the pending markers of the record are
  exactly the one with its due date, and none where it has no due date.
\<close>

theorem due_scheduled:
  assumes run: "createEntity env db tid input = Inr (row, db')" and inv: "dueInv db"
  shows "map ob_payload (pend tid (ei_id row) (rd_outbox db')) =
    (case ri_dueDate row of None \<Rightarrow> []
     | Some d \<Rightarrow> [buildEntityDueDateScheduledPayload tid (ei_id row) (ei_entityTypeId row) d])"
proof (cases "ri_dueDate row")
  case None
  have "pend tid (ei_id row) (rd_outbox db') = []"
  proof (rule ccontr)
    assume "pend tid (ei_id row) (rd_outbox db') \<noteq> []"
    then obtain r d where r: "r \<in> set (rd_instances db')" "isLiveEntity tid (ei_id row) r" "ri_dueDate r = Some d"
      using create_due(1) [OF run inv] unfolding dueInv_def dueSound_def markerOk_def by meson
    moreover have "r = row" using create_only [OF run r(1)] r(2) by (simp add: isLiveEntity_def isEntity_def)
    ultimately show False using None by simp
  qed
  then show ?thesis using None by simp
next
  case (Some d)
  then show ?thesis using create_due(2) [OF run inv Some] by simp
qed

definition rec_demo_create :: CreateEntityInput where
  "rec_demo_create =
     \<lparr>ci_entityTypeId = ''et1'', ci_fields = [(''title'', JStr ''Check'')], ci_createdBy = Some ''alice'', ci_actorId = None,
      ci_actorType = None, ci_actingPersonId = None, ci_actorName = None, ci_assignedTo = None, ci_dueDate = Some ''soon'',
      ci_remark = Some ''please'', ci_workflowId = None, ci_currentState = None, ci_depth = None, ci_originMechanism = None,
      ci_originOidcClientId = None, ci_originPerformerUserId = None, ci_severity = Some DEFAULT_TICKET_SEVERITY,
      ci_teamId = None, ci_enforceInitialState = False\<rparr>"

lemma rec_demo_created: "case createEntity rec_demo_env rec_demo_db ''t1'' rec_demo_create of
   Inr (row, db') \<Rightarrow> ri_dueDate row \<noteq> None | _ \<Rightarrow> False"
  by code_simp

theorem due_scheduled_witness:
  "\<exists>row db' d. createEntity rec_demo_env rec_demo_db ''t1'' rec_demo_create = Inr (row, db') \<and> ri_dueDate row = Some d \<and>
     map ob_payload (pend ''t1'' (ei_id row) (rd_outbox db')) =
       [buildEntityDueDateScheduledPayload ''t1'' (ei_id row) (ei_entityTypeId row) d]"
proof -
  obtain row db' d where run: "createEntity rec_demo_env rec_demo_db ''t1'' rec_demo_create = Inr (row, db')"
    and d: "ri_dueDate row = Some d"
    using rec_demo_created
    by (cases "createEntity rec_demo_env rec_demo_db ''t1'' rec_demo_create") (simp_all split: prod.splits, blast)
  have "dueInv rec_demo_db" by (rule dueInv_empty) (simp add: rec_demo_db_def empty_rec_db_def)
  from due_scheduled [OF run this] show ?thesis using run d by (intro exI conjI) (assumption | simp)+
qed

theorem due_markers_witness:
  "\<exists>(row :: entity_row) d. dueInv (runRec [(rec_demo_env, ''t1'', RcCreate rec_demo_create)] rec_demo_db) \<and>
     map ob_payload (pend ''t1'' (ei_id row) (rd_outbox (runRec [(rec_demo_env, ''t1'', RcCreate rec_demo_create)] rec_demo_db))) =
       [buildEntityDueDateScheduledPayload ''t1'' (ei_id row) (ei_entityTypeId row) d]"
proof -
  obtain row db' d where run: "createEntity rec_demo_env rec_demo_db ''t1'' rec_demo_create = Inr (row, db')" and d: "ri_dueDate row = Some d"
    using rec_demo_created
    by (cases "createEntity rec_demo_env rec_demo_db ''t1'' rec_demo_create") (simp_all split: prod.splits, blast)
  have before: "dueInv rec_demo_db" by (rule dueInv_empty) (simp add: rec_demo_db_def empty_rec_db_def)
  have run': "runRec [(rec_demo_env, ''t1'', RcCreate rec_demo_create)] rec_demo_db = db'"
  proof -
    have "performRec rec_demo_env rec_demo_db ''t1'' (RcCreate rec_demo_create) = Some (Inr db')" using run by (simp add: afterCall_Inr)
    then show ?thesis by simp
  qed
  have "dueInv (runRec [(rec_demo_env, ''t1'', RcCreate rec_demo_create)] rec_demo_db)"
    by (rule due_markers [OF rec_demo_keys _ before]) simp
  moreover have "map ob_payload (pend ''t1'' (ei_id row) (rd_outbox db')) =
      [buildEntityDueDateScheduledPayload ''t1'' (ei_id row) (ei_entityTypeId row) d]"
    using due_scheduled [OF run before] d by simp
  ultimately show ?thesis unfolding run' by (intro exI [of _ row] exI [of _ d] conjI)
qed

end
