(* ===== verification/DueDate.thy ===== *)
theory DueDate
  imports RecDue SlaWorker
begin

text \<open>
  The workers behind due dates (\<open>apps/worker/src/due-date-scheduler.ts\<close>, \<open>due-date-worker.ts\<close> and
  \<open>due-date-approaching-worker.ts\<close>). The scheduler turns the markers the record engine left in the outbox into
  delayed jobs, one for the due date and, while it lies ahead, one for the warning two days before. A job that
  has become due reads the record again and writes an event only where the record is live and still has that due
  date. An enqueue that fails keeps its row for the next tick and does not touch the others.

  Parameters: the clock, the parsing of a timestamp, which rows are locked, which queue operations fail,
  whether the tenant is active. The queues are not part of the database transaction.
\<close>

section \<open>Data\<close>

record DueDateJobData =
  dd_outboxEventId :: string
  dd_tenantId :: string
  dd_instanceId :: string
  dd_entityTypeId :: string
  dd_dueDate :: string

record due_job =
  dj_id :: string
  dj_data :: DueDateJobData
  dj_delay :: int
  dj_addedAt :: date

record due_world =
  du_rec :: rec_db
  du_jobs :: "due_job list"
  du_approaching :: "due_job list"

record due_env =
  de_now :: date
  de_deliveredAt :: date
  de_parseDate :: "string \<Rightarrow> date option"
  de_locked :: "string \<Rightarrow> bool"
  de_addFails :: "string \<Rightarrow> bool"
  de_updateFails :: bool

section \<open>The scheduler\<close>

definition DUE_BATCH_SIZE :: nat where
  "DUE_BATCH_SIZE = 50"

definition STALE_DUE_DATE_THRESHOLD_MS :: int where
  "STALE_DUE_DATE_THRESHOLD_MS = 48 * 60 * 60 * 1000"

definition DUE_DATE_APPROACHING_LEAD_MS :: int where
  "DUE_DATE_APPROACHING_LEAD_MS = 2 * 24 * 60 * 60 * 1000"

definition isDueMarker :: "outbox_events_row \<Rightarrow> bool" where
  "isDueMarker r = (ob_deliveredAt r = None \<and> ob_eventType r = dueScheduled)"

definition dueDateOf :: "due_env \<Rightarrow> outbox_events_row \<Rightarrow> date option" where
  "dueDateOf env r = de_parseDate env (payloadText r ''dueDate'')"

definition isStaleDue :: "due_env \<Rightarrow> outbox_events_row \<Rightarrow> bool" where
  "isStaleDue env r =
     (case dueDateOf env r of
        None \<Rightarrow> True
      | Some dueDate \<Rightarrow> STALE_DUE_DATE_THRESHOLD_MS < de_now env - dueDate)"

definition dueJobData :: "outbox_events_row \<Rightarrow> DueDateJobData" where
  "dueJobData r =
     \<lparr>dd_outboxEventId = ob_id r, dd_tenantId = ob_tenantId r, dd_instanceId = payloadText r ''instanceId'',
      dd_entityTypeId = payloadText r ''entityTypeId'', dd_dueDate = payloadText r ''dueDate''\<rparr>"

definition dueJobId :: "outbox_events_row \<Rightarrow> string" where
  "dueJobId r = ''duedate-'' @ ob_id r"

definition approachingJobId :: "outbox_events_row \<Rightarrow> string" where
  "approachingJobId r = ''duedate-approaching-'' @ ob_id r"

definition dueJob :: "due_env \<Rightarrow> outbox_events_row \<Rightarrow> due_job" where
  "dueJob env r =
     \<lparr>dj_id = dueJobId r, dj_data = dueJobData r, dj_delay = max 0 (dflt 0 (dueDateOf env r) - de_now env),
      dj_addedAt = de_now env\<rparr>"

definition approachingJob :: "due_env \<Rightarrow> outbox_events_row \<Rightarrow> due_job" where
  "approachingJob env r =
     \<lparr>dj_id = approachingJobId r, dj_data = dueJobData r,
      dj_delay = max 0 (dflt 0 (dueDateOf env r) - DUE_DATE_APPROACHING_LEAD_MS - de_now env), dj_addedAt = de_now env\<rparr>"

definition warns :: "due_env \<Rightarrow> outbox_events_row \<Rightarrow> bool" where
  "warns env r = (de_now env < dflt 0 (dueDateOf env r))"

text \<open>Both enqueues of a row are one promise: the row counts as enqueued when neither fails.\<close>

definition enqueues :: "due_env \<Rightarrow> outbox_events_row \<Rightarrow> bool" where
  "enqueues env r = (\<not> de_addFails env (dueJobId r) \<and> (warns env r \<longrightarrow> \<not> de_addFails env (approachingJobId r)))"

definition dueTick :: "due_env \<Rightarrow> due_world \<Rightarrow> due_world" where
  "dueTick env w =
     (let rows = sweepBatch DUE_BATCH_SIZE (de_locked env) isDueMarker (rd_outbox (du_rec w)) in
      if rows = [] then w
      else (let fresh = filter (\<lambda>r. \<not> isStaleDue env r) rows;
                stale = filter (isStaleDue env) rows;
                added = filter (\<lambda>r. \<not> de_addFails env (dueJobId r)) fresh;
                warned = filter (\<lambda>r. warns env r \<and> \<not> de_addFails env (approachingJobId r)) added;
                w1 = w\<lparr>du_jobs := fold (addUnique dj_id) (map (dueJob env) added) (du_jobs w),
                       du_approaching := fold (addUnique dj_id) (map (approachingJob env) warned) (du_approaching w)\<rparr>;
                deliveredRows = stale @ filter (enqueues env) fresh in
            if de_updateFails env then w1
            else w1\<lparr>du_rec := (du_rec w)\<lparr>rd_outbox := markDelivered (de_deliveredAt env) deliveredRows (rd_outbox (du_rec w))\<rparr>\<rparr>))"

section \<open>The jobs\<close>

record fire_env =
  fe_active :: bool
  fe_now :: date
  fe_parseDate :: "string \<Rightarrow> date option"
  fe_rowId :: string
  fe_dbNow :: date

text \<open>The record as the job finds it: live and with the due date the job was made for.\<close>

definition stillDue :: "fire_env \<Rightarrow> DueDateJobData \<Rightarrow> rec_db \<Rightarrow> bool" where
  "stillDue env d db =
     (case select1 (isEntity (dd_tenantId d) (dd_instanceId d)) (rd_instances db) of
        None \<Rightarrow> False
      | Some r \<Rightarrow> ri_deletedAt r = None \<and>
          (case fe_parseDate env (dd_dueDate d) of None \<Rightarrow> False | Some t \<Rightarrow> ri_dueDate r = Some t))"

definition dueEventRow :: "fire_env \<Rightarrow> DueDateJobData \<Rightarrow> string \<Rightarrow> jsobj \<Rightarrow> outbox_events_row" where
  "dueEventRow env d eventType extra =
     \<lparr>ob_id = fe_rowId env, ob_tenantId = dd_tenantId d, ob_eventType = eventType, ob_version = 1,
      ob_payload = [(''eventType'', JStr eventType), (''version'', JNum 1), (''tenantId'', JStr (dd_tenantId d)),
        (''instanceId'', JStr (dd_instanceId d)), (''entityTypeId'', JStr (dd_entityTypeId d)),
        (''dueDate'', JStr (dd_dueDate d))] @ extra,
      ob_createdAt = fe_dbNow env, ob_deliveredAt = None\<rparr>"

definition dueDateWorker :: "fire_env \<Rightarrow> DueDateJobData \<Rightarrow> rec_db \<Rightarrow> rec_db" where
  "dueDateWorker env d db =
     (if fe_active env \<and> stillDue env d db
      then db\<lparr>rd_outbox := rd_outbox db @ [dueEventRow env d ''entity.due_date_overdue''
                [(''overdueAt'', JStr (toISOString (fe_now env)))]]\<rparr>
      else db)"

definition dueDateApproachingWorker :: "fire_env \<Rightarrow> DueDateJobData \<Rightarrow> rec_db \<Rightarrow> rec_db" where
  "dueDateApproachingWorker env d db =
     (if fe_active env \<and> stillDue env d db \<and> \<not> dflt 0 (fe_parseDate env (dd_dueDate d)) \<le> fe_now env
      then db\<lparr>rd_outbox := rd_outbox db @ [dueEventRow env d ''entity.due_date_approaching'' []]\<rparr>
      else db)"

section \<open>What a tick does\<close>

definition keepsRow :: "due_env \<Rightarrow> due_world \<Rightarrow> outbox_events_row \<Rightarrow> bool" where
  "keepsRow env w r = (de_updateFails env \<or> (\<not> isStaleDue env r \<and> \<not> enqueues env r))"

lemma tick_outbox:
  "rd_outbox (du_rec (dueTick env w)) = markDelivered (de_deliveredAt env)
     (filter (\<lambda>r. \<not> keepsRow env w r) (sweepBatch DUE_BATCH_SIZE (de_locked env) isDueMarker (rd_outbox (du_rec w))))
     (rd_outbox (du_rec w))"
proof -
  let ?rows = "sweepBatch DUE_BATCH_SIZE (de_locked env) isDueMarker (rd_outbox (du_rec w))"
  have "markDelivered (de_deliveredAt env) (filter (isStaleDue env) ?rows @
      filter (enqueues env) (filter (\<lambda>r. \<not> isStaleDue env r) ?rows)) (rd_outbox (du_rec w)) =
    markDelivered (de_deliveredAt env) (filter (\<lambda>r. \<not> keepsRow env w r) ?rows) (rd_outbox (du_rec w))"
    if "\<not> de_updateFails env"
    using that by (intro markDelivered_cong arg_cong [where f = "image ob_id"]) (auto simp: keepsRow_def)
  then show ?thesis
    by (cases "de_updateFails env") (simp_all add: dueTick_def Let_def keepsRow_def)
qed

interpretation due_poller: row_sweeper dueTick "\<lambda>w. rd_outbox (du_rec w)" isDueMarker DUE_BATCH_SIZE de_locked de_deliveredAt keepsRow
  by unfold_locales (simp_all add: isDueMarker_def DUE_BATCH_SIZE_def tick_outbox)

lemma tick_records: "rd_instances (du_rec (dueTick env w)) = rd_instances (du_rec w)"
  by (simp add: dueTick_def Let_def)

lemma tick_rec: "du_rec (dueTick env w) = (du_rec w)\<lparr>rd_outbox := rd_outbox (du_rec (dueTick env w))\<rparr>"
  by (simp add: dueTick_def Let_def)

lemma addUnique_origin: "j \<in> set (fold (addUnique f) js jobs) \<Longrightarrow> j \<in> set jobs \<or> j \<in> set js"
proof (induction js arbitrary: jobs)
  case (Cons k js)
  have "set (addUnique f k jobs) \<subseteq> insert k (set jobs)" by (simp add: addUnique_def subset_insertI)
  then show ?case using Cons.IH [of "addUnique f k jobs"] Cons.prems by auto
qed simp

lemma addUnique_new:
  "j \<in> set js \<Longrightarrow> inj_on f (set js) \<Longrightarrow> f j \<notin> f ` set jobs \<Longrightarrow> j \<in> set (fold (addUnique f) js jobs)"
proof (induction js arbitrary: jobs)
  case (Cons k js)
  show ?case
  proof (cases "k = j")
    case True
    then have "j \<in> set (addUnique f k jobs)" using Cons.prems(3) by (auto simp: addUnique_def)
    then show ?thesis using addUnique_keeps by fastforce
  next
    case False
    have "f j \<noteq> f k" using inj_onD [OF Cons.prems(2), of j k] Cons.prems(1) False by auto
    then have "f j \<notin> f ` set (addUnique f k jobs)" using Cons.prems(3) by (simp add: addUnique_def)
    then show ?thesis using Cons.IH [of "addUnique f k jobs"] Cons.prems(1,2) False by (simp add: inj_on_insert)
  qed
qed simp

lemma tick_jobs:
  assumes "j \<in> set (du_jobs (dueTick env w))"
  obtains "j \<in> set (du_jobs w)" | r d where "j = dueJob env r" "dueDateOf env r = Some d"
proof -
  have "j \<in> set (du_jobs w) \<or> j \<in> dueJob env ` {r. \<not> isStaleDue env r}"
    using assms by (auto simp: dueTick_def Let_def split: if_splits dest!: addUnique_origin)
  then show thesis using that by (auto simp: isStaleDue_def split: option.splits)
qed

lemma tick_approaching:
  assumes "j \<in> set (du_approaching (dueTick env w))"
  obtains "j \<in> set (du_approaching w)" | r d where "j = approachingJob env r" "dueDateOf env r = Some d"
proof -
  have "j \<in> set (du_approaching w) \<or> j \<in> approachingJob env ` {r. \<not> isStaleDue env r}"
    using assms by (auto simp: dueTick_def Let_def split: if_splits dest!: addUnique_origin)
  then show thesis using that by (auto simp: isStaleDue_def split: option.splits)
qed

section \<open>The system\<close>

text \<open>
  Calls of the record engine, ticks of the scheduler and jobs that have waited out their delay, in any order,
  under one clock. \<open>parse\<close> is the date parser the processes share.
\<close>

record due_sys =
  dy_clock :: date
  dy_world :: due_world

definition readyAt :: "due_job \<Rightarrow> date" where
  "readyAt j = dj_addedAt j + dj_delay j"

inductive dueStep :: "(string \<Rightarrow> date option) \<Rightarrow> due_sys \<Rightarrow> due_sys \<Rightarrow> bool" for parse where
  ds_call: "dueStep parse s (s\<lparr>dy_world := (dy_world s)\<lparr>du_rec := db'\<rparr>\<rparr>)"
    if "performRec env (du_rec (dy_world s)) tid call = Some (Inr db')" "distinctItems call"
| ds_tick: "dueStep parse s (s\<lparr>dy_world := dueTick env (dy_world s)\<rparr>)"
    if "de_now env = dy_clock s" "de_parseDate env = parse"
| ds_overdue: "dueStep parse s (s\<lparr>dy_world := (dy_world s)\<lparr>du_rec := dueDateWorker env (dj_data j) (du_rec (dy_world s))\<rparr>\<rparr>)"
    if "j \<in> set (du_jobs (dy_world s))" "readyAt j \<le> dy_clock s" "fe_now env = dy_clock s" "fe_parseDate env = parse"
| ds_approaching: "dueStep parse s (s\<lparr>dy_world := (dy_world s)\<lparr>du_rec := dueDateApproachingWorker env (dj_data j) (du_rec (dy_world s))\<rparr>\<rparr>)"
    if "j \<in> set (du_approaching (dy_world s))" "readyAt j \<le> dy_clock s" "fe_now env = dy_clock s" "fe_parseDate env = parse"
| ds_later: "dueStep parse s (s\<lparr>dy_clock := t\<rparr>)" if "dy_clock s \<le> t"

definition jobOk :: "(string \<Rightarrow> date option) \<Rightarrow> int \<Rightarrow> due_job \<Rightarrow> bool" where
  "jobOk parse lead j = (\<exists>d. parse (dd_dueDate (dj_data j)) = Some d \<and> d - lead \<le> readyAt j)"

definition dueSysInv :: "(string \<Rightarrow> date option) \<Rightarrow> due_sys \<Rightarrow> bool" where
  "dueSysInv parse s =
     (recKeys (du_rec (dy_world s)) \<and> dueInv (du_rec (dy_world s)) \<and>
      (\<forall>j \<in> set (du_jobs (dy_world s)). jobOk parse 0 j) \<and>
      (\<forall>j \<in> set (du_approaching (dy_world s)). jobOk parse DUE_DATE_APPROACHING_LEAD_MS j))"

text \<open>Marking rows only takes pending markers away.\<close>

lemma markerOk_filter: "markerOk t T i ms \<Longrightarrow> markerOk t T i (filter Q ms)"
  unfolding markerOk_def by (elim disjE exE conjE) (simp, cases "Q (hd ms)", simp, blast, simp)

lemma dueSound_markDelivered: "dueSound t out \<Longrightarrow> dueSound t (markDelivered d rows out)"
proof -
  have "pend T i (markDelivered d rows out) = filter (\<lambda>r. \<not> ob_id r \<in> set (map ob_id rows)) (pend T i out)" for T i
    unfolding markDelivered_def pend_delivered by (simp add: pend_def conj_commute)
  then show "dueSound t out \<Longrightarrow> ?thesis" by (simp add: dueSound_def markerOk_filter)
qed

lemma tick_due: "dueInv (du_rec w) \<Longrightarrow> dueInv (du_rec (dueTick env w))"
  unfolding dueInv_def tick_outbox tick_records by (rule dueSound_markDelivered)

lemma otherEvent_row [due_simps]: "otherEvents [dueEventRow env d ty extra] \<longleftrightarrow> ty \<noteq> dueScheduled"
  by (simp add: otherEvents_def dueEventRow_def)

lemma worker_due:
  "dueInv (dueDateWorker env d db) = dueInv db" "dueInv (dueDateApproachingWorker env d db) = dueInv db"
  by (simp_all add: dueDateWorker_def dueDateApproachingWorker_def dueInv_def due_simps dueScheduled_def)

lemma worker_keys: "recKeys (dueDateWorker env d db) = recKeys db" "recKeys (dueDateApproachingWorker env d db) = recKeys db"
  by (simp_all add: dueDateWorker_def dueDateApproachingWorker_def recKeys_def)

lemma tick_keys: "recKeys (du_rec (dueTick env w)) = recKeys (du_rec w)"
  by (subst tick_rec) (simp add: recKeys_def)

lemma dueJob_ok: "dueDateOf env r = Some d \<Longrightarrow> jobOk (de_parseDate env) 0 (dueJob env r)"
  by (simp add: jobOk_def dueJob_def dueJobData_def dueDateOf_def readyAt_def)

lemma approachingJob_ok:
  "dueDateOf env r = Some d \<Longrightarrow> jobOk (de_parseDate env) DUE_DATE_APPROACHING_LEAD_MS (approachingJob env r)"
  by (simp add: jobOk_def approachingJob_def dueJobData_def dueDateOf_def readyAt_def)

lemma dueStep_inv:
  assumes "dueStep parse s s'" "dueSysInv parse s"
  shows "dueSysInv parse s'"
  using assms
proof cases
  case (ds_call env tid call db')
  then show ?thesis using assms(2) perform_keys [OF ds_call(2)] perform_due [OF ds_call(2)] by (simp add: dueSysInv_def)
next
  case (ds_tick env)
  have "jobOk parse 0 j" if "j \<in> set (du_jobs (dueTick env (dy_world s)))" for j
    using that by (rule tick_jobs) (use assms(2) dueJob_ok ds_tick in \<open>auto simp: dueSysInv_def\<close>)
  moreover have "jobOk parse DUE_DATE_APPROACHING_LEAD_MS j" if "j \<in> set (du_approaching (dueTick env (dy_world s)))" for j
    using that by (rule tick_approaching) (use assms(2) approachingJob_ok ds_tick in \<open>auto simp: dueSysInv_def\<close>)
  ultimately show ?thesis using ds_tick assms(2) by (simp add: dueSysInv_def tick_keys tick_due)
qed (use assms(2) in \<open>simp_all add: dueSysInv_def worker_due worker_keys\<close>)

lemma dueSys_reachable: "(dueStep parse)\<^sup>*\<^sup>* s s' \<Longrightarrow> dueSysInv parse s \<Longrightarrow> dueSysInv parse s'"
  by (induction rule: rtranclp_induct) (auto intro: dueStep_inv)

section \<open>Reports in time\<close>

definition emptyQueues :: "due_sys \<Rightarrow> bool" where
  "emptyQueues s = (du_jobs (dy_world s) = [] \<and> du_approaching (dy_world s) = [])"

lemma stillDue_record:
  assumes "stillDue env d db" "recKeys db"
  obtains r t where "r \<in> set (rd_instances db)" "isLiveEntity (dd_tenantId d) (dd_instanceId d) r"
    "fe_parseDate env (dd_dueDate d) = Some t" "ri_dueDate r = Some t"
  using assms(1) unfolding stillDue_def
  by (auto split: option.splits dest!: select1_Some simp: isLiveEntity_def)

text \<open>
  C30. Whatever calls, ticks and jobs have come before: the event that a record is overdue is written only
  where the record is live, its due date is the one the job was made for, and that date has come; the
  warning is written only in the two days before the date.
\<close>

theorem due_events_in_time:
  assumes reach: "(dueStep parse)\<^sup>*\<^sup>* s0 s" and start: "emptyQueues s0" "recKeys (du_rec (dy_world s0))" "dueInv (du_rec (dy_world s0))"
    and now: "fe_now env = dy_clock s" "fe_parseDate env = parse" "readyAt j \<le> dy_clock s"
  shows "(j \<in> set (du_jobs (dy_world s)) \<and> dueDateWorker env (dj_data j) (du_rec (dy_world s)) \<noteq> du_rec (dy_world s) \<longrightarrow>
      (\<exists>r d. r \<in> set (rd_instances (du_rec (dy_world s))) \<and> isLiveEntity (dd_tenantId (dj_data j)) (dd_instanceId (dj_data j)) r \<and>
        ri_dueDate r = Some d \<and> parse (dd_dueDate (dj_data j)) = Some d \<and> d \<le> dy_clock s)) \<and>
    (j \<in> set (du_approaching (dy_world s)) \<and> dueDateApproachingWorker env (dj_data j) (du_rec (dy_world s)) \<noteq> du_rec (dy_world s) \<longrightarrow>
      (\<exists>r d. r \<in> set (rd_instances (du_rec (dy_world s))) \<and> isLiveEntity (dd_tenantId (dj_data j)) (dd_instanceId (dj_data j)) r \<and>
        ri_dueDate r = Some d \<and> parse (dd_dueDate (dj_data j)) = Some d \<and>
        d - DUE_DATE_APPROACHING_LEAD_MS \<le> dy_clock s \<and> dy_clock s < d))"
proof (intro conjI impI; elim conjE)
  have "dueSysInv parse s0" using start by (simp add: dueSysInv_def emptyQueues_def)
  then have inv: "dueSysInv parse s" by (rule dueSys_reachable [OF reach])
  then have keys: "recKeys (du_rec (dy_world s))" by (simp add: dueSysInv_def)
  show "\<exists>r d. r \<in> set (rd_instances (du_rec (dy_world s))) \<and> isLiveEntity (dd_tenantId (dj_data j)) (dd_instanceId (dj_data j)) r \<and>
        ri_dueDate r = Some d \<and> parse (dd_dueDate (dj_data j)) = Some d \<and> d \<le> dy_clock s"
    if that: "j \<in> set (du_jobs (dy_world s))" "dueDateWorker env (dj_data j) (du_rec (dy_world s)) \<noteq> du_rec (dy_world s)"
  proof -
    have "stillDue env (dj_data j) (du_rec (dy_world s))" using that(2) by (auto simp: dueDateWorker_def split: if_splits)
    then obtain r t where r: "r \<in> set (rd_instances (du_rec (dy_world s)))"
      "isLiveEntity (dd_tenantId (dj_data j)) (dd_instanceId (dj_data j)) r"
      "parse (dd_dueDate (dj_data j)) = Some t" "ri_dueDate r = Some t"
      using keys now(2) stillDue_record by metis
    moreover have "t \<le> dy_clock s" using inv that(1) r(3) now(3) by (auto simp: dueSysInv_def jobOk_def)
    ultimately show ?thesis by blast
  qed
  show "\<exists>r d. r \<in> set (rd_instances (du_rec (dy_world s))) \<and> isLiveEntity (dd_tenantId (dj_data j)) (dd_instanceId (dj_data j)) r \<and>
        ri_dueDate r = Some d \<and> parse (dd_dueDate (dj_data j)) = Some d \<and>
        d - DUE_DATE_APPROACHING_LEAD_MS \<le> dy_clock s \<and> dy_clock s < d"
    if "j \<in> set (du_approaching (dy_world s))" "dueDateApproachingWorker env (dj_data j) (du_rec (dy_world s)) \<noteq> du_rec (dy_world s)"
  proof -
    have a: "stillDue env (dj_data j) (du_rec (dy_world s))" "dy_clock s < dflt 0 (parse (dd_dueDate (dj_data j)))"
      using that(2) now by (auto simp: dueDateApproachingWorker_def split: if_splits)
    then obtain r t where r: "r \<in> set (rd_instances (du_rec (dy_world s)))"
      "isLiveEntity (dd_tenantId (dj_data j)) (dd_instanceId (dj_data j)) r"
      "parse (dd_dueDate (dj_data j)) = Some t" "ri_dueDate r = Some t"
      using keys now(2) stillDue_record by metis
    moreover have "t - DUE_DATE_APPROACHING_LEAD_MS \<le> dy_clock s" using inv that(1) r(3) now(3) by (auto simp: dueSysInv_def jobOk_def)
    ultimately show ?thesis using a(2) by auto
  qed
qed

section \<open>Every due date is reported\<close>

lemma batch_all:
  assumes "length (filter due out) \<le> limit" "\<And>i. \<not> locked i" "r \<in> set out" "due r"
  shows "r \<in> set (sweepBatch limit locked due out)"
  using assms by (simp add: sweepBatch_def selectW_def)

lemma tick_adds:
  assumes r: "r \<in> set (rd_outbox (du_rec w))" "isDueMarker r" "\<not> isStaleDue env r" "\<not> de_addFails env (dueJobId r)"
    and batch: "length (filter isDueMarker (rd_outbox (du_rec w))) \<le> DUE_BATCH_SIZE" "\<And>i. \<not> de_locked env i"
    and ids: "distinct (map ob_id (rd_outbox (du_rec w)))" and new: "dueJobId r \<notin> dj_id ` set (du_jobs w)"
  shows "dueJob env r \<in> set (du_jobs (dueTick env w))"
proof -
  let ?rows = "sweepBatch DUE_BATCH_SIZE (de_locked env) isDueMarker (rd_outbox (du_rec w))"
  let ?added = "filter (\<lambda>r. \<not> de_addFails env (dueJobId r)) (filter (\<lambda>r. \<not> isStaleDue env r) ?rows)"
  have mem: "r \<in> set ?rows" by (rule batch_all [OF batch r(1,2)])
  have "set ?added \<subseteq> set (rd_outbox (du_rec w))"
    using set_sweepBatch [of DUE_BATCH_SIZE "de_locked env" isDueMarker "rd_outbox (du_rec w)"] by auto
  then have "inj_on ob_id (set ?added)" using ids inj_on_subset by (auto simp: distinct_map)
  then have "inj_on dj_id (set (map (dueJob env) ?added))"
    by (auto simp: inj_on_def dueJob_def dueJobId_def)
  then have "dueJob env r \<in> set (fold (addUnique dj_id) (map (dueJob env) ?added) (du_jobs w))"
    using mem r new by (intro addUnique_new) (auto simp: dueJob_def)
  moreover have "?rows \<noteq> []" using mem by auto
  ultimately show ?thesis by (simp add: dueTick_def Let_def)
qed

text \<open>The marker a new record leaves, the job made of it, and what the job does.\<close>

definition markerOf :: "rec_env \<Rightarrow> string \<Rightarrow> entity_row \<Rightarrow> date \<Rightarrow> outbox_events_row" where
  "markerOf env tid row d =
     outboxRow env 0 tid dueScheduled (buildEntityDueDateScheduledPayload tid (ei_id row) (ei_entityTypeId row) d)"

lemma markerOf_texts:
  "payloadText (markerOf env tid row d) ''dueDate'' = toISOString d"
  "payloadText (markerOf env tid row d) ''instanceId'' = ei_id row"
  "ob_tenantId (markerOf env tid row d) = tid" "isDueMarker (markerOf env tid row d)"
  "dueJobId (markerOf env tid row d) = ''duedate-'' @ re_outboxId env 0"
  by (simp_all add: markerOf_def payloadText_def pgText_def buildEntityDueDateScheduledPayload_def outboxRow_def dflt_def
      isDueMarker_def dueJobId_def)

lemma due_job_made:
  assumes run: "createEntity env (du_rec w) tid input = Inr (row, db')" and inv: "dueInv (du_rec w)" and d: "ri_dueDate row = Some d"
    and parse: "de_parseDate tenv (toISOString d) = Some d" and fresh: "de_now tenv - d \<le> STALE_DUE_DATE_THRESHOLD_MS"
    and ok: "\<not> de_addFails tenv (''duedate-'' @ re_outboxId env 0)" "\<And>i. \<not> de_locked tenv i"
    and batch: "length (filter isDueMarker (rd_outbox db')) \<le> DUE_BATCH_SIZE"
    and ids: "distinct (map ob_id (rd_outbox db'))" "''duedate-'' @ re_outboxId env 0 \<notin> dj_id ` set (du_jobs w)"
  shows "dueJob tenv (markerOf env tid row d) \<in> set (du_jobs (dueTick tenv (w\<lparr>du_rec := db'\<rparr>)))"
    "readyAt (dueJob tenv (markerOf env tid row d)) = max (de_now tenv) d"
proof -
  let ?m = "markerOf env tid row d"
  have "pend tid (ei_id row) (rd_outbox db') = [?m]" unfolding markerOf_def by (rule create_due(2) [OF run inv d])
  then have "?m \<in> set (pend tid (ei_id row) (rd_outbox db'))" by simp
  then have m: "?m \<in> set (rd_outbox (du_rec (w\<lparr>du_rec := db'\<rparr>)))" by (simp add: pend_def)
  have date: "dueDateOf tenv ?m = Some d" by (simp add: dueDateOf_def markerOf_texts parse)
  have notStale: "\<not> isStaleDue tenv ?m" using fresh by (simp add: isStaleDue_def date)
  show "dueJob tenv ?m \<in> set (du_jobs (dueTick tenv (w\<lparr>du_rec := db'\<rparr>)))"
    by (rule tick_adds [OF m markerOf_texts(4) notStale]) (use ok batch ids in \<open>simp_all add: markerOf_texts\<close>)
  show "readyAt (dueJob tenv ?m) = max (de_now tenv) d" by (simp add: readyAt_def dueJob_def date dflt_def)
qed

lemma due_job_fires:
  assumes active: "fe_active fenv" and parse: "fe_parseDate fenv (toISOString d) = Some d" and keys: "recKeys db2"
    and r: "r \<in> set (rd_instances db2)" "isLiveEntity tid (ei_id row) r" "ri_dueDate r = Some d"
  shows "\<exists>p. rd_outbox (dueDateWorker fenv (dj_data (dueJob tenv (markerOf env tid row d))) db2) = rd_outbox db2 @ [p] \<and>
    ob_eventType p = ''entity.due_date_overdue'' \<and> ob_tenantId p = tid \<and> pgText (ob_payload p) ''instanceId'' = Some (ei_id row)"
proof -
  let ?j = "dj_data (dueJob tenv (markerOf env tid row d))"
  have data: "dd_tenantId ?j = tid" "dd_instanceId ?j = ei_id row" "dd_dueDate ?j = toISOString d"
    by (simp_all add: dueJob_def dueJobData_def markerOf_texts)
  have "select1 (isEntity tid (ei_id row)) (rd_instances db2) = Some r"
  proof (cases "select1 (isEntity tid (ei_id row)) (rd_instances db2)")
    case None
    then show ?thesis using r by (auto simp: select1_None_iff isLiveEntity_def)
  next
    case (Some q)
    have "q = r"
      using select1_Some [OF Some] r(1,2) keys keyed_unique [of ei_id "rd_instances db2" q r]
      by (auto simp: recKeys_def isLiveEntity_def isEntity_def)
    then show ?thesis using Some by simp
  qed
  then have "stillDue fenv ?j db2"
    using r by (simp add: stillDue_def data parse isLiveEntity_def)
  then show ?thesis using active
    by (simp add: dueDateWorker_def) (simp add: dueEventRow_def data pgText_def)
qed

text \<open>
  C31. From the record to the report, for a record made by \<open>createEntity\<close> with a due date not more than 48 hours past:
  it leaves a marker; the next tick turns the marker into a job that waits until the date and no longer, provided that
  the rows waiting fit in one batch and are not locked, and the queue takes the job; and once that job runs for an
  active tenant, on whatever the database has become, it writes the event as long as the record is live and still has
  the due date. (A record made as a child of another leaves no marker.)
\<close>

theorem due_reported:
  assumes run: "createEntity env (du_rec w) tid input = Inr (row, db')" and inv: "dueInv (du_rec w)" and d: "ri_dueDate row = Some d"
    and parse: "de_parseDate tenv (toISOString d) = Some d" and fresh: "de_now tenv - d \<le> STALE_DUE_DATE_THRESHOLD_MS"
    and ok: "\<not> de_addFails tenv (''duedate-'' @ re_outboxId env 0)" "\<And>i. \<not> de_locked tenv i"
    and batch: "length (filter isDueMarker (rd_outbox db')) \<le> DUE_BATCH_SIZE"
    and ids: "distinct (map ob_id (rd_outbox db'))" "''duedate-'' @ re_outboxId env 0 \<notin> dj_id ` set (du_jobs w)"
  shows "\<exists>j \<in> set (du_jobs (dueTick tenv (w\<lparr>du_rec := db'\<rparr>))). readyAt j = max (de_now tenv) d \<and>
    (\<forall>fenv db2. fe_active fenv \<longrightarrow> fe_parseDate fenv (toISOString d) = Some d \<longrightarrow> recKeys db2 \<longrightarrow>
       (\<exists>r \<in> set (rd_instances db2). isLiveEntity tid (ei_id row) r \<and> ri_dueDate r = Some d) \<longrightarrow>
       (\<exists>p. rd_outbox (dueDateWorker fenv (dj_data j) db2) = rd_outbox db2 @ [p] \<and>
          ob_eventType p = ''entity.due_date_overdue'' \<and> ob_tenantId p = tid \<and> pgText (ob_payload p) ''instanceId'' = Some (ei_id row)))"
  using due_job_made [OF run inv d parse fresh ok batch ids] due_job_fires by blast

section \<open>Witnesses\<close>

definition due_demo_world :: due_world where
  "due_demo_world = \<lparr>du_rec = rec_demo_db, du_jobs = [], du_approaching = []\<rparr>"

definition due_demo_env :: due_env where
  "due_demo_env = \<lparr>de_now = 80000, de_deliveredAt = 80001, de_parseDate = (\<lambda>s. if s = toISOString 90000 then Some 90000 else None),
     de_locked = (\<lambda>_. False), de_addFails = (\<lambda>_. False), de_updateFails = False\<rparr>"

lemma due_demo_created:
  "case createEntity rec_demo_env rec_demo_db ''t1'' rec_demo_create of
     Inr (row, db') \<Rightarrow> ri_dueDate row = Some 90000 \<and> ei_id row = ''n'' \<and> map ob_id (rd_outbox db') = [''o'', ''oi''] \<and>
       (case rd_instances db' of [p, c, r] \<Rightarrow> isLiveEntity ''t1'' ''n'' r \<and> ri_dueDate r = Some 90000 | _ \<Rightarrow> False)
   | _ \<Rightarrow> False"
  by code_simp

lemma due_demo_run:
  obtains row db' where "createEntity rec_demo_env (du_rec due_demo_world) ''t1'' rec_demo_create = Inr (row, db')"
    "ri_dueDate row = Some 90000" "ei_id row = ''n''" "map ob_id (rd_outbox db') = [''o'', ''oi'']"
    "\<exists>r \<in> set (rd_instances db'). isLiveEntity ''t1'' ''n'' r \<and> ri_dueDate r = Some 90000"
  using due_demo_created
  by (cases "createEntity rec_demo_env rec_demo_db ''t1'' rec_demo_create")
    (fastforce simp: due_demo_world_def split: prod.splits list.splits)+

lemma due_demo_inv: "dueInv (du_rec due_demo_world)" "recKeys (du_rec due_demo_world)"
  using dueInv_empty [of rec_demo_db] rec_demo_keys by (simp_all add: due_demo_world_def rec_demo_db_def empty_rec_db_def)

lemma due_demo_batch:
  assumes "map ob_id out = [''o'', ''oi'']"
  shows "length (filter isDueMarker out) \<le> DUE_BATCH_SIZE" "distinct (map ob_id out)"
proof -
  have "length out = 2" using arg_cong [OF assms, of length] by simp
  then show "length (filter isDueMarker out) \<le> DUE_BATCH_SIZE"
    using length_filter_le [of isDueMarker out] by (simp add: DUE_BATCH_SIZE_def)
qed (simp add: assms)

theorem due_reported_witness:
  "\<exists>w' j. j \<in> set (du_jobs (dueTick due_demo_env w')) \<and> readyAt j = 90000"
proof -
  obtain row db' where run: "createEntity rec_demo_env (du_rec due_demo_world) ''t1'' rec_demo_create = Inr (row, db')"
    and row: "ri_dueDate row = Some 90000" "map ob_id (rd_outbox db') = [''o'', ''oi'']"
    by (rule due_demo_run)
  have "\<exists>j \<in> set (du_jobs (dueTick due_demo_env (due_demo_world\<lparr>du_rec := db'\<rparr>))). readyAt j = max (de_now due_demo_env) 90000"
    using due_reported [OF run due_demo_inv(1) row(1), of due_demo_env] due_demo_batch [OF row(2)]
    by (auto simp: due_demo_env_def due_demo_world_def STALE_DUE_DATE_THRESHOLD_MS_def)
  then show ?thesis by (auto simp: due_demo_env_def)
qed

definition due_demo_fire :: fire_env where
  "due_demo_fire = \<lparr>fe_active = True, fe_now = 90000, fe_parseDate = de_parseDate due_demo_env, fe_rowId = ''ov'', fe_dbNow = 90001\<rparr>"

theorem due_events_in_time_witness:
  "\<exists>s j r. (dueStep (de_parseDate due_demo_env))\<^sup>*\<^sup>* \<lparr>dy_clock = 80000, dy_world = due_demo_world\<rparr> s \<and> j \<in> set (du_jobs (dy_world s)) \<and>
     dueDateWorker due_demo_fire (dj_data j) (du_rec (dy_world s)) \<noteq> du_rec (dy_world s) \<and>
     r \<in> set (rd_instances (du_rec (dy_world s))) \<and> ri_dueDate r = Some 90000 \<and> 90000 \<le> dy_clock s"
proof -
  obtain row db' where run: "createEntity rec_demo_env (du_rec due_demo_world) ''t1'' rec_demo_create = Inr (row, db')"
    and row: "ri_dueDate row = Some 90000" "map ob_id (rd_outbox db') = [''o'', ''oi'']" "ei_id row = ''n''"
    and live: "\<exists>r \<in> set (rd_instances db'). isLiveEntity ''t1'' ''n'' r \<and> ri_dueDate r = Some 90000"
    by (rule due_demo_run)
  define w where "w = dueTick due_demo_env (due_demo_world\<lparr>du_rec := db'\<rparr>)"
  define j where "j = dueJob due_demo_env (markerOf rec_demo_env ''t1'' row 90000)"
  let ?p = "de_parseDate due_demo_env" and ?init = "\<lparr>dy_clock = 80000, dy_world = due_demo_world\<rparr>"
    and ?s = "\<lparr>dy_clock = 90000, dy_world = w\<rparr>"
  have job: "j \<in> set (du_jobs w)" "readyAt j = 90000"
    using due_job_made [OF run due_demo_inv(1) row(1), of due_demo_env] due_demo_batch [OF row(2)]
    by (simp_all add: w_def j_def due_demo_env_def due_demo_world_def STALE_DUE_DATE_THRESHOLD_MS_def)
  have "performRec rec_demo_env (du_rec (dy_world ?init)) ''t1'' (RcCreate rec_demo_create) = Some (Inr db')"
    using run by (simp add: afterCall_Inr)
  from ds_call [OF this] have 1: "dueStep ?p ?init (?init\<lparr>dy_world := due_demo_world\<lparr>du_rec := db'\<rparr>\<rparr>)" by simp
  have 2: "dueStep ?p (?init\<lparr>dy_world := due_demo_world\<lparr>du_rec := db'\<rparr>\<rparr>) (?init\<lparr>dy_world := w\<rparr>)"
    using ds_tick [of due_demo_env "?init\<lparr>dy_world := due_demo_world\<lparr>du_rec := db'\<rparr>\<rparr>" ?p] by (simp add: w_def due_demo_env_def)
  have 3: "dueStep ?p (?init\<lparr>dy_world := w\<rparr>) ?s" using ds_later [of "?init\<lparr>dy_world := w\<rparr>" 90000 ?p] by simp
  have reach: "(dueStep ?p)\<^sup>*\<^sup>* ?init ?s" using 1 2 3 by (meson r_into_rtranclp rtranclp_trans)
  have "rd_instances (du_rec w) = rd_instances db'" by (simp add: w_def tick_records)
  then obtain r where r: "r \<in> set (rd_instances (du_rec w))" "isLiveEntity ''t1'' (ei_id row) r" "ri_dueDate r = Some 90000"
    using live row(3) by auto
  have inv: "dueSysInv ?p ?s"
    by (rule dueSys_reachable [OF reach]) (use due_demo_inv in \<open>simp add: dueSysInv_def due_demo_world_def\<close>)
  then have "\<exists>p. rd_outbox (dueDateWorker due_demo_fire (dj_data j) (du_rec w)) = rd_outbox (du_rec w) @ [p]"
    using due_job_fires [OF _ _ _ r, of due_demo_fire due_demo_env rec_demo_env]
    by (auto simp: j_def due_demo_fire_def due_demo_env_def dueSysInv_def)
  then have fires: "dueDateWorker due_demo_fire (dj_data j) (du_rec w) \<noteq> du_rec w" by auto
  have "\<exists>r d. r \<in> set (rd_instances (du_rec w)) \<and> ri_dueDate r = Some d \<and> ?p (dd_dueDate (dj_data j)) = Some d \<and> d \<le> 90000"
    using due_events_in_time [OF reach, of due_demo_fire j] job fires due_demo_inv
    by (auto simp: emptyQueues_def due_demo_world_def due_demo_fire_def)
  moreover have "?p (dd_dueDate (dj_data j)) = Some 90000"
    by (simp add: j_def dueJob_def dueJobData_def markerOf_texts due_demo_env_def)
  ultimately show ?thesis using reach job(1) fires by (intro exI [of _ ?s] exI [of _ j]) auto
qed

end
