(* ===== verification/Idempotency.thy ===== *)
theory Idempotency
  imports Redis
begin

text \<open>
  Idempotency keys of the third-party routes (\<open>apps/api/src/lib/idempotency.ts\<close>). A request with a key goes
  through atomic steps, one per call of the database or of Redis: look the key up, take the lock, look again, run
  the handler, store the response, release the lock. Requests of any number of servers interleave these steps.

  Parameters: the canonical form and the hash of the content, the handler's outcome, and which calls of the
  database and of Redis fail. All servers and Redis share one clock. Header values are Latin-1.
\<close>

section \<open>Keys\<close>

definition uriUnreserved :: "char \<Rightarrow> bool" where
  "uriUnreserved c = (c \<in> set ''ABCDEFGHIJKLMNOPQRSTUVWXYZabcdefghijklmnopqrstuvwxyz0123456789-_.!~*'' \<or> c \<in> {CHR 0x27, CHR 0x28, CHR 0x29})"

definition hexDigit :: "nat \<Rightarrow> char" where
  "hexDigit n = (if n < 10 then char_of (48 + n) else char_of (55 + n))"

definition percentByte :: "nat \<Rightarrow> string" where
  "percentByte b = [CHR ''%'', hexDigit (b div 16), hexDigit (b mod 16)]"

definition encodeChar :: "char \<Rightarrow> string" where
  "encodeChar c =
     (let n = of_char c :: nat in
      if uriUnreserved c then [c]
      else if n < 128 then percentByte n
      else percentByte (192 + n div 64) @ percentByte (128 + n mod 64))"

definition encodeURIComponent :: "string \<Rightarrow> string" where
  "encodeURIComponent s = concat (map encodeChar s)"

record IdempotencyScope =
  is_tenantId :: string
  is_applicationActorId :: string
  is_actingPersonId :: string
  is_idempotencyKey :: "string option"

definition lockKey :: "string \<Rightarrow> string \<Rightarrow> string \<Rightarrow> string \<Rightarrow> string" where
  "lockKey tenantId applicationActorId actingPersonId idempotencyKey =
     ''idempotency-lock:'' @ tenantId @ '':'' @ applicationActorId @ '':'' @ actingPersonId @ '':'' @ encodeURIComponent idempotencyKey"

definition LOCK_TTL_MS :: int where "LOCK_TTL_MS = 30000"

definition CACHE_TTL_MS :: int where "CACHE_TTL_MS = 24 * 60 * 60 * 1000"

definition LOCK_RETRY_AFTER_SECONDS :: nat where "LOCK_RETRY_AFTER_SECONDS = 1"

definition MAX_IDEMPOTENCY_KEY_LENGTH :: nat where "MAX_IDEMPOTENCY_KEY_LENGTH = 255"

section \<open>Responses and rows\<close>

definition isIdempotencyStatus :: "nat \<Rightarrow> bool" where
  "isIdempotencyStatus status = (status \<in> {200, 201, 400, 401, 403, 404, 409, 422, 429, 500})"

record IdempotencyResponse =
  ir_status :: nat
  ir_body :: jsval
  ir_headers :: "(string \<times> string) list"
  ir_doNotCache :: bool

record idempotency_keys_row =
  ik_tenantId :: string
  ik_apiKeyId :: string
  ik_actingPersonId :: string
  ik_idempotencyKey :: string
  ik_contentHash :: string
  ik_responseStatus :: nat
  ik_responseBody :: jsval
  ik_expiresAt :: int

record redis_lock =
  rk_key :: string
  rk_token :: string
  rk_expires :: int

record idem_store =
  im_rows :: "idempotency_keys_row list"
  im_locks :: "redis_lock list"

definition errorResponse :: "nat \<Rightarrow> string \<Rightarrow> string \<Rightarrow> IdempotencyResponse" where
  "errorResponse status code message =
     \<lparr>ir_status = status, ir_body = JObj [(''error'', JStr code), (''message'', JStr message)], ir_headers = [], ir_doNotCache = False\<rparr>"

definition keyInvalid :: IdempotencyResponse where
  "keyInvalid = errorResponse 400 ''IDEMPOTENCY_KEY_INVALID'' ''Idempotency-Key must be at most 255 characters''"

definition keyConflict :: IdempotencyResponse where
  "keyConflict = errorResponse 409 ''IDEMPOTENCY_KEY_CONFLICT''
     ''This idempotency key was already used for a request with different content''"

definition invalidCached :: IdempotencyResponse where
  "invalidCached = errorResponse 500 ''INTERNAL_ERROR'' ''Cached response has invalid status code''"

definition inProgress :: IdempotencyResponse where
  "inProgress =
     \<lparr>ir_status = 409, ir_body = JObj [(''error'', JStr ''IDEMPOTENCY_IN_PROGRESS''),
        (''message'', JStr ''A request with this idempotency key is already in progress''),
        (''retryAfterSeconds'', JNum (of_nat LOCK_RETRY_AFTER_SECONDS))],
      ir_headers = [(''Retry-After'', ''1'')], ir_doNotCache = False\<rparr>"

section \<open>One request\<close>

record idem_request =
  iq_scope :: IdempotencyScope
  iq_content :: jsobj
  iq_token :: string

record idem_code =
  ic_canonicalize :: "jsval \<Rightarrow> string option"
  ic_sha256 :: "string \<Rightarrow> string"

definition computeContentHash :: "idem_code \<Rightarrow> jsobj \<Rightarrow> string" where
  "computeContentHash code content =
     ic_sha256 code (case ic_canonicalize code (JObj content) of None \<Rightarrow> ''null'' | Some s \<Rightarrow> s)"

definition requestKey :: "idem_request \<Rightarrow> string" where
  "requestKey q = (case is_idempotencyKey (iq_scope q) of None \<Rightarrow> [] | Some k \<Rightarrow> k)"

definition requestLock :: "idem_request \<Rightarrow> string" where
  "requestLock q =
     lockKey (is_tenantId (iq_scope q)) (is_applicationActorId (iq_scope q)) (is_actingPersonId (iq_scope q)) (requestKey q)"

definition rowOfRequest :: "idem_request \<Rightarrow> idempotency_keys_row \<Rightarrow> bool" where
  "rowOfRequest q r =
     (ik_tenantId r = is_tenantId (iq_scope q) \<and> ik_apiKeyId r = is_applicationActorId (iq_scope q) \<and>
      ik_actingPersonId r = is_actingPersonId (iq_scope q) \<and> ik_idempotencyKey r = requestKey q)"

definition lookupCached :: "idem_code \<Rightarrow> int \<Rightarrow> idem_request \<Rightarrow> idempotency_keys_row list \<Rightarrow> IdempotencyResponse option" where
  "lookupCached code now q rows =
     (case select1 (\<lambda>r. rowOfRequest q r \<and> now < ik_expiresAt r) rows of
        None \<Rightarrow> None
      | Some row \<Rightarrow>
          Some (if ik_contentHash row = computeContentHash code (iq_content q)
                then (if isIdempotencyStatus (ik_responseStatus row)
                      then \<lparr>ir_status = ik_responseStatus row, ir_body = ik_responseBody row, ir_headers = [], ir_doNotCache = False\<rparr>
                      else invalidCached)
                else keyConflict))"

definition cachedRow :: "idem_code \<Rightarrow> int \<Rightarrow> idem_request \<Rightarrow> IdempotencyResponse \<Rightarrow> idempotency_keys_row" where
  "cachedRow code now q response =
     \<lparr>ik_tenantId = is_tenantId (iq_scope q), ik_apiKeyId = is_applicationActorId (iq_scope q),
      ik_actingPersonId = is_actingPersonId (iq_scope q), ik_idempotencyKey = requestKey q,
      ik_contentHash = computeContentHash code (iq_content q), ik_responseStatus = ir_status response,
      ik_responseBody = ir_body response, ik_expiresAt = now + CACHE_TTL_MS\<rparr>"

text \<open>The transaction that stores a response: expired rows of the key go, and the unique constraint keeps the first live one.\<close>

definition storeResponse :: "idem_code \<Rightarrow> int \<Rightarrow> idem_request \<Rightarrow> IdempotencyResponse \<Rightarrow> idempotency_keys_row list \<Rightarrow> idempotency_keys_row list" where
  "storeResponse code now q response rows =
     (let rows1 = deleteW (\<lambda>r. rowOfRequest q r \<and> ik_expiresAt r \<le> now) rows in
      if list_ex (rowOfRequest q) rows1 then rows1 else insertRow (cachedRow code now q response) rows1)"

definition lockHeld :: "int \<Rightarrow> string \<Rightarrow> redis_lock list \<Rightarrow> bool" where
  "lockHeld now key locks = list_ex (\<lambda>l. rk_key l = key \<and> now < rk_expires l) locks"

definition setNx :: "int \<Rightarrow> string \<Rightarrow> string \<Rightarrow> redis_lock list \<Rightarrow> redis_lock list" where
  "setNx now key token locks =
     deleteW (\<lambda>l. rk_key l = key) locks @ [\<lparr>rk_key = key, rk_token = token, rk_expires = now + LOCK_TTL_MS\<rparr>]"

definition releaseLock :: "string \<Rightarrow> string \<Rightarrow> redis_lock list \<Rightarrow> redis_lock list" where
  "releaseLock key token locks = deleteW (\<lambda>l. rk_key l = key \<and> rk_token l = token) locks"

text \<open>
  Where a request stands. The flag of \<open>PhExecute\<close> and \<open>PhCache\<close> tells whether it holds the lock; a request that
  lost Redis goes on without it.
\<close>

datatype idem_phase =
    PhStart
  | PhLock
  | PhRecheck
  | PhExecute bool
  | PhCache bool IdempotencyResponse
  | PhRelease "string + IdempotencyResponse"
  | PhDone "string + IdempotencyResponse"

record idem_env =
  ix_now :: int
  ix_hashFails :: bool
  ix_lookupFails :: bool
  ix_redisFails :: bool
  ix_cacheFails :: bool
  ix_outcome :: "string + IdempotencyResponse"

definition leave :: "bool \<Rightarrow> string + IdempotencyResponse \<Rightarrow> idem_phase" where
  "leave locked outcome = (if locked then PhRelease outcome else PhDone outcome)"

definition startStep :: "idem_code \<Rightarrow> idem_env \<Rightarrow> idem_request \<Rightarrow> idem_store \<Rightarrow> idem_phase" where
  "startStep code env q st =
     (if requestKey q = [] then PhExecute False
      else if MAX_IDEMPOTENCY_KEY_LENGTH < length (requestKey q) then PhDone (Inr keyInvalid)
      else if ix_hashFails env then PhDone (Inl ''canonicalize'')
      else if ix_lookupFails env then PhDone (Inl ''database'')
      else (case lookupCached code (ix_now env) q (im_rows st) of Some r \<Rightarrow> PhDone (Inr r) | None \<Rightarrow> PhLock))"

text \<open>One atomic step of a request: its next phase and what it leaves in the database and in Redis.\<close>

fun withIdempotency :: "idem_code \<Rightarrow> idem_env \<Rightarrow> idem_request \<Rightarrow> idem_phase \<Rightarrow> idem_store \<Rightarrow> idem_phase \<times> idem_store" where
  "withIdempotency code env q PhStart st = (startStep code env q st, st)"
| "withIdempotency code env q PhLock st =
     (if ix_redisFails env then (PhExecute False, st)
      else if lockHeld (ix_now env) (requestLock q) (im_locks st) then (PhDone (Inr inProgress), st)
      else (PhRecheck, st\<lparr>im_locks := setNx (ix_now env) (requestLock q) (iq_token q) (im_locks st)\<rparr>))"
| "withIdempotency code env q PhRecheck st =
     (if ix_lookupFails env then (PhRelease (Inl ''database''), st)
      else (case lookupCached code (ix_now env) q (im_rows st) of
              Some r \<Rightarrow> (PhRelease (Inr r), st) | None \<Rightarrow> (PhExecute True, st)))"
| "withIdempotency code env q (PhExecute locked) st =
     (case ix_outcome env of
        Inl e \<Rightarrow> (leave locked (Inl e), st)
      | Inr r \<Rightarrow> ((if requestKey q = [] then PhDone (Inr r) else if ir_doNotCache r then leave locked (Inr r) else PhCache locked r), st))"
| "withIdempotency code env q (PhCache locked r) st =
     (leave locked (Inr r), if ix_cacheFails env then st
        else st\<lparr>im_rows := storeResponse code (ix_now env) q r (im_rows st)\<rparr>)"
| "withIdempotency code env q (PhRelease outcome) st =
     (PhDone outcome, if ix_redisFails env then st
        else st\<lparr>im_locks := releaseLock (requestLock q) (iq_token q) (im_locks st)\<rparr>)"
| "withIdempotency code env q (PhDone outcome) st = (PhDone outcome, st)"

section \<open>Many requests\<close>

text \<open>\<open>iy_execs\<close> records each run of a handler with its request, its time and its outcome.\<close>

record idem_sys =
  iy_clock :: int
  iy_store :: idem_store
  iy_reqs :: "(idem_request \<times> idem_phase) list"
  iy_execs :: "(idem_request \<times> int \<times> (string + IdempotencyResponse)) list"

definition runsHandler :: "idem_phase \<Rightarrow> bool" where
  "runsHandler ph = (case ph of PhExecute _ \<Rightarrow> True | _ \<Rightarrow> False)"

definition stepAt :: "idem_code \<Rightarrow> idem_env \<Rightarrow> nat \<Rightarrow> idem_sys \<Rightarrow> idem_sys" where
  "stepAt code env i s =
     (let (q, ph) = iy_reqs s ! i; (ph', st') = withIdempotency code env q ph (iy_store s) in
      s\<lparr>iy_store := st', iy_reqs := (iy_reqs s)[i := (q, ph')],
        iy_execs := iy_execs s @ (if runsHandler ph then [(q, iy_clock s, ix_outcome env)] else [])\<rparr>)"

definition critical :: "idem_phase \<Rightarrow> bool" where
  "critical ph = (case ph of PhRecheck \<Rightarrow> True | PhExecute locked \<Rightarrow> locked | PhCache locked r \<Rightarrow> locked | _ \<Rightarrow> False)"

lemma critical_iff: "critical ph \<longleftrightarrow> ph = PhRecheck \<or> ph = PhExecute True \<or> (\<exists>r. ph = PhCache True r)"
  by (cases ph) (auto simp: critical_def)

definition owns :: "idem_request \<Rightarrow> int \<Rightarrow> redis_lock list \<Rightarrow> bool" where
  "owns q now locks = list_ex (\<lambda>l. rk_key l = requestLock q \<and> rk_token l = iq_token q \<and> now < rk_expires l) locks"

text \<open>
  The requests interleave. Redis answers when a lock is asked for, a response that is to be remembered is stored,
  and no request is still at work when its lock runs out: handler and store take less than thirty seconds.
\<close>

inductive idemStep :: "idem_code \<Rightarrow> idem_sys \<Rightarrow> idem_sys \<Rightarrow> bool" for code where
  is_arrive: "idemStep code s (s\<lparr>iy_reqs := iy_reqs s @ [(q, PhStart)]\<rparr>)"
    if "iq_token q \<notin> (\<lambda>p. iq_token (fst p)) ` set (iy_reqs s)"
| is_step: "idemStep code s (stepAt code env i s)"
    if "i < length (iy_reqs s)" "ix_now env = iy_clock s" "snd (iy_reqs s ! i) = PhLock \<Longrightarrow> \<not> ix_redisFails env" "\<not> ix_cacheFails env"
| is_later: "idemStep code s (s\<lparr>iy_clock := t\<rparr>)"
    if "iy_clock s \<le> t" "\<forall>(q, ph) \<in> set (iy_reqs s). critical ph \<longrightarrow> owns q t (im_locks (iy_store s))"

section \<open>The lock and the cache\<close>

definition sameKey :: "idem_request \<Rightarrow> idem_request \<Rightarrow> bool" where
  "sameKey a b = (is_tenantId (iq_scope a) = is_tenantId (iq_scope b) \<and>
     is_applicationActorId (iq_scope a) = is_applicationActorId (iq_scope b) \<and>
     is_actingPersonId (iq_scope a) = is_actingPersonId (iq_scope b) \<and> requestKey a = requestKey b)"

lemma cachedRow_expires [simp]: "ik_expiresAt (cachedRow code t q r) = t + CACHE_TTL_MS"
  by (simp add: cachedRow_def)

definition remembered :: "string + IdempotencyResponse \<Rightarrow> bool" where
  "remembered outcome = (case outcome of Inl _ \<Rightarrow> False | Inr r \<Rightarrow> \<not> ir_doNotCache r)"

lemma sameKey_lock: "sameKey a b \<Longrightarrow> requestLock a = requestLock b"
  by (simp add: sameKey_def requestLock_def)

lemma sameKey_sym: "sameKey a b \<longleftrightarrow> sameKey b a"
  by (auto simp: sameKey_def)

lemma sameKey_rows: "sameKey a b \<Longrightarrow> rowOfRequest a = rowOfRequest b"
  by (simp add: sameKey_def rowOfRequest_def fun_eq_iff)

lemma rowOfRequest_key: "rowOfRequest a r \<Longrightarrow> rowOfRequest b r \<Longrightarrow> sameKey a b"
  by (simp add: sameKey_def rowOfRequest_def)

lemma cachedRow_key: "rowOfRequest b (cachedRow code now a r) \<longleftrightarrow> sameKey a b"
  by (auto simp: cachedRow_def sameKey_def rowOfRequest_def)

type_synonym idem_exec = "idem_request \<times> int \<times> (string + IdempotencyResponse)"

text \<open>The requests, each with a token of its own.\<close>

definition ownTokens :: "(idem_request \<times> idem_phase) set \<Rightarrow> bool" where
  "ownTokens R = (\<forall>p \<in> R. \<forall>p' \<in> R. iq_token (fst p) = iq_token (fst p') \<longrightarrow> p = p')"

definition goodPhase :: "idem_request \<Rightarrow> idem_phase \<Rightarrow> bool" where
  "goodPhase q ph = ((requestKey q \<noteq> [] \<longrightarrow> ph \<noteq> PhExecute False) \<and> (\<forall>r. ph \<noteq> PhCache False r))"

definition lockInv :: "int \<Rightarrow> redis_lock list \<Rightarrow> (idem_request \<times> idem_phase) set \<Rightarrow> bool" where
  "lockInv now locks R =
     (ownTokens R \<and> distinct (map rk_key locks) \<and>
      (\<forall>q ph. (q, ph) \<in> R \<longrightarrow> critical ph \<longrightarrow> owns q now locks) \<and>
      (\<forall>q ph. (q, ph) \<in> R \<longrightarrow> goodPhase q ph))"

text \<open>Every remembered run is in a live row, about to be, or a day old.\<close>

definition covered :: "idem_code \<Rightarrow> int \<Rightarrow> idempotency_keys_row list \<Rightarrow> (idem_request \<times> idem_phase) set \<Rightarrow> idem_exec \<Rightarrow> bool" where
  "covered code now rows R e =
     (case e of (q, t, out) \<Rightarrow> t \<le> now \<and> (requestKey q \<noteq> [] \<longrightarrow> remembered out \<longrightarrow>
        (\<exists>r. out = Inr r \<and> (q, PhCache True r) \<in> R) \<or>
        (\<exists>r tc. out = Inr r \<and> t \<le> tc \<and> cachedRow code tc q r \<in> set rows) \<or> t + CACHE_TTL_MS \<le> now))"

definition noLiveRow :: "int \<Rightarrow> idempotency_keys_row list \<Rightarrow> idem_request \<Rightarrow> bool" where
  "noLiveRow now rows q = (\<forall>row \<in> set rows. rowOfRequest q row \<longrightarrow> ik_expiresAt row \<le> now)"

definition allOld :: "int \<Rightarrow> idem_exec set \<Rightarrow> idem_request \<Rightarrow> bool" where
  "allOld now X q = (\<forall>q' t out. (q', t, out) \<in> X \<longrightarrow> sameKey q' q \<longrightarrow> remembered out \<longrightarrow> t + CACHE_TTL_MS \<le> now)"

definition cacheInv :: "idem_code \<Rightarrow> int \<Rightarrow> idempotency_keys_row list \<Rightarrow> (idem_request \<times> idem_phase) set \<Rightarrow> idem_exec set \<Rightarrow> bool" where
  "cacheInv code now rows R X =
     ((\<forall>e \<in> X. covered code now rows R e) \<and>
      (\<forall>q r. (q, PhCache True r) \<in> R \<longrightarrow> noLiveRow now rows q) \<and>
      (\<forall>q. (q, PhExecute True) \<in> R \<longrightarrow> noLiveRow now rows q \<and> (requestKey q \<noteq> [] \<longrightarrow> allOld now X q)))"

lemma one_critical:
  assumes "lockInv now locks R" "(q, ph) \<in> R" "(q', ph') \<in> R" "critical ph" "critical ph'" "requestLock q = requestLock q'"
  shows "(q, ph) = (q', ph')"
proof -
  obtain l l' where l: "l \<in> set locks" "rk_key l = requestLock q" "rk_token l = iq_token q"
    and l': "l' \<in> set locks" "rk_key l' = requestLock q'" "rk_token l' = iq_token q'"
    using assms(1-5) unfolding lockInv_def owns_def list_ex_iff by meson
  have "inj_on rk_key (set locks)" using assms(1) by (simp add: lockInv_def distinct_map)
  then have "l = l'" using inj_onD [of rk_key "set locks" l l'] l(1,2) l'(1,2) assms(6) by simp
  then have "iq_token q = iq_token q'" using l(3) l'(3) by simp
  then show ?thesis using assms(1-3) unfolding lockInv_def ownTokens_def by fastforce
qed

text \<open>A step replaces the phase of one request.\<close>

definition swap :: "idem_request \<Rightarrow> idem_phase \<Rightarrow> idem_phase \<Rightarrow> (idem_request \<times> idem_phase) set \<Rightarrow> (idem_request \<times> idem_phase) set" where
  "swap q ph ph' R = insert (q, ph') (R - {(q, ph)})"

lemma swap_mem: "(a, b) \<in> swap q ph ph' R \<longleftrightarrow> (a = q \<and> b = ph') \<or> ((a, b) \<in> R \<and> \<not> (a = q \<and> b = ph))"
  by (auto simp: swap_def)

lemma swap_tokens: "ownTokens R \<Longrightarrow> (q, ph) \<in> R \<Longrightarrow> ownTokens (swap q ph ph' R)"
  unfolding ownTokens_def swap_def by fastforce

lemma lock_swap:
  assumes "lockInv now locks R" "(q, ph) \<in> R" "critical ph' \<longrightarrow> critical ph" "goodPhase q ph'"
  shows "lockInv now locks (swap q ph ph' R)"
  using assms swap_tokens [of R q ph ph']
  unfolding lockInv_def swap_mem by blast

lemma covered_mono:
  "covered code now rows R e \<Longrightarrow> (\<And>q r. (q, PhCache True r) \<in> R \<Longrightarrow> (q, PhCache True r) \<in> R') \<Longrightarrow> covered code now rows R' e"
  unfolding covered_def by (cases e) (simp, blast)

lemma cache_swap:
  assumes "cacheInv code now rows R X" "\<not> (\<exists>r. ph = PhCache True r)" "ph' \<noteq> PhExecute True" "\<not> (\<exists>r. ph' = PhCache True r)"
  shows "cacheInv code now rows (swap q ph ph' R) X"
proof -
  have "covered code now rows (swap q ph ph' R) e" if "covered code now rows R e" for e
    by (rule covered_mono [OF that]) (use assms(2) in \<open>auto simp: swap_mem\<close>)
  then show ?thesis using assms(1,3,4) unfolding cacheInv_def swap_mem by blast
qed

section \<open>The steps keep the invariant\<close>

lemma lock_acquired:
  assumes inv: "lockInv now locks R" and q: "(q, ph) \<in> R" and free: "\<not> lockHeld now (requestLock q) locks"
  shows "lockInv now (setNx now (requestLock q) (iq_token q) locks) (swap q ph PhRecheck R)"
proof -
  let ?l = "\<lparr>rk_key = requestLock q, rk_token = iq_token q, rk_expires = now + LOCK_TTL_MS\<rparr>"
  have "owns q' now (setNx now (requestLock q) (iq_token q) locks)" if o: "owns q' now locks" for q'
  proof -
    obtain l where l: "l \<in> set locks" "rk_key l = requestLock q'" "rk_token l = iq_token q'" "now < rk_expires l"
      using o unfolding owns_def list_ex_iff by blast
    then have "rk_key l \<noteq> requestLock q" using free unfolding lockHeld_def list_ex_iff by blast
    then have "l \<in> set (setNx now (requestLock q) (iq_token q) locks)" using l(1) by (simp add: setNx_def)
    then show ?thesis using l(2-4) unfolding owns_def list_ex_iff by blast
  qed
  moreover have "owns q now (setNx now (requestLock q) (iq_token q) locks)"
    by (simp add: owns_def setNx_def LOCK_TTL_MS_def)
  moreover have "distinct (map rk_key (setNx now (requestLock q) (iq_token q) locks))"
    using inv by (auto simp: lockInv_def setNx_def deleteW_def distinct_map inj_on_def)
  moreover have "ownTokens (swap q ph PhRecheck R)" using inv q by (auto simp: lockInv_def intro: swap_tokens)
  moreover have "goodPhase q PhRecheck" by (simp add: goodPhase_def)
  ultimately show ?thesis using inv unfolding lockInv_def swap_mem by blast
qed

lemma lock_released:
  assumes inv: "lockInv now locks R" and q: "(q, PhRelease out) \<in> R"
  shows "lockInv now (releaseLock (requestLock q) (iq_token q) locks) (swap q (PhRelease out) (PhDone out) R)"
proof -
  have "owns q' now (releaseLock (requestLock q) (iq_token q) locks)"
    if "(q', ph') \<in> R" "critical ph'" "owns q' now locks" for q' ph'
  proof -
    have "(q', ph') \<noteq> (q, PhRelease out)" using that(2) by (auto simp: critical_iff)
    then have "iq_token q' \<noteq> iq_token q" using inv q that(1) unfolding lockInv_def ownTokens_def by fastforce
    then show ?thesis using that(3) unfolding owns_def list_ex_iff by (auto simp: releaseLock_def)
  qed
  moreover have "distinct (map rk_key (releaseLock (requestLock q) (iq_token q) locks))"
    using inv by (auto simp: lockInv_def releaseLock_def deleteW_def distinct_map inj_on_def)
  moreover have "ownTokens (swap q (PhRelease out) (PhDone out) R)" using inv q by (auto simp: lockInv_def intro: swap_tokens)
  moreover have "\<not> critical (PhDone out)" "goodPhase q (PhDone out)" by (simp_all add: critical_iff goodPhase_def)
  ultimately show ?thesis using inv unfolding lockInv_def swap_mem by blast
qed

lemma lookup_None: "lookupCached code now q rows = None \<Longrightarrow> noLiveRow now rows q"
  by (auto simp: lookupCached_def noLiveRow_def select1_None_iff split: option.splits)

lemma recheck_passes:
  assumes locks: "lockInv now locks R" and inv: "cacheInv code now rows R X" and q: "(q, PhRecheck) \<in> R"
    and none: "noLiveRow now rows q"
  shows "cacheInv code now rows (swap q PhRecheck (PhExecute True) R) X"
proof -
  have "t + CACHE_TTL_MS \<le> now" if key: "requestKey q \<noteq> []" and e: "(q', t, out) \<in> X" "sameKey q' q" "remembered out" for q' t out
  proof -
    have "covered code now rows R (q', t, out)" using inv e(1) by (simp add: cacheInv_def)
    moreover have "requestKey q' \<noteq> []" using e(2) key by (simp add: sameKey_def)
    moreover have "(q', PhCache True r) \<notin> R" for r
      using one_critical [OF locks q, of q' "PhCache True r"] sameKey_lock [OF e(2)] by (auto simp: critical_iff)
    moreover have "tc + CACHE_TTL_MS \<le> now" if "cachedRow code tc q' r \<in> set rows" for tc r
      using bspec [OF none [unfolded noLiveRow_def] that] e(2) by (simp add: cachedRow_key cachedRow_expires)
    ultimately show ?thesis using e(3) unfolding covered_def by fastforce
  qed
  then have "requestKey q \<noteq> [] \<longrightarrow> allOld now X q" unfolding allOld_def by blast
  moreover have "covered code now rows (swap q PhRecheck (PhExecute True) R) e" if "covered code now rows R e" for e
    by (rule covered_mono [OF that]) (auto simp: swap_mem)
  ultimately show ?thesis using inv none unfolding cacheInv_def swap_mem by blast
qed

text \<open>The run of a handler: what it adds is covered by the store that follows.\<close>

lemma handler_runs:
  assumes locks: "lockInv now locks R" and inv: "cacheInv code now rows R X" and q: "(q, PhExecute locked) \<in> R"
    and key: "requestKey q \<noteq> [] \<longrightarrow> locked" and ph': "\<not> critical ph' \<or> (locked \<and> ph' = PhCache True r)"
    and rem: "requestKey q \<noteq> [] \<longrightarrow> remembered out \<longrightarrow> ph' = PhCache True r \<and> out = Inr r"
  shows "cacheInv code now rows (swap q (PhExecute locked) ph' R) (insert (q, now, out) X)"
proof -
  have "covered code now rows (swap q (PhExecute locked) ph' R) e" if "e \<in> insert (q, now, out) X" for e
  proof (cases "e = (q, now, out)")
    case True
    then show ?thesis using rem unfolding covered_def swap_mem by auto
  next
    case False
    then have "covered code now rows R e" using that inv by (simp add: cacheInv_def)
    then show ?thesis by (rule covered_mono) (auto simp: swap_mem)
  qed
  moreover have "allOld now (insert (q, now, out) X) q'"
    if q': "(q', PhExecute True) \<in> swap q (PhExecute locked) ph' R" "requestKey q' \<noteq> []" for q'
  proof -
    have mem: "(q', PhExecute True) \<in> R" "(q', PhExecute True) \<noteq> (q, PhExecute locked)"
      using q'(1) ph' by (auto simp: swap_mem critical_iff)
    have "\<not> sameKey q q'" if "remembered out"
    proof
      assume same: "sameKey q q'"
      show False
      proof (cases locked)
        case True
        then show False using one_critical [OF locks q mem(1) _ _ sameKey_lock [OF same]] mem(2) by (auto simp: critical_iff)
      next
        case False
        then show False using key same q'(2) by (simp add: sameKey_def)
      qed
    qed
    moreover have "allOld now X q'" using inv mem(1) q'(2) unfolding cacheInv_def by blast
    ultimately show ?thesis unfolding allOld_def by blast
  qed
  moreover have "locked \<longrightarrow> noLiveRow now rows q" using inv q unfolding cacheInv_def by auto
  ultimately show ?thesis using inv ph' unfolding cacheInv_def swap_mem by (auto simp: critical_iff)
qed

lemma response_stored:
  assumes locks: "lockInv now locks R" and inv: "cacheInv code now rows R X" and q: "(q, PhCache True r) \<in> R"
  shows "cacheInv code now (storeResponse code now q r rows) (swap q (PhCache True r) (PhRelease out) R) X"
proof -
  let ?rows = "deleteW (\<lambda>row. rowOfRequest q row \<and> ik_expiresAt row \<le> now) rows"
  have "noLiveRow now rows q" using inv q unfolding cacheInv_def by blast
  then have "\<not> list_ex (rowOfRequest q) ?rows" by (auto simp: noLiveRow_def list_ex_iff)
  then have rows: "set (storeResponse code now q r rows) = insert (cachedRow code now q r) (set ?rows)"
    by (simp add: storeResponse_def)
  have other: "noLiveRow now (storeResponse code now q r rows) q'"
    if "(q', ph') \<in> R" "(q', ph') \<noteq> (q, PhCache True r)" "critical ph'" "noLiveRow now rows q'" for q' ph'
  proof -
    have "\<not> sameKey q q'"
      using one_critical [OF locks q that(1) _ that(3) sameKey_lock] that(2) by (auto simp: critical_iff)
    then show ?thesis using that(4) unfolding noLiveRow_def rows by (auto simp: cachedRow_key)
  qed
  have "covered code now (storeResponse code now q r rows) (swap q (PhCache True r) (PhRelease out) R) e" if e: "e \<in> X" for e
  proof -
    obtain q' t o' where e': "e = (q', t, o')" by (cases e)
    have c: "covered code now rows R (q', t, o')" using inv e by (simp add: cacheInv_def e')
    then have t: "t \<le> now" by (simp add: covered_def)
    show ?thesis
    proof (cases "requestKey q' \<noteq> [] \<and> remembered o'")
      case True
      then consider (cache) r' where "o' = Inr r'" "(q', PhCache True r') \<in> R"
        | (row) r' tc where "o' = Inr r'" "t \<le> tc" "cachedRow code tc q' r' \<in> set rows"
        | (old) "t + CACHE_TTL_MS \<le> now"
        using c unfolding covered_def by auto
      then show ?thesis
      proof cases
        case cache
        show ?thesis
        proof (cases "(q', PhCache True r') = (q, PhCache True r)")
          case True
          then show ?thesis using t cache(1) unfolding covered_def e' rows by auto
        next
          case False
          then show ?thesis using t cache unfolding covered_def e' swap_mem by auto
        qed
      next
        case row
        show ?thesis
        proof (cases "rowOfRequest q (cachedRow code tc q' r') \<and> ik_expiresAt (cachedRow code tc q' r') \<le> now")
          case True
          then have "t + CACHE_TTL_MS \<le> now" using row(2) by (simp add: cachedRow_def)
          then show ?thesis using t unfolding covered_def e' by auto
        next
          case False
          then have "cachedRow code tc q' r' \<in> set (storeResponse code now q r rows)" using row(3) by (auto simp: rows)
          then show ?thesis using t row(1,2) unfolding covered_def e' by auto
        qed
      next
        case old
        then show ?thesis using t unfolding covered_def e' by auto
      qed
    next
      case False
      then show ?thesis using t unfolding covered_def e' by auto
    qed
  qed
  moreover have "noLiveRow now (storeResponse code now q r rows) q'" if "(q', PhCache True r') \<in> R" "(q', PhCache True r') \<noteq> (q, PhCache True r)" for q' r'
    using other [OF that] inv that(1) by (auto simp: cacheInv_def critical_iff)
  moreover have "noLiveRow now (storeResponse code now q r rows) q'" if "(q', PhExecute True) \<in> R" for q'
    using other [OF that] inv that by (auto simp: cacheInv_def critical_iff)
  ultimately show ?thesis using inv unfolding cacheInv_def swap_mem by blast
qed

definition apart :: "idem_exec list \<Rightarrow> bool" where
  "apart execs = sorted_wrt (\<lambda>(q, t, out) (q', t', out'). sameKey q q' \<longrightarrow> requestKey q \<noteq> [] \<longrightarrow> remembered out \<longrightarrow> t + CACHE_TTL_MS \<le> t') execs"

lemma apart_append:
  assumes "apart execs" "requestKey q \<noteq> [] \<longrightarrow> allOld now (set execs) q"
  shows "apart (execs @ [(q, now, out)])"
  using assms unfolding apart_def allOld_def by (auto simp: sorted_wrt_append sameKey_def split: prod.splits)

text \<open>The unique constraint of the table.\<close>

definition rowKey :: "idempotency_keys_row \<Rightarrow> string \<times> string \<times> string \<times> string" where
  "rowKey r = (ik_tenantId r, ik_apiKeyId r, ik_actingPersonId r, ik_idempotencyKey r)"

lemma rowOfRequest_rowKey:
  "rowOfRequest q r \<longleftrightarrow> rowKey r = (is_tenantId (iq_scope q), is_applicationActorId (iq_scope q), is_actingPersonId (iq_scope q), requestKey q)"
  by (auto simp: rowOfRequest_def rowKey_def)

lemma store_unique: "distinct (map rowKey rows) \<Longrightarrow> distinct (map rowKey (storeResponse code now q r rows))"
proof -
  assume d: "distinct (map rowKey rows)"
  let ?rows = "deleteW (\<lambda>row. rowOfRequest q row \<and> ik_expiresAt row \<le> now) rows"
  have d1: "distinct (map rowKey ?rows)" unfolding deleteW_def by (rule distinct_map_filter [OF d])
  have "rowKey (cachedRow code now q r) \<notin> rowKey ` set ?rows" if none: "\<not> list_ex (rowOfRequest q) ?rows"
  proof
    assume "rowKey (cachedRow code now q r) \<in> rowKey ` set ?rows"
    then obtain row where row: "row \<in> set ?rows" "rowKey row = rowKey (cachedRow code now q r)"
      by (elim imageE) (rule that, auto)
    have "rowOfRequest q (cachedRow code now q r)" by (simp add: cachedRow_key sameKey_def)
    then have "rowOfRequest q row" using row(2) by (simp add: rowOfRequest_rowKey)
    then show False using none row(1) by (auto simp: list_ex_iff)
  qed
  then show ?thesis using d1 by (simp add: storeResponse_def insertRow_def Let_def)
qed

definition idemInv :: "idem_code \<Rightarrow> idem_sys \<Rightarrow> bool" where
  "idemInv code s =
     (distinct (map (\<lambda>p. iq_token (fst p)) (iy_reqs s)) \<and>
      lockInv (iy_clock s) (im_locks (iy_store s)) (set (iy_reqs s)) \<and>
      cacheInv code (iy_clock s) (im_rows (iy_store s)) (set (iy_reqs s)) (set (iy_execs s)) \<and>
      apart (iy_execs s) \<and> distinct (map rowKey (im_rows (iy_store s))))"

lemma set_swap:
  assumes "distinct (map (\<lambda>p. iq_token (fst p)) xs)" "i < length xs" "xs ! i = (q, ph)"
  shows "set (xs[i := (q, ph')]) = swap q ph ph' (set xs)"
  using assms by (simp add: set_update_distinct distinct_map swap_def)

lemma idemInv_swap:
  assumes inv: "idemInv code s" and i: "i < length (iy_reqs s)" "iy_reqs s ! i = (q, ph)"
    and locks: "lockInv (iy_clock s) (im_locks st) (swap q ph ph' (set (iy_reqs s)))"
    and cache: "cacheInv code (iy_clock s) (im_rows st) (swap q ph ph' (set (iy_reqs s))) (set execs)" and "apart execs"
    and "distinct (map rowKey (im_rows st))"
  shows "idemInv code (s\<lparr>iy_store := st, iy_reqs := (iy_reqs s)[i := (q, ph')], iy_execs := execs\<rparr>)"
proof -
  have d: "distinct (map (\<lambda>p. iq_token (fst p)) (iy_reqs s))" using inv by (simp add: idemInv_def)
  have "map (\<lambda>p. iq_token (fst p)) ((iy_reqs s)[i := (q, ph')]) = map (\<lambda>p. iq_token (fst p)) (iy_reqs s)"
    using i by (simp add: map_update list_update_same_conv)
  then show ?thesis using assms(4-) d set_swap [OF d i, of ph'] by (simp add: idemInv_def)
qed

lemma step_inv:
  assumes inv: "idemInv code s" and i: "i < length (iy_reqs s)" and now: "ix_now env = iy_clock s"
    and redis: "snd (iy_reqs s ! i) = PhLock \<Longrightarrow> \<not> ix_redisFails env" and store: "\<not> ix_cacheFails env"
  shows "idemInv code (stepAt code env i s)"
proof -
  obtain q ph where ph: "iy_reqs s ! i = (q, ph)" by (cases "iy_reqs s ! i")
  let ?R = "set (iy_reqs s)" and ?now = "iy_clock s" and ?locks = "im_locks (iy_store s)" and ?rows = "im_rows (iy_store s)"
    and ?X = "set (iy_execs s)"
  have mem: "(q, ph) \<in> ?R" using nth_mem [OF i] ph by simp
  have locks: "lockInv ?now ?locks ?R" and cache: "cacheInv code ?now ?rows ?R ?X" and ap: "apart (iy_execs s)"
    and uq: "distinct (map rowKey ?rows)"
    using inv by (simp_all add: idemInv_def)
  have good: "goodPhase q ph" using locks mem unfolding lockInv_def by blast
  have same: "idemInv code (s\<lparr>iy_store := iy_store s, iy_reqs := (iy_reqs s)[i := (q, ph')], iy_execs := iy_execs s\<rparr>)"
    if "critical ph' \<longrightarrow> critical ph" "goodPhase q ph'" "\<not> (\<exists>r. ph = PhCache True r)" "ph' \<noteq> PhExecute True" "\<not> (\<exists>r. ph' = PhCache True r)" for ph'
    by (rule idemInv_swap [OF inv i ph lock_swap [OF locks mem that(1,2)] cache_swap [OF cache that(3-5)] ap uq])
  note defs = stepAt_def ph Let_def now runsHandler_def
  show ?thesis
  proof (cases ph)
    case PhStart
    have "goodPhase q (startStep code env q (iy_store s)) \<and> \<not> critical (startStep code env q (iy_store s))"
      by (auto simp: startStep_def goodPhase_def critical_iff split: option.split)
    then have "idemInv code (s\<lparr>iy_store := iy_store s, iy_reqs := (iy_reqs s)[i := (q, startStep code env q (iy_store s))], iy_execs := iy_execs s\<rparr>)"
      by (intro same) (auto simp: critical_iff PhStart)
    then show ?thesis using PhStart by (simp add: defs)
  next
    case PhLock
    show ?thesis
    proof (cases "lockHeld ?now (requestLock q) ?locks")
      case True
      then show ?thesis using same [of "PhDone (Inr inProgress)"] redis PhLock
        by (simp add: defs critical_iff goodPhase_def)
    next
      case False
      have "cacheInv code ?now ?rows (swap q ph PhRecheck ?R) ?X" using PhLock by (intro cache_swap [OF cache]) auto
      then have "idemInv code (s\<lparr>iy_store := (iy_store s)\<lparr>im_locks := setNx ?now (requestLock q) (iq_token q) ?locks\<rparr>,
          iy_reqs := (iy_reqs s)[i := (q, PhRecheck)], iy_execs := iy_execs s\<rparr>)"
        using lock_acquired [OF locks mem False] by (intro idemInv_swap [OF inv i ph _ _ ap]) (simp_all add: uq store_unique)
      then show ?thesis using False redis PhLock by (simp add: defs)
    qed
  next
    case PhRecheck
    show ?thesis
    proof (cases "ix_lookupFails env")
      case True
      then show ?thesis using same [of "PhRelease (Inl ''database'')"] PhRecheck by (simp add: defs critical_iff goodPhase_def)
    next
      case ok: False
      show ?thesis
      proof (cases "lookupCached code ?now q ?rows")
        case (Some r)
        then show ?thesis using same [of "PhRelease (Inr r)"] PhRecheck ok by (simp add: defs critical_iff goodPhase_def)
      next
        case None
        have "cacheInv code ?now ?rows (swap q ph (PhExecute True) ?R) ?X"
          using recheck_passes [OF locks cache _ lookup_None [OF None]] mem by (simp add: PhRecheck)
        moreover have "lockInv ?now ?locks (swap q ph (PhExecute True) ?R)"
          by (rule lock_swap [OF locks mem]) (simp_all add: PhRecheck critical_iff goodPhase_def)
        ultimately have "idemInv code (s\<lparr>iy_store := iy_store s, iy_reqs := (iy_reqs s)[i := (q, PhExecute True)], iy_execs := iy_execs s\<rparr>)"
          by (intro idemInv_swap [OF inv i ph _ _ ap uq])
        then show ?thesis using None PhRecheck ok by (simp add: defs)
      qed
    qed
  next
    case (PhExecute locked)
    have key: "requestKey q \<noteq> [] \<longrightarrow> locked" using good by (cases locked) (simp_all add: goodPhase_def PhExecute)
    have old: "requestKey q \<noteq> [] \<longrightarrow> allOld ?now ?X q" using key cache mem by (auto simp: cacheInv_def PhExecute)
    have done1: "idemInv code (s\<lparr>iy_store := iy_store s, iy_reqs := (iy_reqs s)[i := (q, ph')], iy_execs := iy_execs s @ [(q, ?now, out)]\<rparr>)"
      if p: "\<not> critical ph' \<or> (locked \<and> ph' = PhCache True r)" "requestKey q \<noteq> [] \<longrightarrow> remembered out \<longrightarrow> ph' = PhCache True r \<and> out = Inr r" "goodPhase q ph'"
      for ph' r out
    proof (rule idemInv_swap [OF inv i ph])
      show "lockInv ?now ?locks (swap q ph ph' ?R)"
        using p by (intro lock_swap [OF locks mem]) (auto simp: critical_iff PhExecute)
      show "cacheInv code ?now ?rows (swap q ph ph' ?R) (set (iy_execs s @ [(q, ?now, out)]))"
        using handler_runs [OF locks cache _ key p(1,2)] mem by (simp add: PhExecute)
      show "apart (iy_execs s @ [(q, ?now, out)])" by (rule apart_append [OF ap old])
    qed (rule uq)
    show ?thesis
    proof (cases "ix_outcome env")
      case (Inl e)
      have "idemInv code (s\<lparr>iy_store := iy_store s, iy_reqs := (iy_reqs s)[i := (q, leave locked (Inl e))], iy_execs := iy_execs s @ [(q, ?now, Inl e)]\<rparr>)"
        by (rule done1) (auto simp: leave_def critical_iff goodPhase_def remembered_def)
      then show ?thesis using Inl by (simp add: defs PhExecute)
    next
      case (Inr r)
      define ph' where "ph' = (if requestKey q = [] then PhDone (Inr r) else if ir_doNotCache r then leave locked (Inr r) else PhCache locked r)"
      have "idemInv code (s\<lparr>iy_store := iy_store s, iy_reqs := (iy_reqs s)[i := (q, ph')], iy_execs := iy_execs s @ [(q, ?now, Inr r)]\<rparr>)"
        using key by (intro done1 [where r = r]) (auto simp: ph'_def leave_def critical_iff goodPhase_def remembered_def)
      then show ?thesis using Inr by (simp add: defs PhExecute ph'_def)
    qed
  next
    case (PhCache locked r)
    then have l: "locked" using good by (cases locked) (simp_all add: goodPhase_def)
    have "lockInv ?now ?locks (swap q ph (PhRelease (Inr r)) ?R)"
      by (rule lock_swap [OF locks mem]) (simp_all add: critical_iff goodPhase_def)
    moreover have "cacheInv code ?now (storeResponse code ?now q r ?rows) (swap q ph (PhRelease (Inr r)) ?R) ?X"
      using response_stored [OF locks cache] mem l by (simp add: PhCache)
    ultimately have "idemInv code (s\<lparr>iy_store := (iy_store s)\<lparr>im_rows := storeResponse code ?now q r ?rows\<rparr>,
        iy_reqs := (iy_reqs s)[i := (q, PhRelease (Inr r))], iy_execs := iy_execs s\<rparr>)"
      by (intro idemInv_swap [OF inv i ph _ _ ap]) (simp_all add: uq store_unique)
    then show ?thesis using store l by (simp add: defs PhCache leave_def)
  next
    case (PhRelease out)
    show ?thesis
    proof (cases "ix_redisFails env")
      case True
      then show ?thesis using same [of "PhDone out"] PhRelease by (simp add: defs critical_iff goodPhase_def)
    next
      case False
      have "lockInv ?now (releaseLock (requestLock q) (iq_token q) ?locks) (swap q ph (PhDone out) ?R)"
        using lock_released [OF locks] mem by (simp add: PhRelease)
      moreover have "cacheInv code ?now ?rows (swap q ph (PhDone out) ?R) ?X" using PhRelease by (intro cache_swap [OF cache]) auto
      ultimately have "idemInv code (s\<lparr>iy_store := (iy_store s)\<lparr>im_locks := releaseLock (requestLock q) (iq_token q) ?locks\<rparr>,
          iy_reqs := (iy_reqs s)[i := (q, PhDone out)], iy_execs := iy_execs s\<rparr>)"
        by (intro idemInv_swap [OF inv i ph _ _ ap]) (simp_all add: uq store_unique)
      then show ?thesis using False by (simp add: defs PhRelease)
    qed
  next
    case (PhDone out)
    then show ?thesis using same [of "PhDone out"] by (simp add: defs critical_iff goodPhase_def)
  qed
qed

lemma covered_later: "covered code now rows R e \<Longrightarrow> now \<le> t \<Longrightarrow> covered code t rows R e"
  unfolding covered_def by (auto split: prod.splits)

lemma idemStep_inv: "idemStep code s s' \<Longrightarrow> idemInv code s \<Longrightarrow> idemInv code s'"
proof (induction rule: idemStep.induct)
  case (is_arrive q s)
  have "lockInv (iy_clock s) (im_locks (iy_store s)) (insert (q, PhStart) (set (iy_reqs s)))"
    using is_arrive unfolding idemInv_def lockInv_def ownTokens_def by (auto simp: critical_iff goodPhase_def image_iff)
  moreover have "cacheInv code (iy_clock s) (im_rows (iy_store s)) (insert (q, PhStart) (set (iy_reqs s))) (set (iy_execs s))"
  proof -
    have "covered code n r (insert (q, PhStart) R) e" if "covered code n r R e" for n r R e
      by (rule covered_mono [OF that]) simp
    then show ?thesis using is_arrive(2) unfolding idemInv_def cacheInv_def by auto
  qed
  ultimately show ?case using is_arrive by (auto simp: idemInv_def)
next
  case (is_step i s env)
  then show ?case by (intro step_inv)
next
  case (is_later s t)
  have "lockInv t (im_locks (iy_store s)) (set (iy_reqs s))"
    using is_later unfolding idemInv_def lockInv_def by auto
  moreover have "noLiveRow t rows q" "allOld t X q" if "noLiveRow (iy_clock s) rows q" "allOld (iy_clock s) X q" for rows q X
    using that is_later(1) unfolding noLiveRow_def allOld_def by fastforce+
  moreover have "noLiveRow t rows q" if "noLiveRow (iy_clock s) rows q" for rows q
    using that is_later(1) unfolding noLiveRow_def by fastforce
  ultimately have "cacheInv code t (im_rows (iy_store s)) (set (iy_reqs s)) (set (iy_execs s))"
    using is_later covered_later unfolding idemInv_def cacheInv_def by blast
  then show ?case using is_later \<open>lockInv t _ _\<close> by (simp add: idemInv_def)
qed

section \<open>At most one run per key and day\<close>

definition idemStart :: "idem_sys \<Rightarrow> bool" where
  "idemStart s = (iy_reqs s = [] \<and> iy_execs s = [] \<and> distinct (map rk_key (im_locks (iy_store s))) \<and>
     distinct (map rowKey (im_rows (iy_store s))))"

lemma idem_reachable: "(idemStep code)\<^sup>*\<^sup>* s0 s \<Longrightarrow> idemStart s0 \<Longrightarrow> idemInv code s"
proof (induction rule: rtranclp_induct)
  case base
  then show ?case by (simp add: idemStart_def idemInv_def lockInv_def cacheInv_def ownTokens_def apart_def)
qed (auto intro: idemStep_inv)

text \<open>
  C32. However the requests of all servers interleave, nothing runs again while a response is remembered: between a
  run of the handler whose response is to be remembered (it returned, and not with \<open>doNotCache\<close>) and any later run under
  the same tenant, application, person and key lie at least twenty-four hours. This takes Redis to answer when the lock
  is asked for, the response to be stored without failure, and no request to outlive its lock. A run that throws or
  whose response is not to be remembered may be followed by another at once.
\<close>

theorem handler_runs_once:
  assumes reach: "(idemStep code)\<^sup>*\<^sup>* s0 s" and start: "idemStart s0"
    and runs: "i < j" "j < length (iy_execs s)" "iy_execs s ! i = (q, t, out)" "iy_execs s ! j = (q', t', out')"
    and key: "sameKey q q'" "requestKey q \<noteq> []" "remembered out"
  shows "t + CACHE_TTL_MS \<le> t'"
proof -
  have "apart (iy_execs s)" using idem_reachable [OF reach start] by (simp add: idemInv_def)
  from sorted_wrt_nth_less [OF this [unfolded apart_def] runs(1,2)] show ?thesis using runs key by simp
qed

text \<open>
  What a later request gets: once the response of a handler is stored, every request with the same key gets, until
  the day is over, that response if its content is the same and a conflict if it is not.
\<close>

theorem response_replayed:
  assumes reach: "(idemStep code)\<^sup>*\<^sup>* s0 s" and start: "idemStart s0"
    and ran: "(q, t, Inr r) \<in> set (iy_execs s)" "\<not> ir_doNotCache r" "isIdempotencyStatus (ir_status r)"
    and stored: "(q, PhCache True r) \<notin> set (iy_reqs s)" and soon: "iy_clock s < t + CACHE_TTL_MS"
    and key: "sameKey q q'" "requestKey q \<noteq> []"
  shows "lookupCached code (iy_clock s) q' (im_rows (iy_store s)) =
    Some (if computeContentHash code (iq_content q) = computeContentHash code (iq_content q')
          then r\<lparr>ir_headers := []\<rparr> else keyConflict)"
proof -
  have inv: "idemInv code s" by (rule idem_reachable [OF reach start])
  then have "covered code (iy_clock s) (im_rows (iy_store s)) (set (iy_reqs s)) (q, t, Inr r)"
    using ran(1) by (simp add: idemInv_def cacheInv_def)
  then obtain tc where tc: "t \<le> tc" "cachedRow code tc q r \<in> set (im_rows (iy_store s))"
    using ran(2) stored soon key(2) by (auto simp: covered_def remembered_def)
  let ?P = "\<lambda>row. rowOfRequest q' row \<and> iy_clock s < ik_expiresAt row"
  have P: "?P (cachedRow code tc q r)"
    using key(1) tc(1) soon by (simp add: cachedRow_key)
  have "select1 ?P (im_rows (iy_store s)) = Some (cachedRow code tc q r)"
  proof (cases "select1 ?P (im_rows (iy_store s))")
    case None
    then show ?thesis using tc(2) P by (auto simp: select1_None_iff)
  next
    case (Some row)
    then have row: "row \<in> set (im_rows (iy_store s))" "rowOfRequest q' row" by auto
    have "inj_on rowKey (set (im_rows (iy_store s)))" using inv by (simp add: idemInv_def distinct_map)
    moreover have "rowKey row = rowKey (cachedRow code tc q r)" using row(2) P by (simp add: rowOfRequest_rowKey)
    ultimately show ?thesis using Some row(1) tc(2) by (auto dest: inj_onD)
  qed
  then show ?thesis
    using ran by (auto simp: lookupCached_def cachedRow_def)
qed

section \<open>Locks of different requests\<close>

lemma hexDigit_code: "n < 16 \<Longrightarrow> (of_char (hexDigit n) :: nat) = (if n < 10 then 48 + n else 55 + n)"
  by (simp add: hexDigit_def)

lemma hexDigit_inj: "m < 16 \<Longrightarrow> n < 16 \<Longrightarrow> hexDigit m = hexDigit n \<longleftrightarrow> m = n"
proof
  assume mn: "m < 16" "n < 16" and "hexDigit m = hexDigit n"
  then have "(of_char (hexDigit m) :: nat) = of_char (hexDigit n)" by (simp only:)
  then have "(if m < 10 then 48 + m else 55 + m) = (if n < 10 then 48 + n else 55 + n)"
    unfolding hexDigit_code [OF mn(1)] hexDigit_code [OF mn(2)] .
  then show "m = n" using mn by (simp split: if_splits)
qed simp

lemma char_code_less: "(of_char c :: nat) < 256"
  by (rule nat_of_char_less_256)

lemma hexDigit_colon: "n < 16 \<Longrightarrow> hexDigit n \<noteq> CHR '':''"
  using hexDigit_code [of n] by (auto split: if_splits)

lemma percentByte_colon: "b < 256 \<Longrightarrow> CHR '':'' \<notin> set (percentByte b)"
proof -
  assume "b < 256"
  then have "b div 16 < 16" "b mod 16 < 16" by auto
  from hexDigit_colon [OF this(1)] hexDigit_colon [OF this(2)] show ?thesis by (auto simp: percentByte_def)
qed

text \<open>The code of a character can be read off the front of a text.\<close>

definition encodeCode :: "nat \<Rightarrow> string" where
  "encodeCode n = (if n < 128 then percentByte n else percentByte (192 + n div 64) @ percentByte (128 + n mod 64))"

lemma encodeChar_code: "encodeChar c = (if uriUnreserved c then [c] else encodeCode (of_char c))"
  by (simp add: encodeChar_def encodeCode_def Let_def)

lemma encodeCode_colon: "n < 256 \<Longrightarrow> CHR '':'' \<notin> set (encodeCode n)"
proof -
  assume "n < 256"
  then have "192 + n div 64 < 256" "128 + n mod 64 < 256" by auto
  from percentByte_colon [OF this(1)] percentByte_colon [OF this(2)] show ?thesis
    using percentByte_colon [OF \<open>n < 256\<close>] by (simp add: encodeCode_def)
qed

lemma encodeChar_colon: "CHR '':'' \<notin> set (encodeChar c)"
proof (cases "uriUnreserved c")
  case True
  have "\<not> uriUnreserved (CHR '':'')" by (simp add: uriUnreserved_def)
  then have "c \<noteq> CHR '':''" using True by metis
  then show ?thesis using True by (simp add: encodeChar_code)
next
  case False
  then show ?thesis using encodeCode_colon [OF char_code_less] by (simp add: encodeChar_code)
qed

lemma encodeURIComponent_colon: "CHR '':'' \<notin> set (encodeURIComponent s)"
  using encodeChar_colon by (auto simp: encodeURIComponent_def)

lemma percentByte_inj: "a < 256 \<Longrightarrow> b < 256 \<Longrightarrow> percentByte a @ x = percentByte b @ y \<Longrightarrow> a = b \<and> x = y"
proof -
  assume ab: "a < 256" "b < 256" and eq: "percentByte a @ x = percentByte b @ y"
  then have "a div 16 = b div 16" "a mod 16 = b mod 16" "x = y"
    using hexDigit_inj [of "a div 16" "b div 16"] hexDigit_inj [of "a mod 16" "b mod 16"] by (simp_all add: percentByte_def)
  then show ?thesis by (metis div_mult_mod_eq)
qed

lemma encodeCode_inj: "m < 256 \<Longrightarrow> n < 256 \<Longrightarrow> encodeCode m @ x = encodeCode n @ y \<Longrightarrow> m = n \<and> x = y"
proof -
  assume mn: "m < 256" "n < 256" and eq: "encodeCode m @ x = encodeCode n @ y"
  have lo: "192 + k div 64 < 256" "128 + k mod 64 < 256" if "k < 256" for k :: nat using that by auto
  consider "m < 128" "n < 128" | "m < 128" "128 \<le> n" | "128 \<le> m" "n < 128" | "128 \<le> m" "128 \<le> n" by linarith
  then show ?thesis
  proof cases
    case 1
    then show ?thesis using eq percentByte_inj [of m n x y] by (simp add: encodeCode_def)
  next
    case 2
    then show ?thesis using eq lo [OF mn(2)] percentByte_inj [of m "192 + n div 64" x "percentByte (128 + n mod 64) @ y"]
      by (simp add: encodeCode_def)
  next
    case 3
    then show ?thesis using eq lo [OF mn(1)] percentByte_inj [of "192 + m div 64" n "percentByte (128 + m mod 64) @ x" y]
      by (simp add: encodeCode_def)
  next
    case 4
    then have "192 + m div 64 = 192 + n div 64 \<and> percentByte (128 + m mod 64) @ x = percentByte (128 + n mod 64) @ y"
      using eq lo [OF mn(1)] lo [OF mn(2)]
        percentByte_inj [of "192 + m div 64" "192 + n div 64" "percentByte (128 + m mod 64) @ x" "percentByte (128 + n mod 64) @ y"]
      by (simp add: encodeCode_def)
    then have "m div 64 = n div 64" "m mod 64 = n mod 64" "x = y"
      using lo [OF mn(1)] lo [OF mn(2)] percentByte_inj [of "128 + m mod 64" "128 + n mod 64" x y] by auto
    then show ?thesis by (metis div_mult_mod_eq)
  qed
qed

lemma encodeCode_hd: "\<exists>t. encodeCode n = CHR ''%'' # t"
  by (simp add: encodeCode_def percentByte_def)

lemma encodeChar_inj: "encodeChar c @ x = encodeChar d @ y \<Longrightarrow> c = d \<and> x = y"
proof -
  assume eq: "encodeChar c @ x = encodeChar d @ y"
  have pct: "\<not> uriUnreserved (CHR ''%'')" by (simp add: uriUnreserved_def)
  obtain tc td where t: "encodeCode (of_char c) = CHR ''%'' # tc" "encodeCode (of_char d) = CHR ''%'' # td"
    using encodeCode_hd by metis
  show ?thesis
  proof (cases "uriUnreserved c"; cases "uriUnreserved d")
    assume "\<not> uriUnreserved c" "\<not> uriUnreserved d"
    then have "(of_char c :: nat) = of_char d \<and> x = y"
      using eq encodeCode_inj [OF char_code_less char_code_less] by (simp add: encodeChar_code)
    then show ?thesis by simp
  qed (use eq pct t in \<open>auto simp: encodeChar_code\<close>)
qed

lemma encodeChar_nonempty: "encodeChar c \<noteq> []"
  using encodeCode_hd [of "of_char c"] by (auto simp: encodeChar_code)

lemma encodeURIComponent_inj: "encodeURIComponent a = encodeURIComponent b \<Longrightarrow> a = b"
proof (induction a arbitrary: b)
  case Nil
  then show ?case using encodeChar_nonempty by (cases b) (auto simp: encodeURIComponent_def)
next
  case (Cons c a)
  then obtain d b' where b: "b = d # b'" using encodeChar_nonempty by (cases b) (auto simp: encodeURIComponent_def)
  have "encodeChar c @ encodeURIComponent a = encodeChar d @ encodeURIComponent b'"
    using Cons.prems by (simp add: encodeURIComponent_def b)
  then show ?case using encodeChar_inj [of c "encodeURIComponent a" d "encodeURIComponent b'"] Cons.IH [of b'] b by blast
qed

text \<open>
  C33. Requests of different scope or key never wait for each other: where the identifiers of tenant and application
  contain no colon (they are UUIDs), the name of the lock determines tenant, application, person and key.
\<close>

theorem locks_separate:
  assumes ids: "CHR '':'' \<notin> set (is_tenantId (iq_scope a))" "CHR '':'' \<notin> set (is_tenantId (iq_scope b))"
    "CHR '':'' \<notin> set (is_applicationActorId (iq_scope a))" "CHR '':'' \<notin> set (is_applicationActorId (iq_scope b))"
    and same: "requestLock a = requestLock b"
  shows "sameKey a b"
proof -
  have "is_tenantId (iq_scope a) = is_tenantId (iq_scope b) \<and>
      is_applicationActorId (iq_scope a) @ CHR '':'' # is_actingPersonId (iq_scope a) @ CHR '':'' # encodeURIComponent (requestKey a) =
      is_applicationActorId (iq_scope b) @ CHR '':'' # is_actingPersonId (iq_scope b) @ CHR '':'' # encodeURIComponent (requestKey b)"
    using same by (intro split_front [OF ids(1,2)]) (simp add: requestLock_def lockKey_def)
  then have t: "is_tenantId (iq_scope a) = is_tenantId (iq_scope b)" and a:
    "is_applicationActorId (iq_scope a) = is_applicationActorId (iq_scope b) \<and>
      is_actingPersonId (iq_scope a) @ CHR '':'' # encodeURIComponent (requestKey a) =
      is_actingPersonId (iq_scope b) @ CHR '':'' # encodeURIComponent (requestKey b)"
    using split_front [OF ids(3,4)] by blast+
  from a have "is_actingPersonId (iq_scope a) = is_actingPersonId (iq_scope b) \<and>
      encodeURIComponent (requestKey a) = encodeURIComponent (requestKey b)"
    by (intro split_back [OF encodeURIComponent_colon encodeURIComponent_colon]) blast
  with t a show ?thesis using encodeURIComponent_inj unfolding sameKey_def by blast
qed

section \<open>Witnesses\<close>

text \<open>A run as a list of actions, each checked against the conditions of its step.\<close>

datatype idem_act = AcArrive idem_request | AcStep nat idem_env | AcLater int

fun idemAct :: "idem_code \<Rightarrow> idem_act \<Rightarrow> idem_sys \<Rightarrow> idem_sys option" where
  "idemAct code (AcArrive q) s =
     (if iq_token q \<in> set (map (\<lambda>p. iq_token (fst p)) (iy_reqs s)) then None else Some (s\<lparr>iy_reqs := iy_reqs s @ [(q, PhStart)]\<rparr>))"
| "idemAct code (AcStep i env) s =
     (if i < length (iy_reqs s) \<and> ix_now env = iy_clock s \<and> (snd (iy_reqs s ! i) = PhLock \<longrightarrow> \<not> ix_redisFails env) \<and> \<not> ix_cacheFails env
      then Some (stepAt code env i s) else None)"
| "idemAct code (AcLater t) s =
     (if iy_clock s \<le> t \<and> list_all (\<lambda>(q, ph). critical ph \<longrightarrow> owns q t (im_locks (iy_store s))) (iy_reqs s)
      then Some (s\<lparr>iy_clock := t\<rparr>) else None)"

fun idemRun :: "idem_code \<Rightarrow> idem_act list \<Rightarrow> idem_sys \<Rightarrow> idem_sys option" where
  "idemRun code [] s = Some s"
| "idemRun code (a # acts) s = (case idemAct code a s of None \<Rightarrow> None | Some s' \<Rightarrow> idemRun code acts s')"

lemma idemAct_step: "idemAct code a s = Some s' \<Longrightarrow> idemStep code s s'"
  by (cases a) (auto simp: list_all_iff split: if_splits intro: is_arrive is_step is_later)

lemma idemRun_reachable: "idemRun code acts s = Some s' \<Longrightarrow> (idemStep code)\<^sup>*\<^sup>* s s'"
  by (induction acts arbitrary: s) (auto split: option.splits intro: converse_rtranclp_into_rtranclp dest: idemAct_step)

definition idem_demo_code :: idem_code where
  "idem_demo_code = \<lparr>ic_canonicalize = (\<lambda>v. case v of JObj [(k, JStr s)] \<Rightarrow> Some s | _ \<Rightarrow> None), ic_sha256 = (\<lambda>s. s)\<rparr>"

definition idem_demo_req :: "string \<Rightarrow> string \<Rightarrow> idem_request" where
  "idem_demo_req token body =
     \<lparr>iq_scope = \<lparr>is_tenantId = ''t1'', is_applicationActorId = ''a1'', is_actingPersonId = ''p:1'', is_idempotencyKey = Some ''k 1''\<rparr>,
      iq_content = [(''title'', JStr body)], iq_token = token\<rparr>"

definition idem_demo_response :: IdempotencyResponse where
  "idem_demo_response = \<lparr>ir_status = 201, ir_body = JNull, ir_headers = [], ir_doNotCache = False\<rparr>"

definition idem_demo_env :: "int \<Rightarrow> idem_env" where
  "idem_demo_env now = \<lparr>ix_now = now, ix_hashFails = False, ix_lookupFails = False, ix_redisFails = False, ix_cacheFails = False,
     ix_outcome = Inr idem_demo_response\<rparr>"

definition idem_demo_start :: idem_sys where
  "idem_demo_start = \<lparr>iy_clock = 0, iy_store = \<lparr>im_rows = [], im_locks = []\<rparr>, iy_reqs = [], iy_execs = []\<rparr>"

text \<open>The second request asks for the lock while the first holds it; the third comes a day later.\<close>

definition idem_demo_acts :: "idem_act list" where
  "idem_demo_acts =
     [AcArrive (idem_demo_req ''x'' ''one''), AcArrive (idem_demo_req ''y'' ''one'')] @
     map (\<lambda>i. AcStep i (idem_demo_env 0)) [0, 1, 0, 1, 0, 0, 0, 0] @
     [AcLater CACHE_TTL_MS, AcArrive (idem_demo_req ''z'' ''one'')] @ replicate 6 (AcStep 2 (idem_demo_env CACHE_TTL_MS))"

lemma idem_demo_run:
  "case idemRun idem_demo_code idem_demo_acts idem_demo_start of
     Some s \<Rightarrow> iy_execs s = [(idem_demo_req ''x'' ''one'', 0, Inr idem_demo_response),
         (idem_demo_req ''z'' ''one'', CACHE_TTL_MS, Inr idem_demo_response)] \<and>
       map snd (iy_reqs s) = [PhDone (Inr idem_demo_response), PhDone (Inr inProgress), PhDone (Inr idem_demo_response)]
   | None \<Rightarrow> False"
  by code_simp

theorem handler_runs_once_witness:
  "\<exists>s t t'. (idemStep idem_demo_code)\<^sup>*\<^sup>* idem_demo_start s \<and>
     iy_execs s = [(idem_demo_req ''x'' ''one'', t, Inr idem_demo_response), (idem_demo_req ''z'' ''one'', t', Inr idem_demo_response)] \<and>
     t + CACHE_TTL_MS \<le> t'"
proof -
  obtain s where run: "idemRun idem_demo_code idem_demo_acts idem_demo_start = Some s"
    and execs: "iy_execs s = [(idem_demo_req ''x'' ''one'', 0, Inr idem_demo_response),
         (idem_demo_req ''z'' ''one'', CACHE_TTL_MS, Inr idem_demo_response)]"
    using idem_demo_run by (auto split: option.splits)
  note reach = idemRun_reachable [OF run]
  have start: "idemStart idem_demo_start" by (simp add: idemStart_def idem_demo_start_def)
  have "sameKey (idem_demo_req ''x'' ''one'') (idem_demo_req ''z'' ''one'')" "requestKey (idem_demo_req ''x'' ''one'') \<noteq> []"
    "remembered (Inr idem_demo_response)"
    by (simp_all add: sameKey_def requestKey_def idem_demo_req_def remembered_def idem_demo_response_def)
  then have "0 + CACHE_TTL_MS \<le> CACHE_TTL_MS"
    using handler_runs_once [OF reach start, of 0 1] by (simp add: execs)
  then show ?thesis using reach execs by blast
qed

lemma idem_demo_stored:
  "case idemRun idem_demo_code (take 10 idem_demo_acts) idem_demo_start of
     Some s \<Rightarrow> iy_execs s = [(idem_demo_req ''x'' ''one'', 0, Inr idem_demo_response)] \<and> iy_clock s = 0 \<and>
       map snd (iy_reqs s) = [PhDone (Inr idem_demo_response), PhDone (Inr inProgress)]
   | None \<Rightarrow> False"
  by code_simp

theorem response_replayed_witness:
  "\<exists>s. (idemStep idem_demo_code)\<^sup>*\<^sup>* idem_demo_start s \<and>
     lookupCached idem_demo_code (iy_clock s) (idem_demo_req ''z'' ''one'') (im_rows (iy_store s)) = Some idem_demo_response \<and>
     lookupCached idem_demo_code (iy_clock s) (idem_demo_req ''z'' ''two'') (im_rows (iy_store s)) = Some keyConflict"
proof -
  obtain s where run: "idemRun idem_demo_code (take 10 idem_demo_acts) idem_demo_start = Some s"
    and execs: "iy_execs s = [(idem_demo_req ''x'' ''one'', 0, Inr idem_demo_response)]" and clock: "iy_clock s = 0"
    and phases: "map snd (iy_reqs s) = [PhDone (Inr idem_demo_response), PhDone (Inr inProgress)]"
    using idem_demo_stored by (auto split: option.splits)
  note reach = idemRun_reachable [OF run]
  have start: "idemStart idem_demo_start" by (simp add: idemStart_def idem_demo_start_def)
  have "(idem_demo_req ''x'' ''one'', PhCache True idem_demo_response) \<notin> set (iy_reqs s)"
  proof
    assume "(idem_demo_req ''x'' ''one'', PhCache True idem_demo_response) \<in> set (iy_reqs s)"
    then have "PhCache True idem_demo_response \<in> set (map snd (iy_reqs s))" by force
    then show False by (simp add: phases)
  qed
  then have get: "lookupCached idem_demo_code (iy_clock s) (idem_demo_req ''z'' body) (im_rows (iy_store s)) =
      Some (if computeContentHash idem_demo_code (iq_content (idem_demo_req ''x'' ''one'')) =
               computeContentHash idem_demo_code (iq_content (idem_demo_req ''z'' body))
            then idem_demo_response\<lparr>ir_headers := []\<rparr> else keyConflict)" for body
    by (intro response_replayed [OF reach start, where t = 0])
      (simp_all add: execs clock sameKey_def requestKey_def idem_demo_req_def idem_demo_response_def isIdempotencyStatus_def CACHE_TTL_MS_def)
  show ?thesis
    using reach get [of "''one''"] get [of "''two''"]
    by (intro exI [of _ s]) (simp add: idem_demo_req_def computeContentHash_def idem_demo_code_def idem_demo_response_def)
qed

theorem locks_separate_witness:
  "sameKey (idem_demo_req ''x'' ''one'') (idem_demo_req ''y'' ''two'')"
  by (rule locks_separate) (simp_all add: idem_demo_req_def requestLock_def requestKey_def)

end
