(* ===== verification/Mfa.thy ===== *)
theory Mfa
  imports Redis
begin

text \<open>
  The second factor of the platform operator (\<open>packages/auth/src/platform-admin-mfa.ts\<close>): a code of six digits
  sent by mail, counters against guessing, and markers of a verified sign-in, all with a time to live in the
  key-value server. The keys are kept in three families by the type of their values; their prefixes keep them apart.

  Parameters: the settings of \<open>@platform/config\<close>, the hash, the random code and the random session token of a
  call, and whether the mail can be sent. The calls of a run are taken one after the other here; theory \<open>MfaRace\<close> takes
  the verification apart into the commands it sends and interleaves them.
\<close>

section \<open>Settings, keys and the store\<close>

record mfa_config =
  mc_CODE_TTL_SECONDS :: int
  mc_VERIFIED_TTL_SECONDS :: int
  mc_FRESH_WINDOW_SECONDS :: int
  mc_MAX_VERIFY_ATTEMPTS :: int
  mc_RESEND_COOLDOWN_SECONDS :: int
  mc_sha256 :: "string \<Rightarrow> string"

definition MAX_FAILED_VERIFIES :: int where "MAX_FAILED_VERIFIES = 5"

definition FAILED_VERIFY_WINDOW_SECONDS :: int where "FAILED_VERIFY_WINDOW_SECONDS = 30 * 60"

definition otpKey :: "string \<Rightarrow> string" where
  "otpKey userId = ''platform-admin:mfa:otp:'' @ userId"

definition attemptsKey :: "string \<Rightarrow> string" where
  "attemptsKey userId = ''platform-admin:mfa:attempts:'' @ userId"

definition failedKey :: "string \<Rightarrow> string" where
  "failedKey userId = ''platform-admin:mfa:failed:'' @ userId"

definition verifiedKey :: "mfa_config \<Rightarrow> string \<Rightarrow> string \<Rightarrow> string" where
  "verifiedKey cfg userId sessionToken = ''platform-admin:mfa:verified:'' @ userId @ '':'' @ mc_sha256 cfg sessionToken"

definition freshKey :: "mfa_config \<Rightarrow> string \<Rightarrow> string \<Rightarrow> string" where
  "freshKey cfg userId sessionToken = ''platform-admin:mfa:fresh:'' @ userId @ '':'' @ mc_sha256 cfg sessionToken"

definition resendKey :: "string \<Rightarrow> string" where
  "resendKey userId = ''platform-admin:mfa:resend:'' @ userId"

record mfa_mail =
  ml_title :: string
  ml_to :: string
  ml_body :: string

record mfa_store =
  ms_codes :: "string kvs"
  ms_counters :: "int kvs"
  ms_marks :: "unit kvs"
  ms_sent :: "mfa_mail list"

record mfa_env =
  me_now :: date
  me_randomInt :: nat
  me_randomBytes :: string
  me_sendFails :: bool
  me_redisFails :: bool

datatype MfaRequestResult = CodeSent string | MfaLockedOutError int | MfaResendTooSoonError int | SendFailed

datatype MfaVerifyResult =
    VerifyOk string
  | VerifyInvalid int
  | VerifyExpired
  | VerifyLocked
  | VerifyLockedOut int

section \<open>Helpers\<close>

text \<open>\<open>/^[A-Za-z0-9_-]{43}$/\<close>\<close>

definition isTokenChar :: "char \<Rightarrow> bool" where
  "isTokenChar c = (let n = of_char c :: nat in (65 \<le> n \<and> n \<le> 90) \<or> (97 \<le> n \<and> n \<le> 122) \<or> (48 \<le> n \<and> n \<le> 57) \<or> n = 95 \<or> n = 45)"

definition sessionTokenFrom :: "string option \<Rightarrow> string option" where
  "sessionTokenFrom raw =
     (case raw of None \<Rightarrow> None | Some t \<Rightarrow> if length t = 43 \<and> list_all isTokenChar t then Some t else None)"

definition lockedOutFor :: "date \<Rightarrow> mfa_store \<Rightarrow> string \<Rightarrow> int" where
  "lockedOutFor now s userId =
     (let failures = dflt 0 (redisGet now (ms_counters s) (failedKey userId)) in
      if \<not> MAX_FAILED_VERIFIES \<le> failures then 0
      else (let ttl = redisTtl now (ms_counters s) (failedKey userId) in
            if ttl = -2 then 0 else if 0 < ttl then ttl else FAILED_VERIFY_WINDOW_SECONDS))"

fun lastIndexOf :: "char \<Rightarrow> string \<Rightarrow> int" where
  "lastIndexOf c [] = -1"
| "lastIndexOf c (x # xs) = (let i = lastIndexOf c xs in if 0 \<le> i then i + 1 else if x = c then 0 else -1)"

definition maskEmail :: "string \<Rightarrow> string" where
  "maskEmail email =
     (let pos = lastIndexOf CHR ''@'' email in
      if pos \<le> 0 then ''***'' else take 1 email @ ''***'' @ drop (nat pos) email)"

definition codeLifetimeText :: "mfa_config \<Rightarrow> string" where
  "codeLifetimeText cfg =
     (let minutes = max 1 (mc_CODE_TTL_SECONDS cfg div 60) in
      decDigits (nat minutes) @ '' '' @ (if minutes = 1 then ''minute'' else ''minutes''))"

definition generateCode :: "mfa_env \<Rightarrow> string" where
  "generateCode env = padZeros 6 (int (me_randomInt env))"

definition codeMail :: "mfa_config \<Rightarrow> string \<Rightarrow> string \<Rightarrow> mfa_mail" where
  "codeMail cfg email code =
     \<lparr>ml_title = ''Your OpenWind platform admin verification code'', ml_to = email,
      ml_body = ''Your verification code is '' @ code @ ''. It expires in '' @ codeLifetimeText cfg @
        ''. If you did not request this, contact your OpenWind administrator.''\<rparr>"

section \<open>Operations\<close>

definition requestMfaCode :: "mfa_config \<Rightarrow> mfa_env \<Rightarrow> string \<Rightarrow> string \<Rightarrow> mfa_store \<Rightarrow> mfa_store \<times> MfaRequestResult" where
  "requestMfaCode cfg env userId email s =
     (let now = me_now env; lockedOut = lockedOutFor now s userId in
      if 0 < lockedOut then (s, MfaLockedOutError lockedOut)
      else if redisGet now (ms_marks s) (resendKey userId) \<noteq> None
      then (let ttl = redisTtl now (ms_marks s) (resendKey userId) in (s, MfaResendTooSoonError (if 0 < ttl then ttl else 1)))
      else (let code = generateCode env;
                s1 = s\<lparr>ms_marks := redisSetEx now (ms_marks s) (resendKey userId) () (mc_RESEND_COOLDOWN_SECONDS cfg),
                       ms_codes := redisSetEx now (ms_codes s) (otpKey userId) (mc_sha256 cfg code) (mc_CODE_TTL_SECONDS cfg),
                       ms_counters := redisDel (ms_counters s) (attemptsKey userId)\<rparr> in
            if me_sendFails env then (s1\<lparr>ms_marks := redisDel (ms_marks s1) (resendKey userId)\<rparr>, SendFailed)
            else (s1\<lparr>ms_sent := ms_sent s1 @ [codeMail cfg email code]\<rparr>, CodeSent (maskEmail email))))"

definition endMfaSession :: "mfa_config \<Rightarrow> string \<Rightarrow> string option \<Rightarrow> mfa_store \<Rightarrow> mfa_store" where
  "endMfaSession cfg userId rawSessionToken s =
     (case sessionTokenFrom rawSessionToken of
        None \<Rightarrow> s
      | Some t \<Rightarrow> s\<lparr>ms_marks := redisDel (redisDel (ms_marks s) (verifiedKey cfg userId t)) (freshKey cfg userId t)\<rparr>)"

definition dropCode :: "string \<Rightarrow> mfa_store \<Rightarrow> mfa_store" where
  "dropCode userId s = s\<lparr>ms_codes := redisDel (ms_codes s) (otpKey userId)\<rparr>"

text \<open>A counter is increased and given a deadline if it has none.\<close>

definition countOne :: "date \<Rightarrow> string \<Rightarrow> int \<Rightarrow> mfa_store \<Rightarrow> mfa_store" where
  "countOne now k seconds s =
     s\<lparr>ms_counters := redisExpireNx now (snd (redisIncr now (ms_counters s) k)) k seconds\<rparr>"

definition wrongCode :: "mfa_config \<Rightarrow> date \<Rightarrow> string \<Rightarrow> int \<Rightarrow> mfa_store \<Rightarrow> mfa_store \<times> MfaVerifyResult" where
  "wrongCode cfg now userId attempts s =
     (let failures = fst (redisIncr now (ms_counters s) (failedKey userId));
          s1 = countOne now (failedKey userId) FAILED_VERIFY_WINDOW_SECONDS s in
      if MAX_FAILED_VERIFIES \<le> failures
      then (let ttl = redisTtl now (ms_counters s1) (failedKey userId) in
            (dropCode userId s1, VerifyLockedOut (if 0 < ttl then ttl else FAILED_VERIFY_WINDOW_SECONDS)))
      else (let attemptsRemaining = mc_MAX_VERIFY_ATTEMPTS cfg - attempts in
            if attemptsRemaining \<le> 0 then (dropCode userId s1, VerifyLocked)
            else (s1, VerifyInvalid attemptsRemaining)))"

definition rightCode :: "mfa_config \<Rightarrow> mfa_env \<Rightarrow> string \<Rightarrow> string option \<Rightarrow> mfa_store \<Rightarrow> mfa_store \<times> MfaVerifyResult" where
  "rightCode cfg env userId previousSessionToken s =
     (let s1 = (dropCode userId s)\<lparr>ms_counters := redisDel (redisDel (ms_counters s) (attemptsKey userId)) (failedKey userId)\<rparr>;
          s2 = endMfaSession cfg userId previousSessionToken s1;
          sessionToken = me_randomBytes env;
          marks = redisSetEx (me_now env) (ms_marks s2) (verifiedKey cfg userId sessionToken) () (mc_VERIFIED_TTL_SECONDS cfg) in
      (s2\<lparr>ms_marks := redisSetEx (me_now env) marks (freshKey cfg userId sessionToken) () (mc_FRESH_WINDOW_SECONDS cfg)\<rparr>,
       VerifyOk sessionToken))"

definition verifyMfaCode :: "mfa_config \<Rightarrow> mfa_env \<Rightarrow> string \<Rightarrow> string \<Rightarrow> string option \<Rightarrow> mfa_store \<Rightarrow>
    mfa_store \<times> MfaVerifyResult" where
  "verifyMfaCode cfg env userId submittedCode previousSessionToken s =
     (let now = me_now env; lockedOut = lockedOutFor now s userId in
      if 0 < lockedOut then (dropCode userId s, VerifyLockedOut lockedOut)
      else (case redisGet now (ms_codes s) (otpKey userId) of
              None \<Rightarrow> (s, VerifyExpired)
            | Some storedHash \<Rightarrow>
                if storedHash = [] then (s, VerifyExpired)
                else (let attempts = fst (redisIncr now (ms_counters s) (attemptsKey userId));
                          s1 = countOne now (attemptsKey userId) (mc_CODE_TTL_SECONDS cfg) s in
                      if mc_MAX_VERIFY_ATTEMPTS cfg < attempts then (dropCode userId s1, VerifyLocked)
                      else if mc_sha256 cfg submittedCode \<noteq> storedHash then wrongCode cfg now userId attempts s1
                      else rightCode cfg env userId previousSessionToken s1)))"

definition isMfaVerified :: "mfa_config \<Rightarrow> mfa_env \<Rightarrow> string \<Rightarrow> string option \<Rightarrow> mfa_store \<Rightarrow> bool" where
  "isMfaVerified cfg env userId rawSessionToken s =
     (case sessionTokenFrom rawSessionToken of
        None \<Rightarrow> False
      | Some t \<Rightarrow> \<not> me_redisFails env \<and> redisGet (me_now env) (ms_marks s) (verifiedKey cfg userId t) \<noteq> None)"

definition isMfaFresh :: "mfa_config \<Rightarrow> mfa_env \<Rightarrow> string \<Rightarrow> string option \<Rightarrow> mfa_store \<Rightarrow> bool" where
  "isMfaFresh cfg env userId rawSessionToken s =
     (case sessionTokenFrom rawSessionToken of
        None \<Rightarrow> False
      | Some t \<Rightarrow> \<not> me_redisFails env \<and> redisGet (me_now env) (ms_marks s) (freshKey cfg userId t) \<noteq> None)"


section \<open>Runs\<close>

datatype mfa_call =
    RequestCode string string
  | VerifyCode string string "string option"
  | EndSession string "string option"

fun mfaStep :: "mfa_config \<Rightarrow> mfa_env \<times> mfa_call \<Rightarrow> mfa_store \<Rightarrow> mfa_store" where
  "mfaStep cfg (env, RequestCode u email) s = fst (requestMfaCode cfg env u email s)"
| "mfaStep cfg (env, VerifyCode u code prev) s = fst (verifyMfaCode cfg env u code prev s)"
| "mfaStep cfg (env, EndSession u tok) s = endMfaSession cfg u tok s"

definition mfaRun :: "mfa_config \<Rightarrow> (mfa_env \<times> mfa_call) list \<Rightarrow> mfa_store \<Rightarrow> mfa_store" where
  "mfaRun cfg calls s = fold (mfaStep cfg) calls s"

lemma mfaRun_snoc [simp]: "mfaRun cfg (calls @ [c]) s = mfaStep cfg c (mfaRun cfg calls s)"
  by (simp add: mfaRun_def)

lemma mfaRun_Nil [simp]: "mfaRun cfg [] s = s"
  by (simp add: mfaRun_def)

lemmas mfa_keys = otpKey_def attemptsKey_def failedKey_def verifiedKey_def freshKey_def resendKey_def

lemma key_simps [simp]:
  "otpKey u = otpKey v \<longleftrightarrow> u = v" "failedKey u = failedKey v \<longleftrightarrow> u = v" "attemptsKey u \<noteq> failedKey v" "failedKey v \<noteq> attemptsKey u"
  "resendKey u \<noteq> verifiedKey cfg v t" "verifiedKey cfg v t \<noteq> resendKey u"
  "resendKey u \<noteq> freshKey cfg v t" "freshKey cfg v t \<noteq> resendKey u"
  "freshKey cfg u t \<noteq> verifiedKey cfg v t'" "verifiedKey cfg v t' \<noteq> freshKey cfg u t"
  by (simp_all add: mfa_keys)

lemma marker_eq:
  assumes "CHR '':'' \<notin> set (mc_sha256 cfg t)" "CHR '':'' \<notin> set (mc_sha256 cfg t')"
  shows "verifiedKey cfg u t = verifiedKey cfg v t' \<longleftrightarrow> u = v \<and> mc_sha256 cfg t = mc_sha256 cfg t'"
    "freshKey cfg u t = freshKey cfg v t' \<longleftrightarrow> u = v \<and> mc_sha256 cfg t = mc_sha256 cfg t'"
  using assms by (auto simp: mfa_keys dest: split_back [rotated 2])

section \<open>What a verified session rests on\<close>

text \<open>The code of the user that was asked for at \<open>env\<close> is the one in the store.\<close>

definition issuedBy :: "mfa_config \<Rightarrow> string \<Rightarrow> mfa_env \<Rightarrow> (mfa_env \<times> mfa_call) list \<Rightarrow> bool" where
  "issuedBy cfg u env calls = (\<exists>pre email post. calls = pre @ (env, RequestCode u email) # post)"

definition codeInv :: "mfa_config \<Rightarrow> (mfa_env \<times> mfa_call) list \<Rightarrow> mfa_store \<Rightarrow> bool" where
  "codeInv cfg calls s = (\<forall>u h d. ms_codes s (otpKey u) = Some (h, d) \<longrightarrow>
     (\<exists>env. issuedBy cfg u env calls \<and> h = mc_sha256 cfg (generateCode env) \<and> d = Some (me_now env + mc_CODE_TTL_SECONDS cfg * 1000)))"

lemma issuedBy_snoc: "issuedBy cfg u env calls \<Longrightarrow> issuedBy cfg u env (calls @ [c])"
  unfolding issuedBy_def by (metis append_Cons append_assoc)

lemma issuedBy_now: "issuedBy cfg u env (calls @ [(env, RequestCode u email)])"
  unfolding issuedBy_def by blast

lemma codes_counted [simp]: "ms_codes (countOne now k n s) = ms_codes s" "ms_marks (countOne now k n s) = ms_marks s"
  "ms_codes (endMfaSession cfg u t s) = ms_codes s" "ms_counters (endMfaSession cfg u t s) = ms_counters s"
  "ms_codes (dropCode u s) = redisDel (ms_codes s) (otpKey u)" "ms_marks (dropCode u s) = ms_marks s"
  "ms_counters (dropCode u s) = ms_counters s"
  by (simp_all add: countOne_def endMfaSession_def dropCode_def split: option.split)

lemma wrongCode_sel: "ms_codes (fst (wrongCode cfg now u a s)) k \<in> {ms_codes s k, None}"
  "ms_marks (fst (wrongCode cfg now u a s)) = ms_marks s"
  "ms_counters (fst (wrongCode cfg now u a s)) = ms_counters (countOne now (failedKey u) FAILED_VERIFY_WINDOW_SECONDS s)"
  by (simp_all add: wrongCode_def Let_def)

lemma rightCode_sel: "ms_codes (fst (rightCode cfg env u prev s)) = redisDel (ms_codes s) (otpKey u)"
  "snd (rightCode cfg env u prev s) = VerifyOk (me_randomBytes env)"
  by (simp_all add: rightCode_def Let_def)

text \<open>The ways a verification can go.\<close>

definition comparedTo :: "mfa_config \<Rightarrow> mfa_env \<Rightarrow> string \<Rightarrow> mfa_store \<Rightarrow> string option" where
  "comparedTo cfg env u s =
     (if 0 < lockedOutFor (me_now env) s u then None
      else (case redisGet (me_now env) (ms_codes s) (otpKey u) of
              None \<Rightarrow> None
            | Some h \<Rightarrow> if h = [] \<or> mc_MAX_VERIFY_ATTEMPTS cfg < fst (redisIncr (me_now env) (ms_counters s) (attemptsKey u))
                then None else Some h))"

lemma verify_cases:
  obtains (refused) "comparedTo cfg env u s = None" "\<And>t. snd (verifyMfaCode cfg env u code prev s) \<noteq> VerifyOk t"
      "fst (verifyMfaCode cfg env u code prev s) \<in> {s, dropCode u s, countOne (me_now env) (attemptsKey u) (mc_CODE_TTL_SECONDS cfg) s,
         dropCode u (countOne (me_now env) (attemptsKey u) (mc_CODE_TTL_SECONDS cfg) s)}"
    | (wrong) h a where "comparedTo cfg env u s = Some h" "mc_sha256 cfg code \<noteq> h" "\<And>t. snd (verifyMfaCode cfg env u code prev s) \<noteq> VerifyOk t"
      "verifyMfaCode cfg env u code prev s = wrongCode cfg (me_now env) u a (countOne (me_now env) (attemptsKey u) (mc_CODE_TTL_SECONDS cfg) s)"
    | (right) h where "comparedTo cfg env u s = Some h" "mc_sha256 cfg code = h" "redisGet (me_now env) (ms_codes s) (otpKey u) = Some h"
      "verifyMfaCode cfg env u code prev s = rightCode cfg env u prev (countOne (me_now env) (attemptsKey u) (mc_CODE_TTL_SECONDS cfg) s)"
proof -
  have w: "snd (wrongCode cfg now u a s') \<noteq> VerifyOk t" for now a s' t by (simp add: wrongCode_def Let_def)
  show thesis
  proof (cases "comparedTo cfg env u s")
    case None
    then show thesis
      by (intro refused) (auto simp: comparedTo_def verifyMfaCode_def Let_def split: if_splits option.splits)
  next
    case (Some h)
    then have h: "\<not> 0 < lockedOutFor (me_now env) s u" "redisGet (me_now env) (ms_codes s) (otpKey u) = Some h" "h \<noteq> []"
      "\<not> mc_MAX_VERIFY_ATTEMPTS cfg < fst (redisIncr (me_now env) (ms_counters s) (attemptsKey u))"
      by (auto simp: comparedTo_def split: if_splits option.splits)
    show thesis
    proof (cases "mc_sha256 cfg code = h")
      case True
      then show thesis using Some h by (intro right) (simp_all add: verifyMfaCode_def Let_def)
    next
      case False
      then show thesis using Some h w by (intro wrong) (simp_all add: verifyMfaCode_def Let_def)
    qed
  qed
qed

lemma request_codes:
  "ms_codes (fst (requestMfaCode cfg env u email s)) (otpKey v) = ms_codes s (otpKey v) \<or>
   u = v \<and> ms_codes (fst (requestMfaCode cfg env u email s)) (otpKey v) =
     Some (mc_sha256 cfg (generateCode env), Some (me_now env + mc_CODE_TTL_SECONDS cfg * 1000))"
  by (simp add: requestMfaCode_def Let_def)

lemma verify_codes:
  "ms_codes (fst (verifyMfaCode cfg env u code prev s)) (otpKey v) \<in> {ms_codes s (otpKey v), None}"
proof (cases rule: verify_cases [of cfg env u s code prev])
  case refused
  then show ?thesis by (auto split: if_splits)
next
  case (wrong h a)
  then show ?thesis
    using wrongCode_sel(1) [of cfg "me_now env" u a "countOne (me_now env) (attemptsKey u) (mc_CODE_TTL_SECONDS cfg) s" "otpKey v"] by simp
next
  case (right h)
  then show ?thesis by (simp add: rightCode_sel)
qed

lemma codeInv_step:
  assumes "codeInv cfg calls s"
  shows "codeInv cfg (calls @ [c]) (mfaStep cfg c s)"
proof -
  obtain env x where c: "c = (env, x)" by (cases c)
  have "\<exists>e. issuedBy cfg v e (calls @ [c]) \<and> h = mc_sha256 cfg (generateCode e) \<and> d = Some (me_now e + mc_CODE_TTL_SECONDS cfg * 1000)"
    if at: "ms_codes (mfaStep cfg c s) (otpKey v) = Some (h, d)" for v h d
  proof (cases "ms_codes s (otpKey v) = Some (h, d)")
    case True
    then show ?thesis using assms unfolding codeInv_def by (meson issuedBy_snoc)
  next
    case False
    show ?thesis
    proof (cases x)
      case (RequestCode u email)
      then show ?thesis using at False request_codes [of cfg env u email s v] issuedBy_now [of cfg v env calls email] by (auto simp: c)
    next
      case (VerifyCode u code prev)
      then show ?thesis using at False verify_codes [of cfg env u code prev s v] by (auto simp: c)
    next
      case (EndSession u t)
      then show ?thesis using at False by (simp add: c)
    qed
  qed
  then show ?thesis by (simp add: codeInv_def)
qed

text \<open>
  The session of user and token has been earned by the call at \<open>env1\<close>: a code entered in its time, equal to one sent
  to that user, and the session has not been ended since.
\<close>

definition earned :: "mfa_config \<Rightarrow> string \<Rightarrow> string \<Rightarrow> mfa_store \<Rightarrow> (mfa_env \<times> mfa_call) list \<Rightarrow> mfa_env \<Rightarrow> bool" where
  "earned cfg u tok s0 calls env1 =
     (\<exists>pre code prev post env0. calls = pre @ (env1, VerifyCode u code prev) # post \<and>
        snd (verifyMfaCode cfg env1 u code prev (mfaRun cfg pre s0)) = VerifyOk (me_randomBytes env1) \<and>
        mc_sha256 cfg (me_randomBytes env1) = mc_sha256 cfg tok \<and>
        issuedBy cfg u env0 pre \<and> mc_sha256 cfg code = mc_sha256 cfg (generateCode env0) \<and>
        me_now env1 \<le> me_now env0 + mc_CODE_TTL_SECONDS cfg * 1000 \<and>
        (sessionTokenFrom (Some tok) = Some tok \<longrightarrow> (\<forall>c \<in> set post. snd c \<noteq> EndSession u (Some tok))))"

lemma earned_snoc:
  assumes "earned cfg u tok s0 calls env1" "sessionTokenFrom (Some tok) = Some tok \<longrightarrow> snd c \<noteq> EndSession u (Some tok)"
  shows "earned cfg u tok s0 (calls @ [c]) env1"
proof -
  obtain pre code prev post env0 where e: "calls = pre @ (env1, VerifyCode u code prev) # post"
    "snd (verifyMfaCode cfg env1 u code prev (mfaRun cfg pre s0)) = VerifyOk (me_randomBytes env1)"
    "mc_sha256 cfg (me_randomBytes env1) = mc_sha256 cfg tok"
    "issuedBy cfg u env0 pre" "mc_sha256 cfg code = mc_sha256 cfg (generateCode env0)"
    "me_now env1 \<le> me_now env0 + mc_CODE_TTL_SECONDS cfg * 1000"
    "sessionTokenFrom (Some tok) = Some tok \<longrightarrow> (\<forall>c \<in> set post. snd c \<noteq> EndSession u (Some tok))"
    using assms(1) unfolding earned_def by blast
  show ?thesis
    unfolding earned_def
    by (rule exI [of _ pre], rule exI [of _ code], rule exI [of _ prev], rule exI [of _ "post @ [c]"], rule exI [of _ env0])
      (use e assms(2) in simp)
qed

definition markInv :: "mfa_config \<Rightarrow> mfa_store \<Rightarrow> (mfa_env \<times> mfa_call) list \<Rightarrow> mfa_store \<Rightarrow> bool" where
  "markInv cfg s0 calls s = (\<forall>u tok d.
     (ms_marks s (verifiedKey cfg u tok) = Some ((), d) \<longrightarrow>
        (\<exists>env1. earned cfg u tok s0 calls env1 \<and> d = Some (me_now env1 + mc_VERIFIED_TTL_SECONDS cfg * 1000))) \<and>
     (ms_marks s (freshKey cfg u tok) = Some ((), d) \<longrightarrow>
        (\<exists>env1. earned cfg u tok s0 calls env1 \<and> d = Some (me_now env1 + mc_FRESH_WINDOW_SECONDS cfg * 1000))))"

lemma request_marks: "k \<noteq> resendKey u \<Longrightarrow> ms_marks (fst (requestMfaCode cfg env u email s)) k = ms_marks s k"
  by (simp add: requestMfaCode_def Let_def)

lemma end_marks:
  "ms_marks (endMfaSession cfg u t s) k = (if \<exists>tok. sessionTokenFrom t = Some tok \<and> (k = verifiedKey cfg u tok \<or> k = freshKey cfg u tok)
     then None else ms_marks s k)"
  by (auto simp: endMfaSession_def split: option.splits)

lemma sessionToken_same: "sessionTokenFrom t = Some tok \<Longrightarrow> t = Some tok"
  by (auto simp: sessionTokenFrom_def split: option.splits if_splits)

lemma right_marks:
  "ms_marks (fst (rightCode cfg env u prev s)) k =
    (if k = freshKey cfg u (me_randomBytes env) then Some ((), Some (me_now env + mc_FRESH_WINDOW_SECONDS cfg * 1000))
     else if k = verifiedKey cfg u (me_randomBytes env) then Some ((), Some (me_now env + mc_VERIFIED_TTL_SECONDS cfg * 1000))
     else ms_marks (endMfaSession cfg u prev s) k)"
  by (simp add: rightCode_def Let_def endMfaSession_def dropCode_def split: option.split)

lemma earned_now:
  assumes inv: "codeInv cfg calls (mfaRun cfg calls s0)"
    and h: "mc_sha256 cfg code = h" "redisGet (me_now env) (ms_codes (mfaRun cfg calls s0)) (otpKey u) = Some h"
    and ok: "snd (verifyMfaCode cfg env u code prev (mfaRun cfg calls s0)) = VerifyOk (me_randomBytes env)"
    and tok: "mc_sha256 cfg (me_randomBytes env) = mc_sha256 cfg tok"
  shows "earned cfg u tok s0 (calls @ [(env, VerifyCode u code prev)]) env"
proof -
  obtain d where d: "ms_codes (mfaRun cfg calls s0) (otpKey u) = Some (h, d)" "case d of None \<Rightarrow> True | Some t \<Rightarrow> me_now env \<le> t"
    using h(2) by (auto simp: redisGet_Some)
  then obtain e where "issuedBy cfg u e calls" "h = mc_sha256 cfg (generateCode e)" "d = Some (me_now e + mc_CODE_TTL_SECONDS cfg * 1000)"
    using inv unfolding codeInv_def by blast
  then show ?thesis
    unfolding earned_def
    by (intro exI [of _ calls] exI [of _ code] exI [of _ prev] exI [of _ "[]"] exI [of _ e]) (use d ok tok h in auto)
qed

lemma markInv_step:
  assumes sha: "\<And>t. CHR '':'' \<notin> set (mc_sha256 cfg t)"
    and inv: "markInv cfg s0 calls (mfaRun cfg calls s0)" "codeInv cfg calls (mfaRun cfg calls s0)"
  shows "markInv cfg s0 (calls @ [c]) (mfaStep cfg c (mfaRun cfg calls s0))"
proof -
  obtain env x where c: "c = (env, x)" by (cases c)
  let ?s = "mfaRun cfg calls s0" and ?s' = "mfaStep cfg c (mfaRun cfg calls s0)"
  have kept: "ms_marks ?s k = Some ((), d) \<and> (sessionTokenFrom (Some tok) = Some tok \<longrightarrow> snd c \<noteq> EndSession u (Some tok)) \<or>
      earned cfg u tok s0 (calls @ [c]) env \<and>
        d = Some (me_now env + (if k = verifiedKey cfg u tok then mc_VERIFIED_TTL_SECONDS cfg else mc_FRESH_WINDOW_SECONDS cfg) * 1000)"
    if at: "ms_marks ?s' k = Some ((), d)" "k = verifiedKey cfg u tok \<or> k = freshKey cfg u tok" for k d u tok
  proof (cases x)
    case (RequestCode v email)
    then show ?thesis using at request_marks [of k v] by (auto simp: c)
  next
    case (EndSession v t)
    then have gone: "ms_marks ?s' k = (if \<exists>tok. sessionTokenFrom t = Some tok \<and> (k = verifiedKey cfg v tok \<or> k = freshKey cfg v tok)
        then None else ms_marks ?s k)" by (simp add: c end_marks)
    then have k: "\<not> (\<exists>tok. sessionTokenFrom t = Some tok \<and> (k = verifiedKey cfg v tok \<or> k = freshKey cfg v tok))"
      and m: "ms_marks ?s k = Some ((), d)" using at(1) by (metis option.distinct(1))+
    moreover have "x \<noteq> EndSession u (Some tok)" if "sessionTokenFrom (Some tok) = Some tok"
      using k at(2) that by (auto simp: EndSession)
    ultimately show ?thesis by (simp add: c)
  next
    case (VerifyCode v code prev)
    show ?thesis
    proof (cases rule: verify_cases [of cfg env v ?s code prev])
      case refused
      then show ?thesis using at by (auto simp: c VerifyCode)
    next
      case (wrong h a)
      then show ?thesis using at by (simp add: c VerifyCode wrongCode_sel)
    next
      case (right h)
      then have ok: "snd (verifyMfaCode cfg env v code prev ?s) = VerifyOk (me_randomBytes env)" by (simp add: rightCode_sel)
      have new: "earned cfg v tok' s0 (calls @ [c]) env" if "mc_sha256 cfg (me_randomBytes env) = mc_sha256 cfg tok'" for tok'
        using earned_now [OF inv(2) right(2,3) ok that] by (simp add: c VerifyCode)
      show ?thesis
        using at new unfolding c VerifyCode mfaStep.simps right(4)
        by (auto simp: right_marks end_marks marker_eq [OF sha sha] split: if_splits)
    qed
  qed
  have "\<exists>env1. earned cfg u tok s0 (calls @ [c]) env1 \<and> d = Some (me_now env1 + mc_VERIFIED_TTL_SECONDS cfg * 1000)"
    if "ms_marks ?s' (verifiedKey cfg u tok) = Some ((), d)" for u tok d
  proof -
    have "ms_marks ?s (verifiedKey cfg u tok) = Some ((), d) \<and> (sessionTokenFrom (Some tok) = Some tok \<longrightarrow> snd c \<noteq> EndSession u (Some tok)) \<or>
      earned cfg u tok s0 (calls @ [c]) env \<and> d = Some (me_now env + mc_VERIFIED_TTL_SECONDS cfg * 1000)"
      using kept [OF that, of u tok] by (auto simp del: mfaRun_snoc)
    then show ?thesis
    proof
      assume old: "ms_marks ?s (verifiedKey cfg u tok) = Some ((), d) \<and> (sessionTokenFrom (Some tok) = Some tok \<longrightarrow> snd c \<noteq> EndSession u (Some tok))"
      then obtain env1 where "earned cfg u tok s0 calls env1" "d = Some (me_now env1 + mc_VERIFIED_TTL_SECONDS cfg * 1000)"
        using inv(1) unfolding markInv_def by blast
      then show ?thesis using earned_snoc old by blast
    qed blast
  qed
  moreover have "\<exists>env1. earned cfg u tok s0 (calls @ [c]) env1 \<and> d = Some (me_now env1 + mc_FRESH_WINDOW_SECONDS cfg * 1000)"
    if "ms_marks ?s' (freshKey cfg u tok) = Some ((), d)" for u tok d
  proof -
    have "ms_marks ?s (freshKey cfg u tok) = Some ((), d) \<and> (sessionTokenFrom (Some tok) = Some tok \<longrightarrow> snd c \<noteq> EndSession u (Some tok)) \<or>
      earned cfg u tok s0 (calls @ [c]) env \<and> d = Some (me_now env + mc_FRESH_WINDOW_SECONDS cfg * 1000)"
      using kept [OF that, of u tok] by (auto simp del: mfaRun_snoc)
    then show ?thesis
    proof
      assume old: "ms_marks ?s (freshKey cfg u tok) = Some ((), d) \<and> (sessionTokenFrom (Some tok) = Some tok \<longrightarrow> snd c \<noteq> EndSession u (Some tok))"
      then obtain env1 where "earned cfg u tok s0 calls env1" "d = Some (me_now env1 + mc_FRESH_WINDOW_SECONDS cfg * 1000)"
        using inv(1) unfolding markInv_def by blast
      then show ?thesis using earned_snoc old by blast
    qed blast
  qed
  ultimately show ?thesis by (simp add: markInv_def)
qed

definition mfaEmpty :: "mfa_store \<Rightarrow> bool" where
  "mfaEmpty s = (ms_codes s = Map.empty \<and> ms_counters s = Map.empty \<and> ms_marks s = Map.empty)"

lemma mfaRun_inv:
  assumes "\<And>t. CHR '':'' \<notin> set (mc_sha256 cfg t)" "mfaEmpty s0"
  shows "markInv cfg s0 calls (mfaRun cfg calls s0) \<and> codeInv cfg calls (mfaRun cfg calls s0)"
proof (induction calls rule: rev_induct)
  case Nil
  then show ?case using assms(2) by (simp add: markInv_def codeInv_def mfaEmpty_def)
next
  case (snoc c calls)
  then show ?case using markInv_step [OF assms(1)] codeInv_step by simp
qed


section \<open>Witnesses\<close>

definition mfa_demo_config :: mfa_config where
  "mfa_demo_config =
     \<lparr>mc_CODE_TTL_SECONDS = 600, mc_VERIFIED_TTL_SECONDS = 43200, mc_FRESH_WINDOW_SECONDS = 300, mc_MAX_VERIFY_ATTEMPTS = 5,
      mc_RESEND_COOLDOWN_SECONDS = 30, mc_sha256 = filter (\<lambda>c. c \<noteq> CHR '':'')\<rparr>"

definition mfa_demo_token :: string where
  "mfa_demo_token = replicate 43 CHR ''a''"

definition mfa_demo_env :: "date \<Rightarrow> mfa_env" where
  "mfa_demo_env t = \<lparr>me_now = t, me_randomInt = 42, me_randomBytes = mfa_demo_token, me_sendFails = False, me_redisFails = False\<rparr>"

definition mfa_demo_start :: mfa_store where
  "mfa_demo_start = \<lparr>ms_codes = Map.empty, ms_counters = Map.empty, ms_marks = Map.empty, ms_sent = []\<rparr>"

definition mfa_demo_wrong :: "(mfa_env \<times> mfa_call) list" where
  "mfa_demo_wrong = [(mfa_demo_env 0, RequestCode ''op'' ''op@example.com''), (mfa_demo_env 1000, VerifyCode ''op'' ''111111'' None),
     (mfa_demo_env 2000, VerifyCode ''op'' ''222222'' None)]"

definition mfa_demo_calls :: "(mfa_env \<times> mfa_call) list" where
  "mfa_demo_calls = mfa_demo_wrong @ [(mfa_demo_env 3000, VerifyCode ''op'' ''000042'' None)]"

lemma mfa_demo_empty: "mfaEmpty mfa_demo_start"
  by (simp add: mfaEmpty_def mfa_demo_start_def)


end
