(* ===== verification/MfaRace.thy ===== *)
theory MfaRace
  imports Mfa
begin

text \<open>
  Guessing at the second factor with many requests at once. \<open>verifyMfaCode\<close> of
  \<open>packages/auth/src/platform-admin-mfa.ts\<close> is taken apart into the commands it sends to the key-value server, and any
  number of calls interleave them. Run without interruption the commands are the function of theory \<open>Mfa\<close>.

  The server answers every command it is sent; a call may end at any point without having sent the rest. The clock is
  the server's.
\<close>

section \<open>The commands of one call\<close>

text \<open>Each phase is named for the command that comes next.\<close>

datatype verify_phase =
    VpLock
  | VpLockTtl
  | VpRefuse int
  | VpCode
  | VpAttempt string
  | VpAttemptTtl string int
  | VpOver
  | VpFail int
  | VpFailTtl int int
  | VpFailDel
  | VpFailRead
  | VpSpent
  | VpPass
  | VpEnd
  | VpVerified
  | VpFresh
  | VpDone MfaVerifyResult

record verify_call =
  vc_user :: string
  vc_code :: string
  vc_prev :: "string option"
  vc_token :: string
  vc_phase :: verify_phase

definition waitOrWindow :: "int \<Rightarrow> int" where
  "waitOrWindow ttl = (if 0 < ttl then ttl else FAILED_VERIFY_WINDOW_SECONDS)"

fun verifyCmd :: "mfa_config \<Rightarrow> date \<Rightarrow> verify_call \<Rightarrow> verify_phase \<Rightarrow> mfa_store \<Rightarrow> verify_phase \<times> mfa_store" where
  "verifyCmd cfg now c VpLock s =
     (if \<not> MAX_FAILED_VERIFIES \<le> dflt 0 (redisGet now (ms_counters s) (failedKey (vc_user c))) then VpCode else VpLockTtl, s)"
| "verifyCmd cfg now c VpLockTtl s =
     (let ttl = redisTtl now (ms_counters s) (failedKey (vc_user c)) in
      (if ttl = -2 then VpCode else VpRefuse (waitOrWindow ttl), s))"
| "verifyCmd cfg now c (VpRefuse wait) s = (VpDone (VerifyLockedOut wait), dropCode (vc_user c) s)"
| "verifyCmd cfg now c VpCode s =
     ((case redisGet now (ms_codes s) (otpKey (vc_user c)) of
         None \<Rightarrow> VpDone VerifyExpired
       | Some storedHash \<Rightarrow> if storedHash = [] then VpDone VerifyExpired else VpAttempt storedHash), s)"
| "verifyCmd cfg now c (VpAttempt storedHash) s =
     (VpAttemptTtl storedHash (fst (redisIncr now (ms_counters s) (attemptsKey (vc_user c)))),
      s\<lparr>ms_counters := snd (redisIncr now (ms_counters s) (attemptsKey (vc_user c)))\<rparr>)"
| "verifyCmd cfg now c (VpAttemptTtl storedHash attempts) s =
     (if mc_MAX_VERIFY_ATTEMPTS cfg < attempts then VpOver
      else if mc_sha256 cfg (vc_code c) \<noteq> storedHash then VpFail attempts else VpPass,
      s\<lparr>ms_counters := redisExpireNx now (ms_counters s) (attemptsKey (vc_user c)) (mc_CODE_TTL_SECONDS cfg)\<rparr>)"
| "verifyCmd cfg now c VpOver s = (VpDone VerifyLocked, dropCode (vc_user c) s)"
| "verifyCmd cfg now c (VpFail attempts) s =
     (VpFailTtl attempts (fst (redisIncr now (ms_counters s) (failedKey (vc_user c)))),
      s\<lparr>ms_counters := snd (redisIncr now (ms_counters s) (failedKey (vc_user c)))\<rparr>)"
| "verifyCmd cfg now c (VpFailTtl attempts failures) s =
     (if MAX_FAILED_VERIFIES \<le> failures then VpFailDel
      else if mc_MAX_VERIFY_ATTEMPTS cfg - attempts \<le> 0 then VpSpent
      else VpDone (VerifyInvalid (mc_MAX_VERIFY_ATTEMPTS cfg - attempts)),
      s\<lparr>ms_counters := redisExpireNx now (ms_counters s) (failedKey (vc_user c)) FAILED_VERIFY_WINDOW_SECONDS\<rparr>)"
| "verifyCmd cfg now c VpFailDel s = (VpFailRead, dropCode (vc_user c) s)"
| "verifyCmd cfg now c VpFailRead s =
     (VpDone (VerifyLockedOut (waitOrWindow (redisTtl now (ms_counters s) (failedKey (vc_user c))))), s)"
| "verifyCmd cfg now c VpSpent s = (VpDone VerifyLocked, dropCode (vc_user c) s)"
| "verifyCmd cfg now c VpPass s =
     (VpEnd, (dropCode (vc_user c) s)
        \<lparr>ms_counters := redisDel (redisDel (ms_counters s) (attemptsKey (vc_user c))) (failedKey (vc_user c))\<rparr>)"
| "verifyCmd cfg now c VpEnd s = (VpVerified, endMfaSession cfg (vc_user c) (vc_prev c) s)"
| "verifyCmd cfg now c VpVerified s =
     (VpFresh, s\<lparr>ms_marks := redisSetEx now (ms_marks s) (verifiedKey cfg (vc_user c) (vc_token c)) () (mc_VERIFIED_TTL_SECONDS cfg)\<rparr>)"
| "verifyCmd cfg now c VpFresh s =
     (VpDone (VerifyOk (vc_token c)),
      s\<lparr>ms_marks := redisSetEx now (ms_marks s) (freshKey cfg (vc_user c) (vc_token c)) () (mc_FRESH_WINDOW_SECONDS cfg)\<rparr>)"
| "verifyCmd cfg now c (VpDone r) s = (VpDone r, s)"

fun verifyAlone :: "nat \<Rightarrow> mfa_config \<Rightarrow> date \<Rightarrow> verify_call \<Rightarrow> verify_phase \<Rightarrow> mfa_store \<Rightarrow> verify_phase \<times> mfa_store" where
  "verifyAlone 0 cfg now c p s = (p, s)"
| "verifyAlone (Suc n) cfg now c p s = (case verifyCmd cfg now c p s of (p', s') \<Rightarrow> verifyAlone n cfg now c p' s')"

lemma verifyAlone_done [simp]: "verifyAlone n cfg now c (VpDone r) s = (VpDone r, s)"
  by (induction n) simp_all

lemma verifyAlone_add:
  "verifyAlone (m + n) cfg now c p s = (case verifyAlone m cfg now c p s of (p', s') \<Rightarrow> verifyAlone n cfg now c p' s')"
  by (induction m arbitrary: p s) (simp_all split: prod.split)

lemma alone_wrong:
  "verifyAlone 4 cfg now c (VpFail attempts) s =
    (VpDone (snd (wrongCode cfg now (vc_user c) attempts s)), fst (wrongCode cfg now (vc_user c) attempts s))"
  by (simp add: eval_nat_numeral wrongCode_def Let_def countOne_def dropCode_def waitOrWindow_def)

lemma alone_right:
  assumes "vc_token c = me_randomBytes env"
  shows "verifyAlone 4 cfg (me_now env) c VpPass s =
    (VpDone (snd (rightCode cfg env (vc_user c) (vc_prev c) s)), fst (rightCode cfg env (vc_user c) (vc_prev c) s))"
  using assms by (simp add: eval_nat_numeral rightCode_def Let_def dropCode_def)

lemma alone_code:
  assumes "vc_token c = me_randomBytes env" "lockedOutFor (me_now env) s (vc_user c) \<le> 0"
  shows "verifyAlone 7 cfg (me_now env) c VpCode s =
    (case verifyMfaCode cfg env (vc_user c) (vc_code c) (vc_prev c) s of (s', r) \<Rightarrow> (VpDone r, s'))"
proof -
  have "verifyAlone 7 cfg (me_now env) c VpCode s =
      (case verifyAlone 3 cfg (me_now env) c VpCode s of (p', s') \<Rightarrow> verifyAlone 4 cfg (me_now env) c p' s')"
    using verifyAlone_add [of 3 4] by simp
  also have "\<dots> = (case verifyMfaCode cfg env (vc_user c) (vc_code c) (vc_prev c) s of (s', r) \<Rightarrow> (VpDone r, s'))"
    using assms alone_wrong alone_right [OF assms(1)]
    by (simp add: numeral_3_eq_3 verifyMfaCode_def Let_def countOne_def case_prod_beta split: option.split)
      (simp add: eval_nat_numeral dropCode_def)
  finally show ?thesis .
qed

text \<open>Nine commands are enough for every path through the function, and undisturbed they give what it gives.\<close>

lemma verify_alone:
  assumes "vc_token c = me_randomBytes env"
  shows "verifyAlone 9 cfg (me_now env) c VpLock s =
    (case verifyMfaCode cfg env (vc_user c) (vc_code c) (vc_prev c) s of (s', r) \<Rightarrow> (VpDone r, s'))"
proof (cases "0 < lockedOutFor (me_now env) s (vc_user c)")
  case True
  then show ?thesis
    by (auto simp: eval_nat_numeral verifyMfaCode_def lockedOutFor_def waitOrWindow_def Let_def split: if_splits)
next
  case False
  have "verifyAlone 2 cfg (me_now env) c VpLock s = (VpCode, s) \<or> verifyAlone 1 cfg (me_now env) c VpLock s = (VpCode, s)"
    using False by (auto simp: eval_nat_numeral lockedOutFor_def FAILED_VERIFY_WINDOW_SECONDS_def Let_def split: if_splits)
  moreover have "verifyAlone 9 cfg (me_now env) c VpLock s =
      (case verifyAlone 2 cfg (me_now env) c VpLock s of (p', s') \<Rightarrow> verifyAlone 7 cfg (me_now env) c p' s')"
    "verifyAlone 9 cfg (me_now env) c VpLock s =
      (case verifyAlone 1 cfg (me_now env) c VpLock s of (p', s') \<Rightarrow> verifyAlone 8 cfg (me_now env) c p' s')"
    "verifyAlone 8 cfg (me_now env) c VpCode s =
      (case verifyAlone 7 cfg (me_now env) c VpCode s of (p', s') \<Rightarrow> verifyAlone 1 cfg (me_now env) c p' s')"
    using verifyAlone_add [of 2 7] verifyAlone_add [of 1 8] verifyAlone_add [of 7 1] by simp_all
  ultimately show ?thesis using alone_code [OF assms, of s cfg] False by (auto split: prod.splits)
qed

section \<open>Many calls at once\<close>

text \<open>
  The calls under way, the wrong codes whose failure has been recorded, with user and time, and the users whose code was
  accepted. At most \<open>k\<close> calls of one user are under way together.
\<close>

record race_sys =
  rc_clock :: date
  rc_store :: mfa_store
  rc_calls :: "verify_call list"
  rc_wrong :: "(string \<times> date) list"
  rc_accepted :: "string list"

definition inFlight :: "string \<Rightarrow> race_sys \<Rightarrow> nat" where
  "inFlight u s = length (filter (\<lambda>c. vc_user c = u) (rc_calls s))"

definition sendCommand :: "mfa_config \<Rightarrow> nat \<Rightarrow> race_sys \<Rightarrow> race_sys" where
  "sendCommand cfg i s =
     (let c = rc_calls s ! i; (p, store) = verifyCmd cfg (rc_clock s) c (vc_phase c) (rc_store s) in
      s\<lparr>rc_store := store, rc_calls := (rc_calls s)[i := c\<lparr>vc_phase := p\<rparr>],
        rc_wrong := rc_wrong s @ (case vc_phase c of VpFail _ \<Rightarrow> [(vc_user c, rc_clock s)] | _ \<Rightarrow> []),
        rc_accepted := rc_accepted s @ (case vc_phase c of VpPass \<Rightarrow> [vc_user c] | _ \<Rightarrow> [])\<rparr>)"

text \<open>Requests for codes and ends of sessions do not touch the failures; they may do anything else to the store at any moment.\<close>

definition keepsFailures :: "mfa_store \<Rightarrow> mfa_store \<Rightarrow> bool" where
  "keepsFailures s s' = (\<forall>u. ms_counters s' (failedKey u) = ms_counters s (failedKey u))"

lemma request_keepsFailures: "keepsFailures s (fst (requestMfaCode cfg env u email s))"
  by (simp add: keepsFailures_def requestMfaCode_def Let_def)

lemma end_keepsFailures: "keepsFailures s (endMfaSession cfg u t s)"
  by (simp add: keepsFailures_def)

inductive raceStep :: "mfa_config \<Rightarrow> nat \<Rightarrow> race_sys \<Rightarrow> race_sys \<Rightarrow> bool" for cfg k where
  rc_start: "raceStep cfg k s (s\<lparr>rc_calls := rc_calls s @ [c]\<rparr>)" if "vc_phase c = VpLock" "inFlight (vc_user c) s < k"
| rc_command: "raceStep cfg k s (sendCommand cfg i s)" if "i < length (rc_calls s)"
| rc_end: "raceStep cfg k s (s\<lparr>rc_calls := take i (rc_calls s) @ drop (Suc i) (rc_calls s)\<rparr>)"
| rc_other: "raceStep cfg k s (s\<lparr>rc_store := store\<rparr>)" if "keepsFailures (rc_store s) store"
| rc_later: "raceStep cfg k s (s\<lparr>rc_clock := t\<rparr>)" if "rc_clock s \<le> t"

definition raceStart :: "race_sys \<Rightarrow> bool" where
  "raceStart s = (mfaEmpty (rc_store s) \<and> rc_calls s = [] \<and> rc_wrong s = [] \<and> rc_accepted s = [])"

section \<open>Lives of a counter\<close>

text \<open>Guesses, each with the start of the life of the counter it was counted in: at most \<open>m\<close> in one life, of at least \<open>w\<close>.\<close>

definition windowed :: "nat \<Rightarrow> int \<Rightarrow> (date \<times> date) list \<Rightarrow> bool" where
  "windowed m w gs =
     ((\<forall>(t, st) \<in> set gs. st \<le> t \<and> (st, st) \<in> set gs) \<and>
      (\<forall>(t, st) \<in> set gs. \<forall>(t', st') \<in> set gs. st < st' \<longrightarrow> st + w < st' \<and> t < st') \<and>
      (\<forall>x. length (filter (\<lambda>g. snd g = x) gs) \<le> m))"

lemma windowed_count:
  assumes "windowed m w gs"
  shows "length (filter (\<lambda>t. a \<le> t \<and> t \<le> a + w) (map fst gs)) \<le> 2 * m - 1"
proof -
  let ?F = "filter (\<lambda>g. a \<le> fst g \<and> fst g \<le> a + w) gs"
  let ?new = "filter (\<lambda>g. a \<le> snd g) ?F" and ?old = "filter (\<lambda>g. \<not> a \<le> snd g) ?F"
  have w: "\<And>t st. (t, st) \<in> set gs \<Longrightarrow> st \<le> t \<and> (st, st) \<in> set gs"
    "\<And>t st t' st'. (t, st) \<in> set gs \<Longrightarrow> (t', st') \<in> set gs \<Longrightarrow> st < st' \<Longrightarrow> st + w < st' \<and> t < st'"
    "\<And>x. length (filter (\<lambda>g. snd g = x) gs) \<le> m"
    using assms by (auto simp: windowed_def)
  have one: "length (filter P gs) \<le> m" if "\<And>g g'. g \<in> set gs \<Longrightarrow> g' \<in> set gs \<Longrightarrow> P g \<Longrightarrow> P g' \<Longrightarrow> snd g = snd g'" for P
  proof (cases "filter P gs")
    case (Cons g _)
    then have "g \<in> set (filter P gs)" by simp
    then have g: "g \<in> set gs" "P g" by simp_all
    have "length (filter P gs) = length (filter P (filter (\<lambda>g'. snd g' = snd g) gs))"
      unfolding filter_filter by (rule arg_cong [where f = length], rule filter_cong) (use g that in blast)+
    also have "\<dots> \<le> m" using w(3) [of "snd g"] length_filter_le le_trans by blast
    finally show ?thesis .
  qed simp
  have "length ?new \<le> m"
    unfolding filter_filter
  proof (rule one)
    fix g g' assume "g \<in> set gs" "g' \<in> set gs" "(a \<le> fst g \<and> fst g \<le> a + w) \<and> a \<le> snd g" "(a \<le> fst g' \<and> fst g' \<le> a + w) \<and> a \<le> snd g'"
    then show "snd g = snd g'"
      using w(1) [of "fst g" "snd g"] w(1) [of "fst g'" "snd g'"] w(2) [of "fst g" "snd g" "fst g'" "snd g'"]
        w(2) [of "fst g'" "snd g'" "fst g" "snd g"] by - (rule ccontr, auto simp: neq_iff)
  qed
  moreover have "length ?old \<le> m - 1"
  proof (cases ?old)
    case (Cons g _)
    then have "g \<in> set ?old" by simp
    then have g: "g \<in> set gs" "\<not> a \<le> snd g" "a \<le> fst g" by simp_all
    have same: "snd g' = snd g" if "g' \<in> set gs" "\<not> a \<le> snd g'" "a \<le> fst g'" for g'
      using w(1) [of "fst g" "snd g"] w(1) [of "fst g'" "snd g'"] w(2) [of "fst g" "snd g" "fst g'" "snd g'"]
        w(2) [of "fst g'" "snd g'" "fst g" "snd g"] g that by - (rule ccontr, auto simp: neq_iff)
    have "?old = filter (\<lambda>g'. \<not> a \<le> snd g' \<and> a \<le> fst g' \<and> fst g' \<le> a + w) (filter (\<lambda>g'. snd g' = snd g) gs)"
      unfolding filter_filter by (rule filter_cong) (use same in auto)
    moreover have "(snd g, snd g) \<in> set (filter (\<lambda>g'. snd g' = snd g) gs)" using w(1) [of "fst g" "snd g"] g by simp
    ultimately have "length ?old < length (filter (\<lambda>g'. snd g' = snd g) gs)"
      using g(2) length_filter_less by (metis (mono_tags, lifting) fst_conv)
    then show ?thesis using w(3) [of "snd g"] by linarith
  qed simp
  moreover have "m = 0 \<longrightarrow> gs = []"
  proof (cases gs)
    case (Cons g _)
    then show ?thesis using w(3) [of "snd g"] by auto
  qed simp
  ultimately have "length ?new + length ?old \<le> 2 * m - 1" by (cases "m = 0") auto
  then show ?thesis
    using sum_length_filter_compl [of "\<lambda>g. a \<le> snd g" ?F] by (simp add: filter_map o_def)
qed

text \<open>One more guess: in the running life, or the first of a new one.\<close>

lemma windowed_more:
  assumes "windowed m w gs" "\<And>g. g \<in> set gs \<Longrightarrow> snd g \<noteq> st \<Longrightarrow> snd g + w < st \<and> fst g < st"
    and "length (filter (\<lambda>g. snd g = st) gs) < m" "st \<le> t" "t = st \<or> (st, st) \<in> set gs" "0 \<le> w"
  shows "windowed m w (gs @ [(t, st)])"
proof -
  have old: "\<And>a b. (a, b) \<in> set gs \<Longrightarrow> b \<le> a \<and> (b, b) \<in> set gs"
    "\<And>a b a' b'. (a, b) \<in> set gs \<Longrightarrow> (a', b') \<in> set gs \<Longrightarrow> b < b' \<Longrightarrow> b + w < b' \<and> a < b'"
    using assms(1) unfolding windowed_def by blast+
  have sep: "\<And>a b. (a, b) \<in> set gs \<Longrightarrow> b \<noteq> st \<Longrightarrow> b + w < st \<and> a < st" using assms(2) by fastforce
  show ?thesis
    unfolding windowed_def
  proof (intro conjI ballI allI)
    fix g assume g: "g \<in> set (gs @ [(t, st)])"
    obtain a0 b0 where g0: "g = (a0, b0)" by fastforce
    show "case g of (a, b) \<Rightarrow> b \<le> a \<and> (b, b) \<in> set (gs @ [(t, st)])"
      using g old(1) [of a0 b0] assms(4,5) by (auto simp: g0)
    show "case g of (a, b) \<Rightarrow> \<forall>(a', b') \<in> set (gs @ [(t, st)]). b < b' \<longrightarrow> b + w < b' \<and> a < b'"
    proof (cases g)
      case (Pair a b)
      have "b + w < b' \<and> a < b'" if "(a', b') \<in> set (gs @ [(t, st)])" "b < b'" for a' b'
        using old(2) [of a b a' b'] sep [of a b] sep [of a' b'] g that assms(6) Pair by auto
      then show ?thesis using Pair by auto
    qed
  next
    fix x show "length (filter (\<lambda>g. snd g = x) (gs @ [(t, st)])) \<le> m"
      using assms(1,3) by (cases "x = st") (auto simp: windowed_def)
  qed
qed

definition WINDOW_MS :: int where "WINDOW_MS = FAILED_VERIFY_WINDOW_SECONDS * 1000"

lemma WINDOW_MS_pos: "0 \<le> WINDOW_MS"
  by (simp add: WINDOW_MS_def FAILED_VERIFY_WINDOW_SECONDS_def)

text \<open>
  A call that has passed the check of the lockout and has not recorded its failure yet. The count of a live counter and
  these calls together stay within the bound: the check lets a call pass only below the limit.
\<close>

fun armed :: "verify_phase \<Rightarrow> bool" where
  "armed VpCode = True"
| "armed (VpAttempt _) = True"
| "armed (VpAttemptTtl _ _) = True"
| "armed (VpFail _) = True"
| "armed _ = False"

definition armedCalls :: "string \<Rightarrow> race_sys \<Rightarrow> nat" where
  "armedCalls u s = length (filter (\<lambda>c. vc_user c = u \<and> armed (vc_phase c)) (rc_calls s))"

text \<open>The counter and the guesses it has counted in its present life, which began at \<open>st\<close>.\<close>

definition counterOf :: "(int \<times> date option) option \<Rightarrow> (date \<times> date) list \<Rightarrow> bool" where
  "counterOf x gs =
     (if gs = [] then x = None
      else (\<exists>st dl. x = Some (int (length (filter (\<lambda>g. snd g = st) gs)), dl) \<and> (st, st) \<in> set gs \<and>
              (\<forall>g \<in> set gs. snd g \<noteq> st \<longrightarrow> snd g + WINDOW_MS < st \<and> fst g < st) \<and>
              (\<forall>d. dl = Some d \<longrightarrow> st + WINDOW_MS \<le> d \<and> (\<forall>g \<in> set gs. snd g = st \<longrightarrow> fst g \<le> d))))"

definition guessInv :: "string \<Rightarrow> nat \<Rightarrow> race_sys \<Rightarrow> (date \<times> date) list \<Rightarrow> bool" where
  "guessInv u k s gs =
     (map fst gs = map snd (filter (\<lambda>g. fst g = u) (rc_wrong s)) \<and> windowed (4 + k) WINDOW_MS gs \<and>
      (\<forall>g \<in> set gs. fst g \<le> rc_clock s) \<and> counterOf (ms_counters (rc_store s) (failedKey u)) gs \<and> inFlight u s \<le> k \<and>
      (\<forall>n d. live (rc_clock s) (ms_counters (rc_store s)) (failedKey u) = Some (n, d) \<longrightarrow> n + int (armedCalls u s) \<le> 4 + int k))"

lemma filter_both: "length (filter (\<lambda>x. P x \<and> Q x) xs) \<le> length (filter P xs)"
  by (induction xs) auto

lemma armed_le: "armedCalls u s \<le> inFlight u s"
  unfolding armedCalls_def inFlight_def by (rule filter_both)

lemma filter_replaced:
  "i < length xs \<Longrightarrow> length (filter P (xs[i := y])) + (if P (xs ! i) then 1 else 0) = length (filter P xs) + (if P y then 1 else 0)"
proof (induction xs arbitrary: i)
  case (Cons x xs)
  then show ?case by (cases i) auto
qed simp

lemma filter_removed: "length (filter P (take i xs @ drop (Suc i) xs)) \<le> length (filter P xs)"
proof -
  have "length (filter P (drop (Suc i) xs)) \<le> length (filter P (drop i xs))"
    by (cases "drop i xs") (simp_all add: drop_Suc flip: tl_drop)
  moreover have "length (filter P xs) = length (filter P (take i xs)) + length (filter P (drop i xs))"
    by (metis append_take_drop_id filter_append length_append)
  ultimately show ?thesis by simp
qed

section \<open>What a command does to the failures\<close>

lemma cmd_counter:
  "ms_counters (snd (verifyCmd cfg now c p s)) (failedKey u) =
    (if vc_user c = u
     then (case p of
             VpFail _ \<Rightarrow> snd (redisIncr now (ms_counters s) (failedKey u)) (failedKey u)
           | VpFailTtl _ _ \<Rightarrow> redisExpireNx now (ms_counters s) (failedKey u) FAILED_VERIFY_WINDOW_SECONDS (failedKey u)
           | VpPass \<Rightarrow> None
           | _ \<Rightarrow> ms_counters s (failedKey u))
     else ms_counters s (failedKey u))"
  by (cases p) (auto simp: Let_def)

lemma cmd_armed:
  assumes "armed (fst (verifyCmd cfg now c p s))"
  shows "armed p \<or> (\<forall>n d. live now (ms_counters s) (failedKey (vc_user c)) = Some (n, d) \<longrightarrow> n \<le> 4)"
proof (cases p)
  case VpLock
  then show ?thesis using assms by (auto simp: redisGet_def MAX_FAILED_VERIFIES_def split: if_splits)
next
  case VpLockTtl
  then have "redisTtl now (ms_counters s) (failedKey (vc_user c)) = -2" using assms by (auto simp: Let_def split: if_splits)
  then have "live now (ms_counters s) (failedKey (vc_user c)) = None"
    by (auto simp: redisTtl_def live_def split: option.splits if_splits)
  then show ?thesis by simp
qed (use assms in \<open>auto simp: Let_def split: if_splits\<close>)

lemma fail_disarms: "\<not> armed (fst (verifyCmd cfg now c (VpFail a) s))"
  by simp

lemma live_at: "redis k = redis' k \<Longrightarrow> live now redis k = live now redis' k"
  by (simp add: live_def)

section \<open>The invariant\<close>

lemma guessInv_quiet:
  assumes "guessInv u k s gs" "filter (\<lambda>g. fst g = u) (rc_wrong s') = filter (\<lambda>g. fst g = u) (rc_wrong s)" "rc_clock s' = rc_clock s"
    and same: "ms_counters (rc_store s') (failedKey u) = ms_counters (rc_store s) (failedKey u)"
    and calls: "inFlight u s' \<le> k" "armedCalls u s' \<le> armedCalls u s \<or>
      (\<forall>n d. live (rc_clock s) (ms_counters (rc_store s)) (failedKey u) = Some (n, d) \<longrightarrow> n \<le> 4)"
  shows "guessInv u k s' gs"
proof -
  have live: "live (rc_clock s) (ms_counters (rc_store s')) (failedKey u) = live (rc_clock s) (ms_counters (rc_store s)) (failedKey u)"
    using live_at [of "ms_counters (rc_store s')" "failedKey u" "ms_counters (rc_store s)", OF same] by simp
  have "n + int (armedCalls u s') \<le> 4 + int k" if "live (rc_clock s) (ms_counters (rc_store s)) (failedKey u) = Some (n, d)" for n d
    using that assms(1) calls armed_le [of u s'] unfolding guessInv_def by fastforce
  then show ?thesis using assms(1) calls(1) unfolding guessInv_def assms(2,3) live same by blast
qed

lemma guessInv_later:
  assumes "guessInv u k s gs" "rc_clock s \<le> t"
  shows "guessInv u k (s\<lparr>rc_clock := t\<rparr>) gs"
proof -
  have "live (rc_clock s) r x = Some y" if "live t r x = Some y" for r :: "int kvs" and x y
    using that assms(2) by (auto simp: live_def split: option.splits if_splits)
  then show ?thesis using assms by (fastforce simp: guessInv_def armedCalls_def inFlight_def)
qed

text \<open>The phases of one call change; the others stay.\<close>

lemma command_calls:
  assumes "i < length (rc_calls s)"
  defines "c \<equiv> rc_calls s ! i"
  shows "inFlight u (sendCommand cfg i s) = inFlight u s"
    "armedCalls u (sendCommand cfg i s) + (if vc_user c = u \<and> armed (vc_phase c) then 1 else 0) =
       armedCalls u s + (if vc_user c = u \<and> armed (fst (verifyCmd cfg (rc_clock s) c (vc_phase c) (rc_store s))) then 1 else 0)"
proof -
  let ?y = "c\<lparr>vc_phase := fst (verifyCmd cfg (rc_clock s) c (vc_phase c) (rc_store s))\<rparr>"
  have "rc_calls (sendCommand cfg i s) = (rc_calls s)[i := ?y]" by (simp add: sendCommand_def Let_def case_prod_beta c_def)
  then show "inFlight u (sendCommand cfg i s) = inFlight u s"
    "armedCalls u (sendCommand cfg i s) + (if vc_user c = u \<and> armed (vc_phase c) then 1 else 0) =
       armedCalls u s + (if vc_user c = u \<and> armed (fst (verifyCmd cfg (rc_clock s) c (vc_phase c) (rc_store s))) then 1 else 0)"
    using filter_replaced [OF assms(1), of "\<lambda>c. vc_user c = u" ?y] filter_replaced [OF assms(1), of "\<lambda>c. vc_user c = u \<and> armed (vc_phase c)" ?y]
    by (simp_all add: inFlight_def armedCalls_def c_def split: if_splits)
qed

lemma command_sel:
  "rc_clock (sendCommand cfg i s) = rc_clock s"
  "rc_store (sendCommand cfg i s) = snd (verifyCmd cfg (rc_clock s) (rc_calls s ! i) (vc_phase (rc_calls s ! i)) (rc_store s))"
  "rc_wrong (sendCommand cfg i s) = rc_wrong s @ (case vc_phase (rc_calls s ! i) of VpFail _ \<Rightarrow> [(vc_user (rc_calls s ! i), rc_clock s)] | _ \<Rightarrow> [])"
  "rc_accepted (sendCommand cfg i s) = rc_accepted s @ (case vc_phase (rc_calls s ! i) of VpPass \<Rightarrow> [vc_user (rc_calls s ! i)] | _ \<Rightarrow> [])"
  by (simp_all add: sendCommand_def Let_def case_prod_beta)

text \<open>A wrong code is counted: in the life of the counter, or as the first of a new one.\<close>

lemma counted_dead:
  assumes "counterOf (ms_counters r (failedKey u)) gs" "live now (ms_counters r) (failedKey u) = None" "\<forall>g \<in> set gs. fst g \<le> now" "g \<in> set gs"
  shows "snd g + WINDOW_MS < now \<and> fst g < now"
proof -
  have "gs \<noteq> []" using assms(4) by auto
  then obtain st dl n where c: "ms_counters r (failedKey u) = Some (n, dl)" "(st, st) \<in> set gs"
    "\<forall>g \<in> set gs. snd g \<noteq> st \<longrightarrow> snd g + WINDOW_MS < st \<and> fst g < st"
    "\<forall>d. dl = Some d \<longrightarrow> st + WINDOW_MS \<le> d \<and> (\<forall>g \<in> set gs. snd g = st \<longrightarrow> fst g \<le> d)"
    using assms(1) unfolding counterOf_def by (metis (no_types, lifting))
  have "\<exists>d. dl = Some d \<and> d < now" using assms(2) c(1) by (cases dl) (auto simp: live_def split: if_splits)
  then obtain d where d: "dl = Some d" "d < now" by blast
  have x: "ms_counters r (failedKey u) = Some (n, Some d)" "d < now" "(st, st) \<in> set gs" "st + WINDOW_MS \<le> d"
    "\<forall>g \<in> set gs. snd g = st \<longrightarrow> fst g \<le> d" "\<forall>g \<in> set gs. snd g \<noteq> st \<longrightarrow> snd g + WINDOW_MS < st \<and> fst g < st"
    using c d by blast+
  show ?thesis
  proof (cases "snd g = st")
    case True
    then show ?thesis using x assms(4) by force
  next
    case False
    then show ?thesis using x(3,6) assms(3,4) by force
  qed
qed

lemma fail_counted:
  assumes inv: "guessInv u k s gs" and i: "i < length (rc_calls s)" "vc_user (rc_calls s ! i) = u" "vc_phase (rc_calls s ! i) = VpFail a"
  shows "\<exists>st. guessInv u k (sendCommand cfg i s) (gs @ [(rc_clock s, st)])"
proof -
  let ?s' = "sendCommand cfg i s" and ?now = "rc_clock s" and ?r = "rc_store s"
  have armed: "armedCalls u ?s' + 1 = armedCalls u s" and flight: "inFlight u ?s' = inFlight u s"
    using command_calls [OF i(1), of u cfg] i(2,3) by simp_all
  have log: "filter (\<lambda>g. fst g = u) (rc_wrong ?s') = filter (\<lambda>g. fst g = u) (rc_wrong s) @ [(u, ?now)]"
    using i(2,3) by (simp add: command_sel)
  have ctr: "ms_counters (rc_store ?s') (failedKey u) = snd (redisIncr ?now (ms_counters ?r) (failedKey u)) (failedKey u)"
    using i(2,3) by (simp add: command_sel cmd_counter)
  have gs: "map fst gs = map snd (filter (\<lambda>g. fst g = u) (rc_wrong s))" "windowed (4 + k) WINDOW_MS gs" "\<forall>g \<in> set gs. fst g \<le> ?now"
    "counterOf (ms_counters ?r (failedKey u)) gs" "inFlight u s \<le> k"
    "\<And>n d. live ?now (ms_counters ?r) (failedKey u) = Some (n, d) \<Longrightarrow> n + int (armedCalls u s) \<le> 4 + int k"
    using inv by (simp_all add: guessInv_def)
  have k: "armedCalls u ?s' + 1 \<le> k" using armed armed_le [of u s] gs(5) by simp
  show ?thesis
  proof (cases "live ?now (ms_counters ?r) (failedKey u)")
    case None
    note old = counted_dead [OF gs(4) None gs(3)]
    have fresh: "filter (\<lambda>g. snd g = ?now) gs = []" using old WINDOW_MS_pos by (fastforce simp: filter_empty_conv)
    have new: "ms_counters (rc_store ?s') (failedKey u) = Some (1, None)" using None by (simp add: ctr redisIncr_def)
    have "windowed (4 + k) WINDOW_MS (gs @ [(?now, ?now)])"
      by (rule windowed_more [OF gs(2)]) (use old fresh k WINDOW_MS_pos in auto)
    moreover have "counterOf (ms_counters (rc_store ?s') (failedKey u)) (gs @ [(?now, ?now)])"
      unfolding new counterOf_def using old fresh by auto
    moreover have "live ?now (ms_counters (rc_store ?s')) (failedKey u) = Some (1, None)" by (simp add: live_def new)
    ultimately have "guessInv u k ?s' (gs @ [(?now, ?now)])"
      using gs(1,3,5) flight log k by (simp add: guessInv_def command_sel(1))
    then show ?thesis ..
  next
    case (Some x)
    obtain n dl where x: "x = (n, dl)" by fastforce
    have at: "ms_counters ?r (failedKey u) = Some (n, dl)" "\<And>d. dl = Some d \<Longrightarrow> ?now \<le> d"
      using Some by (auto simp: x live_def split: option.splits if_splits)
    then obtain st where st: "n = int (length (filter (\<lambda>g. snd g = st) gs))" "(st, st) \<in> set gs"
      "\<forall>g \<in> set gs. snd g \<noteq> st \<longrightarrow> snd g + WINDOW_MS < st \<and> fst g < st"
      "\<forall>d. dl = Some d \<longrightarrow> st + WINDOW_MS \<le> d \<and> (\<forall>g \<in> set gs. snd g = st \<longrightarrow> fst g \<le> d)"
      using gs(4) by (auto simp: counterOf_def split: if_splits)
    have bound: "n + int (armedCalls u ?s') + 1 \<le> 4 + int k" using gs(6) [OF Some [unfolded x]] armed by simp
    have new: "ms_counters (rc_store ?s') (failedKey u) = Some (n + 1, dl)" using Some by (simp add: ctr redisIncr_def x)
    have "windowed (4 + k) WINDOW_MS (gs @ [(?now, st)])"
      by (rule windowed_more [OF gs(2)]) (use st gs(3) bound WINDOW_MS_pos in auto)
    moreover have "counterOf (ms_counters (rc_store ?s') (failedKey u)) (gs @ [(?now, st)])"
      unfolding new counterOf_def using st at(2) by (auto intro!: exI [of _ st])
    moreover have "live ?now (ms_counters (rc_store ?s')) (failedKey u) = Some (n + 1, dl)"
      using at(2) by (auto simp: live_def new split: option.splits)
    ultimately have "guessInv u k ?s' (gs @ [(?now, st)])"
      using gs(1,3,5) flight log bound by (simp add: guessInv_def command_sel(1))
    then show ?thesis ..
  qed
qed

lemma deadline_kept:
  assumes inv: "guessInv u k s gs" and i: "i < length (rc_calls s)" "vc_user (rc_calls s ! i) = u" "vc_phase (rc_calls s ! i) = VpFailTtl a f"
  shows "guessInv u k (sendCommand cfg i s) gs"
proof -
  let ?s' = "sendCommand cfg i s" and ?now = "rc_clock s" and ?r = "rc_store s"
  have calls: "armedCalls u ?s' \<le> armedCalls u s" "inFlight u ?s' \<le> k"
    using command_calls [OF i(1), of u cfg] i(2,3) inv by (auto simp: guessInv_def split: if_splits)
  have log: "filter (\<lambda>g. fst g = u) (rc_wrong ?s') = filter (\<lambda>g. fst g = u) (rc_wrong s)" using i(3) by (simp add: command_sel)
  have ctr: "ms_counters (rc_store ?s') (failedKey u) =
      redisExpireNx ?now (ms_counters ?r) (failedKey u) FAILED_VERIFY_WINDOW_SECONDS (failedKey u)"
    using i(2,3) by (simp add: command_sel cmd_counter)
  show ?thesis
  proof (cases "\<exists>n. live ?now (ms_counters ?r) (failedKey u) = Some (n, None)")
    case False
    then have "ms_counters (rc_store ?s') (failedKey u) = ms_counters ?r (failedKey u)"
      unfolding ctr by (auto simp: redisExpireNx_def split: option.split)
    then show ?thesis using guessInv_quiet [OF inv log command_sel(1)] calls by blast
  next
    case True
    then obtain n where n: "live ?now (ms_counters ?r) (failedKey u) = Some (n, None)" by blast
    then have at: "ms_counters ?r (failedKey u) = Some (n, None)" by (auto simp: live_def split: option.splits if_splits)
    have new: "ms_counters (rc_store ?s') (failedKey u) = Some (n, Some (?now + WINDOW_MS))"
      using n by (simp add: ctr redisExpireNx_def WINDOW_MS_def)
    have gs: "\<forall>g \<in> set gs. fst g \<le> ?now" "counterOf (Some (n, None)) gs" "n + int (armedCalls u s) \<le> 4 + int k"
      using inv n at by (auto simp: guessInv_def)
    then obtain st where "gs \<noteq> []" "n = int (length (filter (\<lambda>g. snd g = st) gs))" "(st, st) \<in> set gs"
      "\<forall>g \<in> set gs. snd g \<noteq> st \<longrightarrow> snd g + WINDOW_MS < st \<and> fst g < st"
      by (auto simp: counterOf_def split: if_splits)
    then have "counterOf (Some (n, Some (?now + WINDOW_MS))) gs"
      using gs(1) WINDOW_MS_pos by (auto simp: counterOf_def intro!: exI [of _ st])
    moreover have "live ?now (ms_counters (rc_store ?s')) (failedKey u) = Some (n, Some (?now + WINDOW_MS))"
      using WINDOW_MS_pos by (simp add: live_def new)
    ultimately show ?thesis
      using inv calls gs(3) log new by (simp add: guessInv_def command_sel(1))
  qed
qed

lemma command_inv:
  assumes inv: "guessInv u k s gs" and i: "i < length (rc_calls s)" and free: "u \<notin> set (rc_accepted (sendCommand cfg i s))"
  shows "\<exists>gs. guessInv u k (sendCommand cfg i s) gs"
proof -
  let ?c = "rc_calls s ! i"
  consider (fail) a where "vc_user ?c = u" "vc_phase ?c = VpFail a" | (ttl) a f where "vc_user ?c = u" "vc_phase ?c = VpFailTtl a f"
    | (quiet) "vc_user ?c \<noteq> u \<or> (\<forall>a. vc_phase ?c \<noteq> VpFail a) \<and> (\<forall>a f. vc_phase ?c \<noteq> VpFailTtl a f)" by blast
  then show ?thesis
  proof cases
    case fail
    then show ?thesis using fail_counted [OF inv i] by blast
  next
    case ttl
    then show ?thesis using deadline_kept [OF inv i] by blast
  next
    case quiet
    have pass: "vc_user ?c = u \<Longrightarrow> vc_phase ?c \<noteq> VpPass" using free by (auto simp: command_sel)
    have "guessInv u k (sendCommand cfg i s) gs"
    proof (rule guessInv_quiet [OF inv _ command_sel(1)])
      show "filter (\<lambda>g. fst g = u) (rc_wrong (sendCommand cfg i s)) = filter (\<lambda>g. fst g = u) (rc_wrong s)"
        using quiet by (auto simp: command_sel split: verify_phase.splits)
      show "ms_counters (rc_store (sendCommand cfg i s)) (failedKey u) = ms_counters (rc_store s) (failedKey u)"
        using quiet pass by (auto simp: command_sel cmd_counter split: verify_phase.splits)
      show "inFlight u (sendCommand cfg i s) \<le> k" using command_calls(1) [OF i] inv by (simp add: guessInv_def)
      show "armedCalls u (sendCommand cfg i s) \<le> armedCalls u s \<or>
          (\<forall>n d. live (rc_clock s) (ms_counters (rc_store s)) (failedKey u) = Some (n, d) \<longrightarrow> n \<le> 4)"
        using command_calls(2) [OF i, of u cfg] cmd_armed [of cfg "rc_clock s" ?c "vc_phase ?c" "rc_store s"]
        by (auto split: if_splits)
    qed
    then show ?thesis ..
  qed
qed

lemma race_step_inv:
  assumes "raceStep cfg k s s'" "guessInv u k s gs" "u \<notin> set (rc_accepted s')"
  shows "\<exists>gs. guessInv u k s' gs"
  using assms(1)
proof cases
  case (rc_start c)
  have "guessInv u k s' gs" unfolding rc_start
    by (rule guessInv_quiet [OF assms(2)])
      (use rc_start(2,3) assms(2) in \<open>auto simp: inFlight_def armedCalls_def guessInv_def\<close>)
  then show ?thesis ..
next
  case (rc_command i)
  then show ?thesis using command_inv [OF assms(2)] assms(3) by blast
next
  case (rc_end i)
  have "guessInv u k s' gs" unfolding rc_end
  proof (rule guessInv_quiet [OF assms(2)])
    show "inFlight u (s\<lparr>rc_calls := take i (rc_calls s) @ drop (Suc i) (rc_calls s)\<rparr>) \<le> k"
      using assms(2) filter_removed [of "\<lambda>c. vc_user c = u" i "rc_calls s"] by (simp add: inFlight_def guessInv_def)
    show "armedCalls u (s\<lparr>rc_calls := take i (rc_calls s) @ drop (Suc i) (rc_calls s)\<rparr>) \<le> armedCalls u s \<or>
        (\<forall>n d. live (rc_clock s) (ms_counters (rc_store s)) (failedKey u) = Some (n, d) \<longrightarrow> n \<le> 4)"
      using filter_removed [of "\<lambda>c. vc_user c = u \<and> armed (vc_phase c)" i "rc_calls s"] by (simp add: armedCalls_def)
  qed simp_all
  then show ?thesis ..
next
  case (rc_other store)
  have "guessInv u k s' gs" unfolding rc_other(1)
    by (rule guessInv_quiet [OF assms(2)])
      (use rc_other(2) assms(2) in \<open>auto simp: inFlight_def armedCalls_def guessInv_def keepsFailures_def\<close>)
  then show ?thesis ..
next
  case (rc_later t)
  then show ?thesis using guessInv_later [OF assms(2)] by blast
qed

lemma accepted_grows: "raceStep cfg k s s' \<Longrightarrow> set (rc_accepted s) \<subseteq> set (rc_accepted s')"
  by (cases rule: raceStep.cases) (auto simp: command_sel)

lemma race_reachable:
  assumes "(raceStep cfg k)\<^sup>*\<^sup>* s0 s" "raceStart s0"
  shows "u \<notin> set (rc_accepted s) \<Longrightarrow> \<exists>gs. guessInv u k s gs"
  using assms(1)
proof (induction rule: rtranclp_induct)
  case base
  have "guessInv u k s0 []"
    using assms(2) by (simp add: guessInv_def raceStart_def windowed_def counterOf_def inFlight_def armedCalls_def mfaEmpty_def live_def)
  then show ?case ..
next
  case (step s s')
  then show ?case using race_step_inv [OF step.hyps(2)] accepted_grows [OF step.hyps(2)] by blast
qed

text \<open>
  C35. Guessing is slow, also with many requests at once: while no code of the user is accepted and at most \<open>k\<close>
  verifications of the user are under way together, at most 2k + 7 wrong codes are recorded in any thirty minutes
  (nine where they come one after the other), however many codes are requested and whatever is submitted meanwhile.
\<close>

theorem mfa_guess_bound:
  assumes "(raceStep cfg k)\<^sup>*\<^sup>* s0 s" "raceStart s0" "u \<notin> set (rc_accepted s)"
  shows "length (filter (\<lambda>g. fst g = u \<and> a \<le> snd g \<and> snd g \<le> a + 30 * 60 * 1000) (rc_wrong s)) \<le> 2 * k + 7"
proof -
  obtain gs where gs: "map fst gs = map snd (filter (\<lambda>g. fst g = u) (rc_wrong s))" "windowed (4 + k) WINDOW_MS gs"
    using race_reachable [OF assms] by (auto simp: guessInv_def)
  have "length (filter (\<lambda>g. fst g = u \<and> a \<le> snd g \<and> snd g \<le> a + 30 * 60 * 1000) (rc_wrong s)) =
      length (filter (\<lambda>t. a \<le> t \<and> t \<le> a + WINDOW_MS) (map snd (filter (\<lambda>g. fst g = u) (rc_wrong s))))"
    by (simp add: filter_map comp_def conj_ac WINDOW_MS_def FAILED_VERIFY_WINDOW_SECONDS_def)
  then show ?thesis using windowed_count [OF gs(2), of a] by (simp add: gs(1))
qed

section \<open>Witnesses\<close>

text \<open>A run as a list of actions, each checked against its step.\<close>

datatype race_act = RaStart verify_call | RaCommand nat | RaEnd nat | RaRequest mfa_env string string | RaLater date

fun raceAct :: "mfa_config \<Rightarrow> nat \<Rightarrow> race_act \<Rightarrow> race_sys \<Rightarrow> race_sys option" where
  "raceAct cfg k (RaStart c) s =
     (if vc_phase c = VpLock \<and> inFlight (vc_user c) s < k then Some (s\<lparr>rc_calls := rc_calls s @ [c]\<rparr>) else None)"
| "raceAct cfg k (RaCommand i) s = (if i < length (rc_calls s) then Some (sendCommand cfg i s) else None)"
| "raceAct cfg k (RaEnd i) s = Some (s\<lparr>rc_calls := take i (rc_calls s) @ drop (Suc i) (rc_calls s)\<rparr>)"
| "raceAct cfg k (RaRequest env u email) s = Some (s\<lparr>rc_store := fst (requestMfaCode cfg env u email (rc_store s))\<rparr>)"
| "raceAct cfg k (RaLater t) s = (if rc_clock s \<le> t then Some (s\<lparr>rc_clock := t\<rparr>) else None)"

fun raceRun :: "mfa_config \<Rightarrow> nat \<Rightarrow> race_act list \<Rightarrow> race_sys \<Rightarrow> race_sys option" where
  "raceRun cfg k [] s = Some s"
| "raceRun cfg k (a # as) s = Option.bind (raceAct cfg k a s) (raceRun cfg k as)"

lemma raceAct_step: "raceAct cfg k a s = Some s' \<Longrightarrow> raceStep cfg k s s'"
  by (cases a) (auto split: if_splits intro: raceStep.intros request_keepsFailures)

lemma raceRun_reachable: "raceRun cfg k as s = Some s' \<Longrightarrow> (raceStep cfg k)\<^sup>*\<^sup>* s s'"
proof (induction as arbitrary: s)
  case (Cons a as)
  then obtain s1 where "raceAct cfg k a s = Some s1" "raceRun cfg k as s1 = Some s'" by (cases "raceAct cfg k a s") auto
  then show ?case using Cons.IH raceAct_step by (meson converse_rtranclp_into_rtranclp)
qed simp

definition race_demo_call :: verify_call where
  "race_demo_call = \<lparr>vc_user = ''op'', vc_code = ''1'', vc_prev = None, vc_token = mfa_demo_token, vc_phase = VpLock\<rparr>"

definition race_demo_one :: "race_act list" where
  "race_demo_one = RaStart race_demo_call # replicate 7 (RaCommand 0) @ [RaEnd 0]"

definition race_demo_start :: race_sys where
  "race_demo_start = \<lparr>rc_clock = 0, rc_store = mfa_demo_start, rc_calls = [], rc_wrong = [], rc_accepted = []\<rparr>"

text \<open>Four wrong codes one after the other; then a new code and two calls that both pass the check before either records its failure.\<close>

definition race_demo_acts :: "race_act list" where
  "race_demo_acts = RaRequest (mfa_demo_env 0) ''op'' ''op@example.com'' # concat (replicate 4 race_demo_one) @
     [RaLater 60000, RaRequest (mfa_demo_env 60000) ''op'' ''op@example.com'', RaStart race_demo_call, RaStart race_demo_call] @
     replicate 4 (RaCommand 0) @ replicate 4 (RaCommand 1) @ replicate 2 (RaCommand 0) @ replicate 2 (RaCommand 1)"

lemma race_demo_run:
  "case raceRun mfa_demo_config 2 race_demo_acts race_demo_start of
     Some s \<Rightarrow> rc_wrong s = replicate 4 (''op'', 0) @ replicate 2 (''op'', 60000) \<and> rc_accepted s = []
   | None \<Rightarrow> False"
  by code_simp

theorem mfa_guess_bound_witness:
  "\<exists>s. (raceStep mfa_demo_config 2)\<^sup>*\<^sup>* race_demo_start s \<and>
     int (length (filter (\<lambda>g. fst g = ''op'' \<and> 0 \<le> snd g \<and> snd g \<le> 0 + 30 * 60 * 1000) (rc_wrong s))) = MAX_FAILED_VERIFIES + 1 \<and>
     length (filter (\<lambda>g. fst g = ''op'' \<and> 0 \<le> snd g \<and> snd g \<le> 0 + 30 * 60 * 1000) (rc_wrong s)) \<le> 2 * 2 + 7"
proof -
  obtain s where run: "raceRun mfa_demo_config 2 race_demo_acts race_demo_start = Some s"
    and out: "rc_wrong s = replicate 4 (''op'', 0) @ replicate 2 (''op'', 60000)" "rc_accepted s = []"
    using race_demo_run by (auto split: option.splits)
  have "raceStart race_demo_start" using mfa_demo_empty by (simp add: raceStart_def race_demo_start_def)
  moreover have "''op'' \<notin> set (rc_accepted s)" by (simp add: out)
  moreover have "int (length (filter (\<lambda>g. fst g = ''op'' \<and> 0 \<le> snd g \<and> snd g \<le> 0 + 30 * 60 * 1000) (rc_wrong s))) = MAX_FAILED_VERIFIES + 1"
    by (simp add: out MAX_FAILED_VERIFIES_def)
  ultimately show ?thesis
    using mfa_guess_bound [OF raceRun_reachable [OF run], of "''op''" 0] raceRun_reachable [OF run] by blast
qed

end
