(* ===== verification/TtlCache.thy ===== *)
theory TtlCache
  imports JsValue
begin

text \<open>
  Caches whose entries live for a fixed time (\<open>packages/auth/src/middleware.ts\<close> and
  \<open>packages/auth/src/tenant-rate-limit.ts\<close> keep several). A value is read from the database at one moment and stored
  at another; between the two anything may happen. What such a cache promises is stated once for all of them.
\<close>

text \<open>What happens to a cache: a value read earlier is stored, or an entry is dropped.\<close>

datatype cache_event = Stored string date date | Dropped string

locale ttl_cache =
  fixes get :: "date \<Rightarrow> 'c \<Rightarrow> string \<Rightarrow> 'v option"
    and put :: "date \<Rightarrow> string \<Rightarrow> 'v \<Rightarrow> 'c \<Rightarrow> 'c"
    and drop :: "string \<Rightarrow> 'c \<Rightarrow> 'c"
    and ttl :: int
  assumes get_put: "get now (put t k v c) k = Some w \<Longrightarrow> w = v \<and> now \<le> t + ttl"
    and get_put_other: "k \<noteq> k' \<Longrightarrow> get now (put t k v c) k' = get now c k'"
    and get_drop: "get now (drop k c) k' = (if k' = k then None else get now c k')"
begin

text \<open>\<open>source t k\<close> is what the database holds for \<open>k\<close> at time \<open>t\<close>.\<close>

definition happen :: "(date \<Rightarrow> string \<Rightarrow> 'v) \<Rightarrow> cache_event list \<Rightarrow> 'c \<Rightarrow> 'c" where
  "happen source events c =
     fold (\<lambda>e c. case e of Stored k r t \<Rightarrow> put t k (source r k) c | Dropped k \<Rightarrow> drop k c) events c"

definition prompt :: "int \<Rightarrow> cache_event list \<Rightarrow> bool" where
  "prompt latency events = (\<forall>k r t. Stored k r t \<in> set events \<longrightarrow> r \<le> t \<and> t \<le> r + latency)"

lemma happen_snoc:
  "happen source (events @ [e]) c =
    (case e of Stored k r t \<Rightarrow> put t k (source r k) (happen source events c) | Dropped k \<Rightarrow> drop k (happen source events c))"
  by (simp add: happen_def split: cache_event.split)

lemma hit_is_recent:
  assumes "\<And>now. get now c k = None" "prompt latency events" "get now (happen source events c) k = Some v"
  shows "\<exists>r t. Stored k r t \<in> set events \<and> v = source r k \<and> now \<le> r + latency + ttl"
  using assms(2,3)
proof (induction events rule: rev_induct)
  case Nil
  then show ?case using assms(1) by (simp add: happen_def)
next
  case (snoc e events)
  have p: "prompt latency events" using snoc.prems(1) by (auto simp: prompt_def)
  show ?case
  proof (cases e)
    case (Stored k' r t)
    show ?thesis
    proof (cases "k' = k")
      case True
      then have "v = source r k \<and> now \<le> t + ttl"
        using snoc.prems(2) get_put by (fastforce simp: happen_snoc Stored)
      moreover have "t \<le> r + latency" using snoc.prems(1) by (auto simp: prompt_def Stored)
      ultimately show ?thesis using True Stored by (intro exI [of _ r] exI [of _ t]) auto
    next
      case False
      then have "get now (happen source events c) k = Some v"
        using snoc.prems(2) get_put_other by (simp add: happen_snoc Stored)
      then show ?thesis using snoc.IH [OF p] by auto
    qed
  next
    case (Dropped k')
    then have "get now (happen source events c) k = Some v"
      using snoc.prems(2) by (simp add: happen_snoc get_drop split: if_splits)
    then show ?thesis using snoc.IH [OF p] by auto
  qed
qed

text \<open>A change of the database is seen by every hit once the time of the old entries is over.\<close>

lemma change_is_seen:
  assumes "\<And>now. get now c k = None" "prompt latency events"
    and "\<And>t. changed \<le> t \<Longrightarrow> source t k = v" "changed + latency + ttl < now"
  shows "get now (happen source events c) k \<in> {None, Some v}"
proof (cases "get now (happen source events c) k")
  case (Some w)
  then obtain r where "w = source r k" "now \<le> r + latency + ttl" using hit_is_recent [OF assms(1,2)] by blast
  then have "w = v" using assms(3) [of r] assms(4) by auto
  then show ?thesis using Some by simp
qed simp

end

section \<open>The common kind\<close>

type_synonym 'v ttl_store = "string \<rightharpoonup> 'v \<times> date"

definition getCached :: "date \<Rightarrow> 'v ttl_store \<Rightarrow> string \<Rightarrow> 'v option" where
  "getCached now cache k =
     (case cache k of None \<Rightarrow> None | Some (v, expires) \<Rightarrow> if expires < now then None else Some v)"

definition setCached :: "int \<Rightarrow> date \<Rightarrow> string \<Rightarrow> 'v \<Rightarrow> 'v ttl_store \<Rightarrow> 'v ttl_store" where
  "setCached ttl now k v cache = cache(k \<mapsto> (v, now + ttl))"

definition dropCached :: "string \<Rightarrow> 'v ttl_store \<Rightarrow> 'v ttl_store" where
  "dropCached k cache = cache(k := None)"

lemma ttl_laws:
  "getCached now (setCached ttl t k v c) k = Some w \<Longrightarrow> w = v \<and> now \<le> t + ttl"
  "k \<noteq> k' \<Longrightarrow> getCached now (setCached ttl t k v c) k' = getCached now c k'"
  "getCached now (dropCached k c) k' = (if k' = k then None else getCached now c k')"
  by (auto simp: getCached_def setCached_def dropCached_def split: if_splits)

end
