(* ===== verification/RateLimit.thy ===== *)
theory RateLimit
  imports Redis TtlCache
begin

text \<open>
  Rate limits: the sliding window over a sorted set (\<open>packages/redis/src/rate-limit.ts\<close>), the tiers that use it
  (\<open>apps/api/src/lib/rate-limit-tiers.ts\<close>, \<open>apps/api/src/middleware/rate-limit.ts\<close> and the two tiers of
  \<open>packages/auth/src/middleware.ts\<close>) and the identity a request without a login is counted under.

  The four commands of a check are sent in one pipeline and are taken to run without another client between them.
  The clocks of the servers and of the key-value server may differ by \<open>skew\<close> milliseconds. A check whose answer does
  not come within its 250 milliseconds lets the request pass; whether its commands have run is then open.
\<close>

section \<open>Sorted sets\<close>

type_synonym zset = "(int \<times> string) list"

definition zremrangebyscore :: "date \<Rightarrow> zset kvs \<Rightarrow> string \<Rightarrow> int \<Rightarrow> int \<Rightarrow> zset kvs" where
  "zremrangebyscore now db k lo hi =
     (case live now db k of
        None \<Rightarrow> db
      | Some (z, d) \<Rightarrow> (let z' = filter (\<lambda>e. \<not> (lo \<le> fst e \<and> fst e \<le> hi)) z in
                       if z' = [] then db(k := None) else db(k \<mapsto> (z', d))))"

definition zadd :: "date \<Rightarrow> zset kvs \<Rightarrow> string \<Rightarrow> int \<Rightarrow> string \<Rightarrow> zset kvs" where
  "zadd now db k score member =
     (case live now db k of
        None \<Rightarrow> db(k \<mapsto> ([(score, member)], None))
      | Some (z, d) \<Rightarrow> db(k \<mapsto> (filter (\<lambda>e. snd e \<noteq> member) z @ [(score, member)], d)))"

definition zcard :: "date \<Rightarrow> zset kvs \<Rightarrow> string \<Rightarrow> int" where
  "zcard now db k = (case live now db k of None \<Rightarrow> 0 | Some (z, _) \<Rightarrow> int (length z))"

section \<open>The check\<close>

record RateLimitResult =
  rl_allowed :: bool
  rl_remaining :: rat
  rl_resetAt :: int

text \<open>
  The clock of the server, that of the key-value server, the random part of the member, the fate of the pipeline, and
  whether the server has no client for the key-value server at all.
\<close>

record rl_env =
  rv_now :: date
  rv_redisNow :: date
  rv_random :: string
  rv_executed :: bool
  rv_answered :: bool
  rv_noClient :: bool

definition CHECK_TIMEOUT_MS :: int where "CHECK_TIMEOUT_MS = 250"

definition ceilSeconds :: "date \<Rightarrow> int" where
  "ceilSeconds t = - ((- t) div 1000)"

definition rlMember :: "rl_env \<Rightarrow> string" where
  "rlMember env = decDigits (nat (rv_now env)) @ ''-'' @ rv_random env"

definition rlPipeline :: "rl_env \<Rightarrow> string \<Rightarrow> int \<Rightarrow> zset kvs \<Rightarrow> int \<times> zset kvs" where
  "rlPipeline env k windowSeconds db =
     (let t = rv_redisNow env;
          windowStart = rv_now env - windowSeconds * 1000;
          db1 = zremrangebyscore t db k 0 windowStart;
          db2 = zadd t db1 k (rv_now env) (rlMember env);
          count = zcard t db2 k in
      (count, redisExpire t db2 k (windowSeconds * 2)))"

definition runCheck :: "rl_env \<Rightarrow> int \<Rightarrow> rat \<Rightarrow> int \<Rightarrow> RateLimitResult" where
  "runCheck env count limit windowSeconds =
     \<lparr>rl_allowed = of_int count \<le> limit, rl_remaining = max 0 (limit - of_int count), rl_resetAt = ceilSeconds (rv_now env) + windowSeconds\<rparr>"

definition checkRateLimit :: "rl_env \<Rightarrow> string \<Rightarrow> rat \<Rightarrow> int \<Rightarrow> zset kvs \<Rightarrow> RateLimitResult \<times> zset kvs" where
  "checkRateLimit env k limit windowSeconds db =
     (let (count, db') = rlPipeline env k windowSeconds db in
      (if rv_executed env \<and> rv_answered env then runCheck env count limit windowSeconds
       else \<lparr>rl_allowed = True, rl_remaining = limit, rl_resetAt = ceilSeconds (rv_now env) + windowSeconds\<rparr>,
       if rv_executed env then db' else db))"

section \<open>What a check leaves\<close>

definition recent :: "rl_env \<Rightarrow> int \<Rightarrow> (zset \<times> date option) option \<Rightarrow> zset" where
  "recent env w x =
     filter (\<lambda>e. \<not> (0 \<le> fst e \<and> fst e \<le> rv_now env - w * 1000)) (case x of None \<Rightarrow> [] | Some (z, _) \<Rightarrow> z)"

lemma rlPipeline_key:
  assumes "live (rv_redisNow env) db k = x"
  shows "snd (rlPipeline env k w db) k =
      Some (filter (\<lambda>e. snd e \<noteq> rlMember env) (recent env w x) @ [(rv_now env, rlMember env)], Some (rv_redisNow env + w * 2 * 1000))"
    and "fst (rlPipeline env k w db) = int (length (filter (\<lambda>e. snd e \<noteq> rlMember env) (recent env w x))) + 1"
  using assms
  by (auto simp: rlPipeline_def recent_def Let_def zremrangebyscore_def zadd_def zcard_def redisExpire_def live_def filter_empty_conv
      split: option.splits if_splits)

lemma rlPipeline_other: "k' \<noteq> k \<Longrightarrow> snd (rlPipeline env k w db) k' = db k'"
  by (auto simp: rlPipeline_def Let_def zremrangebyscore_def zadd_def split: option.splits)

section \<open>Many checks\<close>

text \<open>
  The checks of all servers, in the order the key-value server runs them. \<open>win\<close> is the length of the window of a key
  in seconds. The random parts of the members of one key are taken to differ.
\<close>

record rl_entry =
  lg_key :: string
  lg_env :: rl_env
  lg_limit :: rat
  lg_result :: RateLimitResult

record rl_sys =
  rs_clock :: date
  rs_db :: "zset kvs"
  rs_log :: "rl_entry list"

definition checked :: "rl_env \<Rightarrow> string \<Rightarrow> rat \<Rightarrow> int \<Rightarrow> rl_sys \<Rightarrow> rl_sys" where
  "checked env k limit w s =
     (let (result, db') = checkRateLimit env k limit w (rs_db s) in
      s\<lparr>rs_db := db', rs_log := rs_log s @ [\<lparr>lg_key = k, lg_env = env, lg_limit = limit, lg_result = result\<rparr>]\<rparr>)"

inductive rlStep :: "int \<Rightarrow> (string \<Rightarrow> int) \<Rightarrow> rl_sys \<Rightarrow> rl_sys \<Rightarrow> bool" for skew win where
  rs_check: "rlStep skew win s (checked env k limit (win k) s)"
    if "rv_redisNow env = rs_clock s" "\<bar>rv_now env - rs_clock s\<bar> \<le> skew"
      "\<And>e. e \<in> set (rs_log s) \<Longrightarrow> lg_key e = k \<Longrightarrow> rlMember (lg_env e) \<noteq> rlMember env"
| rs_later: "rlStep skew win s (s\<lparr>rs_clock := t\<rparr>)" if "rs_clock s \<le> t"

text \<open>The checks of a key whose commands have run.\<close>

definition ran :: "string \<Rightarrow> rl_entry list \<Rightarrow> zset" where
  "ran k es = map (\<lambda>e. (rv_now (lg_env e), rlMember (lg_env e))) (filter (\<lambda>e. lg_key e = k \<and> rv_executed (lg_env e)) es)"

definition tookPart :: "rl_entry \<Rightarrow> bool" where
  "tookPart e = (rv_executed (lg_env e) \<and> rv_answered (lg_env e))"

definition inWindow :: "date \<Rightarrow> int \<Rightarrow> int \<times> string \<Rightarrow> bool" where
  "inWindow a len e = (a < fst e \<and> fst e \<le> a + len)"

text \<open>What a check decides, in terms of the checks before it.\<close>

definition decided :: "int \<Rightarrow> (string \<Rightarrow> int) \<Rightarrow> rl_entry list \<Rightarrow> rl_entry \<Rightarrow> bool" where
  "decided skew win pre e =
     (tookPart e \<longrightarrow>
       (if rl_allowed (lg_result e)
        then \<forall>a. a < rv_now (lg_env e) \<and> rv_now (lg_env e) \<le> a + (win (lg_key e) * 1000 - 2 * skew) \<longrightarrow>
               of_nat (length (filter (inWindow a (win (lg_key e) * 1000 - 2 * skew)) (ran (lg_key e) pre))) + 1 \<le> lg_limit e
        else lg_limit e < of_nat (length (filter (\<lambda>x. rv_now (lg_env e) - win (lg_key e) * 1000 < fst x) (ran (lg_key e) pre))) + 1))"

definition setInv :: "int \<Rightarrow> int \<Rightarrow> date \<Rightarrow> zset \<Rightarrow> (zset \<times> date option) option \<Rightarrow> bool" where
  "setInv skew w clock runs x =
     (case x of
        None \<Rightarrow> \<forall>e \<in> set runs. fst e + w * 1000 \<le> clock + skew
      | Some (z, d) \<Rightarrow> distinct (map snd z) \<and> set z \<subseteq> set runs \<and>
          (\<exists>deadline. d = Some deadline \<and> (\<forall>e \<in> set z. fst e - skew + w * 2 * 1000 \<le> deadline)) \<and>
          (\<forall>e \<in> set runs. e \<in> set z \<or> fst e + w * 1000 \<le> clock + skew))"

definition rlInv :: "int \<Rightarrow> (string \<Rightarrow> int) \<Rightarrow> rl_sys \<Rightarrow> bool" where
  "rlInv skew win s =
     (skew \<le> rs_clock s \<and>
      (\<forall>k. setInv skew (win k) (rs_clock s) (ran k (rs_log s)) (rs_db s k) \<and> distinct (map snd (ran k (rs_log s))) \<and>
         (\<forall>e \<in> set (ran k (rs_log s)). 0 \<le> fst e \<and> fst e \<le> rs_clock s + skew)) \<and>
      (\<forall>pre e post. rs_log s = pre @ e # post \<longrightarrow> decided skew win pre e))"

text \<open>An expired set only held what is out of the window.\<close>

lemma setInv_live:
  assumes "setInv skew w clock runs (db k)" "0 \<le> w" "0 \<le> skew"
  shows "setInv skew w clock runs (live clock db k)"
proof (cases "db k")
  case (Some x)
  obtain z d where x: "x = (z, d)" by (cases x)
  then obtain deadline where d: "d = Some deadline" "\<And>e. e \<in> set z \<Longrightarrow> fst e - skew + w * 2 * 1000 \<le> deadline"
    and out: "\<And>e. e \<in> set runs \<Longrightarrow> e \<in> set z \<or> fst e + w * 1000 \<le> clock + skew"
    using assms(1) Some by (auto simp: setInv_def)
  show ?thesis
  proof (cases "deadline < clock")
    case True
    have "fst e + w * 1000 \<le> clock + skew" if "e \<in> set runs" for e
      using out [OF that] d(2) [of e] True assms(2) by (auto simp del: mult.left_commute)
    then show ?thesis using True by (simp add: live_def Some x d setInv_def)
  next
    case False
    then show ?thesis using assms(1) by (simp add: live_def Some x d)
  qed
qed (use assms in \<open>simp add: live_def\<close>)

lemma count_bounds:
  assumes inv: "setInv skew w clock E x" "distinct (map snd E)" "\<And>e. e \<in> set E \<Longrightarrow> 0 \<le> fst e"
    and now: "\<bar>rv_now env - clock\<bar> \<le> skew" and new: "rlMember env \<notin> snd ` set E"
  defines "R \<equiv> filter (\<lambda>e. snd e \<noteq> rlMember env) (recent env w x)"
  shows "distinct (map snd R)" "set R \<subseteq> set E" "\<And>e. e \<in> set E \<Longrightarrow> e \<in> set R \<or> fst e + w * 1000 \<le> clock + skew"
    "a < rv_now env \<Longrightarrow> rv_now env \<le> a + (w * 1000 - 2 * skew) \<Longrightarrow>
      length (filter (inWindow a (w * 1000 - 2 * skew)) E) \<le> length R"
    "length R \<le> length (filter (\<lambda>e. rv_now env - w * 1000 < fst e) E)"
proof -
  let ?z = "case x of None \<Rightarrow> [] | Some (z, _) \<Rightarrow> z"
  have z: "distinct (map snd ?z)" "set ?z \<subseteq> set E" "\<And>e. e \<in> set E \<Longrightarrow> e \<in> set ?z \<or> fst e + w * 1000 \<le> clock + skew"
    using inv(1) by (auto simp: setInv_def split: option.splits)
  have memR: "e \<in> set R \<longleftrightarrow> e \<in> set ?z \<and> \<not> (0 \<le> fst e \<and> fst e \<le> rv_now env - w * 1000) \<and> snd e \<noteq> rlMember env" for e
    by (auto simp: R_def recent_def)
  show dR: "distinct (map snd R)"
    using z(1) by (simp add: R_def recent_def distinct_map_filter)
  show sub: "set R \<subseteq> set E" using memR z(2) by blast
  show counted: "e \<in> set R \<or> fst e + w * 1000 \<le> clock + skew" if "e \<in> set E" for e
  proof (cases "fst e \<le> rv_now env - w * 1000")
    case True
    then show ?thesis using now by linarith
  next
    case False
    then show ?thesis using z(3) [OF that] new that memR [of e] by (auto simp: image_iff)
  qed
  have card: "length (filter P E) = card {e \<in> set E. P e}" for P
    using inv(2) distinct_card [of "filter P E"] by (simp add: distinct_map)
  have cardR: "length R = card (set R)" using dR distinct_card [of R] by (simp add: distinct_map)
  show "length (filter (inWindow a (w * 1000 - 2 * skew)) E) \<le> length R"
    if "a < rv_now env" "rv_now env \<le> a + (w * 1000 - 2 * skew)"
    unfolding card cardR
  proof (rule card_mono)
    show "{e \<in> set E. inWindow a (w * 1000 - 2 * skew) e} \<subseteq> set R"
    proof
      fix e assume "e \<in> {e \<in> set E. inWindow a (w * 1000 - 2 * skew) e}"
      then have e: "e \<in> set E" "a < fst e" by (simp_all add: inWindow_def)
      have "\<not> fst e + w * 1000 \<le> clock + skew" using e(2) that now by linarith
      then show "e \<in> set R" using counted [OF e(1)] by blast
    qed
  qed simp
  show "length R \<le> length (filter (\<lambda>e. rv_now env - w * 1000 < fst e) E)"
    unfolding card cardR
  proof (rule card_mono)
    show "set R \<subseteq> {e \<in> set E. rv_now env - w * 1000 < fst e}"
    proof
      fix e assume e: "e \<in> set R"
      then have "e \<in> set E" using sub by blast
      then show "e \<in> {e \<in> set E. rv_now env - w * 1000 < fst e}"
        using e memR [of e] inv(3) [of e] by auto
    qed
  qed simp
qed

lemma ran_snoc [simp]: "ran k (es @ [e]) = ran k es @ (if lg_key e = k \<and> rv_executed (lg_env e) then [(rv_now (lg_env e), rlMember (lg_env e))] else [])"
  by (simp add: ran_def)

lemma ran_members: "snd ` set (ran k es) = {rlMember (lg_env e) |e. e \<in> set es \<and> lg_key e = k \<and> rv_executed (lg_env e)}"
  by (auto simp: ran_def image_iff)

lemma decided_snoc:
  assumes "\<forall>pre e post. es = pre @ e # post \<longrightarrow> decided skew win pre e" "decided skew win es x"
  shows "\<forall>pre e post. es @ [x] = pre @ e # post \<longrightarrow> decided skew win pre e"
proof (intro allI impI)
  fix pre e post assume "es @ [x] = pre @ e # post"
  then show "decided skew win pre e"
    using assms by (cases post rule: rev_cases) auto
qed

lemma setInv_later: "setInv skew w clock E x \<Longrightarrow> clock \<le> t \<Longrightarrow> setInv skew w t E x"
  by (fastforce simp: setInv_def split: option.splits)

lemma rlStep_inv:
  assumes "rlStep skew win s s'" "rlInv skew win s" "0 \<le> skew" "\<And>k. 0 \<le> win k"
  shows "rlInv skew win s'"
  using assms(1)
proof cases
  case (rs_check env k limit)
  let ?es = "rs_log s" and ?w = "win k"
  define c where "c = fst (rlPipeline env k ?w (rs_db s))"
  define x where "x = live (rv_redisNow env) (rs_db s) k"
  define R where "R = filter (\<lambda>e. snd e \<noteq> rlMember env) (recent env ?w x)"
  define entry where "entry = \<lparr>lg_key = k, lg_env = env, lg_limit = limit, lg_result = fst (checkRateLimit env k limit ?w (rs_db s))\<rparr>"
  have inv: "setInv skew (win k') (rs_clock s) (ran k' ?es) (rs_db s k')" "distinct (map snd (ran k' ?es))"
    "\<And>e. e \<in> set (ran k' ?es) \<Longrightarrow> 0 \<le> fst e" "\<And>e. e \<in> set (ran k' ?es) \<Longrightarrow> fst e \<le> rs_clock s + skew" for k'
    using assms(2) by (auto simp: rlInv_def)
  have live: "setInv skew ?w (rs_clock s) (ran k ?es) x"
    using setInv_live [OF inv(1) assms(4,3)] rs_check(2) by (simp add: x_def)
  have new: "rlMember env \<notin> snd ` set (ran k ?es)"
    unfolding ran_members using rs_check(4) by fastforce
  note R = count_bounds [OF live inv(2) [of k] inv(3) [of _ k] rs_check(3) new, folded R_def]
  have pipe: "c = int (length R) + 1"
    "snd (rlPipeline env k ?w (rs_db s)) k = Some (R @ [(rv_now env, rlMember env)], Some (rs_clock s + ?w * 2 * 1000))"
    using rlPipeline_key [OF x_def [symmetric], of ?w] rs_check(2) by (simp_all add: R_def c_def)
  have s': "rs_clock s' = rs_clock s" "rs_log s' = ?es @ [entry]"
    "rs_db s' = (if rv_executed env then snd (rlPipeline env k ?w (rs_db s)) else rs_db s)"
    by (simp_all add: rs_check(1) checked_def checkRateLimit_def entry_def Let_def case_prod_beta)
  have "decided skew win ?es entry"
    unfolding decided_def
  proof (intro impI)
    assume "tookPart entry"
    have bounds: "a < rv_now env \<Longrightarrow> rv_now env \<le> a + (?w * 1000 - 2 * skew) \<Longrightarrow>
        (of_nat (length (filter (inWindow a (?w * 1000 - 2 * skew)) (ran k ?es))) :: rat) \<le> of_nat (length R)"
      "(of_nat (length R) :: rat) \<le> of_nat (length (filter (\<lambda>e. rv_now env - ?w * 1000 < fst e) (ran k ?es)))" for a
      using R(4,5) by (simp_all only: of_nat_le_iff)
    from \<open>tookPart entry\<close> have res: "lg_result entry = runCheck env (int (length R) + 1) limit ?w"
      by (simp add: entry_def tookPart_def checkRateLimit_def Let_def case_prod_beta pipe(1) [unfolded c_def])
    show "if rl_allowed (lg_result entry)
        then \<forall>a. a < rv_now (lg_env entry) \<and> rv_now (lg_env entry) \<le> a + (win (lg_key entry) * 1000 - 2 * skew) \<longrightarrow>
               of_nat (length (filter (inWindow a (win (lg_key entry) * 1000 - 2 * skew)) (ran (lg_key entry) ?es))) + 1 \<le> lg_limit entry
        else lg_limit entry < of_nat (length (filter (\<lambda>x. rv_now (lg_env entry) - win (lg_key entry) * 1000 < fst x) (ran (lg_key entry) ?es))) + 1"
    proof (cases "of_nat (length R) + 1 \<le> limit")
      case True
      then show ?thesis
        unfolding res using order_trans [OF add_right_mono [OF bounds(1)]] by (simp add: runCheck_def entry_def)
    next
      case False
      then show ?thesis unfolding res using bounds(2) by (simp add: runCheck_def entry_def)
    qed
  qed
  then have dec: "\<forall>pre e post. rs_log s' = pre @ e # post \<longrightarrow> decided skew win pre e"
    unfolding s'(2) using decided_snoc assms(2) unfolding rlInv_def by blast
  have "setInv skew (win k') (rs_clock s) (ran k' (?es @ [entry])) (rs_db s' k') \<and> distinct (map snd (ran k' (?es @ [entry]))) \<and>
      (\<forall>e \<in> set (ran k' (?es @ [entry])). 0 \<le> fst e \<and> fst e \<le> rs_clock s + skew)" for k'
  proof (cases "k' = k \<and> rv_executed env")
    case True
    let ?new = "(rv_now env, rlMember env)"
    have es: "ran k' (?es @ [entry]) = ran k ?es @ [?new]" using True by (simp add: entry_def)
    have db: "rs_db s' k' = Some (R @ [?new], Some (rs_clock s + ?w * 2 * 1000))" using True pipe(2) by (simp add: s')
    have in_skew: "fst e \<le> rs_clock s + skew" "0 \<le> fst e" if "e \<in> set (ran k ?es @ [?new])" for e
      using that inv(3,4) [of e k] rs_check(3) assms(2) by (auto simp: rlInv_def)
    have "?new \<notin> set R" "rlMember env \<notin> snd ` set R" using R(2) new by force+
    then have "setInv skew ?w (rs_clock s) (ran k ?es @ [?new]) (Some (R @ [?new], Some (rs_clock s + ?w * 2 * 1000)))"
      unfolding setInv_def option.case prod.case
    proof (intro conjI)
      assume fresh: "?new \<notin> set R" "rlMember env \<notin> snd ` set R"
      show "distinct (map snd (R @ [?new]))" using R(1) fresh by simp
      show "set (R @ [?new]) \<subseteq> set (ran k ?es @ [?new])" using R(2) by auto
      have "fst e - skew + ?w * 2 * 1000 \<le> rs_clock s + ?w * 2 * 1000" if "e \<in> set (R @ [?new])" for e
        using in_skew(1) [of e] that R(2) by auto
      then show "\<exists>deadline. Some (rs_clock s + ?w * 2 * 1000) = Some deadline \<and>
          (\<forall>e \<in> set (R @ [?new]). fst e - skew + ?w * 2 * 1000 \<le> deadline)" by blast
      show "\<forall>e \<in> set (ran k ?es @ [?new]). e \<in> set (R @ [?new]) \<or> fst e + ?w * 1000 \<le> rs_clock s + skew"
        using R(3) by auto
    qed
    then show ?thesis using True new inv(2) [of k] in_skew unfolding es db by simp
  next
    case False
    then show ?thesis using inv(1,2) [of k'] inv(3,4) [of _ k'] by (auto simp: s' entry_def rlPipeline_other)
  qed
  then show ?thesis using dec assms(2) by (simp add: rlInv_def s')
next
  case (rs_later t)
  then show ?thesis using assms(2) setInv_later unfolding rlInv_def by fastforce
qed

definition rlStart :: "int \<Rightarrow> rl_sys \<Rightarrow> bool" where
  "rlStart skew s = (skew \<le> rs_clock s \<and> rs_db s = Map.empty \<and> rs_log s = [])"

lemma rl_reachable:
  assumes "(rlStep skew win)\<^sup>*\<^sup>* s0 s" "rlStart skew s0" "0 \<le> skew" "\<And>k. 0 \<le> win k"
  shows "rlInv skew win s"
  using assms(1)
proof (induction rule: rtranclp_induct)
  case base
  then show ?case using assms(2) by (simp add: rlStart_def rlInv_def ran_def setInv_def)
next
  case (step s s')
  then show ?case using rlStep_inv assms(3,4) by blast
qed

text \<open>
  C36. The limit holds in every window, not only in the one a check looks at: of the checks of a key that were answered
  in time, at most \<open>N\<close> with a limit of at most \<open>N\<close> were allowed within any stretch of the window's length, less twice
  the skew of the clocks. And nobody is refused early: when a check refuses, as many others as the limit allows had
  come within the window before it.
\<close>

theorem sliding_window:
  assumes reach: "(rlStep skew win)\<^sup>*\<^sup>* s0 s" "rlStart skew s0" "0 \<le> skew" "\<And>k. 0 \<le> win k" and n: "0 \<le> N"
  shows "of_nat (length (filter (\<lambda>e. lg_key e = k \<and> tookPart e \<and> rl_allowed (lg_result e) \<and> lg_limit e \<le> N \<and>
            inWindow a (win k * 1000 - 2 * skew) (rv_now (lg_env e), rlMember (lg_env e))) (rs_log s))) \<le> N \<and>
    (\<forall>pre e post. rs_log s = pre @ e # post \<and> tookPart e \<and> \<not> rl_allowed (lg_result e) \<longrightarrow>
       lg_limit e < of_nat (length (filter (\<lambda>x. rv_now (lg_env e) - win (lg_key e) * 1000 < fst x) (ran (lg_key e) pre))) + 1)"
proof
  have dec: "\<And>pre e post. rs_log s = pre @ e # post \<Longrightarrow> decided skew win pre e"
    using rl_reachable [OF reach] by (auto simp: rlInv_def)
  let ?len = "win k * 1000 - 2 * skew"
  define P where "P e \<longleftrightarrow> lg_key e = k \<and> tookPart e \<and> rl_allowed (lg_result e) \<and> lg_limit e \<le> N \<and>
      inWindow a ?len (rv_now (lg_env e), rlMember (lg_env e))" for e
  have "of_nat (length (filter (\<lambda>e. P e) (rs_log s))) \<le> N"
  proof (cases "\<exists>e \<in> set (rs_log s). P e")
    case True
    then obtain pre e post where e: "rs_log s = pre @ e # post" "P e" "\<forall>x \<in> set post. \<not> P x"
      by (metis split_list_last_prop)
    have sub: "length (filter P pre) \<le> length (filter (inWindow a ?len) (ran k pre))"
      by (induction pre) (auto simp: P_def ran_def tookPart_def)
    have "of_nat (length (filter (inWindow a ?len) (ran k pre))) + 1 \<le> N"
      using dec [OF e(1)] e(2) by (fastforce simp: decided_def P_def inWindow_def)
    then show ?thesis using sub e by (simp add: filter_empty_conv [THEN iffD2])
  next
    case False
    then have "filter P (rs_log s) = []" by (simp add: filter_empty_conv)
    then show ?thesis using n by simp
  qed
  then show "of_nat (length (filter (\<lambda>e. lg_key e = k \<and> tookPart e \<and> rl_allowed (lg_result e) \<and> lg_limit e \<le> N \<and>
            inWindow a ?len (rv_now (lg_env e), rlMember (lg_env e))) (rs_log s))) \<le> N"
    unfolding P_def .
  show "\<forall>pre e post. rs_log s = pre @ e # post \<and> tookPart e \<and> \<not> rl_allowed (lg_result e) \<longrightarrow>
       lg_limit e < of_nat (length (filter (\<lambda>x. rv_now (lg_env e) - win (lg_key e) * 1000 < fst x) (ran (lg_key e) pre))) + 1"
    using dec by (fastforce simp: decided_def)
qed

section \<open>The tiers\<close>

text \<open>Who a request is counted under, one constructor per tier.\<close>

datatype rl_identity =
    IpIdentity string bool
  | TenantIdentity string
  | ApiKeyIdentity string
  | KeyPersonIdentity string string string
  | ExportIdentity string string
  | ErasureIdentity string string
  | SandboxIdentity string
  | ClientErrorIdentity string string

fun identityKey :: "rl_identity \<Rightarrow> string" where
  "identityKey (IpIdentity clientIp isAuthRoute) = ''rl:ip:'' @ clientIp @ '':'' @ (if isAuthRoute then ''auth'' else ''api'')"
| "identityKey (TenantIdentity tenantId) = ''rl:tenant:'' @ tenantId"
| "identityKey (ApiKeyIdentity applicationActorId) = ''rl:api-key:'' @ applicationActorId"
| "identityKey (KeyPersonIdentity tenantId applicationActorId actingPersonId) =
     ''rl:key-person:'' @ tenantId @ '':'' @ applicationActorId @ '':'' @ actingPersonId"
| "identityKey (ExportIdentity tenantId userId) = ''rl:export:'' @ tenantId @ '':'' @ userId"
| "identityKey (ErasureIdentity tenantId userId) = ''rl:erase:'' @ tenantId @ '':'' @ userId"
| "identityKey (SandboxIdentity userId) = ''rl:sandbox-provisioning:'' @ userId"
| "identityKey (ClientErrorIdentity tenantId userId) = ''rl:client-error:'' @ tenantId @ '':'' @ userId"

definition ERASURE_RATE_LIMIT_PER_MIN :: rat where "ERASURE_RATE_LIMIT_PER_MIN = 10"

definition CLIENT_ERROR_RATE_LIMIT_PER_MIN :: rat where "CLIENT_ERROR_RATE_LIMIT_PER_MIN = 20"

definition TIER_WINDOW_SECONDS :: int where "TIER_WINDOW_SECONDS = 60"

record rl_config =
  lc_RATE_LIMIT_TENANT_PER_MIN :: rat
  lc_RATE_LIMIT_API_KEY_PER_MIN :: rat
  lc_RATE_LIMIT_API_KEY_PERSON_PER_MIN :: rat
  lc_RATE_LIMIT_EXPORT_PER_MIN :: rat
  lc_RATE_LIMIT_SANDBOX_PROVISIONING_PER_MIN :: rat
  lc_limit :: "rat option"
  lc_authLimit :: "rat option"
  lc_windowSeconds :: "int option"

text \<open>The limit of a tier; for a tenant the override of its administrators comes first.\<close>

fun tierLimit :: "rl_config \<Rightarrow> rat option \<Rightarrow> rl_identity \<Rightarrow> rat" where
  "tierLimit cfg override (IpIdentity _ isAuthRoute) = (if isAuthRoute then dflt 10 (lc_authLimit cfg) else dflt 500 (lc_limit cfg))"
| "tierLimit cfg override (TenantIdentity _) = dflt (lc_RATE_LIMIT_TENANT_PER_MIN cfg) override"
| "tierLimit cfg override (ApiKeyIdentity _) = lc_RATE_LIMIT_API_KEY_PER_MIN cfg"
| "tierLimit cfg override (KeyPersonIdentity _ _ _) = lc_RATE_LIMIT_API_KEY_PERSON_PER_MIN cfg"
| "tierLimit cfg override (ExportIdentity _ _) = lc_RATE_LIMIT_EXPORT_PER_MIN cfg"
| "tierLimit cfg override (ErasureIdentity _ _) = ERASURE_RATE_LIMIT_PER_MIN"
| "tierLimit cfg override (SandboxIdentity _) = lc_RATE_LIMIT_SANDBOX_PROVISIONING_PER_MIN cfg"
| "tierLimit cfg override (ClientErrorIdentity _ _) = CLIENT_ERROR_RATE_LIMIT_PER_MIN"

definition tierWindow :: "rl_config \<Rightarrow> rl_identity \<Rightarrow> int" where
  "tierWindow cfg who = (case who of IpIdentity _ _ \<Rightarrow> dflt 60 (lc_windowSeconds cfg) | _ \<Rightarrow> TIER_WINDOW_SECONDS)"

definition enforceTier :: "rl_config \<Rightarrow> rat option \<Rightarrow> rl_env \<Rightarrow> rl_identity \<Rightarrow> zset kvs \<Rightarrow> RateLimitResult \<times> zset kvs" where
  "enforceTier cfg override env who db =
     (if rv_noClient env then (\<lparr>rl_allowed = True, rl_remaining = tierLimit cfg override who, rl_resetAt = 0\<rparr>, db)
      else checkRateLimit env (identityKey who) (tierLimit cfg override who) (tierWindow cfg who) db)"

section \<open>The address of a client\<close>

record request_headers =
  rh_realIp :: "string option"
  rh_forwardedFor :: "string option"

fun splitAt :: "char \<Rightarrow> string \<Rightarrow> string list" where
  "splitAt c [] = [[]]"
| "splitAt c (x # xs) = (if x = c then [] # splitAt c xs else (x # hd (splitAt c xs)) # tl (splitAt c xs))"

definition firstForwardedIp :: "string \<Rightarrow> string option" where
  "firstForwardedIp header = (let first = trim (hd (splitAt CHR '','' header)) in if first \<noteq> [] then Some first else None)"

definition isTrustedPeer :: "(string \<Rightarrow> string list \<Rightarrow> bool) \<Rightarrow> string \<Rightarrow> string \<Rightarrow> bool" where
  "isTrustedPeer inAllowlist trustProxy peerIp =
     (if trustProxy = ''true'' then True
      else if trustProxy = ''false'' then False
      else (let trustedProxies = filter (\<lambda>s. s \<noteq> []) (map trim (splitAt CHR '','' trustProxy)) in
            peerIp \<noteq> ''unknown'' \<and> inAllowlist peerIp trustedProxies))"

text \<open>\<open>rateLimitKey\<close>; the peer address is \<open>unknown\<close> where the connection does not tell it.\<close>

definition rateLimitKey :: "(string \<Rightarrow> string list \<Rightarrow> bool) \<Rightarrow> string \<Rightarrow> string option \<Rightarrow> request_headers \<Rightarrow> string" where
  "rateLimitKey inAllowlist trustProxy peer h =
     (let peerIp = (case peer of Some ip \<Rightarrow> if ip = [] then ''unknown'' else ip | None \<Rightarrow> ''unknown'');
          fallback = peerIp in
      if isTrustedPeer inAllowlist trustProxy peerIp
      then (case map_option trim (rh_realIp h) of
              Some realIp \<Rightarrow> if realIp \<noteq> [] then realIp
                else (case rh_forwardedFor h of None \<Rightarrow> fallback
                      | Some f \<Rightarrow> if f = [] then fallback else dflt fallback (firstForwardedIp f))
            | None \<Rightarrow> (case rh_forwardedFor h of None \<Rightarrow> fallback
                      | Some f \<Rightarrow> if f = [] then fallback else dflt fallback (firstForwardedIp f)))
      else fallback)"

definition isAuthPath :: "string \<Rightarrow> bool" where
  "isAuthPath path = (startsWith path ''/auth'' \<or> startsWith path ''/api-keys'')"

definition rateLimit :: "(string \<Rightarrow> string list \<Rightarrow> bool) \<Rightarrow> string \<Rightarrow> rl_config \<Rightarrow> rl_env \<Rightarrow> string option \<Rightarrow> request_headers \<Rightarrow>
    string \<Rightarrow> zset kvs \<Rightarrow> RateLimitResult \<times> zset kvs" where
  "rateLimit inAllowlist trustProxy cfg env peer h path db =
     (let who = IpIdentity (rateLimitKey inAllowlist trustProxy peer h) (isAuthPath path) in
      checkRateLimit env (identityKey who) (tierLimit cfg None who) (tierWindow cfg who) db)"

section \<open>The override of a tenant\<close>

definition RATE_OVERRIDE_TTL_MS :: int where "RATE_OVERRIDE_TTL_MS = 5000"

text \<open>The \<open>config\<close> column of the tenant, if there is a row and the column is not null.\<close>

definition overrideOf :: "jsobj option \<Rightarrow> rat option" where
  "overrideOf config =
     (case objGet (dflt [] config) ''rate_limit_per_min'' of JNum raw \<Rightarrow> if 0 < raw then Some raw else None | _ \<Rightarrow> None)"

text \<open>The cache is looked up at one time, the answer of the database is stored at a later one.\<close>

definition getTenantRateLimitOverride :: "date \<Rightarrow> date \<Rightarrow> jsobj option \<Rightarrow> string \<Rightarrow> rat option ttl_store \<Rightarrow>
    rat option \<times> rat option ttl_store" where
  "getTenantRateLimitOverride now storedAt config tenantId cache =
     (case getCached now cache tenantId of
        Some v \<Rightarrow> (v, cache)
      | None \<Rightarrow> (let v = overrideOf config in (v, setCached RATE_OVERRIDE_TTL_MS storedAt tenantId v cache)))"

definition setTenantRateLimitOverride :: "string \<Rightarrow> rat option \<Rightarrow> jsobj option \<Rightarrow> rat option ttl_store \<Rightarrow>
    jsobj \<times> rat option ttl_store" where
  "setTenantRateLimitOverride tenantId ratePerMin config cache =
     (case ratePerMin of
        None \<Rightarrow> objRemove ''rate_limit_per_min'' (dflt [] config)
      | Some r \<Rightarrow> objPut ''rate_limit_per_min'' (JNum r) (dflt [] config),
      dropCached tenantId cache)"

interpretation override_cache: ttl_cache getCached "setCached RATE_OVERRIDE_TTL_MS" dropCached RATE_OVERRIDE_TTL_MS
  by unfold_locales (rule ttl_laws; assumption)+

lemma overrideOf_set:
  assumes "\<And>r. ratePerMin = Some r \<Longrightarrow> 0 < r"
  shows "overrideOf (Some (fst (setTenantRateLimitOverride tid ratePerMin config cache))) = ratePerMin"
proof (cases ratePerMin)
  case None
  have "''rate_limit_per_min'' \<notin> set objectPrototypeKeys" by (simp add: objectPrototypeKeys_def)
  then show ?thesis
    by (simp add: None overrideOf_def setTenantRateLimitOverride_def objGet_def map_of_objRemove)
next
  case (Some r)
  then show ?thesis using assms by (simp add: overrideOf_def setTenantRateLimitOverride_def)
qed

text \<open>
  C37. An override takes effect within five seconds on every server, whatever its cache held: once an administrator has
  set or cleared it and as long as it stays so, every limit computed later than five seconds plus the time a read of
  the database takes is the new one.
\<close>

theorem override_takes_effect:
  assumes set1: "\<And>t. changed \<le> t \<Longrightarrow> config t tid = Some (fst (setTenantRateLimitOverride tid ratePerMin before cache0))"
    and pos: "\<And>r. ratePerMin = Some r \<Longrightarrow> 0 < r" and prompt: "override_cache.prompt latency events"
    and late: "changed + latency + 5000 < now" "0 \<le> latency"
    and cache: "cache = override_cache.happen (\<lambda>t k. overrideOf (config t k)) events Map.empty"
  shows "tierLimit cfg (fst (getTenantRateLimitOverride now storedAt (config now tid) tid cache)) (TenantIdentity tid) =
    dflt (lc_RATE_LIMIT_TENANT_PER_MIN cfg) ratePerMin"
proof -
  have v: "overrideOf (config t tid) = ratePerMin" if "changed \<le> t" for t
    using set1 [OF that] overrideOf_set [OF pos] by simp
  have empty: "\<And>now. getCached now Map.empty tid = (None :: rat option option)" by (simp add: getCached_def)
  have "getCached now cache tid \<in> {None, Some ratePerMin}"
    unfolding cache
    using override_cache.change_is_seen [OF empty prompt, of changed "\<lambda>t k. overrideOf (config t k)" ratePerMin now] v late
    by (simp add: RATE_OVERRIDE_TTL_MS_def)
  then show ?thesis
    using v [of now] late by (auto simp: getTenantRateLimitOverride_def Let_def split: option.splits)
qed

section \<open>Identities do not mix\<close>

text \<open>Identifiers that stand before another part of a key hold no colon: they are UUIDs.\<close>

fun plainIds :: "rl_identity \<Rightarrow> bool" where
  "plainIds (KeyPersonIdentity t a p) = (CHR '':'' \<notin> set t \<and> CHR '':'' \<notin> set a)"
| "plainIds (ExportIdentity t u) = (CHR '':'' \<notin> set t)"
| "plainIds (ErasureIdentity t u) = (CHR '':'' \<notin> set t)"
| "plainIds (ClientErrorIdentity t u) = (CHR '':'' \<notin> set t)"
| "plainIds _ = True"

fun tierName :: "rl_identity \<Rightarrow> string" where
  "tierName (IpIdentity _ _) = ''ip''"
| "tierName (TenantIdentity _) = ''tenant''"
| "tierName (ApiKeyIdentity _) = ''api-key''"
| "tierName (KeyPersonIdentity _ _ _) = ''key-person''"
| "tierName (ExportIdentity _ _) = ''export''"
| "tierName (ErasureIdentity _ _) = ''erase''"
| "tierName (SandboxIdentity _) = ''sandbox-provisioning''"
| "tierName (ClientErrorIdentity _ _) = ''client-error''"

fun insideTier :: "rl_identity \<Rightarrow> string" where
  "insideTier (IpIdentity ip auth) = ip @ CHR '':'' # (if auth then ''auth'' else ''api'')"
| "insideTier (TenantIdentity t) = t"
| "insideTier (ApiKeyIdentity k) = k"
| "insideTier (KeyPersonIdentity t a p) = t @ CHR '':'' # a @ CHR '':'' # p"
| "insideTier (ExportIdentity t u) = t @ CHR '':'' # u"
| "insideTier (ErasureIdentity t u) = t @ CHR '':'' # u"
| "insideTier (SandboxIdentity u) = u"
| "insideTier (ClientErrorIdentity t u) = t @ CHR '':'' # u"

lemma identityKey_parts: "identityKey a = ''rl:'' @ tierName a @ CHR '':'' # insideTier a" "CHR '':'' \<notin> set (tierName a)"
  by (cases a; simp)+

lemma ip_parts: "x @ CHR '':'' # (if p then ''auth'' else ''api'') = y @ CHR '':'' # (if q then ''auth'' else ''api'') \<Longrightarrow> x = y \<and> p = q"
  using split_back [of "CHR '':''" "if p then ''auth'' else ''api''" "if q then ''auth'' else ''api''" x y] by (cases p; cases q) simp_all

lemma insideTier_inj: "plainIds a \<Longrightarrow> plainIds b \<Longrightarrow> tierName a = tierName b \<Longrightarrow> insideTier a = insideTier b \<Longrightarrow> a = b"
proof (cases a)
  case (IpIdentity x p)
  assume "tierName a = tierName b" "insideTier a = insideTier b"
  then show "a = b" using ip_parts [of x p] by (cases b) (simp_all add: IpIdentity del: if_split_asm)
next
  case (KeyPersonIdentity t k p)
  assume "plainIds a" "plainIds b" "tierName a = tierName b" and eq: "insideTier a = insideTier b"
  then obtain t' k' p' where b: "b = KeyPersonIdentity t' k' p'" by (cases b) (simp_all add: KeyPersonIdentity)
  have no: "CHR '':'' \<notin> set t" "CHR '':'' \<notin> set t'" "CHR '':'' \<notin> set k" "CHR '':'' \<notin> set k'"
    using \<open>plainIds a\<close> \<open>plainIds b\<close> by (simp_all add: b KeyPersonIdentity)
  have "t @ CHR '':'' # k @ CHR '':'' # p = t' @ CHR '':'' # k' @ CHR '':'' # p'" using eq by (simp only: b KeyPersonIdentity insideTier.simps)
  then have "t = t' \<and> k @ CHR '':'' # p = k' @ CHR '':'' # p'" by (rule split_front [OF no(1,2)])
  then show "a = b" using split_front [OF no(3,4), of p p'] by (simp add: b KeyPersonIdentity)
qed (cases b; simp; metis split_front)+

lemma identityKey_inj:
  assumes "plainIds a" "plainIds b" "identityKey a = identityKey b"
  shows "a = b"
proof -
  have "tierName a @ CHR '':'' # insideTier a = tierName b @ CHR '':'' # insideTier b"
    using assms(3) by (simp add: identityKey_parts(1))
  then have "tierName a = tierName b \<and> insideTier a = insideTier b"
    by (rule split_front [OF identityKey_parts(2) identityKey_parts(2)])
  then show ?thesis using insideTier_inj [OF assms(1,2)] by simp
qed

text \<open>
  C38. No one uses up the allowance of another: a request counted under one identity changes nothing in the counter of
  another identity, in the same or another tier. And a client cannot choose its identity: where the peer is not a
  trusted proxy it is the address of the connection, whatever the headers say, and behind a trusted proxy that names the
  client in \<open>X-Real-IP\<close> the forwarding chain is not consulted.
\<close>

theorem identities_separate:
  assumes "plainIds a" "plainIds b" "a \<noteq> b"
  shows "snd (enforceTier cfg override env a db) (identityKey b) = db (identityKey b) \<and>
    (\<not> isTrustedPeer inAllowlist trustProxy ip \<and> ip \<noteq> [] \<longrightarrow> rateLimitKey inAllowlist trustProxy (Some ip) h = ip) \<and>
    (\<forall>real. rh_realIp h = Some real \<and> trim real \<noteq> [] \<longrightarrow>
       rateLimitKey inAllowlist trustProxy peer h = rateLimitKey inAllowlist trustProxy peer (h\<lparr>rh_forwardedFor := f\<rparr>))"
proof (intro conjI)
  have "identityKey b \<noteq> identityKey a" using assms identityKey_inj by metis
  then show "snd (enforceTier cfg override env a db) (identityKey b) = db (identityKey b)"
    by (simp add: enforceTier_def checkRateLimit_def Let_def case_prod_beta rlPipeline_other)
qed (auto simp: rateLimitKey_def Let_def)

section \<open>Witnesses\<close>

definition rl_demo_env :: "date \<Rightarrow> string \<Rightarrow> rl_env" where
  "rl_demo_env t random = \<lparr>rv_now = t, rv_redisNow = t, rv_random = random, rv_executed = True, rv_answered = True, rv_noClient = False\<rparr>"

definition rl_demo_start :: rl_sys where
  "rl_demo_start = \<lparr>rs_clock = 5, rs_db = Map.empty, rs_log = []\<rparr>"

definition rl_demo_run :: rl_sys where
  "rl_demo_run = checked (rl_demo_env 5 ''c'') ''rl:tenant:t'' 2 60 (checked (rl_demo_env 5 ''b'') ''rl:tenant:t'' 2 60
     (checked (rl_demo_env 5 ''a'') ''rl:tenant:t'' 2 60 rl_demo_start))"

lemma rl_demo_reach: "(rlStep 0 (\<lambda>k. 60))\<^sup>*\<^sup>* rl_demo_start rl_demo_run"
proof -
  have step: "rlStep 0 (\<lambda>k. 60) s (checked (rl_demo_env 5 r) ''rl:tenant:t'' 2 60 s)"
    if "rs_clock s = 5" "list_all (\<lambda>e. rlMember (lg_env e) \<noteq> rlMember (rl_demo_env 5 r)) (rs_log s)" for s r
    using rs_check [of "rl_demo_env 5 r" s 0 "''rl:tenant:t''" "\<lambda>k. 60" 2] that by (auto simp: rl_demo_env_def list_all_iff)
  have members: "rlMember (rl_demo_env 5 r) = rlMember (rl_demo_env 5 r') \<longleftrightarrow> r = r'" for r r'
    by (simp add: rlMember_def rl_demo_env_def)
  have after: "rs_clock (checked env k l w s) = rs_clock s"
    "list_all P (rs_log (checked env k l w s)) \<longleftrightarrow>
       list_all P (rs_log s) \<and> P \<lparr>lg_key = k, lg_env = env, lg_limit = l, lg_result = fst (checkRateLimit env k l w (rs_db s))\<rparr>" for env k l w s P
    by (simp_all add: checked_def Let_def case_prod_beta)
  have start: "rs_clock rl_demo_start = 5" "rs_log rl_demo_start = []" by (simp_all add: rl_demo_start_def)
  have "rlStep 0 (\<lambda>k. 60) rl_demo_start (checked (rl_demo_env 5 ''a'') ''rl:tenant:t'' 2 60 rl_demo_start)" (is "rlStep _ _ _ ?s1")
    by (rule step) (simp_all add: start)
  moreover have "rlStep 0 (\<lambda>k. 60) ?s1 (checked (rl_demo_env 5 ''b'') ''rl:tenant:t'' 2 60 ?s1)" (is "rlStep _ _ _ ?s2")
    by (rule step) (simp_all only: after start list.pred_inject members rl_entry.select_convs, simp_all)
  moreover have "rlStep 0 (\<lambda>k. 60) ?s2 (checked (rl_demo_env 5 ''c'') ''rl:tenant:t'' 2 60 ?s2)"
    by (rule step) (simp_all only: after start list.pred_inject members rl_entry.select_convs, simp_all)
  ultimately show ?thesis unfolding rl_demo_run_def by (meson r_into_rtranclp rtranclp_trans)
qed

theorem sliding_window_witness:
  "map (\<lambda>e. rl_allowed (lg_result e)) (rs_log rl_demo_run) = [True, True, False] \<and>
   (of_nat (length (filter (\<lambda>e. lg_key e = ''rl:tenant:t'' \<and> tookPart e \<and> rl_allowed (lg_result e) \<and> lg_limit e \<le> 2 \<and>
            inWindow 0 (60 * 1000 - 2 * 0) (rv_now (lg_env e), rlMember (lg_env e))) (rs_log rl_demo_run))) :: rat) \<le> 2"
proof
  show "map (\<lambda>e. rl_allowed (lg_result e)) (rs_log rl_demo_run) = [True, True, False]" by code_simp
  have "rlStart 0 rl_demo_start" by (simp add: rlStart_def rl_demo_start_def)
  from sliding_window [OF rl_demo_reach this, of 2 "''rl:tenant:t''" 0]
  show "(of_nat (length (filter (\<lambda>e. lg_key e = ''rl:tenant:t'' \<and> tookPart e \<and> rl_allowed (lg_result e) \<and> lg_limit e \<le> 2 \<and>
            inWindow 0 (60 * 1000 - 2 * 0) (rv_now (lg_env e), rlMember (lg_env e))) (rs_log rl_demo_run))) :: rat) \<le> 2"
    by simp
qed

definition rl_demo_config :: rl_config where
  "rl_demo_config = \<lparr>lc_RATE_LIMIT_TENANT_PER_MIN = 600, lc_RATE_LIMIT_API_KEY_PER_MIN = 200, lc_RATE_LIMIT_API_KEY_PERSON_PER_MIN = 20,
      lc_RATE_LIMIT_EXPORT_PER_MIN = 5, lc_RATE_LIMIT_SANDBOX_PROVISIONING_PER_MIN = 3, lc_limit = None, lc_authLimit = None,
      lc_windowSeconds = None\<rparr>"

definition rl_demo_tenant :: "date \<Rightarrow> string \<Rightarrow> jsobj option" where
  "rl_demo_tenant t k = (if 1000 \<le> t then Some (fst (setTenantRateLimitOverride ''t'' (Some 50) None Map.empty)) else None)"

theorem override_takes_effect_witness:
  "tierLimit rl_demo_config (fst (getTenantRateLimitOverride 7000 7001 (rl_demo_tenant 7000 ''t'') ''t''
       (override_cache.happen (\<lambda>t k. overrideOf (rl_demo_tenant t k)) [Stored ''t'' 900 1100] Map.empty))) (TenantIdentity ''t'') =
   dflt (lc_RATE_LIMIT_TENANT_PER_MIN rl_demo_config) (Some 50)"
proof -
  have "override_cache.prompt 200 [Stored ''t'' 900 1100]" by (simp add: override_cache.prompt_def)
  then show ?thesis
    by (intro override_takes_effect [where changed = 1000 and latency = 200 and before = None and ?cache0.0 = Map.empty and
          events = "[Stored ''t'' 900 1100]" and config = rl_demo_tenant]) (simp_all add: rl_demo_tenant_def)
qed

theorem identities_separate_witness:
  "snd (enforceTier rl_demo_config None (rl_demo_env 5 ''a'') (ExportIdentity ''t'' ''u'') Map.empty) (identityKey (ErasureIdentity ''t'' ''u'')) = None"
  using identities_separate [of "ExportIdentity ''t'' ''u''" "ErasureIdentity ''t'' ''u''" rl_demo_config None "rl_demo_env 5 ''a''" Map.empty] by simp

end
