(* ===== verification/TenantCache.thy ===== *)
theory TenantCache
  imports JsValue "HOL-Library.Multiset"
begin

text \<open>
  The in-process cache of tenants (\<open>packages/auth/src/tenant-status-cache.ts\<close>) and the three look-ups that use it
  (\<open>resolveTenantStatus\<close>, \<open>resolveTenantPlan\<close> and \<open>resolveTenantIpAllowlist\<close> of
  \<open>packages/auth/src/middleware.ts\<close>). An entry holds status, plan, address list and trial under one deadline, and
  each store renews the deadline of all of them. A look-up that misses reads the database and stores at a later
  moment; other look-ups, invalidations and changes of the tenant may come between.
\<close>

section \<open>Rows and entries\<close>

text \<open>The columns of \<open>tenants\<close> that the modelled operations read or write.\<close>

record tenants_row =
  tn_id :: string
  tn_name :: string
  tn_slug :: string
  tn_plan :: string
  tn_zitadelOrgId :: "string option"
  tn_status :: string
  tn_config :: jsobj
  tn_suspendedAt :: "date option"
  tn_deletionScheduledAt :: "date option"
  tn_trialEndsAt :: "date option"
  tn_logo :: "string option"

text \<open>\<open>None\<close> is undefined; a trial that is \<open>Some None\<close> is null.\<close>

record tenant_entry =
  te_status :: string
  te_plan :: "string option"
  te_ipAllowlist :: "string list option"
  te_trialEndsAt :: "date option option"
  te_exp :: date

type_synonym tenant_cache = "string \<rightharpoonup> tenant_entry"

definition TTL_MS :: int where "TTL_MS = 30000"

section \<open>Getters and setters\<close>

text \<open>Every getter drops an entry whose time is over.\<close>

definition dropExpired :: "date \<Rightarrow> string \<Rightarrow> tenant_cache \<Rightarrow> tenant_cache" where
  "dropExpired now t c = (case c t of None \<Rightarrow> c | Some e \<Rightarrow> if te_exp e < now then c(t := None) else c)"

definition getCachedTenantStatus :: "date \<Rightarrow> string \<Rightarrow> tenant_cache \<Rightarrow> string option" where
  "getCachedTenantStatus now t c = map_option te_status (dropExpired now t c t)"

definition getCachedTenantTrialEndsAt :: "date \<Rightarrow> string \<Rightarrow> tenant_cache \<Rightarrow> date option option" where
  "getCachedTenantTrialEndsAt now t c = Option.bind (dropExpired now t c t) te_trialEndsAt"

definition getCachedTenantPlan :: "date \<Rightarrow> string \<Rightarrow> tenant_cache \<Rightarrow> string option" where
  "getCachedTenantPlan now t c = Option.bind (dropExpired now t c t) te_plan"

definition getCachedTenantIpAllowlist :: "date \<Rightarrow> string \<Rightarrow> tenant_cache \<Rightarrow> string list option" where
  "getCachedTenantIpAllowlist now t c = Option.bind (dropExpired now t c t) te_ipAllowlist"

definition setCachedTenantStatus :: "date \<Rightarrow> string \<Rightarrow> string \<Rightarrow> date option option \<Rightarrow> tenant_cache \<Rightarrow> tenant_cache" where
  "setCachedTenantStatus now t status trialEndsAt c =
     c(t \<mapsto> \<lparr>te_status = status, te_plan = Option.bind (c t) te_plan, te_ipAllowlist = Option.bind (c t) te_ipAllowlist,
             te_trialEndsAt = (if trialEndsAt \<noteq> None then trialEndsAt else Option.bind (c t) te_trialEndsAt),
             te_exp = now + TTL_MS\<rparr>)"

definition setCachedTenantPlan :: "date \<Rightarrow> string \<Rightarrow> string \<Rightarrow> tenant_cache \<Rightarrow> tenant_cache" where
  "setCachedTenantPlan now t plan c =
     c(t \<mapsto> \<lparr>te_status = dflt ''active'' (map_option te_status (c t)), te_plan = Some plan,
             te_ipAllowlist = Option.bind (c t) te_ipAllowlist, te_trialEndsAt = Option.bind (c t) te_trialEndsAt,
             te_exp = now + TTL_MS\<rparr>)"

definition setCachedTenantIpAllowlist :: "date \<Rightarrow> string \<Rightarrow> string list \<Rightarrow> tenant_cache \<Rightarrow> tenant_cache" where
  "setCachedTenantIpAllowlist now t ipAllowlist c =
     c(t \<mapsto> \<lparr>te_status = dflt ''active'' (map_option te_status (c t)), te_plan = Option.bind (c t) te_plan,
             te_ipAllowlist = Some ipAllowlist, te_trialEndsAt = Option.bind (c t) te_trialEndsAt,
             te_exp = now + TTL_MS\<rparr>)"

definition invalidateTenantStatusCache :: "string \<Rightarrow> tenant_cache \<Rightarrow> tenant_cache" where
  "invalidateTenantStatusCache t c = c(t := None)"

section \<open>Look-ups\<close>

definition rowStatus :: "tenants_row option \<Rightarrow> string \<times> date option" where
  "rowStatus row = (dflt ''deleted'' (map_option tn_status row), Option.bind row tn_trialEndsAt)"

definition rowPlan :: "tenants_row option \<Rightarrow> string" where
  "rowPlan row = dflt ''standard'' (map_option tn_plan row)"

definition texts :: "jsval list \<Rightarrow> string list" where
  "texts vs = concat (map (\<lambda>v. case v of JStr s \<Rightarrow> [s] | _ \<Rightarrow> []) vs)"

text \<open>\<open>config.ip_allowlist\<close> is a list of texts where it is set at all.\<close>

definition rowIpAllowlist :: "tenants_row option \<Rightarrow> string list" where
  "rowIpAllowlist row =
     (case row of None \<Rightarrow> []
      | Some r \<Rightarrow> (case objGet (tn_config r) ''ip_allowlist'' of JArr vs \<Rightarrow> texts vs | _ \<Rightarrow> []))"

datatype lookup_kind = ForStatus | ForPlan | ForIpAllowlist

definition statusHit :: "date \<Rightarrow> string \<Rightarrow> tenant_cache \<Rightarrow> (string \<times> date option) option" where
  "statusHit now t c =
     (case (getCachedTenantStatus now t c, getCachedTenantTrialEndsAt now t c) of
        (Some status, Some trialEndsAt) \<Rightarrow> Some (status, trialEndsAt)
      | _ \<Rightarrow> None)"

definition isHit :: "lookup_kind \<Rightarrow> date \<Rightarrow> string \<Rightarrow> tenant_cache \<Rightarrow> bool" where
  "isHit kind now t c =
     (case kind of
        ForStatus \<Rightarrow> statusHit now t c \<noteq> None
      | ForPlan \<Rightarrow> getCachedTenantPlan now t c \<noteq> None
      | ForIpAllowlist \<Rightarrow> getCachedTenantIpAllowlist now t c \<noteq> None)"

definition storeRow :: "lookup_kind \<Rightarrow> date \<Rightarrow> string \<Rightarrow> tenants_row option \<Rightarrow> tenant_cache \<Rightarrow> tenant_cache" where
  "storeRow kind now t row c =
     (case kind of
        ForStatus \<Rightarrow> setCachedTenantStatus now t (fst (rowStatus row)) (Some (snd (rowStatus row))) c
      | ForPlan \<Rightarrow> setCachedTenantPlan now t (rowPlan row) c
      | ForIpAllowlist \<Rightarrow> setCachedTenantIpAllowlist now t (rowIpAllowlist row) c)"

definition resolveTenantStatus :: "date \<Rightarrow> string \<Rightarrow> tenants_row option \<Rightarrow> tenant_cache \<Rightarrow> string \<times> date option" where
  "resolveTenantStatus now t row c = (case statusHit now t c of Some v \<Rightarrow> v | None \<Rightarrow> rowStatus row)"

definition isTenantTrialActive :: "date \<Rightarrow> date option \<Rightarrow> bool" where
  "isTenantTrialActive now trialEndsAt = (case trialEndsAt of None \<Rightarrow> True | Some t \<Rightarrow> now < t)"

datatype tenant_refusal = TENANT_SUSPENDED | TENANT_GONE | TENANT_TRIAL_EXPIRED

definition tenantRefusal :: "date \<Rightarrow> string \<times> date option \<Rightarrow> tenant_refusal option" where
  "tenantRefusal now resolved =
     (if fst resolved = ''suspended'' then Some TENANT_SUSPENDED
      else if fst resolved = ''deleted'' \<or> fst resolved = ''purged'' then Some TENANT_GONE
      else if \<not> isTenantTrialActive now (snd resolved) then Some TENANT_TRIAL_EXPIRED
      else None)"

section \<open>One server over time\<close>

text \<open>
  \<open>hist t k\<close> is the row of tenant \<open>k\<close> at time \<open>t\<close>. A look-up under way has missed at \<open>gq_since\<close> and may have read the
  row at \<open>gq_readAt\<close>; it stores within \<open>lat\<close> milliseconds of its beginning or not at all.
\<close>

record gate_req =
  gq_kind :: lookup_kind
  gq_tenant :: string
  gq_since :: date
  gq_readAt :: "date option"

record gate_sys =
  gs_clock :: date
  gs_cache :: tenant_cache
  gs_reqs :: "gate_req multiset"

inductive gateStep :: "(date \<Rightarrow> string \<Rightarrow> tenants_row option) \<Rightarrow> int \<Rightarrow> gate_sys \<Rightarrow> gate_sys \<Rightarrow> bool" for hist lat where
  gs_lookup: "gateStep hist lat s (s\<lparr>gs_cache := dropExpired (gs_clock s) t (gs_cache s),
      gs_reqs := (if isHit kind (gs_clock s) t (gs_cache s) then gs_reqs s
        else add_mset \<lparr>gq_kind = kind, gq_tenant = t, gq_since = gs_clock s, gq_readAt = None\<rparr> (gs_reqs s))\<rparr>)"
| gs_read: "gateStep hist lat s (s\<lparr>gs_reqs := add_mset (q\<lparr>gq_readAt := Some (gs_clock s)\<rparr>) (gs_reqs s - {#q#})\<rparr>)"
    if "q \<in># gs_reqs s" "gq_readAt q = None"
| gs_store: "gateStep hist lat s (s\<lparr>gs_cache := storeRow (gq_kind q) (gs_clock s) (gq_tenant q) (hist r (gq_tenant q)) (gs_cache s),
      gs_reqs := gs_reqs s - {#q#}\<rparr>)"
    if "q \<in># gs_reqs s" "gq_readAt q = Some r" "gs_clock s \<le> gq_since q + lat"
| gs_give_up: "gateStep hist lat s (s\<lparr>gs_reqs := gs_reqs s - {#q#}\<rparr>)"
| gs_invalidate: "gateStep hist lat s (s\<lparr>gs_cache := invalidateTenantStatusCache t (gs_cache s)\<rparr>)"
| gs_later: "gateStep hist lat s (s\<lparr>gs_clock := t\<rparr>)" if "gs_clock s \<le> t"

section \<open>How old a cached status can be\<close>

text \<open>
  The history of an entry: its status was read at \<open>\<rho>\<close> and stored at \<open>\<sigma>\<close>; plan and addresses were first stored into it
  at \<open>p\<close> and \<open>q\<close>. Only a first store, or one already under way then, can renew the deadline without reading the status.
\<close>

definition timed :: "int \<Rightarrow> date \<Rightarrow> date \<Rightarrow> date \<Rightarrow> tenant_entry \<Rightarrow> bool" where
  "timed lat \<sigma> p q e =
     ((te_exp e \<le> \<sigma> + TTL_MS \<or> (te_plan e \<noteq> None \<and> te_exp e \<le> p + lat + TTL_MS) \<or>
       (te_ipAllowlist e \<noteq> None \<and> te_exp e \<le> q + lat + TTL_MS)) \<and>
      (te_plan e \<noteq> None \<longrightarrow> p \<le> \<sigma> + (if te_ipAllowlist e = None then TTL_MS + lat else 2 * TTL_MS + 3 * lat)) \<and>
      (te_ipAllowlist e \<noteq> None \<longrightarrow> q \<le> \<sigma> + (if te_plan e = None then TTL_MS + lat else 2 * TTL_MS + 3 * lat)))"

definition pendingBefore :: "gate_req multiset \<Rightarrow> lookup_kind \<Rightarrow> string \<Rightarrow> date \<Rightarrow> bool" where
  "pendingBefore reqs kind t b = (\<forall>x. x \<in># reqs \<and> gq_kind x = kind \<and> gq_tenant x = t \<longrightarrow> gq_since x \<le> b)"

definition readStatus :: "(date \<Rightarrow> string \<Rightarrow> tenants_row option) \<Rightarrow> int \<Rightarrow> string \<Rightarrow> date \<Rightarrow> tenant_entry \<Rightarrow> bool" where
  "readStatus hist lat t \<sigma> e =
     (\<exists>\<rho>. \<rho> \<le> \<sigma> \<and> \<sigma> \<le> \<rho> + lat \<and> te_status e = fst (rowStatus (hist \<rho> t)) \<and> te_trialEndsAt e = Some (snd (rowStatus (hist \<rho> t))))"

definition entryInv :: "(date \<Rightarrow> string \<Rightarrow> tenants_row option) \<Rightarrow> int \<Rightarrow> date \<Rightarrow> gate_req multiset \<Rightarrow> string \<Rightarrow> tenant_entry \<Rightarrow> bool" where
  "entryInv hist lat clock reqs t e =
     (te_exp e \<le> clock + TTL_MS \<and>
      (\<forall>x. x \<in># reqs \<and> gq_tenant x = t \<longrightarrow> gq_since x \<le> te_exp e) \<and>
      (\<exists>p q. p \<le> clock \<and> q \<le> clock \<and>
         (te_plan e \<noteq> None \<longrightarrow> pendingBefore reqs ForPlan t p) \<and>
         (te_ipAllowlist e \<noteq> None \<longrightarrow> pendingBefore reqs ForIpAllowlist t q) \<and>
         (te_trialEndsAt e \<noteq> None \<longrightarrow> (\<exists>\<sigma>. \<sigma> \<le> clock \<and> readStatus hist lat t \<sigma> e \<and> timed lat \<sigma> p q e))))"

definition gateInv :: "(date \<Rightarrow> string \<Rightarrow> tenants_row option) \<Rightarrow> int \<Rightarrow> gate_sys \<Rightarrow> bool" where
  "gateInv hist lat s =
     ((\<forall>x. x \<in># gs_reqs s \<longrightarrow> gq_since x \<le> gs_clock s \<and> (\<forall>r. gq_readAt x = Some r \<longrightarrow> gq_since x \<le> r \<and> r \<le> gs_clock s)) \<and>
      (\<forall>t e. gs_cache s t = Some e \<longrightarrow> entryInv hist lat (gs_clock s) (gs_reqs s) t e))"

definition sameLookup :: "gate_req \<Rightarrow> gate_req \<Rightarrow> bool" where
  "sameLookup x y = (gq_kind x = gq_kind y \<and> gq_tenant x = gq_tenant y \<and> gq_since x = gq_since y)"

lemma pendingBefore_fewer:
  assumes "pendingBefore reqs kind t b" "\<And>x. x \<in># reqs' \<Longrightarrow> \<exists>y. y \<in># reqs \<and> sameLookup x y"
  shows "pendingBefore reqs' kind t b"
  unfolding pendingBefore_def
proof (intro allI impI)
  fix x assume x: "x \<in># reqs' \<and> gq_kind x = kind \<and> gq_tenant x = t"
  then obtain y where "y \<in># reqs" "sameLookup x y" using assms(2) by blast
  then show "gq_since x \<le> b" using assms(1) x by (auto simp: pendingBefore_def sameLookup_def)
qed

lemma entryInv_fewer:
  assumes "entryInv hist lat clock reqs t e" "\<And>x. x \<in># reqs' \<Longrightarrow> \<exists>y. y \<in># reqs \<and> sameLookup x y" "clock \<le> clock'"
  shows "entryInv hist lat clock' reqs' t e"
proof -
  obtain p q where pq: "p \<le> clock" "q \<le> clock" "te_plan e \<noteq> None \<longrightarrow> pendingBefore reqs ForPlan t p"
    "te_ipAllowlist e \<noteq> None \<longrightarrow> pendingBefore reqs ForIpAllowlist t q"
    "te_trialEndsAt e \<noteq> None \<longrightarrow> (\<exists>\<sigma>. \<sigma> \<le> clock \<and> readStatus hist lat t \<sigma> e \<and> timed lat \<sigma> p q e)"
    using assms(1) unfolding entryInv_def by blast
  have "te_trialEndsAt e \<noteq> None \<longrightarrow> (\<exists>\<sigma>. \<sigma> \<le> clock' \<and> readStatus hist lat t \<sigma> e \<and> timed lat \<sigma> p q e)"
    using pq(5) assms(3) by (meson order_trans)
  moreover have "te_plan e \<noteq> None \<longrightarrow> pendingBefore reqs' ForPlan t p" "te_ipAllowlist e \<noteq> None \<longrightarrow> pendingBefore reqs' ForIpAllowlist t q"
    using pq(3,4) pendingBefore_fewer assms(2) by blast+
  moreover have "\<forall>x. x \<in># reqs' \<and> gq_tenant x = t \<longrightarrow> gq_since x \<le> te_exp e"
  proof (intro allI impI)
    fix x assume x: "x \<in># reqs' \<and> gq_tenant x = t"
    then obtain y where "y \<in># reqs" "sameLookup x y" using assms(2) by blast
    then show "gq_since x \<le> te_exp e" using assms(1) x by (auto simp: entryInv_def sameLookup_def)
  qed
  moreover have "te_exp e \<le> clock' + TTL_MS" "p \<le> clock'" "q \<le> clock'"
    using assms(1,3) pq(1,2) unfolding entryInv_def by auto
  ultimately show ?thesis
    unfolding entryInv_def by (intro conjI exI [of _ p] exI [of _ q]) assumption+
qed

lemma sameLookup_refl [simp]: "sameLookup x x"
  by (simp add: sameLookup_def)

text \<open>A look-up joins those under way: it has missed, so what it looks for is not in the entry.\<close>

lemma entryInv_lookup:
  assumes "entryInv hist lat clock reqs t e" "\<And>x. x \<in># reqs' \<Longrightarrow> x \<in># reqs \<or> gq_since x = clock \<and> (gq_tenant x = t \<longrightarrow>
      clock \<le> te_exp e \<and> (gq_kind x = ForPlan \<longrightarrow> te_plan e = None) \<and> (gq_kind x = ForIpAllowlist \<longrightarrow> te_ipAllowlist e = None))"
  shows "entryInv hist lat clock reqs' t e"
proof -
  obtain p q where pq: "p \<le> clock" "q \<le> clock" "te_plan e \<noteq> None \<longrightarrow> pendingBefore reqs ForPlan t p"
    "te_ipAllowlist e \<noteq> None \<longrightarrow> pendingBefore reqs ForIpAllowlist t q"
    "te_trialEndsAt e \<noteq> None \<longrightarrow> (\<exists>\<sigma>. \<sigma> \<le> clock \<and> readStatus hist lat t \<sigma> e \<and> timed lat \<sigma> p q e)"
    using assms(1) unfolding entryInv_def by blast
  have "te_plan e \<noteq> None \<longrightarrow> pendingBefore reqs' ForPlan t p"
    using pq(3) assms(2) unfolding pendingBefore_def by metis
  moreover have "te_ipAllowlist e \<noteq> None \<longrightarrow> pendingBefore reqs' ForIpAllowlist t q"
    using pq(4) assms(2) unfolding pendingBefore_def by metis
  moreover have "\<forall>x. x \<in># reqs' \<and> gq_tenant x = t \<longrightarrow> gq_since x \<le> te_exp e"
    using assms unfolding entryInv_def by metis
  moreover have "te_exp e \<le> clock + TTL_MS" using assms(1) unfolding entryInv_def by blast
  ultimately show ?thesis
    using pq(1,2,5) unfolding entryInv_def by (intro conjI exI [of _ p] exI [of _ q]) assumption+
qed

lemma TTL_pos: "0 \<le> TTL_MS"
  by (simp add: TTL_MS_def)

text \<open>The state of an entry before a store: none, or one that satisfies the invariant.\<close>

lemma entryInv_store:
  assumes old: "\<And>e. c t = Some e \<Longrightarrow> entryInv hist lat clock reqs t e"
    and x: "x \<in># reqs" "gq_tenant x = t" "gq_kind x = kind" "clock \<le> gq_since x + lat" "0 \<le> lat" "gq_since x \<le> r" "r \<le> clock"
    and since: "\<And>y. y \<in># reqs \<Longrightarrow> gq_since y \<le> clock"
  shows "entryInv hist lat clock reqs t (the (storeRow kind clock t (hist r t) c t))"
proof -
  have all_pending: "pendingBefore reqs k t clock" for k using since by (simp add: pendingBefore_def)
  have exp: "\<forall>y. y \<in># reqs \<and> gq_tenant y = t \<longrightarrow> gq_since y \<le> clock + TTL_MS" using since TTL_pos by fastforce
  show ?thesis
  proof (cases "c t")
    case None
    have "readStatus hist lat t clock (the (storeRow ForStatus clock t (hist r t) c t))"
      unfolding readStatus_def by (intro exI [of _ r]) (use x in \<open>auto simp: storeRow_def setCachedTenantStatus_def\<close>)
    then show ?thesis
      unfolding entryInv_def using exp all_pending None
      by (cases kind; intro conjI exI [of _ clock])
        (auto simp: storeRow_def setCachedTenantStatus_def setCachedTenantPlan_def setCachedTenantIpAllowlist_def timed_def)
  next
    case (Some e)
    obtain p q where pq: "p \<le> clock" "q \<le> clock" "te_plan e \<noteq> None \<longrightarrow> pendingBefore reqs ForPlan t p"
      "te_ipAllowlist e \<noteq> None \<longrightarrow> pendingBefore reqs ForIpAllowlist t q"
      "te_trialEndsAt e \<noteq> None \<longrightarrow> (\<exists>\<sigma>. \<sigma> \<le> clock \<and> readStatus hist lat t \<sigma> e \<and> timed lat \<sigma> p q e)"
      and e: "te_exp e \<le> clock + TTL_MS" "\<And>y. y \<in># reqs \<Longrightarrow> gq_tenant y = t \<Longrightarrow> gq_since y \<le> te_exp e"
      using old [OF Some] unfolding entryInv_def by blast
    have soon: "clock \<le> te_exp e + lat" using e(2) x by fastforce
    show ?thesis
    proof (cases kind)
      case ForStatus
      let ?e = "the (storeRow ForStatus clock t (hist r t) c t)"
      have "readStatus hist lat t clock ?e"
        unfolding readStatus_def by (intro exI [of _ r]) (use x in \<open>auto simp: storeRow_def setCachedTenantStatus_def\<close>)
      moreover have "timed lat clock p q ?e"
        using pq(1,2) x(5) TTL_pos by (auto simp: timed_def storeRow_def setCachedTenantStatus_def)
      ultimately show ?thesis
        unfolding entryInv_def ForStatus using exp pq(1-4) Some
        by (intro conjI exI [of _ p] exI [of _ q]) (auto simp: storeRow_def setCachedTenantStatus_def)
    next
      case ForPlan
      let ?e = "the (storeRow ForPlan clock t (hist r t) c t)" and ?p = "if te_plan e = None then clock else p"
      have e': "?e = \<lparr>te_status = te_status e, te_plan = Some (rowPlan (hist r t)), te_ipAllowlist = te_ipAllowlist e,
          te_trialEndsAt = te_trialEndsAt e, te_exp = clock + TTL_MS\<rparr>"
        by (simp add: storeRow_def setCachedTenantPlan_def Some)
      have later: "te_plan e \<noteq> None \<Longrightarrow> clock \<le> p + lat"
        using pq(3) x unfolding pendingBefore_def ForPlan by fastforce
      have "timed lat \<sigma> ?p q ?e" if "timed lat \<sigma> p q e" for \<sigma>
        using that soon later x(5) TTL_pos unfolding timed_def e' by (cases "te_plan e"; cases "te_ipAllowlist e"; simp; linarith?)
      moreover have "readStatus hist lat t \<sigma> ?e" if "readStatus hist lat t \<sigma> e" for \<sigma>
        using that unfolding readStatus_def e' by simp
      ultimately show ?thesis
        unfolding entryInv_def ForPlan using exp pq all_pending
        by (intro conjI exI [of _ ?p] exI [of _ q]) (auto simp: e')
    next
      case ForIpAllowlist
      let ?e = "the (storeRow ForIpAllowlist clock t (hist r t) c t)" and ?q = "if te_ipAllowlist e = None then clock else q"
      have e': "?e = \<lparr>te_status = te_status e, te_plan = te_plan e, te_ipAllowlist = Some (rowIpAllowlist (hist r t)),
          te_trialEndsAt = te_trialEndsAt e, te_exp = clock + TTL_MS\<rparr>"
        by (simp add: storeRow_def setCachedTenantIpAllowlist_def Some)
      have later: "te_ipAllowlist e \<noteq> None \<Longrightarrow> clock \<le> q + lat"
        using pq(4) x unfolding pendingBefore_def ForIpAllowlist by fastforce
      have "timed lat \<sigma> p ?q ?e" if "timed lat \<sigma> p q e" for \<sigma>
        using that soon later x(5) TTL_pos unfolding timed_def e' by (cases "te_plan e"; cases "te_ipAllowlist e"; simp; linarith?)
      moreover have "readStatus hist lat t \<sigma> ?e" if "readStatus hist lat t \<sigma> e" for \<sigma>
        using that unfolding readStatus_def e' by simp
      ultimately show ?thesis
        unfolding entryInv_def ForIpAllowlist using exp pq all_pending
        by (intro conjI exI [of _ p] exI [of _ ?q]) (auto simp: e')
    qed
  qed
qed

lemma dropExpired_Some: "dropExpired now t c t' = Some e \<longleftrightarrow> c t' = Some e \<and> (t' = t \<longrightarrow> now \<le> te_exp e)"
  by (auto simp: dropExpired_def split: option.splits)

lemma storeRow_other: "t' \<noteq> t \<Longrightarrow> storeRow kind now t row c t' = c t'"
  by (simp add: storeRow_def setCachedTenantStatus_def setCachedTenantPlan_def setCachedTenantIpAllowlist_def split: lookup_kind.split)

lemma miss_absent:
  assumes "\<not> isHit kind now t c" "dropExpired now t c t = Some e"
  shows "(kind = ForPlan \<longrightarrow> te_plan e = None) \<and> (kind = ForIpAllowlist \<longrightarrow> te_ipAllowlist e = None)"
  using assms by (auto simp: isHit_def getCachedTenantPlan_def getCachedTenantIpAllowlist_def)

lemma in_diff1: "x \<in># M - {#q#} \<Longrightarrow> x \<in># M"
  by (rule in_diffD)

lemma gateInvI:
  assumes "\<And>x. x \<in># gs_reqs s \<Longrightarrow> gq_since x \<le> gs_clock s"
    "\<And>x r. x \<in># gs_reqs s \<Longrightarrow> gq_readAt x = Some r \<Longrightarrow> gq_since x \<le> r \<and> r \<le> gs_clock s"
    "\<And>t e. gs_cache s t = Some e \<Longrightarrow> entryInv hist lat (gs_clock s) (gs_reqs s) t e"
  shows "gateInv hist lat s"
  using assms by (simp add: gateInv_def)

lemma gateStep_inv:
  assumes "gateStep hist lat s s'" "gateInv hist lat s" "0 \<le> lat"
  shows "gateInv hist lat s'"
proof -
  have reqs: "\<And>x. x \<in># gs_reqs s \<Longrightarrow> gq_since x \<le> gs_clock s"
    "\<And>x r. x \<in># gs_reqs s \<Longrightarrow> gq_readAt x = Some r \<Longrightarrow> gq_since x \<le> r \<and> r \<le> gs_clock s"
    and ents: "\<And>t e. gs_cache s t = Some e \<Longrightarrow> entryInv hist lat (gs_clock s) (gs_reqs s) t e"
    using assms(2) by (auto simp: gateInv_def)
  show ?thesis
    using assms(1)
  proof cases
    case (gs_lookup kind t)
    let ?new = "\<lparr>gq_kind = kind, gq_tenant = t, gq_since = gs_clock s, gq_readAt = None\<rparr>"
    have "entryInv hist lat (gs_clock s) (gs_reqs s') t' e" if e: "dropExpired (gs_clock s) t (gs_cache s) t' = Some e" for t' e
    proof (cases "isHit kind (gs_clock s) t (gs_cache s)")
      case True
      then show ?thesis using e ents by (simp add: gs_lookup dropExpired_Some)
    next
      case False
      have joined: "x \<in># gs_reqs s \<or> gq_since x = gs_clock s \<and> (gq_tenant x = t' \<longrightarrow> gs_clock s \<le> te_exp e \<and>
          (gq_kind x = ForPlan \<longrightarrow> te_plan e = None) \<and> (gq_kind x = ForIpAllowlist \<longrightarrow> te_ipAllowlist e = None))"
        if "x \<in># gs_reqs s'" for x
        using that e miss_absent [OF False] False by (auto simp: gs_lookup dropExpired_Some)
      have "entryInv hist lat (gs_clock s) (gs_reqs s) t' e" using ents e by (simp add: dropExpired_Some)
      then show ?thesis by (rule entryInv_lookup) (rule joined)
    qed
    moreover have "gs_clock s' = gs_clock s" "gs_cache s' = dropExpired (gs_clock s) t (gs_cache s)" by (simp_all add: gs_lookup)
    moreover have "x \<in># gs_reqs s' \<Longrightarrow> x \<in># gs_reqs s \<or> x = ?new" for x by (auto simp: gs_lookup split: if_splits)
    ultimately show ?thesis
      by (intro gateInvI) (use reqs in \<open>fastforce, fastforce, simp\<close>)
  next
    case (gs_read q)
    let ?q = "q\<lparr>gq_readAt := Some (gs_clock s)\<rparr>"
    have q: "gq_since ?q \<le> gs_clock s" using reqs(1) [OF gs_read(2)] by simp
    have q_or: "x \<in># gs_reqs s' \<Longrightarrow> x = ?q \<or> x \<in># gs_reqs s" for x by (auto simp: gs_read dest: in_diff1)
    have ents': "entryInv hist lat (gs_clock s) (gs_reqs s') t e" if "gs_cache s t = Some e" for t e
    proof (rule entryInv_fewer [OF ents [OF that] _ order_refl])
      fix x assume "x \<in># gs_reqs s'"
      moreover have "sameLookup ?q q" by (simp add: sameLookup_def)
      ultimately show "\<exists>y. y \<in># gs_reqs s \<and> sameLookup x y" using q_or gs_read(2) sameLookup_refl by blast
    qed
    have same: "gs_clock s' = gs_clock s" "gs_cache s' = gs_cache s" by (simp_all add: gs_read(1))
    show ?thesis
    proof (rule gateInvI)
      fix x assume "x \<in># gs_reqs s'"
      then consider "x = ?q" | "x \<in># gs_reqs s" using q_or by blast
      then show "gq_since x \<le> gs_clock s'" "gq_readAt x = Some r \<Longrightarrow> gq_since x \<le> r \<and> r \<le> gs_clock s'" for r
        unfolding same using q reqs by (cases; simp)+
    qed (use ents' in \<open>simp add: same\<close>)
  next
    case (gs_store q r)
    have stored: "entryInv hist lat (gs_clock s) (gs_reqs s) t e"
      if "storeRow (gq_kind q) (gs_clock s) (gq_tenant q) (hist r (gq_tenant q)) (gs_cache s) t = Some e" for t e
    proof (cases "t = gq_tenant q")
      case True
      have "gq_since q \<le> r" "r \<le> gs_clock s" using reqs(2) [OF gs_store(2,3)] by simp_all
      with entryInv_store [OF ents gs_store(2) refl refl gs_store(4) assms(3) _ _ reqs(1), where r = r]
      have "entryInv hist lat (gs_clock s) (gs_reqs s) (gq_tenant q)
        (the (storeRow (gq_kind q) (gs_clock s) (gq_tenant q) (hist r (gq_tenant q)) (gs_cache s) (gq_tenant q)))" by blast
      then show ?thesis using that by (simp add: True)
    next
      case False
      then show ?thesis using that ents by (simp add: storeRow_other)
    qed
    have "entryInv hist lat (gs_clock s) (gs_reqs s') t e" if "gs_cache s' t = Some e" for t e
    proof (rule entryInv_fewer [where reqs = "gs_reqs s" and clock = "gs_clock s"])
      show "entryInv hist lat (gs_clock s) (gs_reqs s) t e" using that stored by (simp add: gs_store(1))
      show "\<exists>y. y \<in># gs_reqs s \<and> sameLookup x y" if "x \<in># gs_reqs s'" for x
        using that sameLookup_refl by (auto simp: gs_store(1) dest: in_diff1)
    qed simp
    then show ?thesis using reqs by (auto simp: gateInv_def gs_store(1) dest: in_diff1)
  next
    case (gs_give_up q)
    have "entryInv hist lat (gs_clock s) (gs_reqs s') t e" if "gs_cache s t = Some e" for t e
    proof (rule entryInv_fewer [OF ents [OF that] _ order_refl])
      show "\<exists>y. y \<in># gs_reqs s \<and> sameLookup x y" if "x \<in># gs_reqs s'" for x
        using that sameLookup_refl by (auto simp: gs_give_up dest: in_diff1)
    qed
    then show ?thesis using reqs by (auto simp: gateInv_def gs_give_up dest: in_diff1)
  next
    case (gs_invalidate t)
    then show ?thesis using assms(2) by (auto simp: gateInv_def invalidateTenantStatusCache_def split: if_splits)
  next
    case (gs_later t)
    have "entryInv hist lat t (gs_reqs s) t' e" if "gs_cache s t' = Some e" for t' e
      by (rule entryInv_fewer [OF ents [OF that]]) (use gs_later sameLookup_refl in blast)+
    then show ?thesis using reqs gs_later by (fastforce simp: gateInv_def)
  qed
qed

definition gateStart :: "gate_sys \<Rightarrow> bool" where
  "gateStart s = (gs_cache s = Map.empty \<and> gs_reqs s = {#})"

lemma gate_reachable:
  assumes "(gateStep hist lat)\<^sup>*\<^sup>* s0 s" "gateStart s0" "0 \<le> lat"
  shows "gateInv hist lat s"
  using assms(1)
proof (induction rule: rtranclp_induct)
  case base
  then show ?case using assms(2) by (simp add: gateStart_def gateInv_def)
qed (use assms(3) gateStep_inv in blast)

lemma statusHit_Some:
  "statusHit now t c = Some v \<longleftrightarrow> (\<exists>e. c t = Some e \<and> now \<le> te_exp e \<and> te_trialEndsAt e = Some (snd v) \<and> te_status e = fst v)"
proof -
  have "statusHit now t c = (case dropExpired now t c t of None \<Rightarrow> None | Some e \<Rightarrow> map_option (Pair (te_status e)) (te_trialEndsAt e))"
    by (simp add: statusHit_def getCachedTenantStatus_def getCachedTenantTrialEndsAt_def split: option.split)
  moreover have "dropExpired now t c t = (case c t of None \<Rightarrow> None | Some e \<Rightarrow> if te_exp e < now then None else Some e)"
    by (simp add: dropExpired_def split: option.split)
  ultimately show ?thesis by (cases v) (auto split: option.splits)
qed

lemma hit_was_read:
  assumes "gateInv hist lat s" "statusHit (gs_clock s) t (gs_cache s) = Some v" "0 \<le> lat"
  shows "\<exists>\<rho>. gs_clock s \<le> \<rho> + 3 * TTL_MS + 5 * lat \<and> v = rowStatus (hist \<rho> t)"
proof -
  obtain e where e: "gs_cache s t = Some e" "gs_clock s \<le> te_exp e" "te_trialEndsAt e = Some (snd v)" "te_status e = fst v"
    using assms(2) by (auto simp: statusHit_Some)
  have "entryInv hist lat (gs_clock s) (gs_reqs s) t e" using assms(1) e(1) by (simp add: gateInv_def)
  then obtain p q \<sigma> where s: "readStatus hist lat t \<sigma> e" "timed lat \<sigma> p q e"
    using e(3) unfolding entryInv_def by auto
  have "te_exp e \<le> \<sigma> + 3 * TTL_MS + 4 * lat"
    using s(2) assms(3) TTL_pos unfolding timed_def by (auto split: if_splits)
  moreover obtain \<rho> where "\<sigma> \<le> \<rho> + lat" "te_status e = fst (rowStatus (hist \<rho> t))" "te_trialEndsAt e = Some (snd (rowStatus (hist \<rho> t)))"
    using s(1) unfolding readStatus_def by blast
  ultimately show ?thesis using e by (intro exI [of _ \<rho>]) (auto simp: prod_eq_iff)
qed

text \<open>
  C39. A suspension, a deletion or a reactivation reaches every server even where no invalidation does: once a tenant
  has had a status for ninety seconds and five times the time a look-up takes, every server uses that status, and with
  it the refusal that goes with it. The ninety seconds are three times the life of an entry, because plan and address
  list renew the deadline of a status that is already there.
\<close>

theorem status_takes_effect:
  assumes reach: "(gateStep hist lat)\<^sup>*\<^sup>* s0 s" "gateStart s0" "0 \<le> lat"
    and new: "\<And>\<rho>. changed \<le> \<rho> \<Longrightarrow> rowStatus (hist \<rho> t) = v" and late: "changed + 90000 + 5 * lat < gs_clock s"
  shows "resolveTenantStatus (gs_clock s) t (hist (gs_clock s) t) (gs_cache s) = v \<and>
    (fst v \<in> {''suspended'', ''deleted'', ''purged''} \<longrightarrow>
      tenantRefusal (gs_clock s) (resolveTenantStatus (gs_clock s) t (hist (gs_clock s) t) (gs_cache s)) \<noteq> None)"
proof -
  have "resolveTenantStatus (gs_clock s) t (hist (gs_clock s) t) (gs_cache s) = v"
  proof (cases "statusHit (gs_clock s) t (gs_cache s)")
    case None
    then show ?thesis using new [of "gs_clock s"] late reach(3) by (simp add: resolveTenantStatus_def)
  next
    case (Some w)
    then obtain \<rho> where "gs_clock s \<le> \<rho> + 3 * TTL_MS + 5 * lat" "w = rowStatus (hist \<rho> t)"
      using hit_was_read gate_reachable [OF reach] reach(3) by blast
    then show ?thesis using new [of \<rho>] late Some by (simp add: resolveTenantStatus_def TTL_MS_def)
  qed
  then show ?thesis by (auto simp: tenantRefusal_def)
qed

section \<open>Witnesses\<close>

text \<open>A run as a list of actions, each checked against its step.\<close>

datatype gate_act = AcLookup lookup_kind string | AcRead gate_req | AcStore gate_req | AcLater date

fun gateAct :: "(date \<Rightarrow> string \<Rightarrow> tenants_row option) \<Rightarrow> int \<Rightarrow> gate_act \<Rightarrow> gate_sys \<Rightarrow> gate_sys option" where
  "gateAct hist lat (AcLookup kind t) s = Some (s\<lparr>gs_cache := dropExpired (gs_clock s) t (gs_cache s),
      gs_reqs := (if isHit kind (gs_clock s) t (gs_cache s) then gs_reqs s
        else add_mset \<lparr>gq_kind = kind, gq_tenant = t, gq_since = gs_clock s, gq_readAt = None\<rparr> (gs_reqs s))\<rparr>)"
| "gateAct hist lat (AcRead q) s =
     (if q \<in># gs_reqs s \<and> gq_readAt q = None
      then Some (s\<lparr>gs_reqs := add_mset (q\<lparr>gq_readAt := Some (gs_clock s)\<rparr>) (gs_reqs s - {#q#})\<rparr>) else None)"
| "gateAct hist lat (AcStore q) s =
     (case gq_readAt q of None \<Rightarrow> None
      | Some r \<Rightarrow> if q \<in># gs_reqs s \<and> gs_clock s \<le> gq_since q + lat
          then Some (s\<lparr>gs_cache := storeRow (gq_kind q) (gs_clock s) (gq_tenant q) (hist r (gq_tenant q)) (gs_cache s),
            gs_reqs := gs_reqs s - {#q#}\<rparr>) else None)"
| "gateAct hist lat (AcLater t) s = (if gs_clock s \<le> t then Some (s\<lparr>gs_clock := t\<rparr>) else None)"

fun gateRun :: "(date \<Rightarrow> string \<Rightarrow> tenants_row option) \<Rightarrow> int \<Rightarrow> gate_act list \<Rightarrow> gate_sys \<Rightarrow> gate_sys option" where
  "gateRun hist lat [] s = Some s"
| "gateRun hist lat (a # as1) s = Option.bind (gateAct hist lat a s) (gateRun hist lat as1)"

lemma gateAct_step: "gateAct hist lat a s = Some s' \<Longrightarrow> gateStep hist lat s s'"
proof (cases a)
  case (AcLookup kind t)
  assume "gateAct hist lat a s = Some s'"
  then show "gateStep hist lat s s'" using gs_lookup [of hist lat s kind t] by (simp only: AcLookup gateAct.simps option.inject)
qed (use gs_read gs_store gs_later in \<open>auto split: if_splits option.splits\<close>)

lemma gateRun_reachable: "gateRun hist lat acts s = Some s' \<Longrightarrow> (gateStep hist lat)\<^sup>*\<^sup>* s s'"
  by (induction acts arbitrary: s) (auto simp: bind_eq_Some_conv dest: gateAct_step intro: converse_rtranclp_into_rtranclp)

definition demoWhole :: "lookup_kind \<Rightarrow> date \<Rightarrow> gate_act list" where
  "demoWhole kind t = (let q = \<lparr>gq_kind = kind, gq_tenant = ''t'', gq_since = t, gq_readAt = None\<rparr> in
     [AcLater t, AcLookup kind ''t'', AcRead q, AcStore (q\<lparr>gq_readAt := Some t\<rparr>)])"

definition demoTenant :: "date \<Rightarrow> string \<Rightarrow> tenants_row option" where
  "demoTenant now k = Some \<lparr>tn_id = k, tn_name = ''T'', tn_slug = ''t'', tn_plan = ''standard'', tn_zitadelOrgId = None,
     tn_status = (if now \<le> 0 then ''active'' else ''suspended''), tn_config = [], tn_suspendedAt = None,
     tn_deletionScheduledAt = None, tn_trialEndsAt = None, tn_logo = None\<rparr>"

definition demoGateStart :: gate_sys where
  "demoGateStart = \<lparr>gs_clock = 0, gs_cache = Map.empty, gs_reqs = {#}\<rparr>"

definition demoEntry :: "date \<Rightarrow> string option \<Rightarrow> string list option \<Rightarrow> tenant_entry" where
  "demoEntry expires plan addresses = \<lparr>te_status = ''active'', te_plan = plan, te_ipAllowlist = addresses, te_trialEndsAt = Some None, te_exp = expires\<rparr>"

text \<open>The status is stored at 0, the plan just before that entry ends, the addresses just before the renewed entry ends.\<close>

lemma demo_first: "gateRun demoTenant 0 (demoWhole ForStatus 0) demoGateStart =
    Some (demoGateStart\<lparr>gs_cache := [''t'' \<mapsto> demoEntry 30000 None None]\<rparr>)"
  by (simp add: demoWhole_def demoGateStart_def Let_def isHit_def statusHit_def getCachedTenantStatus_def getCachedTenantTrialEndsAt_def
      dropExpired_def storeRow_def setCachedTenantStatus_def rowStatus_def demoTenant_def TTL_MS_def demoEntry_def)

lemma demo_second: "gateRun demoTenant 0 (demoWhole ForPlan 29999) (demoGateStart\<lparr>gs_cache := [''t'' \<mapsto> demoEntry 30000 None None]\<rparr>) =
    Some (demoGateStart\<lparr>gs_clock := 29999, gs_cache := [''t'' \<mapsto> demoEntry 59999 (Some ''standard'') None]\<rparr>)"
  by (simp add: demoWhole_def demoGateStart_def Let_def isHit_def getCachedTenantPlan_def
      dropExpired_def storeRow_def setCachedTenantPlan_def rowPlan_def demoTenant_def TTL_MS_def demoEntry_def)

lemma demo_third: "gateRun demoTenant 0 (demoWhole ForIpAllowlist 59998)
      (demoGateStart\<lparr>gs_clock := 29999, gs_cache := [''t'' \<mapsto> demoEntry 59999 (Some ''standard'') None]\<rparr>) =
    Some (demoGateStart\<lparr>gs_clock := 59998, gs_cache := [''t'' \<mapsto> demoEntry 89998 (Some ''standard'') (Some [])]\<rparr>)"
  by (simp add: demoWhole_def demoGateStart_def Let_def isHit_def getCachedTenantIpAllowlist_def
      dropExpired_def storeRow_def setCachedTenantIpAllowlist_def rowIpAllowlist_def objGet_def objectPrototypeKeys_def demoTenant_def TTL_MS_def demoEntry_def)

lemma demo_gate_reach:
  assumes "59998 \<le> now"
  shows "(gateStep demoTenant 0)\<^sup>*\<^sup>* demoGateStart
    (demoGateStart\<lparr>gs_clock := now, gs_cache := [''t'' \<mapsto> demoEntry 89998 (Some ''standard'') (Some [])]\<rparr>)"
proof -
  let ?c = "[''t'' \<mapsto> demoEntry 89998 (Some ''standard'') (Some [])]"
  have "gateStep demoTenant 0 (demoGateStart\<lparr>gs_clock := 59998, gs_cache := ?c\<rparr>)
      ((demoGateStart\<lparr>gs_clock := 59998, gs_cache := ?c\<rparr>)\<lparr>gs_clock := now\<rparr>)"
    by (rule gs_later) (simp add: assms)
  moreover have "(demoGateStart\<lparr>gs_clock := 59998, gs_cache := ?c\<rparr>)\<lparr>gs_clock := now\<rparr> = demoGateStart\<lparr>gs_clock := now, gs_cache := ?c\<rparr>"
    by (simp add: demoGateStart_def)
  ultimately have "gateStep demoTenant 0 (demoGateStart\<lparr>gs_clock := 59998, gs_cache := ?c\<rparr>) (demoGateStart\<lparr>gs_clock := now, gs_cache := ?c\<rparr>)"
    by (simp only:)
  moreover have "(gateStep demoTenant 0)\<^sup>*\<^sup>* demoGateStart (demoGateStart\<lparr>gs_clock := 59998, gs_cache := ?c\<rparr>)"
    by (rule rtranclp_trans [OF gateRun_reachable [OF demo_first] rtranclp_trans [OF gateRun_reachable [OF demo_second] gateRun_reachable [OF demo_third]]])
  ultimately show ?thesis by (rule rtranclp.rtrancl_into_rtrancl [rotated])
qed

text \<open>So a tenant that was suspended after the first millisecond is still let in after almost ninety seconds.\<close>

lemma suspended_tenant_let_in:
  "\<exists>s. (gateStep demoTenant 0)\<^sup>*\<^sup>* demoGateStart s \<and> gs_clock s = 89998 \<and>
     tenantRefusal 89998 (resolveTenantStatus 89998 ''t'' (demoTenant 89998 ''t'') (gs_cache s)) = None \<and>
     (\<forall>t > 0. tenantRefusal t (rowStatus (demoTenant t ''t'')) = Some TENANT_SUSPENDED)"
proof (intro exI conjI)
  show "(gateStep demoTenant 0)\<^sup>*\<^sup>* demoGateStart
      (demoGateStart\<lparr>gs_clock := 89998, gs_cache := [''t'' \<mapsto> demoEntry 89998 (Some ''standard'') (Some [])]\<rparr>)"
    by (rule demo_gate_reach) simp
qed (simp_all add: resolveTenantStatus_def statusHit_def getCachedTenantStatus_def getCachedTenantTrialEndsAt_def dropExpired_def
    demoEntry_def tenantRefusal_def isTenantTrialActive_def rowStatus_def demoTenant_def)

theorem status_takes_effect_witness:
  "resolveTenantStatus 90002 ''t'' (demoTenant 90002 ''t'') [''t'' \<mapsto> demoEntry 89998 (Some ''standard'') (Some [])] = (''suspended'', None)"
proof -
  have "gateStart demoGateStart" by (simp add: gateStart_def demoGateStart_def)
  moreover have "\<And>\<rho>. 1 \<le> \<rho> \<Longrightarrow> rowStatus (demoTenant \<rho> ''t'') = (''suspended'', None)" by (simp add: rowStatus_def demoTenant_def)
  ultimately show ?thesis
    using status_takes_effect [OF demo_gate_reach [of 90002], of 1 "''t''" "(''suspended'', None)"] by simp
qed

end
