(* ===== verification/TenantLifecycle.thy ===== *)
theory TenantLifecycle
  imports TenantCache
begin

text \<open>
  The life of a tenant (\<open>apps/api/src/lib/tenant-lifecycle.ts\<close> and the status changes of
  \<open>apps/worker/src/tenant-purge.ts\<close>): provisioned, suspended, reactivated, scheduled for deletion and purged. A call
  is a sequence of transactions: the change of the status is one conditional update, the purge job and the audit entry
  follow in steps of their own, and the steps of any number of calls interleave. A call may fail or die before any step.

  Parameters: new identifiers, the clock, the bounds of the retention settings and the installer of the modules. The
  invalidation of the cache is theory \<open>TenantCache\<close>; the metadata of audit entries is left out.
\<close>

section \<open>Data\<close>

datatype TenantLifecycleError =
    TENANT_NOT_FOUND
  | INVALID_TRANSITION string
  | SLUG_TAKEN
  | InvalidInput

text \<open>Snapshots are lists of keys and texts.\<close>

record tl_audit_row =
  ta_tenantId :: string
  ta_actorId :: string
  ta_actorType :: string
  ta_action :: string
  ta_before :: "(string \<times> string) list option"
  ta_after :: "(string \<times> string) list"

record purge_job =
  pj_id :: string
  pj_tenantId :: string
  pj_delay :: int

record tl_world =
  tw_tenants :: "tenants_row list"
  tw_audit :: "tl_audit_row list"
  tw_jobs :: "purge_job list"

record retention_bounds =
  rb_noiseDays :: "int \<times> int"
  rb_commentDays :: "int \<times> int"
  rb_evidenceDays :: "int \<times> int"

record tl_env =
  te_now :: date
  te_newId :: string
  te_bounds :: retention_bounds
  te_installed :: "string list \<times> string list"

record ProvisionTenantInput =
  pt_name :: string
  pt_slug :: string
  pt_plan :: "string option"
  pt_config :: "jsobj option"

definition DEFAULT_DELETION_DELAY_DAYS :: int where "DEFAULT_DELETION_DELAY_DAYS = 30"

section \<open>Provisioning\<close>

definition optionalField :: "(jsval \<Rightarrow> bool) \<Rightarrow> jsobj \<Rightarrow> string \<Rightarrow> bool" where
  "optionalField ok config k = (case map_of config k of None \<Rightarrow> True | Some JUndefined \<Rightarrow> True | Some v \<Rightarrow> ok v)"

definition intWithin :: "int \<times> int \<Rightarrow> jsval \<Rightarrow> bool" where
  "intWithin bounds v = (case v of JNum r \<Rightarrow> r = of_int \<lfloor>r\<rfloor> \<and> of_int (fst bounds) \<le> r \<and> r \<le> of_int (snd bounds) | _ \<Rightarrow> False)"

definition validTenantConfig :: "retention_bounds \<Rightarrow> jsobj \<Rightarrow> bool" where
  "validTenantConfig b config =
     (optionalField (intWithin (rb_noiseDays b)) config ''retention_days'' \<and>
      optionalField (intWithin (rb_commentDays b)) config ''retention_comment_days'' \<and>
      optionalField (intWithin (rb_evidenceDays b)) config ''retention_evidence_days'' \<and>
      optionalField (\<lambda>v. case v of JBool _ \<Rightarrow> True | _ \<Rightarrow> False) config ''retention_hold'' \<and>
      optionalField (\<lambda>v. case v of JNum r \<Rightarrow> r = of_int \<lfloor>r\<rfloor> \<and> 0 < r | _ \<Rightarrow> False) config ''rate_limit_per_min'')"

definition isSlugChar :: "char \<Rightarrow> bool" where
  "isSlugChar c = (let n = of_char c :: nat in (97 \<le> n \<and> n \<le> 122) \<or> (48 \<le> n \<and> n \<le> 57) \<or> n = 45)"

definition parseProvision :: "retention_bounds \<Rightarrow> ProvisionTenantInput \<Rightarrow> bool" where
  "parseProvision b input =
     (1 \<le> length (pt_name input) \<and> length (pt_name input) \<le> 255 \<and>
      1 \<le> length (pt_slug input) \<and> length (pt_slug input) \<le> 63 \<and> list_all isSlugChar (pt_slug input) \<and>
      dflt ''standard'' (pt_plan input) \<in> {''standard'', ''professional'', ''enterprise''} \<and>
      (case pt_config input of None \<Rightarrow> True | Some config \<Rightarrow> validTenantConfig b config))"

definition provisionedRow :: "tl_env \<Rightarrow> ProvisionTenantInput \<Rightarrow> tenants_row" where
  "provisionedRow env input =
     \<lparr>tn_id = te_newId env, tn_name = pt_name input, tn_slug = pt_slug input, tn_plan = dflt ''standard'' (pt_plan input),
      tn_zitadelOrgId = None, tn_status = ''active'', tn_config = dflt [] (pt_config input), tn_suspendedAt = None,
      tn_deletionScheduledAt = None, tn_trialEndsAt = None, tn_logo = None\<rparr>"

section \<open>Changes of the status\<close>

definition diagnoseNoUpdate :: "string \<Rightarrow> tl_world \<Rightarrow> TenantLifecycleError" where
  "diagnoseNoUpdate tenantId w =
     (case select1 (\<lambda>r. tn_id r = tenantId) (tw_tenants w) of None \<Rightarrow> TENANT_NOT_FOUND | Some r \<Rightarrow> INVALID_TRANSITION (tn_status r))"

text \<open>\<open>UPDATE ... WHERE id = .. AND status IN (..) RETURNING id\<close>\<close>

definition conditionalUpdate :: "string \<Rightarrow> string list \<Rightarrow> (tenants_row \<Rightarrow> tenants_row) \<Rightarrow> tl_world \<Rightarrow> tl_world option" where
  "conditionalUpdate tenantId allowed f w =
     (let hit = (\<lambda>r. tn_id r = tenantId \<and> tn_status r \<in> set allowed) in
      if list_ex hit (tw_tenants w) then Some (w\<lparr>tw_tenants := updateW hit f (tw_tenants w)\<rparr>) else None)"

definition loadForDeletion :: "string \<Rightarrow> tl_world \<Rightarrow> TenantLifecycleError + string" where
  "loadForDeletion tenantId w =
     (case select1 (\<lambda>r. tn_id r = tenantId) (tw_tenants w) of
        None \<Rightarrow> Inl TENANT_NOT_FOUND
      | Some r \<Rightarrow> if tn_status r \<in> {''active'', ''suspended''} then Inr (tn_status r) else Inl (INVALID_TRANSITION (tn_status r)))"

definition purgeJob :: "string \<Rightarrow> int \<Rightarrow> purge_job" where
  "purgeJob tenantId delayMs = \<lparr>pj_id = ''tenant-purge-'' @ tenantId, pj_tenantId = tenantId, pj_delay = delayMs\<rparr>"

definition addPurgeJob :: "purge_job \<Rightarrow> tl_world \<Rightarrow> tl_world" where
  "addPurgeJob j w = (if list_ex (\<lambda>k. pj_id k = pj_id j) (tw_jobs w) then w else w\<lparr>tw_jobs := tw_jobs w @ [j]\<rparr>)"

section \<open>The calls, step by step\<close>

datatype tl_outcome = Provisioned string string "string list \<times> string list" | Changed | Scheduled date | PurgeEnded

text \<open>
  A phase is named for the transaction or queue operation that comes next; \<open>TpAudit\<close> and \<open>TpQueue\<close> carry what follows
  them. \<open>TpFailed\<close> keeps what the call had left to do when it failed.
\<close>

datatype tl_phase =
    TpProvision ProvisionTenantInput
  | TpInstall string string
  | TpSuspend
  | TpReactivate
  | TpDiagnose
  | TpDelete "int option"
  | TpDeleteWrite string int
  | TpPurge
  | TpPurgeFlip
  | TpQueue purge_job tl_phase
  | TpAudit tl_audit_row tl_phase
  | TpDone "TenantLifecycleError + tl_outcome"
  | TpFailed tl_phase

record tl_call =
  lc_tenantId :: string
  lc_actorId :: string
  lc_phase :: tl_phase

definition userEntry :: "string \<Rightarrow> string \<Rightarrow> string \<Rightarrow> (string \<times> string) list option \<Rightarrow> (string \<times> string) list \<Rightarrow> tl_audit_row" where
  "userEntry tenantId actorId action before after =
     \<lparr>ta_tenantId = tenantId, ta_actorId = actorId, ta_actorType = ''user'', ta_action = action, ta_before = before, ta_after = after\<rparr>"

definition statusEntry :: "string \<Rightarrow> string \<Rightarrow> string \<Rightarrow> string \<Rightarrow> tl_audit_row" where
  "statusEntry tenantId actorId before after =
     userEntry tenantId actorId ''transitioned'' (Some [(''status'', before)]) [(''status'', after)]"

definition provisionTenant :: "tl_env \<Rightarrow> string \<Rightarrow> ProvisionTenantInput \<Rightarrow> tl_world \<Rightarrow> tl_phase \<times> tl_world" where
  "provisionTenant env actorId input w =
     (if \<not> parseProvision (te_bounds env) input then (TpDone (Inl InvalidInput), w)
      else if list_ex (\<lambda>r. tn_slug r = pt_slug input) (tw_tenants w) then (TpDone (Inl SLUG_TAKEN), w)
      else (TpAudit (userEntry (te_newId env) actorId ''created'' None
              [(''name'', pt_name input), (''slug'', pt_slug input), (''plan'', dflt ''standard'' (pt_plan input))])
              (TpInstall (te_newId env) (pt_slug input)),
            w\<lparr>tw_tenants := tw_tenants w @ [provisionedRow env input]\<rparr>))"

definition suspendTenant :: "tl_env \<Rightarrow> string \<Rightarrow> string \<Rightarrow> tl_world \<Rightarrow> tl_phase \<times> tl_world" where
  "suspendTenant env tenantId actorId w =
     (case conditionalUpdate tenantId [''active''] (\<lambda>r. r\<lparr>tn_status := ''suspended'', tn_suspendedAt := Some (te_now env)\<rparr>) w of
        None \<Rightarrow> (TpDiagnose, w)
      | Some w' \<Rightarrow> (TpAudit (statusEntry tenantId actorId ''active'' ''suspended'') (TpDone (Inr Changed)), w'))"

definition reactivateTenant :: "string \<Rightarrow> string \<Rightarrow> tl_world \<Rightarrow> tl_phase \<times> tl_world" where
  "reactivateTenant tenantId actorId w =
     (case conditionalUpdate tenantId [''suspended''] (\<lambda>r. r\<lparr>tn_status := ''active'', tn_suspendedAt := None\<rparr>) w of
        None \<Rightarrow> (TpDiagnose, w)
      | Some w' \<Rightarrow> (TpAudit (statusEntry tenantId actorId ''suspended'' ''active'') (TpDone (Inr Changed)), w'))"

text \<open>The second transaction of \<open>scheduleTenantDeletion\<close>, with the status the first one loaded.\<close>

definition deleteLoaded :: "tl_env \<Rightarrow> string \<Rightarrow> string \<Rightarrow> string \<Rightarrow> int \<Rightarrow> tl_world \<Rightarrow> tl_phase \<times> tl_world" where
  "deleteLoaded env tenantId actorId loadedStatus delayDays w =
     (let delayMs = delayDays * 24 * 60 * 60 * 1000; deletionScheduledAt = te_now env + delayMs in
      case conditionalUpdate tenantId [''active'', ''suspended'']
          (\<lambda>r. r\<lparr>tn_status := ''deleted'', tn_deletionScheduledAt := Some deletionScheduledAt\<rparr>) w of
        None \<Rightarrow> (TpDone (Inl (INVALID_TRANSITION loadedStatus)), w)
      | Some w' \<Rightarrow>
          (TpQueue (purgeJob tenantId delayMs)
             (TpAudit (userEntry tenantId actorId ''deleted'' (Some [(''status'', loadedStatus)])
                         [(''status'', ''deleted''), (''deletionScheduledAt'', toISOString deletionScheduledAt)])
                (TpDone (Inr (Scheduled deletionScheduledAt)))), w'))"

text \<open>The job looks at the status first and ends early unless the tenant is still deleted.\<close>

definition startPurge :: "string \<Rightarrow> tl_world \<Rightarrow> tl_phase" where
  "startPurge tenantId w =
     (case select1 (\<lambda>r. tn_id r = tenantId) (tw_tenants w) of
        None \<Rightarrow> TpDone (Inr PurgeEnded)
      | Some r \<Rightarrow> if tn_status r = ''deleted'' then TpPurgeFlip else TpDone (Inr PurgeEnded))"

text \<open>At its end the row becomes a tombstone; the entry is written whether or not the update met the row.\<close>

definition markPurged :: "string \<Rightarrow> tl_world \<Rightarrow> tl_phase \<times> tl_world" where
  "markPurged tenantId w =
     (TpAudit \<lparr>ta_tenantId = tenantId, ta_actorId = ''system'', ta_actorType = ''system'', ta_action = ''purge.completed'',
          ta_before = None, ta_after = [(''status'', ''purged'')]\<rparr> (TpDone (Inr PurgeEnded)),
      dflt w (conditionalUpdate tenantId [''deleted''] (\<lambda>r. r\<lparr>tn_status := ''purged'', tn_logo := None\<rparr>) w))"

fun tlAdvance :: "tl_env \<Rightarrow> tl_call \<Rightarrow> tl_phase \<Rightarrow> tl_world \<Rightarrow> tl_phase \<times> tl_world" where
  "tlAdvance env c (TpProvision input) w = provisionTenant env (lc_actorId c) input w"
| "tlAdvance env c (TpInstall newId slug) w = (TpDone (Inr (Provisioned newId slug (te_installed env))), w)"
| "tlAdvance env c TpSuspend w = suspendTenant env (lc_tenantId c) (lc_actorId c) w"
| "tlAdvance env c TpReactivate w = reactivateTenant (lc_tenantId c) (lc_actorId c) w"
| "tlAdvance env c TpDiagnose w = (TpDone (Inl (diagnoseNoUpdate (lc_tenantId c) w)), w)"
| "tlAdvance env c (TpDelete delayDays) w =
     (case loadForDeletion (lc_tenantId c) w of
        Inl e \<Rightarrow> TpDone (Inl e) | Inr status \<Rightarrow> TpDeleteWrite status (dflt DEFAULT_DELETION_DELAY_DAYS delayDays), w)"
| "tlAdvance env c (TpDeleteWrite status delayDays) w = deleteLoaded env (lc_tenantId c) (lc_actorId c) status delayDays w"
| "tlAdvance env c TpPurge w = (startPurge (lc_tenantId c) w, w)"
| "tlAdvance env c TpPurgeFlip w = markPurged (lc_tenantId c) w"
| "tlAdvance env c (TpQueue j rest) w = (rest, addPurgeJob j w)"
| "tlAdvance env c (TpAudit row rest) w = (rest, w\<lparr>tw_audit := tw_audit w @ [row]\<rparr>)"
| "tlAdvance env c (TpDone r) w = (TpDone r, w)"
| "tlAdvance env c (TpFailed p) w = (TpFailed p, w)"

fun startPhase :: "tl_phase \<Rightarrow> bool" where
  "startPhase (TpProvision _) = True"
| "startPhase TpSuspend = True"
| "startPhase TpReactivate = True"
| "startPhase (TpDelete _) = True"
| "startPhase _ = False"

section \<open>Runs\<close>

text \<open>The statuses the tenants have had are kept beside the world: what a committed step changed in the table.\<close>

record tl_sys =
  ty_world :: tl_world
  ty_calls :: "tl_call list"
  ty_history :: "(string \<times> string) list"

definition statusChanges :: "tl_world \<Rightarrow> tl_world \<Rightarrow> (string \<times> string) list" where
  "statusChanges w w' = map (\<lambda>r. (tn_id r, tn_status r))
     (filter (\<lambda>r. list_all (\<lambda>r0. tn_id r0 = tn_id r \<longrightarrow> tn_status r0 \<noteq> tn_status r) (tw_tenants w)) (tw_tenants w'))"

definition tlCommit :: "tl_env \<Rightarrow> nat \<Rightarrow> tl_sys \<Rightarrow> tl_sys" where
  "tlCommit env i s =
     (let c = ty_calls s ! i; (p, w) = tlAdvance env c (lc_phase c) (ty_world s) in
      s\<lparr>ty_world := w, ty_calls := (ty_calls s)[i := c\<lparr>lc_phase := p\<rparr>], ty_history := ty_history s @ statusChanges (ty_world s) w\<rparr>)"

text \<open>The queue drops a finished job after a week: the tenant of a finished job is no longer waiting for its purge.\<close>

inductive tlStep :: "tl_sys \<Rightarrow> tl_sys \<Rightarrow> bool" where
  tl_call: "tlStep s (s\<lparr>ty_calls := ty_calls s @ [c]\<rparr>)" if "startPhase (lc_phase c)"
| tl_job: "tlStep s (s\<lparr>ty_calls := ty_calls s @ [c]\<rparr>)" if "lc_phase c = TpPurge" "j \<in> set (tw_jobs (ty_world s))" "lc_tenantId c = pj_tenantId j"
| tl_commit: "tlStep s (tlCommit env i s)" if "i < length (ty_calls s)" "te_newId env \<notin> tn_id ` set (tw_tenants (ty_world s))"
| tl_fail: "tlStep s (s\<lparr>ty_calls := (ty_calls s)[i := (ty_calls s ! i)\<lparr>lc_phase := TpFailed (lc_phase (ty_calls s ! i))\<rparr>]\<rparr>)"
    if "i < length (ty_calls s)"
| tl_job_gone: "tlStep s (s\<lparr>ty_world := (ty_world s)\<lparr>tw_jobs := filter (\<lambda>j. pj_tenantId j \<noteq> t) (tw_jobs (ty_world s))\<rparr>\<rparr>)"
    if "\<forall>r \<in> set (tw_tenants (ty_world s)). tn_id r = t \<longrightarrow> tn_status r \<noteq> ''deleted''"

definition statusEdge :: "string \<Rightarrow> string \<Rightarrow> bool" where
  "statusEdge a b = ((a, b) \<in> {(''active'', ''suspended''), (''suspended'', ''active''), (''active'', ''deleted''), (''suspended'', ''deleted''),
     (''deleted'', ''purged'')})"

text \<open>The statuses a tenant has had; those its audit log tells; those some call has still to tell, or will never tell.\<close>

definition trail :: "string \<Rightarrow> tl_sys \<Rightarrow> string list" where
  "trail t s = map snd (filter (\<lambda>h. fst h = t) (ty_history s))"

definition entryStatus :: "tl_audit_row \<Rightarrow> string" where
  "entryStatus a = (if ta_action a = ''created'' then ''active'' else dflt [] (map_of (ta_after a) ''status''))"

definition entriesOf :: "string \<Rightarrow> tl_audit_row list \<Rightarrow> string multiset" where
  "entriesOf t rows = mset (map entryStatus (filter (\<lambda>a. ta_tenantId a = t \<and> ta_action a \<noteq> ''purge.completed'') rows))"

fun owes :: "tl_phase \<Rightarrow> tl_audit_row list" where
  "owes (TpAudit row rest) = row # owes rest"
| "owes (TpQueue _ rest) = owes rest"
| "owes (TpFailed p) = owes p"
| "owes _ = []"

definition owed :: "string \<Rightarrow> tl_sys \<Rightarrow> string multiset" where
  "owed t s = sum_list (map (\<lambda>c. entriesOf t (owes (lc_phase c))) (ty_calls s))"

fun toQueue :: "tl_phase \<Rightarrow> purge_job list" where
  "toQueue (TpQueue j rest) = j # toQueue rest"
| "toQueue (TpAudit _ rest) = toQueue rest"
| "toQueue (TpFailed p) = toQueue p"
| "toQueue _ = []"

text \<open>A purge is on its way: queued, or still to be queued by the call that deleted the tenant.\<close>

definition purgeAwaited :: "string \<Rightarrow> tl_sys \<Rightarrow> bool" where
  "purgeAwaited t s =
     ((\<exists>j \<in> set (tw_jobs (ty_world s)). pj_tenantId j = t) \<or>
      (\<exists>c \<in> set (ty_calls s). \<exists>j \<in> set (toQueue (lc_phase c)). pj_tenantId j = t))"

definition lifeOk :: "tl_sys \<Rightarrow> tenants_row \<Rightarrow> bool" where
  "lifeOk s r =
     (trail (tn_id r) s \<noteq> [] \<and> hd (trail (tn_id r) s) = ''active'' \<and> last (trail (tn_id r) s) = tn_status r \<and>
      successively statusEdge (trail (tn_id r) s) \<and>
      (tn_status r = ''suspended'' \<longrightarrow> tn_suspendedAt r \<noteq> None) \<and>
      (tn_status r \<in> {''deleted'', ''purged''} \<longrightarrow> tn_deletionScheduledAt r \<noteq> None) \<and>
      (tn_status r = ''deleted'' \<longrightarrow> purgeAwaited (tn_id r) s))"

definition balanced :: "string \<Rightarrow> tl_sys \<Rightarrow> bool" where
  "balanced t s = (filter_mset (\<lambda>x. x \<noteq> ''purged'') (mset (trail t s)) = entriesOf t (tw_audit (ty_world s)) + owed t s)"

definition jobsOk :: "tl_sys \<Rightarrow> bool" where
  "jobsOk s = ((\<forall>j \<in> set (tw_jobs (ty_world s)). \<exists>t d. j = purgeJob t d) \<and>
     (\<forall>c \<in> set (ty_calls s). \<forall>j \<in> set (toQueue (lc_phase c)). \<exists>d. j = purgeJob (lc_tenantId c) d))"

definition tlInv :: "tl_sys \<Rightarrow> bool" where
  "tlInv s =
     (distinct (map tn_id (tw_tenants (ty_world s))) \<and> distinct (map tn_slug (tw_tenants (ty_world s))) \<and>
      fst ` set (ty_history s) \<subseteq> tn_id ` set (tw_tenants (ty_world s)) \<and>
      (\<forall>r \<in> set (tw_tenants (ty_world s)). lifeOk s r) \<and> jobsOk s \<and> (\<forall>t. balanced t s))"

section \<open>Lists of calls\<close>

lemma sum_replaced:
  "i < length xs \<Longrightarrow> sum_list (map g (xs[i := y])) + g (xs ! i) = sum_list (map g xs) + (g y :: 'a multiset)"
proof (induction xs arbitrary: i)
  case (Cons x xs)
  then show ?case by (cases i) (auto simp: ac_simps)
qed simp

lemma ex_replaced:
  assumes "\<exists>c \<in> set xs. P c" "i < length xs \<Longrightarrow> P (xs ! i) \<Longrightarrow> P y"
  shows "\<exists>c \<in> set (xs[i := y]). P c"
proof -
  obtain j where j: "j < length xs" "P (xs ! j)" using assms(1) by (auto simp: in_set_conv_nth)
  show ?thesis
  proof (cases "j = i")
    case True
    then show ?thesis using j assms(2) by (intro bexI [of _ y]) (auto intro: set_update_memI)
  next
    case False
    then have "xs[i := y] ! j = xs ! j" by simp
    then show ?thesis using j by (metis length_list_update nth_mem)
  qed
qed

lemma owed_replaced:
  "i < length (ty_calls s) \<Longrightarrow> owed t (s\<lparr>ty_calls := (ty_calls s)[i := c]\<rparr>) + entriesOf t (owes (lc_phase (ty_calls s ! i))) =
    owed t s + entriesOf t (owes (lc_phase c))"
  using sum_replaced [of i "ty_calls s" "\<lambda>c. entriesOf t (owes (lc_phase c))" c] by (simp add: owed_def)

lemma entriesOf_append: "entriesOf t (as @ bs) = entriesOf t as + entriesOf t bs"
  by (simp add: entriesOf_def)

lemma entriesOf_Cons: "entriesOf t (a # as) = entriesOf t [a] + entriesOf t as"
  by (simp add: entriesOf_def)

lemma entriesOf_Nil [simp]: "entriesOf t [] = {#}"
  by (simp add: entriesOf_def)

lemma entriesOf_one:
  "entriesOf t [userEntry t' actor action before after] =
    (if t = t' \<and> action \<noteq> ''purge.completed'' then {#if action = ''created'' then ''active'' else dflt [] (map_of after ''status'')#} else {#})"
  by (simp add: entriesOf_def userEntry_def entryStatus_def)

section \<open>Steps that change no status\<close>

lemma statusChanges_refl: "tw_tenants w' = tw_tenants w \<Longrightarrow> statusChanges w w' = []"
  by (auto simp: statusChanges_def filter_empty_conv list_all_iff)

lemma trail_same: "ty_history s' = ty_history s \<Longrightarrow> trail t s' = trail t s"
  by (simp add: trail_def)

lemma tlInv_quiet:
  assumes "tlInv s" "tw_tenants (ty_world s') = tw_tenants (ty_world s)" "ty_history s' = ty_history s" "jobsOk s'"
    and told: "\<And>t. entriesOf t (tw_audit (ty_world s')) + owed t s' = entriesOf t (tw_audit (ty_world s)) + owed t s"
    and jobs: "\<And>r. r \<in> set (tw_tenants (ty_world s)) \<Longrightarrow> tn_status r = ''deleted'' \<Longrightarrow> purgeAwaited (tn_id r) s \<Longrightarrow> purgeAwaited (tn_id r) s'"
  shows "tlInv s'"
proof -
  have "lifeOk s' r" if "r \<in> set (tw_tenants (ty_world s))" for r
    using assms(1) that jobs [OF that] unfolding tlInv_def lifeOk_def trail_same [OF assms(3)] by blast
  moreover have "balanced t s'" for t
    using assms(1) told [of t] by (simp add: tlInv_def balanced_def trail_same [OF assms(3)])
  ultimately show ?thesis using assms(1,4) unfolding tlInv_def assms(2,3) by blast
qed

section \<open>Steps that change one\<close>

lemma filter_single:
  "distinct (map k xs) \<Longrightarrow> x \<in> set xs \<Longrightarrow> (\<And>y. y \<in> set xs \<Longrightarrow> P y \<longleftrightarrow> k y = k x) \<Longrightarrow> filter P xs = [x]"
proof (induction xs)
  case (Cons a xs)
  show ?case
  proof (cases "a = x")
    case True
    then have "filter P xs = []" using Cons.prems(1,3) by (auto simp: filter_empty_conv image_iff)
    then show ?thesis using True Cons.prems(3) [of a] by simp
  next
    case False
    then have x: "x \<in> set xs" using Cons.prems(2) by simp
    then have "\<not> P a" using Cons.prems(1,3) by (force simp: image_iff)
    then show ?thesis using Cons.IH Cons.prems x by simp
  qed
qed simp

lemma conditionalUpdate_Some:
  assumes "conditionalUpdate t allowed f w = Some w'"
  shows "w' = w\<lparr>tw_tenants := updateW (\<lambda>r. tn_id r = t \<and> tn_status r \<in> set allowed) f (tw_tenants w)\<rparr>"
    "\<exists>r \<in> set (tw_tenants w). tn_id r = t \<and> tn_status r \<in> set allowed"
  using assms by (auto simp: conditionalUpdate_def Let_def list_ex_iff split: if_splits)

lemma same_tenant: "distinct (map tn_id rows) \<Longrightarrow> r \<in> set rows \<Longrightarrow> r' \<in> set rows \<Longrightarrow> tn_id r = tn_id r' \<Longrightarrow> r = r'"
  by (auto simp: distinct_map dest: inj_onD)

lemma statusChanges_update:
  assumes up: "conditionalUpdate t allowed f w = Some w'" and d: "distinct (map tn_id (tw_tenants w))"
    and f: "\<And>r. tn_id (f r) = tn_id r" "\<And>r. tn_status (f r) = st" and st: "st \<notin> set allowed"
  shows "statusChanges w w' = [(t, st)]"
proof -
  let ?hit = "\<lambda>r. tn_id r = t \<and> tn_status r \<in> set allowed"
  obtain r0 where r0: "r0 \<in> set (tw_tenants w)" "?hit r0" using conditionalUpdate_Some(2) [OF up] by blast
  have rows: "tw_tenants w' = updateW ?hit f (tw_tenants w)" using conditionalUpdate_Some(1) [OF up] by simp
  have ids: "map tn_id (tw_tenants w') = map tn_id (tw_tenants w)" unfolding rows by (auto simp: updateW_def f)
  have "filter (\<lambda>r. list_all (\<lambda>q. tn_id q = tn_id r \<longrightarrow> tn_status q \<noteq> tn_status r) (tw_tenants w)) (tw_tenants w') = [f r0]"
  proof (rule filter_single [of tn_id])
    show "distinct (map tn_id (tw_tenants w'))" using d ids by simp
    show "f r0 \<in> set (tw_tenants w')" using r0 by (auto simp: rows set_updateW)
    fix y assume "y \<in> set (tw_tenants w')"
    then obtain r where r: "r \<in> set (tw_tenants w)" "y = (if ?hit r then f r else r)" by (auto simp: rows updateW_def)
    show "list_all (\<lambda>q. tn_id q = tn_id y \<longrightarrow> tn_status q \<noteq> tn_status y) (tw_tenants w) \<longleftrightarrow> tn_id y = tn_id (f r0)"
    proof (cases "tn_id r = t")
      case True
      then have "r = r0" using same_tenant [OF d r(1) r0(1)] r0(2) by simp
      then have y: "y = f r0" using r r0 by simp
      have "tn_status q \<noteq> st" if "q \<in> set (tw_tenants w)" "tn_id q = tn_id r0" for q
        using same_tenant [OF d that(1) r0(1)] that(2) r0(2) st by auto
      then show ?thesis by (simp add: y f list_all_iff)
    next
      case False
      then have "y = r" "tn_id y \<noteq> tn_id (f r0)" using r(2) r0(2) f(1) by auto
      then show ?thesis using r(1) by (auto simp: list_all_iff)
    qed
  qed
  then show ?thesis using r0 by (simp add: statusChanges_def f)
qed

lemma tlInv_change:
  assumes inv: "tlInv s" and up: "conditionalUpdate t allowed f (ty_world s) = Some w"
    and f: "\<And>r. tn_id (f r) = tn_id r" "\<And>r. tn_slug (f r) = tn_slug r" "\<And>r. tn_status (f r) = st" and st: "st \<notin> set allowed"
    and edge: "\<And>a. a \<in> set allowed \<Longrightarrow> statusEdge a st"
    and s': "tw_tenants (ty_world s') = tw_tenants w" "tw_audit (ty_world s') = tw_audit (ty_world s)"
      "ty_history s' = ty_history s @ [(t, st)]" "jobsOk s'"
    and told: "\<And>t'. owed t' s' = owed t' s + (if t' = t \<and> st \<noteq> ''purged'' then {#st#} else {#})"
    and jobs: "\<And>t'. purgeAwaited t' s \<Longrightarrow> purgeAwaited t' s'" "st = ''deleted'' \<Longrightarrow> purgeAwaited t s'"
    and susp: "\<And>r. st = ''suspended'' \<Longrightarrow> tn_suspendedAt (f r) \<noteq> None"
    and del: "\<And>r. st \<in> {''deleted'', ''purged''} \<Longrightarrow> lifeOk s r \<Longrightarrow> tn_status r \<in> set allowed \<Longrightarrow> tn_deletionScheduledAt (f r) \<noteq> None"
  shows "tlInv s'"
proof -
  let ?hit = "\<lambda>r. tn_id r = t \<and> tn_status r \<in> set allowed" and ?rows = "tw_tenants (ty_world s)"
  have d: "distinct (map tn_id ?rows)" using inv by (simp add: tlInv_def)
  obtain r0 where r0: "r0 \<in> set ?rows" "?hit r0" using conditionalUpdate_Some(2) [OF up] by blast
  have rows: "tw_tenants (ty_world s') = updateW ?hit f ?rows" using conditionalUpdate_Some(1) [OF up] s'(1) by simp
  have keys: "map tn_id (tw_tenants (ty_world s')) = map tn_id ?rows" "map tn_slug (tw_tenants (ty_world s')) = map tn_slug ?rows"
    unfolding rows by (auto simp: updateW_def f)
  have ids: "tn_id ` set (tw_tenants (ty_world s')) = tn_id ` set ?rows" using arg_cong [OF keys(1), of set] by simp
  have tr: "trail t' s' = trail t' s @ (if t' = t then [st] else [])" for t' by (simp add: trail_def s'(3))
  have life: "lifeOk s r0" using inv r0 by (simp add: tlInv_def)
  have "lifeOk s' y" if "y \<in> set (tw_tenants (ty_world s'))" for y
  proof -
    from that obtain r where r: "r \<in> set ?rows" "y = (if ?hit r then f r else r)" by (auto simp: rows updateW_def)
    show ?thesis
    proof (cases "tn_id r = t")
      case True
      then have "r = r0" using same_tenant [OF d r(1) r0(1)] r0(2) by simp
      then have y: "y = f r0" using r r0 by simp
      have "statusEdge (tn_status r0) st" using edge r0 by simp
      then have "successively statusEdge (trail t s @ [st])" "hd (trail t s @ [st]) = ''active''"
        using life r0 by (auto simp: lifeOk_def successively_append_iff hd_append)
      then show ?thesis
        using r0 susp [of r0] del [OF _ life] jobs(2) by (auto simp: lifeOk_def y tr f)
    next
      case False
      then have "y = r" using r(2) by simp
      moreover have "lifeOk s r" using inv r(1) by (simp add: tlInv_def)
      ultimately show ?thesis using False jobs(1) by (simp add: lifeOk_def tr)
    qed
  qed
  moreover have "balanced t' s'" for t'
  proof -
    have "balanced t' s" using inv by (simp add: tlInv_def)
    then show ?thesis by (simp add: balanced_def tr told s'(2))
  qed
  moreover have "fst ` set (ty_history s') \<subseteq> tn_id ` set (tw_tenants (ty_world s'))"
    using inv r0 unfolding tlInv_def ids s'(3) by auto
  ultimately show ?thesis using inv keys s'(4) by (simp add: tlInv_def)
qed

lemma statusChanges_insert:
  assumes "tn_id row \<notin> tn_id ` set (tw_tenants w)"
  shows "statusChanges w (w\<lparr>tw_tenants := tw_tenants w @ [row]\<rparr>) = [(tn_id row, tn_status row)]"
proof -
  have "filter (\<lambda>r. list_all (\<lambda>q. tn_id q = tn_id r \<longrightarrow> tn_status q \<noteq> tn_status r) (tw_tenants w)) (tw_tenants w) = []"
    by (auto simp: filter_empty_conv list_all_iff)
  moreover have "list_all (\<lambda>q. tn_id q = tn_id row \<longrightarrow> tn_status q \<noteq> tn_status row) (tw_tenants w)"
    using assms by (auto simp: list_all_iff image_iff)
  ultimately show ?thesis by (simp add: statusChanges_def)
qed

lemma tlInv_insert:
  assumes inv: "tlInv s" and fresh: "tn_id row \<notin> tn_id ` set (tw_tenants (ty_world s))" "tn_slug row \<notin> tn_slug ` set (tw_tenants (ty_world s))"
    and row: "tn_status row = ''active''"
    and s': "tw_tenants (ty_world s') = tw_tenants (ty_world s) @ [row]" "tw_audit (ty_world s') = tw_audit (ty_world s)"
      "ty_history s' = ty_history s @ [(tn_id row, ''active'')]" "jobsOk s'"
    and told: "\<And>t'. owed t' s' = owed t' s + (if t' = tn_id row then {#''active''#} else {#})"
    and jobs: "\<And>t'. purgeAwaited t' s \<Longrightarrow> purgeAwaited t' s'"
  shows "tlInv s'"
proof -
  have tr: "trail t' s' = trail t' s @ (if t' = tn_id row then [''active''] else [])" for t' by (simp add: trail_def s'(3))
  have none: "trail (tn_id row) s = []" using inv fresh(1) unfolding tlInv_def trail_def by (auto simp: filter_empty_conv)
  have "lifeOk s' r" if "r \<in> set (tw_tenants (ty_world s))" for r
  proof -
    have "tn_id r \<noteq> tn_id row" using that fresh(1) by (metis imageI)
    moreover have "lifeOk s r" using inv that by (simp add: tlInv_def)
    ultimately show ?thesis using jobs by (simp add: lifeOk_def tr)
  qed
  moreover have "lifeOk s' row" using row none by (simp add: lifeOk_def tr)
  moreover have "balanced t' s'" for t'
  proof -
    have "balanced t' s" using inv by (simp add: tlInv_def)
    then show ?thesis by (simp add: balanced_def tr told s'(2))
  qed
  moreover have "fst ` set (ty_history s') \<subseteq> tn_id ` set (tw_tenants (ty_world s'))"
    using inv unfolding tlInv_def s'(1,3) by auto
  ultimately show ?thesis using inv fresh s'(4) by (simp add: tlInv_def s'(1))
qed

section \<open>Every step keeps the books\<close>

lemma commit_sel:
  assumes "tlAdvance env (ty_calls s ! i) (lc_phase (ty_calls s ! i)) (ty_world s) = (p, w)"
  shows "ty_world (tlCommit env i s) = w" "ty_calls (tlCommit env i s) = (ty_calls s)[i := (ty_calls s ! i)\<lparr>lc_phase := p\<rparr>]"
    "ty_history (tlCommit env i s) = ty_history s @ statusChanges (ty_world s) w"
  by (simp_all add: tlCommit_def assms)

lemma owed_calls: "ty_calls s' = (ty_calls s)[i := c] \<Longrightarrow> i < length (ty_calls s) \<Longrightarrow>
    owed t s' + entriesOf t (owes (lc_phase (ty_calls s ! i))) = owed t s + entriesOf t (owes (lc_phase c))"
  using owed_replaced [of i s t c] by (simp add: owed_def)

lemma jobsOk_calls:
  assumes "jobsOk s" "ty_calls s' = (ty_calls s)[i := c]" "lc_tenantId c = lc_tenantId (ty_calls s ! i)"
    and "\<And>j. j \<in> set (toQueue (lc_phase c)) \<Longrightarrow> \<exists>d. j = purgeJob (lc_tenantId c) d"
    and "\<And>j. j \<in> set (tw_jobs (ty_world s')) \<Longrightarrow> \<exists>t d. j = purgeJob t d"
  shows "jobsOk s'"
  unfolding jobsOk_def assms(2)
proof (intro conjI ballI)
  fix c' j assume "c' \<in> set ((ty_calls s)[i := c])" and j: "j \<in> set (toQueue (lc_phase c'))"
  then have "c' = c \<or> c' \<in> set (ty_calls s)" using set_update_subset_insert [of "ty_calls s" i c] by auto
  then show "\<exists>d. j = purgeJob (lc_tenantId c') d" using assms(1,4) j unfolding jobsOk_def by blast
qed (use assms(5) in blast)

lemma awaited_calls:
  assumes "purgeAwaited t s" "ty_calls s' = (ty_calls s)[i := c]" "set (tw_jobs (ty_world s)) \<subseteq> set (tw_jobs (ty_world s'))"
    and "\<And>j. i < length (ty_calls s) \<Longrightarrow> j \<in> set (toQueue (lc_phase (ty_calls s ! i))) \<Longrightarrow>
      j \<in> set (toQueue (lc_phase c)) \<or> (\<exists>k \<in> set (tw_jobs (ty_world s')). pj_tenantId k = pj_tenantId j)"
  shows "purgeAwaited t s'"
proof (cases "\<exists>k \<in> set (tw_jobs (ty_world s')). pj_tenantId k = t")
  case False
  then have "\<exists>c \<in> set (ty_calls s). \<exists>j \<in> set (toQueue (lc_phase c)). pj_tenantId j = t"
    using assms(1,3) unfolding purgeAwaited_def by blast
  moreover have "\<exists>j \<in> set (toQueue (lc_phase c)). pj_tenantId j = t"
    if "i < length (ty_calls s)" "\<exists>j \<in> set (toQueue (lc_phase (ty_calls s ! i))). pj_tenantId j = t"
    using that assms(4) [OF that(1)] False by blast
  ultimately show ?thesis unfolding purgeAwaited_def assms(2) by (intro disjI2 ex_replaced)
qed (simp add: purgeAwaited_def)

lemma awaited_new:
  "ty_calls s' = (ty_calls s)[i := c] \<Longrightarrow> i < length (ty_calls s) \<Longrightarrow> j \<in> set (toQueue (lc_phase c)) \<Longrightarrow> purgeAwaited (pj_tenantId j) s'"
  unfolding purgeAwaited_def by (metis set_update_memI)

text \<open>A transaction that changes a status, seen from the call.\<close>

lemma commit_change:
  assumes inv: "tlInv s" and i: "i < length (ty_calls s)"
    and run: "tlAdvance env (ty_calls s ! i) (lc_phase (ty_calls s ! i)) (ty_world s) = (p, w)"
    and idle: "owes (lc_phase (ty_calls s ! i)) = []" "toQueue (lc_phase (ty_calls s ! i)) = []"
    and up: "conditionalUpdate t allowed f (ty_world s) = Some w"
    and f: "\<And>r. tn_id (f r) = tn_id r" "\<And>r. tn_slug (f r) = tn_slug r" "\<And>r. tn_status (f r) = st" and st: "st \<notin> set allowed"
    and edge: "\<And>a. a \<in> set allowed \<Longrightarrow> statusEdge a st"
    and told: "\<And>t'. entriesOf t' (owes p) = (if t' = t \<and> st \<noteq> ''purged'' then {#st#} else {#})"
    and queue: "\<And>j. j \<in> set (toQueue p) \<Longrightarrow> \<exists>d. j = purgeJob (lc_tenantId (ty_calls s ! i)) d"
      "st = ''deleted'' \<Longrightarrow> \<exists>j \<in> set (toQueue p). pj_tenantId j = t"
    and susp: "\<And>r. st = ''suspended'' \<Longrightarrow> tn_suspendedAt (f r) \<noteq> None"
    and del: "\<And>r. st \<in> {''deleted'', ''purged''} \<Longrightarrow> lifeOk s r \<Longrightarrow> tn_status r \<in> set allowed \<Longrightarrow> tn_deletionScheduledAt (f r) \<noteq> None"
  shows "tlInv (tlCommit env i s)"
proof (rule tlInv_change [OF inv up f st edge _ _ _ _ _ _ _ susp del])
  note sel = commit_sel [OF run]
  have w: "tw_audit w = tw_audit (ty_world s)" "tw_jobs w = tw_jobs (ty_world s)" using conditionalUpdate_Some(1) [OF up] by simp_all
  show "tw_tenants (ty_world (tlCommit env i s)) = tw_tenants w" "tw_audit (ty_world (tlCommit env i s)) = tw_audit (ty_world s)"
    by (simp_all add: sel w)
  have "distinct (map tn_id (tw_tenants (ty_world s)))" using inv by (simp add: tlInv_def)
  from statusChanges_update [OF up this f(1,3) st] show "ty_history (tlCommit env i s) = ty_history s @ [(t, st)]"
    by (simp add: sel)
  have ok: "jobsOk s" using inv by (simp add: tlInv_def)
  show "jobsOk (tlCommit env i s)"
    by (rule jobsOk_calls [OF ok sel(2)]) (use ok queue(1) in \<open>auto simp: sel w jobsOk_def\<close>)
  show "owed t' (tlCommit env i s) = owed t' s + (if t' = t \<and> st \<noteq> ''purged'' then {#st#} else {#})" for t'
    using owed_calls [OF sel(2) i, of t'] by (simp add: idle told)
  show "purgeAwaited t' (tlCommit env i s)" if "purgeAwaited t' s" for t'
    by (rule awaited_calls [OF that sel(2)]) (simp_all add: sel w idle)
  show "purgeAwaited t (tlCommit env i s)" if "st = ''deleted''"
    using queue(2) [OF that] awaited_new [OF sel(2) i] by auto
qed

text \<open>One that does not.\<close>

lemma commit_quiet:
  assumes inv: "tlInv s" and i: "i < length (ty_calls s)"
    and run: "tlAdvance env (ty_calls s ! i) (lc_phase (ty_calls s ! i)) (ty_world s) = (p, w)"
    and same: "tw_tenants w = tw_tenants (ty_world s)"
    and told: "\<And>t. entriesOf t (tw_audit w) + entriesOf t (owes p) = entriesOf t (tw_audit (ty_world s)) + entriesOf t (owes (lc_phase (ty_calls s ! i)))"
    and jobs: "set (tw_jobs (ty_world s)) \<subseteq> set (tw_jobs w)" "\<And>j. j \<in> set (tw_jobs w) \<Longrightarrow> \<exists>t d. j = purgeJob t d"
      "\<And>j. j \<in> set (toQueue p) \<Longrightarrow> \<exists>d. j = purgeJob (lc_tenantId (ty_calls s ! i)) d"
      "\<And>j. j \<in> set (toQueue (lc_phase (ty_calls s ! i))) \<Longrightarrow> j \<in> set (toQueue p) \<or> (\<exists>k \<in> set (tw_jobs w). pj_tenantId k = pj_tenantId j)"
  shows "tlInv (tlCommit env i s)"
proof (rule tlInv_quiet [OF inv])
  note sel = commit_sel [OF run]
  show "tw_tenants (ty_world (tlCommit env i s)) = tw_tenants (ty_world s)" "ty_history (tlCommit env i s) = ty_history s"
    by (simp_all add: sel same statusChanges_refl)
  have ok: "jobsOk s" using inv by (simp add: tlInv_def)
  show "jobsOk (tlCommit env i s)"
    by (rule jobsOk_calls [OF ok sel(2)]) (use jobs(2,3) in \<open>auto simp: sel\<close>)
  show "entriesOf t (tw_audit (ty_world (tlCommit env i s))) + owed t (tlCommit env i s) = entriesOf t (tw_audit (ty_world s)) + owed t s" for t
  proof -
    have "owed t (tlCommit env i s) + entriesOf t (owes (lc_phase (ty_calls s ! i))) = owed t s + entriesOf t (owes p)"
      using owed_calls [OF sel(2) i, of t] by simp
    then have "entriesOf t (tw_audit w) + owed t (tlCommit env i s) + entriesOf t (owes (lc_phase (ty_calls s ! i))) =
        entriesOf t (tw_audit (ty_world s)) + owed t s + entriesOf t (owes (lc_phase (ty_calls s ! i)))"
      using told [of t] by (simp add: ac_simps)
    then show ?thesis by (simp add: sel)
  qed
  show "purgeAwaited (tn_id r) (tlCommit env i s)" if "purgeAwaited (tn_id r) s" for r
    by (rule awaited_calls [OF that sel(2)]) (use jobs(1,4) in \<open>auto simp: sel\<close>)
qed

lemma addPurgeJob_world [simp]:
  "tw_tenants (addPurgeJob j w) = tw_tenants w" "tw_audit (addPurgeJob j w) = tw_audit w"
  by (simp_all add: addPurgeJob_def)

lemma addPurgeJob_jobs:
  assumes "\<forall>k \<in> set (tw_jobs w). \<exists>t d. k = purgeJob t d"
  shows "set (tw_jobs w) \<subseteq> set (tw_jobs (addPurgeJob (purgeJob t d) w))"
    "k \<in> set (tw_jobs (addPurgeJob (purgeJob t d) w)) \<Longrightarrow> \<exists>t d. k = purgeJob t d"
    "\<exists>k \<in> set (tw_jobs (addPurgeJob (purgeJob t d) w)). pj_tenantId k = t"
proof -
  show "set (tw_jobs w) \<subseteq> set (tw_jobs (addPurgeJob (purgeJob t d) w))" by (auto simp: addPurgeJob_def)
  show "\<exists>t d. k = purgeJob t d" if "k \<in> set (tw_jobs (addPurgeJob (purgeJob t d) w))"
    using assms that by (auto simp: addPurgeJob_def split: if_splits)
  show "\<exists>k \<in> set (tw_jobs (addPurgeJob (purgeJob t d) w)). pj_tenantId k = t"
  proof (cases "list_ex (\<lambda>k. pj_id k = pj_id (purgeJob t d)) (tw_jobs w)")
    case True
    then obtain k where k: "k \<in> set (tw_jobs w)" "pj_id k = pj_id (purgeJob t d)" by (auto simp: list_ex_iff)
    then obtain t' d' where "k = purgeJob t' d'" using assms by blast
    then show ?thesis using k True by (intro bexI [of _ k]) (auto simp: purgeJob_def addPurgeJob_def)
  qed (simp add: addPurgeJob_def purgeJob_def)
qed

lemma commit_inv:
  assumes inv: "tlInv s" and i: "i < length (ty_calls s)" and fresh: "te_newId env \<notin> tn_id ` set (tw_tenants (ty_world s))"
  shows "tlInv (tlCommit env i s)"
proof -
  let ?c = "ty_calls s ! i" and ?w = "ty_world s"
  have ok: "jobsOk s" using inv by (simp add: tlInv_def)
  have unchanged: "tlInv (tlCommit env i s)"
    if "tlAdvance env ?c (lc_phase ?c) ?w = (p, ?w)" "owes p = owes (lc_phase ?c)" "toQueue p = toQueue (lc_phase ?c)" for p
    by (rule commit_quiet [OF inv i that(1)]) (use ok i that in \<open>auto simp: jobsOk_def dest: nth_mem\<close>)
  show ?thesis
  proof (cases "lc_phase ?c")
    case (TpProvision input)
    show ?thesis
    proof (cases "parseProvision (te_bounds env) input \<and> \<not> list_ex (\<lambda>r. tn_slug r = pt_slug input) (tw_tenants ?w)")
      case True
      let ?row = "provisionedRow env input"
      obtain entry where run: "tlAdvance env ?c (lc_phase ?c) ?w =
          (TpAudit entry (TpInstall (te_newId env) (pt_slug input)), ?w\<lparr>tw_tenants := tw_tenants ?w @ [?row]\<rparr>)"
        and entry: "\<And>t. entriesOf t [entry] = (if t = te_newId env then {#''active''#} else {#})"
        using True by (simp add: TpProvision provisionTenant_def entriesOf_one)
      note sel = commit_sel [OF run]
      have id: "tn_id ?row = te_newId env" "tn_status ?row = ''active''" "tn_slug ?row = pt_slug input" by (simp_all add: provisionedRow_def)
      show ?thesis
      proof (rule tlInv_insert [OF inv, of ?row])
        show "tn_id ?row \<notin> tn_id ` set (tw_tenants ?w)" using fresh by (simp add: id)
        show "tn_slug ?row \<notin> tn_slug ` set (tw_tenants ?w)" using True by (auto simp: id list_ex_iff)
        show "ty_history (tlCommit env i s) = ty_history s @ [(tn_id ?row, ''active'')]"
          using statusChanges_insert [of ?row ?w] fresh by (simp add: sel id)
        show "jobsOk (tlCommit env i s)" by (rule jobsOk_calls [OF ok sel(2)]) (use ok in \<open>auto simp: sel jobsOk_def\<close>)
        show "owed t' (tlCommit env i s) = owed t' s + (if t' = tn_id ?row then {#''active''#} else {#})" for t'
          using owed_calls [OF sel(2) i, of t'] entry [of t'] by (simp add: TpProvision id)
        show "purgeAwaited t' (tlCommit env i s)" if "purgeAwaited t' s" for t'
          by (rule awaited_calls [OF that sel(2)]) (simp_all add: sel TpProvision)
      qed (simp_all add: sel id)
    next
      case False
      then consider "\<not> parseProvision (te_bounds env) input"
        | "parseProvision (te_bounds env) input" "list_ex (\<lambda>r. tn_slug r = pt_slug input) (tw_tenants ?w)" by blast
      then show ?thesis
      proof cases
        case 1
        then show ?thesis by (intro unchanged [of "TpDone (Inl InvalidInput)"]) (simp_all add: TpProvision provisionTenant_def)
      next
        case 2
        then show ?thesis by (intro unchanged [of "TpDone (Inl SLUG_TAKEN)"]) (simp_all add: TpProvision provisionTenant_def)
      qed
    qed
  next
    case TpSuspend
    show ?thesis
    proof (cases "conditionalUpdate (lc_tenantId ?c) [''active''] (\<lambda>r. r\<lparr>tn_status := ''suspended'', tn_suspendedAt := Some (te_now env)\<rparr>) ?w")
      case None
      then show ?thesis by (intro unchanged [of TpDiagnose]) (auto simp: TpSuspend suspendTenant_def)
    next
      case (Some w)
      then have run: "tlAdvance env ?c (lc_phase ?c) ?w =
          (TpAudit (statusEntry (lc_tenantId ?c) (lc_actorId ?c) ''active'' ''suspended'') (TpDone (Inr Changed)), w)"
        by (simp add: TpSuspend suspendTenant_def)
      show ?thesis
        by (rule commit_change [OF inv i run _ _ Some, where st = "''suspended''"])
          (simp_all add: TpSuspend statusEdge_def statusEntry_def entriesOf_one)
    qed
  next
    case TpReactivate
    show ?thesis
    proof (cases "conditionalUpdate (lc_tenantId ?c) [''suspended''] (\<lambda>r. r\<lparr>tn_status := ''active'', tn_suspendedAt := None\<rparr>) ?w")
      case None
      then show ?thesis by (intro unchanged [of TpDiagnose]) (auto simp: TpReactivate reactivateTenant_def)
    next
      case (Some w)
      then have run: "tlAdvance env ?c (lc_phase ?c) ?w =
          (TpAudit (statusEntry (lc_tenantId ?c) (lc_actorId ?c) ''suspended'' ''active'') (TpDone (Inr Changed)), w)"
        by (simp add: TpReactivate reactivateTenant_def)
      show ?thesis
        by (rule commit_change [OF inv i run _ _ Some, where st = "''active''"])
          (simp_all add: TpReactivate statusEdge_def statusEntry_def entriesOf_one)
    qed
  next
    case (TpDeleteWrite status days)
    let ?at = "te_now env + days * 24 * 60 * 60 * 1000"
    show ?thesis
    proof (cases "conditionalUpdate (lc_tenantId ?c) [''active'', ''suspended'']
        (\<lambda>r. r\<lparr>tn_status := ''deleted'', tn_deletionScheduledAt := Some ?at\<rparr>) ?w")
      case None
      then show ?thesis by (intro unchanged) (auto simp: TpDeleteWrite deleteLoaded_def Let_def)
    next
      case (Some w)
      obtain entry where run: "tlAdvance env ?c (lc_phase ?c) ?w =
          (TpQueue (purgeJob (lc_tenantId ?c) (days * 24 * 60 * 60 * 1000)) (TpAudit entry (TpDone (Inr (Scheduled ?at)))), w)"
        and entry: "\<And>t. entriesOf t [entry] = (if t = lc_tenantId ?c then {#''deleted''#} else {#})"
        using Some by (simp add: TpDeleteWrite deleteLoaded_def Let_def entriesOf_one dflt_def)
      show ?thesis
        by (rule commit_change [OF inv i run _ _ Some, where st = "''deleted''"])
          (auto simp: TpDeleteWrite statusEdge_def entry purgeJob_def)
    qed
  next
    case TpPurgeFlip
    let ?entry = "\<lparr>ta_tenantId = lc_tenantId ?c, ta_actorId = ''system'', ta_actorType = ''system'', ta_action = ''purge.completed'',
        ta_before = None, ta_after = [(''status'', ''purged'')]\<rparr>"
    have none: "entriesOf t [?entry] = {#}" for t by (simp add: entriesOf_def)
    show ?thesis
    proof (cases "conditionalUpdate (lc_tenantId ?c) [''deleted''] (\<lambda>r. r\<lparr>tn_status := ''purged'', tn_logo := None\<rparr>) ?w")
      case None
      then have run: "tlAdvance env ?c (lc_phase ?c) ?w = (TpAudit ?entry (TpDone (Inr PurgeEnded)), ?w)"
        by (simp add: TpPurgeFlip markPurged_def dflt_def)
      show ?thesis by (rule commit_quiet [OF inv i run]) (use ok none in \<open>auto simp: TpPurgeFlip jobsOk_def\<close>)
    next
      case (Some w)
      then have run: "tlAdvance env ?c (lc_phase ?c) ?w = (TpAudit ?entry (TpDone (Inr PurgeEnded)), w)"
        by (simp add: TpPurgeFlip markPurged_def dflt_def)
      show ?thesis
        by (rule commit_change [OF inv i run _ _ Some, where st = "''purged''"])
          (simp_all add: TpPurgeFlip statusEdge_def none lifeOk_def)
    qed
  next
    case (TpQueue j rest)
    obtain d where j: "j = purgeJob (lc_tenantId ?c) d" using ok i nth_mem [OF i] unfolding jobsOk_def by (fastforce simp: TpQueue)
    have run: "tlAdvance env ?c (lc_phase ?c) ?w = (rest, addPurgeJob j ?w)" by (simp add: TpQueue)
    have jobs: "\<forall>k \<in> set (tw_jobs ?w). \<exists>t d. k = purgeJob t d" using ok by (simp add: jobsOk_def)
    show ?thesis
    proof (rule commit_quiet [OF inv i run])
      show "\<exists>d. k = purgeJob (lc_tenantId ?c) d" if "k \<in> set (toQueue rest)" for k
        using ok that nth_mem [OF i] unfolding jobsOk_def by (fastforce simp: TpQueue)
      show "k \<in> set (toQueue rest) \<or> (\<exists>l \<in> set (tw_jobs (addPurgeJob j ?w)). pj_tenantId l = pj_tenantId k)"
        if "k \<in> set (toQueue (lc_phase ?c))" for k
        using that addPurgeJob_jobs(3) [OF jobs, of "lc_tenantId ?c" d] by (auto simp: TpQueue j) (simp add: purgeJob_def)
      show "set (tw_jobs ?w) \<subseteq> set (tw_jobs (addPurgeJob j ?w))" unfolding j by (rule addPurgeJob_jobs(1) [OF jobs])
      show "\<exists>t d. k = purgeJob t d" if "k \<in> set (tw_jobs (addPurgeJob j ?w))" for k
        using that unfolding j by (rule addPurgeJob_jobs(2) [OF jobs])
    qed (simp_all add: TpQueue)
  next
    case (TpAudit row rest)
    have run: "tlAdvance env ?c (lc_phase ?c) ?w = (rest, ?w\<lparr>tw_audit := tw_audit ?w @ [row]\<rparr>)" by (simp add: TpAudit)
    show ?thesis
    proof (rule commit_quiet [OF inv i run])
      show "\<exists>d. k = purgeJob (lc_tenantId ?c) d" if "k \<in> set (toQueue rest)" for k
        using ok that nth_mem [OF i] unfolding jobsOk_def by (fastforce simp: TpAudit)
      show "entriesOf t (tw_audit (?w\<lparr>tw_audit := tw_audit ?w @ [row]\<rparr>)) + entriesOf t (owes rest) =
          entriesOf t (tw_audit ?w) + entriesOf t (owes (lc_phase ?c))" for t
        using entriesOf_Cons [of t row "owes rest"] by (simp add: TpAudit entriesOf_append)
    qed (use ok in \<open>auto simp: TpAudit jobsOk_def\<close>)
  next
    case (TpDelete days)
    then show ?thesis by (intro unchanged) (auto split: sum.split)
  next
    case TpPurge
    then show ?thesis by (intro unchanged) (auto simp: startPurge_def split: option.split)
  qed (use unchanged in simp_all)
qed

lemma startPhase_idle: "startPhase p \<Longrightarrow> owes p = [] \<and> toQueue p = []"
  by (cases p) simp_all

lemma call_inv:
  assumes "tlInv s" "owes (lc_phase c) = []" "toQueue (lc_phase c) = []"
  shows "tlInv (s\<lparr>ty_calls := ty_calls s @ [c]\<rparr>)"
  by (rule tlInv_quiet [OF assms(1)]) (use assms in \<open>auto simp: tlInv_def jobsOk_def owed_def purgeAwaited_def\<close>)

lemma fail_inv:
  assumes inv: "tlInv s" and i: "i < length (ty_calls s)"
  defines "c \<equiv> (ty_calls s ! i)\<lparr>lc_phase := TpFailed (lc_phase (ty_calls s ! i))\<rparr>"
  shows "tlInv (s\<lparr>ty_calls := (ty_calls s)[i := c]\<rparr>)" (is "tlInv ?s'")
proof (rule tlInv_quiet [OF inv])
  have ok: "jobsOk s" using inv by (simp add: tlInv_def)
  have calls: "ty_calls ?s' = (ty_calls s)[i := c]" by simp
  show "jobsOk ?s'" by (rule jobsOk_calls [OF ok calls]) (use ok i in \<open>auto simp: jobsOk_def c_def dest: nth_mem\<close>)
  show "entriesOf t (tw_audit (ty_world ?s')) + owed t ?s' = entriesOf t (tw_audit (ty_world s)) + owed t s" for t
    using owed_calls [OF calls i, of t] by (simp add: c_def)
  show "purgeAwaited (tn_id r) ?s'" if "purgeAwaited (tn_id r) s" for r
    by (rule awaited_calls [OF that calls]) (simp_all add: c_def)
qed simp_all

lemma gone_inv:
  assumes inv: "tlInv s" and t: "\<forall>r \<in> set (tw_tenants (ty_world s)). tn_id r = t \<longrightarrow> tn_status r \<noteq> ''deleted''"
  shows "tlInv (s\<lparr>ty_world := (ty_world s)\<lparr>tw_jobs := filter (\<lambda>j. pj_tenantId j \<noteq> t) (tw_jobs (ty_world s))\<rparr>\<rparr>)"
proof (rule tlInv_quiet [OF inv])
  fix r assume "r \<in> set (tw_tenants (ty_world s))" "tn_status r = ''deleted''" "purgeAwaited (tn_id r) s"
  moreover from this have "tn_id r \<noteq> t" using t by auto
  ultimately show "purgeAwaited (tn_id r) (s\<lparr>ty_world := (ty_world s)\<lparr>tw_jobs := filter (\<lambda>j. pj_tenantId j \<noteq> t) (tw_jobs (ty_world s))\<rparr>\<rparr>)"
    by (auto simp: purgeAwaited_def)
qed (use inv in \<open>simp_all add: tlInv_def jobsOk_def owed_def\<close>)

lemma tlStep_inv: "tlStep s s' \<Longrightarrow> tlInv s \<Longrightarrow> tlInv s'"
proof (induction rule: tlStep.induct)
  case (tl_call c s)
  then show ?case using call_inv startPhase_idle by blast
next
  case (tl_job c j s)
  then show ?case using call_inv [of s c] by simp
next
  case (tl_commit i s env)
  then show ?case using commit_inv by blast
next
  case (tl_fail i s)
  then show ?case using fail_inv by blast
next
  case (tl_job_gone s t)
  then show ?case using gone_inv by blast
qed

definition tlStart :: "tl_sys \<Rightarrow> bool" where
  "tlStart s = (ty_world s = \<lparr>tw_tenants = [], tw_audit = [], tw_jobs = []\<rparr> \<and> ty_calls s = [] \<and> ty_history s = [])"

lemma tl_reachable:
  assumes "tlStep\<^sup>*\<^sup>* s0 s" "tlStart s0"
  shows "tlInv s"
  using assms(1)
proof (induction rule: rtranclp_induct)
  case base
  then show ?case using assms(2) by (simp add: tlStart_def tlInv_def jobsOk_def balanced_def trail_def owed_def)
qed (rule tlStep_inv)

text \<open>
  C40. Whatever calls run at the same time and wherever they fail, the statuses a tenant has had start with active and
  follow the edges of the life cycle one by one up to the one it has: a deleted tenant never comes back. The audit log
  has exactly one entry for each of these changes (the purge apart), save those of a call that is still under way or has
  failed; their order is not promised. A deleted tenant has the date of its purge, and its purge job is queued unless
  the call that deleted it has not got that far. No two tenants share a slug.
\<close>

theorem lifecycle_recorded:
  assumes "tlStep\<^sup>*\<^sup>* s0 s" "tlStart s0" "r \<in> set (tw_tenants (ty_world s))"
  shows "hd (trail (tn_id r) s) = ''active'' \<and> last (trail (tn_id r) s) = tn_status r \<and> successively statusEdge (trail (tn_id r) s) \<and>
    filter_mset (\<lambda>x. x \<noteq> ''purged'') (mset (trail (tn_id r) s)) = entriesOf (tn_id r) (tw_audit (ty_world s)) + owed (tn_id r) s \<and>
    (tn_status r \<in> {''deleted'', ''purged''} \<longrightarrow> tn_deletionScheduledAt r \<noteq> None) \<and>
    (tn_status r = ''deleted'' \<longrightarrow> purgeAwaited (tn_id r) s) \<and>
    (\<forall>r' \<in> set (tw_tenants (ty_world s)). tn_slug r' = tn_slug r \<longrightarrow> r' = r)"
proof -
  have inv: "tlInv s" by (rule tl_reachable [OF assms(1,2)])
  then have "lifeOk s r" "balanced (tn_id r) s" using assms(3) by (simp_all add: tlInv_def)
  moreover have "r' = r" if "r' \<in> set (tw_tenants (ty_world s))" "tn_slug r' = tn_slug r" for r'
    using inv that assms(3) by (auto simp: tlInv_def distinct_map dest: inj_onD)
  ultimately show ?thesis by (auto simp: lifeOk_def balanced_def)
qed

section \<open>What the steps allow\<close>

text \<open>Runs as lists of actions, each checked against its step.\<close>

datatype tl_act = TaCall tl_call | TaJob tl_call | TaCommit tl_env nat | TaFail nat

fun tlAct :: "tl_act \<Rightarrow> tl_sys \<Rightarrow> tl_sys option" where
  "tlAct (TaCall c) s = (if startPhase (lc_phase c) then Some (s\<lparr>ty_calls := ty_calls s @ [c]\<rparr>) else None)"
| "tlAct (TaJob c) s =
     (if lc_phase c = TpPurge \<and> list_ex (\<lambda>j. pj_tenantId j = lc_tenantId c) (tw_jobs (ty_world s))
      then Some (s\<lparr>ty_calls := ty_calls s @ [c]\<rparr>) else None)"
| "tlAct (TaCommit env i) s =
     (if i < length (ty_calls s) \<and> list_all (\<lambda>r. tn_id r \<noteq> te_newId env) (tw_tenants (ty_world s)) then Some (tlCommit env i s) else None)"
| "tlAct (TaFail i) s =
     (if i < length (ty_calls s)
      then Some (s\<lparr>ty_calls := (ty_calls s)[i := (ty_calls s ! i)\<lparr>lc_phase := TpFailed (lc_phase (ty_calls s ! i))\<rparr>]\<rparr>) else None)"

fun tlRun :: "tl_act list \<Rightarrow> tl_sys \<Rightarrow> tl_sys option" where
  "tlRun [] s = Some s"
| "tlRun (a # as) s = Option.bind (tlAct a s) (tlRun as)"

lemma tlAct_step: "tlAct a s = Some s' \<Longrightarrow> tlStep s s'"
proof (cases a)
  case (TaCommit env i)
  then show "tlAct a s = Some s' \<Longrightarrow> tlStep s s'"
    by (auto simp: list_all_iff image_iff split: if_splits intro!: tl_commit)
qed (auto simp: list_ex_iff split: if_splits intro: tlStep.intros)

lemma tlRun_reachable: "tlRun as s = Some s' \<Longrightarrow> tlStep\<^sup>*\<^sup>* s s'"
proof (induction as arbitrary: s)
  case (Cons a as)
  then obtain s1 where "tlAct a s = Some s1" "tlRun as s1 = Some s'" by (cases "tlAct a s") auto
  then show ?case using Cons.IH tlAct_step by (meson converse_rtranclp_into_rtranclp)
qed simp

definition tl_demo_env :: "string \<Rightarrow> tl_env" where
  "tl_demo_env new = \<lparr>te_now = 0, te_newId = new, te_bounds = \<lparr>rb_noiseDays = (1, 9), rb_commentDays = (1, 9), rb_evidenceDays = (1, 9)\<rparr>,
     te_installed = ([], [])\<rparr>"

definition tl_demo_start :: tl_sys where
  "tl_demo_start = \<lparr>ty_world = \<lparr>tw_tenants = [], tw_audit = [], tw_jobs = []\<rparr>, ty_calls = [], ty_history = []\<rparr>"

definition tl_demo_call :: "tl_phase \<Rightarrow> tl_act" where
  "tl_demo_call p = TaCall \<lparr>lc_tenantId = ''T'', lc_actorId = ''op'', lc_phase = p\<rparr>"

definition tl_demo_goes :: "nat \<Rightarrow> tl_act" where
  "tl_demo_goes i = TaCommit (tl_demo_env []) i"

definition tl_demo_new :: "tl_act list" where
  "tl_demo_new = [tl_demo_call (TpProvision \<lparr>pt_name = ''A'', pt_slug = ''a'', pt_plan = None, pt_config = None\<rparr>),
     TaCommit (tl_demo_env ''T'') 0, tl_demo_goes 0, tl_demo_goes 0]"

text \<open>A suspension and a reactivation whose entries are written in the other order.\<close>

lemma audit_out_of_order:
  "case tlRun (tl_demo_new @ [tl_demo_call TpSuspend, tl_demo_goes 1, tl_demo_call TpReactivate, tl_demo_goes 2, tl_demo_goes 2, tl_demo_goes 1])
      tl_demo_start of
     Some s \<Rightarrow> map entryStatus (tw_audit (ty_world s)) = [''active'', ''active'', ''suspended''] \<and>
       map tn_status (tw_tenants (ty_world s)) = [''active''] \<and> list_all (\<lambda>c. owes (lc_phase c) = []) (ty_calls s)
   | None \<Rightarrow> False"
  by code_simp

text \<open>
  A deletion whose job cannot be queued leaves a deleted tenant without job and without entry; a second call refuses.
\<close>

lemma deletion_without_job:
  "case tlRun (tl_demo_new @ [tl_demo_call (TpDelete None), tl_demo_goes 1, tl_demo_goes 1, TaFail 1, tl_demo_call (TpDelete None), tl_demo_goes 2])
      tl_demo_start of
     Some s \<Rightarrow> map tn_status (tw_tenants (ty_world s)) = [''deleted''] \<and> tw_jobs (ty_world s) = [] \<and>
       map entryStatus (tw_audit (ty_world s)) = [''active''] \<and>
       map lc_phase (drop 2 (ty_calls s)) = [TpDone (Inl (INVALID_TRANSITION ''deleted''))]
   | None \<Rightarrow> False"
  by code_simp

definition tl_demo_acts :: "tl_act list" where
  "tl_demo_acts = tl_demo_new @ [tl_demo_call (TpDelete None), tl_demo_goes 1, tl_demo_call TpSuspend, tl_demo_goes 2, tl_demo_goes 2,
     tl_demo_goes 1, tl_demo_goes 1]"

text \<open>
  The tenant was suspended between the load and the update of its deletion: the entry to be written says that it was
  active before.
\<close>

lemma deletion_records_stale_status:
  "case tlRun tl_demo_acts tl_demo_start of
     Some s \<Rightarrow> map (\<lambda>c. map ta_before (owes (lc_phase c))) (ty_calls s) = [[], [Some [(''status'', ''active'')]], []] \<and>
       map snd (ty_history s) = [''active'', ''suspended'', ''deleted'']
   | None \<Rightarrow> False"
  by code_simp

section \<open>Witness\<close>

lemma tl_demo_run:
  "case tlRun tl_demo_acts tl_demo_start of
     Some s \<Rightarrow> map (\<lambda>r. (tn_id r, tn_status r)) (tw_tenants (ty_world s)) = [(''T'', ''deleted'')] \<and>
       map snd (ty_history s) = [''active'', ''suspended'', ''deleted''] \<and> map fst (ty_history s) = [''T'', ''T'', ''T'']
   | None \<Rightarrow> False"
  by code_simp

theorem lifecycle_recorded_witness:
  "\<exists>s r. tlStep\<^sup>*\<^sup>* tl_demo_start s \<and> tw_tenants (ty_world s) = [r] \<and> tn_status r = ''deleted'' \<and> tn_deletionScheduledAt r \<noteq> None \<and>
     purgeAwaited ''T'' s \<and> {#''active'', ''suspended'', ''deleted''#} = entriesOf ''T'' (tw_audit (ty_world s)) + owed ''T'' s"
proof -
  obtain s where run: "tlRun tl_demo_acts tl_demo_start = Some s"
    and out: "map (\<lambda>r. (tn_id r, tn_status r)) (tw_tenants (ty_world s)) = [(''T'', ''deleted'')]"
      "map snd (ty_history s) = [''active'', ''suspended'', ''deleted'']" "map fst (ty_history s) = [''T'', ''T'', ''T'']"
    using tl_demo_run by (auto split: option.splits)
  obtain r where r: "tw_tenants (ty_world s) = [r]" "tn_id r = ''T''" "tn_status r = ''deleted''" using out(1) by (auto simp: map_eq_Cons_conv)
  have "\<forall>h \<in> set (ty_history s). fst h = ''T''" using arg_cong [OF out(3), of set] by auto
  then have tr: "trail ''T'' s = [''active'', ''suspended'', ''deleted'']" using out(2) by (simp add: trail_def filter_id_conv [THEN iffD2])
  have "tlStart tl_demo_start" by (simp add: tlStart_def tl_demo_start_def)
  note life = lifecycle_recorded [OF tlRun_reachable [OF run] this, of r]
  have "filter_mset (\<lambda>x. x \<noteq> ''purged'') (mset (trail ''T'' s)) = entriesOf ''T'' (tw_audit (ty_world s)) + owed ''T'' s"
    "tn_deletionScheduledAt r \<noteq> None" "purgeAwaited ''T'' s"
    using life r by simp_all
  then show ?thesis using tlRun_reachable [OF run] r tr by (intro exI [of _ s] exI [of _ r]) simp
qed

end
