(* ===== verification/Spec2Isabelle.thy ===== *)
theory Spec2Isabelle
  imports WfSystemProps EntityAccess RotationProps OrgProps DeliveryProps OncallProps DueDate Idempotency MfaRace RateLimit TenantLifecycle
begin

text \<open>
  Verification of the core logic of OpenWind, a multi-tenant platform for records that move through
  workflows. The development models the TypeScript packages that decide what may happen to a record
  and who may do it; file names below are relative to \<open>src/\<close>.

  \<^bold>\<open>The parts and how they interact.\<close> A record (an entity instance) is created, edited and
  related to others by the record engine and governed by the workflow of its entity type. The workflow
  engine moves it from state to state under guards and writes, in one transaction, the new state, an
  event in the log, an outbox row and the service-level timer of the new state. Workflow maintenance
  edits workflows, states and transitions while records are in them. The outbox is read by three
  pollers, each taking rows of its own kind: events go to the automation queue, timer rows become
  delayed breach jobs, due-date markers become reminder jobs. Automation rules react to events; one of
  their actions is again a transition, whose follow-up rules run in the same call. Record access decides
  who may read or comment and writes access history into the same log. The organisation directory
  rebuilds a tree of employees from an identity provider and answers questions about the chain above and
  the reports below a user; the on-call rotation plans who is on duty, and a worker stores and announces
  the plan. In front of all this stand the guards of a request: the status of the tenant behind a cache,
  rate limits, idempotency keys and the second factor of the platform operator.

  \<^bold>\<open>Theories.\<close>
  \<^item> \<open>Prelude\<close>: the error monad (\<open>bindE\<close>, \<open>throwIf\<close>, \<open>orThrow\<close>), tables as lists of rows with
    select, update, delete and insert, and the lemma collections shared by all components.
  \<^item> \<open>JsValue\<close>: the values of the language the code computes with: JSON values, property lookup with
    inherited keys, strict equality, trimming and lower case, dates as milliseconds and their ISO text.
  \<^item> \<open>Redis\<close>, \<open>TtlCache\<close>, \<open>Sweep\<close>: what several components stand on: the commands of the key-value
    server with their times to live, caches whose entries live for a fixed time (locale \<open>ttl_cache\<close>), and
    the batch over undelivered outbox rows (locales \<open>row_sweeper\<close> and \<open>sweeper\<close>).
  \<^item> \<open>Conditions\<close>: \<open>packages/workflow-engine/src/condition-evaluator.ts\<close>.
  \<^item> \<open>WfSchema\<close>: \<open>types.ts\<close>, \<open>errors.ts\<close> of the workflow engine and the tables it uses (\<open>packages/db\<close>).
  \<^item> \<open>WfEngine\<close>, \<open>WfEngineProps\<close>, \<open>WfDemo\<close>: \<open>engine.ts\<close> and \<open>redact.ts\<close>: \<open>executeTransition\<close>,
    \<open>overrideWorkflowState\<close>, \<open>getAvailableTransitions\<close>, \<open>getWorkflowEventLog\<close> and the timers.
  \<^item> \<open>WfCrud\<close>, \<open>WfSystem\<close>, \<open>WfIntegrity\<close>, \<open>WfSystemProps\<close>: \<open>workflow-crud.ts\<close> and
    \<open>authorization.ts\<close>, and sequences of operations of both files.
  \<^item> \<open>EntityAccess\<close>: \<open>entity-access.ts\<close> and \<open>emit-access-event.ts\<close>.
  \<^item> \<open>RecSchema\<close>, \<open>RecValidation\<close>, \<open>RecGuards\<close>, \<open>RecEngine\<close>, \<open>RecUpdate\<close>, \<open>RecBulk\<close>, \<open>RecTree\<close>,
    \<open>RecRelations\<close>, \<open>RecRead\<close>, \<open>RecTypes\<close>: the record engine, \<open>packages/entity-engine/src\<close>: its data and
    validation, the rules every write obeys, single and bulk writes, children and archive, links, reading,
    and the maintenance of types. \<open>RecOps\<close>, \<open>RecStep\<close>, \<open>RecProps\<close>, \<open>RecDue\<close> and \<open>RecDemo\<close> treat all
    writing operations as one system with a step relation.
  \<^item> \<open>TriggerEvents\<close>, \<open>CircuitBreaker\<close>, \<open>Automation\<close>, \<open>AutomationProps\<close>:
    \<open>packages/automation-engine/src\<close>: the event schemas and rule scope, the breaker, the executor
    with the transition action, and the maintenance of rules.
  \<^item> \<open>OutboxDelivery\<close>, \<open>DeliveryProps\<close>: \<open>apps/worker/src/outbox-poller.ts\<close> and \<open>automation-worker.ts\<close>.
  \<^item> \<open>SlaWorker\<close>: \<open>apps/worker/src/sla-scheduler.ts\<close> and \<open>sla-breacher.ts\<close>.
  \<^item> \<open>DueDate\<close>: \<open>apps/worker/src/due-date-scheduler.ts\<close>, \<open>due-date-worker.ts\<close> and
    \<open>due-date-approaching-worker.ts\<close>.
  \<^item> \<open>Rotation\<close>, \<open>RotationProps\<close>, \<open>Oncall\<close>: \<open>packages/teams/src\<close>: the rotation rules, the stored roster
    and who is on call. \<open>OncallWorker\<close>, \<open>OncallProps\<close>: \<open>apps/worker/src/oncall-rotation-worker.ts\<close>.
  \<^item> \<open>OrgTree\<close>, \<open>OrgSync\<close>, \<open>OrgQuery\<close>, \<open>OrgProps\<close>: \<open>packages/org-directory/src\<close>: the tree builder,
    the synchronisation run and the queries.
  \<^item> \<open>Idempotency\<close>: \<open>apps/api/src/lib/idempotency.ts\<close>.
  \<^item> \<open>Mfa\<close>, \<open>MfaRace\<close>: \<open>packages/auth/src/platform-admin-mfa.ts\<close>, as whole calls and, for the
    verification of a code, as the single commands that simultaneous calls interleave.
  \<^item> \<open>RateLimit\<close>: \<open>packages/redis/src/rate-limit.ts\<close>, \<open>apps/api/src/lib/rate-limit-tiers.ts\<close>,
    \<open>apps/api/src/middleware/rate-limit.ts\<close> and \<open>packages/auth/src/tenant-rate-limit.ts\<close>.
  \<^item> \<open>TenantCache\<close>, \<open>TenantLifecycle\<close>: \<open>packages/auth/src/tenant-status-cache.ts\<close> with the look-ups of
    \<open>middleware.ts\<close>, \<open>apps/api/src/lib/tenant-lifecycle.ts\<close> and the end of \<open>apps/worker/src/tenant-purge.ts\<close>.

  \<^bold>\<open>How state and operations correspond.\<close> A database table is a list of records with the columns of
  the schema that the modelled code uses, in insertion order; a query without an order takes rows in
  that order. An operation is a function from the tables to an error or a result with new tables;
  returning an error stands for the rollback of the enclosing transaction. Errors are the error codes
  of the code, with their metadata, and failures of the database such as a violated unique index or
  foreign key. Where a call consists of several transactions (the tenant lifecycle, idempotency keys,
  the sweeps of the workers, the announcements of the roster) what an earlier one has committed stays. The
  executor of automation rules also threads what a rollback does not undo: the counters of the key-value
  server and the number of calls made so far. The delayed-job queues are lists of jobs outside the
  transaction that ignore an id they know. Walks over stored parents are recursive definitions that stop
  by themselves or are partial; where the code may fail to return, \<open>None\<close> says so.

  \<^bold>\<open>Parameters.\<close> Clocks, generated ids, the outcome of lock requests, failing statements and queue
  operations, the activity of a tenant, the formats of ids and timestamps and the parser of the validation
  library, the sandbox of formulas, the analyser of patterns, hash functions, the handler behind an
  idempotency key, the identity provider of the directory and the action handlers other than the
  transition are arguments, collected in a record per component (\<open>wf_env\<close>, \<open>rec_env\<close>, \<open>auto_env\<close>,
  \<open>outbox_env\<close>, \<open>sla_env\<close>, \<open>due_env\<close>, \<open>oncall_env\<close>, \<open>org_env\<close>, \<open>idem_code\<close>, \<open>mfa_config\<close>,
  \<open>rl_env\<close>, \<open>tl_env\<close>). A theorem that relies on them says so in its hypotheses and has a witness at a
  concrete instance.

  \<^bold>\<open>What is shown.\<close>
  \<^item> Workflow engine: replays of an idempotency key, the guards of a transition, refinement of an abstract
    state machine with a log, the log replays to the current state, at most one pending timer per record,
    segregation of duties, the offered transitions are the executable ones. The laws that both
    state-changing operations share are proved once in the locale \<open>state_change_op\<close>.
  \<^item> Maintenance: isolation of tenants and referential integrity under any sequence of operations
    (locales \<open>tenant_op\<close> and \<open>workflow_op\<close>, interpreted on all eleven operations), and that a missing right
    looks like a missing workflow.
  \<^item> Records: the lock on direct state writes, isolation of tenants, the mandatory values and the reserved
    fields, for every operation through the locale \<open>record_op\<close>, and accurate due-date markers.
  \<^item> Access: comment access against read access, completeness of the access list, and that history
    writing disturbs nothing (locale \<open>history_writer\<close>).
  \<^item> Automation: entries of the execution log are justified and only added, a rule succeeds at most once
    per transition, the window of the circuit breaker (locale \<open>breaker\<close>). The executor calls itself one
    level deeper through a locale, \<open>follow_up\<close>, that every level interprets.
  \<^item> Workers: every event reaches its queue (locale \<open>outbox_producer\<close> for the operations that write one), a
    breach is reported exactly when the record is in the state of the timer, a due date is reported in time
    and only while it stands.
  \<^item> On-call: soundness and fairness of the next assignment, planned and projected windows (locale
    \<open>window_source\<close>), one generation of the roster whatever fails, and one holder of each role.
  \<^item> Organisation: no cycles, faithful parents, the walks return, the rebuild succeeds, everyone reaches
    the root.
  \<^item> Guards of a request: a handler behind an idempotency key runs once and its keys do not collide; a
    session counts as verified only after a code that was sent, and guesses are bounded also when calls
    overlap; the sliding window
    admits at most its limit; a changed limit and a changed status of a tenant take effect within a bound;
    the audit log of a tenant has one entry per change of its status, in no promised order.

  \<^bold>\<open>Bounds.\<close> The executor recurses over the levels left below \<open>MAX_DEPTH\<close>, ten as in the code, and at
  zero returns the error the code throws; no other fuel is used for it. Planning of windows recurses up
  to the step limit of the code. The batches of the pollers are those of the code.

  \<^bold>\<open>Not modelled.\<close> Of the record engine: full-text search (\<open>search.ts\<close>), the export of user data and the
  text form of a cursor. Of the automation engine: the action handlers that send messages or call remote
  services. Of the workers: purges, exports, retention and alerts. Of authentication: verification of tokens
  and the management of the identity provider. The browser application, the routes, notifications, files,
  connectors, plugins and telemetry are left out: they are user interface, wiring or calls to remote
  services. Concurrency is modelled where the code has it in view: operations of one transaction are
  atomic and interleave as a sequence, a lock that cannot be had is an outcome, and the steps of requests
  to idempotency keys, caches, the check of a second factor and the tenant lifecycle interleave freely.
  Not among the outcomes are a failing update of the outbox rows after their jobs were added, which only
  adds them again under the same ids, and a missing connection in the middleware of the rate limits, which
  is an exception there. Row-level security of the
  database is modelled only in the maintenance of types; elsewhere the filters on the tenant in the queries
  are, and isolation is proved from them. Strings are sequences of characters; the length of a string and
  its lower case are those of ASCII text.
\<close>

end
